(* ===== verification/Prelude.thy ===== *)
theory Prelude
  imports Main "HOL-Library.Word" "HOL-Library.AList" "HOL-Library.Sublist"
begin

text \<open>
  Shared vocabulary of the development: machine integers and byte strings, the result type of
  fallible Rust code (a value, an error, or a panic), the little- and big-endian encodings of
  the standard library, prefix stripping and checked arithmetic.

  Every fallible function of the program returns a \<open>res\<close>: \<open>Ok\<close> is Rust's
  \<open>Ok\<close>, \<open>Err\<close> its \<open>Err\<close>, and \<open>Panic\<close> stands for an unwinding panic (a failed
  \<open>expect\<close> or an index out of bounds). \<open>bind_res\<close> is the question-mark operator: it
  continues after \<open>Ok\<close> and propagates the two failures. Errors of the code base are the
  values of \<open>error\<close>: an \<open>anyhow\<close> message, or one of the typed \<open>ProgramError\<close>s the
  program raises.
\<close>

section \<open>Types\<close>

type_synonym byte = "8 word"
type_synonym u32 = "32 word"
type_synonym u64 = "64 word"
type_synonym bytes = "byte list"

text \<open>A 32-byte hash value: session ids, evaluator ids, program ids, sighashes.\<close>

type_synonym hash = bytes

text \<open>A serialized public key.\<close>

type_synonym pubkey = bytes

text \<open>A Bitcoin script, by its bytes.\<close>

type_synonym script = bytes

datatype ('e, 'a) res = Ok 'a | Err 'e | Panic

text \<open>
  \<open>ProgramError\<close> of the Sapio oracle, with the variants this program constructs, and the
  errors of the program: an \<open>anyhow\<close> message (for a \<open>context\<close> the outermost one) or a
  \<open>ProgramError\<close>.
\<close>

datatype program_error =
    PsbtError string
  | FinalizedInput
  | UnknownEvaluator hash
  | EvaluationFailed string
  | Rejected
  | RootDepth byte

datatype error = Msg string | Program program_error

type_synonym 'a result = "(error, 'a) res"

section \<open>Shared operations\<close>

subsection \<open>Results\<close>

fun bind_res :: "('e, 'a) res \<Rightarrow> ('a \<Rightarrow> ('e, 'b) res) \<Rightarrow> ('e, 'b) res" where
  "bind_res (Ok x) f = f x"
| "bind_res (Err e) f = Err e"
| "bind_res Panic f = Panic"

fun map_err :: "('e \<Rightarrow> 'f) \<Rightarrow> ('e, 'a) res \<Rightarrow> ('f, 'a) res" where
  "map_err g (Ok x) = Ok x"
| "map_err g (Err e) = Err (g e)"
| "map_err g Panic = Panic"

fun is_ok :: "('e, 'a) res \<Rightarrow> bool" where
  "is_ok (Ok x) = True"
| "is_ok (Err e) = False"
| "is_ok Panic = False"

text \<open>\<open>Option::context\<close> and \<open>Option::ok_or\<close>.\<close>

fun ok_or :: "'e \<Rightarrow> 'a option \<Rightarrow> ('e, 'a) res" where
  "ok_or e None = Err e"
| "ok_or e (Some x) = Ok x"

text \<open>\<open>Option::map(f).transpose()\<close>.\<close>

fun transpose_res :: "('a \<Rightarrow> ('e, 'b) res) \<Rightarrow> 'a option \<Rightarrow> ('e, 'b option) res" where
  "transpose_res f None = Ok None"
| "transpose_res f (Some x) = bind_res (f x) (\<lambda>y. Ok (Some y))"

text \<open>\<open>iter().map(f).collect::<Result<Vec<_>>>()\<close>: stops at the first failure.\<close>

fun collect_res :: "('a \<Rightarrow> ('e, 'b) res) \<Rightarrow> 'a list \<Rightarrow> ('e, 'b list) res" where
  "collect_res f [] = Ok []"
| "collect_res f (x # xs) = bind_res (f x) (\<lambda>y. bind_res (collect_res f xs) (\<lambda>ys. Ok (y # ys)))"

subsection \<open>Bytes\<close>

text \<open>\<open>le_nat k v\<close> is the \<open>k\<close>-byte little-endian encoding of \<open>v\<close> modulo \<open>256 ^ k\<close>.\<close>

fun le_nat :: "nat \<Rightarrow> nat \<Rightarrow> bytes" where
  "le_nat 0 v = []"
| "le_nat (Suc k) v = word_of_nat v # le_nat k (v div 256)"

fun nat_le :: "bytes \<Rightarrow> nat" where
  "nat_le [] = 0"
| "nat_le (b # bs) = unat b + 256 * nat_le bs"

definition u32_to_le :: "u32 \<Rightarrow> bytes" where
  "u32_to_le w = le_nat 4 (unat w)"

definition u64_to_le :: "u64 \<Rightarrow> bytes" where
  "u64_to_le w = le_nat 8 (unat w)"

definition u32_from_le :: "bytes \<Rightarrow> u32" where
  "u32_from_le bs = word_of_nat (nat_le bs)"

definition u64_from_le :: "bytes \<Rightarrow> u64" where
  "u64_from_le bs = word_of_nat (nat_le bs)"

definition u32_to_be :: "u32 \<Rightarrow> bytes" where
  "u32_to_be w = rev (le_nat 4 (unat w))"

text \<open>A byte-string literal of the source, \<open>b"..."\<close>, and the bytes of a \<open>str\<close>.\<close>

definition str_bytes :: "string \<Rightarrow> bytes" where
  "str_bytes s = map of_char s"

text \<open>\<open>u32::try_from(usize)\<close>.\<close>

definition u32_try_from :: "nat \<Rightarrow> u32 option" where
  "u32_try_from n = (if n < 2 ^ 32 then Some (word_of_nat n) else None)"

text \<open>\<open>usize::checked_add\<close> on the 64-bit targets the enclave is built for.\<close>

definition checked_add_usize :: "nat \<Rightarrow> nat \<Rightarrow> nat option" where
  "checked_add_usize a b = (if a + b < 2 ^ 64 then Some (a + b) else None)"

text \<open>\<open>slice::strip_prefix\<close> and \<open>str::strip_prefix\<close>.\<close>

fun strip_prefix :: "'a list \<Rightarrow> 'a list \<Rightarrow> 'a list option" where
  "strip_prefix [] ys = Some ys"
| "strip_prefix (x # xs) [] = None"
| "strip_prefix (x # xs) (y # ys) = (if x = y then strip_prefix xs ys else None)"

text \<open>\<open>str::split(c)\<close>: always at least one field.\<close>

fun split_on :: "'a \<Rightarrow> 'a list \<Rightarrow> 'a list list" where
  "split_on c [] = [[]]"
| "split_on c (x # xs) =
     (if x = c then [] # split_on c xs
      else (case split_on c xs of [] \<Rightarrow> [[x]] | f # fs \<Rightarrow> (x # f) # fs))"

text \<open>\<open>slice::get\<close>.\<close>

definition list_get :: "'a list \<Rightarrow> nat \<Rightarrow> 'a option" where
  "list_get xs i = (if i < length xs then Some (xs ! i) else None)"

section \<open>Automation\<close>

named_theorems byte_simps \<open>lengths and round trips of the integer encodings\<close>

named_theorems res_inv \<open>inversion of successful results\<close>

subsection \<open>Result lemmas\<close>

text \<open>A congruence for evaluation: the continuation is left alone until its argument is known.\<close>

lemma bind_res_weak_cong: "m = m' \<Longrightarrow> bind_res m f = bind_res m' f"
  by simp

lemma bind_res_eq_Ok [res_inv]:
  "bind_res m f = Ok y \<longleftrightarrow> (\<exists>x. m = Ok x \<and> f x = Ok y)"
  by (cases m) auto

lemma bind_res_eq_Err:
  "bind_res m f = Err e \<longleftrightarrow> m = Err e \<or> (\<exists>x. m = Ok x \<and> f x = Err e)"
  by (cases m) auto

lemma bind_res_eq_Panic:
  "bind_res m f = Panic \<longleftrightarrow> m = Panic \<or> (\<exists>x. m = Ok x \<and> f x = Panic)"
  by (cases m) auto

lemma map_err_eq_Ok [res_inv]: "map_err g m = Ok x \<longleftrightarrow> m = Ok x"
  by (cases m) auto

lemma map_err_eq_Panic [simp]: "map_err g m = Panic \<longleftrightarrow> m = Panic"
  by (cases m) auto

lemma map_err_eq_Err: "map_err g m = Err e \<longleftrightarrow> (\<exists>e'. m = Err e' \<and> e = g e')"
  by (cases m) auto

lemma ok_or_eq_Ok [res_inv]: "ok_or e m = Ok x \<longleftrightarrow> m = Some x"
  by (cases m) auto

lemma ok_or_not_Panic [simp]: "ok_or e m \<noteq> Panic"
  by (cases m) auto

lemma is_ok_iff: "is_ok m \<longleftrightarrow> (\<exists>x. m = Ok x)"
  by (cases m) auto

lemma if_Ok_iff [res_inv]:
  "(if c then Err e else m) = Ok x \<longleftrightarrow> \<not> c \<and> m = Ok x"
  "(if c then m else Err e) = Ok x \<longleftrightarrow> c \<and> m = Ok x"
  by auto

lemma transpose_res_eq_Ok [res_inv]:
  "transpose_res f m = Ok r \<longleftrightarrow>
     (case m of None \<Rightarrow> r = None | Some x \<Rightarrow> (\<exists>y. f x = Ok y \<and> r = Some y))"
  by (cases m) (auto simp: bind_res_eq_Ok)

lemma collect_res_eq_Ok [res_inv]:
  "collect_res f xs = Ok ys \<longleftrightarrow> list_all2 (\<lambda>x y. f x = Ok y) xs ys"
  by (induction xs arbitrary: ys) (auto simp: bind_res_eq_Ok list_all2_Cons1)

lemma collect_res_not_Panic:
  "(\<And>x. x \<in> set xs \<Longrightarrow> f x \<noteq> Panic) \<Longrightarrow> collect_res f xs \<noteq> Panic"
  by (induction xs) (auto simp: bind_res_eq_Panic)

lemma collect_res_map_Ok: "collect_res (\<lambda>x. Ok (f x)) xs = Ok (map f xs)"
  by (induction xs) auto

subsection \<open>Byte lemmas\<close>

lemma le_nat_numeral [simp]:
  "le_nat (numeral k) v = word_of_nat v # le_nat (pred_numeral k) (v div 256)"
  by (subst numeral_eq_Suc) (rule le_nat.simps(2))

lemma length_le_nat [simp, byte_simps]: "length (le_nat k v) = k"
  by (induction k arbitrary: v) auto

lemma unat_byte_of_nat: "unat (word_of_nat v :: byte) = v mod 256"
  by (simp add: unat_of_nat)

lemma nat_le_le_nat: "nat_le (le_nat k v) = v mod 256 ^ k"
proof (induction k arbitrary: v)
  case 0
  show ?case by simp
next
  case (Suc k)
  have "nat_le (le_nat (Suc k) v) = v mod 256 + 256 * (v div 256 mod 256 ^ k)"
    by (simp add: Suc.IH unat_byte_of_nat)
  also have "\<dots> = v mod (256 * 256 ^ k)"
    by (simp add: mod_mult2_eq)
  finally show ?case by simp
qed

lemma nat_le_bound: "nat_le bs < 256 ^ length bs"
proof (induction bs)
  case Nil
  show ?case by simp
next
  case (Cons b bs)
  have "unat b < 256" using unsigned_less [of b, where ?'a = nat] by simp
  moreover have "nat_le bs + 1 \<le> 256 ^ length bs" using Cons.IH by simp
  then have "256 * nat_le bs + 256 \<le> 256 * 256 ^ length bs" by linarith
  ultimately show ?case by simp
qed

lemma le_nat_nat_le: "le_nat (length bs) (nat_le bs) = bs"
proof (induction bs)
  case Nil
  show ?case by simp
next
  case (Cons b bs)
  have "unat b < 256" using unsigned_less [of b, where ?'a = nat] by simp
  then have "(unat b + 256 * nat_le bs) div 256 = nat_le bs"
    by simp
  moreover have "(word_of_nat (unat b + 256 * nat_le bs) :: byte) = b"
    using \<open>unat b < 256\<close> by (simp only: word_unat_eq_iff unat_byte_of_nat) simp
  ultimately show ?case using Cons.IH by simp
qed

lemma le_nat_inj:
  assumes "le_nat k v = le_nat k w" "v < 256 ^ k" "w < 256 ^ k"
  shows "v = w"
  using assms by (metis nat_le_le_nat mod_less)

lemma length_u32_to_le [simp, byte_simps]: "length (u32_to_le w) = 4"
  by (simp only: u32_to_le_def length_le_nat)

lemma length_u64_to_le [simp, byte_simps]: "length (u64_to_le w) = 8"
  by (simp only: u64_to_le_def length_le_nat)

lemma length_u32_to_be [simp, byte_simps]: "length (u32_to_be w) = 4"
  by (simp only: u32_to_be_def length_rev length_le_nat)

lemma length_str_bytes [simp, byte_simps]: "length (str_bytes s) = length s"
  by (simp add: str_bytes_def)

lemma u32_from_to_le [simp, byte_simps]: "u32_from_le (u32_to_le w) = w"
proof -
  have "unat w < 256 ^ 4" using unsigned_less [of w, where ?'a = nat] by simp
  then show ?thesis
    by (simp only: u32_from_le_def u32_to_le_def nat_le_le_nat mod_less) simp
qed

lemma u64_from_to_le [simp, byte_simps]: "u64_from_le (u64_to_le w) = w"
proof -
  have "unat w < 256 ^ 8" using unsigned_less [of w, where ?'a = nat] by simp
  then show ?thesis
    by (simp only: u64_from_le_def u64_to_le_def nat_le_le_nat mod_less) simp
qed

lemma unat_u32_from_le: "length bs = 4 \<Longrightarrow> unat (u32_from_le bs) = nat_le bs"
  using nat_le_bound [of bs] by (simp add: u32_from_le_def unat_of_nat)

lemma unat_u64_from_le: "length bs = 8 \<Longrightarrow> unat (u64_from_le bs) = nat_le bs"
  using nat_le_bound [of bs] by (simp add: u64_from_le_def unat_of_nat)

lemma u32_to_from_le: "length bs = 4 \<Longrightarrow> u32_to_le (u32_from_le bs) = bs"
  using le_nat_nat_le [of bs] by (simp only: u32_to_le_def unat_u32_from_le)

lemma u64_to_from_le: "length bs = 8 \<Longrightarrow> u64_to_le (u64_from_le bs) = bs"
  using le_nat_nat_le [of bs] by (simp only: u64_to_le_def unat_u64_from_le)

lemma u32_to_le_inj [simp]: "u32_to_le v = u32_to_le w \<longleftrightarrow> v = w"
  by (metis u32_from_to_le)

lemma u64_to_le_inj [simp]: "u64_to_le v = u64_to_le w \<longleftrightarrow> v = w"
  by (metis u64_from_to_le)

lemma u32_to_be_inj [simp]: "u32_to_be v = u32_to_be w \<longleftrightarrow> v = w"
  by (simp only: u32_to_be_def rev_is_rev_conv flip: u32_to_le_def) simp

lemma unat_word_of_nat_u32: "n < 2 ^ 32 \<Longrightarrow> unat (word_of_nat n :: u32) = n"
  by (simp add: unat_of_nat)

lemma u32_try_from_eq_Some [simp]:
  "u32_try_from n = Some w \<longleftrightarrow> n < 2 ^ 32 \<and> w = word_of_nat n"
  by (auto simp: u32_try_from_def)

lemma checked_add_usize_u32 [simp]:
  "checked_add_usize 4 (unat (w :: u32)) = Some (4 + unat w)"
proof -
  have "unat w < 2 ^ 32" using unsigned_less [of w, where ?'a = nat] by simp
  then show ?thesis by (simp add: checked_add_usize_def)
qed

lemma checked_add_usize_small [simp]:
  "a + b < 2 ^ 64 \<Longrightarrow> checked_add_usize a b = Some (a + b)"
  by (simp add: checked_add_usize_def)

lemma list_get_eq_Some [simp]: "list_get xs i = Some x \<longleftrightarrow> i < length xs \<and> xs ! i = x"
  by (auto simp: list_get_def)

lemma str_bytes_append [simp]: "str_bytes (s @ t) = str_bytes s @ str_bytes t"
  by (simp add: str_bytes_def)

lemma inj_of_char_byte: "inj (of_char :: char \<Rightarrow> byte)"
proof (rule injI)
  fix c d :: char
  assume "of_char c = (of_char d :: byte)"
  then have "unat (word_of_nat (of_char c) :: byte) = unat (word_of_nat (of_char d) :: byte)"
    by (simp only: of_nat_of_char)
  then have "(of_char c :: nat) mod 256 = of_char d mod 256"
    by (simp only: unat_byte_of_nat)
  then show "c = d" by simp
qed

lemma str_bytes_inj [simp]: "str_bytes s = str_bytes t \<longleftrightarrow> s = t"
proof -
  have "inj (of_char :: char \<Rightarrow> byte)"
    by (rule inj_of_char_byte)
  then show ?thesis
    by (simp add: str_bytes_def inj_map_eq_map)
qed

subsection \<open>Prefixes and splitting\<close>

lemma strip_prefix_eq_Some [simp]: "strip_prefix p xs = Some r \<longleftrightarrow> xs = p @ r"
  by (induction p xs rule: strip_prefix.induct) auto

lemma strip_prefix_append [simp]: "strip_prefix p (p @ r) = Some r"
  by simp

lemma strip_prefix_eq_None: "strip_prefix p xs = None \<longleftrightarrow> \<not> prefix p xs"
  by (induction p xs rule: strip_prefix.induct) auto

lemma split_on_not_Nil [simp]: "split_on c xs \<noteq> []"
  by (induction xs) (auto split: list.splits)

lemma split_on_single: "c \<notin> set xs \<Longrightarrow> split_on c xs = [xs]"
  by (induction xs) auto

lemma split_on_append: "c \<notin> set xs \<Longrightarrow> split_on c (xs @ c # ys) = xs # split_on c ys"
  by (induction xs) auto

lemma split_on_fields: "f \<in> set (split_on c xs) \<Longrightarrow> c \<notin> set f"
  by (induction xs arbitrary: f) (auto split: list.splits if_splits)

lemma split_on_join:
  "split_on c xs = f # fs \<Longrightarrow> xs = f @ concat (map (\<lambda>g. c # g) fs)"
proof (induction xs arbitrary: f fs)
  case Nil
  then show ?case by simp
next
  case (Cons x xs)
  obtain g gs where g: "split_on c xs = g # gs"
    using split_on_not_Nil [of c xs] by (cases "split_on c xs") auto
  have "f # fs = (if x = c then [] # g # gs else (x # g) # gs)"
    using Cons.prems g by (cases "x = c") auto
  moreover have "xs = g @ concat (map (\<lambda>h. c # h) gs)"
    by (rule Cons.IH [OF g])
  ultimately show ?case by (auto split: if_splits)
qed

end
