(* ===== verification/Bitcoin_Types.thy ===== *)
theory Bitcoin_Types
  imports Prelude
begin

text \<open>
  The data of the Bitcoin and Ark crates that the program reads: transactions, PSBT maps and
  the authenticated signing context \<open>SigningInput\<close>. Each record has the fields the source
  accesses; what the source never looks at is one opaque byte string, so that third-party
  functions over these values (annex extraction, PSBT validation, the signature hash) remain
  free to depend on it. A transaction version is the 32 bits of its signed integer.
\<close>

section \<open>Transactions\<close>

record outpoint =
  op_txid :: hash
  op_vout :: u32

record tx_in =
  ti_previous_output :: outpoint
  ti_sequence :: u32

record tx_out =
  txo_value :: u64
  txo_script_pubkey :: script

record transaction =
  tx_version :: u32
  tx_lock_time :: u32
  tx_input :: "tx_in list"
  tx_output :: "tx_out list"

section \<open>Networks and extended keys\<close>

datatype network = Bitcoin | Testnet | Testnet4 | Signet | Regtest

datatype network_kind = NetMain | NetTest

text \<open>\<open>NetworkKind::from(Network)\<close>, the documented mapping of the bitcoin crate.\<close>

fun kind_of_network :: "network \<Rightarrow> network_kind" where
  "kind_of_network Bitcoin = NetMain"
| "kind_of_network _ = NetTest"

text \<open>BIP32 keys: the fields the program reads, and the key material.\<close>

record xpriv =
  xprv_network :: network_kind
  xprv_depth :: byte
  xprv_key :: bytes

record xpub =
  xpub_network :: network_kind
  xpub_depth :: byte
  xpub_key :: bytes

section \<open>PSBTs and signing contexts\<close>

text \<open>The Taproot scripts of an input map a control block to a leaf: its script and leaf version.\<close>

record psbt_input =
  pi_witness_utxo :: "tx_out option"
  pi_tap_internal_key :: "bytes option"
  pi_final_script_sig :: "script option"
  pi_final_script_witness :: "bytes list option"
  pi_tap_merkle_root :: "hash option"
  pi_non_witness_utxo :: "transaction option"
  pi_sighash_type :: "u32 option"
  pi_tap_scripts :: "(bytes \<times> script \<times> byte) list"
  pi_other :: bytes

record psbt =
  psbt_unsigned_tx :: transaction
  psbt_inputs :: "psbt_input list"
  psbt_other :: bytes

record signing_input =
  si_psbt :: psbt
  si_input_index :: nat
  si_script_leaf :: "hash option"
  si_participants :: "pubkey list"
  si_tweak :: "bytes option"
  si_other :: bytes

datatype wasm_version = V1 | V2

text \<open>\<open>ProgramInstance\<close>: the committed evaluator id, program bytes and parameters.\<close>

record program_instance =
  pr_evaluator :: hash
  pr_program :: bytes
  pr_parameters :: bytes

text \<open>\<open>WasmEvaluator\<close>: a registered interpreter.\<close>

record wasm_evaluator =
  we_id :: hash
  we_version :: wasm_version
  we_module :: bytes

instantiation wasm_version :: linorder
begin

definition less_eq_wasm_version :: "wasm_version \<Rightarrow> wasm_version \<Rightarrow> bool" where
  "less_eq_wasm_version a b \<longleftrightarrow> a = V1 \<or> b = V2"

definition less_wasm_version :: "wasm_version \<Rightarrow> wasm_version \<Rightarrow> bool" where
  "less_wasm_version a b \<longleftrightarrow> a = V1 \<and> b = V2"

instance
proof
  fix x y z :: wasm_version
  show "x < y \<longleftrightarrow> x \<le> y \<and> \<not> y \<le> x"
    by (cases x; cases y) (auto simp: less_eq_wasm_version_def less_wasm_version_def)
  show "x \<le> x" by (cases x) (auto simp: less_eq_wasm_version_def)
  show "x \<le> y \<Longrightarrow> y \<le> z \<Longrightarrow> x \<le> z"
    by (cases x; cases y) (auto simp: less_eq_wasm_version_def)
  show "x \<le> y \<Longrightarrow> y \<le> x \<Longrightarrow> x = y"
    by (cases x; cases y) (auto simp: less_eq_wasm_version_def)
  show "x \<le> y \<or> y \<le> x" by (cases x) (auto simp: less_eq_wasm_version_def)
qed

end

end
