(* ===== verification/Signed_View.thy ===== *)
theory Signed_View
  imports Bitcoin_Types
begin

text \<open>
  The signed transaction view a predicate receives, \<open>encode_view\<close> of
  \<open>src/src/evaluator.rs\<close>: the size computation that bounds it before anything is copied, and
  the byte layout. The consensus encoding of an outpoint belongs to the bitcoin crate and is
  the parameter \<open>enc\<close>; the code relies on its 36 bytes.

  \<open>decode_view\<close> is a reference decoder of the layout. It recovers every field of the view, so
  the encoding is injective: a predicate that sees a view has seen the transaction.
\<close>

section \<open>Operations\<close>

definition MAX_SIGNED_VIEW_BYTES :: nat where
  "MAX_SIGNED_VIEW_BYTES = 1048576"

text \<open>The closure \<open>add\<close>: the running size stays within the limit or the view is refused.\<close>

definition add_size :: "nat \<Rightarrow> nat \<Rightarrow> (string, nat) res" where
  "add_size sz amount =
     (case checked_add_usize sz amount of
        None \<Rightarrow> Err ''signed transaction view exceeds 1048576 bytes''
      | Some t \<Rightarrow>
          if t \<le> MAX_SIGNED_VIEW_BYTES then Ok t
          else Err ''signed transaction view exceeds 1048576 bytes'')"

fun add_prevouts :: "nat \<Rightarrow> psbt_input list \<Rightarrow> (string, nat) res" where
  "add_prevouts sz [] = Ok sz"
| "add_prevouts sz (m # ms) =
     (case pi_witness_utxo m of
        None \<Rightarrow> Panic
      | Some prevout \<Rightarrow>
          bind_res (add_size sz 52) (\<lambda>size1.
          bind_res (add_size size1 (length (txo_script_pubkey prevout))) (\<lambda>size2.
          add_prevouts size2 ms)))"

fun add_outputs :: "nat \<Rightarrow> tx_out list \<Rightarrow> (string, nat) res" where
  "add_outputs sz [] = Ok sz"
| "add_outputs sz (out # outs) =
     bind_res (add_size sz 12) (\<lambda>size1.
     bind_res (add_size size1 (length (txo_script_pubkey out))) (\<lambda>size2.
     add_outputs size2 outs))"

text \<open>The bounded size, computed before any byte is copied.\<close>

definition view_size :: "wasm_version \<Rightarrow> signing_input \<Rightarrow> (string, nat) res" where
  "view_size version inp =
     bind_res (add_prevouts 20 (psbt_inputs (si_psbt inp))) (\<lambda>size1.
     bind_res (add_outputs size1 (tx_output (psbt_unsigned_tx (si_psbt inp)))) (\<lambda>size2.
     if version = V2 then add_size size2 36 else Ok size2))"

definition encode_script :: "script \<Rightarrow> bytes" where
  "encode_script s = u32_to_le (word_of_nat (length s)) @ s"

definition encode_input :: "(outpoint \<Rightarrow> bytes) \<Rightarrow> tx_in \<times> tx_out \<Rightarrow> bytes" where
  "encode_input enc p =
     enc (ti_previous_output (fst p)) @ u32_to_le (ti_sequence (fst p)) @
     u64_to_le (txo_value (snd p)) @ encode_script (txo_script_pubkey (snd p))"

definition encode_output :: "tx_out \<Rightarrow> bytes" where
  "encode_output out = u64_to_le (txo_value out) @ encode_script (txo_script_pubkey out)"

text \<open>The iterator \<open>prevouts()\<close>; \<open>view_size\<close> has already panicked on a missing entry.\<close>

definition prevouts :: "psbt_input list \<Rightarrow> tx_out list" where
  "prevouts ms = map (\<lambda>m. the (pi_witness_utxo m)) ms"

definition int_conversion_error :: string where
  "int_conversion_error = ''out of range integral type conversion attempted''"

definition encode_view ::
  "(outpoint \<Rightarrow> bytes) \<Rightarrow> wasm_version \<Rightarrow> signing_input \<Rightarrow> (string, bytes) res" where
  "encode_view enc version inp =
     (let tx = psbt_unsigned_tx (si_psbt inp); ms = psbt_inputs (si_psbt inp) in
      bind_res (view_size version inp) (\<lambda>_.
      bind_res (ok_or int_conversion_error (u32_try_from (length (tx_input tx)))) (\<lambda>input_count.
      bind_res (ok_or int_conversion_error (u32_try_from (length (tx_output tx)))) (\<lambda>output_count.
      bind_res (ok_or int_conversion_error (u32_try_from (si_input_index inp))) (\<lambda>input_index.
      let body =
        u32_to_le (tx_version tx) @ u32_to_le (tx_lock_time tx) @
        u32_to_le input_index @ u32_to_le input_count @
        concat (map (encode_input enc) (zip (tx_input tx) (prevouts ms))) @
        u32_to_le output_count @ concat (map encode_output (tx_output tx))
      in if version = V2 then
           (if si_input_index inp < length ms then
              bind_res (ok_or ''missing authenticated internal key''
                          (pi_tap_internal_key (ms ! si_input_index inp))) (\<lambda>internal.
              Ok (body @ internal @ u32_to_le 0))
            else Panic)
         else Ok body)))))"

section \<open>Specification\<close>

text \<open>What a view says: the decoded fields, with each outpoint as its 36 encoded bytes.\<close>

record view_input =
  vi_outpoint :: bytes
  vi_sequence :: u32
  vi_value :: u64
  vi_script :: script

record signed_view =
  sv_version :: u32
  sv_lock_time :: u32
  sv_input_index :: u32
  sv_inputs :: "view_input list"
  sv_outputs :: "tx_out list"
  sv_internal_key :: "bytes option"

definition take_exact :: "nat \<Rightarrow> bytes \<Rightarrow> (bytes \<times> bytes) option" where
  "take_exact n bs = (if n \<le> length bs then Some (take n bs, drop n bs) else None)"

definition take_script :: "bytes \<Rightarrow> (script \<times> bytes) option" where
  "take_script bs =
     Option.bind (take_exact 4 bs) (\<lambda>(l, rest). take_exact (unat (u32_from_le l)) rest)"

definition take_input :: "bytes \<Rightarrow> (view_input \<times> bytes) option" where
  "take_input bs =
     Option.bind (take_exact 36 bs) (\<lambda>(op, r1).
     Option.bind (take_exact 4 r1) (\<lambda>(sq, r2).
     Option.bind (take_exact 8 r2) (\<lambda>(v, r3).
     Option.bind (take_script r3) (\<lambda>(s, r4).
       Some (\<lparr>vi_outpoint = op, vi_sequence = u32_from_le sq, vi_value = u64_from_le v,
              vi_script = s\<rparr>, r4)))))"

definition take_output :: "bytes \<Rightarrow> (tx_out \<times> bytes) option" where
  "take_output bs =
     Option.bind (take_exact 8 bs) (\<lambda>(v, r1).
     Option.bind (take_script r1) (\<lambda>(s, r2).
       Some (\<lparr>txo_value = u64_from_le v, txo_script_pubkey = s\<rparr>, r2)))"

fun take_many :: "(bytes \<Rightarrow> ('a \<times> bytes) option) \<Rightarrow> nat \<Rightarrow> bytes \<Rightarrow> ('a list \<times> bytes) option" where
  "take_many f 0 bs = Some ([], bs)"
| "take_many f (Suc n) bs =
     Option.bind (f bs) (\<lambda>(x, rest). Option.bind (take_many f n rest) (\<lambda>(xs, rest'). Some (x # xs, rest')))"

definition decode_view :: "wasm_version \<Rightarrow> bytes \<Rightarrow> signed_view option" where
  "decode_view version bs =
     Option.bind (take_exact 4 bs) (\<lambda>(ver, r1).
     Option.bind (take_exact 4 r1) (\<lambda>(lt, r2).
     Option.bind (take_exact 4 r2) (\<lambda>(idx, r3).
     Option.bind (take_exact 4 r3) (\<lambda>(nin, r4).
     Option.bind (take_many take_input (unat (u32_from_le nin)) r4) (\<lambda>(ins, r5).
     Option.bind (take_exact 4 r5) (\<lambda>(nout, r6).
     Option.bind (take_many take_output (unat (u32_from_le nout)) r6) (\<lambda>(outs, r7).
     let view = \<lparr>sv_version = u32_from_le ver, sv_lock_time = u32_from_le lt,
                 sv_input_index = u32_from_le idx, sv_inputs = ins, sv_outputs = outs,
                 sv_internal_key = None\<rparr> in
     if version = V2 then
       Option.bind (take_exact 32 r7) (\<lambda>(k, r8).
         if r8 = u32_to_le 0 then Some (view\<lparr>sv_internal_key := Some k\<rparr>) else None)
     else (if r7 = [] then Some view else None))))))))"

text \<open>The view a signing context denotes.\<close>

definition view_input_of :: "(outpoint \<Rightarrow> bytes) \<Rightarrow> tx_in \<times> tx_out \<Rightarrow> view_input" where
  "view_input_of enc p =
     \<lparr>vi_outpoint = enc (ti_previous_output (fst p)), vi_sequence = ti_sequence (fst p),
      vi_value = txo_value (snd p), vi_script = txo_script_pubkey (snd p)\<rparr>"

definition view_of :: "(outpoint \<Rightarrow> bytes) \<Rightarrow> wasm_version \<Rightarrow> signing_input \<Rightarrow> signed_view" where
  "view_of enc version inp =
     (let tx = psbt_unsigned_tx (si_psbt inp); ms = psbt_inputs (si_psbt inp) in
      \<lparr>sv_version = tx_version tx, sv_lock_time = tx_lock_time tx,
       sv_input_index = word_of_nat (si_input_index inp),
       sv_inputs = map (view_input_of enc) (zip (tx_input tx) (prevouts ms)),
       sv_outputs = tx_output tx,
       sv_internal_key = (if version = V2 then pi_tap_internal_key (ms ! si_input_index inp) else None)\<rparr>)"

text \<open>
  The properties of a signing context the adapter relies on, which the native context check
  establishes: one PSBT map per input, every previous output present, the selected input in
  range, x-only keys and transaction ids of 32 bytes.
\<close>

definition wf_outpoint :: "outpoint \<Rightarrow> bool" where
  "wf_outpoint p \<longleftrightarrow> length (op_txid p) = 32"

definition authenticated :: "signing_input \<Rightarrow> bool" where
  "authenticated inp \<longleftrightarrow>
     length (psbt_inputs (si_psbt inp)) = length (tx_input (psbt_unsigned_tx (si_psbt inp))) \<and>
     list_all (\<lambda>m. pi_witness_utxo m \<noteq> None) (psbt_inputs (si_psbt inp)) \<and>
     si_input_index inp < length (psbt_inputs (si_psbt inp)) \<and>
     list_all (\<lambda>m. case pi_tap_internal_key m of None \<Rightarrow> True | Some k \<Rightarrow> length k = 32)
       (psbt_inputs (si_psbt inp)) \<and>
     list_all (\<lambda>i. wf_outpoint (ti_previous_output i)) (tx_input (psbt_unsigned_tx (si_psbt inp)))"

text \<open>What the code relies on of the consensus encoding: 36 bytes for every outpoint, and
  for the binding of outpoints that different outpoints have different encodings.\<close>

definition outpoint_codec :: "(outpoint \<Rightarrow> bytes) \<Rightarrow> bool" where
  "outpoint_codec enc \<longleftrightarrow> (\<forall>p. wf_outpoint p \<longrightarrow> length (enc p) = 36)"

definition outpoint_codec_inj :: "(outpoint \<Rightarrow> bytes) \<Rightarrow> bool" where
  "outpoint_codec_inj enc \<longleftrightarrow> (\<forall>p q. wf_outpoint p \<longrightarrow> wf_outpoint q \<longrightarrow> enc p = enc q \<longrightarrow> p = q)"

text \<open>The consensus encoding, for evaluation: the transaction id, then the output index.\<close>

definition sample_enc :: "outpoint \<Rightarrow> bytes" where
  "sample_enc p = op_txid p @ u32_to_le (op_vout p)"

text \<open>A signing context with one input and one output, for evaluation.\<close>

definition sample_outpoint :: outpoint where
  "sample_outpoint = \<lparr>op_txid = replicate 32 68, op_vout = 0\<rparr>"

definition sample_tx :: transaction where
  "sample_tx = \<lparr>tx_version = 2, tx_lock_time = 500,
     tx_input = [\<lparr>ti_previous_output = sample_outpoint, ti_sequence = 12\<rparr>],
     tx_output = [\<lparr>txo_value = 9000, txo_script_pubkey = [81, 7]\<rparr>]\<rparr>"

definition sample_psbt_input :: psbt_input where
  "sample_psbt_input = \<lparr>pi_witness_utxo = Some \<lparr>txo_value = 10000, txo_script_pubkey = [81, 9]\<rparr>,
     pi_tap_internal_key = Some (replicate 32 1), pi_final_script_sig = None,
     pi_final_script_witness = None, pi_tap_merkle_root = None, pi_non_witness_utxo = None,
     pi_sighash_type = None, pi_tap_scripts = [],
     pi_other = []\<rparr>"

definition sample_context :: signing_input where
  "sample_context = \<lparr>si_psbt = \<lparr>psbt_unsigned_tx = sample_tx, psbt_inputs = [sample_psbt_input],
     psbt_other = []\<rparr>, si_input_index = 0, si_script_leaf = None, si_participants = [],
     si_tweak = None, si_other = []\<rparr>"

definition sample_view :: bytes where
  "sample_view = [2, 0, 0, 0, 244, 1, 0, 0, 0, 0, 0, 0, 1, 0, 0, 0] @ replicate 32 68 @
     [0, 0, 0, 0, 12, 0, 0, 0, 16, 39, 0, 0, 0, 0, 0, 0, 2, 0, 0, 0, 81, 9] @
     [1, 0, 0, 0, 40, 35, 0, 0, 0, 0, 0, 0, 2, 0, 0, 0, 81, 7]"

section \<open>Lemmas\<close>

subsection \<open>Sizes\<close>

lemma add_size_eq_Ok [res_inv]:
  "add_size sz amount = Ok r \<longleftrightarrow> r = sz + amount \<and> sz + amount \<le> MAX_SIGNED_VIEW_BYTES"
  by (auto simp: add_size_def checked_add_usize_def MAX_SIGNED_VIEW_BYTES_def)

lemma add_size_not_Panic [simp]: "add_size sz amount \<noteq> Panic"
  by (auto simp: add_size_def split: option.splits)

definition prevouts_size :: "psbt_input list \<Rightarrow> nat" where
  "prevouts_size ms = (\<Sum>m\<leftarrow>ms. 52 + length (txo_script_pubkey (the (pi_witness_utxo m))))"

definition outputs_size :: "tx_out list \<Rightarrow> nat" where
  "outputs_size outs = (\<Sum>out\<leftarrow>outs. 12 + length (txo_script_pubkey out))"

lemma prevouts_size_simps [simp]:
  "prevouts_size [] = 0"
  "prevouts_size (m # ms) =
     52 + length (txo_script_pubkey (the (pi_witness_utxo m))) + prevouts_size ms"
  by (simp_all add: prevouts_size_def)

lemma outputs_size_simps [simp]:
  "outputs_size [] = 0"
  "outputs_size (out # outs) = 12 + length (txo_script_pubkey out) + outputs_size outs"
  by (simp_all add: outputs_size_def)

lemma add_prevouts_eq_Ok:
  "add_prevouts sz ms = Ok r \<Longrightarrow>
     r = sz + prevouts_size ms \<and> list_all (\<lambda>m. pi_witness_utxo m \<noteq> None) ms \<and>
     (sz \<le> MAX_SIGNED_VIEW_BYTES \<longrightarrow> r \<le> MAX_SIGNED_VIEW_BYTES)"
  by (induction sz ms rule: add_prevouts.induct)
    (simp, fastforce simp: res_inv split: option.splits)

lemma add_outputs_eq_Ok:
  "add_outputs sz outs = Ok r \<Longrightarrow>
     r = sz + outputs_size outs \<and> (sz \<le> MAX_SIGNED_VIEW_BYTES \<longrightarrow> r \<le> MAX_SIGNED_VIEW_BYTES)"
  by (induction sz outs rule: add_outputs.induct) (simp, fastforce simp: res_inv)

lemma add_outputs_not_Panic [simp]: "add_outputs sz outs \<noteq> Panic"
  by (induction sz outs rule: add_outputs.induct) (auto simp: bind_res_eq_Panic)

lemma add_prevouts_not_Panic:
  "list_all (\<lambda>m. pi_witness_utxo m \<noteq> None) ms \<Longrightarrow> add_prevouts sz ms \<noteq> Panic"
  by (induction sz ms rule: add_prevouts.induct) (auto simp: bind_res_eq_Panic)

definition total_view_size :: "wasm_version \<Rightarrow> signing_input \<Rightarrow> nat" where
  "total_view_size version inp =
     20 + prevouts_size (psbt_inputs (si_psbt inp)) +
     outputs_size (tx_output (psbt_unsigned_tx (si_psbt inp))) + (if version = V2 then 36 else 0)"

lemma view_size_eq_Ok:
  assumes "view_size version inp = Ok n"
  shows "n = total_view_size version inp \<and> n \<le> MAX_SIGNED_VIEW_BYTES \<and>
    list_all (\<lambda>m. pi_witness_utxo m \<noteq> None) (psbt_inputs (si_psbt inp))"
proof -
  have twenty: "20 \<le> MAX_SIGNED_VIEW_BYTES" by (simp add: MAX_SIGNED_VIEW_BYTES_def)
  show ?thesis using assms twenty
    by (auto simp: view_size_def total_view_size_def res_inv split: if_splits
        dest!: add_prevouts_eq_Ok add_outputs_eq_Ok)
qed

lemma length_encode_script [simp]: "length (encode_script s) = 4 + length s"
  by (simp add: encode_script_def)

lemma length_encode_output [simp]:
  "length (encode_output out) = 12 + length (txo_script_pubkey out)"
  by (simp add: encode_output_def)

lemma length_encode_input [simp]:
  "outpoint_codec enc \<Longrightarrow> wf_outpoint (ti_previous_output (fst p)) \<Longrightarrow>
   length (encode_input enc p) = 52 + length (txo_script_pubkey (snd p))"
  by (simp add: encode_input_def outpoint_codec_def)

lemma length_encode_inputs:
  assumes "outpoint_codec enc" "length ins = length ms"
    "list_all (\<lambda>i. wf_outpoint (ti_previous_output i)) ins"
  shows "length (concat (map (encode_input enc) (zip ins (prevouts ms)))) = prevouts_size ms"
  using assms(2,3)
  by (induction ins ms rule: list_induct2) (auto simp: assms(1) prevouts_def)

lemma length_encode_outputs:
  "length (concat (map encode_output outs)) = outputs_size outs"
  by (induction outs) auto

text \<open>Everything a successful encoding tells about its input.\<close>

lemma encode_view_eq_Ok:
  assumes "encode_view enc version inp = Ok bs"
  shows "total_view_size version inp \<le> MAX_SIGNED_VIEW_BYTES"
    and "length (tx_input (psbt_unsigned_tx (si_psbt inp))) < 2 ^ 32"
    and "length (tx_output (psbt_unsigned_tx (si_psbt inp))) < 2 ^ 32"
    and "si_input_index inp < 2 ^ 32"
    and "\<exists>tail. bs =
        u32_to_le (tx_version (psbt_unsigned_tx (si_psbt inp))) @
        u32_to_le (tx_lock_time (psbt_unsigned_tx (si_psbt inp))) @
        u32_to_le (word_of_nat (si_input_index inp)) @
        u32_to_le (word_of_nat (length (tx_input (psbt_unsigned_tx (si_psbt inp))))) @
        concat (map (encode_input enc)
          (zip (tx_input (psbt_unsigned_tx (si_psbt inp))) (prevouts (psbt_inputs (si_psbt inp))))) @
        u32_to_le (word_of_nat (length (tx_output (psbt_unsigned_tx (si_psbt inp))))) @
        concat (map encode_output (tx_output (psbt_unsigned_tx (si_psbt inp)))) @ tail \<and>
        (if version = V2 then \<exists>k. si_input_index inp < length (psbt_inputs (si_psbt inp)) \<and>
             pi_tap_internal_key (psbt_inputs (si_psbt inp) ! si_input_index inp) = Some k \<and>
             tail = k @ u32_to_le 0
         else tail = [])"
  using assms
  by (auto simp: encode_view_def Let_def res_inv split: if_splits dest: view_size_eq_Ok)

lemma authenticated_key:
  "authenticated inp \<Longrightarrow> i < length (psbt_inputs (si_psbt inp)) \<Longrightarrow>
   pi_tap_internal_key (psbt_inputs (si_psbt inp) ! i) = Some k \<Longrightarrow> length k = 32"
  by (auto simp: authenticated_def list_all_length split: option.splits)

lemma encode_view_length:
  assumes "outpoint_codec enc" and "authenticated inp" and "encode_view enc version inp = Ok bs"
  shows "length bs = total_view_size version inp" and "length bs \<le> MAX_SIGNED_VIEW_BYTES"
proof -
  let ?tx = "psbt_unsigned_tx (si_psbt inp)" and ?ms = "psbt_inputs (si_psbt inp)"
  note facts = encode_view_eq_Ok [OF assms(3)]
  have len: "length (tx_input ?tx) = length ?ms"
    and wf: "list_all (\<lambda>i. wf_outpoint (ti_previous_output i)) (tx_input ?tx)"
    using assms(2) by (simp_all add: authenticated_def)
  have key: "length k = 32" if "si_input_index inp < length ?ms"
    "pi_tap_internal_key (?ms ! si_input_index inp) = Some k" for k
    using assms(2) that by (rule authenticated_key)
  show "length bs = total_view_size version inp"
    using facts(5) key
    by (auto simp: total_view_size_def length_encode_inputs [OF assms(1) len wf] length_encode_outputs
        split: if_splits)
  with facts(1) show "length bs \<le> MAX_SIGNED_VIEW_BYTES" by simp
qed

text \<open>Every authenticated context whose view fits has one.\<close>

lemma add_prevouts_fits:
  "list_all (\<lambda>m. pi_witness_utxo m \<noteq> None) ms \<Longrightarrow> sz + prevouts_size ms \<le> MAX_SIGNED_VIEW_BYTES \<Longrightarrow>
   add_prevouts sz ms = Ok (sz + prevouts_size ms)"
  by (induction sz ms rule: add_prevouts.induct) (auto simp: bind_res_eq_Ok add_size_eq_Ok)

lemma add_outputs_fits:
  "sz + outputs_size outs \<le> MAX_SIGNED_VIEW_BYTES \<Longrightarrow> add_outputs sz outs = Ok (sz + outputs_size outs)"
  by (induction sz outs rule: add_outputs.induct) (auto simp: bind_res_eq_Ok add_size_eq_Ok)

lemma view_size_fits:
  assumes "list_all (\<lambda>m. pi_witness_utxo m \<noteq> None) (psbt_inputs (si_psbt inp))"
    and "total_view_size version inp \<le> MAX_SIGNED_VIEW_BYTES"
  shows "view_size version inp = Ok (total_view_size version inp)"
  using assms
  by (auto simp: view_size_def total_view_size_def add_prevouts_fits add_outputs_fits add_size_eq_Ok)

lemma length_le_view_size:
  "length ms \<le> prevouts_size ms" "length outs \<le> outputs_size outs"
  by (induction ms, simp_all) (induction outs, simp_all)

lemma encode_view_fits:
  assumes "authenticated inp" and "total_view_size version inp \<le> MAX_SIGNED_VIEW_BYTES"
    and "version = V2 \<Longrightarrow> pi_tap_internal_key (psbt_inputs (si_psbt inp) ! si_input_index inp) \<noteq> None"
  shows "\<exists>view. encode_view enc version inp = Ok view"
proof -
  let ?tx = "psbt_unsigned_tx (si_psbt inp)" and ?ms = "psbt_inputs (si_psbt inp)"
  have "length ?ms + length (tx_output ?tx) \<le> MAX_SIGNED_VIEW_BYTES"
    using assms(2) length_le_view_size(1) [of ?ms] length_le_view_size(2) [of "tx_output ?tx"]
    by (simp add: total_view_size_def)
  moreover have "length (tx_input ?tx) = length ?ms" "si_input_index inp < length ?ms"
    "list_all (\<lambda>m. pi_witness_utxo m \<noteq> None) ?ms"
    using assms(1) by (simp_all add: authenticated_def)
  ultimately show ?thesis
    using view_size_fits [OF _ assms(2)] assms(3)
    by (auto simp: encode_view_def Let_def u32_try_from_def MAX_SIGNED_VIEW_BYTES_def)
qed

text \<open>The bytes of a version-one view, and the bounds of its scripts.\<close>

lemma encode_view_V1:
  assumes "encode_view enc V1 inp = Ok bs"
  shows "bs =
        (u32_to_le (tx_version (psbt_unsigned_tx (si_psbt inp))) @
         u32_to_le (tx_lock_time (psbt_unsigned_tx (si_psbt inp)))) @
        u32_to_le (word_of_nat (si_input_index inp)) @
        u32_to_le (word_of_nat (length (tx_input (psbt_unsigned_tx (si_psbt inp))))) @
        concat (map (encode_input enc)
          (zip (tx_input (psbt_unsigned_tx (si_psbt inp))) (prevouts (psbt_inputs (si_psbt inp))))) @
        u32_to_le (word_of_nat (length (tx_output (psbt_unsigned_tx (si_psbt inp))))) @
        concat (map encode_output (tx_output (psbt_unsigned_tx (si_psbt inp))))"
  using encode_view_eq_Ok(5) [OF assms] by auto

subsection \<open>Decoding\<close>

lemma take_exact_append [simp]: "length xs = n \<Longrightarrow> take_exact n (xs @ ys) = Some (xs, ys)"
  by (auto simp: take_exact_def)

lemma take_exact_self [simp]: "length xs = n \<Longrightarrow> take_exact n xs = Some (xs, [])"
  by (auto simp: take_exact_def)

lemma take_script_encode [simp]:
  "length s < 2 ^ 32 \<Longrightarrow> take_script (encode_script s @ rest) = Some (s, rest)"
  by (simp add: take_script_def encode_script_def unat_word_of_nat_u32)

lemma take_input_encode [simp]:
  "outpoint_codec enc \<Longrightarrow> wf_outpoint (ti_previous_output (fst p)) \<Longrightarrow>
   length (txo_script_pubkey (snd p)) < 2 ^ 32 \<Longrightarrow>
   take_input (encode_input enc p @ rest) = Some (view_input_of enc p, rest)"
  by (simp add: take_input_def encode_input_def view_input_of_def outpoint_codec_def)

lemma take_output_encode [simp]:
  "length (txo_script_pubkey out) < 2 ^ 32 \<Longrightarrow>
   take_output (encode_output out @ rest) = Some (out, rest)"
  by (simp add: take_output_def encode_output_def)

lemma take_many_encode:
  assumes "\<And>x rest. x \<in> set xs \<Longrightarrow> f (g x @ rest) = Some (h x, rest)"
  shows "take_many f (length xs) (concat (map g xs) @ rest) = Some (map h xs, rest)"
  using assms by (induction xs) auto

lemma prevouts_script_bound:
  "p \<in> set (zip ins (prevouts ms)) \<Longrightarrow> length (txo_script_pubkey (snd p)) \<le> prevouts_size ms"
proof (induction ms arbitrary: ins)
  case Nil
  then show ?case by (simp add: prevouts_def)
next
  case (Cons m ms)
  then show ?case by (cases ins) (fastforce simp: prevouts_def)+
qed

lemma outputs_script_bound:
  "out \<in> set outs \<Longrightarrow> length (txo_script_pubkey out) \<le> outputs_size outs"
  by (induction outs) auto

lemma view_scripts_small:
  assumes "encode_view enc version inp = Ok bs"
  shows "p \<in> set (zip ins (prevouts (psbt_inputs (si_psbt inp)))) \<Longrightarrow>
      length (txo_script_pubkey (snd p)) < 2 ^ 32"
    and "out \<in> set (tx_output (psbt_unsigned_tx (si_psbt inp))) \<Longrightarrow>
      length (txo_script_pubkey out) < 2 ^ 32"
  using encode_view_eq_Ok(1) [OF assms] prevouts_script_bound [of p ins "psbt_inputs (si_psbt inp)"]
    outputs_script_bound [of out "tx_output (psbt_unsigned_tx (si_psbt inp))"]
  by (auto simp: total_view_size_def MAX_SIGNED_VIEW_BYTES_def)

text \<open>The encoded view, decoded.\<close>

lemma decode_encode_view:
  assumes enc: "outpoint_codec enc" and auth: "authenticated inp"
    and ok: "encode_view enc version inp = Ok bs"
  shows "decode_view version bs = Some (view_of enc version inp)"
proof -
  let ?tx = "psbt_unsigned_tx (si_psbt inp)" and ?ms = "psbt_inputs (si_psbt inp)"
  let ?zs = "zip (tx_input ?tx) (prevouts ?ms)"
  note facts = encode_view_eq_Ok [OF ok]
  have small: "total_view_size version inp < 2 ^ 32"
    using facts(1) by (simp add: MAX_SIGNED_VIEW_BYTES_def)
  have len: "length ?zs = length (tx_input ?tx)"
    using auth by (simp add: authenticated_def prevouts_def)
  have ins: "take_many take_input (length (tx_input ?tx))
      (concat (map (encode_input enc) ?zs) @ rest) = Some (map (view_input_of enc) ?zs, rest)" for rest
  proof (subst len [symmetric], rule take_many_encode)
    fix p rest assume p: "p \<in> set ?zs"
    then have wf: "wf_outpoint (ti_previous_output (fst p))"
      using auth set_zip_leftD [of "fst p" "snd p"] by (auto simp: authenticated_def list_all_iff)
    from p have "length (txo_script_pubkey (snd p)) < 2 ^ 32"
      using prevouts_script_bound [of p "tx_input ?tx" ?ms] small by (simp add: total_view_size_def)
    with enc wf show "take_input (encode_input enc p @ rest) = Some (view_input_of enc p, rest)"
      by (rule take_input_encode)
  qed
  have outs: "take_many take_output (length (tx_output ?tx))
      (concat (map encode_output (tx_output ?tx)) @ rest) = Some (tx_output ?tx, rest)" for rest
  proof -
    have "take_output (encode_output x @ r) = Some (id x, r)" if "x \<in> set (tx_output ?tx)" for x r
      using outputs_script_bound [OF that] small
      by (simp add: total_view_size_def)
    from take_many_encode [where h = id, OF this] show ?thesis by simp
  qed
  note counts = unat_word_of_nat_u32 [OF facts(2)] unat_word_of_nat_u32 [OF facts(3)]
  from facts(5) obtain tail where bs: "bs = u32_to_le (tx_version ?tx) @ u32_to_le (tx_lock_time ?tx) @
        u32_to_le (word_of_nat (si_input_index inp)) @
        u32_to_le (word_of_nat (length (tx_input ?tx))) @
        concat (map (encode_input enc) ?zs) @
        u32_to_le (word_of_nat (length (tx_output ?tx))) @
        concat (map encode_output (tx_output ?tx)) @ tail"
    and tail: "if version = V2 then \<exists>k. si_input_index inp < length ?ms \<and>
             pi_tap_internal_key (?ms ! si_input_index inp) = Some k \<and> tail = k @ u32_to_le 0
         else tail = []" by blast
  have "decode_view version bs =
     (let view = \<lparr>sv_version = tx_version ?tx, sv_lock_time = tx_lock_time ?tx,
         sv_input_index = word_of_nat (si_input_index inp), sv_inputs = map (view_input_of enc) ?zs,
         sv_outputs = tx_output ?tx, sv_internal_key = None\<rparr> in
      if version = V2 then
        Option.bind (take_exact 32 tail) (\<lambda>(k, r8).
          if r8 = u32_to_le 0 then Some (view\<lparr>sv_internal_key := Some k\<rparr>) else None)
      else (if tail = [] then Some view else None))"
    by (simp only: bs decode_view_def take_exact_append length_u32_to_le Option.bind.simps split
        counts ins outs u32_from_to_le)
  also have "\<dots> = Some (view_of enc version inp)"
  proof (cases "version = V2")
    case True
    with tail obtain k where k: "si_input_index inp < length ?ms"
      "pi_tap_internal_key (?ms ! si_input_index inp) = Some k" "tail = k @ u32_to_le 0" by auto
    have "length k = 32" using auth k(1,2) by (rule authenticated_key)
    with True k show ?thesis by (simp add: view_of_def Let_def)
  next
    case False
    with tail show ?thesis by (simp add: view_of_def Let_def)
  qed
  finally show ?thesis .
qed

lemma view_inputs_inj:
  assumes "outpoint_codec_inj enc"
    and "list_all (\<lambda>i. wf_outpoint (ti_previous_output i)) ins"
    and "list_all (\<lambda>i. wf_outpoint (ti_previous_output i)) ins'"
    and "map (view_input_of enc) (zip ins ps) = map (view_input_of enc) (zip ins' ps')"
  shows "zip ins ps = zip ins' ps'"
proof (rule map_inj_on [OF assms(4)])
  show "inj_on (view_input_of enc) (set (zip ins ps) \<union> set (zip ins' ps'))"
  proof (rule inj_onI)
    fix p q
    assume "p \<in> set (zip ins ps) \<union> set (zip ins' ps')" "q \<in> set (zip ins ps) \<union> set (zip ins' ps')"
    then have "wf_outpoint (ti_previous_output (fst p))" "wf_outpoint (ti_previous_output (fst q))"
      using assms(2,3) by (cases p; cases q; auto simp: list_all_iff dest: set_zip_leftD)+
    moreover assume "view_input_of enc p = view_input_of enc q"
    ultimately show "p = q"
      using assms(1) by (auto simp: outpoint_codec_inj_def view_input_of_def prod_eq_iff)
  qed
qed

subsection \<open>The sample context\<close>

lemma sample_enc_codec: "outpoint_codec sample_enc" "outpoint_codec_inj sample_enc"
  by (auto simp: outpoint_codec_def outpoint_codec_inj_def sample_enc_def wf_outpoint_def)

lemma sample_authenticated: "authenticated sample_context"
  by (simp add: authenticated_def sample_context_def sample_tx_def sample_psbt_input_def
      sample_outpoint_def wf_outpoint_def)

lemmas sample_defs = sample_context_def sample_tx_def sample_psbt_input_def sample_outpoint_def
  sample_enc_def

lemma sample_view_size: "view_size V1 sample_context = Ok 88" "view_size V2 sample_context = Ok 124"
  by (simp_all add: view_size_def sample_defs add_size_def checked_add_usize_def
      MAX_SIGNED_VIEW_BYTES_def)

lemma sample_encode_view: "encode_view sample_enc V1 sample_context = Ok sample_view"
  by (simp add: encode_view_def sample_view_size)
    (simp add: sample_defs prevouts_def encode_input_def encode_output_def
      encode_script_def u32_try_from_def u32_to_le_def u64_to_le_def sample_view_def)

text \<open>Every view the adapter hands to a predicate has exactly the size computed in advance
  and at most one mebibyte, the invariant the code states as a debug assertion.\<close>

lemma encode_view_size:
  assumes "outpoint_codec enc" and "authenticated inp" and "encode_view enc version inp = Ok bs"
  shows "view_size version inp = Ok (length bs) \<and> length bs \<le> 1048576"
proof -
  have "\<exists>n. view_size version inp = Ok n"
    using assms(3) by (auto simp: encode_view_def Let_def res_inv)
  then show ?thesis
    using encode_view_length [OF assms] view_size_eq_Ok by (auto simp: MAX_SIGNED_VIEW_BYTES_def)
qed

text \<open>The view binds the transaction: two signing contexts with the same view have the same
  transaction fields, selected index and previous outputs, given an injective outpoint encoding.\<close>

lemma encode_view_binds_transaction:
  assumes "outpoint_codec enc" and "outpoint_codec_inj enc" and "authenticated a" and "authenticated b"
    and "encode_view enc version a = Ok bs" and "encode_view enc version b = Ok bs"
  shows "psbt_unsigned_tx (si_psbt a) = psbt_unsigned_tx (si_psbt b) \<and>
    si_input_index a = si_input_index b \<and>
    prevouts (psbt_inputs (si_psbt a)) = prevouts (psbt_inputs (si_psbt b))"
proof -
  let ?ta = "psbt_unsigned_tx (si_psbt a)" and ?tb = "psbt_unsigned_tx (si_psbt b)"
  let ?pa = "prevouts (psbt_inputs (si_psbt a))" and ?pb = "prevouts (psbt_inputs (si_psbt b))"
  have view: "view_of enc version a = view_of enc version b"
    using decode_encode_view [OF assms(1,3,5)] decode_encode_view [OF assms(1,4,6)] by simp
  have idx: "si_input_index a = si_input_index b"
  proof -
    have "(word_of_nat (si_input_index a) :: u32) = word_of_nat (si_input_index b)"
      using view by (simp add: view_of_def Let_def)
    then show ?thesis
      by (metis encode_view_eq_Ok(4) [OF assms(5)] encode_view_eq_Ok(4) [OF assms(6)]
          unat_word_of_nat_u32)
  qed
  have wf: "list_all (\<lambda>i. wf_outpoint (ti_previous_output i)) (tx_input ?ta)"
    "list_all (\<lambda>i. wf_outpoint (ti_previous_output i)) (tx_input ?tb)"
    using assms(3,4) by (simp_all add: authenticated_def)
  have "zip (tx_input ?ta) ?pa = zip (tx_input ?tb) ?pb"
    by (rule view_inputs_inj [OF assms(2) wf]) (use view in \<open>simp add: view_of_def Let_def\<close>)
  moreover have "length ?pa = length (tx_input ?ta)" "length ?pb = length (tx_input ?tb)"
    using assms(3,4) by (simp_all add: authenticated_def prevouts_def)
  ultimately have "tx_input ?ta = tx_input ?tb" "?pa = ?pb"
    by (metis map_fst_zip, metis map_snd_zip)
  moreover have "tx_version ?ta = tx_version ?tb" "tx_lock_time ?ta = tx_lock_time ?tb"
    "tx_output ?ta = tx_output ?tb"
    using view by (simp_all add: view_of_def Let_def)
  ultimately show ?thesis using idx by simp
qed

section \<open>Properties\<close>

text \<open>C24: the reference decoder recovers from an encoded view every field of the signing context
  a predicate judges: version, lock time, selected index, each input's outpoint, sequence, value
  and script, each output, and for version two the internal key.\<close>

theorem encode_view_roundtrip:
  assumes "outpoint_codec enc" and "authenticated inp" and "encode_view enc version inp = Ok bs"
  shows "decode_view version bs = Some (view_of enc version inp)"
  using assms by (rule decode_encode_view)

theorem encode_view_roundtrip_witness:
  "decode_view V1 sample_view = Some (view_of sample_enc V1 sample_context)"
  using encode_view_roundtrip [OF sample_enc_codec(1) sample_authenticated sample_encode_view]
  by blast

end
