(* ===== verification/Evaluator.thy ===== *)
theory Evaluator
  imports Signed_View
begin

text \<open>
  The Ark adapter over the upstream WASM host, \<open>src/src/evaluator.rs\<close>: the module checks that
  bound compilation, the host side of one evaluation (allocate four disjoint regions in the
  guest, copy the inputs, call the predicate, accept exactly zero or one), and \<open>authorize\<close>, the
  gate a spend passes before a nonce is created.

  The WASM engine and the Ark/Sapio libraries are not part of the repository. They are the
  records \<open>wasm_runtime\<close> (parser, instantiation, guest calls, linear memory, fuel) and
  \<open>spend_lib\<close> (PSBT validation, signature hash, annex, evaluator ids, outpoint encoding). The
  locale \<open>linear_memory\<close> states what the host relies on of a guest's memory; the delivery of the
  inputs is proved once inside it.
\<close>

section \<open>Data\<close>

definition MAX_PROGRAM_BYTES :: nat where "MAX_PROGRAM_BYTES = 65536"
definition MAX_PARAMETER_BYTES :: nat where "MAX_PARAMETER_BYTES = 65536"
definition MAX_WITNESS_BYTES :: nat where "MAX_WITNESS_BYTES = 65536"
definition MAX_FUNCTION_SLOTS :: u32 where "MAX_FUNCTION_SLOTS = 65536"

definition CRYPTO_NAMESPACE :: string where "CRYPTO_NAMESPACE = ''sapio_crypto_v1''"
definition CRYPTO_NAMESPACE_V2 :: string where "CRYPTO_NAMESPACE_V2 = ''sapio_crypto_v2''"

text \<open>The module structure the WASM parser reports.\<close>

datatype val_type = I32 | OtherVal nat

record func_type =
  ft_params :: "val_type list"
  ft_results :: "val_type list"

datatype type_ref = FuncRef u32 | OtherRef nat

record wasm_import =
  imp_module :: string
  imp_name :: string
  imp_ty :: type_ref

datatype payload =
    TypeSection "(string, func_type) res list"
  | ImportSection "(string, wasm_import) res list"
  | FunctionSection "(string, u32) res list"
  | CodeSectionEntry "(string, (string, u32) res list) res"
  | StartSection
  | OtherPayload nat

text \<open>
  The WASM engine: \<open>'m\<close> is a compiled module, \<open>'i\<close> an instance with its store. A guest call
  returns its outcome and the instance afterwards.
\<close>

record ('m, 'i) wasm_runtime =
  rt_parse_all :: "bytes \<Rightarrow> (string, payload) res list"
  rt_module_new :: "bytes \<Rightarrow> (string, 'm) res"
  rt_instance_new :: "wasm_version \<Rightarrow> 'm \<Rightarrow> (string, 'i) res"
  rt_bind_crypto :: "'i \<Rightarrow> (string, 'i) res"
  rt_get_memory :: "'i \<Rightarrow> string \<Rightarrow> (string, unit) res"
  rt_get_alloc :: "'i \<Rightarrow> string \<Rightarrow> (string, unit) res"
  rt_get_evaluate :: "'i \<Rightarrow> string \<Rightarrow> (string, unit) res"
  rt_call_alloc :: "'i \<Rightarrow> string \<Rightarrow> u32 \<Rightarrow> (string, u32) res \<times> 'i"
  rt_call_evaluate :: "'i \<Rightarrow> string \<Rightarrow> u32 list \<Rightarrow> (string, u32) res \<times> 'i"
  rt_exhausted :: "'i \<Rightarrow> bool"
  rt_data_size :: "'i \<Rightarrow> nat"
  rt_write :: "'i \<Rightarrow> nat \<Rightarrow> bytes \<Rightarrow> (string, 'i) res"

record spend_lib =
  validate_psbt :: "psbt \<Rightarrow> (string, unit) res"
  sighash :: "signing_input \<Rightarrow> hash result"
  annex_get :: "psbt_input \<Rightarrow> bytes option result"
  inline_wasm_version :: "hash \<Rightarrow> wasm_version option"
  outpoint_encode :: "outpoint \<Rightarrow> bytes"

section \<open>Operations\<close>

subsection \<open>Module checks\<close>

definition WASM_HEADER :: bytes where
  "WASM_HEADER = [0, 97, 115, 109, 1, 0, 0, 0]"

definition check_module_bytes :: "bytes \<Rightarrow> (string, unit) res" where
  "check_module_bytes m =
     (if MAX_PROGRAM_BYTES < length m then Err ''WASM evaluator module exceeds 65536 bytes''
      else if \<not> prefix WASM_HEADER m
      then Err ''WASM evaluator requires a version-one binary module''
      else Ok ())"

text \<open>The closure \<open>add_slots\<close>.\<close>

definition add_slots :: "u32 \<Rightarrow> u32 \<Rightarrow> (string, u32) res" where
  "add_slots slots count =
     (if unat slots + unat count < 2 ^ 32 \<and> slots + count \<le> MAX_FUNCTION_SLOTS
      then Ok (slots + count)
      else Err ''WASM evaluator exceeds 65536 function parameter/local slots'')"

fun push_types :: "func_type list \<Rightarrow> (string, func_type) res list \<Rightarrow> (string, func_type list) res" where
  "push_types types [] = Ok types"
| "push_types types (ty # tys) = bind_res ty (\<lambda>t. push_types (types @ [t]) tys)"

definition expected_params :: "wasm_version \<Rightarrow> wasm_import \<Rightarrow> nat option" where
  "expected_params version imp =
     (if imp_module imp = CRYPTO_NAMESPACE \<and> imp_name imp \<in> {''sha256'', ''schnorr_verify''} then Some 3
      else if imp_module imp = CRYPTO_NAMESPACE \<and> imp_name imp = ''bip32_derive'' then Some 4
      else if imp_module imp = CRYPTO_NAMESPACE_V2 \<and>
              imp_name imp \<in> {''schnorr_verify'', ''xonly_tweak_check''} \<and> version = V2 then Some 4
      else None)"

definition check_import :: "wasm_version \<Rightarrow> func_type list \<Rightarrow> wasm_import \<Rightarrow> (string, unit) res" where
  "check_import version types imp =
     bind_res (ok_or ''unsupported WASM evaluator crypto import or namespace''
                 (expected_params version imp)) (\<lambda>n.
     case imp_ty imp of
       OtherRef _ \<Rightarrow> Err ''WASM evaluator imports must be crypto functions''
     | FuncRef index \<Rightarrow>
         bind_res (ok_or ''WASM evaluator import has an unknown type''
                     (list_get types (unat index))) (\<lambda>ty.
         if length (ft_params ty) \<noteq> n \<or> list_ex (\<lambda>t. t \<noteq> I32) (ft_params ty) \<or> ft_results ty \<noteq> [I32]
         then Err ''WASM evaluator crypto import has an invalid signature'' else Ok ()))"

fun check_imports ::
  "wasm_version \<Rightarrow> func_type list \<Rightarrow> (string, wasm_import) res list \<Rightarrow> (string, unit) res" where
  "check_imports version types [] = Ok ()"
| "check_imports version types (i # is) =
     bind_res i (\<lambda>imp. bind_res (check_import version types imp) (\<lambda>_. check_imports version types is))"

fun add_functions :: "func_type list \<Rightarrow> u32 \<Rightarrow> (string, u32) res list \<Rightarrow> (string, u32) res" where
  "add_functions types slots [] = Ok slots"
| "add_functions types slots (f # fs) =
     bind_res f (\<lambda>type_index.
     bind_res (ok_or ''WASM evaluator function has an unknown type''
                 (list_get types (unat type_index))) (\<lambda>ty.
     bind_res (ok_or int_conversion_error (u32_try_from (length (ft_params ty)))) (\<lambda>count.
     bind_res (add_slots slots count) (\<lambda>slots'. add_functions types slots' fs))))"

fun add_locals :: "u32 \<Rightarrow> (string, u32) res list \<Rightarrow> (string, u32) res" where
  "add_locals slots [] = Ok slots"
| "add_locals slots (l # ls) =
     bind_res l (\<lambda>count. bind_res (add_slots slots count) (\<lambda>slots'. add_locals slots' ls))"

text \<open>The loop over \<open>Parser::parse_all\<close>, with the two variables it carries.\<close>

fun check_payloads ::
  "wasm_version \<Rightarrow> func_type list \<Rightarrow> u32 \<Rightarrow> (string, payload) res list \<Rightarrow> (string, unit) res" where
  "check_payloads version types slots [] = Ok ()"
| "check_payloads version types slots (p # ps) =
     bind_res p (\<lambda>payload.
     case payload of
       TypeSection tys \<Rightarrow>
         bind_res (push_types types tys) (\<lambda>types'. check_payloads version types' slots ps)
     | ImportSection is \<Rightarrow>
         bind_res (check_imports version types is) (\<lambda>_. check_payloads version types slots ps)
     | FunctionSection fs \<Rightarrow>
         bind_res (add_functions types slots fs) (\<lambda>slots'. check_payloads version types slots' ps)
     | CodeSectionEntry body \<Rightarrow>
         bind_res body (\<lambda>ls.
         bind_res (add_locals slots ls) (\<lambda>slots'. check_payloads version types slots' ps))
     | StartSection \<Rightarrow> Err ''WASM evaluator modules cannot have a start function''
     | OtherPayload _ \<Rightarrow> check_payloads version types slots ps)"

definition check_compilation_budget ::
  "('m, 'i) wasm_runtime \<Rightarrow> wasm_version \<Rightarrow> bytes \<Rightarrow> (string, unit) res" where
  "check_compilation_budget rt version m = check_payloads version [] 0 (rt_parse_all rt m)"

subsection \<open>One evaluation\<close>

definition execution_error :: "('m, 'i) wasm_runtime \<Rightarrow> 'i \<Rightarrow> string \<Rightarrow> string \<Rightarrow> string" where
  "execution_error rt inst operation e =
     (if rt_exhausted rt inst
      then ''WASM evaluator exhausted 100000000 fuel points during '' @ operation
      else ''WASM evaluator '' @ operation @ '' failed: '' @ e)"

definition overlaps :: "nat \<times> nat \<Rightarrow> nat \<times> nat \<Rightarrow> bool" where
  "overlaps r previous \<longleftrightarrow>
     fst previous < snd previous \<and> fst r < snd previous \<and> fst previous < snd r"

text \<open>The first loop: one guest allocation per non-empty input, each range checked against the
  memory size and against every earlier range.\<close>

fun alloc_all ::
  "('m, 'i) wasm_runtime \<Rightarrow> string \<Rightarrow> 'i \<Rightarrow> (nat \<times> nat) list \<Rightarrow> bytes list \<Rightarrow>
     (string, (nat \<times> nat) list \<times> 'i) res" where
  "alloc_all rt nm inst ranges [] = Ok (ranges, inst)"
| "alloc_all rt nm inst ranges (b # bs) =
     (if b = [] then alloc_all rt nm inst (ranges @ [(0, 0)]) bs
      else case rt_call_alloc rt inst nm (word_of_nat (length b)) of
        (Panic, _) \<Rightarrow> Panic
      | (Err e, inst') \<Rightarrow> Err (execution_error rt inst' nm e)
      | (Ok pointer, inst') \<Rightarrow>
          let r = (unat pointer, unat pointer + length b) in
          if rt_data_size rt inst' < snd r
          then Err ''WASM evaluator allocation is outside linear memory''
          else if list_ex (overlaps r) ranges
          then Err ''WASM evaluator input allocations overlap''
          else alloc_all rt nm inst' (ranges @ [r]) bs)"

text \<open>The second loop: all regions exist before any input is copied.\<close>

fun write_all :: "('i \<Rightarrow> nat \<Rightarrow> bytes \<Rightarrow> (string, 'i) res) \<Rightarrow> 'i \<Rightarrow> (bytes \<times> nat \<times> nat) list \<Rightarrow>
     (string, 'i) res" where
  "write_all wr inst [] = Ok inst"
| "write_all wr inst ((b, r) # ws) = bind_res (wr inst (fst r) b) (\<lambda>inst'. write_all wr inst' ws)"

definition alloc_name :: "wasm_version \<Rightarrow> string" where
  "alloc_name version = (case version of V1 \<Rightarrow> ''sapio_alloc_v1'' | V2 \<Rightarrow> ''sapio_alloc_v2'')"

definition evaluate_name :: "wasm_version \<Rightarrow> string" where
  "evaluate_name version = (case version of V1 \<Rightarrow> ''sapio_evaluate_v1'' | V2 \<Rightarrow> ''sapio_evaluate_v2'')"

text \<open>The pointer and length pairs of the four inputs, in the order of the ABI.\<close>

definition call_arguments :: "(nat \<times> nat) list \<Rightarrow> bytes list \<Rightarrow> u32 list" where
  "call_arguments ranges inputs =
     concat (map (\<lambda>(r, b). [word_of_nat (fst r), word_of_nat (length b)]) (zip ranges inputs))"

definition call_result :: "u32 \<Rightarrow> (string, bool) res" where
  "call_result w =
     (if w = 0 then Ok False else if w = 1 then Ok True
      else Err ''WASM evaluator must return exactly zero or one'')"

definition run_guest ::
  "('m, 'i) wasm_runtime \<Rightarrow> wasm_version \<Rightarrow> 'i \<Rightarrow> bytes list \<Rightarrow> (string, bool) res" where
  "run_guest rt version inst inputs =
     bind_res (alloc_all rt (alloc_name version) inst [] inputs) (\<lambda>(ranges, inst1).
     bind_res (write_all (rt_write rt) inst1 (zip inputs ranges)) (\<lambda>inst2.
     case rt_call_evaluate rt inst2 (evaluate_name version) (call_arguments ranges inputs) of
       (Panic, _) \<Rightarrow> Panic
     | (Err e, inst3) \<Rightarrow> Err (execution_error rt inst3 (evaluate_name version) e)
     | (Ok w, _) \<Rightarrow> call_result w))"

definition evaluate ::
  "('m, 'i) wasm_runtime \<Rightarrow> (outpoint \<Rightarrow> bytes) \<Rightarrow> wasm_version \<Rightarrow> bytes \<Rightarrow> bytes \<Rightarrow> bytes \<Rightarrow>
     signing_input \<Rightarrow> bytes \<Rightarrow> (string, bool) res" where
  "evaluate rt enc version module_bytes program parameters inp witness =
     bind_res (check_module_bytes module_bytes) (\<lambda>_.
     bind_res (check_compilation_budget rt version module_bytes) (\<lambda>_.
     if MAX_PROGRAM_BYTES < length program \<or> MAX_PARAMETER_BYTES < length parameters \<or>
        MAX_WITNESS_BYTES < length witness
     then Err ''WASM evaluator input exceeds its byte limit''
     else
       bind_res (encode_view enc version inp) (\<lambda>encoded_view.
       bind_res (rt_module_new rt module_bytes) (\<lambda>m.
       bind_res (rt_instance_new rt version m) (\<lambda>inst0.
       bind_res (rt_bind_crypto rt inst0) (\<lambda>inst.
       bind_res (rt_get_memory rt inst ''memory'') (\<lambda>_.
       bind_res (rt_get_alloc rt inst (alloc_name version)) (\<lambda>_.
       bind_res (rt_get_evaluate rt inst (evaluate_name version)) (\<lambda>_.
       run_guest rt version inst [program, parameters, encoded_view, witness])))))))))"

subsection \<open>The gate\<close>

text \<open>Inline programs are their own module; any other evaluator id must be registered.\<close>

definition select_module ::
  "spend_lib \<Rightarrow> wasm_evaluator list \<Rightarrow> program_instance \<Rightarrow> (bytes \<times> bytes \<times> wasm_version) result" where
  "select_module lib registry program =
     (case inline_wasm_version lib (pr_evaluator program) of
        Some version \<Rightarrow> Ok (pr_program program, [], version)
      | None \<Rightarrow>
          (case find (\<lambda>entry. we_id entry = pr_evaluator program) registry of
             None \<Rightarrow> Err (Program (UnknownEvaluator (pr_evaluator program)))
           | Some evaluator \<Rightarrow> Ok (we_module evaluator, pr_program program, we_version evaluator)))"

definition authorize ::
  "('m, 'i) wasm_runtime \<Rightarrow> spend_lib \<Rightarrow> wasm_evaluator list \<Rightarrow> program_instance \<Rightarrow>
     signing_input \<Rightarrow> bytes \<Rightarrow> hash \<Rightarrow> unit result" where
  "authorize rt lib registry program inp witness message =
     bind_res (map_err (\<lambda>e. Program (PsbtError e)) (validate_psbt lib (si_psbt inp))) (\<lambda>_.
     bind_res (sighash lib inp) (\<lambda>h.
     if h \<noteq> message
     then Err (Msg ''evaluated transaction differs from the nested signing intent'')
     else case list_get (psbt_inputs (si_psbt inp)) (si_input_index inp) of
       None \<Rightarrow> Panic
     | Some metadata \<Rightarrow>
         if pi_final_script_sig metadata \<noteq> None \<or> pi_final_script_witness metadata \<noteq> None
         then Err (Program FinalizedInput)
         else
           bind_res (annex_get lib metadata) (\<lambda>annex.
           if annex \<noteq> None then Err (Msg ''native Ark signing does not support an annex'')
           else
             bind_res (select_module lib registry program) (\<lambda>(m, selector, version).
             bind_res (map_err (\<lambda>e. Program (EvaluationFailed e))
                 (evaluate rt (outpoint_encode lib) version m selector (pr_parameters program)
                    inp witness)) (\<lambda>accepted.
             if accepted then Ok () else Err (Program Rejected))))))"

section \<open>Specification\<close>

subsection \<open>What the host relies on of a guest's memory\<close>

text \<open>
  A linear memory: a write either fails or stores exactly the given bytes and leaves every
  disjoint region alone. These are the documented semantics of a WASM memory view.
\<close>

locale linear_memory =
  fixes mem_write :: "'i \<Rightarrow> nat \<Rightarrow> bytes \<Rightarrow> (string, 'i) res"
    and mem_read :: "'i \<Rightarrow> nat \<Rightarrow> nat \<Rightarrow> bytes"
  assumes read_none: "mem_read inst a 0 = []"
    and read_written: "mem_write inst a bs = Ok inst' \<Longrightarrow> mem_read inst' a (length bs) = bs"
    and read_disjoint: "mem_write inst a bs = Ok inst' \<Longrightarrow>
      b + n \<le> a \<or> a + length bs \<le> b \<Longrightarrow> mem_read inst' b n = mem_read inst b n"
begin

lemma write_all_frame:
  assumes "write_all mem_write inst ws = Ok inst'"
    and "\<forall>(bs, r) \<in> set ws. b + n \<le> fst r \<or> fst r + length bs \<le> b"
  shows "mem_read inst' b n = mem_read inst b n"
  using assms
proof (induction ws arbitrary: inst)
  case Nil
  then show ?case by simp
next
  case (Cons w ws)
  obtain bs r where w: "w = (bs, r)" by (cases w)
  from Cons.prems(1) obtain inst1 where wr: "mem_write inst (fst r) bs = Ok inst1"
    and rest: "write_all mem_write inst1 ws = Ok inst'" by (auto simp: w bind_res_eq_Ok)
  have "mem_read inst' b n = mem_read inst1 b n"
    using rest Cons.prems(2) by (intro Cons.IH) auto
  also have "\<dots> = mem_read inst b n"
    using wr Cons.prems(2) by (intro read_disjoint) (auto simp: w)
  finally show ?case .
qed

lemma write_all_delivers:
  assumes "write_all mem_write inst ws = Ok inst'"
    and "\<forall>(bs, r) \<in> set ws. snd r = fst r + length bs"
    and "sorted_wrt (\<lambda>x y. \<not> overlaps (snd y) (snd x)) ws"
    and "(bs, r) \<in> set ws"
  shows "mem_read inst' (fst r) (length bs) = bs"
  using assms
proof (induction ws arbitrary: inst)
  case Nil
  then show ?case by simp
next
  case (Cons w ws)
  obtain cs q where w: "w = (cs, q)" by (cases w)
  from Cons.prems(1) obtain inst1 where wr: "mem_write inst (fst q) cs = Ok inst1"
    and rest: "write_all mem_write inst1 ws = Ok inst'" by (auto simp: w bind_res_eq_Ok)
  show ?case
  proof (cases "(bs, r) \<in> set ws")
    case True
    with Cons.IH [OF rest] Cons.prems(2,3) show ?thesis by auto
  next
    case False
    with Cons.prems(4) have eq: "cs = bs" "q = r" by (auto simp: w)
    show ?thesis
    proof (cases "bs = []")
      case True
      then show ?thesis by (simp add: read_none)
    next
      case False
      have "mem_read inst' (fst r) (length bs) = mem_read inst1 (fst r) (length bs)"
      proof (rule write_all_frame [OF rest], clarify)
        fix ds a b
        assume "(ds, a, b) \<in> set ws" and "\<not> fst (a, b) + length ds \<le> fst r"
        moreover from this Cons.prems(3) have "\<not> overlaps (a, b) r" by (auto simp: w eq)
        moreover from Cons.prems(2) \<open>(ds, a, b) \<in> set ws\<close> have "b = a + length ds" by auto
        moreover from Cons.prems(2) have "snd r = fst r + length bs" by (auto simp: w eq)
        ultimately show "fst r + length bs \<le> fst (a, b)"
          using False by (auto simp: overlaps_def)
      qed
      then show ?thesis using read_written [OF wr] by (simp add: eq)
    qed
  qed
qed

end

subsection \<open>What a module that passes the checks looks like\<close>

fun oks :: "('e, 'a) res list \<Rightarrow> 'a list" where
  "oks [] = []"
| "oks (Ok x # xs) = x # oks xs"
| "oks (Err e # xs) = oks xs"
| "oks (Panic # xs) = oks xs"

text \<open>The function types a module declares, and the parameter and local slots its functions need,
  counted without a bound.\<close>

fun declared_types :: "payload list \<Rightarrow> func_type list" where
  "declared_types [] = []"
| "declared_types (TypeSection tys # ps) = oks tys @ declared_types ps"
| "declared_types (_ # ps) = declared_types ps"

fun slot_total :: "func_type list \<Rightarrow> payload list \<Rightarrow> nat" where
  "slot_total types [] = 0"
| "slot_total types (TypeSection tys # ps) = slot_total (types @ oks tys) ps"
| "slot_total types (FunctionSection fs # ps) =
     (\<Sum>f\<leftarrow>oks fs. length (ft_params (types ! unat f))) + slot_total types ps"
| "slot_total types (CodeSectionEntry body # ps) =
     (\<Sum>l\<leftarrow>oks (concat (oks [body])). unat l) + slot_total types ps"
| "slot_total types (_ # ps) = slot_total types ps"

text \<open>The host functions a module of each ABI version may import, with their arities: the published
  crypto interface, version two being an extension of version one.\<close>

definition crypto_functions :: "wasm_version \<Rightarrow> (string \<times> string \<times> nat) list" where
  "crypto_functions version =
     [(''sapio_crypto_v1'', ''sha256'', 3), (''sapio_crypto_v1'', ''schnorr_verify'', 3),
      (''sapio_crypto_v1'', ''bip32_derive'', 4)] @
     (case version of
        V1 \<Rightarrow> []
      | V2 \<Rightarrow> [(''sapio_crypto_v2'', ''schnorr_verify'', 4), (''sapio_crypto_v2'', ''xonly_tweak_check'', 4)])"

text \<open>An import of such a function whose own type, among the types declared so far, is the exact
  signature: that many 32-bit integers to one.\<close>

definition crypto_import :: "wasm_version \<Rightarrow> func_type list \<Rightarrow> wasm_import \<Rightarrow> bool" where
  "crypto_import version types imp \<longleftrightarrow>
     (\<exists>n index. (imp_module imp, imp_name imp, n) \<in> set (crypto_functions version) \<and>
        imp_ty imp = FuncRef index \<and> unat index < length types \<and>
        types ! unat index = \<lparr>ft_params = replicate n I32, ft_results = [I32]\<rparr>)"

text \<open>A section that may stand after sections which declare the given types.\<close>

fun section_ok :: "wasm_version \<Rightarrow> func_type list \<Rightarrow> payload \<Rightarrow> bool" where
  "section_ok version types (TypeSection tys) \<longleftrightarrow> (\<forall>ty \<in> set tys. \<exists>t. ty = Ok t)"
| "section_ok version types (ImportSection is) \<longleftrightarrow>
     (\<forall>imp \<in> set is. \<exists>i. imp = Ok i \<and> crypto_import version types i)"
| "section_ok version types (FunctionSection fs) \<longleftrightarrow>
     (\<forall>f \<in> set fs. \<exists>i. f = Ok i \<and> unat i < length types)"
| "section_ok version types (CodeSectionEntry body) \<longleftrightarrow> (\<exists>ls. body = Ok (map Ok ls))"
| "section_ok version types StartSection \<longleftrightarrow> False"
| "section_ok version types (OtherPayload n) \<longleftrightarrow> True"

text \<open>Every section of a sequence, each after the types declared before it.\<close>

definition sections_ok :: "wasm_version \<Rightarrow> func_type list \<Rightarrow> payload list \<Rightarrow> bool" where
  "sections_ok version types sections \<longleftrightarrow>
     (\<forall>before s after. sections = before @ s # after \<longrightarrow>
        section_ok version (types @ declared_types before) s)"

section \<open>Lemmas\<close>

subsection \<open>Module checks\<close>

lemma add_slots_eq_Ok [res_inv]:
  "add_slots slots count = Ok s \<longleftrightarrow>
     unat slots + unat count \<le> 65536 \<and> s = slots + count"
proof -
  have "slots + count \<le> MAX_FUNCTION_SLOTS \<longleftrightarrow> unat slots + unat count \<le> 65536"
    if "unat slots + unat count < 2 ^ 32"
    using that by (simp add: MAX_FUNCTION_SLOTS_def word_le_nat_alt unat_word_ariths)
  then show ?thesis by (auto simp: add_slots_def)
qed

lemma add_slots_iff:
  "add_slots slots count = Ok s \<longleftrightarrow>
     unat slots + unat count \<le> 65536 \<and> unat s = unat slots + unat count"
proof -
  have "unat (slots + count) = unat slots + unat count" if "unat slots + unat count \<le> 65536"
    using that by (simp add: unat_word_ariths)
  then show ?thesis unfolding add_slots_eq_Ok by (metis word_unat_eq_iff)
qed

lemma slot_word: "n \<le> 65536 \<Longrightarrow> \<exists>s :: u32. unat s = n"
  by (intro exI [of _ "word_of_nat n"]) (simp add: unat_word_of_nat_u32)

lemma map_Ok_iff: "(\<exists>ys. xs = map Ok ys) \<longleftrightarrow> (\<forall>x \<in> set xs. \<exists>y. x = Ok y)"
  by (auto simp: ex_map_conv)

lemma oks_map_Ok [simp]: "oks (map Ok xs) = xs"
  by (induction xs) simp_all

lemma push_types_iff:
  "push_types types tys = Ok types' \<longleftrightarrow> (\<forall>ty \<in> set tys. \<exists>t. ty = Ok t) \<and> types' = types @ oks tys"
proof (induction types tys arbitrary: types' rule: push_types.induct)
  case (2 types ty tys)
  then show ?case by (cases ty) (auto simp: bind_res_eq_Ok)
qed auto

lemma add_functions_iff:
  "unat slots \<le> 65536 \<Longrightarrow>
   add_functions types slots fs = Ok s \<longleftrightarrow>
     (\<forall>f \<in> set fs. \<exists>i. f = Ok i \<and> unat i < length types) \<and>
     unat slots + (\<Sum>f\<leftarrow>oks fs. length (ft_params (types ! unat f))) \<le> 65536 \<and>
     unat s = unat slots + (\<Sum>f\<leftarrow>oks fs. length (ft_params (types ! unat f)))"
proof (induction types slots fs rule: add_functions.induct)
  case (1 types slots)
  then show ?case by (auto simp: word_unat_eq_iff)
next
  case (2 types slots f fs)
  show ?case
  proof (cases "\<exists>i. f = Ok i \<and> unat i < length types")
    case True
    then obtain i where f: "f = Ok i" "unat i < length types" by blast
    let ?n = "length (ft_params (types ! unat i))"
    let ?tail = "\<Sum>f\<leftarrow>oks fs. length (ft_params (types ! unat f))"
    have "add_functions types slots (f # fs) = Ok s \<longleftrightarrow>
        ?n < 2 ^ 32 \<and> (\<exists>s1. add_slots slots (word_of_nat ?n) = Ok s1 \<and> add_functions types s1 fs = Ok s)"
      using f by (auto simp: res_inv)
    also have "\<dots> \<longleftrightarrow> (\<exists>s1 :: u32. unat slots + ?n \<le> 65536 \<and> unat s1 = unat slots + ?n \<and>
        add_functions types s1 fs = Ok s)"
      by (auto simp: add_slots_iff unat_word_of_nat_u32)
    also have "\<dots> \<longleftrightarrow> (\<exists>s1 :: u32. unat slots + ?n \<le> 65536 \<and> unat s1 = unat slots + ?n) \<and>
        (\<forall>f \<in> set fs. \<exists>i. f = Ok i \<and> unat i < length types) \<and>
        unat slots + ?n + ?tail \<le> 65536 \<and> unat s = unat slots + ?n + ?tail"
      using "2.IH" f by auto
    also have "(\<exists>s1 :: u32. unat slots + ?n \<le> 65536 \<and> unat s1 = unat slots + ?n) \<longleftrightarrow> unat slots + ?n \<le> 65536"
      using slot_word [of "unat slots + ?n"] by blast
    finally show ?thesis using f by (auto simp: ac_simps)
  next
    case False
    then show ?thesis by (cases f) (auto simp: res_inv)
  qed
qed

lemma add_locals_iff:
  "unat slots \<le> 65536 \<Longrightarrow>
   add_locals slots ls = Ok s \<longleftrightarrow> (\<forall>l \<in> set ls. \<exists>n. l = Ok n) \<and>
     unat slots + (\<Sum>l\<leftarrow>oks ls. unat l) \<le> 65536 \<and> unat s = unat slots + (\<Sum>l\<leftarrow>oks ls. unat l)"
proof (induction slots ls rule: add_locals.induct)
  case (1 slots)
  then show ?case by (auto simp: word_unat_eq_iff)
next
  case (2 slots l ls)
  show ?case
  proof (cases l)
    case (Ok n)
    have s1: "(\<exists>s1 :: u32. unat slots + unat n \<le> 65536 \<and> unat s1 = unat slots + unat n) \<longleftrightarrow>
        unat slots + unat n \<le> 65536"
      using slot_word [of "unat slots + unat n"] by blast
    have "add_locals slots (l # ls) = Ok s \<longleftrightarrow> (\<exists>s1 :: u32. unat slots + unat n \<le> 65536 \<and>
        unat s1 = unat slots + unat n \<and> add_locals s1 ls = Ok s)"
      using Ok by (auto simp: bind_res_eq_Ok add_slots_iff)
    also have "\<dots> \<longleftrightarrow> (\<exists>s1 :: u32. unat slots + unat n \<le> 65536 \<and> unat s1 = unat slots + unat n) \<and>
        (\<forall>l \<in> set ls. \<exists>n. l = Ok n) \<and> unat slots + unat n + (\<Sum>l\<leftarrow>oks ls. unat l) \<le> 65536 \<and>
        unat s = unat slots + unat n + (\<Sum>l\<leftarrow>oks ls. unat l)"
      using "2.IH" Ok by auto
    finally show ?thesis unfolding s1 using Ok by (auto simp: ac_simps)
  qed (simp_all add: bind_res_eq_Ok)
qed

lemma expected_params_table:
  "expected_params version imp = Some n \<longleftrightarrow>
     (imp_module imp, imp_name imp, n) \<in> set (crypto_functions version)"
  by (cases version)
    (auto simp: expected_params_def crypto_functions_def CRYPTO_NAMESPACE_def CRYPTO_NAMESPACE_V2_def)

lemma signature_iff:
  "length (ft_params ty) = n \<and> \<not> list_ex (\<lambda>t. t \<noteq> I32) (ft_params ty) \<and> ft_results ty = [I32] \<longleftrightarrow>
     ty = \<lparr>ft_params = replicate n I32, ft_results = [I32]\<rparr>"
  by (cases ty) (auto simp: list_ex_iff intro: replicate_eqI)

lemma check_import_iff:
  "check_import version types imp = Ok () \<longleftrightarrow> crypto_import version types imp"
proof (cases "imp_ty imp")
  case (FuncRef index)
  then have "check_import version types imp = Ok () \<longleftrightarrow>
      (\<exists>n. expected_params version imp = Some n \<and> unat index < length types \<and>
         length (ft_params (types ! unat index)) = n \<and>
         \<not> list_ex (\<lambda>t. t \<noteq> I32) (ft_params (types ! unat index)) \<and> ft_results (types ! unat index) = [I32])"
    by (auto simp: check_import_def res_inv)
  then show ?thesis
    using FuncRef by (simp add: crypto_import_def expected_params_table signature_iff)
next
  case (OtherRef n)
  then show ?thesis by (auto simp: check_import_def crypto_import_def bind_res_eq_Ok)
qed

lemma check_imports_iff:
  "check_imports version types is = Ok () \<longleftrightarrow>
     (\<forall>imp \<in> set is. \<exists>i. imp = Ok i \<and> crypto_import version types i)"
proof (induction version types "is" rule: check_imports.induct)
  case (2 version types i "is")
  then show ?case by (cases i) (auto simp: bind_res_eq_Ok check_import_iff)
qed simp

lemma declared_types_Cons: "declared_types (s # ss) = declared_types [s] @ declared_types ss"
  by (cases s) simp_all

lemma sections_ok_Nil [simp]: "sections_ok version types []"
  by (simp add: sections_ok_def)

lemma sections_okD:
  "sections_ok version types sections \<Longrightarrow> sections = before @ s # after \<Longrightarrow>
     section_ok version (types @ declared_types before) s"
  unfolding sections_ok_def by blast

lemma sections_ok_Cons [simp]:
  "sections_ok version types (s # ss) \<longleftrightarrow>
     section_ok version types s \<and> sections_ok version (types @ declared_types [s]) ss"
proof
  assume all: "sections_ok version types (s # ss)"
  have "section_ok version types s" using sections_okD [OF all, of "[]" s ss] by simp
  moreover have "section_ok version ((types @ declared_types [s]) @ declared_types before) t"
    if "ss = before @ t # after" for before t after
    using sections_okD [OF all, of "s # before" t after] that
    by (simp add: declared_types_Cons [of s before])
  ultimately show "section_ok version types s \<and> sections_ok version (types @ declared_types [s]) ss"
    by (simp add: sections_ok_def)
next
  assume both: "section_ok version types s \<and> sections_ok version (types @ declared_types [s]) ss"
  have "section_ok version (types @ declared_types before) t" if eq: "s # ss = before @ t # after"
    for before t after
  proof (cases before)
    case Nil
    then show ?thesis using eq both by simp
  next
    case (Cons u us)
    then have "ss = us @ t # after" "u = s" using eq by simp_all
    then show ?thesis
      using sections_okD [OF conjunct2 [OF both], of us t after] Cons
      by (simp add: declared_types_Cons [of s us])
  qed
  then show "sections_ok version types (s # ss)" by (simp add: sections_ok_def)
qed

text \<open>The two variables of the loop against the specification.\<close>

lemma slots_added:
  assumes "\<And>s :: u32. unat s \<le> 65536 \<Longrightarrow> check s \<longleftrightarrow> (\<exists>x. P x \<and> unat s + f x \<le> 65536)"
  shows "(\<exists>s :: u32. n \<le> 65536 \<and> unat s = n \<and> check s) \<longleftrightarrow> (\<exists>x. P x \<and> n + f x \<le> 65536)"
proof
  assume "\<exists>s :: u32. n \<le> 65536 \<and> unat s = n \<and> check s"
  then show "\<exists>x. P x \<and> n + f x \<le> 65536" using assms by blast
next
  assume ex: "\<exists>x. P x \<and> n + f x \<le> 65536"
  then have "n \<le> 65536" by auto
  moreover from slot_word [OF this] obtain s :: u32 where "unat s = n" by blast
  ultimately show "\<exists>s :: u32. n \<le> 65536 \<and> unat s = n \<and> check s" using assms ex by blast
qed

text \<open>The sections that add slots, given the claim for the sections after them.\<close>

lemma function_section_iff:
  assumes "unat slots \<le> 65536" and rest: "\<And>s. unat s \<le> 65536 \<Longrightarrow> check_payloads version types s ps = Ok () \<longleftrightarrow>
      (\<exists>sections. (ps = map Ok sections \<and> sections_ok version types sections) \<and>
         unat s + slot_total types sections \<le> 65536)"
  shows "check_payloads version types slots (Ok (FunctionSection fs) # ps) = Ok () \<longleftrightarrow>
    section_ok version types (FunctionSection fs) \<and>
    (\<exists>sections. (ps = map Ok sections \<and> sections_ok version types sections) \<and>
       unat slots + slot_total types (FunctionSection fs # sections) \<le> 65536)"
proof -
  let ?n = "unat slots + (\<Sum>f\<leftarrow>oks fs. length (ft_params (types ! unat f)))"
  have "check_payloads version types slots (Ok (FunctionSection fs) # ps) = Ok () \<longleftrightarrow>
      section_ok version types (FunctionSection fs) \<and>
      (\<exists>s. ?n \<le> 65536 \<and> unat s = ?n \<and> check_payloads version types s ps = Ok ())"
    using assms(1) by (auto simp: bind_res_eq_Ok add_functions_iff)
  also have "(\<exists>s. ?n \<le> 65536 \<and> unat s = ?n \<and> check_payloads version types s ps = Ok ()) \<longleftrightarrow>
      (\<exists>sections. (ps = map Ok sections \<and> sections_ok version types sections) \<and>
         ?n + slot_total types sections \<le> 65536)"
    using rest by (rule slots_added)
  finally show ?thesis by (simp add: add.assoc)
qed

lemma code_section_iff:
  assumes "unat slots \<le> 65536" and rest: "\<And>s. unat s \<le> 65536 \<Longrightarrow> check_payloads version types s ps = Ok () \<longleftrightarrow>
      (\<exists>sections. (ps = map Ok sections \<and> sections_ok version types sections) \<and>
         unat s + slot_total types sections \<le> 65536)"
  shows "check_payloads version types slots (Ok (CodeSectionEntry body) # ps) = Ok () \<longleftrightarrow>
    section_ok version types (CodeSectionEntry body) \<and>
    (\<exists>sections. (ps = map Ok sections \<and> sections_ok version types sections) \<and>
       unat slots + slot_total types (CodeSectionEntry body # sections) \<le> 65536)"
proof (cases "\<exists>ls. body = Ok (map Ok ls)")
  case True
  then obtain ls where body: "body = Ok (map Ok ls)" ..
  let ?n = "unat slots + (\<Sum>l\<leftarrow>ls. unat l)"
  have "check_payloads version types slots (Ok (CodeSectionEntry body) # ps) = Ok () \<longleftrightarrow>
      (\<exists>s. ?n \<le> 65536 \<and> unat s = ?n \<and> check_payloads version types s ps = Ok ())"
    using assms(1) by (auto simp: body bind_res_eq_Ok add_locals_iff)
  also have "(\<exists>s. ?n \<le> 65536 \<and> unat s = ?n \<and> check_payloads version types s ps = Ok ()) \<longleftrightarrow>
      (\<exists>sections. (ps = map Ok sections \<and> sections_ok version types sections) \<and>
         ?n + slot_total types sections \<le> 65536)"
    using rest by (rule slots_added)
  finally show ?thesis by (auto simp: body add.assoc)
next
  case False
  then show ?thesis using assms(1) by (auto simp: bind_res_eq_Ok add_locals_iff simp flip: map_Ok_iff)
qed

lemma check_payloads_iff:
  assumes "unat slots \<le> 65536"
  shows "check_payloads version types slots ps = Ok () \<longleftrightarrow>
    (\<exists>sections. (ps = map Ok sections \<and> sections_ok version types sections) \<and>
       unat slots + slot_total types sections \<le> 65536)"
  using assms
proof (induction version types slots ps rule: check_payloads.induct)
  case (1 version types slots)
  then show ?case by simp
next
  case (2 version types slots p ps)
  show ?case
  proof (cases p)
    case (Ok q)
    have split: "(\<exists>sections. (p # ps = map Ok sections \<and> sections_ok version types sections) \<and>
         unat slots + slot_total types sections \<le> 65536) \<longleftrightarrow> section_ok version types q \<and>
       (\<exists>sections. (ps = map Ok sections \<and> sections_ok version (types @ declared_types [q]) sections) \<and>
          unat slots + slot_total types (q # sections) \<le> 65536)"
      by (auto simp: Ok Cons_eq_map_conv)
    show ?thesis
    proof (cases q)
      case (TypeSection tys)
      then show ?thesis unfolding split
        using "2.IH"(1) "2.prems" by (auto simp: Ok bind_res_eq_Ok push_types_iff)
    next
      case (ImportSection "is")
      then show ?thesis unfolding split
        using "2.IH"(2) "2.prems" by (auto simp: Ok bind_res_eq_Ok check_imports_iff)
    next
      case (FunctionSection fs)
      then show ?thesis unfolding split
        using function_section_iff [OF "2.prems" "2.IH"(3)] by (simp add: Ok)
    next
      case (CodeSectionEntry body)
      then show ?thesis unfolding split
        using code_section_iff [OF "2.prems" "2.IH"(4)] by (simp add: Ok)
    next
      case StartSection
      then show ?thesis unfolding split by (simp add: Ok)
    next
      case (OtherPayload n)
      then show ?thesis unfolding split using "2.IH"(5) "2.prems" by (simp add: Ok)
    qed
  qed (auto simp: Cons_eq_map_conv)
qed

subsection \<open>One evaluation\<close>

lemma alloc_all_eq_Ok:
  assumes "alloc_all rt nm inst ranges bs = Ok (rs, inst')"
    and "sorted_wrt (\<lambda>x y. \<not> overlaps y x) ranges"
  shows "\<exists>new. rs = ranges @ new \<and> length new = length bs \<and>
      list_all2 (\<lambda>b r. snd r = fst r + length b \<and> fst r < 2 ^ 32) bs new \<and>
      sorted_wrt (\<lambda>x y. \<not> overlaps y x) rs"
  using assms
proof (induction rt nm inst ranges bs rule: alloc_all.induct)
  case (1 rt nm inst ranges)
  then show ?case by simp
next
  case (2 rt nm inst ranges b bs)
  show ?case
  proof (cases "b = []")
    case True
    have "sorted_wrt (\<lambda>x y. \<not> overlaps y x) (ranges @ [(0, 0)])"
      using "2.prems"(2) by (auto simp: sorted_wrt_append overlaps_def)
    from "2.IH"(1) [OF True _ this] "2.prems"(1) True obtain new where "rs = (ranges @ [(0, 0)]) @ new"
      "length new = length bs"
      "list_all2 (\<lambda>b r. snd r = fst r + length b \<and> fst r < 2 ^ 32) bs new"
      "sorted_wrt (\<lambda>x y. \<not> overlaps y x) rs" by auto
    then show ?thesis using True by (intro exI [of _ "(0, 0) # new"]) simp
  next
    case False
    with "2.prems"(1) obtain ptr inst1 where
      call: "rt_call_alloc rt inst nm (word_of_nat (length b)) = (Ok ptr, inst1)"
      by (auto split: prod.splits res.splits)
    let ?r = "(unat ptr, unat ptr + length b)"
    from "2.prems"(1) False call have nov: "\<not> list_ex (overlaps ?r) ranges"
      and fits: "\<not> rt_data_size rt inst1 < snd ?r"
      and rest: "alloc_all rt nm inst1 (ranges @ [?r]) bs = Ok (rs, inst')"
      by (auto simp: Let_def split: if_splits)
    have "sorted_wrt (\<lambda>x y. \<not> overlaps y x) (ranges @ [?r])"
      using "2.prems"(2) nov by (auto simp: sorted_wrt_append list_ex_iff)
    from "2.IH"(2) [OF False call [symmetric] refl refl fits nov rest this]
    obtain new where "rs = (ranges @ [?r]) @ new"
      "length new = length bs"
      "list_all2 (\<lambda>b r. snd r = fst r + length b \<and> fst r < 2 ^ 32) bs new"
      "sorted_wrt (\<lambda>x y. \<not> overlaps y x) rs" by auto
    moreover have "unat ptr < 2 ^ 32" using unsigned_less [of ptr, where ?'a = nat] by simp
    ultimately show ?thesis by (intro exI [of _ "?r # new"]) simp
  qed
qed

lemma evaluate_eq_Ok:
  assumes "evaluate rt enc version m program parameters inp witness = Ok b"
  shows "check_module_bytes m = Ok ()" "check_compilation_budget rt version m = Ok ()"
    "length program \<le> MAX_PROGRAM_BYTES" "length parameters \<le> MAX_PARAMETER_BYTES"
    "length witness \<le> MAX_WITNESS_BYTES"
  using assms by (auto simp: evaluate_def bind_res_eq_Ok not_less split: if_splits)

text \<open>The instance that runs is the one made of the given module.\<close>

lemma evaluate_instance:
  assumes "evaluate rt enc version m program parameters inp witness = Ok b"
  obtains view compiled inst0 inst where "encode_view enc version inp = Ok view"
    "rt_module_new rt m = Ok compiled" "rt_instance_new rt version compiled = Ok inst0"
    "rt_bind_crypto rt inst0 = Ok inst" "rt_get_memory rt inst ''memory'' = Ok ()"
    "rt_get_alloc rt inst (alloc_name version) = Ok ()"
    "rt_get_evaluate rt inst (evaluate_name version) = Ok ()"
    "run_guest rt version inst [program, parameters, view, witness] = Ok b"
  using assms by (auto simp: evaluate_def bind_res_eq_Ok split: if_splits)

lemma run_guest_eq_Ok:
  assumes "run_guest rt version inst inputs = Ok b"
  obtains ranges inst1 inst2 inst3 where
    "alloc_all rt (alloc_name version) inst [] inputs = Ok (ranges, inst1)"
    "write_all (rt_write rt) inst1 (zip inputs ranges) = Ok inst2"
    "rt_call_evaluate rt inst2 (evaluate_name version) (call_arguments ranges inputs) =
       (Ok (if b then 1 else 0), inst3)"
proof -
  from assms obtain ranges inst1 inst2 where
    al: "alloc_all rt (alloc_name version) inst [] inputs = Ok (ranges, inst1)"
    and wr: "write_all (rt_write rt) inst1 (zip inputs ranges) = Ok inst2"
    and ev: "(case rt_call_evaluate rt inst2 (evaluate_name version) (call_arguments ranges inputs) of
       (Panic, _) \<Rightarrow> Panic
     | (Err e, inst3) \<Rightarrow> Err (execution_error rt inst3 (evaluate_name version) e)
     | (Ok w, _) \<Rightarrow> call_result w) = Ok b"
    by (auto simp: run_guest_def bind_res_eq_Ok)
  from ev obtain w inst3 where call: "rt_call_evaluate rt inst2 (evaluate_name version)
      (call_arguments ranges inputs) = (Ok w, inst3)" and "call_result w = Ok b"
    by (auto split: prod.splits res.splits)
  then have "w = (if b then 1 else 0)" by (auto simp: call_result_def split: if_splits)
  with al wr call that show ?thesis by blast
qed

text \<open>Delivery for any number of inputs: the four of the ABI are an instance.\<close>

lemma run_guest_delivers:
  assumes mem: "linear_memory (rt_write rt) rd"
    and run: "run_guest rt version inst inputs = Ok b"
  shows "\<exists>ranges inst1 inst2 inst3 ptrs. ptrs = map (\<lambda>r. word_of_nat (fst r)) ranges \<and>
    alloc_all rt (alloc_name version) inst [] inputs = Ok (ranges, inst1) \<and>
    write_all (rt_write rt) inst1 (zip inputs ranges) = Ok inst2 \<and>
    rt_call_evaluate rt inst2 (evaluate_name version)
      (concat (map (\<lambda>(p, bs). [p, word_of_nat (length bs)]) (zip ptrs inputs))) =
      (Ok (if b then 1 else 0), inst3) \<and>
    list_all2 (\<lambda>p bs. rd inst2 (unat p) (length bs) = bs) ptrs inputs"
proof -
  from run obtain ranges inst1 inst2 inst3 where
    al: "alloc_all rt (alloc_name version) inst [] inputs = Ok (ranges, inst1)"
    and wr: "write_all (rt_write rt) inst1 (zip inputs ranges) = Ok inst2"
    and ev: "rt_call_evaluate rt inst2 (evaluate_name version) (call_arguments ranges inputs) =
       (Ok (if b then 1 else 0), inst3)" by (rule run_guest_eq_Ok)
  from alloc_all_eq_Ok [OF al] have len: "length ranges = length inputs"
    and fit: "list_all2 (\<lambda>b r. snd r = fst r + length b \<and> fst r < 2 ^ 32) inputs ranges"
    and sep: "sorted_wrt (\<lambda>x y. \<not> overlaps y x) ranges" by auto
  let ?ptrs = "map (\<lambda>r. word_of_nat (fst r)) ranges :: u32 list"
  have "sorted_wrt (\<lambda>x y. \<not> overlaps (snd y) (snd x)) (zip inputs ranges)"
    using sep len by (simp add: sorted_wrt_iff_nth_less)
  moreover have "\<forall>(bs, r) \<in> set (zip inputs ranges). snd r = fst r + length bs"
    using fit by (auto simp: list_all2_iff)
  ultimately have del: "rd inst2 (fst r) (length bs) = bs" if "(bs, r) \<in> set (zip inputs ranges)" for bs r
    using linear_memory.write_all_delivers [OF mem wr _ _ that] by blast
  have "list_all2 (\<lambda>p bs. rd inst2 (unat p) (length bs) = bs) ?ptrs inputs"
  proof (rule list_all2_all_nthI)
    fix k assume "k < length ?ptrs"
    then have k: "k < length ranges" "k < length inputs" using len by auto
    then have "(inputs ! k, ranges ! k) \<in> set (zip inputs ranges)" by (auto simp: in_set_zip)
    moreover have "fst (ranges ! k) < 2 ^ 32" using fit k by (auto simp: list_all2_conv_all_nth)
    ultimately show "rd inst2 (unat (?ptrs ! k)) (length (inputs ! k)) = inputs ! k"
      using del k by (simp only: nth_map unat_word_of_nat_u32)
  qed (use len in simp)
  moreover have "call_arguments ranges inputs =
      concat (map (\<lambda>(p, bs). [p, word_of_nat (length bs)]) (zip ?ptrs inputs))"
    by (simp add: call_arguments_def zip_map1 comp_def case_prod_unfold)
  ultimately show ?thesis
    using al wr ev by (intro exI [of _ ranges] exI [of _ inst1] exI [of _ inst2] exI [of _ inst3]) simp
qed

lemma authorize_eq_Ok:
  "authorize rt lib registry program inp witness message = Ok () \<longleftrightarrow>
     validate_psbt lib (si_psbt inp) = Ok () \<and> sighash lib inp = Ok message \<and>
     (\<exists>metadata. list_get (psbt_inputs (si_psbt inp)) (si_input_index inp) = Some metadata \<and>
        pi_final_script_sig metadata = None \<and> pi_final_script_witness metadata = None \<and>
        annex_get lib metadata = Ok None) \<and>
     (\<exists>m selector version. select_module lib registry program = Ok (m, selector, version) \<and>
        evaluate rt (outpoint_encode lib) version m selector (pr_parameters program) inp witness = Ok True)"
  by (fastforce simp: authorize_def res_inv split: option.splits if_splits)

section \<open>Properties\<close>

text \<open>C25: the compilation checks accept exactly the modules of the published interface. A module
  passes when, and only when, it parses into well-formed sections without a start function; every
  import is a host crypto function of its ABI version whose own type index refers to an already
  declared type, and that type is the function's exact signature; every function has a declared
  type; and all functions together need at most 65536 parameter and local slots, counted without
  wrap-around.\<close>

theorem compilation_budget_exact:
  "check_compilation_budget rt version m = Ok () \<longleftrightarrow>
   (\<exists>sections. rt_parse_all rt m = map Ok sections \<and>
      (\<forall>before s after. sections = before @ s # after \<longrightarrow> section_ok version (declared_types before) s) \<and>
      slot_total [] sections \<le> 65536)"
  using check_payloads_iff [of 0 version "[]" "rt_parse_all rt m"]
  by (simp add: check_compilation_budget_def sections_ok_def)

text \<open>A module that imports a function of version two by its second type: accepted in version two
  only.\<close>

definition sample_sections :: "payload list" where
  "sample_sections =
     [TypeSection [Ok \<lparr>ft_params = [], ft_results = []\<rparr>,
        Ok \<lparr>ft_params = [I32, I32, I32, I32], ft_results = [I32]\<rparr>],
      ImportSection [Ok \<lparr>imp_module = ''sapio_crypto_v2'', imp_name = ''xonly_tweak_check'', imp_ty = FuncRef 1\<rparr>],
      FunctionSection [Ok 1], CodeSectionEntry (Ok [Ok 5])]"

definition sample_budget_rt :: "(unit, unit) wasm_runtime" where
  "sample_budget_rt = \<lparr>rt_parse_all = (\<lambda>m. map Ok sample_sections),
     rt_module_new = (\<lambda>_. Ok ()), rt_instance_new = (\<lambda>_ _. Ok ()), rt_bind_crypto = (\<lambda>_. Ok ()),
     rt_get_memory = (\<lambda>_ _. Ok ()), rt_get_alloc = (\<lambda>_ _. Ok ()), rt_get_evaluate = (\<lambda>_ _. Ok ()),
     rt_call_alloc = (\<lambda>_ _ _. (Ok 0, ())), rt_call_evaluate = (\<lambda>_ _ _. (Ok 1, ())),
     rt_exhausted = (\<lambda>_. False), rt_data_size = (\<lambda>_. 0), rt_write = (\<lambda>_ _ _. Ok ())\<rparr>"

lemma sample_sections_ok: "sections_ok version [] sample_sections \<longleftrightarrow> version = V2"
  by (cases version)
    (auto simp: sample_sections_def crypto_import_def crypto_functions_def eval_nat_numeral map_Ok_iff)

theorem compilation_budget_exact_witness:
  "check_compilation_budget sample_budget_rt V2 [] = Ok () \<and>
   check_compilation_budget sample_budget_rt V1 [] \<noteq> Ok ()"
proof -
  have inj: "map (Ok :: _ \<Rightarrow> (string, payload) res) xs = map Ok ys \<longleftrightarrow> xs = ys" for xs ys
    by (simp add: inj_map_eq_map inj_def)
  have "slot_total [] sample_sections \<le> 65536" by (simp add: sample_sections_def)
  then have "check_compilation_budget sample_budget_rt version [] = Ok () \<longleftrightarrow> version = V2" for version
    unfolding compilation_budget_exact using sample_sections_ok [of version]
    by (auto simp: sample_budget_rt_def inj sections_ok_def)
  then show ?thesis by simp
qed

end
