(* ===== verification/Deployment.thy ===== *)
theory Deployment
  imports Evaluator
begin

text \<open>
  The measured deployment profile, \<open>src/src/deployment.rs\<close>: the fixed registry of
  interpreters, the evaluators built from it, and the profile the enclave advertises. The three
  session limits of \<open>src/src/ark_signer.rs\<close> stand here because the two Rust modules import
  each other.

  Parameters, in \<open>deployment_lib\<close>: the bytes of the included WASM artifact, the protocol name of
  the Ark crate, and the evaluator identifiers and constructors of the Sapio crates.
\<close>

section \<open>Data\<close>

definition MAX_PENDING_SESSIONS :: nat where "MAX_PENDING_SESSIONS = 256"
definition SESSION_LIFETIME_SECS :: nat where "SESSION_LIFETIME_SECS = 120"
definition MAX_SESSIONS_PER_USER :: nat where "MAX_SESSIONS_PER_USER = 8"

definition IDENTITY_PROTOCOL :: string where "IDENTITY_PROTOCOL = ''sapio-tee/program-oracle/1''"
definition MAX_CONNECTIONS :: nat where "MAX_CONNECTIONS = 4"
definition REQUEST_TIMEOUT_SECS :: nat where "REQUEST_TIMEOUT_SECS = 30"
definition PAY_AT_LEAST_SELECTOR :: bytes where
  "PAY_AT_LEAST_SELECTOR = str_bytes ''pay-at-least/v1''"

record ark_signing_profile =
  asp_protocol :: string
  asp_max_pending_sessions :: nat
  asp_max_sessions_per_user :: nat
  asp_session_lifetime_secs :: nat
  asp_native_ownership_policy :: bool

record inline_evaluator =
  ie_id :: hash
  ie_wasm_version :: byte

record registered_evaluator =
  re_name :: string
  re_id :: hash
  re_wasm_version :: byte

record program_profile =
  pp_protocol :: string
  pp_inline_evaluators :: "inline_evaluator list"
  pp_registered_evaluators :: "registered_evaluator list"
  pp_max_connections :: nat
  pp_request_timeout_secs :: nat
  pp_ark_signing :: ark_signing_profile

record deployment_lib =
  PAY_AT_LEAST_WASM :: bytes
  SIGNING_PROTOCOL :: string
  evaluator_with_version :: "wasm_version \<Rightarrow> bytes \<Rightarrow> wasm_evaluator result"
  evaluator_id_wasm :: hash
  evaluator_id_wasm_v2 :: hash
  evaluator_id_for_wasm_version :: "bytes \<Rightarrow> wasm_version \<Rightarrow> hash"

section \<open>Operations\<close>

definition REGISTERED :: "deployment_lib \<Rightarrow> (string \<times> wasm_version \<times> bytes) list" where
  "REGISTERED dl = [(''pay-at-least/v1'', V1, PAY_AT_LEAST_WASM dl)]"

definition evaluators :: "deployment_lib \<Rightarrow> wasm_evaluator list result" where
  "evaluators dl = collect_res (\<lambda>(_, version, m). evaluator_with_version dl version m) (REGISTERED dl)"

definition version_number :: "wasm_version \<Rightarrow> byte" where
  "version_number version = (case version of V1 \<Rightarrow> 1 | V2 \<Rightarrow> 2)"

definition profile_of_deployment :: "deployment_lib \<Rightarrow> program_profile" where
  "profile_of_deployment dl =
     \<lparr>pp_protocol = ''SignProgramV1'',
      pp_inline_evaluators =
        [\<lparr>ie_id = evaluator_id_wasm dl, ie_wasm_version = 1\<rparr>,
         \<lparr>ie_id = evaluator_id_wasm_v2 dl, ie_wasm_version = 2\<rparr>],
      pp_registered_evaluators =
        map (\<lambda>(name, version, m).
          \<lparr>re_name = name, re_id = evaluator_id_for_wasm_version dl m version,
           re_wasm_version = version_number version\<rparr>) (REGISTERED dl),
      pp_max_connections = MAX_CONNECTIONS,
      pp_request_timeout_secs = REQUEST_TIMEOUT_SECS,
      pp_ark_signing =
        \<lparr>asp_protocol = SIGNING_PROTOCOL dl,
         asp_max_pending_sessions = MAX_PENDING_SESSIONS,
         asp_max_sessions_per_user = MAX_SESSIONS_PER_USER,
         asp_session_lifetime_secs = SESSION_LIFETIME_SECS,
         asp_native_ownership_policy = True\<rparr>\<rparr>"

text \<open>\<open>ProgramOracle::new\<close> is third-party code: \<open>mk\<close> builds an oracle from a root and a registry.\<close>

definition program_oracle ::
  "deployment_lib \<Rightarrow> (xpriv \<Rightarrow> wasm_evaluator list \<Rightarrow> 'o result) \<Rightarrow> xpriv \<Rightarrow> 'o result" where
  "program_oracle dl mk root = bind_res (evaluators dl) (\<lambda>es. mk root es)"

section \<open>Specification\<close>

text \<open>Documented behaviour of the Sapio constructor: the evaluator keeps its version and module and
  is named by the identifier of the pair.\<close>

definition evaluator_lib :: "deployment_lib \<Rightarrow> bool" where
  "evaluator_lib dl \<longleftrightarrow> (\<forall>version m e. evaluator_with_version dl version m = Ok e \<longrightarrow>
     we_version e = version \<and> we_module e = m \<and> we_id e = evaluator_id_for_wasm_version dl m version)"

definition sample_deployment :: deployment_lib where
  "sample_deployment = \<lparr>PAY_AT_LEAST_WASM = WASM_HEADER @ [7], SIGNING_PROTOCOL = ''signing/1'',
     evaluator_with_version = (\<lambda>v m. Ok \<lparr>we_id = version_number v # m, we_version = v, we_module = m\<rparr>),
     evaluator_id_wasm = [1], evaluator_id_wasm_v2 = [2],
     evaluator_id_for_wasm_version = (\<lambda>m v. version_number v # m)\<rparr>"

section \<open>Lemmas\<close>

lemma evaluators_eq_Ok:
  "evaluators dl = Ok es \<longleftrightarrow>
     (\<exists>e. es = [e] \<and> evaluator_with_version dl V1 (PAY_AT_LEAST_WASM dl) = Ok e)"
  by (auto simp: evaluators_def REGISTERED_def bind_res_eq_Ok)

lemma sample_evaluator_lib: "evaluator_lib sample_deployment"
  by (simp add: evaluator_lib_def sample_deployment_def)

lemma sample_evaluators:
  "evaluators sample_deployment =
     Ok [\<lparr>we_id = 1 # WASM_HEADER @ [7], we_version = V1, we_module = WASM_HEADER @ [7]\<rparr>]"
  by (simp add: evaluators_def REGISTERED_def sample_deployment_def version_number_def)

section \<open>Properties\<close>

text \<open>The advertised profile is true of the registry both execution paths use: whenever the
  evaluators can be built, the profile lists exactly their identifiers and versions, in order, and
  the program oracle is constructed over the same list.\<close>

theorem profile_advertises_registry:
  assumes "evaluator_lib dl" and "evaluators dl = Ok es"
  shows "map (\<lambda>r. (re_id r, re_wasm_version r)) (pp_registered_evaluators (profile_of_deployment dl)) =
      map (\<lambda>e. (we_id e, version_number (we_version e))) es \<and>
    program_oracle dl mk root = mk root es"
proof
  from assms obtain e where "es = [e]" "evaluator_with_version dl V1 (PAY_AT_LEAST_WASM dl) = Ok e"
    by (auto simp: evaluators_eq_Ok)
  then show "map (\<lambda>r. (re_id r, re_wasm_version r))
      (pp_registered_evaluators (profile_of_deployment dl)) =
      map (\<lambda>e. (we_id e, version_number (we_version e))) es"
    using assms(1) by (simp add: profile_of_deployment_def REGISTERED_def evaluator_lib_def)
  show "program_oracle dl mk root = mk root es"
    using assms(2) by (simp add: program_oracle_def)
qed

theorem profile_advertises_registry_witness:
  "evaluator_lib sample_deployment \<and>
   (\<exists>es. evaluators sample_deployment = Ok es \<and>
     map (\<lambda>r. (re_id r, re_wasm_version r))
        (pp_registered_evaluators (profile_of_deployment sample_deployment)) =
      map (\<lambda>e. (we_id e, version_number (we_version e))) es)"
  using profile_advertises_registry [OF sample_evaluator_lib sample_evaluators]
    sample_evaluator_lib sample_evaluators by blast

end
