(* ===== verification/Native_Policy.thy ===== *)
theory Native_Policy
  imports Prelude
begin

text \<open>
  The optional native ownership policy, \<open>src/src/native_policy.rs\<close>: the envelope
  \<open>MAGIC || u32_le(document_len) || JSON(document) || inner\<close> in a program's parameters, its
  parser \<open>parse\<close>, its encoder \<open>encode\<close>, and the check \<open>NativePolicy::enforce\<close> that runs
  before an ownership partial is released.

  Third-party code is a parameter, bundled in the record \<open>policy_codec\<close>: the JSON decoder of
  \<open>Document\<close> (serde), the hex decoder of scripts (bitcoin) and of VTXO policies (ark). A VTXO
  policy is represented by its protocol encoding; the code only compares policies for equality.
\<close>

section \<open>Data\<close>

type_synonym vtxo_policy = bytes

definition MAGIC :: bytes where
  "MAGIC = str_bytes ''sapio-tee/native-ownership/v1''"

record document =
  doc_version :: byte
  doc_offboard :: "string list"
  doc_arkoor :: "string list"
  doc_round :: "string list"
  doc_delegated_round :: "string list"
  doc_status :: bool
  doc_lightning_receive :: bool

record native_policy =
  offboard :: "script list"
  arkoor :: "vtxo_policy list"
  round :: "vtxo_policy list"
  delegated_round :: "vtxo_policy list"
  status :: bool
  lightning_receive :: bool

text \<open>The native ownership proofs of \<open>ark::sapio::protocol\<close>, with the fields they carry.\<close>

record vtxo_request =
  vr_amount :: u64
  vr_policy :: vtxo_policy

record signed_vtxo_request =
  svr_vtxo :: vtxo_request
  svr_cosign_pubkey :: pubkey
  svr_nonces :: "bytes list"

record offboard_request =
  or_script_pubkey :: script
  or_net_amount :: u64
  or_deduct_fees :: bool
  or_fee_rate :: u64

datatype ownership_proof =
    Status
  | Arkoor "vtxo_request list"
  | Round hash "signed_vtxo_request list"
  | DelegatedRound "vtxo_request list"
  | Offboard offboard_request "bytes list"
  | LightningReceive bytes

text \<open>The third-party decoders the parser calls; each error is its display string.\<close>

record policy_codec =
  document_from_slice :: "bytes \<Rightarrow> (string, document) res"
  script_from_hex :: "string \<Rightarrow> (string, script) res"
  policy_from_hex :: "string \<Rightarrow> (string, vtxo_policy) res"

section \<open>Operations\<close>

definition scripts :: "policy_codec \<Rightarrow> string list \<Rightarrow> script list result" where
  "scripts cd values = collect_res
     (\<lambda>value. map_err (\<lambda>e. Msg (''invalid offboard destination script: '' @ e))
        (script_from_hex cd value)) values"

definition policies :: "policy_codec \<Rightarrow> string list \<Rightarrow> vtxo_policy list result" where
  "policies cd values = collect_res
     (\<lambda>value. map_err (\<lambda>e. Msg (''invalid VTXO output policy: '' @ e))
        (policy_from_hex cd value)) values"

text \<open>The last part of \<open>parse\<close>: the version check and the decoding of every entry.\<close>

definition policy_of_document :: "policy_codec \<Rightarrow> document \<Rightarrow> native_policy result" where
  "policy_of_document cd d =
     (if doc_version d \<noteq> 1 then Err (Msg ''unsupported native ownership policy version'')
      else
       bind_res (scripts cd (doc_offboard d)) (\<lambda>off.
       bind_res (policies cd (doc_arkoor d)) (\<lambda>ark.
       bind_res (policies cd (doc_round d)) (\<lambda>rnd.
       bind_res (policies cd (doc_delegated_round d)) (\<lambda>del.
         Ok \<lparr>offboard = off, arkoor = ark, round = rnd, delegated_round = del,
             status = doc_status d, lightning_receive = doc_lightning_receive d\<rparr>)))))"

definition parse :: "policy_codec \<Rightarrow> bytes \<Rightarrow> native_policy option result" where
  "parse cd parameters =
     (case strip_prefix MAGIC parameters of
        None \<Rightarrow> Ok None
      | Some rest \<Rightarrow>
          if length rest < 4 then Err (Msg ''native ownership policy envelope is truncated'')
          else
            let len = unat (u32_from_le (take 4 rest)) in
            bind_res (ok_or (Msg ''native ownership policy length overflows'')
                        (checked_add_usize 4 len)) (\<lambda>end_pos.
            if length rest < end_pos
            then Err (Msg ''native ownership policy length exceeds the parameter blob'')
            else
              bind_res (map_err (\<lambda>_. Msg ''invalid native ownership policy JSON'')
                          (document_from_slice cd (drop 4 (take end_pos rest)))) (\<lambda>document.
              bind_res (policy_of_document cd document) (\<lambda>policy. Ok (Some policy)))))"

fun enforce :: "native_policy \<Rightarrow> ownership_proof \<Rightarrow> unit result" where
  "enforce p Status =
     (if status p then Ok ()
      else Err (Msg ''native ownership policy does not allow status proofs''))"
| "enforce p (Arkoor outputs) =
     (if list_all (\<lambda>out. vr_policy out \<in> set (arkoor p)) outputs then Ok ()
      else Err (Msg ''native ownership policy does not allow an arkoor output policy''))"
| "enforce p (Round challenge outputs) =
     (if list_all (\<lambda>out. vr_policy (svr_vtxo out) \<in> set (round p)) outputs then Ok ()
      else Err (Msg ''native ownership policy does not allow a round output policy''))"
| "enforce p (DelegatedRound outputs) =
     (if list_all (\<lambda>out. vr_policy out \<in> set (delegated_round p)) outputs then Ok ()
      else Err (Msg ''native ownership policy does not allow a delegated-round output policy''))"
| "enforce p (Offboard request inputs) =
     (if or_script_pubkey request \<in> set (offboard p) then Ok ()
      else Err (Msg ''native ownership policy does not allow the offboard destination''))"
| "enforce p (LightningReceive payload) =
     (if lightning_receive p then Ok ()
      else Err (Msg ''native ownership policy does not allow lightning receives''))"

definition encode :: "bytes \<Rightarrow> bytes \<Rightarrow> bytes result" where
  "encode document inner =
     (case u32_try_from (length document) of
        None \<Rightarrow> Panic
      | Some len \<Rightarrow> Ok (MAGIC @ u32_to_le len @ document @ inner))"

section \<open>Specification\<close>

text \<open>
  What a policy promises: the destinations a proof names. \<open>destinations\<close> pairs every
  destination of a value-moving proof with the list that has to contain it.
\<close>

fun destinations :: "native_policy \<Rightarrow> ownership_proof \<Rightarrow> bytes list \<times> bytes list" where
  "destinations p Status = ([], [])"
| "destinations p (Arkoor outputs) = (map vr_policy outputs, arkoor p)"
| "destinations p (Round challenge outputs) = (map (vr_policy \<circ> svr_vtxo) outputs, round p)"
| "destinations p (DelegatedRound outputs) = (map vr_policy outputs, delegated_round p)"
| "destinations p (Offboard request inputs) = ([or_script_pubkey request], offboard p)"
| "destinations p (LightningReceive payload) = ([], [])"

fun flag_allows :: "native_policy \<Rightarrow> ownership_proof \<Rightarrow> bool" where
  "flag_allows p Status = status p"
| "flag_allows p (LightningReceive payload) = lightning_receive p"
| "flag_allows p (Arkoor outputs) = True"
| "flag_allows p (Round challenge outputs) = True"
| "flag_allows p (DelegatedRound outputs) = True"
| "flag_allows p (Offboard request inputs) = True"

definition allowed :: "native_policy \<Rightarrow> ownership_proof \<Rightarrow> bool" where
  "allowed p pf \<longleftrightarrow>
     flag_allows p pf \<and> set (fst (destinations p pf)) \<subseteq> set (snd (destinations p pf))"

text \<open>The policy that lists nothing and sets no flag.\<close>

definition deny_all :: native_policy where
  "deny_all = \<lparr>offboard = [], arkoor = [], round = [], delegated_round = [],
     status = False, lightning_receive = False\<rparr>"

text \<open>A concrete codec for evaluation: one-byte documents, scripts given verbatim.\<close>

definition sample_document :: document where
  "sample_document = \<lparr>doc_version = 1, doc_offboard = [''A''], doc_arkoor = [], doc_round = [''R''],
     doc_delegated_round = [], doc_status = True, doc_lightning_receive = False\<rparr>"

definition sample_codec :: policy_codec where
  "sample_codec = \<lparr>document_from_slice = (\<lambda>b. if b = [123, 125] then Ok sample_document else Err ''json''),
     script_from_hex = (\<lambda>s. Ok (str_bytes s)), policy_from_hex = (\<lambda>s. Ok (str_bytes s))\<rparr>"

section \<open>Lemmas\<close>

lemma enforce_iff: "enforce p pf = Ok () \<longleftrightarrow> allowed p pf"
  by (cases pf) (auto simp: allowed_def list_all_iff)

lemma enforce_not_Panic: "enforce p pf \<noteq> Panic"
  by (cases pf) auto

lemma parse_None: "parse cd parameters = Ok None \<longleftrightarrow> \<not> prefix MAGIC parameters"
  by (auto simp: parse_def strip_prefix_eq_None Let_def prefix_def bind_res_eq_Ok
      split: option.splits if_splits)

lemma parse_envelope:
  assumes "length document < 2 ^ 32"
  shows "parse cd (MAGIC @ u32_to_le (word_of_nat (length document)) @ document @ inner) =
    bind_res (map_err (\<lambda>_. Msg ''invalid native ownership policy JSON'')
      (document_from_slice cd document))
      (\<lambda>d. bind_res (policy_of_document cd d) (\<lambda>policy. Ok (Some policy)))"
proof -
  let ?w = "word_of_nat (length document) :: u32"
  have w: "unat ?w = length document" using assms by (rule unat_word_of_nat_u32)
  let ?rest = "u32_to_le ?w @ document @ inner"
  have t4: "u32_from_le (take 4 ?rest) = ?w" by simp
  have body: "drop 4 (take (4 + length document) ?rest) = document" by simp
  have "\<not> length ?rest < 4" "\<not> length ?rest < 4 + length document" by simp_all
  then show ?thesis
    by (simp only: parse_def strip_prefix_append option.case if_False t4 Let_def w body
        checked_add_usize_u32 ok_or.simps bind_res.simps)
qed

lemma encode_Ok:
  "encode document inner = Ok bs \<longleftrightarrow> length document < 2 ^ 32 \<and>
     bs = MAGIC @ u32_to_le (word_of_nat (length document)) @ document @ inner"
  by (auto simp: encode_def u32_try_from_def)

lemma sample_policy: "policy_of_document sample_codec sample_document =
   Ok \<lparr>offboard = [[65]], arkoor = [], round = [[82]], delegated_round = [],
        status = True, lightning_receive = False\<rparr>"
  by (simp add: policy_of_document_def scripts_def policies_def sample_codec_def
      sample_document_def str_bytes_def)

lemma sample_encode: "encode [123, 125] [9] = Ok (MAGIC @ [2, 0, 0, 0, 123, 125, 9])"
  by (simp add: encode_def u32_try_from_def u32_to_le_def)

lemma sample_from_slice: "document_from_slice sample_codec [123, 125] = Ok sample_document"
  by (simp add: sample_codec_def)

section \<open>Properties\<close>

text \<open>C33: encoding a document and parsing the resulting parameters decodes exactly that document,
  whatever the inner program parameters are, and \<open>encode\<close> panics exactly on documents whose
  length does not fit a \<open>u32\<close>.\<close>

theorem parse_encode_roundtrip:
  "(encode document inner = Panic \<longleftrightarrow> 2 ^ 32 \<le> length document) \<and>
   (encode document inner = Ok bs \<longrightarrow> prefix MAGIC bs \<and> suffix inner bs \<and>
      parse cd bs =
        bind_res (map_err (\<lambda>_. Msg ''invalid native ownership policy JSON'')
          (document_from_slice cd document))
          (\<lambda>d. bind_res (policy_of_document cd d) (\<lambda>policy. Ok (Some policy))))"
proof (intro conjI impI)
  show "encode document inner = Panic \<longleftrightarrow> 2 ^ 32 \<le> length document"
    by (auto simp: encode_def u32_try_from_def)
next
  assume "encode document inner = Ok bs"
  then show "prefix MAGIC bs" "suffix inner bs"
    by (auto simp: encode_Ok suffix_def)
next
  assume "encode document inner = Ok bs"
  then show "parse cd bs = bind_res (map_err (\<lambda>_. Msg ''invalid native ownership policy JSON'')
      (document_from_slice cd document))
      (\<lambda>d. bind_res (policy_of_document cd d) (\<lambda>policy. Ok (Some policy)))"
    by (simp only: encode_Ok parse_envelope)
qed

theorem parse_encode_roundtrip_witness:
  "encode [123, 125] [9] = Ok (MAGIC @ [2, 0, 0, 0, 123, 125, 9]) \<and>
   is_ok (parse sample_codec (MAGIC @ [2, 0, 0, 0, 123, 125, 9]))"
proof -
  note e = sample_encode
  then have "parse sample_codec (MAGIC @ [2, 0, 0, 0, 123, 125, 9]) =
      bind_res (map_err (\<lambda>_. Msg ''invalid native ownership policy JSON'')
        (document_from_slice sample_codec [123, 125]))
        (\<lambda>d. bind_res (policy_of_document sample_codec d) (\<lambda>policy. Ok (Some policy)))"
    using parse_encode_roundtrip [of "[123, 125]" "[9]" "MAGIC @ [2, 0, 0, 0, 123, 125, 9]"
        sample_codec] by blast
  then have "is_ok (parse sample_codec (MAGIC @ [2, 0, 0, 0, 123, 125, 9]))"
    by (simp only: sample_from_slice sample_policy map_err.simps bind_res.simps is_ok.simps)
  with e show ?thesis by blast
qed

text \<open>C40: the empty policy denies every proof that names a destination and both flag-controlled
  variants. A value-moving proof with an empty output list names no destination and passes, so
  an empty allow-list does not reject the variant itself.\<close>

theorem deny_all_enforced:
  "enforce deny_all pf = Ok () \<longleftrightarrow>
     (\<exists>c. pf = Arkoor [] \<or> pf = Round c [] \<or> pf = DelegatedRound [])"
  by (cases pf) (auto simp: deny_all_def list_all_iff split: list.splits)

text \<open>C32: the policy check accepts a native ownership proof exactly when every destination the
  proof names is on the list of its variant and, for the variants without destinations, the
  variant's flag is set; in every other case it is an error, and it never panics.\<close>

theorem enforce_refines_allowed:
  "(enforce p pf = Ok () \<longleftrightarrow> allowed p pf) \<and>
   (\<not> allowed p pf \<longleftrightarrow> (\<exists>m. enforce p pf = Err (Msg m)))"
  by (cases pf) (auto simp: allowed_def list_all_iff)

text \<open>C31: the parser recognises an envelope exactly by its magic prefix: parameters without it
  are a legacy program, and parameters with it are never treated as one, so that a malformed
  envelope cannot be mistaken for the absence of a policy.\<close>

theorem parse_fails_closed:
  "(parse cd parameters = Ok None \<longleftrightarrow> \<not> prefix MAGIC parameters) \<and>
   (parse cd (MAGIC @ rest) = Ok r \<longrightarrow>
      (\<exists>p d. r = Some p \<and> 4 + nat_le (take 4 rest) \<le> length rest \<and>
         document_from_slice cd (take (nat_le (take 4 rest)) (drop 4 rest)) = Ok d \<and>
         doc_version d = 1 \<and> policy_of_document cd d = Ok p))"
proof (intro conjI impI)
  show "parse cd parameters = Ok None \<longleftrightarrow> \<not> prefix MAGIC parameters" by (rule parse_None)
next
  assume "parse cd (MAGIC @ rest) = Ok r"
  then have long: "4 \<le> length rest"
    and r: "bind_res (map_err (\<lambda>_. Msg ''invalid native ownership policy JSON'')
        (document_from_slice cd (drop 4 (take (4 + unat (u32_from_le (take 4 rest))) rest))))
        (\<lambda>d. bind_res (policy_of_document cd d) (\<lambda>policy. Ok (Some policy))) = Ok r"
    and fits: "4 + unat (u32_from_le (take 4 rest)) \<le> length rest"
    by (auto simp: parse_def Let_def split: if_splits)
  have len: "unat (u32_from_le (take 4 rest)) = nat_le (take 4 rest)"
    by (rule unat_u32_from_le) (use long in simp)
  from r obtain d p where d: "document_from_slice cd
      (drop 4 (take (4 + unat (u32_from_le (take 4 rest))) rest)) = Ok d"
    and p: "policy_of_document cd d = Ok p" and "r = Some p"
    by (auto simp: res_inv)
  moreover from p have "doc_version d = 1" by (auto simp: policy_of_document_def split: if_splits)
  ultimately show "\<exists>p d. r = Some p \<and> 4 + nat_le (take 4 rest) \<le> length rest \<and>
         document_from_slice cd (take (nat_le (take 4 rest)) (drop 4 rest)) = Ok d \<and>
         doc_version d = 1 \<and> policy_of_document cd d = Ok p"
    using fits len by (auto simp: drop_take)
qed

theorem parse_fails_closed_witness:
  "parse sample_codec (MAGIC @ [2, 0, 0, 0, 123, 125, 9]) =
     Ok (Some \<lparr>offboard = [[65]], arkoor = [], round = [[82]], delegated_round = [],
              status = True, lightning_receive = False\<rparr>) \<and>
   4 + nat_le (take 4 [2, 0, 0, 0, 123, 125, 9]) \<le> length [2, 0, 0, 0, 123, 125, 9 :: byte]"
proof -
  let ?r = "Some \<lparr>offboard = [[65]], arkoor = [], round = [[82]], delegated_round = [],
              status = True, lightning_receive = False\<rparr>"
  have "parse sample_codec (MAGIC @ [2, 0, 0, 0, 123, 125, 9]) = Ok ?r"
    using parse_envelope [of "[123, 125]" sample_codec "[9]"]
    by (simp add: u32_to_le_def sample_from_slice sample_policy)
  then show ?thesis
    using parse_fails_closed [of sample_codec "[]" "[2, 0, 0, 0, 123, 125, 9]" ?r] by blast
qed

end
