(* ===== verification/Session_Store.thy ===== *)
theory Session_Store
  imports Prelude
begin

text \<open>
  The table of pending signing sessions. The program keeps a \<open>HashMap\<close> behind a mutex; the
  model is an association list with distinct keys, so that every operation evaluates. The locale
  \<open>session_store\<close> is the interface the signer uses (lookup, insert, remove, retain, count) with
  the laws of a map; the admission bounds are proved once inside it, for any owner function, and
  the association list interprets it.
\<close>

section \<open>The table as an association list\<close>

type_synonym ('k, 'v) table = "('k \<times> 'v) list"

definition tbl_insert :: "'k \<Rightarrow> 'v \<Rightarrow> ('k, 'v) table \<Rightarrow> ('k, 'v) table" where
  "tbl_insert k v t = AList.update k v t"

definition tbl_remove :: "'k \<Rightarrow> ('k, 'v) table \<Rightarrow> ('k, 'v) table" where
  "tbl_remove k t = AList.delete k t"

definition tbl_retain :: "('v \<Rightarrow> bool) \<Rightarrow> ('k, 'v) table \<Rightarrow> ('k, 'v) table" where
  "tbl_retain P t = filter (\<lambda>(k, v). P v) t"

text \<open>\<open>values().filter(P).count()\<close>; with the constant-true predicate, \<open>len()\<close>.\<close>

definition tbl_count :: "('v \<Rightarrow> bool) \<Rightarrow> ('k, 'v) table \<Rightarrow> nat" where
  "tbl_count P t = length (filter (\<lambda>(k, v). P v) t)"

definition tbl_invar :: "('k, 'v) table \<Rightarrow> bool" where
  "tbl_invar t \<longleftrightarrow> distinct (map fst t)"

section \<open>The interface\<close>

locale session_store =
  fixes lookup :: "'s \<Rightarrow> 'k \<Rightarrow> 'v option"
    and insert_at :: "'k \<Rightarrow> 'v \<Rightarrow> 's \<Rightarrow> 's"
    and remove_at :: "'k \<Rightarrow> 's \<Rightarrow> 's"
    and retain_if :: "('v \<Rightarrow> bool) \<Rightarrow> 's \<Rightarrow> 's"
    and count_if :: "('v \<Rightarrow> bool) \<Rightarrow> 's \<Rightarrow> nat"
    and invar :: "'s \<Rightarrow> bool"
  assumes invar_insert: "invar s \<Longrightarrow> invar (insert_at k v s)"
    and invar_remove: "invar s \<Longrightarrow> invar (remove_at k s)"
    and invar_retain: "invar s \<Longrightarrow> invar (retain_if P s)"
    and lookup_insert: "invar s \<Longrightarrow> lookup (insert_at k v s) = (lookup s)(k \<mapsto> v)"
    and lookup_remove: "invar s \<Longrightarrow> lookup (remove_at k s) = (lookup s)(k := None)"
    and lookup_retain: "invar s \<Longrightarrow> lookup (retain_if P s) k =
      (case lookup s k of None \<Rightarrow> None | Some v \<Rightarrow> if P v then Some v else None)"
    and count_insert: "invar s \<Longrightarrow> lookup s k = None \<Longrightarrow>
      count_if P (insert_at k v s) = count_if P s + (if P v then 1 else 0)"
    and count_remove: "invar s \<Longrightarrow> count_if P (remove_at k s) =
      count_if P s - (case lookup s k of None \<Rightarrow> 0 | Some v \<Rightarrow> if P v then 1 else 0)"
    and count_retain: "count_if P (retain_if Q s) \<le> count_if P s"
begin

text \<open>The admission bounds: at most \<open>cap\<close> entries, at most \<open>ucap\<close> for each owner.\<close>

definition bounded :: "nat \<Rightarrow> nat \<Rightarrow> ('v \<Rightarrow> 'o) \<Rightarrow> 's \<Rightarrow> bool" where
  "bounded cap ucap owner s \<longleftrightarrow>
     invar s \<and> count_if (\<lambda>_. True) s \<le> cap \<and> (\<forall>u. count_if (\<lambda>v. owner v = u) s \<le> ucap)"

lemma bounded_retain: "bounded cap ucap owner s \<Longrightarrow> bounded cap ucap owner (retain_if P s)"
  unfolding bounded_def by (meson count_retain invar_retain le_trans)

lemma bounded_remove: "bounded cap ucap owner s \<Longrightarrow> bounded cap ucap owner (remove_at k s)"
  unfolding bounded_def by (auto simp: invar_remove count_remove intro: le_trans [OF diff_le_self])

lemma bounded_admit:
  assumes "bounded cap ucap owner s" and "lookup s k = None"
    and "count_if (\<lambda>_. True) s < cap" and "count_if (\<lambda>v'. owner v' = owner v) s < ucap"
  shows "bounded cap ucap owner (insert_at k v s)"
  using assms unfolding bounded_def by (auto simp: invar_insert count_insert)

text \<open>Pruning and one admission, the whole effect of a successful reservation.\<close>

lemma bounded_reserve:
  assumes "bounded cap ucap owner s" and "lookup (retain_if P s) k = None"
    and "count_if (\<lambda>_. True) (retain_if P s) < cap"
    and "count_if (\<lambda>v'. owner v' = owner v) (retain_if P s) < ucap"
  shows "bounded cap ucap owner (insert_at k v (retain_if P s))"
  by (rule bounded_admit [OF bounded_retain [OF assms(1)] assms(2-4)])

end

section \<open>The association list provides the interface\<close>

lemma tbl_lookup_retain:
  "distinct (map fst t) \<Longrightarrow> map_of (tbl_retain P t) k =
     (case map_of t k of None \<Rightarrow> None | Some v \<Rightarrow> if P v then Some v else None)"
proof (induction t)
  case Nil
  then show ?case by (simp add: tbl_retain_def)
next
  case (Cons kv t)
  obtain a b where kv: "kv = (a, b)" by (cases kv)
  have "map_of (tbl_retain P t) a = None"
    using Cons.prems by (auto simp: kv map_of_eq_None_iff tbl_retain_def)
  with Cons show ?case by (auto simp: kv tbl_retain_def split: option.splits)
qed

lemma tbl_count_update:
  "map_of t k = None \<Longrightarrow> tbl_count P (AList.update k v t) = tbl_count P t + (if P v then 1 else 0)"
  by (induction t) (auto simp: tbl_count_def split: if_splits)

lemma tbl_count_delete:
  "distinct (map fst t) \<Longrightarrow> tbl_count P (AList.delete k t) =
     tbl_count P t - (case map_of t k of None \<Rightarrow> 0 | Some v \<Rightarrow> if P v then 1 else 0)"
proof (induction t)
  case Nil
  then show ?case by (simp add: tbl_count_def)
next
  case (Cons kv t)
  obtain a b where kv: "kv = (a, b)" by (cases kv)
  show ?case
  proof (cases "a = k")
    case True
    with Cons.prems have "AList.delete k t = t" by (auto simp: kv intro: delete_id)
    with True show ?thesis by (simp add: kv tbl_count_def)
  next
    case False
    have "map_of t k = Some v \<Longrightarrow> P v \<Longrightarrow> 0 < tbl_count P t" for v
      by (auto simp: tbl_count_def filter_empty_conv dest!: map_of_SomeD)
    with False Cons show ?thesis
      by (auto simp: kv tbl_count_def split: option.splits)
  qed
qed

interpretation ss: session_store map_of tbl_insert tbl_remove tbl_retain tbl_count tbl_invar
proof
  fix s :: "('a \<times> 'b) list" and k v P Q
  show "count_if_le": "tbl_count P (tbl_retain Q s) \<le> tbl_count P s"
    by (induction s) (auto simp: tbl_count_def tbl_retain_def)
  assume inv: "tbl_invar s"
  show "tbl_invar (tbl_insert k v s)"
    using inv by (simp add: tbl_invar_def tbl_insert_def distinct_update)
  show "tbl_invar (tbl_remove k s)"
    using inv by (simp add: tbl_invar_def tbl_remove_def distinct_delete)
  show "tbl_invar (tbl_retain P s)"
    using inv by (simp add: tbl_invar_def tbl_retain_def distinct_map_filter)
  show "map_of (tbl_insert k v s) = (map_of s)(k \<mapsto> v)"
    by (simp add: tbl_insert_def update_conv')
  show "map_of (tbl_remove k s) = (map_of s)(k := None)"
    by (simp add: tbl_remove_def delete_conv')
  show "map_of (tbl_retain P s) k =
      (case map_of s k of None \<Rightarrow> None | Some v \<Rightarrow> if P v then Some v else None)"
    using inv by (simp add: tbl_invar_def tbl_lookup_retain)
  show "tbl_count P (tbl_remove k s) =
      tbl_count P s - (case map_of s k of None \<Rightarrow> 0 | Some v \<Rightarrow> if P v then 1 else 0)"
    using inv by (simp add: tbl_invar_def tbl_remove_def tbl_count_delete)
  assume "map_of s k = None"
  then show "tbl_count P (tbl_insert k v s) = tbl_count P s + (if P v then 1 else 0)"
    by (simp add: tbl_insert_def tbl_count_update)
qed

lemmas tbl_simps = ss.lookup_insert ss.lookup_remove ss.lookup_retain
  ss.invar_insert ss.invar_remove ss.invar_retain

lemma tbl_invar_Nil [simp]: "tbl_invar []"
  by (simp add: tbl_invar_def)

lemma tbl_count_length: "tbl_count (\<lambda>_. True) t = length t"
  by (simp add: tbl_count_def case_prod_unfold)

lemma tbl_bounded_Nil [simp]: "ss.bounded cap ucap owner []"
  by (simp add: ss.bounded_def tbl_count_def)

end
