(* ===== verification/Ark_Signer.thy ===== *)
theory Ark_Signer
  imports Deployment Native_Policy Session_Store "HOL-Library.Multiset"
begin

text \<open>
  The one-use nested signing sessions, \<open>src/src/ark_signer.rs\<close>: \<open>ArkSigner::new\<close>,
  \<open>prepare\<close>, \<open>finish\<close> and \<open>cancel\<close>.

  The signer's state is its root, registry and the table of pending sessions behind a mutex. The
  part of \<open>prepare\<close> before the lock reads only fields that never change, and \<open>finish\<close> and
  \<open>cancel\<close> hold the lock only for one removal, so concurrent requests are interleavings of the
  atomic operations below; a panic inside \<open>prepare\<close>'s critical section poisons the mutex. Times
  are nanoseconds of the monotonic clock; the entropy of \<open>Nonce::new\<close> and the samples of the
  session-id loop are arguments. The loop may run for ever on a repeating generator, so \<open>prepare\<close>
  returns an option: \<open>None\<close> is a call that never returns.

  The Ark, Sapio and secp256k1 functions are the record \<open>ark_lib\<close>. Third-party values the code
  only passes on (public nonces, partial signatures, sessions, key pairs) are byte strings.
\<close>

section \<open>Data\<close>

text \<open>\<open>ark::musig::nested::Intent\<close>: a \<open>Copy\<close> value with the two group members.\<close>

record intent =
  in_message :: hash
  in_members :: "pubkey \<times> pubkey"
  in_server :: "pubkey option"
  in_other :: bytes

record ark_program =
  ap_evaluator :: hash
  ap_program :: bytes
  ap_parameters :: bytes

record program_key =
  pk_program :: ark_program
  pk_root :: xpub
  pk_user_pubkey :: pubkey

text \<open>\<open>SpendRequest\<close>: the witness, which the signer passes to the evaluator, the context and server key
  the request was made from, and the rest.\<close>

record spend_request =
  sr_witness :: bytes
  sr_input :: signing_input
  sr_server :: "pubkey option"
  sr_other :: bytes

record ownership_request =
  ow_input :: bytes
  ow_proof :: ownership_proof

datatype signing_action = Spend spend_request | Ownership ownership_request

record prepare_request =
  pq_protocol :: string
  pq_key :: program_key
  pq_action :: signing_action
  pq_user_nonce :: string

record prepare_response =
  ps_protocol :: string
  ps_session :: hash
  ps_program_nonce :: string

record finish_request =
  fq_protocol :: string
  fq_session :: hash
  fq_server_nonce :: "string option"
  fq_server_partial :: "string option"

record finish_response =
  fs_protocol :: string
  fs_program_partial :: string

record cancel_request =
  cq_protocol :: string
  cq_session :: hash

type_synonym nonce = bytes
type_synonym member_nonce = bytes

record ark_lib =
  action_intent :: "signing_action \<Rightarrow> program_key \<Rightarrow> intent result"
  parse_nonce :: "string \<Rightarrow> bytes result"
  parse_partial :: "string \<Rightarrow> bytes result"
  member_nonce_from_bytes :: "intent \<Rightarrow> pubkey \<Rightarrow> bytes \<Rightarrow> member_nonce result"
  program_instance_new :: "hash \<Rightarrow> bytes \<Rightarrow> bytes \<Rightarrow> program_instance result"
  instance_id :: "program_instance \<Rightarrow> hash"
  ark_program_id :: "ark_program \<Rightarrow> hash"
  derive_public_key :: "program_instance \<Rightarrow> xpub \<Rightarrow> bytes result"
  even_public_key :: "bytes \<Rightarrow> pubkey"
  spend_signing_input :: "spend_request \<Rightarrow> program_key \<Rightarrow> signing_input result"
  ownership_message :: "ownership_request \<Rightarrow> program_key \<Rightarrow> hash result"
  nonce_new :: "bytes \<Rightarrow> intent \<Rightarrow> pubkey \<Rightarrow> nonce result"
  nonce_public :: "nonce \<Rightarrow> member_nonce"
  member_nonce_serialize :: "member_nonce \<Rightarrow> bytes"
  nonce_sign :: "nonce \<Rightarrow> bytes \<Rightarrow> bytes \<Rightarrow> bytes result"
  hex_encode :: "bytes \<Rightarrow> string"
  session_new :: "intent \<Rightarrow> member_nonce \<times> member_nonce \<Rightarrow> bytes option \<Rightarrow> bytes result"
  verify_server :: "bytes \<Rightarrow> bytes \<Rightarrow> unit result"
  program_derivation_path :: "hash \<Rightarrow> u32 list"
  derive_priv :: "xpriv \<Rightarrow> u32 list \<Rightarrow> xpriv result"
  to_keypair :: "xpriv \<Rightarrow> bytes"
  add_xonly_tweak :: "bytes \<Rightarrow> bytes \<Rightarrow> bytes result"
  xpub_from_priv :: "xpriv \<Rightarrow> xpub"
  MAX_PROGRAM_ROOT_DEPTH :: byte

text \<open>Everything outside the repository that the signer calls.\<close>

record ('m, 'i) signer_env =
  env_rt :: "('m, 'i) wasm_runtime"
  env_spend :: spend_lib
  env_codec :: policy_codec
  env_deploy :: deployment_lib
  env_ark :: ark_lib

record pending =
  pd_program_id :: hash
  pd_intent :: intent
  pd_user_nonce :: member_nonce
  pd_nonce :: nonce
  pd_expires :: nat

record ark_signer =
  as_root :: xpriv
  as_public_root :: xpub
  as_evaluators :: "wasm_evaluator list"
  as_pending :: "(hash, pending) table"
  as_poisoned :: bool

section \<open>Operations\<close>

text \<open>\<open>Duration::from_secs\<close> in nanoseconds.\<close>

definition duration_from_secs :: "nat \<Rightarrow> nat" where
  "duration_from_secs s = s * 1000000000"

definition ark_signer_new :: "('m, 'i) signer_env \<Rightarrow> xpriv \<Rightarrow> ark_signer result" where
  "ark_signer_new env root =
     (if MAX_PROGRAM_ROOT_DEPTH (env_ark env) < xprv_depth root
      then Err (Program (RootDepth (xprv_depth root)))
      else bind_res (evaluators (env_deploy env)) (\<lambda>es.
        Ok \<lparr>as_root = root, as_public_root = xpub_from_priv (env_ark env) root, as_evaluators = es,
            as_pending = [], as_poisoned = False\<rparr>))"

subsection \<open>Prepare\<close>

text \<open>The action gate: a spend is evaluated, an ownership proof is held against the policy and
  its message against the intent.\<close>

definition check_action ::
  "('m, 'i) signer_env \<Rightarrow> wasm_evaluator list \<Rightarrow> program_key \<Rightarrow> program_instance \<Rightarrow>
     native_policy option \<Rightarrow> intent \<Rightarrow> signing_action \<Rightarrow> unit result" where
  "check_action env registry key program policy intn action =
     (case action of
        Spend spend \<Rightarrow>
          bind_res (spend_signing_input (env_ark env) spend key) (\<lambda>inp.
          authorize (env_rt env) (env_spend env) registry program inp (sr_witness spend) (in_message intn))
      | Ownership ownership \<Rightarrow>
          bind_res (case policy of None \<Rightarrow> Ok () | Some p \<Rightarrow> enforce p (ow_proof ownership)) (\<lambda>_.
          bind_res (ownership_message (env_ark env) ownership key) (\<lambda>message.
          if message \<noteq> in_message intn
          then Err (Msg ''ownership request differs from the nested signing intent'')
          else Ok ())))"

text \<open>Every check of \<open>prepare\<close> before the lock, in the order of the source.\<close>

definition check_prepare ::
  "('m, 'i) signer_env \<Rightarrow> ark_signer \<Rightarrow> prepare_request \<Rightarrow>
     (intent \<times> member_nonce \<times> program_instance) result" where
  "check_prepare env sg request =
     (let lib = env_ark env; key = pq_key request; prog = pk_program key in
      if pq_protocol request \<noteq> SIGNING_PROTOCOL (env_deploy env)
      then Err (Msg ''unsupported signing protocol'')
      else if pk_root key \<noteq> as_public_root sg then Err (Msg ''wrong attested program root'')
      else
        bind_res (action_intent lib (pq_action request) key) (\<lambda>intn.
        bind_res (parse_nonce lib (pq_user_nonce request)) (\<lambda>public.
        bind_res (member_nonce_from_bytes lib intn (pk_user_pubkey key) public) (\<lambda>user_nonce.
        bind_res (program_instance_new lib (ap_evaluator prog) (ap_program prog) (ap_parameters prog))
          (\<lambda>program.
        if instance_id lib program \<noteq> ark_program_id lib prog
        then Err (Msg ''program identity encoding mismatch'')
        else
          bind_res (derive_public_key lib program (pk_root key)) (\<lambda>xonly.
          if even_public_key lib xonly \<noteq> snd (in_members intn)
          then Err (Msg ''program public-key derivation mismatch'')
          else
            bind_res (parse (env_codec env) (pr_parameters program)) (\<lambda>policy.
            if policy \<noteq> None \<and> inline_wasm_version (env_spend env) (pr_evaluator program) = None
            then Err (Msg ''native ownership policy requires an inline WASM program'')
            else
              bind_res (check_action env (as_evaluators sg) key program policy intn (pq_action request))
                (\<lambda>_. Ok (intn, user_nonce, program)))))))))"

text \<open>The session-id loop. The generator's \<open>i\<close>-th answer is \<open>None\<close> when the system source fails,
  which is a panic; \<open>Some None\<close> is that panic.\<close>

partial_function (option) pick_session ::
  "(nat \<Rightarrow> hash option) \<Rightarrow> nat \<Rightarrow> (hash, pending) table \<Rightarrow> hash option option" where
  "pick_session rng i t =
     (case rng i of
        None \<Rightarrow> Some None
      | Some sid \<Rightarrow> if map_of t sid = None then Some (Some sid) else pick_session rng (Suc i) t)"

definition poison :: "ark_signer \<Rightarrow> ark_signer" where
  "poison sg = sg\<lparr>as_poisoned := True\<rparr>"

text \<open>The critical section of \<open>prepare\<close>.\<close>

definition reserve ::
  "('m, 'i) signer_env \<Rightarrow> ark_signer \<Rightarrow> nat \<Rightarrow> bytes \<Rightarrow> (nat \<Rightarrow> hash option) \<Rightarrow>
     intent \<times> member_nonce \<times> program_instance \<Rightarrow> (prepare_response result \<times> ark_signer) option" where
  "reserve env sg now seed rng checked =
     (case checked of (intn, user_nonce, program) \<Rightarrow>
      if as_poisoned sg then Some (Err (Msg ''signer state unavailable''), sg)
      else
        let table = tbl_retain (\<lambda>session. now < pd_expires session) (as_pending sg);
            sg1 = sg\<lparr>as_pending := table\<rparr> in
        if MAX_PENDING_SESSIONS \<le> tbl_count (\<lambda>_. True) table
        then Some (Err (Msg ''signer session capacity exceeded''), sg1)
        else if MAX_SESSIONS_PER_USER \<le>
            tbl_count (\<lambda>session. fst (in_members (pd_intent session)) = fst (in_members intn)) table
        then Some (Err (Msg ''per-wallet session capacity exceeded''), sg1)
        else case nonce_new (env_ark env) seed intn (snd (in_members intn)) of
          Err e \<Rightarrow> Some (Err e, sg1)
        | Panic \<Rightarrow> Some (Panic, poison sg1)
        | Ok nonce \<Rightarrow>
            (case pick_session rng 0 table of
               None \<Rightarrow> None
             | Some None \<Rightarrow> Some (Panic, poison sg1)
             | Some (Some session) \<Rightarrow> Some
                 (Ok \<lparr>ps_protocol = SIGNING_PROTOCOL (env_deploy env), ps_session = session,
                      ps_program_nonce = hex_encode (env_ark env)
                        (member_nonce_serialize (env_ark env) (nonce_public (env_ark env) nonce))\<rparr>,
                  sg1\<lparr>as_pending := tbl_insert session
                     \<lparr>pd_program_id = instance_id (env_ark env) program, pd_intent = intn,
                      pd_user_nonce = user_nonce, pd_nonce = nonce,
                      pd_expires = now + duration_from_secs SESSION_LIFETIME_SECS\<rparr> table\<rparr>)))"

definition prepare ::
  "('m, 'i) signer_env \<Rightarrow> ark_signer \<Rightarrow> nat \<Rightarrow> bytes \<Rightarrow> (nat \<Rightarrow> hash option) \<Rightarrow> prepare_request \<Rightarrow>
     (prepare_response result \<times> ark_signer) option" where
  "prepare env sg now seed rng request =
     (case check_prepare env sg request of
        Err e \<Rightarrow> Some (Err e, sg)
      | Panic \<Rightarrow> Some (Panic, sg)
      | Ok checked \<Rightarrow> reserve env sg now seed rng checked)"

subsection \<open>Finish and cancel\<close>

definition SCALAR_ZERO :: bytes where "SCALAR_ZERO = replicate 32 0"

text \<open>\<open>finish\<close> after the removal, on the session it owns.\<close>

definition finish_pending ::
  "('m, 'i) signer_env \<Rightarrow> xpriv \<Rightarrow> nat \<Rightarrow> finish_request \<Rightarrow> pending \<Rightarrow> finish_response result" where
  "finish_pending env root now request p =
     (let lib = env_ark env in
      if fq_protocol request \<noteq> SIGNING_PROTOCOL (env_deploy env)
      then Err (Msg ''unsupported signing protocol'')
      else if pd_expires p \<le> now then Err (Msg ''signing session expired'')
      else
        bind_res (transpose_res (parse_nonce lib) (fq_server_nonce request)) (\<lambda>server_nonce.
        bind_res (transpose_res (parse_partial lib) (fq_server_partial request)) (\<lambda>server_partial.
        if in_server (pd_intent p) = None \<and> server_partial \<noteq> None
        then Err (Msg ''server share supplied for a joint-key-only signature'')
        else
          bind_res (session_new lib (pd_intent p)
              (pd_user_nonce p, nonce_public lib (pd_nonce p)) server_nonce) (\<lambda>session.
          bind_res (case server_partial of None \<Rightarrow> Ok () | Some s \<Rightarrow> verify_server lib session s) (\<lambda>_.
          bind_res (derive_priv lib root (program_derivation_path lib (pd_program_id p))) (\<lambda>derived.
          bind_res (add_xonly_tweak lib (to_keypair lib derived) SCALAR_ZERO) (\<lambda>keypair.
          bind_res (nonce_sign lib (pd_nonce p) keypair session) (\<lambda>share.
          Ok \<lparr>fs_protocol = SIGNING_PROTOCOL (env_deploy env),
              fs_program_partial = hex_encode lib share\<rparr>))))))))"

definition finish ::
  "('m, 'i) signer_env \<Rightarrow> ark_signer \<Rightarrow> nat \<Rightarrow> finish_request \<Rightarrow> finish_response result \<times> ark_signer" where
  "finish env sg now request =
     (if as_poisoned sg then (Err (Msg ''signer state unavailable''), sg)
      else
        let sg1 = sg\<lparr>as_pending := tbl_remove (fq_session request) (as_pending sg)\<rparr> in
        case map_of (as_pending sg) (fq_session request) of
          None \<Rightarrow> (Err (Msg ''unknown, expired or consumed signing session''), sg1)
        | Some p \<Rightarrow> (finish_pending env (as_root sg) now request p, sg1))"

definition cancel :: "('m, 'i) signer_env \<Rightarrow> ark_signer \<Rightarrow> cancel_request \<Rightarrow> unit result \<times> ark_signer" where
  "cancel env sg request =
     (if as_poisoned sg then (Err (Msg ''signer state unavailable''), sg)
      else
        (if cq_protocol request \<noteq> SIGNING_PROTOCOL (env_deploy env)
         then Err (Msg ''unsupported signing protocol'')
         else if map_of (as_pending sg) (cq_session request) = None
         then Err (Msg ''unknown, expired or consumed signing session'')
         else Ok (),
         sg\<lparr>as_pending := tbl_remove (cq_session request) (as_pending sg)\<rparr>))"

subsection \<open>Calls\<close>

text \<open>The three requests with the time and entropy each call reads, and their outcomes.\<close>

datatype call =
    CPrepare prepare_request nat bytes "nat \<Rightarrow> hash option"
  | CFinish finish_request nat
  | CCancel cancel_request

datatype outcome =
    Prepared "prepare_response result"
  | Finished "finish_response result"
  | Cancelled "unit result"

fun exec :: "('m, 'i) signer_env \<Rightarrow> ark_signer \<Rightarrow> call \<Rightarrow> (outcome \<times> ark_signer) option" where
  "exec env sg (CPrepare request now seed rng) =
     map_option (\<lambda>(r, sg'). (Prepared r, sg')) (prepare env sg now seed rng request)"
| "exec env sg (CFinish request now) = (case finish env sg now request of (r, sg') \<Rightarrow> Some (Finished r, sg'))"
| "exec env sg (CCancel request) = (case cancel env sg request of (r, sg') \<Rightarrow> Some (Cancelled r, sg'))"

text \<open>A history of a signer created from \<open>root\<close>: the calls that returned, in the order of their
  critical sections.\<close>

inductive signer_run ::
  "('m, 'i) signer_env \<Rightarrow> xpriv \<Rightarrow> (call \<times> outcome) list \<Rightarrow> ark_signer \<Rightarrow> bool" for env root where
  start: "ark_signer_new env root = Ok sg \<Longrightarrow> signer_run env root [] sg"
| step: "signer_run env root tr sg \<Longrightarrow> exec env sg c = Some (out, sg') \<Longrightarrow>
    signer_run env root (tr @ [(c, out)]) sg'"

section \<open>Specification\<close>

text \<open>The live part of an abstract session map at time \<open>now\<close>.\<close>

definition live :: "nat \<Rightarrow> (hash \<rightharpoonup> pending) \<Rightarrow> (hash \<rightharpoonup> pending)" where
  "live now m k = (case m k of None \<Rightarrow> None | Some p \<Rightarrow> if now < pd_expires p then Some p else None)"

text \<open>What the action gate promises, by kind of action.\<close>

definition spend_authorized ::
  "('m, 'i) signer_env \<Rightarrow> wasm_evaluator list \<Rightarrow> program_instance \<Rightarrow> signing_input \<Rightarrow> bytes \<Rightarrow> hash \<Rightarrow> bool" where
  "spend_authorized env registry program inp witness message \<longleftrightarrow>
     validate_psbt (env_spend env) (si_psbt inp) = Ok () \<and> sighash (env_spend env) inp = Ok message \<and>
     (\<exists>metadata. list_get (psbt_inputs (si_psbt inp)) (si_input_index inp) = Some metadata \<and>
        pi_final_script_sig metadata = None \<and> pi_final_script_witness metadata = None \<and>
        annex_get (env_spend env) metadata = Ok None) \<and>
     (\<exists>m selector version. select_module (env_spend env) registry program = Ok (m, selector, version) \<and>
        evaluate (env_rt env) (outpoint_encode (env_spend env)) version m selector
          (pr_parameters program) inp witness = Ok True)"

fun action_authorized ::
  "('m, 'i) signer_env \<Rightarrow> wasm_evaluator list \<Rightarrow> program_key \<Rightarrow> program_instance \<Rightarrow>
     native_policy option \<Rightarrow> hash \<Rightarrow> signing_action \<Rightarrow> bool" where
  "action_authorized env registry key program policy message (Spend spend) \<longleftrightarrow>
     (\<exists>inp. spend_signing_input (env_ark env) spend key = Ok inp \<and>
        spend_authorized env registry program inp (sr_witness spend) message)"
| "action_authorized env registry key program policy message (Ownership ownership) \<longleftrightarrow>
     ownership_message (env_ark env) ownership key = Ok message \<and>
     (\<forall>p. policy = Some p \<longrightarrow> allowed p (ow_proof ownership))"

text \<open>The whole gate: what has to hold of a request before a nonce is created for it.\<close>

definition request_authorized ::
  "('m, 'i) signer_env \<Rightarrow> xpub \<Rightarrow> wasm_evaluator list \<Rightarrow> prepare_request \<Rightarrow> intent \<Rightarrow>
     program_instance \<Rightarrow> bool" where
  "request_authorized env public_root registry request intn program \<longleftrightarrow>
     pq_protocol request = SIGNING_PROTOCOL (env_deploy env) \<and> pk_root (pq_key request) = public_root \<and>
     action_intent (env_ark env) (pq_action request) (pq_key request) = Ok intn \<and>
     instance_id (env_ark env) program = ark_program_id (env_ark env) (pk_program (pq_key request)) \<and>
     (\<exists>xonly. derive_public_key (env_ark env) program public_root = Ok xonly \<and>
        even_public_key (env_ark env) xonly = snd (in_members intn)) \<and>
     (\<exists>policy. parse (env_codec env) (pr_parameters program) = Ok policy \<and>
        (policy \<noteq> None \<longrightarrow> inline_wasm_version (env_spend env) (pr_evaluator program) \<noteq> None) \<and>
        action_authorized env registry (pq_key request) program policy (in_message intn)
          (pq_action request))"

text \<open>The share that a finished session yields.\<close>

definition share_of ::
  "('m, 'i) signer_env \<Rightarrow> xpriv \<Rightarrow> pending \<Rightarrow> bytes option \<Rightarrow> bytes \<Rightarrow> bool" where
  "share_of env root p server_nonce share \<longleftrightarrow>
     (\<exists>session derived keypair.
        session_new (env_ark env) (pd_intent p)
          (pd_user_nonce p, nonce_public (env_ark env) (pd_nonce p)) server_nonce = Ok session \<and>
        derive_priv (env_ark env) root (program_derivation_path (env_ark env) (pd_program_id p)) = Ok derived \<and>
        add_xonly_tweak (env_ark env) (to_keypair (env_ark env) derived) SCALAR_ZERO = Ok keypair \<and>
        nonce_sign (env_ark env) (pd_nonce p) keypair session = Ok share)"

text \<open>Events of a history that concern session \<open>s\<close>: it was handed out, or a finish or cancel
  named it.\<close>

fun prepared_for :: "hash \<Rightarrow> call \<times> outcome \<Rightarrow> bool" where
  "prepared_for s (c, Prepared (Ok response)) \<longleftrightarrow> ps_session response = s"
| "prepared_for s _ \<longleftrightarrow> False"

fun touched_by :: "hash \<Rightarrow> call \<times> outcome \<Rightarrow> bool" where
  "touched_by s (CFinish request now, out) \<longleftrightarrow> fq_session request = s"
| "touched_by s (CCancel request, out) \<longleftrightarrow> cq_session request = s"
| "touched_by s _ \<longleftrightarrow> False"

fun succeeded :: "outcome \<Rightarrow> bool" where
  "succeeded (Prepared r) \<longleftrightarrow> is_ok r"
| "succeeded (Finished r) \<longleftrightarrow> is_ok r"
| "succeeded (Cancelled r) \<longleftrightarrow> is_ok r"

text \<open>The event \<open>e\<close> is the prepare that passed the gate and created session \<open>s\<close> with the record
  \<open>p\<close>; a history explains a record when such an event is in it and no later one concerns \<open>s\<close>.\<close>

definition created_by ::
  "('m, 'i) signer_env \<Rightarrow> xpub \<Rightarrow> wasm_evaluator list \<Rightarrow> hash \<Rightarrow> pending \<Rightarrow> call \<times> outcome \<Rightarrow> bool" where
  "created_by env public_root registry s p e \<longleftrightarrow>
     (\<exists>request now seed rng response program.
        e = (CPrepare request now seed rng, Prepared (Ok response)) \<and> ps_session response = s \<and>
        request_authorized env public_root registry request (pd_intent p) program \<and>
        pd_program_id p = ark_program_id (env_ark env) (pk_program (pq_key request)) \<and>
        nonce_new (env_ark env) seed (pd_intent p) (snd (in_members (pd_intent p))) = Ok (pd_nonce p) \<and>
        pd_expires p = now + duration_from_secs SESSION_LIFETIME_SECS)"

definition session_origin ::
  "('m, 'i) signer_env \<Rightarrow> xpub \<Rightarrow> wasm_evaluator list \<Rightarrow> (call \<times> outcome) list \<Rightarrow> hash \<Rightarrow> pending \<Rightarrow> bool" where
  "session_origin env public_root registry tr s p \<longleftrightarrow>
     (\<exists>before e after. tr = before @ e # after \<and> created_by env public_root registry s p e \<and>
        (\<forall>e' \<in> set after. \<not> prepared_for s e' \<and> \<not> touched_by s e'))"

definition signer_bounded :: "ark_signer \<Rightarrow> bool" where
  "signer_bounded sg \<longleftrightarrow>
     ss.bounded MAX_PENDING_SESSIONS MAX_SESSIONS_PER_USER (\<lambda>p. fst (in_members (pd_intent p)))
       (as_pending sg)"

section \<open>Lemmas\<close>

subsection \<open>The gate\<close>

lemma check_action_eq_Ok:
  "check_action env registry key program policy intn action = Ok () \<Longrightarrow>
   action_authorized env registry key program policy (in_message intn) action"
  by (cases action)
    (auto simp: check_action_def bind_res_eq_Ok authorize_eq_Ok spend_authorized_def enforce_iff
      split: option.splits if_splits)

lemma check_prepare_eq_Ok:
  assumes "check_prepare env sg request = Ok (intn, user_nonce, program)"
  shows "request_authorized env (as_public_root sg) (as_evaluators sg) request intn program"
    and "\<exists>public. parse_nonce (env_ark env) (pq_user_nonce request) = Ok public \<and>
      member_nonce_from_bytes (env_ark env) intn (pk_user_pubkey (pq_key request)) public = Ok user_nonce"
    and "program_instance_new (env_ark env) (ap_evaluator (pk_program (pq_key request)))
      (ap_program (pk_program (pq_key request))) (ap_parameters (pk_program (pq_key request))) = Ok program"
  using assms
  by (auto simp: check_prepare_def Let_def request_authorized_def bind_res_eq_Ok
      split: if_splits dest: check_action_eq_Ok)

lemma check_prepare_static:
  assumes "as_public_root sg = as_public_root sg'" and "as_evaluators sg = as_evaluators sg'"
  shows "check_prepare env sg request = check_prepare env sg' request"
  by (simp only: check_prepare_def assms)

subsection \<open>The session-id loop\<close>

lemma pick_session_fresh:
  assumes "pick_session rng i t = Some (Some s)"
  shows "map_of t s = None"
proof -
  have "\<forall>s. r = Some s \<longrightarrow> map_of t s = None"
    if "pick_session rng i t = Some r" for r
  proof (rule pick_session.raw_induct [OF _ that])
    fix pick :: "(nat \<Rightarrow> hash option) \<Rightarrow> nat \<Rightarrow> (hash, pending) table \<Rightarrow> hash option option"
      and rng i t r
    assume ih: "\<And>rng i t r. pick rng i t = Some r \<Longrightarrow>
        \<forall>s. r = Some s \<longrightarrow> map_of t s = None"
      and "(case rng i of None \<Rightarrow> Some None
        | Some sid \<Rightarrow> if map_of t sid = None then Some (Some sid) else pick rng (Suc i) t) = Some r"
    then show "\<forall>s. r = Some s \<longrightarrow> map_of t s = None"
      using ih [of rng "Suc i" t r] by (auto split: option.splits if_splits)
  qed
  with assms show ?thesis by blast
qed

lemma pick_session_stops:
  assumes "rng (i + n) = Some s" and "map_of t s = None"
  shows "pick_session rng i t \<noteq> None"
  using assms
proof (induction n arbitrary: i)
  case 0
  then show ?case by (subst pick_session.simps) simp
next
  case (Suc n)
  from Suc.IH [of "Suc i"] Suc.prems have "pick_session rng (Suc i) t \<noteq> None" by simp
  then show ?case by (subst pick_session.simps) (auto split: option.splits)
qed

lemma pick_session_first: "rng i = Some s \<Longrightarrow> map_of t s = None \<Longrightarrow> pick_session rng i t = Some (Some s)"
  by (subst pick_session.simps) simp

text \<open>One sample more than there are sessions is enough, when samples do not repeat.\<close>

lemma pick_session_distinct_samples:
  assumes "\<And>i. i < n \<Longrightarrow> rng i \<noteq> None" and "inj_on rng {..<n}" and "length t < n"
  shows "\<exists>s. pick_session rng 0 t = Some s"
proof -
  have "\<exists>i < n. rng i \<notin> Some ` fst ` set t"
  proof (rule ccontr)
    assume "\<not> (\<exists>i < n. rng i \<notin> Some ` fst ` set t)"
    then have "rng ` {..<n} \<subseteq> Some ` fst ` set t" by auto
    then have "card (rng ` {..<n}) \<le> card (Some ` fst ` set t)" by (intro card_mono) auto
    also have "\<dots> \<le> length t"
      by (metis card_image_le card_length finite_imageI finite_set le_trans)
    finally show False using assms(2,3) by (simp add: card_image)
  qed
  then obtain i where i: "i < n" "rng i \<notin> Some ` fst ` set t" by blast
  from assms(1) [OF i(1)] obtain s where "rng i = Some s" by blast
  with i(2) have "rng (0 + i) = Some s" "map_of t s = None" by (auto simp: map_of_eq_None_iff)
  from pick_session_stops [of rng 0 i s t, OF this] show ?thesis by auto
qed

subsection \<open>The operations\<close>

lemma prepare_cases:
  assumes "prepare env sg now seed rng request = Some (r, sg')"
  obtains
    (refused) "sg' = sg" "\<not> is_ok r"
  | (pruned) b where "\<not> as_poisoned sg" "\<not> is_ok r" "sg' = sg\<lparr>as_pending :=
        tbl_retain (\<lambda>session. now < pd_expires session) (as_pending sg), as_poisoned := b\<rparr>"
  | (admitted) intn user_nonce program nonce session where
      "\<not> as_poisoned sg"
      "check_prepare env sg request = Ok (intn, user_nonce, program)"
      "tbl_count (\<lambda>_. True) (tbl_retain (\<lambda>session. now < pd_expires session) (as_pending sg))
         < MAX_PENDING_SESSIONS"
      "tbl_count (\<lambda>session. fst (in_members (pd_intent session)) = fst (in_members intn))
         (tbl_retain (\<lambda>session. now < pd_expires session) (as_pending sg)) < MAX_SESSIONS_PER_USER"
      "nonce_new (env_ark env) seed intn (snd (in_members intn)) = Ok nonce"
      "map_of (tbl_retain (\<lambda>session. now < pd_expires session) (as_pending sg)) session = None"
      "r = Ok \<lparr>ps_protocol = SIGNING_PROTOCOL (env_deploy env), ps_session = session,
         ps_program_nonce = hex_encode (env_ark env)
           (member_nonce_serialize (env_ark env) (nonce_public (env_ark env) nonce))\<rparr>"
      "sg' = sg\<lparr>as_pending := tbl_insert session
         \<lparr>pd_program_id = instance_id (env_ark env) program, pd_intent = intn,
          pd_user_nonce = user_nonce, pd_nonce = nonce,
          pd_expires = now + duration_from_secs SESSION_LIFETIME_SECS\<rparr>
         (tbl_retain (\<lambda>session. now < pd_expires session) (as_pending sg))\<rparr>"
proof (cases "check_prepare env sg request")
  case (Ok c)
  obtain intn user_nonce program where c: "c = (intn, user_nonce, program)" by (cases c)
  let ?t = "tbl_retain (\<lambda>session. now < pd_expires session) (as_pending sg)"
  from assms Ok have res: "reserve env sg now seed rng (intn, user_nonce, program) = Some (r, sg')"
    by (simp add: prepare_def c)
  consider "as_poisoned sg"
    | "\<not> as_poisoned sg" "MAX_PENDING_SESSIONS \<le> tbl_count (\<lambda>_. True) ?t \<or> MAX_SESSIONS_PER_USER \<le>
        tbl_count (\<lambda>session. fst (in_members (pd_intent session)) = fst (in_members intn)) ?t"
    | "\<not> as_poisoned sg" "\<not> MAX_PENDING_SESSIONS \<le> tbl_count (\<lambda>_. True) ?t" "\<not> MAX_SESSIONS_PER_USER \<le>
        tbl_count (\<lambda>session. fst (in_members (pd_intent session)) = fst (in_members intn)) ?t" by blast
  then show ?thesis
  proof cases
    case 1
    with res have "sg' = sg" "\<not> is_ok r" by (auto simp: reserve_def)
    then show ?thesis by (rule refused)
  next
    case 2
    with res have "\<not> is_ok r" "sg' = sg\<lparr>as_pending := ?t, as_poisoned := False\<rparr>"
      by (auto simp: reserve_def Let_def split: if_splits)
    with 2(1) show ?thesis by (rule pruned)
  next
    case 3
    show ?thesis
    proof (cases "nonce_new (env_ark env) seed intn (snd (in_members intn))")
      case (Ok nonce)
      with res 3 obtain s where s: "pick_session rng 0 ?t = Some s"
        by (cases "pick_session rng 0 ?t") (simp_all add: reserve_def Let_def)
      show ?thesis
      proof (cases s)
        case None
        with res 3 Ok s have "\<not> is_ok r" "sg' = sg\<lparr>as_pending := ?t, as_poisoned := True\<rparr>"
          by (auto simp: reserve_def Let_def poison_def)
        with 3(1) show ?thesis by (rule pruned)
      next
        case (Some session)
        with s have "map_of ?t session = None" using pick_session_fresh by blast
        with res 3 Ok s Some \<open>check_prepare env sg request = Ok c\<close> show ?thesis
          by (intro admitted [of intn user_nonce program nonce session])
            (simp_all add: reserve_def Let_def c)
      qed
    next
      case (Err e)
      with res 3 have "\<not> is_ok r" "sg' = sg\<lparr>as_pending := ?t, as_poisoned := False\<rparr>"
        by (auto simp: reserve_def Let_def)
      with 3(1) show ?thesis by (rule pruned)
    next
      case Panic
      with res 3 have "\<not> is_ok r" "sg' = sg\<lparr>as_pending := ?t, as_poisoned := True\<rparr>"
        by (auto simp: reserve_def Let_def poison_def)
      with 3(1) show ?thesis by (rule pruned)
    qed
  qed
next
  case (Err e)
  with assms have "sg' = sg" "\<not> is_ok r" by (auto simp: prepare_def)
  then show ?thesis by (rule refused)
next
  case Panic
  with assms have "sg' = sg" "\<not> is_ok r" by (auto simp: prepare_def)
  then show ?thesis by (rule refused)
qed

lemma finish_pending_eq_Ok:
  assumes "finish_pending env root now request p = Ok response"
  shows "fq_protocol request = SIGNING_PROTOCOL (env_deploy env)" "now < pd_expires p"
    "fs_protocol response = SIGNING_PROTOCOL (env_deploy env)"
    "\<exists>server_nonce share. fs_program_partial response = hex_encode (env_ark env) share \<and>
       transpose_res (parse_nonce (env_ark env)) (fq_server_nonce request) = Ok server_nonce \<and>
       share_of env root p server_nonce share"
    "in_server (pd_intent p) = None \<Longrightarrow> fq_server_partial request = None"
proof -
  note unfolded = assms [unfolded finish_pending_def Let_def bind_res_eq_Ok if_Ok_iff]
  show "fq_protocol request = SIGNING_PROTOCOL (env_deploy env)" "now < pd_expires p"
    "fs_protocol response = SIGNING_PROTOCOL (env_deploy env)"
    using unfolded by auto
  show "\<exists>server_nonce share. fs_program_partial response = hex_encode (env_ark env) share \<and>
       transpose_res (parse_nonce (env_ark env)) (fq_server_nonce request) = Ok server_nonce \<and>
       share_of env root p server_nonce share"
    using unfolded unfolding share_of_def by fastforce
  assume "in_server (pd_intent p) = None"
  then show "fq_server_partial request = None"
    using unfolded by (auto simp: transpose_res_eq_Ok split: option.splits)
qed

lemma finish_eq_Ok:
  assumes "finish env sg now request = (Ok response, sg')"
  obtains p where "\<not> as_poisoned sg" "map_of (as_pending sg) (fq_session request) = Some p"
    "finish_pending env (as_root sg) now request p = Ok response"
  using assms by (auto simp: finish_def Let_def split: if_splits option.splits)

lemma finish_state: "snd (finish env sg now request) = (if as_poisoned sg then sg
    else sg\<lparr>as_pending := tbl_remove (fq_session request) (as_pending sg)\<rparr>)"
  by (auto simp: finish_def Let_def split: option.splits)

lemma cancel_state: "snd (cancel env sg request) = (if as_poisoned sg then sg
    else sg\<lparr>as_pending := tbl_remove (cq_session request) (as_pending sg)\<rparr>)"
  by (simp add: cancel_def)

lemma exec_cases:
  assumes "exec env sg c = Some (out, sg')"
  obtains
    (prepare) request now seed rng r where "c = CPrepare request now seed rng" "out = Prepared r"
      "prepare env sg now seed rng request = Some (r, sg')"
  | (finish) request now r where "c = CFinish request now" "out = Finished r"
      "finish env sg now request = (r, sg')"
      "sg' = (if as_poisoned sg then sg
        else sg\<lparr>as_pending := tbl_remove (fq_session request) (as_pending sg)\<rparr>)"
  | (cancel) request r where "c = CCancel request" "out = Cancelled r"
      "cancel env sg request = (r, sg')"
      "sg' = (if as_poisoned sg then sg
        else sg\<lparr>as_pending := tbl_remove (cq_session request) (as_pending sg)\<rparr>)"
proof (cases c)
  case (CPrepare request now seed rng)
  with assms prepare show ?thesis by auto
next
  case (CFinish request now)
  obtain r where "finish env sg now request = (r, sg')" "out = Finished r"
    using assms by (auto simp: CFinish split: prod.splits)
  then show ?thesis using finish_state [of env sg now request] CFinish finish by auto
next
  case (CCancel request)
  obtain r where "cancel env sg request = (r, sg')" "out = Cancelled r"
    using assms by (auto simp: CCancel split: prod.splits)
  then show ?thesis using cancel_state [of env sg request] CCancel cancel by auto
qed

subsection \<open>Histories\<close>

inductive_cases signer_run_snocE: "signer_run env root (tr @ [e]) sg"

lemma exec_static:
  assumes "exec env sg c = Some (out, sg')"
  shows "as_root sg' = as_root sg \<and> as_public_root sg' = as_public_root sg \<and>
    as_evaluators sg' = as_evaluators sg"
  using assms by (cases rule: exec_cases) (auto elim!: prepare_cases)

lemma run_static:
  assumes "signer_run env root tr sg"
  shows "as_root sg = root \<and> as_public_root sg = xpub_from_priv (env_ark env) root \<and>
    evaluators (env_deploy env) = Ok (as_evaluators sg)"
  using assms
proof induction
  case (start sg)
  then show ?case by (auto simp: ark_signer_new_def bind_res_eq_Ok split: if_splits)
next
  case (step tr sg c out sg')
  then show ?case using exec_static by metis
qed

lemma exec_bounded:
  assumes "exec env sg c = Some (out, sg')" and "signer_bounded sg"
  shows "signer_bounded sg'"
  using assms(1)
proof (cases rule: exec_cases)
  case (prepare request now seed rng r)
  from prepare(3) show ?thesis
  proof (cases rule: prepare_cases)
    case refused
    with assms(2) show ?thesis by simp
  next
    case (pruned b)
    with assms(2) show ?thesis by (simp add: signer_bounded_def ss.bounded_retain)
  next
    case (admitted intn user_nonce program nonce session)
    from assms(2) admitted(3,4,6,8) show ?thesis
      by (simp add: signer_bounded_def ss.bounded_reserve)
  qed
next
  case (finish request now r)
  with assms(2) show ?thesis by (simp add: signer_bounded_def ss.bounded_remove)
next
  case (cancel request r)
  with assms(2) show ?thesis by (simp add: signer_bounded_def ss.bounded_remove)
qed

lemma run_bounded: "signer_run env root tr sg \<Longrightarrow> signer_bounded sg"
proof (induction rule: signer_run.induct)
  case (start sg)
  then show ?case
    by (auto simp: ark_signer_new_def bind_res_eq_Ok signer_bounded_def split: if_splits)
next
  case (step tr sg c out sg')
  then show ?case using exec_bounded by blast
qed

lemma run_invar: "signer_run env root tr sg \<Longrightarrow> tbl_invar (as_pending sg)"
  using run_bounded by (auto simp: signer_bounded_def ss.bounded_def)

lemma session_originI:
  "tr = before @ e # after \<Longrightarrow> created_by env public_root registry s p e \<Longrightarrow>
   (\<And>e'. e' \<in> set after \<Longrightarrow> \<not> prepared_for s e' \<and> \<not> touched_by s e') \<Longrightarrow>
   session_origin env public_root registry tr s p"
  unfolding session_origin_def by blast

lemma session_origin_extend:
  assumes "session_origin env public_root registry tr s p" "\<not> prepared_for s e" "\<not> touched_by s e"
  shows "session_origin env public_root registry (tr @ [e]) s p"
proof -
  from assms(1) obtain before e0 after where "tr = before @ e0 # after"
    "created_by env public_root registry s p e0"
    "\<forall>e' \<in> set after. \<not> prepared_for s e' \<and> \<not> touched_by s e'"
    unfolding session_origin_def by blast
  with assms(2,3) show ?thesis by (intro session_originI [of _ before e0 "after @ [e]"]) auto
qed

text \<open>The central invariant: what the table holds, the gate has let in.\<close>

lemma exec_origin:
  assumes run: "signer_run env root tr sg" and ex: "exec env sg c = Some (out, sg')"
    and ih: "\<And>s p. map_of (as_pending sg) s = Some p \<Longrightarrow>
      session_origin env (as_public_root sg) (as_evaluators sg) tr s p"
    and live: "\<not> as_poisoned sg'" and p: "map_of (as_pending sg') s = Some p"
  shows "session_origin env (as_public_root sg) (as_evaluators sg) (tr @ [(c, out)]) s p"
  using ex
proof (cases rule: exec_cases)
  note inv = run_invar [OF run]
  case (prepare request now seed rng r)
  from prepare(3) show ?thesis
  proof (cases rule: prepare_cases)
    case refused
    with prepare p ih [of s p] show ?thesis by (cases r) (auto intro!: session_origin_extend)
  next
    case (pruned b)
    with prepare p inv ih [of s p] show ?thesis
      by (cases r) (auto intro!: session_origin_extend simp: tbl_simps split: option.splits if_splits)
  next
    case (admitted intn user_nonce program nonce session)
    show ?thesis
    proof (cases "s = session")
      case True
      with p admitted inv have p_eq: "p = \<lparr>pd_program_id = instance_id (env_ark env) program,
          pd_intent = intn, pd_user_nonce = user_nonce, pd_nonce = nonce,
          pd_expires = now + duration_from_secs SESSION_LIFETIME_SECS\<rparr>"
        by (simp add: tbl_simps)
      note auth = check_prepare_eq_Ok(1) [OF admitted(2)]
      then have "instance_id (env_ark env) program =
          ark_program_id (env_ark env) (pk_program (pq_key request))"
        by (simp add: request_authorized_def)
      with auth admitted(5,7) True p_eq prepare(1,2)
      have "created_by env (as_public_root sg) (as_evaluators sg) s p (c, out)"
        by (auto simp: created_by_def)
      then show ?thesis by (intro session_originI [of _ tr "(c, out)" "[]"]) simp_all
    next
      case False
      with p admitted inv have "map_of (as_pending sg) s = Some p"
        by (auto simp: tbl_simps split: option.splits if_splits)
      from ih [OF this] show ?thesis
        by (rule session_origin_extend) (use False admitted(7) prepare(1,2) in auto)
    qed
  qed
next
  note inv = run_invar [OF run]
  case (finish request now r)
  with p live inv have "fq_session request \<noteq> s" "map_of (as_pending sg) s = Some p"
    by (auto simp: tbl_simps split: if_splits)
  with finish(1,2) show ?thesis by (intro session_origin_extend ih) auto
next
  note inv = run_invar [OF run]
  case (cancel request r)
  with p live inv have "cq_session request \<noteq> s" "map_of (as_pending sg) s = Some p"
    by (auto simp: tbl_simps split: if_splits)
  with cancel(1,2) show ?thesis by (intro session_origin_extend ih) auto
qed

lemma exec_unpoisoned:
  assumes "exec env sg c = Some (out, sg')" and "\<not> as_poisoned sg'"
  shows "\<not> as_poisoned sg"
  using assms(1) by (cases rule: exec_cases) (use assms(2) in \<open>auto elim!: prepare_cases split: if_splits\<close>)

lemma run_origin:
  assumes "signer_run env root tr sg" and "\<not> as_poisoned sg" and "map_of (as_pending sg) s = Some p"
  shows "session_origin env (as_public_root sg) (as_evaluators sg) tr s p"
  using assms
proof (induction arbitrary: s p)
  case (start sg)
  then show ?case by (auto simp: ark_signer_new_def bind_res_eq_Ok split: if_splits)
next
  case (step tr sg c out sg')
  from exec_unpoisoned [OF step.hyps(2) step.prems(1)] have "\<not> as_poisoned sg" .
  then have "session_origin env (as_public_root sg) (as_evaluators sg) (tr @ [(c, out)]) s p"
    using step by (intro exec_origin [OF step.hyps(1,2)]) auto
  with exec_static [OF step.hyps(2)] show ?case by simp
qed

lemma signer_run_last:
  assumes "signer_run env root (tr @ [(c, out)]) sg'"
  obtains sg where "signer_run env root tr sg" "exec env sg c = Some (out, sg')"
  using assms by (auto elim: signer_run_snocE)

text \<open>A call that succeeds on session \<open>s\<close> found it in the table.\<close>

lemma touched_success:
  assumes "exec env sg c = Some (out, sg')" and "touched_by s (c, out)" and "succeeded out"
  obtains p where "\<not> as_poisoned sg" "map_of (as_pending sg) s = Some p"
  using assms(1)
proof (cases rule: exec_cases)
  case (prepare request now seed rng r)
  with assms(2) show ?thesis by simp
next
  case (finish request now r)
  with assms obtain response where "finish env sg now request = (Ok response, sg')"
    by (auto simp: is_ok_iff)
  then show ?thesis using finish_eq_Ok that finish assms(2) by fastforce
next
  case (cancel request r)
  with assms that show ?thesis
    by (auto simp: cancel_def split: if_splits)
qed

lemma created_by_prepared:
  "created_by env public_root registry s p e \<Longrightarrow> prepared_for s e \<and> \<not> touched_by s e"
  by (auto simp: created_by_def)

lemma later_in_suffix:
  assumes "a @ x # b = c @ y # d" and "x \<notin> set d" and "x \<noteq> y"
  shows "y \<in> set b"
  using assms by (auto simp: append_eq_append_conv2 append_eq_Cons_conv Cons_eq_append_conv)

lemma live_retain:
  "tbl_invar t \<Longrightarrow> map_of (tbl_retain (\<lambda>session. now < pd_expires session) t) = live now (map_of t)"
  by (rule ext) (simp add: tbl_simps live_def)

lemma tbl_retain_none: "(\<And>k v. (k, v) \<in> set t \<Longrightarrow> \<not> P v) \<Longrightarrow> tbl_retain P t = []"
  by (auto simp: tbl_retain_def filter_empty_conv)

subsection \<open>A sample signer\<close>

definition sample_ark :: ark_lib where
  "sample_ark =
     \<lparr>action_intent = (\<lambda>_ key. Ok \<lparr>in_message = [7], in_members = (pk_user_pubkey key, [9]),
        in_server = None, in_other = []\<rparr>),
      parse_nonce = (\<lambda>s. Ok (str_bytes s)), parse_partial = (\<lambda>s. Ok (str_bytes s)),
      member_nonce_from_bytes = (\<lambda>_ _ b. Ok b),
      program_instance_new = (\<lambda>e p q. Ok \<lparr>pr_evaluator = e, pr_program = p, pr_parameters = q\<rparr>),
      instance_id = (\<lambda>i. pr_program i), ark_program_id = (\<lambda>a. ap_program a),
      derive_public_key = (\<lambda>_ _. Ok [9]), even_public_key = (\<lambda>k. k),
      spend_signing_input = (\<lambda>_ _. Ok sample_context), ownership_message = (\<lambda>_ _. Ok [7]),
      nonce_new = (\<lambda>seed _ _. Ok seed), nonce_public = (\<lambda>n. 1 # n), member_nonce_serialize = (\<lambda>n. n),
      nonce_sign = (\<lambda>n k s. Ok (n @ k @ s)), hex_encode = map (\<lambda>b. char_of (unat b)),
      session_new = (\<lambda>i ns _. Ok (fst ns @ snd ns)), verify_server = (\<lambda>_ _. Ok ()),
      program_derivation_path = (\<lambda>_. []), derive_priv = (\<lambda>x _. Ok x), to_keypair = xprv_key,
      add_xonly_tweak = (\<lambda>k _. Ok k),
      xpub_from_priv = (\<lambda>x. \<lparr>xpub_network = xprv_network x, xpub_depth = xprv_depth x,
        xpub_key = 2 # xprv_key x\<rparr>),
      MAX_PROGRAM_ROOT_DEPTH = 3\<rparr>"

definition sample_spend_lib :: spend_lib where
  "sample_spend_lib = \<lparr>validate_psbt = (\<lambda>_. Ok ()), sighash = (\<lambda>_. Ok [7]), annex_get = (\<lambda>_. Ok None),
     inline_wasm_version = (\<lambda>h. if h = [1] then Some V1 else None), outpoint_encode = sample_enc\<rparr>"

definition sample_env :: "(unit, unit) signer_env" where
  "sample_env = \<lparr>env_rt = sample_budget_rt, env_spend = sample_spend_lib, env_codec = sample_codec,
     env_deploy = sample_deployment, env_ark = sample_ark\<rparr>"

definition sample_root :: xpriv where
  "sample_root = \<lparr>xprv_network = NetTest, xprv_depth = 0, xprv_key = [5]\<rparr>"

definition sample_signer :: ark_signer where
  "sample_signer = \<lparr>as_root = sample_root, as_public_root = xpub_from_priv sample_ark sample_root,
     as_evaluators = [\<lparr>we_id = 1 # WASM_HEADER @ [7], we_version = V1, we_module = WASM_HEADER @ [7]\<rparr>],
     as_pending = [], as_poisoned = False\<rparr>"

definition sample_prepare :: prepare_request where
  "sample_prepare = \<lparr>pq_protocol = ''signing/1'',
     pq_key = \<lparr>pk_program = \<lparr>ap_evaluator = [1], ap_program = [4], ap_parameters = [6]\<rparr>,
       pk_root = xpub_from_priv sample_ark sample_root, pk_user_pubkey = [8]\<rparr>,
     pq_action = Ownership \<lparr>ow_input = [], ow_proof = Status\<rparr>, pq_user_nonce = ''N''\<rparr>"

definition sample_pending :: pending where
  "sample_pending = \<lparr>pd_program_id = [4], pd_intent = \<lparr>in_message = [7], in_members = ([8], [9]),
     in_server = None, in_other = []\<rparr>, pd_user_nonce = [78], pd_nonce = [3],
     pd_expires = 120000000005\<rparr>"

definition sample_prepared :: prepare_response where
  "sample_prepared = \<lparr>ps_protocol = ''signing/1'', ps_session = [42], ps_program_nonce = hex_encode sample_ark [1, 3]\<rparr>"

definition sample_finish :: finish_request where
  "sample_finish = \<lparr>fq_protocol = ''signing/1'', fq_session = [42], fq_server_nonce = None,
     fq_server_partial = None\<rparr>"

definition sample_finished :: finish_response where
  "sample_finished = \<lparr>fs_protocol = ''signing/1'',
     fs_program_partial = hex_encode sample_ark [3, 5, 78, 1, 3]\<rparr>"

lemmas sample_signer_defs = sample_ark_def sample_spend_lib_def sample_env_def sample_root_def
  sample_signer_def sample_prepare_def sample_pending_def sample_prepared_def sample_finish_def
  sample_finished_def

lemma sample_protocol [simp]: "SIGNING_PROTOCOL sample_deployment = ''signing/1''"
  by (simp add: sample_deployment_def)

lemma sample_new: "ark_signer_new sample_env sample_root = Ok sample_signer"
  by (simp add: ark_signer_new_def sample_signer_defs sample_evaluators)

lemma sample_no_envelope: "parse sample_codec [6] = Ok None"
  by (simp add: parse_None MAGIC_def str_bytes_def)

lemma sample_checked: "check_prepare sample_env sample_signer sample_prepare =
    Ok (pd_intent sample_pending, [78], \<lparr>pr_evaluator = [1], pr_program = [4], pr_parameters = [6]\<rparr>)"
  by (simp add: check_prepare_def check_action_def sample_signer_defs sample_no_envelope str_bytes_def)

lemma sample_prepare_ok: "prepare sample_env sample_signer 5 [3] (\<lambda>_. Some [42]) sample_prepare =
    Some (Ok sample_prepared, sample_signer\<lparr>as_pending := [([42], sample_pending)]\<rparr>)"
  by (simp add: prepare_def sample_checked reserve_def Let_def)
    (simp add: sample_signer_defs pick_session_first tbl_retain_def tbl_count_def tbl_insert_def MAX_PENDING_SESSIONS_def
      MAX_SESSIONS_PER_USER_def SESSION_LIFETIME_SECS_def duration_from_secs_def)

lemma sample_finish_ok:
  "finish sample_env (sample_signer\<lparr>as_pending := [([42], sample_pending)]\<rparr>) 6 sample_finish =
     (Ok sample_finished, sample_signer)"
  by (simp add: finish_def finish_pending_def sample_signer_defs tbl_remove_def)

abbreviation sample_event :: "call \<times> outcome" where
  "sample_event \<equiv> (CPrepare sample_prepare 5 [3] (\<lambda>_. Some [42]), Prepared (Ok sample_prepared))"

lemma sample_run_prepared: "signer_run sample_env sample_root [sample_event]
    (sample_signer\<lparr>as_pending := [([42], sample_pending)]\<rparr>)"
  using signer_run.step [OF signer_run.start [OF sample_new],
      of "CPrepare sample_prepare 5 [3] (\<lambda>_. Some [42])"]
  by (simp add: sample_prepare_ok)

lemma sample_run_finished: "signer_run sample_env sample_root
    [sample_event, (CFinish sample_finish 6, Finished (Ok sample_finished))] sample_signer"
  using signer_run.step [OF sample_run_prepared, of "CFinish sample_finish 6"]
  by (simp add: sample_finish_ok)

section \<open>Properties\<close>

text \<open>C1: a signature share leaves the enclave only for an authorized request. In every history
  that ends with a successful finish there is an earlier successful prepare that returned the
  finished session, with no other event on that session in between; its request passed the whole
  gate (protocol, attested root, program identity, derived program key, policy envelope, and the
  evaluated spend of an open input without annex, or the permitted ownership proof); the share is the one of the stored nonce,
  intent and program, computed with the key derived from the root; and the session was younger
  than its lifetime.\<close>

theorem released_share_authorized:
  assumes "signer_run env root (tr @ [(CFinish request now, Finished (Ok response))]) sg"
  shows "\<exists>before preq t seed rng presp after registry p program server_nonce share.
    tr = before @ (CPrepare preq t seed rng, Prepared (Ok presp)) # after \<and>
    ps_session presp = fq_session request \<and>
    (\<forall>e \<in> set after. \<not> prepared_for (fq_session request) e \<and> \<not> touched_by (fq_session request) e) \<and>
    evaluators (env_deploy env) = Ok registry \<and>
    request_authorized env (xpub_from_priv (env_ark env) root) registry preq (pd_intent p) program \<and>
    pd_program_id p = ark_program_id (env_ark env) (pk_program (pq_key preq)) \<and>
    nonce_new (env_ark env) seed (pd_intent p) (snd (in_members (pd_intent p))) = Ok (pd_nonce p) \<and>
    now < t + 120000000000 \<and>
    share_of env root p server_nonce share \<and>
    fs_program_partial response = hex_encode (env_ark env) share"
proof -
  from assms obtain sg0 where run: "signer_run env root tr sg0"
    and ex: "exec env sg0 (CFinish request now) = Some (Finished (Ok response), sg)"
    by (rule signer_run_last)
  from ex have "finish env sg0 now request = (Ok response, sg)" by (auto split: prod.splits)
  then obtain p where live: "\<not> as_poisoned sg0"
    and p: "map_of (as_pending sg0) (fq_session request) = Some p"
    and fin: "finish_pending env (as_root sg0) now request p = Ok response" by (rule finish_eq_Ok)
  note static = run_static [OF run]
  from run_origin [OF run live p] obtain before e after where
    tr: "tr = before @ e # after"
    and e: "created_by env (as_public_root sg0) (as_evaluators sg0) (fq_session request) p e"
    and after: "\<forall>e' \<in> set after. \<not> prepared_for (fq_session request) e' \<and>
      \<not> touched_by (fq_session request) e'"
    unfolding session_origin_def by blast
  from e obtain preq t seed rng presp program where
    "e = (CPrepare preq t seed rng, Prepared (Ok presp))" "ps_session presp = fq_session request"
    "request_authorized env (as_public_root sg0) (as_evaluators sg0) preq (pd_intent p) program"
    "pd_program_id p = ark_program_id (env_ark env) (pk_program (pq_key preq))"
    "nonce_new (env_ark env) seed (pd_intent p) (snd (in_members (pd_intent p))) = Ok (pd_nonce p)"
    "pd_expires p = t + duration_from_secs SESSION_LIFETIME_SECS"
    unfolding created_by_def by blast
  moreover have "duration_from_secs SESSION_LIFETIME_SECS = 120000000000"
    by (simp add: duration_from_secs_def SESSION_LIFETIME_SECS_def)
  moreover obtain server_nonce share where "share_of env root p server_nonce share"
    "fs_program_partial response = hex_encode (env_ark env) share"
    using finish_pending_eq_Ok(4) [OF fin] static by auto
  ultimately show ?thesis
    using finish_pending_eq_Ok(2) [OF fin] tr after static by metis
qed

theorem released_share_authorized_witness:
  "signer_run sample_env sample_root
     ([sample_event] @ [(CFinish sample_finish 6, Finished (Ok sample_finished))]) sample_signer \<and>
   (\<exists>before preq t seed rng presp after.
     [sample_event] = before @ (CPrepare preq t seed rng, Prepared (Ok presp)) # after \<and>
     ps_session presp = fq_session sample_finish \<and> 6 < t + 120000000000)"
proof -
  have run: "signer_run sample_env sample_root
      ([sample_event] @ [(CFinish sample_finish 6, Finished (Ok sample_finished))]) sample_signer"
    using sample_run_finished by simp
  from released_share_authorized [OF this] run show ?thesis by blast
qed

text \<open>C2: sessions are single-use. Once a finish or cancel has named a session, whatever its
  outcome, no later finish or cancel of that session succeeds unless a new prepare has returned
  the same identifier in between; in particular two finishes cannot both obtain a share.\<close>

theorem session_single_use:
  assumes "signer_run env root (a @ e1 # b @ [e2]) sg"
    and "touched_by s e1" and "touched_by s e2" and "succeeded (snd e2)"
  shows "\<exists>e \<in> set b. prepared_for s e"
proof -
  obtain c out where e2: "e2 = (c, out)" by (cases e2)
  with assms(1) have "signer_run env root ((a @ e1 # b) @ [(c, out)]) sg" by simp
  then obtain sg0 where run: "signer_run env root (a @ e1 # b) sg0"
    and ex: "exec env sg0 c = Some (out, sg)" by (rule signer_run_last)
  from ex assms(3,4) obtain p where "\<not> as_poisoned sg0" "map_of (as_pending sg0) s = Some p"
    by (auto simp: e2 elim: touched_success)
  from run_origin [OF run this] obtain before e after where
    split: "a @ e1 # b = before @ e # after"
    and e: "created_by env (as_public_root sg0) (as_evaluators sg0) s p e"
    and after: "\<forall>e' \<in> set after. \<not> prepared_for s e' \<and> \<not> touched_by s e'"
    unfolding session_origin_def by blast
  from created_by_prepared [OF e] have "prepared_for s e" "e1 \<noteq> e" using assms(2) by auto
  moreover have "e \<in> set b"
    by (rule later_in_suffix [OF split]) (use after assms(2) \<open>e1 \<noteq> e\<close> in auto)
  ultimately show ?thesis by blast
qed

definition sample_wrong_finish :: finish_request where
  "sample_wrong_finish = sample_finish\<lparr>fq_protocol := ''other''\<rparr>"

definition sample_refused :: "call \<times> outcome" where
  "sample_refused = (CFinish sample_wrong_finish 6, Finished (Err (Msg ''unsupported signing protocol'')))"

lemma sample_run_again: "signer_run sample_env sample_root
    ([sample_event] @ sample_refused # [sample_event] @
      [(CFinish sample_finish 6, Finished (Ok sample_finished))]) sample_signer"
proof -
  have "finish sample_env (sample_signer\<lparr>as_pending := [([42], sample_pending)]\<rparr>) 6 sample_wrong_finish =
      (Err (Msg ''unsupported signing protocol''), sample_signer)"
    by (simp add: sample_wrong_finish_def finish_def finish_pending_def sample_signer_defs tbl_remove_def)
  then have "signer_run sample_env sample_root ([sample_event] @ [sample_refused]) sample_signer"
    unfolding sample_refused_def by (intro signer_run.step [OF sample_run_prepared]) simp
  from signer_run.step [OF this, of "CPrepare sample_prepare 5 [3] (\<lambda>_. Some [42])"]
  have "signer_run sample_env sample_root (([sample_event] @ [sample_refused]) @ [sample_event])
      (sample_signer\<lparr>as_pending := [([42], sample_pending)]\<rparr>)"
    by (simp add: sample_prepare_ok)
  from signer_run.step [OF this, of "CFinish sample_finish 6"] show ?thesis
    by (simp add: sample_finish_ok)
qed

theorem session_single_use_witness:
  "signer_run sample_env sample_root
     ([sample_event] @ sample_refused # [sample_event] @
       [(CFinish sample_finish 6, Finished (Ok sample_finished))]) sample_signer \<and>
   (\<exists>e \<in> set [sample_event]. prepared_for [42] e)"
proof -
  have "touched_by [42] sample_refused"
    "touched_by [42] (CFinish sample_finish 6, Finished (Ok sample_finished))"
    by (simp_all add: sample_refused_def sample_wrong_finish_def sample_finish_def)
  then show ?thesis
    using session_single_use [OF sample_run_again] sample_run_again by fastforce
qed

text \<open>C21: the advertised session limits hold in every reachable state: session identifiers are
  distinct, at most the profile's \<open>max_pending_sessions\<close> are pending, and at most
  \<open>max_sessions_per_user\<close> of them belong to any one wallet key.\<close>

theorem session_capacity:
  assumes "signer_run env root tr sg"
  shows "distinct (map fst (as_pending sg)) \<and>
    length (as_pending sg) \<le>
      asp_max_pending_sessions (pp_ark_signing (profile_of_deployment (env_deploy env))) \<and>
    length (filter (\<lambda>(s, p). fst (in_members (pd_intent p)) = user) (as_pending sg)) \<le>
      asp_max_sessions_per_user (pp_ark_signing (profile_of_deployment (env_deploy env)))"
  using run_bounded [OF assms]
  by (simp add: signer_bounded_def ss.bounded_def tbl_count_length tbl_invar_def
      profile_of_deployment_def tbl_count_def)

theorem session_capacity_witness:
  "signer_run sample_env sample_root [sample_event]
     (sample_signer\<lparr>as_pending := [([42], sample_pending)]\<rparr>) \<and>
   length (as_pending (sample_signer\<lparr>as_pending := [([42], sample_pending)]\<rparr>)) \<le>
     asp_max_pending_sessions (pp_ark_signing (profile_of_deployment (env_deploy sample_env)))"
  using session_capacity [OF sample_run_prepared] sample_run_prepared by blast

text \<open>C23: \<open>finish\<close> and \<open>cancel\<close> refine the removal of one key from an abstract session map: on
  every path, successful or not, the named session is gone afterwards and every other one is
  untouched, nothing else of the signer changes, and repeating the finish reports an unknown
  session.\<close>

theorem finish_cancel_consume:
  assumes "tbl_invar (as_pending sg)" and "\<not> as_poisoned sg"
  shows "map_of (as_pending (snd (finish env sg now request))) =
      (map_of (as_pending sg))(fq_session request := None) \<and>
    map_of (as_pending (snd (cancel env sg creq))) =
      (map_of (as_pending sg))(cq_session creq := None) \<and>
    (snd (finish env sg now request))\<lparr>as_pending := as_pending sg\<rparr> = sg \<and>
    (snd (cancel env sg creq))\<lparr>as_pending := as_pending sg\<rparr> = sg \<and>
    fst (finish env (snd (finish env sg now request)) now' request) =
      Err (Msg ''unknown, expired or consumed signing session'') \<and>
    (fst (cancel env sg creq) = Ok () \<longleftrightarrow>
      cq_protocol creq = SIGNING_PROTOCOL (env_deploy env) \<and>
      map_of (as_pending sg) (cq_session creq) \<noteq> None)"
proof (intro conjI)
  let ?sg = "snd (finish env sg now request)"
  show gone: "map_of (as_pending ?sg) = (map_of (as_pending sg))(fq_session request := None)"
    using assms by (simp add: finish_state tbl_simps)
  show "map_of (as_pending (snd (cancel env sg creq))) =
      (map_of (as_pending sg))(cq_session creq := None)"
    using assms by (simp add: cancel_state tbl_simps)
  show "?sg\<lparr>as_pending := as_pending sg\<rparr> = sg" using assms by (simp add: finish_state)
  show "(snd (cancel env sg creq))\<lparr>as_pending := as_pending sg\<rparr> = sg"
    using assms by (simp add: cancel_state)
  have "\<not> as_poisoned ?sg" using assms by (simp add: finish_state)
  with gone show "fst (finish env ?sg now' request) =
      Err (Msg ''unknown, expired or consumed signing session'')"
    by (simp add: finish_def [of env ?sg] Let_def)
  show "fst (cancel env sg creq) = Ok () \<longleftrightarrow>
      cq_protocol creq = SIGNING_PROTOCOL (env_deploy env) \<and>
      map_of (as_pending sg) (cq_session creq) \<noteq> None"
    using assms by (auto simp: cancel_def)
qed

theorem finish_cancel_consume_witness:
  "tbl_invar [([42] :: hash, sample_pending)] \<and>
   map_of (as_pending (snd (finish sample_env (sample_signer\<lparr>as_pending := [([42], sample_pending)]\<rparr>)
      6 sample_finish))) [42] = None"
proof -
  let ?sg = "sample_signer\<lparr>as_pending := [([42], sample_pending)]\<rparr>"
  have "tbl_invar (as_pending ?sg)" "\<not> as_poisoned ?sg"
    by (simp_all add: tbl_invar_def sample_signer_def)
  from finish_cancel_consume [OF this, of sample_env 6 sample_finish] this show ?thesis
    by (simp add: sample_finish_def)
qed

text \<open>C22: \<open>prepare\<close> refines one conditional insertion into an abstract session map. A successful
  call adds exactly one session, under an identifier that no live session has, to the sessions
  still live at that time, with the intent of the authorized request and a full lifetime; a
  failing call adds none, and removes at most expired ones.\<close>

theorem prepare_effect:
  assumes "tbl_invar (as_pending sg)" and "prepare env sg now seed rng request = Some (r, sg')"
  shows "(case r of
      Ok response \<Rightarrow> live now (map_of (as_pending sg)) (ps_session response) = None \<and>
        (\<exists>p program. map_of (as_pending sg') =
             (live now (map_of (as_pending sg)))(ps_session response \<mapsto> p) \<and>
           request_authorized env (as_public_root sg) (as_evaluators sg) request (pd_intent p) program \<and>
           pd_expires p = now + duration_from_secs SESSION_LIFETIME_SECS)
    | _ \<Rightarrow> map_of (as_pending sg') \<in> {map_of (as_pending sg), live now (map_of (as_pending sg))})"
  using assms(2)
proof (cases rule: prepare_cases)
  case refused
  then show ?thesis by (cases r) auto
next
  case (pruned b)
  with assms(1) show ?thesis by (cases r) (auto simp: live_retain)
next
  case (admitted intn user_nonce program nonce session)
  let ?p = "\<lparr>pd_program_id = instance_id (env_ark env) program, pd_intent = intn,
    pd_user_nonce = user_nonce, pd_nonce = nonce,
    pd_expires = now + duration_from_secs SESSION_LIFETIME_SECS\<rparr>"
  have "request_authorized env (as_public_root sg) (as_evaluators sg) request (pd_intent ?p) program"
    using check_prepare_eq_Ok(1) [OF admitted(2)] by simp
  moreover have "map_of (as_pending sg') = (live now (map_of (as_pending sg)))(session \<mapsto> ?p)"
    using admitted(8) assms(1) by (simp add: tbl_simps live_retain)
  moreover have "live now (map_of (as_pending sg)) session = None"
    using admitted(6) assms(1) by (simp add: live_retain)
  ultimately show ?thesis
    using admitted(7) by (auto simp del: fun_upd_apply intro!: exI [of _ ?p] exI [of _ program])
qed

theorem prepare_effect_witness:
  "tbl_invar (as_pending sample_signer) \<and>
   prepare sample_env sample_signer 5 [3] (\<lambda>_. Some [42]) sample_prepare =
     Some (Ok sample_prepared, sample_signer\<lparr>as_pending := [([42], sample_pending)]\<rparr>) \<and>
   live 5 (map_of (as_pending sample_signer)) [42] = None"
proof -
  have inv: "tbl_invar (as_pending sample_signer)" by (simp add: sample_signer_def)
  from prepare_effect [OF inv sample_prepare_ok] inv sample_prepare_ok show ?thesis
    by (auto simp: sample_prepared_def)
qed

text \<open>C38: \<open>prepare\<close> returns, whatever the state: its session-id loop ends whenever the
  generator delivers 256 samples without repeating itself, because fewer than 256 sessions are
  pending when the loop starts.\<close>

theorem prepare_returns:
  assumes "\<forall>i < 256. rng i \<noteq> None" and "inj_on rng {..<256}"
  shows "\<exists>r sg'. prepare env sg now seed rng request = Some (r, sg')"
proof (cases "check_prepare env sg request")
  case (Ok c)
  obtain intn user_nonce program where c: "c = (intn, user_nonce, program)" by (cases c)
  let ?t = "tbl_retain (\<lambda>session. now < pd_expires session) (as_pending sg)"
  have "\<exists>s. pick_session rng 0 ?t = Some s" if "\<not> MAX_PENDING_SESSIONS \<le> tbl_count (\<lambda>_. True) ?t"
    using pick_session_distinct_samples [of 256 rng ?t] assms that
    by (simp add: tbl_count_length MAX_PENDING_SESSIONS_def)
  then show ?thesis
    by (auto simp: prepare_def Ok c reserve_def Let_def split: res.splits option.splits)
qed (simp_all add: prepare_def)

theorem prepare_returns_witness:
  "\<exists>r sg'. prepare sample_env sample_signer 5 [3] (\<lambda>i. Some (replicate i 0)) sample_prepare = Some (r, sg')"
proof (rule prepare_returns)
  show "\<forall>i < 256. Some (replicate i (0 :: byte)) \<noteq> None" by simp
  show "inj_on (\<lambda>i. Some (replicate i (0 :: byte))) {..<256}"
    by (rule inj_onI) (metis length_replicate option.inject)
qed

text \<open>C39: capacity is released by time. When every pending session has expired, a request that
  passes the gate is admitted whatever the table held: the expired sessions are dropped and the
  new one is the only one left.\<close>

theorem expired_sessions_free_capacity:
  assumes "check_prepare env sg request = Ok (intn, user_nonce, program)" and "\<not> as_poisoned sg"
    and "\<forall>(s, p) \<in> set (as_pending sg). pd_expires p \<le> now"
    and "nonce_new (env_ark env) seed intn (snd (in_members intn)) = Ok nonce"
    and "rng 0 = Some session"
  shows "\<exists>response sg' p. prepare env sg now seed rng request = Some (Ok response, sg') \<and>
    ps_session response = session \<and> as_pending sg' = [(session, p)] \<and> pd_nonce p = nonce"
proof -
  have "tbl_retain (\<lambda>session. now < pd_expires session) (as_pending sg) = []"
    by (rule tbl_retain_none) (use assms(3) in auto)
  with assms pick_session_first [of rng 0 session "[]"] show ?thesis
    by (simp add: prepare_def reserve_def Let_def tbl_count_def tbl_insert_def
        MAX_PENDING_SESSIONS_def MAX_SESSIONS_PER_USER_def)
qed

theorem expired_sessions_free_capacity_witness:
  "\<exists>response sg' p. prepare sample_env (sample_signer\<lparr>as_pending := replicate 256 ([1], sample_pending)\<rparr>)
     200000000000 [3] (\<lambda>_. Some [42]) sample_prepare = Some (Ok response, sg') \<and>
   as_pending sg' = [([42], p)]"
proof -
  let ?sg = "sample_signer\<lparr>as_pending := replicate 256 ([1], sample_pending)\<rparr>"
  have "check_prepare sample_env ?sg sample_prepare = check_prepare sample_env sample_signer sample_prepare"
    by (rule check_prepare_static) simp_all
  then have ok: "check_prepare sample_env ?sg sample_prepare = Ok (pd_intent sample_pending, [78],
      \<lparr>pr_evaluator = [1], pr_program = [4], pr_parameters = [6]\<rparr>)" by (simp add: sample_checked)
  have "\<not> as_poisoned ?sg" "\<forall>(s, p) \<in> set (as_pending ?sg). pd_expires p \<le> 200000000000"
    "nonce_new (env_ark sample_env) [3] (pd_intent sample_pending)
       (snd (in_members (pd_intent sample_pending))) = Ok [3]"
    by (simp_all add: sample_signer_defs)
  from expired_sessions_free_capacity [OF ok this, of "\<lambda>_. Some [42]" "[42]"] show ?thesis by blast
qed

text \<open>A poisoned signer is out of service for good: every further request fails, none changes
  the state, and the flag is never cleared, so no share is released after a panic inside the
  critical section.\<close>

theorem poisoned_fails_closed:
  assumes "as_poisoned sg"
  shows "\<exists>out. exec env sg c = Some (out, sg) \<and> \<not> succeeded out"
proof (cases c)
  case (CPrepare request now seed rng)
  show ?thesis
  proof (cases "check_prepare env sg request")
    case (Ok x)
    with assms show ?thesis by (cases x) (simp add: CPrepare prepare_def reserve_def)
  qed (simp_all add: CPrepare prepare_def)
qed (use assms in \<open>simp_all add: finish_def cancel_def\<close>)

theorem poisoned_fails_closed_witness:
  "\<exists>out. exec sample_env (poison sample_signer) (CFinish sample_finish 6) = Some (out, poison sample_signer) \<and>
     \<not> succeeded out"
  by (rule poisoned_fails_closed) (simp add: poison_def)

end
