(* ===== verification/Keys.thy ===== *)
theory Keys
  imports Bitcoin_Types
begin

text \<open>
  Provisioning of the BIP32 root, \<open>src/src/keys.rs\<close>: the settings and their validation, the grammar
  of KMS key ARNs, the search for a P-256 point of unknown discrete logarithm, the HKDF inputs and
  the attested KMS exchange.

  Parameters, in \<open>keys_lib\<close>: SHA-256, point decompression, SPKI encoding, HKDF, the BIP32 master
  key and the KMS client. A block hash is its 32 bytes in consensus order; strings are their bytes.
\<close>

section \<open>Data\<close>

definition KMS_PROXY_ENDPOINT :: string where "KMS_PROXY_ENDPOINT = ''http://127.0.0.1:9999''"
definition NUMS_DOMAIN :: bytes where "NUMS_DOMAIN = str_bytes ''sapio-tee/p256-nums/v1''"
definition HKDF_SALT :: bytes where "HKDF_SALT = str_bytes ''sapio-tee/root-extract/v1''"
definition ROOT_INFO_DOMAIN :: bytes where "ROOT_INFO_DOMAIN = str_bytes ''sapio-tee/bip32-root/v1''"

record settings =
  st_key_id :: string
  st_blockhash :: hash
  st_network :: network

text \<open>The client configuration, with every value the code sets; durations in seconds.\<close>

record kms_config =
  kc_region :: string
  kc_access_key :: string
  kc_secret_key :: string
  kc_provider :: string
  kc_endpoint_url :: string
  kc_max_attempts :: nat
  kc_connect_timeout :: nat
  kc_read_timeout :: nat
  kc_attempt_timeout :: nat
  kc_operation_timeout :: nat

datatype agreement = Ecdh | OtherAgreement nat

record kms_request =
  kr_key_id :: string
  kr_algorithm :: agreement
  kr_public_key :: bytes

record kms_output =
  ko_shared_secret :: "bytes option"
  ko_key_id :: "string option"
  ko_algorithm :: "agreement option"
  ko_ciphertext :: "bytes option"

record keys_lib =
  sha256_of :: "bytes \<Rightarrow> bytes"
  point_from_sec1 :: "bytes \<Rightarrow> bytes option"
  point_to_der :: "bytes \<Rightarrow> (string, bytes) res"
  hkdf_expand :: "bytes \<Rightarrow> bytes \<Rightarrow> bytes \<Rightarrow> nat \<Rightarrow> bytes option"
  xpriv_new_master :: "network \<Rightarrow> bytes \<Rightarrow> (string, xpriv) res"
  derive_shared_secret :: "kms_config \<Rightarrow> kms_request \<Rightarrow> kms_output option"

section \<open>Operations\<close>

definition REGIONS :: "string list" where
  "REGIONS =
     [''af-south-1'', ''ap-east-1'', ''ap-east-2'', ''ap-northeast-1'', ''ap-northeast-2'',
      ''ap-northeast-3'', ''ap-south-1'', ''ap-south-2'', ''ap-southeast-1'', ''ap-southeast-2'',
      ''ap-southeast-3'', ''ap-southeast-4'', ''ap-southeast-5'', ''ap-southeast-6'', ''ap-southeast-7'',
      ''ca-central-1'', ''ca-west-1'', ''eu-central-1'', ''eu-central-2'', ''eu-north-1'',
      ''eu-south-1'', ''eu-south-2'', ''eu-west-1'', ''eu-west-2'', ''eu-west-3'', ''il-central-1'',
      ''me-central-1'', ''me-south-1'', ''mx-central-1'', ''sa-east-1'', ''us-east-1'', ''us-east-2'',
      ''us-west-1'', ''us-west-2'']"

definition ascii_digit :: "char \<Rightarrow> bool" where
  "ascii_digit c \<longleftrightarrow> c \<in> set ''0123456789''"

definition lowercase_hex :: "char \<Rightarrow> bool" where
  "lowercase_hex c \<longleftrightarrow> c \<in> set ''0123456789abcdef''"

definition valid_key :: "string \<Rightarrow> bool" where
  "valid_key key =
     (case strip_prefix ''mrk-'' key of
        Some kid \<Rightarrow> length kid = 32 \<and> list_all lowercase_hex kid
      | None \<Rightarrow> length key = 36 \<and>
          list_all (\<lambda>(i, b). if i \<in> {8, 13, 18, 23} then b = CHR ''-'' else lowercase_hex b)
            (zip [0..<length key] key))"

definition key_region :: "string \<Rightarrow> string result" where
  "key_region key_id =
     (let fields = split_on (CHR '':'') key_id in
      if \<not> (list_get fields 0 = Some ''arn'' \<and> list_get fields 1 = Some ''aws'' \<and>
             list_get fields 2 = Some ''kms'')
      then Err (Msg ''key_id must be a full arn:aws:kms key ARN'')
      else
        bind_res (ok_or (Msg ''KMS key ARN is missing its region'') (list_get fields 3)) (\<lambda>region.
        if region \<notin> set REGIONS then Err (Msg ''KMS key ARN uses an unsupported AWS region'')
        else
          bind_res (ok_or (Msg ''KMS key ARN is missing its account'') (list_get fields 4)) (\<lambda>account.
          if \<not> (length account = 12 \<and> list_all ascii_digit account)
          then Err (Msg ''KMS key ARN must contain a 12-digit AWS account'')
          else
            bind_res (ok_or (Msg ''KMS key ARN is missing its key'') (list_get fields 5)) (\<lambda>resource.
            if list_get fields 6 \<noteq> None then Err (Msg ''KMS key ARN has extra components'')
            else
              bind_res (ok_or (Msg ''KMS key ARN must identify a key, not an alias'')
                  (strip_prefix ''key/'' resource)) (\<lambda>key.
              if \<not> valid_key key
              then Err (Msg ''KMS key ARN must contain a canonical lowercase UUID or mrk- key ID'')
              else Ok region)))))"

definition ALL_ZEROS :: hash where "ALL_ZEROS = replicate 32 0"

definition validate_settings :: "settings \<Rightarrow> unit result" where
  "validate_settings s =
     bind_res (key_region (st_key_id s)) (\<lambda>_.
     if st_blockhash s = ALL_ZEROS then Err (Msg ''blockhash must be nonzero'') else Ok ())"

text \<open>The candidate point of one counter, and the loop over all \<open>u32\<close> counters.\<close>

definition nums_candidate :: "keys_lib \<Rightarrow> hash \<Rightarrow> nat \<Rightarrow> bytes option" where
  "nums_candidate lib blockhash counter =
     point_from_sec1 lib
       (2 # sha256_of lib (NUMS_DOMAIN @ blockhash @ u32_to_be (word_of_nat counter)))"

function nums_search :: "(nat \<Rightarrow> bytes option) \<Rightarrow> nat \<Rightarrow> bytes option" where
  "nums_search f counter =
     (if 2 ^ 32 \<le> counter then None
      else case f counter of Some point \<Rightarrow> Some point | None \<Rightarrow> nums_search f (Suc counter))"
  by pat_completeness auto

termination by (relation "measure (\<lambda>(f, counter). 2 ^ 32 - counter)") auto

declare nums_search.simps [simp del]

definition nums_point :: "keys_lib \<Rightarrow> hash \<Rightarrow> bytes result" where
  "nums_point lib blockhash =
     ok_or (Msg ''P-256 NUMS derivation exhausted its counter'')
       (nums_search (nums_candidate lib blockhash) 0)"

definition network_tag :: "network \<Rightarrow> byte" where
  "network_tag n =
     (case n of Bitcoin \<Rightarrow> 0 | Testnet \<Rightarrow> 1 | Testnet4 \<Rightarrow> 2 | Signet \<Rightarrow> 3 | Regtest \<Rightarrow> 4)"

definition root_info :: "settings \<Rightarrow> u32 \<Rightarrow> bytes" where
  "root_info s arn_length =
     ROOT_INFO_DOMAIN @ u32_to_be arn_length @ str_bytes (st_key_id s) @ st_blockhash s @
     [network_tag (st_network s)]"

definition root_from_secret :: "keys_lib \<Rightarrow> settings \<Rightarrow> bytes \<Rightarrow> xpriv result" where
  "root_from_secret lib s secret =
     (if length secret \<noteq> 32 then Err (Msg ''KMS shared secret must be exactly 32 bytes'')
      else
        bind_res (ok_or (Msg ''KMS key ARN is too long'') (u32_try_from (length (st_key_id s))))
          (\<lambda>arn_length.
        bind_res (ok_or (Msg ''HKDF could not produce the BIP32 seed'')
            (hkdf_expand lib HKDF_SALT secret (root_info s arn_length) 64)) (\<lambda>seed.
        map_err (\<lambda>_. Msg ''deriving the BIP32 master root'')
          (xpriv_new_master lib (st_network s) seed))))"

definition proxy_config :: "string \<Rightarrow> kms_config" where
  "proxy_config region =
     \<lparr>kc_region = region, kc_access_key = ''ENCLAVE_PROXY_ONLY'', kc_secret_key = ''ENCLAVE_PROXY_ONLY'',
      kc_provider = ''measured-enclave-kms-proxy'', kc_endpoint_url = KMS_PROXY_ENDPOINT,
      kc_max_attempts = 3, kc_connect_timeout = 3, kc_read_timeout = 15, kc_attempt_timeout = 20,
      kc_operation_timeout = 45\<rparr>"

definition derive_root :: "keys_lib \<Rightarrow> settings \<Rightarrow> xpriv result" where
  "derive_root lib s =
     bind_res (validate_settings s) (\<lambda>_.
     bind_res (key_region (st_key_id s)) (\<lambda>region.
     bind_res (nums_point lib (st_blockhash s)) (\<lambda>point.
     bind_res (map_err (\<lambda>_. Msg ''encoding the P-256 NUMS point as SPKI DER'') (point_to_der lib point))
       (\<lambda>public_key.
     bind_res (ok_or (Msg ''KMS DeriveSharedSecret failed through the enclave proxy'')
         (derive_shared_secret lib (proxy_config region)
            \<lparr>kr_key_id = st_key_id s, kr_algorithm = Ecdh, kr_public_key = public_key\<rparr>)) (\<lambda>output.
     bind_res (ok_or (Msg ''KMS proxy returned no shared secret'') (ko_shared_secret output)) (\<lambda>secret.
     if ko_key_id output \<noteq> Some (st_key_id s)
     then Err (Msg ''KMS response key ARN did not match the requested key'')
     else if ko_algorithm output \<noteq> Some Ecdh then Err (Msg ''KMS response did not use ECDH'')
     else if ko_ciphertext output \<noteq> None
     then Err (Msg ''KMS recipient ciphertext was not consumed by the enclave proxy'')
     else root_from_secret lib s secret))))))"

section \<open>Specification\<close>

text \<open>A canonical key identifier: a lowercase UUID, or \<open>mrk-\<close> and 32 lowercase hex digits.\<close>

definition canonical_key :: "string \<Rightarrow> bool" where
  "canonical_key key \<longleftrightarrow>
     (\<exists>kid. key = ''mrk-'' @ kid \<and> length kid = 32 \<and> list_all lowercase_hex kid) \<or>
     (\<exists>a b c d e. key = a @ ''-'' @ b @ ''-'' @ c @ ''-'' @ d @ ''-'' @ e \<and>
        length a = 8 \<and> length b = 4 \<and> length c = 4 \<and> length d = 4 \<and> length e = 12 \<and>
        list_all lowercase_hex (a @ b @ c @ d @ e))"

definition key_arn :: "string \<Rightarrow> string \<Rightarrow> string \<Rightarrow> string" where
  "key_arn region account key = ''arn:aws:kms:'' @ region @ '':'' @ account @ '':key/'' @ key"

section \<open>Lemmas\<close>

lemma nums_search_least:
  "nums_search f c = Some p \<longleftrightarrow>
     (\<exists>k \<ge> c. k < 2 ^ 32 \<and> f k = Some p \<and> (\<forall>j. c \<le> j \<longrightarrow> j < k \<longrightarrow> f j = None))"
proof (induction f c rule: nums_search.induct)
  case (1 f c)
  show ?case
  proof (cases "2 ^ 32 \<le> c")
    case True
    then show ?thesis by (simp add: nums_search.simps)
  next
    case False
    show ?thesis
    proof (cases "f c")
      case (Some q)
      with False show ?thesis
        by (subst nums_search.simps) (auto simp: le_eq_less_or_eq not_le)
    next
      case None
      with 1 False show ?thesis
        by (subst nums_search.simps) (auto simp: Suc_le_eq order.strict_iff_order)
    qed
  qed
qed

subsection \<open>Key identifiers\<close>

lemma uuid_positions:
  "list_all (\<lambda>(i, b). if i \<in> {8, 13, 18, 23} then b = CHR ''-'' else lowercase_hex b)
      (zip [0..<length key] key) \<longleftrightarrow>
   (\<forall>i < length key. if i \<in> {8, 13, 18, 23} then key ! i = CHR ''-'' else lowercase_hex (key ! i))"
  by (auto simp: list_all_length)

lemma uuid_decompose:
  assumes "length key = 36"
    and "\<forall>i < 36. if i \<in> {8, 13, 18, 23} then key ! i = CHR ''-'' else lowercase_hex (key ! i)"
  shows "\<exists>a b c d e. key = a @ ''-'' @ b @ ''-'' @ c @ ''-'' @ d @ ''-'' @ e \<and>
        length a = 8 \<and> length b = 4 \<and> length c = 4 \<and> length d = 4 \<and> length e = 12 \<and>
        list_all lowercase_hex (a @ b @ c @ d @ e)"
proof -
  have hex: "lowercase_hex (key ! i)" if "i < 36" "i \<notin> {8, 13, 18, 23}" for i
    using assms(2) that by auto
  have dash: "key ! i = CHR ''-''" if "i \<in> {8, 13, 18, 23}" for i
    using assms(2) that by auto
  have seg: "list_all lowercase_hex (take m (drop n key))"
    if "\<forall>i. n \<le> i \<and> i < n + m \<longrightarrow> i < 36 \<and> i \<notin> {8, 13, 18, 23}" for n m
    using that assms(1) by (auto simp: list_all_length intro!: hex)
  have cut: "drop n key = take m (drop n key) @ ''-'' @ drop (Suc (n + m)) key"
    if "n + m \<in> {8, 13, 18, 23}" for n m
  proof -
    have "drop n key = take m (drop n key) @ (drop n key ! m) # drop (Suc m) (drop n key)"
      by (rule id_take_nth_drop) (use that assms(1) in auto)
    moreover have "drop n key ! m = CHR ''-''"
      using dash [OF that] that assms(1) by (subst nth_drop) auto
    ultimately show ?thesis by (simp add: add.commute)
  qed
  have "key = take 8 key @ ''-'' @ take 4 (drop 9 key) @ ''-'' @ take 4 (drop 14 key) @ ''-'' @
      take 4 (drop 19 key) @ ''-'' @ take 12 (drop 24 key)"
    using cut [of 0 8] cut [of 9 4] cut [of 14 4] cut [of 19 4] assms(1) by simp
  moreover have "list_all lowercase_hex (take 8 key)" using seg [of 0 8] by simp
  moreover have "list_all lowercase_hex (take 4 (drop 9 key))" by (rule seg) auto
  moreover have "list_all lowercase_hex (take 4 (drop 14 key))" by (rule seg) auto
  moreover have "list_all lowercase_hex (take 4 (drop 19 key))" by (rule seg) auto
  moreover have "list_all lowercase_hex (take 12 (drop 24 key))" by (rule seg) auto
  ultimately show ?thesis
    using assms(1)
    by (intro exI [of _ "take 8 key"] exI [of _ "take 4 (drop 9 key)"] exI [of _ "take 4 (drop 14 key)"]
        exI [of _ "take 4 (drop 19 key)"] exI [of _ "take 12 (drop 24 key)"]) simp
qed

lemma uuid_compose:
  assumes "key = a @ ''-'' @ b @ ''-'' @ c @ ''-'' @ d @ ''-'' @ e"
    and "length a = 8" "length b = 4" "length c = 4" "length d = 4" "length e = 12"
    and "list_all lowercase_hex (a @ b @ c @ d @ e)" and "i < 36"
  shows "if i \<in> {8, 13, 18, 23} then key ! i = CHR ''-'' else lowercase_hex (key ! i)"
proof -
  have hex: "lowercase_hex (xs ! k)" if "xs \<in> {a, b, c, d, e}" "k < length xs" for xs k
    using assms(7) that by (auto simp: list_all_iff)
  have seg: "key ! (n + j) = q ! j" if "key = p @ q @ r" "length p = n" "j < length q" for p q r n j
    using that by (simp add: nth_append)
  consider "i < 8" | "i = 8" | j where "i = 9 + j" "j < 4" | "i = 13" | j where "i = 14 + j" "j < 4" | "i = 18"
    | j where "i = 19 + j" "j < 4" | "i = 23" | j where "i = 24 + j" "j < 12"
  proof -
    consider "i < 8" | "i = 8" | "9 \<le> i" "i < 13" | "i = 13" | "14 \<le> i" "i < 18" | "i = 18"
      | "19 \<le> i" "i < 23" | "i = 23" | "24 \<le> i" "i < 36" using assms(8) by linarith
    then show ?thesis
      using that by cases (auto dest!: le_Suc_ex)
  qed
  then show ?thesis
  proof cases
    case 1
    then show ?thesis using hex [of a i] by (simp add: assms(1,2) nth_append)
  next
    case (3 j)
    then show ?thesis using hex [of b j] seg [of "a @ ''-''" b _ 9 j] assms(1-3) by simp
  next
    case (5 j)
    then show ?thesis using hex [of c j] seg [of "a @ ''-'' @ b @ ''-''" c _ 14 j] assms(1-4) by simp
  next
    case (7 j)
    then show ?thesis
      using hex [of d j] seg [of "a @ ''-'' @ b @ ''-'' @ c @ ''-''" d _ 19 j] assms(1-5) by simp
  next
    case (9 j)
    then show ?thesis
      using hex [of e j] seg [of "a @ ''-'' @ b @ ''-'' @ c @ ''-'' @ d @ ''-''" e "[]" 24 j] assms(1-6)
      by simp
  qed (simp_all add: assms(1-6) nth_append nth_Cons')
qed

lemma not_mrk: "length a = 8 \<Longrightarrow> list_all lowercase_hex a \<Longrightarrow> strip_prefix ''mrk-'' (a @ r) = None"
  by (cases a) (auto simp: lowercase_hex_def)

lemma valid_key_iff: "valid_key key \<longleftrightarrow> canonical_key key"
proof
  assume v: "valid_key key"
  show "canonical_key key"
  proof (cases "strip_prefix ''mrk-'' key")
    case None
    with v have "length key = 36" and
      "\<forall>i < 36. if i \<in> {8, 13, 18, 23} then key ! i = CHR ''-'' else lowercase_hex (key ! i)"
      unfolding valid_key_def uuid_positions by simp_all
    from uuid_decompose [OF this] show ?thesis unfolding canonical_key_def by blast
  next
    case (Some kid)
    with v show ?thesis by (simp add: valid_key_def canonical_key_def)
  qed
next
  assume "canonical_key key"
  then consider kid where "key = ''mrk-'' @ kid" "length kid = 32" "list_all lowercase_hex kid"
    | a b c d e where "key = a @ ''-'' @ b @ ''-'' @ c @ ''-'' @ d @ ''-'' @ e"
      "length a = 8" "length b = 4" "length c = 4" "length d = 4" "length e = 12"
      "list_all lowercase_hex (a @ b @ c @ d @ e)"
    unfolding canonical_key_def by blast
  then show "valid_key key"
  proof cases
    case 1
    then show ?thesis by (simp add: valid_key_def)
  next
    case (2 a b c d e)
    have len: "length key = 36" using 2 by simp
    have "strip_prefix ''mrk-'' key = None"
      unfolding 2(1) by (rule not_mrk) (use 2 in simp_all)
    then show ?thesis
      unfolding valid_key_def uuid_positions
      using uuid_compose [OF 2] len by simp
  qed
qed

subsection \<open>Key ARNs\<close>

lemma regions_no_colon: "r \<in> set REGIONS \<Longrightarrow> CHR '':'' \<notin> set r"
  by (auto simp: REGIONS_def)

lemma canonical_key_no_colon: "canonical_key key \<Longrightarrow> CHR '':'' \<notin> set key"
proof -
  assume "canonical_key key"
  then have "\<forall>c \<in> set key. c = CHR ''-'' \<or> c \<in> set ''mrk'' \<or> lowercase_hex c"
    unfolding canonical_key_def list_all_iff by (elim disjE exE conjE) auto
  moreover have "CHR '':'' \<noteq> CHR ''-''" "CHR '':'' \<notin> set ''mrk''" "\<not> lowercase_hex (CHR '':'')"
    by (simp_all add: lowercase_hex_def)
  ultimately show ?thesis by blast
qed

lemma six_fields: "length fs = 6 \<Longrightarrow> fs = [fs ! 0, fs ! 1, fs ! 2, fs ! 3, fs ! 4, fs ! 5]"
  by (auto simp: length_Suc_conv eval_nat_numeral)

lemma split_key_arn:
  assumes "CHR '':'' \<notin> set region" "CHR '':'' \<notin> set account" "CHR '':'' \<notin> set key"
  shows "split_on (CHR '':'') (key_arn region account key) =
    [''arn'', ''aws'', ''kms'', region, account, ''key/'' @ key]"
proof -
  have "key_arn region account key =
      ''arn'' @ CHR '':'' # ''aws'' @ CHR '':'' # ''kms'' @ CHR '':'' # region @ CHR '':'' # account @
        CHR '':'' # ''key/'' @ key" by (simp add: key_arn_def)
  then show ?thesis
    using assms by (simp only: split_on_append split_on_single) (simp add: split_on_append split_on_single)
qed

lemma key_region_eq_Ok:
  "key_region k = Ok region \<longleftrightarrow> (\<exists>account key. k = key_arn region account key \<and> region \<in> set REGIONS \<and>
     length account = 12 \<and> list_all ascii_digit account \<and> canonical_key key)"
proof
  assume ok: "key_region k = Ok region"
  let ?fs = "split_on (CHR '':'') k"
  from ok obtain account resource key where
    f: "list_get ?fs 0 = Some ''arn''" "list_get ?fs 1 = Some ''aws''" "list_get ?fs 2 = Some ''kms''"
    "list_get ?fs 3 = Some region" "list_get ?fs 4 = Some account" "list_get ?fs 5 = Some resource"
    "list_get ?fs 6 = None" "strip_prefix ''key/'' resource = Some key"
    and c: "region \<in> set REGIONS" "length account = 12" "list_all ascii_digit account" "valid_key key"
    unfolding key_region_def Let_def
    by (auto simp: bind_res_eq_Ok ok_or_eq_Ok simp del: list_get_eq_Some strip_prefix_eq_Some split: if_splits)
  from f(6,7) have "length ?fs = 6" by (auto simp: list_get_def split: if_splits)
  note six = six_fields [OF this]
  have vals: "?fs ! 0 = ''arn''" "?fs ! 1 = ''aws''" "?fs ! 2 = ''kms''" "?fs ! 3 = region"
    "?fs ! 4 = account" "?fs ! 5 = resource" using f(1-6) by (simp_all only: list_get_eq_Some)
  have "?fs = [''arn'', ''aws'', ''kms'', region, account, resource]"
    by (rule trans [OF six]) (simp only: vals)
  from split_on_join [OF this] f(8) have "k = key_arn region account key" by (simp add: key_arn_def)
  with c show "\<exists>account key. k = key_arn region account key \<and> region \<in> set REGIONS \<and>
     length account = 12 \<and> list_all ascii_digit account \<and> canonical_key key"
    by (auto simp: valid_key_iff)
next
  assume "\<exists>account key. k = key_arn region account key \<and> region \<in> set REGIONS \<and>
     length account = 12 \<and> list_all ascii_digit account \<and> canonical_key key"
  then obtain account key where k: "k = key_arn region account key" and r: "region \<in> set REGIONS"
    and a: "length account = 12" "list_all ascii_digit account" and key: "canonical_key key" by blast
  have "\<not> ascii_digit (CHR '':'')" by (simp add: ascii_digit_def)
  then have "CHR '':'' \<notin> set account" using a(2) unfolding list_all_iff by blast
  then have "split_on (CHR '':'') k = [''arn'', ''aws'', ''kms'', region, account, ''key/'' @ key]"
    unfolding k by (rule split_key_arn [OF regions_no_colon [OF r] _ canonical_key_no_colon [OF key]])
  with r a key show "key_region k = Ok region"
    by (simp add: key_region_def list_get_def valid_key_iff)
qed

subsection \<open>Derivation\<close>

lemma network_tag_inj: "network_tag m = network_tag n \<longleftrightarrow> m = n"
  by (cases m; cases n) (simp_all add: network_tag_def)

lemma root_info_inj:
  assumes "length (st_key_id s) < 2 ^ 32" "length (st_key_id s') < 2 ^ 32"
    and "length (st_blockhash s) = length (st_blockhash s')"
    and eq: "root_info s (word_of_nat (length (st_key_id s))) = root_info s' (word_of_nat (length (st_key_id s')))"
  shows "s = s'"
proof -
  from eq have "u32_to_be (word_of_nat (length (st_key_id s))) = u32_to_be (word_of_nat (length (st_key_id s')))"
    and rest: "str_bytes (st_key_id s) @ st_blockhash s @ [network_tag (st_network s)] =
      str_bytes (st_key_id s') @ st_blockhash s' @ [network_tag (st_network s')]"
    by (simp_all add: root_info_def append_eq_append_conv)
  then have "(word_of_nat (length (st_key_id s)) :: u32) = word_of_nat (length (st_key_id s'))" by simp
  then have "length (st_key_id s) = length (st_key_id s')"
    by (metis assms(1,2) unat_word_of_nat_u32)
  with rest assms(3) have "st_key_id s = st_key_id s'" "st_blockhash s = st_blockhash s'"
    "st_network s = st_network s'"
    by (simp_all add: append_eq_append_conv network_tag_inj)
  then show ?thesis by simp
qed

lemma root_from_secret_eq_Ok:
  "root_from_secret lib s secret = Ok root \<longleftrightarrow> length secret = 32 \<and> length (st_key_id s) < 2 ^ 32 \<and>
     (\<exists>seed. hkdf_expand lib HKDF_SALT secret (root_info s (word_of_nat (length (st_key_id s)))) 64 = Some seed \<and>
        xpriv_new_master lib (st_network s) seed = Ok root)"
  by (auto simp: root_from_secret_def res_inv)

definition sample_settings :: settings where
  "sample_settings = \<lparr>st_key_id = ''arn:aws:kms:eu-west-1:123456789012:key/mrk-'' @ replicate 32 (CHR ''a''),
     st_blockhash = replicate 32 1, st_network = Signet\<rparr>"

definition sample_keys_lib :: keys_lib where
  "sample_keys_lib = \<lparr>sha256_of = (\<lambda>bs. drop 54 bs), point_from_sec1 = (\<lambda>bs. if last bs = 3 then Some bs else None),
     point_to_der = Ok, hkdf_expand = (\<lambda>salt ikm info n. Some ikm),
     xpriv_new_master = (\<lambda>n seed. Ok \<lparr>xprv_network = kind_of_network n, xprv_depth = 0, xprv_key = seed\<rparr>),
     derive_shared_secret = (\<lambda>c r. Some \<lparr>ko_shared_secret = Some (replicate 32 9),
       ko_key_id = Some (kr_key_id r), ko_algorithm = Some Ecdh, ko_ciphertext = None\<rparr>)\<rparr>"

lemma sample_region: "key_region (st_key_id sample_settings) = Ok ''eu-west-1''"
proof -
  have "st_key_id sample_settings = key_arn ''eu-west-1'' ''123456789012'' (''mrk-'' @ replicate 32 (CHR ''a''))"
    by (simp add: sample_settings_def key_arn_def)
  moreover have "canonical_key (''mrk-'' @ replicate 32 (CHR ''a''))"
    unfolding canonical_key_def
    by (intro disjI1 exI [of _ "replicate 32 (CHR ''a'')"]) (simp add: list_all_iff lowercase_hex_def)
  moreover have "''eu-west-1'' \<in> set REGIONS" by (simp add: REGIONS_def)
  moreover have "list_all ascii_digit ''123456789012''" by (simp add: ascii_digit_def)
  ultimately show ?thesis
    unfolding key_region_eq_Ok by (intro exI conjI) (assumption | simp)+
qed

lemma sample_nums: "nums_point sample_keys_lib (replicate 32 1) = Ok [2, 0, 0, 0, 3]"
proof -
  let ?f = "nums_candidate sample_keys_lib (replicate 32 1)"
  have pre: "length (NUMS_DOMAIN @ replicate 32 1) = 54" by (simp add: NUMS_DOMAIN_def)
  have c: "?f k = (if last (u32_to_be (word_of_nat k)) = 3 then Some (2 # u32_to_be (word_of_nat k)) else None)" for k
  proof -
    have "drop 54 (NUMS_DOMAIN @ replicate 32 1 @ u32_to_be (word_of_nat k)) = u32_to_be (word_of_nat k)"
      using pre by (metis append.assoc append_eq_conv_conj)
    moreover have "u32_to_be (word_of_nat k) \<noteq> []" by (metis length_u32_to_be list.size(3) zero_neq_numeral)
    ultimately show ?thesis by (simp add: nums_candidate_def sample_keys_lib_def)
  qed
  have f: "?f 0 = None" "?f 1 = None" "?f 2 = None" "?f 3 = Some [2, 0, 0, 0, 3]"
    by (simp_all add: c u32_to_be_def)
  have "?f j = None" if "j < 3" for j
  proof -
    from that consider "j = 0" | "j = 1" | "j = 2" by linarith
    then show ?thesis using f by cases simp_all
  qed
  with f(4) show ?thesis
    unfolding nums_point_def ok_or_eq_Ok nums_search_least by (intro exI [of _ 3]) simp
qed

lemma sample_settings_valid: "validate_settings sample_settings = Ok ()"
proof -
  have "st_blockhash sample_settings \<noteq> ALL_ZEROS" "st_network sample_settings = Signet"
    by (simp_all add: sample_settings_def ALL_ZEROS_def)
  then show ?thesis by (simp add: validate_settings_def sample_region)
qed

lemma sample_root_derived:
  "derive_root sample_keys_lib sample_settings =
     Ok \<lparr>xprv_network = NetTest, xprv_depth = 0, xprv_key = replicate 32 9\<rparr>"
proof -
  have z: "st_blockhash sample_settings = replicate 32 1" "st_blockhash sample_settings \<noteq> ALL_ZEROS"
    "st_network sample_settings = Signet" "length (st_key_id sample_settings) < 2 ^ 32"
    by (simp_all add: sample_settings_def ALL_ZEROS_def)
  then show ?thesis
    using z unfolding derive_root_def sample_settings_valid sample_region
    by (simp add: sample_nums) (simp add: sample_keys_lib_def root_from_secret_eq_Ok)
qed

lemma derive_root_master:
  "derive_root lib s = Ok root \<Longrightarrow> \<exists>seed. xpriv_new_master lib (st_network s) seed = Ok root"
  by (auto simp: derive_root_def bind_res_eq_Ok root_from_secret_eq_Ok split: if_splits)

section \<open>Properties\<close>

text \<open>C27: the ARN parser accepts exactly the canonical key ARNs of the commercial partition: the
  literal prefix, one of the 34 supported regions, a 12-digit account and a lowercase UUID or
  multi-region key id, nothing before, between or after; it returns the region, so that the region
  of the signing scope cannot be anything else.\<close>

theorem key_region_grammar:
  "key_region k = Ok region \<longleftrightarrow>
     region \<in> set REGIONS \<and> (\<exists>account key. k = key_arn region account key \<and> length account = 12 \<and>
       list_all ascii_digit account \<and> canonical_key key)"
  by (auto simp: key_region_eq_Ok)

text \<open>C35: the nothing-up-my-sleeve point is the one of the least counter whose candidate decompresses,
  and the derivation fails exactly when none of the \<open>2 ^ 32\<close> candidates does; the search ends in
  either case.\<close>

theorem nums_point_least:
  "(nums_point lib h = Ok p \<longleftrightarrow>
      (\<exists>k < 2 ^ 32. nums_candidate lib h k = Some p \<and> (\<forall>j < k. nums_candidate lib h j = None))) \<and>
   (nums_point lib h = Err (Msg ''P-256 NUMS derivation exhausted its counter'') \<longleftrightarrow>
      (\<forall>k < 2 ^ 32. nums_candidate lib h k = None))"
proof
  show ok: "nums_point lib h = Ok p \<longleftrightarrow>
      (\<exists>k < 2 ^ 32. nums_candidate lib h k = Some p \<and> (\<forall>j < k. nums_candidate lib h j = None))" for p
    by (simp add: nums_point_def ok_or_eq_Ok nums_search_least)
  have "nums_point lib h = Err (Msg ''P-256 NUMS derivation exhausted its counter'') \<longleftrightarrow>
      (\<nexists>p. nums_point lib h = Ok p)"
    by (cases "nums_search (nums_candidate lib h) 0") (simp_all add: nums_point_def)
  also have "\<dots> \<longleftrightarrow> (\<forall>k < 2 ^ 32. nums_candidate lib h k = None)"
  proof
    assume none: "\<nexists>p. nums_point lib h = Ok p"
    show "\<forall>k < 2 ^ 32. nums_candidate lib h k = None"
    proof (intro allI)
      fix k show "k < 2 ^ 32 \<longrightarrow> nums_candidate lib h k = None"
      proof (induction k rule: less_induct)
        case (less k)
        show ?case
        proof
          assume "k < 2 ^ 32"
          with less none ok show "nums_candidate lib h k = None"
            by (metis less_trans not_None_eq)
        qed
      qed
    qed
  qed (auto simp: ok)
  finally show "nums_point lib h = Err (Msg ''P-256 NUMS derivation exhausted its counter'') \<longleftrightarrow>
      (\<forall>k < 2 ^ 32. nums_candidate lib h k = None)" .
qed

theorem nums_point_least_witness:
  "\<exists>k < 2 ^ 32. nums_candidate sample_keys_lib (replicate 32 1) k = Some [2, 0, 0, 0, 3] \<and>
     (\<forall>j < k. nums_candidate sample_keys_lib (replicate 32 1) j = None)"
  using nums_point_least [of sample_keys_lib "replicate 32 1" "[2, 0, 0, 0, 3]"] sample_nums by blast

text \<open>C26: provisioning is fail-closed. A root is returned only for valid settings, after a KMS
  exchange through the fixed enclave-local endpoint in the region of the key's own ARN, for a
  response that names that key, used ECDH, carried a 32-byte secret and no recipient ciphertext; the
  root is the BIP32 master of the HKDF output for exactly these settings.\<close>

theorem derive_root_sound:
  assumes "derive_root lib s = Ok root"
  shows "\<exists>region point der output secret seed.
    validate_settings s = Ok () \<and> st_blockhash s \<noteq> ALL_ZEROS \<and> key_region (st_key_id s) = Ok region \<and>
    nums_point lib (st_blockhash s) = Ok point \<and> point_to_der lib point = Ok der \<and>
    derive_shared_secret lib (proxy_config region)
      \<lparr>kr_key_id = st_key_id s, kr_algorithm = Ecdh, kr_public_key = der\<rparr> = Some output \<and>
    kc_endpoint_url (proxy_config region) = ''http://127.0.0.1:9999'' \<and>
    ko_key_id output = Some (st_key_id s) \<and> ko_algorithm output = Some Ecdh \<and>
    ko_ciphertext output = None \<and> ko_shared_secret output = Some secret \<and> length secret = 32 \<and>
    hkdf_expand lib HKDF_SALT secret (root_info s (word_of_nat (length (st_key_id s)))) 64 = Some seed \<and>
    xpriv_new_master lib (st_network s) seed = Ok root"
  using assms
  by (fastforce simp: derive_root_def bind_res_eq_Ok ok_or_eq_Ok map_err_eq_Ok root_from_secret_eq_Ok
      validate_settings_def proxy_config_def KMS_PROXY_ENDPOINT_def split: if_splits)

theorem derive_root_sound_witness:
  "derive_root sample_keys_lib sample_settings =
     Ok \<lparr>xprv_network = NetTest, xprv_depth = 0, xprv_key = replicate 32 9\<rparr> \<and>
   st_blockhash sample_settings \<noteq> ALL_ZEROS"
  using derive_root_sound [OF sample_root_derived] sample_root_derived by blast

text \<open>The derivation input identifies the settings: two settings with hashes of the same length
  have the same HKDF info string only if they agree on key ARN, block hash and network, so no two
  identities share a derivation by an ambiguity of the encoding.\<close>

theorem root_info_identifies_settings:
  assumes "length (st_key_id s) < 2 ^ 32" and "length (st_key_id s') < 2 ^ 32"
    and "length (st_blockhash s) = 32" and "length (st_blockhash s') = 32"
    and "root_info s (word_of_nat (length (st_key_id s))) = root_info s' (word_of_nat (length (st_key_id s')))"
  shows "s = s'"
  using assms by (intro root_info_inj) simp_all

theorem root_info_identifies_settings_witness:
  "sample_settings\<lparr>st_network := Testnet4\<rparr> \<noteq> sample_settings \<and>
   root_info (sample_settings\<lparr>st_network := Testnet4\<rparr>) (word_of_nat (length (st_key_id sample_settings))) \<noteq>
     root_info sample_settings (word_of_nat (length (st_key_id sample_settings)))"
  using root_info_identifies_settings [of "sample_settings\<lparr>st_network := Testnet4\<rparr>" sample_settings]
  by (auto simp: sample_settings_def)

end
