(* ===== verification/Nsm.thy ===== *)
theory Nsm
  imports Bitcoin_Types
begin

text \<open>
  The Nitro security module, \<open>src/src/nsm.rs\<close>: opening the device, refusing unmeasured enclaves,
  attestation over the served identity, and closing the device when the handle is dropped. The
  driver and SHA-256 are the record \<open>nsm_lib\<close>. An operation returns its result together with the
  file descriptors it closed.
\<close>

section \<open>Data\<close>

datatype nsm_request =
    DescribePCR nat
  | Attestation "bytes option" "bytes option" "bytes option"

datatype nsm_response =
    PCRDescription bool bytes
  | AttestationDocument bytes
  | OtherResponse nat

record nsm_lib =
  nsm_init :: int
  nsm_process_request :: "int \<Rightarrow> nsm_request \<Rightarrow> nsm_response"
  nsm_sha256 :: "bytes \<Rightarrow> bytes"

section \<open>Operations\<close>

definition measured :: "nsm_response \<Rightarrow> bool" where
  "measured r = (case r of
     PCRDescription lock data \<Rightarrow> lock \<and> length data = 48 \<and> list_ex (\<lambda>b. b \<noteq> 0) data
   | _ \<Rightarrow> False)"

definition pcr_error :: "nat \<Rightarrow> error" where
  "pcr_error index = Msg (''PCR'' @ [char_of (48 + index)] @
     '' must be locked, nonzero SHA-384; debug enclaves are forbidden'')"

fun check_pcrs :: "nsm_lib \<Rightarrow> int \<Rightarrow> nat list \<Rightarrow> unit result" where
  "check_pcrs lib fd [] = Ok ()"
| "check_pcrs lib fd (index # rest) =
     (if measured (nsm_process_request lib fd (DescribePCR index)) then check_pcrs lib fd rest
      else Err (pcr_error index))"

text \<open>\<open>Drop\<close>.\<close>

definition nsm_drop :: "int \<Rightarrow> int list" where
  "nsm_drop fd = [fd]"

text \<open>\<open>Nsm::open\<close>: on a failed check the handle is dropped, which closes the device.\<close>

definition nsm_open :: "nsm_lib \<Rightarrow> int result \<times> int list" where
  "nsm_open lib =
     (let fd = nsm_init lib in
      if fd < 0 then (Err (Msg ''Nitro NSM unavailable; production requires /dev/nsm''), [])
      else case check_pcrs lib fd [0, 1, 2] of
        Ok _ \<Rightarrow> (Ok fd, [])
      | Err e \<Rightarrow> (Err e, nsm_drop fd)
      | Panic \<Rightarrow> (Panic, nsm_drop fd))"

definition nsm_attest :: "nsm_lib \<Rightarrow> int \<Rightarrow> bytes \<Rightarrow> bytes \<Rightarrow> bytes result" where
  "nsm_attest lib fd nonce identity_json =
     (if \<not> (16 \<le> length nonce \<and> length nonce \<le> 64) then Err (Msg ''nonce must contain 16..64 bytes'')
      else case nsm_process_request lib fd
          (Attestation (Some nonce) (Some (nsm_sha256 lib identity_json)) None) of
        AttestationDocument document \<Rightarrow> Ok document
      | _ \<Rightarrow> Err (Msg ''NSM attestation failed''))"

section \<open>Lemmas\<close>

lemma nsm_attest_eq_Ok [res_inv]:
  "nsm_attest lib fd nonce identity_json = Ok document \<longleftrightarrow>
     16 \<le> length nonce \<and> length nonce \<le> 64 \<and>
     nsm_process_request lib fd (Attestation (Some nonce) (Some (nsm_sha256 lib identity_json)) None) =
       AttestationDocument document"
  by (auto simp: nsm_attest_def split: nsm_response.split)

lemma check_pcrs_eq_Ok:
  "check_pcrs lib fd is = Ok () \<longleftrightarrow>
     (\<forall>i \<in> set is. measured (nsm_process_request lib fd (DescribePCR i)))"
  by (induction "is") auto

lemma check_pcrs_not_Panic: "check_pcrs lib fd is \<noteq> Panic"
  by (induction "is") auto

lemma nsm_open_eq_Ok [res_inv]:
  "fst (nsm_open lib) = Ok fd \<longleftrightarrow> fd = nsm_init lib \<and> 0 \<le> fd \<and>
     (\<forall>i \<in> {0, 1, 2}. measured (nsm_process_request lib fd (DescribePCR i)))"
  using check_pcrs_eq_Ok [of lib "nsm_init lib" "[0, 1, 2]"]
  by (auto simp: nsm_open_def Let_def split: res.splits)

text \<open>What a production enclave's register reads, said without reference to the check: a locked
  register holds a SHA-384 digest that is not the all-zero value of a debug enclave.\<close>

definition production_register :: "nsm_lib \<Rightarrow> int \<Rightarrow> nat \<Rightarrow> bool" where
  "production_register lib fd i \<longleftrightarrow>
     (\<exists>data. nsm_process_request lib fd (DescribePCR i) = PCRDescription True data \<and>
        length data = 48 \<and> data \<noteq> replicate 48 0)"

lemma measured_iff:
  "measured r \<longleftrightarrow> (\<exists>data. r = PCRDescription True data \<and> length data = 48 \<and> data \<noteq> replicate 48 0)"
proof -
  have "list_ex (\<lambda>b. b \<noteq> 0) data \<longleftrightarrow> data \<noteq> replicate 48 0" if "length data = 48" for data :: bytes
    using that by (auto simp: list_ex_iff intro: replicate_eqI)
  then show ?thesis by (cases r) (auto simp: measured_def)
qed

text \<open>The first register that is refused decides the error.\<close>

lemma check_pcrs_first:
  "check_pcrs lib fd [0, 1, 2] = Err e \<longleftrightarrow>
     (\<exists>i < 3. e = pcr_error i \<and> (\<forall>j < i. measured (nsm_process_request lib fd (DescribePCR j))) \<and>
        \<not> measured (nsm_process_request lib fd (DescribePCR i)))"
  by (auto simp: numeral_3_eq_3 numeral_2_eq_2 less_Suc_eq)

definition sample_nsm :: nsm_lib where
  "sample_nsm = \<lparr>nsm_init = 3, nsm_process_request = (\<lambda>fd r. case r of
       DescribePCR i \<Rightarrow> PCRDescription True (replicate 48 1)
     | Attestation n u k \<Rightarrow> AttestationDocument (the n @ the u)),
     nsm_sha256 = (\<lambda>bs. bs)\<rparr>"

definition sample_unlocked_nsm :: nsm_lib where
  "sample_unlocked_nsm =
     sample_nsm\<lparr>nsm_process_request := (\<lambda>fd r. PCRDescription False (replicate 48 1))\<rparr>"

section \<open>Properties\<close>

text \<open>C37: the enclave only starts measured. Opening the security module succeeds exactly when the
  device opens and each of PCR0 to PCR2 is locked and reads a 48-byte value that is not all zero. It
  fails exactly when the device is missing, or with the error that names the first register of the
  three for which this is not so; it never panics. Whenever the device was opened and a register is
  refused, it is closed again, and never otherwise.\<close>

theorem nsm_open_measured:
  "(fst (nsm_open lib) = Ok fd \<longleftrightarrow> fd = nsm_init lib \<and> 0 \<le> fd \<and>
      (\<forall>i < 3. \<exists>data. nsm_process_request lib fd (DescribePCR i) = PCRDescription True data \<and>
         length data = 48 \<and> data \<noteq> replicate 48 0)) \<and>
   (fst (nsm_open lib) = Err e \<longleftrightarrow>
      nsm_init lib < 0 \<and> e = Msg ''Nitro NSM unavailable; production requires /dev/nsm'' \<or>
      0 \<le> nsm_init lib \<and> (\<exists>i < 3. e = pcr_error i \<and>
        (\<forall>j < i. production_register lib (nsm_init lib) j) \<and> \<not> production_register lib (nsm_init lib) i)) \<and>
   fst (nsm_open lib) \<noteq> Panic \<and>
   snd (nsm_open lib) =
     (if 0 \<le> nsm_init lib \<and> \<not> is_ok (fst (nsm_open lib)) then [nsm_init lib] else [])"
proof (intro conjI)
  have "{0, 1, 2} = {i :: nat. i < 3}" by auto
  then show "fst (nsm_open lib) = Ok fd \<longleftrightarrow> fd = nsm_init lib \<and> 0 \<le> fd \<and>
      (\<forall>i < 3. \<exists>data. nsm_process_request lib fd (DescribePCR i) = PCRDescription True data \<and>
         length data = 48 \<and> data \<noteq> replicate 48 0)"
    by (simp add: nsm_open_eq_Ok measured_iff)
  have "measured (nsm_process_request lib (nsm_init lib) (DescribePCR i)) \<longleftrightarrow>
      production_register lib (nsm_init lib) i" for i by (simp add: measured_iff production_register_def)
  then show "fst (nsm_open lib) = Err e \<longleftrightarrow>
      nsm_init lib < 0 \<and> e = Msg ''Nitro NSM unavailable; production requires /dev/nsm'' \<or>
      0 \<le> nsm_init lib \<and> (\<exists>i < 3. e = pcr_error i \<and>
        (\<forall>j < i. production_register lib (nsm_init lib) j) \<and> \<not> production_register lib (nsm_init lib) i)"
    using check_pcrs_first [of lib "nsm_init lib" e]
    by (auto simp: nsm_open_def Let_def split: res.splits)
  show "fst (nsm_open lib) \<noteq> Panic" "snd (nsm_open lib) =
      (if 0 \<le> nsm_init lib \<and> \<not> is_ok (fst (nsm_open lib)) then [nsm_init lib] else [])"
    using check_pcrs_not_Panic [of lib "nsm_init lib" "[0, 1, 2]"]
    by (cases "check_pcrs lib (nsm_init lib) [0, 1, 2]", simp_all add: nsm_open_def Let_def nsm_drop_def)+
qed

text \<open>The witness opens a production device and refuses one whose first register is not locked.\<close>

theorem nsm_open_measured_witness:
  "fst (nsm_open sample_nsm) = Ok 3 \<and> snd (nsm_open sample_nsm) = [] \<and>
   fst (nsm_open sample_unlocked_nsm) = Err (pcr_error 0) \<and> snd (nsm_open sample_unlocked_nsm) = [3]"
proof -
  have "\<forall>i < 3. \<exists>data. nsm_process_request sample_nsm 3 (DescribePCR i) = PCRDescription True data \<and>
      length data = 48 \<and> data \<noteq> replicate 48 0" by (simp add: sample_nsm_def)
  then have ok: "fst (nsm_open sample_nsm) = Ok 3 \<and> snd (nsm_open sample_nsm) = []"
    using nsm_open_measured [of sample_nsm 3] by (simp add: sample_nsm_def)
  have "\<not> production_register sample_unlocked_nsm 3 0"
    by (simp add: production_register_def sample_unlocked_nsm_def)
  then have "\<exists>i < 3. pcr_error 0 = pcr_error i \<and> (\<forall>j < i. production_register sample_unlocked_nsm 3 j) \<and>
      \<not> production_register sample_unlocked_nsm 3 i" by (intro exI [of _ 0]) simp
  moreover have "nsm_init sample_unlocked_nsm = 3" by (simp add: sample_unlocked_nsm_def sample_nsm_def)
  ultimately have "fst (nsm_open sample_unlocked_nsm) = Err (pcr_error 0)"
    using nsm_open_measured [of sample_unlocked_nsm 3 "pcr_error 0"] by simp
  moreover from this have "\<not> is_ok (fst (nsm_open sample_unlocked_nsm))" by simp
  moreover have "snd (nsm_open sample_unlocked_nsm) = (if 0 \<le> nsm_init sample_unlocked_nsm \<and>
      \<not> is_ok (fst (nsm_open sample_unlocked_nsm)) then [nsm_init sample_unlocked_nsm] else [])"
    using nsm_open_measured [of sample_unlocked_nsm 3 "pcr_error 0"] by blast
  ultimately show ?thesis using ok \<open>nsm_init sample_unlocked_nsm = 3\<close> by simp
qed

end
