(* ===== verification/App.thy ===== *)
theory App
  imports Ark_Signer Keys Nsm
begin

text \<open>
  The enclave service, \<open>src/src/app.rs\<close>: the application state, one-time setup, publication of
  the identity, attestation and the Ark signing endpoints.

  The handlers are asynchronous, so each is the sequence of its atomic parts: \<open>setup\<close> begins
  under the setup gate, then derives the root, then waits for the signer thread, and its future
  may be dropped by the request deadline at every await; \<open>ark_prepare\<close> takes an admission permit
  and evaluates on a blocking thread. \<open>app_step\<close> interleaves these parts with the signer thread
  of \<open>run\<close>. A job carries a number, which stands for its one-shot channel.

  Parameters, in \<open>app_lib\<close>: the program oracle of the Sapio crate, the JSON, hex and base64 codecs
  and the display of errors, and the libraries of the other components.
\<close>

section \<open>Data\<close>

record identity =
  id_protocol :: string
  id_mode :: string
  id_xpub :: xpub
  id_settings :: "settings option"
  id_signing :: program_profile

record attestation_response =
  ar_identity_json :: string
  ar_document :: string

record ('m, 'i, 'o) app_lib =
  ap_env :: "('m, 'i) signer_env"
  ap_keys :: keys_lib
  ap_nsm_lib :: nsm_lib
  oracle_new :: "xpriv \<Rightarrow> wasm_evaluator list \<Rightarrow> 'o result"
  oracle_public_root :: "'o \<Rightarrow> xpub"
  identity_to_json :: "identity \<Rightarrow> string result"
  app_hex_decode :: "string \<Rightarrow> bytes option"
  base64_encode :: "bytes \<Rightarrow> string"
  error_to_string :: "error \<Rightarrow> string"

text \<open>The position of the handler that holds \<open>setup_gate\<close>: waiting for KMS, or for the signer
  thread's answer to job \<open>n\<close> with the signer and identity it will publish.\<close>

datatype setup_phase = Idle | Deriving settings | Binding nat ark_signer string

text \<open>The dedicated signer thread: waiting for its single job, serving job \<open>n\<close>, or ended.\<close>

datatype 'o signer_thread = Waiting | Serving nat 'o | Exited string

text \<open>What the handler learns from the readiness channel of its job; \<open>st_ready\<close> holds the message
  that the thread has sent on it.\<close>

datatype bind_answer = Bound | BindFailed string | Stopped | TimedOut

record 'o app_state =
  st_identity :: "string option"
  st_ark_signer :: "ark_signer option"
  st_permits :: nat
  st_inflight :: "prepare_request list"
  st_setup :: setup_phase
  st_jobs :: "(nat \<times> 'o) list"
  st_next_job :: nat
  st_thread :: "'o signer_thread"
  st_ready :: "(nat \<times> bind_answer) option"
  st_nsm :: "int option"

text \<open>An HTTP answer: status code and body.\<close>

type_synonym response = "nat \<times> string"

section \<open>Operations\<close>

subsection \<open>Installation\<close>

definition app_init :: "int option \<Rightarrow> 'o app_state" where
  "app_init nsm = \<lparr>st_identity = None, st_ark_signer = None, st_permits = MAX_CONNECTIONS,
     st_inflight = [], st_setup = Idle, st_jobs = [], st_next_job = 0, st_thread = Waiting,
     st_ready = None, st_nsm = nsm\<rparr>"

text \<open>\<open>install\<close> up to its await: build oracle, signer and identity, and send the job. The channel
  has capacity one and is closed when the thread has ended.\<close>

definition make_identity ::
  "('m, 'i, 'o) app_lib \<Rightarrow> 'o app_state \<Rightarrow> 'o \<Rightarrow> settings option \<Rightarrow> identity" where
  "make_identity lib st orc s =
     \<lparr>id_protocol = IDENTITY_PROTOCOL, id_mode = (if st_nsm st \<noteq> None then ''nitro'' else ''local-dev''),
      id_xpub = oracle_public_root lib orc, id_settings = s,
      id_signing = profile_of_deployment (env_deploy (ap_env lib))\<rparr>"

definition channel_open :: "'o app_state \<Rightarrow> bool" where
  "channel_open st \<longleftrightarrow> st_jobs st = [] \<and> (case st_thread st of Exited _ \<Rightarrow> False | _ \<Rightarrow> True)"

definition install_begin ::
  "('m, 'i, 'o) app_lib \<Rightarrow> 'o app_state \<Rightarrow> xpriv \<Rightarrow> settings option \<Rightarrow> 'o app_state result" where
  "install_begin lib st root s =
     bind_res (program_oracle (env_deploy (ap_env lib)) (oracle_new lib) root) (\<lambda>orc.
     bind_res (ark_signer_new (ap_env lib) root) (\<lambda>signer.
     bind_res (identity_to_json lib (make_identity lib st orc s)) (\<lambda>identity.
     if \<not> channel_open st then Err (Msg ''signer task unavailable'')
     else Ok (st\<lparr>st_jobs := st_jobs st @ [(st_next_job st, orc)], st_next_job := Suc (st_next_job st),
                 st_setup := Binding (st_next_job st) signer identity\<rparr>))))"

text \<open>The rest of \<open>install\<close>, on the thread's answer to job \<open>n\<close>.\<close>

definition install_ready ::
  "'o app_state \<Rightarrow> ark_signer \<Rightarrow> string \<Rightarrow> bind_answer \<Rightarrow> unit result \<times> 'o app_state" where
  "install_ready st signer identity answer =
     (let st1 = st\<lparr>st_setup := Idle\<rparr> in
      case answer of
        BindFailed e \<Rightarrow> (Err (Msg (''signer listener failed: '' @ e)), st1)
      | Stopped \<Rightarrow> (Err (Msg ''signer task stopped before binding''), st1)
      | TimedOut \<Rightarrow> (Err (Msg ''signer listener bind timed out''), st1)
      | Bound \<Rightarrow>
          if st_ark_signer st \<noteq> None then (Err (Msg ''Ark signer already initialized''), st1)
          else if st_identity st \<noteq> None
          then (Err (Msg ''already initialized''), st1\<lparr>st_ark_signer := Some signer\<rparr>)
          else (Ok (), st1\<lparr>st_ark_signer := Some signer, st_identity := Some identity\<rparr>))"

subsection \<open>Handlers\<close>

definition public_key :: "'o app_state \<Rightarrow> response" where
  "public_key st = (case st_identity st of
     None \<Rightarrow> (503, ''not initialized'') | Some identity \<Rightarrow> (200, identity))"

definition health :: "'o app_state \<Rightarrow> response" where
  "health st = (if st_identity st \<noteq> None then (200, ''ready'') else (503, ''not initialized''))"

text \<open>\<open>setup\<close> before its first await; \<open>None\<close> means the handler continues.\<close>

definition setup_begin :: "'o app_state \<Rightarrow> settings \<Rightarrow> response option \<times> 'o app_state" where
  "setup_begin st s =
     (if \<not> is_ok (validate_settings s) then (Some (400, ''invalid setup settings''), st)
      else if st_setup st \<noteq> Idle then (Some (409, ''setup already in progress''), st)
      else if st_identity st \<noteq> None
      then (Some (409, ''already initialized; restart to change identity''), st)
      else if st_nsm st = None then (Some (503, ''Nitro provisioning unavailable''), st)
      else (None, st\<lparr>st_setup := Deriving s\<rparr>))"

text \<open>After the KMS exchange; every failure releases the gate.\<close>

definition setup_derived ::
  "('m, 'i, 'o) app_lib \<Rightarrow> 'o app_state \<Rightarrow> settings \<Rightarrow> response option \<times> 'o app_state" where
  "setup_derived lib st s =
     (case derive_root (ap_keys lib) s of
        Ok root \<Rightarrow>
          (case install_begin lib st root (Some s) of
             Ok st' \<Rightarrow> (None, st')
           | _ \<Rightarrow> (Some (503, ''could not start signer''), st\<lparr>st_setup := Idle\<rparr>))
      | _ \<Rightarrow> (Some (502, ''attested KMS provisioning failed''), st\<lparr>st_setup := Idle\<rparr>))"

text \<open>After the thread's answer.\<close>

definition setup_ready ::
  "'o app_state \<Rightarrow> ark_signer \<Rightarrow> string \<Rightarrow> bind_answer \<Rightarrow> response \<times> 'o app_state" where
  "setup_ready st signer identity answer =
     (case install_ready st signer identity answer of
        (Ok _, st') \<Rightarrow> (public_key st', st')
      | (_, st') \<Rightarrow> ((503, ''could not start signer''), st'))"

definition attestation ::
  "('m, 'i, 'o) app_lib \<Rightarrow> 'o app_state \<Rightarrow> string \<Rightarrow> (response, attestation_response) res" where
  "attestation lib st nonce_hex =
     bind_res (ok_or (400, ''nonce must be hexadecimal'') (app_hex_decode lib nonce_hex)) (\<lambda>nonce.
     if \<not> (16 \<le> length nonce \<and> length nonce \<le> 64) then Err (400, ''nonce must contain 16..64 bytes'')
     else
       bind_res (ok_or (503, ''not initialized'') (st_identity st)) (\<lambda>identity.
       bind_res (ok_or (503, ''local-dev cannot attest'') (st_nsm st)) (\<lambda>fd.
       bind_res (map_err (\<lambda>_. (503, ''NSM attestation failed''))
           (nsm_attest (ap_nsm_lib lib) fd nonce (str_bytes identity))) (\<lambda>document.
       Ok \<lparr>ar_identity_json = identity, ar_document = base64_encode lib document\<rparr>))))"

definition app_ark_signer :: "'o app_state \<Rightarrow> (response, ark_signer) res" where
  "app_ark_signer st =
     (if st_identity st = None then Err (503, ''not initialized'')
      else ok_or (503, ''Ark signer unavailable'') (st_ark_signer st))"

text \<open>\<open>ark_prepare\<close> up to the blocking task; the permit moves into the task.\<close>

definition ark_prepare_begin :: "'o app_state \<Rightarrow> prepare_request \<Rightarrow> response option \<times> 'o app_state" where
  "ark_prepare_begin st request =
     (case app_ark_signer st of
        Err e \<Rightarrow> (Some e, st)
      | Panic \<Rightarrow> (None, st)
      | Ok _ \<Rightarrow>
          if st_permits st = 0 then (Some (503, ''program evaluation capacity exceeded''), st)
          else (None, st\<lparr>st_permits := st_permits st - 1, st_inflight := request # st_inflight st\<rparr>))"

text \<open>The HTTP answer for a result of the signer; a panic produces none.\<close>

definition result_response ::
  "('m, 'i, 'o) app_lib \<Rightarrow> ('a \<Rightarrow> response) \<Rightarrow> 'a result \<Rightarrow> response option" where
  "result_response lib ok r =
     (case r of Ok x \<Rightarrow> Some (ok x) | Err e \<Rightarrow> Some (422, error_to_string lib e) | Panic \<Rightarrow> None)"

text \<open>The blocking task: it runs one call of the signer and releases the permit, also when it
  panics, which the handler reports.\<close>

definition ark_prepare_end ::
  "('m, 'i, 'o) app_lib \<Rightarrow> (prepare_response \<Rightarrow> response) \<Rightarrow> 'o app_state \<Rightarrow> prepare_request \<Rightarrow> nat \<Rightarrow> bytes \<Rightarrow>
     (nat \<Rightarrow> hash option) \<Rightarrow> (response \<times> 'o app_state) option" where
  "ark_prepare_end lib json st request now seed rng =
     (case st_ark_signer st of
        None \<Rightarrow> None
      | Some signer \<Rightarrow>
          map_option (\<lambda>(r, signer').
              (case result_response lib json r of
                 Some answer \<Rightarrow> answer
               | None \<Rightarrow> (500, ''program evaluator unavailable''),
               st\<lparr>st_ark_signer := Some signer', st_inflight := remove1 request (st_inflight st),
                  st_permits := Suc (st_permits st)\<rparr>))
            (prepare (ap_env lib) signer now seed rng request))"

text \<open>\<open>ark_finish\<close> and \<open>ark_cancel\<close> run inline: a panic drops the connection without an answer.\<close>

definition ark_finish ::
  "('m, 'i, 'o) app_lib \<Rightarrow> (finish_response \<Rightarrow> response) \<Rightarrow> 'o app_state \<Rightarrow> nat \<Rightarrow> finish_request \<Rightarrow>
     response option \<times> 'o app_state" where
  "ark_finish lib json st now request =
     (case app_ark_signer st of
        Ok signer \<Rightarrow>
          (case finish (ap_env lib) signer now request of
             (r, signer') \<Rightarrow> (result_response lib json r, st\<lparr>st_ark_signer := Some signer'\<rparr>))
      | Err e \<Rightarrow> (Some e, st)
      | Panic \<Rightarrow> (None, st))"

definition ark_cancel ::
  "('m, 'i, 'o) app_lib \<Rightarrow> 'o app_state \<Rightarrow> cancel_request \<Rightarrow> response option \<times> 'o app_state" where
  "ark_cancel lib st request =
     (case app_ark_signer st of
        Ok signer \<Rightarrow>
          (case cancel (ap_env lib) signer request of
             (r, signer') \<Rightarrow> (result_response lib (\<lambda>_. (204, [])) r, st\<lparr>st_ark_signer := Some signer'\<rparr>))
      | Err e \<Rightarrow> (Some e, st)
      | Panic \<Rightarrow> (None, st))"

subsection \<open>The signer thread\<close>

text \<open>The thread takes the first job and binds its listener; \<open>bound\<close> is the operating system's
  answer. It serves only if somebody still waits for its readiness.\<close>

definition awaits :: "'o app_state \<Rightarrow> nat \<Rightarrow> bool" where
  "awaits st n \<longleftrightarrow> (case st_setup st of Binding k _ _ \<Rightarrow> k = n | _ \<Rightarrow> False)"

definition thread_bind :: "'o app_state \<Rightarrow> (string, unit) res \<Rightarrow> 'o app_state option" where
  "thread_bind st bound =
     (case (st_thread st, st_jobs st) of
        (Waiting, (n, orc) # jobs) \<Rightarrow>
          Some (case bound of
              Ok _ \<Rightarrow>
                if awaits st n
                then st\<lparr>st_jobs := jobs, st_thread := Serving n orc, st_ready := Some (n, Bound)\<rparr>
                else st\<lparr>st_jobs := jobs, st_thread := Exited ''signer readiness receiver dropped''\<rparr>
            | Err e \<Rightarrow> st\<lparr>st_jobs := jobs, st_thread := Exited e, st_ready := Some (n, BindFailed e)\<rparr>
            | Panic \<Rightarrow> st\<lparr>st_jobs := jobs, st_thread := Exited ''signer task ended without status''\<rparr>)
      | _ \<Rightarrow> None)"

text \<open>The answer the waiting handler can observe: the message sent for its job, a closed channel once
  the thread has ended without sending one, a timeout at any time.\<close>

definition ready_answer :: "'o app_state \<Rightarrow> nat \<Rightarrow> bind_answer \<Rightarrow> bool" where
  "ready_answer st n answer =
     (case answer of
        Bound \<Rightarrow> st_ready st = Some (n, Bound)
      | BindFailed e \<Rightarrow> st_ready st = Some (n, BindFailed e)
      | Stopped \<Rightarrow>
          (case st_thread st of Exited _ \<Rightarrow> True | _ \<Rightarrow> False) \<and>
          (case st_ready st of Some (k, _) \<Rightarrow> k \<noteq> n | None \<Rightarrow> True)
      | TimedOut \<Rightarrow> True)"

subsection \<open>The service\<close>

inductive app_step :: "('m, 'i, 'o) app_lib \<Rightarrow> 'o app_state \<Rightarrow> 'o app_state \<Rightarrow> bool" for lib where
  setup_begin: "setup_begin st s = (r, st') \<Longrightarrow> app_step lib st st'"
| setup_derived: "st_setup st = Deriving s \<Longrightarrow> setup_derived lib st s = (r, st') \<Longrightarrow> app_step lib st st'"
| setup_ready: "st_setup st = Binding n signer identity \<Longrightarrow> ready_answer st n answer \<Longrightarrow>
    setup_ready st signer identity answer = (r, st') \<Longrightarrow> app_step lib st st'"
| setup_dropped: "app_step lib st (st\<lparr>st_setup := Idle\<rparr>)"
| thread: "thread_bind st bound = Some st' \<Longrightarrow> app_step lib st st'"
| thread_exits: "st_thread st = Serving n orc \<or> st_thread st = Waiting \<Longrightarrow>
    app_step lib st (st\<lparr>st_thread := Exited e\<rparr>)"
| prepare_begin: "ark_prepare_begin st request = (r, st') \<Longrightarrow> app_step lib st st'"
| prepare_end: "request \<in> set (st_inflight st) \<Longrightarrow>
    ark_prepare_end lib json st request now seed rng = Some (r, st') \<Longrightarrow> app_step lib st st'"
| finish: "ark_finish lib fjson st now freq = (r, st') \<Longrightarrow> app_step lib st st'"
| cancel: "ark_cancel lib st creq = (r, st') \<Longrightarrow> app_step lib st st'"

text \<open>Production starts with an open security module; a local-dev build installs an ephemeral root
  before it accepts requests.\<close>

inductive app_reachable :: "('m, 'i, 'o) app_lib \<Rightarrow> 'o app_state \<Rightarrow> bool" for lib where
  nitro: "app_reachable lib (app_init (Some fd))"
| local_dev: "xpriv_new_master (ap_keys lib) Regtest seed = Ok root \<Longrightarrow>
    install_begin lib (app_init None) root None = Ok st \<Longrightarrow> app_reachable lib st"
| step: "app_reachable lib st \<Longrightarrow> app_step lib st st' \<Longrightarrow> app_reachable lib st'"

section \<open>Specification\<close>

text \<open>Where a root may come from: with a security module from the attested exchange for the settings,
  without one from an ephemeral regtest seed and for no settings.\<close>

definition rooted :: "('m, 'i, 'o) app_lib \<Rightarrow> int option \<Rightarrow> settings option \<Rightarrow> xpriv \<Rightarrow> bool" where
  "rooted lib nsm s root \<longleftrightarrow> (case s of
     Some s' \<Rightarrow> nsm \<noteq> None \<and> derive_root (ap_keys lib) s' = Ok root
   | None \<Rightarrow> nsm = None \<and> (\<exists>seed. xpriv_new_master (ap_keys lib) Regtest seed = Ok root))"

text \<open>Oracle, signer and identity built from one root, for the given settings.\<close>

definition built ::
  "('m, 'i, 'o) app_lib \<Rightarrow> 'o app_state \<Rightarrow> xpriv \<Rightarrow> settings option \<Rightarrow> 'o \<Rightarrow> ark_signer \<Rightarrow> string \<Rightarrow> bool" where
  "built lib st root s orc signer identity \<longleftrightarrow>
     program_oracle (env_deploy (ap_env lib)) (oracle_new lib) root = Ok orc \<and>
     ark_signer_new (ap_env lib) root = Ok signer \<and>
     identity_to_json lib (make_identity lib st orc s) = Ok identity \<and>
     rooted lib (st_nsm st) s root"

definition serves :: "'o app_state \<Rightarrow> 'o \<Rightarrow> bool" where
  "serves st orc \<longleftrightarrow> (\<exists>n. st_thread st = Serving n orc) \<or> (\<exists>e. st_thread st = Exited e)"

definition published ::
  "('m, 'i, 'o) app_lib \<Rightarrow> 'o app_state \<Rightarrow> string \<Rightarrow> bool" where
  "published lib st identity \<longleftrightarrow>
     (\<exists>root s orc signer0 signer tr. built lib st root s orc signer0 identity \<and>
        st_ark_signer st = Some signer \<and> signer_run (ap_env lib) root tr signer \<and> serves st orc)"

text \<open>The oracle of job \<open>n\<close>, wherever it is.\<close>

definition job_oracle :: "'o app_state \<Rightarrow> nat \<Rightarrow> 'o \<Rightarrow> bool" where
  "job_oracle st n orc \<longleftrightarrow> (n, orc) \<in> set (st_jobs st) \<or> st_thread st = Serving n orc"

definition app_inv :: "('m, 'i, 'o) app_lib \<Rightarrow> 'o app_state \<Rightarrow> bool" where
  "app_inv lib st \<longleftrightarrow>
     st_permits st + length (st_inflight st) = MAX_CONNECTIONS \<and>
     (st_identity st = None \<longleftrightarrow> st_ark_signer st = None) \<and>
     (st_setup st \<noteq> Idle \<longrightarrow> st_identity st = None) \<and>
     (\<forall>n orc. job_oracle st n orc \<longrightarrow> n < st_next_job st) \<and>
     (\<forall>n signer identity. st_setup st = Binding n signer identity \<longrightarrow>
        (\<exists>root s orc. built lib st root s orc signer identity \<and>
           (\<forall>orc'. job_oracle st n orc' \<longrightarrow> orc' = orc))) \<and>
     (\<forall>identity. st_identity st = Some identity \<longrightarrow> published lib st identity) \<and>
     (\<forall>n. st_ready st = Some (n, Bound) \<longrightarrow>
        (\<exists>orc. st_thread st = Serving n orc) \<or> (\<exists>e. st_thread st = Exited e)) \<and>
     (\<forall>s. st_setup st = Deriving s \<longrightarrow> st_nsm st \<noteq> None)"

section \<open>Lemmas\<close>

lemma built_cong: "st_nsm st = st_nsm st' \<Longrightarrow> built lib st = built lib st'"
  by (simp add: built_def make_identity_def fun_eq_iff)

lemma published_cong:
  "st_nsm st = st_nsm st' \<Longrightarrow> st_ark_signer st = st_ark_signer st' \<Longrightarrow> st_thread st = st_thread st' \<Longrightarrow>
   published lib st identity \<longleftrightarrow> published lib st' identity"
  by (simp add: published_def serves_def built_cong [of st st'])

lemma built_updates [simp]:
  "built lib (st\<lparr>st_setup := a\<rparr>) = built lib st" "built lib (st\<lparr>st_jobs := b\<rparr>) = built lib st"
  "built lib (st\<lparr>st_thread := c\<rparr>) = built lib st" "built lib (st\<lparr>st_ark_signer := d\<rparr>) = built lib st"
  "built lib (st\<lparr>st_identity := e\<rparr>) = built lib st" "built lib (st\<lparr>st_permits := f\<rparr>) = built lib st"
  "built lib (st\<lparr>st_inflight := g\<rparr>) = built lib st" "built lib (st\<lparr>st_next_job := h\<rparr>) = built lib st"
  "built lib (st\<lparr>st_ready := i\<rparr>) = built lib st"
  by (rule built_cong, simp)+

lemma published_updates [simp]:
  "published lib (st\<lparr>st_setup := a\<rparr>) = published lib st" "published lib (st\<lparr>st_jobs := b\<rparr>) = published lib st"
  "published lib (st\<lparr>st_permits := f\<rparr>) = published lib st" "published lib (st\<lparr>st_inflight := g\<rparr>) = published lib st"
  by (auto simp: fun_eq_iff published_def serves_def)

lemma published_exec:
  assumes "published lib st identity" and "st_ark_signer st = Some signer"
    and "exec (ap_env lib) signer c = Some (out, signer')"
    and "st_nsm st' = st_nsm st" and "st_ark_signer st' = Some signer'" and "st_thread st' = st_thread st"
  shows "published lib st' identity"
proof -
  from assms(1,2) obtain root s orc signer0 tr where "built lib st root s orc signer0 identity"
    "signer_run (ap_env lib) root tr signer" "serves st orc" by (auto simp: published_def)
  moreover from signer_run.step [OF this(2) assms(3)] have
    "signer_run (ap_env lib) root (tr @ [(c, out)]) signer'" .
  moreover have "built lib st' = built lib st" using assms(4) by (intro built_cong) simp
  ultimately show ?thesis
    using assms(5,6) unfolding published_def serves_def by metis
qed

lemma install_begin_eq_Ok:
  "install_begin lib st root s = Ok st' \<longleftrightarrow> (\<exists>orc signer identity.
     program_oracle (env_deploy (ap_env lib)) (oracle_new lib) root = Ok orc \<and>
     ark_signer_new (ap_env lib) root = Ok signer \<and>
     identity_to_json lib (make_identity lib st orc s) = Ok identity \<and> channel_open st \<and>
     st' = st\<lparr>st_jobs := [(st_next_job st, orc)], st_next_job := Suc (st_next_job st),
             st_setup := Binding (st_next_job st) signer identity\<rparr>)"
  by (auto simp: install_begin_def bind_res_eq_Ok channel_open_def)

lemma app_invI:
  assumes "st_permits st + length (st_inflight st) = MAX_CONNECTIONS"
    and "st_identity st = None \<longleftrightarrow> st_ark_signer st = None"
    and "st_setup st \<noteq> Idle \<Longrightarrow> st_identity st = None"
    and "\<And>n orc. job_oracle st n orc \<Longrightarrow> n < st_next_job st"
    and "\<And>n signer identity. st_setup st = Binding n signer identity \<Longrightarrow>
        \<exists>root s orc. built lib st root s orc signer identity \<and> (\<forall>orc'. job_oracle st n orc' \<longrightarrow> orc' = orc)"
    and "\<And>identity. st_identity st = Some identity \<Longrightarrow> published lib st identity"
    and "\<And>n. st_ready st = Some (n, Bound) \<Longrightarrow>
        (\<exists>orc. st_thread st = Serving n orc) \<or> (\<exists>e. st_thread st = Exited e)"
    and "\<And>s. st_setup st = Deriving s \<Longrightarrow> st_nsm st \<noteq> None"
  shows "app_inv lib st"
  using assms unfolding app_inv_def by simp

lemma app_invD:
  assumes "app_inv lib st"
  shows "st_permits st + length (st_inflight st) = MAX_CONNECTIONS"
    and "st_identity st = None \<longleftrightarrow> st_ark_signer st = None"
    and "st_setup st \<noteq> Idle \<Longrightarrow> st_identity st = None"
    and "job_oracle st n orc \<Longrightarrow> n < st_next_job st"
    and "st_setup st = Binding n signer identity \<Longrightarrow>
        \<exists>root s orc. built lib st root s orc signer identity \<and> (\<forall>orc'. job_oracle st n orc' \<longrightarrow> orc' = orc)"
    and "st_identity st = Some identity \<Longrightarrow> published lib st identity"
    and "st_ready st = Some (n, Bound) \<Longrightarrow>
        (\<exists>orc. st_thread st = Serving n orc) \<or> (\<exists>e. st_thread st = Exited e)"
    and "st_setup st = Deriving s \<Longrightarrow> st_nsm st \<noteq> None"
  using assms unfolding app_inv_def by blast+

text \<open>Releasing the gate keeps the invariant.\<close>

lemma app_inv_release: "app_inv lib st \<Longrightarrow> app_inv lib (st\<lparr>st_setup := Idle\<rparr>)"
  by (auto simp: app_inv_def job_oracle_def published_cong [of "st\<lparr>st_setup := Idle\<rparr>" st])

lemma app_inv_install:
  assumes inv: "app_inv lib st" and "st_identity st = None"
    and ok: "install_begin lib st root s = Ok st'"
    and root: "rooted lib (st_nsm st) s root"
  shows "app_inv lib st'"
proof -
  from ok obtain orc signer identity where
    b: "program_oracle (env_deploy (ap_env lib)) (oracle_new lib) root = Ok orc"
      "ark_signer_new (ap_env lib) root = Ok signer"
      "identity_to_json lib (make_identity lib st orc s) = Ok identity" "channel_open st"
    and st': "st' = st\<lparr>st_jobs := [(st_next_job st, orc)], st_next_job := Suc (st_next_job st),
             st_setup := Binding (st_next_job st) signer identity\<rparr>"
    by (auto simp: install_begin_eq_Ok)
  have bt: "built lib st' root s orc signer identity"
    using b root by (simp add: built_def make_identity_def st')
  have jobs: "job_oracle st' n o' \<longleftrightarrow> (n = st_next_job st \<and> o' = orc) \<or> st_thread st = Serving n o'" for n o'
    by (auto simp: job_oracle_def st')
  have old: "st_thread st = Serving n o' \<Longrightarrow> n < st_next_job st" for n o'
    using inv by (auto simp: app_inv_def job_oracle_def)
  have "\<forall>o'. job_oracle st' (st_next_job st) o' \<longrightarrow> o' = orc" using old jobs by blast
  moreover have "\<forall>n o'. job_oracle st' n o' \<longrightarrow> n < Suc (st_next_job st)"
    using old jobs less_Suc_eq by blast
  ultimately show ?thesis
    using inv bt assms(2) unfolding app_inv_def by (auto simp: st')
qed

text \<open>Publication: the only step that sets the identity.\<close>

lemma app_inv_setup_ready:
  assumes inv: "app_inv lib st" and ph: "st_setup st = Binding n signer identity"
    and ans: "ready_answer st n answer" and st': "setup_ready st signer identity answer = (r, st')"
  shows "app_inv lib st'"
proof (cases answer)
  case Bound
  from inv ph have none: "st_identity st = None" "st_ark_signer st = None"
    by (auto simp: app_inv_def)
  from inv ph obtain root s orc where b: "built lib st root s orc signer identity"
    and own: "\<forall>orc'. job_oracle st n orc' \<longrightarrow> orc' = orc" by (auto simp: app_inv_def)
  have "(\<exists>orc'. st_thread st = Serving n orc') \<or> (\<exists>e. st_thread st = Exited e)"
    using ans Bound by (intro app_invD(7) [OF inv]) (simp add: ready_answer_def)
  with own have "serves st orc" by (auto simp: job_oracle_def serves_def)
  moreover have eq: "st' = st\<lparr>st_setup := Idle, st_ark_signer := Some signer, st_identity := Some identity\<rparr>"
    using st' none by (simp add: Bound setup_ready_def install_ready_def Let_def)
  moreover have "signer_run (ap_env lib) root [] signer"
    using b by (auto simp: built_def intro: signer_run.start)
  moreover have "built lib st' = built lib st" using eq by (intro built_cong) simp
  ultimately have "published lib st' identity"
    using b unfolding published_def serves_def by fastforce
  with inv eq show ?thesis by (auto simp: app_inv_def job_oracle_def)
next
  case (BindFailed e)
  with st' app_inv_release [OF inv] show ?thesis
    by (auto simp: setup_ready_def install_ready_def Let_def)
next
  case Stopped
  with st' app_inv_release [OF inv] show ?thesis
    by (auto simp: setup_ready_def install_ready_def Let_def)
next
  case TimedOut
  with st' app_inv_release [OF inv] show ?thesis
    by (auto simp: setup_ready_def install_ready_def Let_def)
qed

lemma app_inv_setup_derived:
  assumes inv: "app_inv lib st" and ph: "st_setup st = Deriving s"
    and st': "setup_derived lib st s = (r, st')"
  shows "app_inv lib st'"
proof (cases "\<exists>root st1. derive_root (ap_keys lib) s = Ok root \<and> install_begin lib st root (Some s) = Ok st1")
  case True
  then obtain root st1 where r: "derive_root (ap_keys lib) s = Ok root"
    "install_begin lib st root (Some s) = Ok st1" by blast
  from inv ph have "st_identity st = None" by (auto simp: app_inv_def)
  moreover have "rooted lib (st_nsm st) (Some s) root"
    using app_invD(8) [OF inv ph] r(1) by (simp add: rooted_def)
  ultimately have "app_inv lib st1" by (rule app_inv_install [OF inv _ r(2)])
  with st' r show ?thesis by (simp add: setup_derived_def)
next
  case False
  with st' have "st' = st\<lparr>st_setup := Idle\<rparr>" by (auto simp: setup_derived_def split: res.splits)
  with app_inv_release [OF inv] show ?thesis by simp
qed

lemma app_inv_thread:
  assumes inv: "app_inv lib st"
    and st': "st' = st\<lparr>st_jobs := jobs, st_thread := th, st_ready := ready\<rparr>"
    and rdy: "\<And>n. ready = Some (n, Bound) \<Longrightarrow> (\<exists>orc. th = Serving n orc) \<or> (\<exists>e. th = Exited e)"
    and sub: "\<And>n orc. job_oracle st' n orc \<Longrightarrow> job_oracle st n orc"
    and pub: "\<And>orc. serves st orc \<Longrightarrow> serves st' orc"
  shows "app_inv lib st'"
proof -
  have pub': "published lib st' identity" if "published lib st identity" for identity
  proof -
    from that obtain root s orc signer0 signer tr where "built lib st root s orc signer0 identity"
      "st_ark_signer st = Some signer" "signer_run (ap_env lib) root tr signer" "serves st orc"
      unfolding published_def by blast
    with pub have "built lib st' root s orc signer0 identity" "st_ark_signer st' = Some signer"
      "signer_run (ap_env lib) root tr signer" "serves st' orc" by (simp_all add: st')
    then show ?thesis unfolding published_def by blast
  qed
  have eqs: "st_permits st' = st_permits st" "st_inflight st' = st_inflight st" "st_setup st' = st_setup st"
    "st_identity st' = st_identity st" "st_ark_signer st' = st_ark_signer st"
    "st_next_job st' = st_next_job st" "st_nsm st' = st_nsm st" "built lib st' = built lib st"
    by (simp_all add: st')
  show ?thesis
  proof (rule app_invI)
    show "st_permits st' + length (st_inflight st') = MAX_CONNECTIONS"
      "st_identity st' = None \<longleftrightarrow> st_ark_signer st' = None"
      using app_invD(1,2) [OF inv] by (simp_all add: eqs)
    show "st_identity st' = None" if "st_setup st' \<noteq> Idle" using app_invD(3) [OF inv] that by (simp add: eqs)
    show "n < st_next_job st'" if "job_oracle st' n orc" for n orc
      using app_invD(4) [OF inv sub [OF that]] by (simp add: eqs)
    show "st_nsm st' \<noteq> None" if "st_setup st' = Deriving s" for s
      using app_invD(8) [OF inv] that by (simp add: eqs)
    show "(\<exists>orc. st_thread st' = Serving n orc) \<or> (\<exists>e. st_thread st' = Exited e)"
      if "st_ready st' = Some (n, Bound)" for n
      using rdy that by (simp add: st')
    show "published lib st' identity" if "st_identity st' = Some identity" for identity
      using app_invD(6) [OF inv] that by (intro pub') (simp add: eqs)
    fix n signer identity assume "st_setup st' = Binding n signer identity"
    then obtain root s orc where "built lib st root s orc signer identity"
      "\<forall>orc'. job_oracle st n orc' \<longrightarrow> orc' = orc" using app_invD(5) [OF inv] by (auto simp: eqs)
    then show "\<exists>root s orc. built lib st' root s orc signer identity \<and>
        (\<forall>orc'. job_oracle st' n orc' \<longrightarrow> orc' = orc)" using sub unfolding eqs by blast
  qed
qed

lemma thread_bind_eq_Some:
  assumes "thread_bind st bound = Some st'"
  obtains n orc jobs th ready where "st_thread st = Waiting" "st_jobs st = (n, orc) # jobs"
    "st' = st\<lparr>st_jobs := jobs, st_thread := th, st_ready := ready\<rparr>"
    "th = Serving n orc \<and> ready = Some (n, Bound) \<or>
     (\<exists>e. th = Exited e \<and> (ready = Some (n, BindFailed e) \<or> ready = st_ready st))"
proof -
  from assms obtain n orc jobs where w: "st_thread st = Waiting" "st_jobs st = (n, orc) # jobs"
    by (auto simp: thread_bind_def split: signer_thread.splits list.splits)
  with assms have "st' = st\<lparr>st_jobs := jobs, st_thread := st_thread st', st_ready := st_ready st'\<rparr>"
    and "st_thread st' = Serving n orc \<and> st_ready st' = Some (n, Bound) \<or>
     (\<exists>e. st_thread st' = Exited e \<and> (st_ready st' = Some (n, BindFailed e) \<or> st_ready st' = st_ready st))"
    by (auto simp: thread_bind_def split: res.splits if_splits)
  with w show thesis by (rule that)
qed

text \<open>One call of the signer keeps the invariant.\<close>

lemma app_inv_exec:
  assumes inv: "app_inv lib st" and sg: "st_ark_signer st = Some signer"
    and ex: "exec (ap_env lib) signer c = Some (out, signer')"
    and st': "st' = st\<lparr>st_ark_signer := Some signer', st_inflight := fl, st_permits := k\<rparr>"
    and cap: "k + length fl = MAX_CONNECTIONS"
  shows "app_inv lib st'"
proof -
  from inv sg obtain identity where j: "st_identity st = Some identity" "published lib st identity"
    by (auto simp: app_inv_def)
  from published_exec [OF j(2) sg ex] have "published lib st' identity" by (simp add: st')
  moreover have "st_setup st = Idle" using app_invD(3) [OF inv] j by auto
  moreover have "job_oracle st' = job_oracle st" by (simp add: fun_eq_iff job_oracle_def st')
  ultimately show ?thesis
    using j cap app_invD(4,7) [OF inv] by (intro app_invI) (simp_all add: st')
qed

lemma app_inv_step:
  assumes inv: "app_inv lib st" and "app_step lib st st'"
  shows "app_inv lib st'"
  using assms(2)
proof cases
  case (setup_begin s r)
  then have "st' = st \<or> st_identity st = None \<and> st_setup st = Idle \<and> st_nsm st \<noteq> None \<and>
      st' = st\<lparr>st_setup := Deriving s\<rparr>"
    by (auto simp: setup_begin_def split: if_splits)
  with inv show ?thesis
    by (auto simp: app_inv_def job_oracle_def)
next
  case (setup_derived s r)
  then show ?thesis by (rule app_inv_setup_derived [OF inv])
next
  case (setup_ready n signer identity answer r)
  then show ?thesis by (rule app_inv_setup_ready [OF inv])
next
  case setup_dropped
  with inv show ?thesis by (simp add: app_inv_release)
next
  case (thread bound)
  then obtain n orc jobs th ready where "st_thread st = Waiting" "st_jobs st = (n, orc) # jobs"
    and eq: "st' = st\<lparr>st_jobs := jobs, st_thread := th, st_ready := ready\<rparr>"
    and "th = Serving n orc \<and> ready = Some (n, Bound) \<or>
      (\<exists>e. th = Exited e \<and> (ready = Some (n, BindFailed e) \<or> ready = st_ready st))"
    by (rule thread_bind_eq_Some)
  then show ?thesis
    by (intro app_inv_thread [OF inv eq]) (auto simp: job_oracle_def serves_def)
next
  case (thread_exits n orc e)
  have eq: "st' = st\<lparr>st_jobs := st_jobs st, st_thread := Exited e, st_ready := st_ready st\<rparr>"
    using thread_exits by simp
  show ?thesis
    by (rule app_inv_thread [OF inv eq]) (auto simp: eq job_oracle_def serves_def)
next
  case (prepare_begin request r)
  then have "st' = st \<or> 0 < st_permits st \<and>
      st' = st\<lparr>st_permits := st_permits st - 1, st_inflight := request # st_inflight st\<rparr>"
    by (auto simp: ark_prepare_begin_def split: res.splits if_splits)
  with inv show ?thesis
    by (auto simp: app_inv_def job_oracle_def)
next
  case (prepare_end request json now seed rng r)
  then obtain signer q signer' where sg: "st_ark_signer st = Some signer"
    and pr: "prepare (ap_env lib) signer now seed rng request = Some (q, signer')"
    and eq: "st' = st\<lparr>st_ark_signer := Some signer', st_inflight := remove1 request (st_inflight st),
      st_permits := Suc (st_permits st)\<rparr>"
    by (auto simp: ark_prepare_end_def split: option.splits)
  have "exec (ap_env lib) signer (CPrepare request now seed rng) = Some (Prepared q, signer')"
    using pr by simp
  moreover have "Suc (st_permits st) + length (remove1 request (st_inflight st)) = MAX_CONNECTIONS"
  proof -
    have "length (remove1 request (st_inflight st)) = length (st_inflight st) - 1"
      using prepare_end(1) by (simp add: length_remove1)
    with app_invD(1) [OF inv] length_pos_if_in_set [OF prepare_end(1)] show ?thesis by linarith
  qed
  ultimately show ?thesis by (rule app_inv_exec [OF inv sg _ eq])
next
  case (finish fjson now freq r)
  show ?thesis
  proof (cases "app_ark_signer st")
    case (Ok signer)
    obtain q signer' where fin: "finish (ap_env lib) signer now freq = (q, signer')" by force
    have ex: "exec (ap_env lib) signer (CFinish freq now) = Some (Finished q, signer')" using fin by simp
    have eq: "st' = st\<lparr>st_ark_signer := Some signer', st_inflight := st_inflight st,
        st_permits := st_permits st\<rparr>"
      using finish Ok fin by (auto simp: ark_finish_def)
    have "st_ark_signer st = Some signer" using Ok by (simp add: app_ark_signer_def res_inv split: if_splits)
    then show ?thesis by (rule app_inv_exec [OF inv _ ex eq app_invD(1) [OF inv]])
  qed (use finish inv in \<open>auto simp: ark_finish_def\<close>)
next
  case (cancel creq r)
  show ?thesis
  proof (cases "app_ark_signer st")
    case (Ok signer)
    obtain q signer' where fin: "cancel (ap_env lib) signer creq = (q, signer')" by force
    have ex: "exec (ap_env lib) signer (CCancel creq) = Some (Cancelled q, signer')" using fin by simp
    have eq: "st' = st\<lparr>st_ark_signer := Some signer', st_inflight := st_inflight st,
        st_permits := st_permits st\<rparr>"
      using cancel Ok fin by (auto simp: ark_cancel_def)
    have "st_ark_signer st = Some signer" using Ok by (simp add: app_ark_signer_def res_inv split: if_splits)
    then show ?thesis by (rule app_inv_exec [OF inv _ ex eq app_invD(1) [OF inv]])
  qed (use cancel inv in \<open>auto simp: ark_cancel_def\<close>)
qed

lemma app_inv_init: "app_inv lib (app_init nsm)"
  by (simp add: app_inv_def app_init_def job_oracle_def)

lemma app_reachable_inv: "app_reachable lib st \<Longrightarrow> app_inv lib st"
proof (induction rule: app_reachable.induct)
  case (nitro fd)
  show ?case by (rule app_inv_init)
next
  case (local_dev seed root st)
  then show ?case
    by (intro app_inv_install [OF app_inv_init _ local_dev(2)]) (auto simp: app_init_def rooted_def)
next
  case (step st st')
  then show ?case using app_inv_step by blast
qed

subsection \<open>A sample deployment\<close>

text \<open>The root that the sample settings derive.\<close>

definition sample_app_root :: xpriv where
  "sample_app_root = \<lparr>xprv_network = NetTest, xprv_depth = 0, xprv_key = replicate 32 9\<rparr>"

definition sample_served :: identity where
  "sample_served = \<lparr>id_protocol = ''sapio-tee/program-oracle/1'', id_mode = ''nitro'',
     id_xpub = xpub_from_priv sample_ark sample_app_root, id_settings = Some sample_settings,
     id_signing = profile_of_deployment (env_deploy sample_env)\<rparr>"

abbreviation sample_identity :: string where
  "sample_identity \<equiv> ''sapio-tee/program-oracle/1'' @ ''nitro''"

definition sample_app_lib :: "(unit, unit, xpub) app_lib" where
  "sample_app_lib = \<lparr>ap_env = sample_env, ap_keys = sample_keys_lib, ap_nsm_lib = sample_nsm,
     oracle_new = (\<lambda>root es. Ok (xpub_from_priv sample_ark root)), oracle_public_root = (\<lambda>x. x),
     identity_to_json = (\<lambda>i. if i = sample_served then Ok sample_identity else Err (Msg ''unsupported'')),
     app_hex_decode = (\<lambda>s. Some (str_bytes s)), base64_encode = map (\<lambda>b. char_of (unat b)),
     error_to_string = (\<lambda>_. ''error'')\<rparr>"

definition sample_app_signer :: ark_signer where
  "sample_app_signer = \<lparr>as_root = sample_app_root, as_public_root = xpub_from_priv sample_ark sample_app_root,
     as_evaluators = [\<lparr>we_id = 1 # WASM_HEADER @ [7], we_version = V1, we_module = WASM_HEADER @ [7]\<rparr>],
     as_pending = [], as_poisoned = False\<rparr>"

definition sample_ready :: "xpub app_state" where
  "sample_ready = (app_init (Some 3))\<lparr>st_identity := Some sample_identity,
     st_ark_signer := Some sample_app_signer, st_next_job := 1,
     st_thread := Serving 0 (xpub_from_priv sample_ark sample_app_root), st_ready := Some (0, Bound)\<rparr>"

lemma sample_derive: "derive_root sample_keys_lib sample_settings = Ok sample_app_root"
  unfolding sample_app_root_def by (rule sample_root_derived)

lemma sample_install:
  assumes "st_setup st = Deriving sample_settings" and "channel_open st" and "st_nsm st = Some 3"
  shows "install_begin sample_app_lib st sample_app_root (Some sample_settings) =
    Ok (st\<lparr>st_jobs := [(st_next_job st, xpub_from_priv sample_ark sample_app_root)],
      st_next_job := Suc (st_next_job st), st_setup := Binding (st_next_job st) sample_app_signer sample_identity\<rparr>)"
proof -
  have "program_oracle (env_deploy (ap_env sample_app_lib)) (oracle_new sample_app_lib) sample_app_root =
      Ok (xpub_from_priv sample_ark sample_app_root)"
    by (simp add: program_oracle_def sample_app_lib_def sample_env_def sample_evaluators)
  moreover have "ark_signer_new (ap_env sample_app_lib) sample_app_root = Ok sample_app_signer"
    by (simp add: ark_signer_new_def sample_app_lib_def sample_env_def sample_ark_def sample_evaluators
        sample_app_signer_def sample_app_root_def)
  ultimately show ?thesis
    using assms unfolding install_begin_eq_Ok
    by (intro exI conjI) (assumption | simp add: sample_app_lib_def sample_served_def make_identity_def IDENTITY_PROTOCOL_def)+
qed

lemma sample_reachable: "app_reachable sample_app_lib sample_ready"
proof -
  let ?orc = "xpub_from_priv sample_ark sample_app_root"
  let ?s1 = "(app_init (Some 3))\<lparr>st_setup := Deriving sample_settings\<rparr> :: xpub app_state"
  let ?s2 = "?s1\<lparr>st_jobs := [(0, ?orc)], st_next_job := 1, st_setup := Binding 0 sample_app_signer sample_identity\<rparr>"
  let ?s3 = "?s2\<lparr>st_jobs := [], st_thread := Serving 0 ?orc, st_ready := Some (0, Bound)\<rparr>"
  have "validate_settings sample_settings = Ok ()"
    using sample_derive by (auto simp: derive_root_def bind_res_eq_Ok)
  then have "app_step sample_app_lib (app_init (Some 3)) ?s1"
    by (intro app_step.setup_begin [where s = sample_settings and r = None])
      (simp add: setup_begin_def app_init_def)
  with app_reachable.nitro have r1: "app_reachable sample_app_lib ?s1" by (rule app_reachable.step)
  have "setup_derived sample_app_lib ?s1 sample_settings = (None, ?s2)"
    using sample_install [of ?s1] sample_derive
    by (simp add: setup_derived_def sample_app_lib_def [THEN arg_cong, of ap_keys] channel_open_def app_init_def)
  then have "app_step sample_app_lib ?s1 ?s2" by (intro app_step.setup_derived) simp_all
  with r1 have r2: "app_reachable sample_app_lib ?s2" by (rule app_reachable.step)
  have "thread_bind ?s2 (Ok ()) = Some ?s3" by (simp add: thread_bind_def app_init_def awaits_def)
  then have "app_step sample_app_lib ?s2 ?s3" by (rule app_step.thread)
  with r2 have r3: "app_reachable sample_app_lib ?s3" by (rule app_reachable.step)
  have "setup_ready ?s3 sample_app_signer sample_identity Bound = ((200, sample_identity), sample_ready)"
    by (simp add: setup_ready_def install_ready_def app_init_def public_key_def sample_ready_def)
  then have "app_step sample_app_lib ?s3 sample_ready"
    by (rule app_step.setup_ready [rotated 2]) (simp_all add: ready_answer_def)
  with r3 show ?thesis by (rule app_reachable.step)
qed

section \<open>Properties\<close>

text \<open>C4: what the enclave publishes is true. In every reachable state with an identity, the served
  string is the serialization of an identity whose extended public key is the root of the program
  oracle built for the TCP signer, with the measured profile; the Ark signer behind the HTTP
  endpoints was built from the same root and has only evolved by its own operations; the signer
  thread serves that oracle (or the process is ending); and an identity of mode nitro names settings
  from which the attested KMS exchange derived the root, one of mode local-dev has an ephemeral regtest
  root and names none.\<close>

theorem published_identity_consistent:
  assumes "app_reachable lib st" and "st_identity st = Some identity"
  shows "\<exists>root s orc signer tr.
    program_oracle (env_deploy (ap_env lib)) (oracle_new lib) root = Ok orc \<and>
    identity_to_json lib
      \<lparr>id_protocol = IDENTITY_PROTOCOL, id_mode = (if st_nsm st \<noteq> None then ''nitro'' else ''local-dev''),
       id_xpub = oracle_public_root lib orc, id_settings = s,
       id_signing = profile_of_deployment (env_deploy (ap_env lib))\<rparr> = Ok identity \<and>
    (case s of
       Some s' \<Rightarrow> st_nsm st \<noteq> None \<and> derive_root (ap_keys lib) s' = Ok root
     | None \<Rightarrow> st_nsm st = None \<and> (\<exists>seed. xpriv_new_master (ap_keys lib) Regtest seed = Ok root)) \<and>
    st_ark_signer st = Some signer \<and> signer_run (ap_env lib) root tr signer \<and>
    ((\<exists>n. st_thread st = Serving n orc) \<or> (\<exists>e. st_thread st = Exited e))"
  using app_invD(6) [OF app_reachable_inv [OF assms(1)] assms(2)]
  unfolding published_def built_def serves_def make_identity_def rooted_def by blast

theorem published_identity_consistent_witness:
  "app_reachable sample_app_lib sample_ready \<and> st_identity sample_ready = Some sample_identity \<and>
   (\<exists>root signer tr. st_ark_signer sample_ready = Some signer \<and>
      signer_run (ap_env sample_app_lib) root tr signer)"
proof -
  have "st_identity sample_ready = Some sample_identity" by (simp add: sample_ready_def)
  with published_identity_consistent [OF sample_reachable this] sample_reachable show ?thesis by blast
qed

text \<open>C28: the identity is set once. From a reachable state in which it is published, no step of the
  service changes it, replaces the Ark signer by anything but its own successor, or reopens setup;
  until then every signing and attestation endpoint answers 503.\<close>

theorem identity_set_once:
  assumes "app_reachable lib st" and "app_step lib st st'"
  shows "(\<forall>identity. st_identity st = Some identity \<longrightarrow> st_identity st' = Some identity \<and> st_setup st' = Idle) \<and>
    (st_identity st = None \<longrightarrow> public_key st = (503, ''not initialized'') \<and>
      ark_prepare_begin st preq = (Some (503, ''not initialized''), st) \<and>
      ark_finish lib fjson st now freq = (Some (503, ''not initialized''), st) \<and>
      ark_cancel lib st creq = (Some (503, ''not initialized''), st) \<and>
      (\<forall>resp. attestation lib st nonce \<noteq> Ok resp))"
proof (intro conjI allI impI)
  note inv = app_reachable_inv [OF assms(1)]
  fix identity assume j: "st_identity st = Some identity"
  then have idle: "st_setup st = Idle" using app_invD(3) [OF inv] by auto
  from assms(2) j idle have "st_identity st' = Some identity \<and> st_setup st' = Idle"
    by cases (auto simp: setup_begin_def ark_prepare_begin_def ark_prepare_end_def ark_finish_def
        ark_cancel_def elim!: thread_bind_eq_Some split: if_splits res.splits option.splits prod.splits)
  then show "st_identity st' = Some identity" "st_setup st' = Idle" by simp_all
next
  assume "st_identity st = None"
  then show "public_key st = (503, ''not initialized'')"
    "ark_prepare_begin st preq = (Some (503, ''not initialized''), st)"
    "ark_finish lib fjson st now freq = (Some (503, ''not initialized''), st)"
    "ark_cancel lib st creq = (Some (503, ''not initialized''), st)"
    "attestation lib st nonce \<noteq> Ok resp" for resp
    by (auto simp: public_key_def ark_prepare_begin_def ark_finish_def ark_cancel_def app_ark_signer_def
        attestation_def bind_res_eq_Ok ok_or_eq_Ok)
qed

theorem identity_set_once_witness:
  "app_step sample_app_lib sample_ready sample_ready \<and> st_identity sample_ready = Some sample_identity \<and>
   st_setup sample_ready = Idle"
proof -
  have "setup_begin sample_ready sample_settings = (Some (409, ''already initialized; restart to change identity''), sample_ready)
     \<or> setup_begin sample_ready sample_settings = (Some (400, ''invalid setup settings''), sample_ready)"
    by (simp add: setup_begin_def sample_ready_def app_init_def)
  then have step: "app_step sample_app_lib sample_ready sample_ready" by (auto intro: app_step.setup_begin)
  have j: "st_identity sample_ready = Some sample_identity" by (simp add: sample_ready_def)
  from identity_set_once [OF sample_reachable step] j step show ?thesis by blast
qed

text \<open>C36: at most the advertised number of connections evaluates at the same time: in every reachable
  state the permits and the running evaluations add up to the profile's \<open>max_connections\<close>, so a
  permit is neither lost by a panicking evaluation nor duplicated.\<close>

theorem admission_bounded:
  assumes "app_reachable lib st"
  shows "st_permits st + length (st_inflight st) =
      pp_max_connections (profile_of_deployment (env_deploy (ap_env lib))) \<and>
    (st_permits st = 0 \<longrightarrow> st_identity st \<noteq> None \<longrightarrow>
      ark_prepare_begin st request = (Some (503, ''program evaluation capacity exceeded''), st))"
proof -
  note inv = app_reachable_inv [OF assms]
  have "st_identity st \<noteq> None \<Longrightarrow> \<exists>sg. st_ark_signer st = Some sg" using app_invD(2) [OF inv] by auto
  then show ?thesis
    using app_invD(1) [OF inv]
    by (auto simp: profile_of_deployment_def ark_prepare_begin_def app_ark_signer_def)
qed

theorem admission_bounded_witness:
  "app_reachable sample_app_lib sample_ready \<and>
   st_permits sample_ready + length (st_inflight sample_ready) =
     pp_max_connections (profile_of_deployment (env_deploy (ap_env sample_app_lib)))"
  using admission_bounded [OF sample_reachable] sample_reachable by blast

text \<open>C29: an attestation binds the identity that is served. Every attestation document is the
  security module's answer for the caller's nonce of 16 to 64 bytes and, as user data, the SHA-256
  of exactly the string returned with it, which is the string of \<open>/public-key\<close>.\<close>

theorem attestation_binds_identity:
  assumes "attestation lib st nonce_hex = Ok response"
  shows "\<exists>nonce fd document. app_hex_decode lib nonce_hex = Some nonce \<and> 16 \<le> length nonce \<and> length nonce \<le> 64 \<and>
    st_nsm st = Some fd \<and> public_key st = (200, ar_identity_json response) \<and>
    nsm_process_request (ap_nsm_lib lib) fd (Attestation (Some nonce)
      (Some (nsm_sha256 (ap_nsm_lib lib) (str_bytes (ar_identity_json response)))) None) =
      AttestationDocument document \<and>
    ar_document response = base64_encode lib document"
  using assms
  by (auto simp: attestation_def bind_res_eq_Ok ok_or_eq_Ok map_err_eq_Ok nsm_attest_eq_Ok public_key_def
      split: if_splits)

theorem attestation_binds_identity_witness:
  "\<exists>response. attestation sample_app_lib sample_ready (replicate 16 (CHR ''n'')) = Ok response \<and>
     public_key sample_ready = (200, ar_identity_json response)"
proof -
  have "\<exists>response. attestation sample_app_lib sample_ready (replicate 16 (CHR ''n'')) = Ok response"
    by (simp add: attestation_def sample_app_lib_def sample_ready_def app_init_def nsm_attest_def sample_nsm_def)
  then obtain response where "attestation sample_app_lib sample_ready (replicate 16 (CHR ''n'')) = Ok response" ..
  with attestation_binds_identity [OF this] show ?thesis by blast
qed

end
