(* ===== verification/Router.thy ===== *)
theory Router
  imports App
begin

text \<open>
  The HTTP front of the service, \<open>build_router\<close>, and the end of \<open>run\<close> and \<open>shutdown\<close> in
  \<open>src/src/app.rs\<close>: the route table with its body limits and the browser surface, the capacity limit
  of each route and the request deadline, and the three ways in which the process ends.

  The axum and tower layers are modelled by their documented behaviour. \<open>Router::layer\<close> wraps each
  service of the router on its own, so every service has its own sixteen permits: each route, the
  fallback that answers the other methods of a route, and the fallback for unknown paths. Load on one
  route therefore never takes the permits of another. A request that is admitted is
  first read, then handled by the handler of its route on the state of \<open>App\<close>; a handler may wait. When
  the deadline passes, the waiting handler is dropped and the request is answered 408: a dropped setup
  releases its gate, an evaluation that was started goes on. Parameters, in \<open>front_lib\<close>: the request
  limit of the protocol crate and the JSON extractors of the five handlers that take a body.
\<close>

section \<open>Data\<close>

definition API_ADDRESS :: string where "API_ADDRESS = ''127.0.0.1:8000''"
definition SIGNER_ADDRESS :: string where "SIGNER_ADDRESS = ''127.0.0.1:8367''"

datatype http_verb = HttpGet | HttpHead | HttpPost | HttpOptions | HttpOther string

datatype route = RHealth | RSetup | RPublicKey | RAttestation | RPrepare | RFinish | RCancel

record http_request =
  hr_verb :: http_verb
  hr_path :: string
  hr_body :: bytes

text \<open>A request whose body has been extracted.\<close>

datatype call =
    CallHealth
  | CallPublicKey
  | CallSetup settings
  | CallAttestation string
  | CallPrepare prepare_request
  | CallFinish finish_request
  | CallCancel cancel_request

text \<open>An admitted request: still being read, ready for its handler, or waiting inside it.\<close>

datatype phase = Reading http_request | Handling call | AwaitingSetup | AwaitingPrepare prepare_request

text \<open>The services of the router, each with its own permits.\<close>

datatype service = Served route | OtherMethod route | NoRoute

record front_lib =
  MAX_REQUEST_BYTES :: nat
  json_setup :: "bytes \<Rightarrow> (response, settings) res"
  json_attestation :: "bytes \<Rightarrow> (response, string) res"
  json_prepare :: "bytes \<Rightarrow> (response, prepare_request) res"
  json_finish :: "bytes \<Rightarrow> (response, finish_request) res"
  json_cancel :: "bytes \<Rightarrow> (response, cancel_request) res"

text \<open>The active requests, each with the service whose permit it holds.\<close>

record 'o front =
  fr_app :: "'o app_state"
  fr_active :: "(service \<times> phase) list"

section \<open>Operations\<close>

subsection \<open>Routes\<close>

definition ark_routes :: "(string \<times> http_verb \<times> route) list" where
  "ark_routes =
     [(''/prepare'', HttpPost, RPrepare), (''/finish'', HttpPost, RFinish), (''/cancel'', HttpPost, RCancel)]"

definition routes :: "(string \<times> http_verb \<times> route) list" where
  "routes =
     [(''/health'', HttpGet, RHealth), (''/setup'', HttpPost, RSetup), (''/public-key'', HttpGet, RPublicKey),
      (''/attestation'', HttpPost, RAttestation)] @ map (\<lambda>(path, r). (''/ark'' @ path, r)) ark_routes"

text \<open>The limit of the route itself overrides the one of the router.\<close>

definition body_limit :: "front_lib \<Rightarrow> route \<Rightarrow> nat" where
  "body_limit fl r = (if r = RPrepare then MAX_REQUEST_BYTES fl else 4096)"

text \<open>Only the signing protocol answers browsers: any origin, \<open>POST\<close>, content type.\<close>

definition cors_allowed :: "route \<Rightarrow> bool" where
  "cors_allowed r \<longleftrightarrow> r \<in> snd ` snd ` set ark_routes"

definition answers_verb :: "http_verb \<Rightarrow> http_verb \<Rightarrow> bool" where
  "answers_verb expected v \<longleftrightarrow> v = expected \<or> expected = HttpGet \<and> v = HttpHead"

text \<open>The service a request is routed to. \<open>HEAD\<close> is answered by the handler of \<open>GET\<close>; a browser's
  preflight is a method of its own.\<close>

definition service_of :: "http_request \<Rightarrow> service" where
  "service_of rq =
     (case map_of routes (hr_path rq) of
        None \<Rightarrow> NoRoute
      | Some (verb, r) \<Rightarrow> if answers_verb verb (hr_verb rq) then Served r else OtherMethod r)"

text \<open>The arguments of a handler.\<close>

fun extract_call :: "front_lib \<Rightarrow> route \<Rightarrow> bytes \<Rightarrow> (response, call) res" where
  "extract_call fl RHealth body = Ok CallHealth"
| "extract_call fl RPublicKey body = Ok CallPublicKey"
| "extract_call fl RSetup body = bind_res (json_setup fl body) (\<lambda>s. Ok (CallSetup s))"
| "extract_call fl RAttestation body = bind_res (json_attestation fl body) (\<lambda>n. Ok (CallAttestation n))"
| "extract_call fl RPrepare body = bind_res (json_prepare fl body) (\<lambda>q. Ok (CallPrepare q))"
| "extract_call fl RFinish body = bind_res (json_finish fl body) (\<lambda>q. Ok (CallFinish q))"
| "extract_call fl RCancel body = bind_res (json_cancel fl body) (\<lambda>q. Ok (CallCancel q))"

text \<open>The call of a completely read request, or the answer that needs no handler.\<close>

definition dispatch :: "front_lib \<Rightarrow> http_request \<Rightarrow> (response, call) res" where
  "dispatch fl rq =
     (case map_of routes (hr_path rq) of
        None \<Rightarrow> Err (404, [])
      | Some (verb, r) \<Rightarrow>
          if cors_allowed r \<and> hr_verb rq = HttpOptions then Err (200, [])
          else if \<not> answers_verb verb (hr_verb rq) then Err (405, [])
          else if r \<noteq> RHealth \<and> r \<noteq> RPublicKey \<and> body_limit fl r < length (hr_body rq)
          then Err (413, ''length limit exceeded'')
          else extract_call fl r (hr_body rq))"

subsection \<open>Admission and deadline\<close>

definition CONCURRENCY_LIMIT :: nat where "CONCURRENCY_LIMIT = 16"

text \<open>The permits of a service that are taken.\<close>

definition admitted :: "service \<Rightarrow> 'o front \<Rightarrow> nat" where
  "admitted sv f = length (filter (\<lambda>e. fst e = sv) (fr_active f))"

text \<open>\<open>load_shed\<close> over \<open>concurrency_limit\<close>, for the service of the request: a request beyond the
  limit is answered at once.\<close>

definition front_arrive :: "'o front \<Rightarrow> http_request \<Rightarrow> response option \<times> 'o front" where
  "front_arrive f rq =
     (if CONCURRENCY_LIMIT \<le> admitted (service_of rq) f then (Some (503, ''API capacity exceeded''), f)
      else (None, f\<lparr>fr_active := (service_of rq, Reading rq) # fr_active f\<rparr>))"

definition deadline_answer :: response where
  "deadline_answer = (408, ''request deadline exceeded'')"

text \<open>Dropping the future of a request in the given phase.\<close>

fun drop_phase :: "phase \<Rightarrow> 'o app_state \<Rightarrow> 'o app_state" where
  "drop_phase AwaitingSetup st = st\<lparr>st_setup := Idle\<rparr>"
| "drop_phase _ st = st"

text \<open>One step of the handler of a call: its answer, or the phase in which it waits. The clock is
  read by the handler of \<open>finish\<close>; attestation answers with what \<open>json\<close> makes of its document.\<close>

fun handle_call ::
  "('m, 'i, 'o) app_lib \<Rightarrow> (attestation_response \<Rightarrow> response) \<Rightarrow> (finish_response \<Rightarrow> response) \<Rightarrow> nat \<Rightarrow>
     'o app_state \<Rightarrow> call \<Rightarrow> (response option + phase) \<times> 'o app_state" where
  "handle_call lib json fjson now st CallHealth = (Inl (Some (health st)), st)"
| "handle_call lib json fjson now st CallPublicKey = (Inl (Some (public_key st)), st)"
| "handle_call lib json fjson now st (CallAttestation nonce) =
     (Inl (case attestation lib st nonce of Ok r \<Rightarrow> Some (json r) | Err e \<Rightarrow> Some e | Panic \<Rightarrow> None), st)"
| "handle_call lib json fjson now st (CallSetup s) =
     (case setup_begin st s of
        (Some r, st') \<Rightarrow> (Inl (Some r), st')
      | (None, st') \<Rightarrow> (Inr AwaitingSetup, st'))"
| "handle_call lib json fjson now st (CallPrepare q) =
     (case ark_prepare_begin st q of
        (Some r, st') \<Rightarrow> (Inl (Some r), st')
      | (None, st') \<Rightarrow> (Inr (AwaitingPrepare q), st'))"
| "handle_call lib json fjson now st (CallFinish q) =
     (case ark_finish lib fjson st now q of (r, st') \<Rightarrow> (Inl r, st'))"
| "handle_call lib json fjson now st (CallCancel q) =
     (case ark_cancel lib st q of (r, st') \<Rightarrow> (Inl r, st'))"

subsection \<open>The front\<close>

text \<open>Each step carries the answer it sends, if any.\<close>

inductive front_step ::
  "('m, 'i, 'o) app_lib \<Rightarrow> front_lib \<Rightarrow> 'o front \<Rightarrow> response option \<Rightarrow> 'o front \<Rightarrow> bool" for lib fl where
  arrive: "front_arrive f rq = (r, f') \<Longrightarrow> front_step lib fl f r f'"
| refused: "fr_active f = xs @ (sv, Reading rq) # ys \<Longrightarrow> dispatch fl rq = Err r \<Longrightarrow>
    front_step lib fl f (Some r) (f\<lparr>fr_active := xs @ ys\<rparr>)"
| extracted: "fr_active f = xs @ (sv, Reading rq) # ys \<Longrightarrow> dispatch fl rq = Ok c \<Longrightarrow>
    front_step lib fl f None (f\<lparr>fr_active := xs @ (sv, Handling c) # ys\<rparr>)"
| answered: "fr_active f = xs @ (sv, Handling c) # ys \<Longrightarrow> handle_call lib json fjson now (fr_app f) c = (Inl r, st) \<Longrightarrow>
    front_step lib fl f r (f\<lparr>fr_app := st, fr_active := xs @ ys\<rparr>)"
| waits: "fr_active f = xs @ (sv, Handling c) # ys \<Longrightarrow> handle_call lib json fjson now (fr_app f) c = (Inr p, st) \<Longrightarrow>
    front_step lib fl f None (f\<lparr>fr_app := st, fr_active := xs @ (sv, p) # ys\<rparr>)"
| derived: "fr_active f = xs @ (sv, AwaitingSetup) # ys \<Longrightarrow> st_setup (fr_app f) = Deriving s \<Longrightarrow>
    setup_derived lib (fr_app f) s = (r, st) \<Longrightarrow>
    front_step lib fl f r (f\<lparr>fr_app := st, fr_active := xs @ (if r = None then [(sv, AwaitingSetup)] else []) @ ys\<rparr>)"
| ready: "fr_active f = xs @ (sv, AwaitingSetup) # ys \<Longrightarrow> st_setup (fr_app f) = Binding n signer identity \<Longrightarrow>
    ready_answer (fr_app f) n answer \<Longrightarrow> setup_ready (fr_app f) signer identity answer = (r, st) \<Longrightarrow>
    front_step lib fl f (Some r) (f\<lparr>fr_app := st, fr_active := xs @ ys\<rparr>)"
| prepared: "fr_active f = xs @ (sv, AwaitingPrepare q) # ys \<Longrightarrow> q \<in> set (st_inflight (fr_app f)) \<Longrightarrow>
    ark_prepare_end lib pjson (fr_app f) q now seed rng = Some (r, st) \<Longrightarrow>
    front_step lib fl f (Some r) (f\<lparr>fr_app := st, fr_active := xs @ ys\<rparr>)"
| prepared_late: "q \<in> set (st_inflight (fr_app f)) \<Longrightarrow> AwaitingPrepare q \<notin> snd ` set (fr_active f) \<Longrightarrow>
    ark_prepare_end lib pjson (fr_app f) q now seed rng = Some (r, st) \<Longrightarrow>
    front_step lib fl f None (f\<lparr>fr_app := st\<rparr>)"
| deadline: "fr_active f = xs @ (sv, p) # ys \<Longrightarrow>
    front_step lib fl f (Some deadline_answer) (f\<lparr>fr_app := drop_phase p (fr_app f), fr_active := xs @ ys\<rparr>)"
| thread: "thread_bind (fr_app f) bound = Some st \<Longrightarrow> front_step lib fl f None (f\<lparr>fr_app := st\<rparr>)"
| thread_exits: "st_thread (fr_app f) = Serving n orc \<or> st_thread (fr_app f) = Waiting \<Longrightarrow>
    front_step lib fl f None (f\<lparr>fr_app := (fr_app f)\<lparr>st_thread := Exited e\<rparr>\<rparr>)"

text \<open>The router serves once the state is built and, in a local-dev build, installed.\<close>

inductive front_reachable :: "('m, 'i, 'o) app_lib \<Rightarrow> front_lib \<Rightarrow> 'o front \<Rightarrow> bool" for lib fl where
  start: "app_reachable lib st \<Longrightarrow> st_setup st = Idle \<Longrightarrow> front_reachable lib fl \<lparr>fr_app = st, fr_active = []\<rparr>"
| step: "front_reachable lib fl f \<Longrightarrow> front_step lib fl f r f' \<Longrightarrow> front_reachable lib fl f'"

subsection \<open>The end of the process\<close>

text \<open>The first branch of the final \<open>select!\<close> to complete: the server, the status of the signer thread
  (\<open>None\<close> when it was dropped without one), or a signal.\<close>

datatype run_event =
    ApiEnded "(string, unit) res"
  | SignerStatus "(string, unit) res option"
  | ShutDown "unit result"

datatype signal_event = CtrlC "unit result" | Terminate | NoHandler string

definition shutdown :: "signal_event \<Rightarrow> unit result" where
  "shutdown e = (case e of CtrlC r \<Rightarrow> r | Terminate \<Rightarrow> Ok () | NoHandler m \<Rightarrow> Err (Msg m))"

definition signer_done :: "(string, unit) res option \<Rightarrow> unit result" where
  "signer_done st =
     (case st of
        Some (Ok _) \<Rightarrow> Err (Msg ''signer exited unexpectedly'')
      | Some (Err e) \<Rightarrow> Err (Msg (''signer failed: '' @ e))
      | Some Panic \<Rightarrow> Err (Msg ''signer task ended without status'')
      | None \<Rightarrow> Err (Msg ''signer task ended without status''))"

definition run_end :: "run_event \<Rightarrow> unit result" where
  "run_end e =
     (case e of
        ApiEnded r \<Rightarrow> bind_res (map_err Msg r) (\<lambda>_. Err (Msg ''API exited unexpectedly''))
      | SignerStatus s \<Rightarrow> signer_done s
      | ShutDown r \<Rightarrow> r)"

section \<open>Specification\<close>

fun awaits_setup :: "phase \<Rightarrow> bool" where
  "awaits_setup AwaitingSetup \<longleftrightarrow> True"
| "awaits_setup _ \<longleftrightarrow> False"

text \<open>The service whose permit a request in the given phase must hold.\<close>

fun call_route :: "call \<Rightarrow> route" where
  "call_route CallHealth = RHealth"
| "call_route CallPublicKey = RPublicKey"
| "call_route (CallSetup s) = RSetup"
| "call_route (CallAttestation n) = RAttestation"
| "call_route (CallPrepare q) = RPrepare"
| "call_route (CallFinish q) = RFinish"
| "call_route (CallCancel q) = RCancel"

fun phase_service :: "phase \<Rightarrow> service" where
  "phase_service (Reading rq) = service_of rq"
| "phase_service (Handling c) = Served (call_route c)"
| "phase_service AwaitingSetup = Served RSetup"
| "phase_service (AwaitingPrepare q) = Served RPrepare"

text \<open>No service gives out more than its permits, every active request holds one of its own service,
  and the gate of \<open>setup\<close> is held by exactly one active request, or by none.\<close>

definition front_inv :: "('m, 'i, 'o) app_lib \<Rightarrow> 'o front \<Rightarrow> bool" where
  "front_inv lib f \<longleftrightarrow>
     app_reachable lib (fr_app f) \<and> (\<forall>sv. admitted sv f \<le> CONCURRENCY_LIMIT) \<and>
     (\<forall>(sv, p) \<in> set (fr_active f). sv = phase_service p) \<and>
     length (filter (awaits_setup \<circ> snd) (fr_active f)) = (if st_setup (fr_app f) = Idle then 0 else 1)"

section \<open>Lemmas\<close>

text \<open>Handlers are steps of the application.\<close>

lemma handle_call_step:
  assumes "handle_call lib json fjson now st c = (r, st')"
  shows "st' = st \<or> app_step lib st st'"
  using assms
  by (cases c) (auto split: prod.splits option.splits intro: app_step.intros)

text \<open>What a handler does to the gate.\<close>

lemma setup_begin_gate:
  "setup_begin st s = (r, st') \<Longrightarrow>
     (r = None \<longrightarrow> st_setup st = Idle \<and> st_setup st' \<noteq> Idle) \<and> (r \<noteq> None \<longrightarrow> st' = st)"
  by (auto simp: setup_begin_def split: if_splits)

lemma handle_call_gate:
  assumes "handle_call lib json fjson now st c = (r, st')"
  shows "case r of
      Inl _ \<Rightarrow> st_setup st' = st_setup st
    | Inr p \<Rightarrow> if awaits_setup p then st_setup st = Idle \<and> st_setup st' \<noteq> Idle else st_setup st' = st_setup st"
  using assms
  by (cases c)
    (auto simp: ark_prepare_begin_def ark_finish_def ark_cancel_def split: prod.splits option.splits res.splits if_splits
      dest!: setup_begin_gate)

lemma setup_derived_gate:
  assumes "setup_derived lib st s = (r, st')"
  shows "r = None \<longleftrightarrow> st_setup st' \<noteq> Idle"
  using assms by (auto simp: setup_derived_def install_begin_eq_Ok split: res.splits)

lemma setup_ready_gate: "setup_ready st signer identity answer = (r, st') \<Longrightarrow> st_setup st' = Idle"
  by (auto simp: setup_ready_def install_ready_def Let_def split: res.splits prod.splits bind_answer.splits if_splits)

lemma drop_phase_step: "drop_phase p st = st \<or> app_step lib st (drop_phase p st)"
  using app_step.setup_dropped [of lib st] by (cases p) simp_all

lemma drop_phase_gate: "st_setup (drop_phase p st) = (if awaits_setup p then Idle else st_setup st)"
  by (cases p) simp_all

lemma prepare_end_gate: "ark_prepare_end lib json st q now seed rng = Some (r, st') \<Longrightarrow> st_setup st' = st_setup st"
  by (auto simp: ark_prepare_end_def split: option.splits)

lemma thread_bind_gate: "thread_bind st bound = Some st' \<Longrightarrow> st_setup st' = st_setup st"
  by (auto simp: thread_bind_def split: signer_thread.splits list.splits res.splits if_splits)

text \<open>A request keeps the permit of its service through every phase.\<close>

lemma extract_call_route: "extract_call fl r body = Ok c \<Longrightarrow> call_route c = r"
  by (cases r) (auto simp: bind_res_eq_Ok)

lemma dispatch_service:
  assumes "dispatch fl rq = Ok c"
  shows "service_of rq = Served (call_route c)"
  using assms by (auto simp: dispatch_def service_of_def dest: extract_call_route split: option.splits if_splits)

lemma handle_call_service:
  assumes "handle_call lib json fjson now st c = (Inr p, st')"
  shows "phase_service p = Served (call_route c)"
  using assms by (cases c) (auto split: prod.splits option.splits)

text \<open>The parts of the invariant, for a step that replaces one active request by at most one.\<close>

lemma front_inv_replace:
  assumes inv: "front_inv lib f" and act: "fr_active f = xs @ (sv, p) # ys"
    and app: "st = fr_app f \<or> app_step lib (fr_app f) st" and len: "length zs \<le> 1"
    and srv: "\<And>z. z \<in> set zs \<Longrightarrow> phase_service z = phase_service p"
    and gate: "awaits_setup p \<Longrightarrow> st_setup st = Idle \<longleftrightarrow> \<not> list_ex awaits_setup zs"
      "\<not> awaits_setup p \<Longrightarrow> list_ex awaits_setup zs \<Longrightarrow> st_setup (fr_app f) = Idle \<and> st_setup st \<noteq> Idle"
      "\<not> awaits_setup p \<Longrightarrow> \<not> list_ex awaits_setup zs \<Longrightarrow> st_setup st = st_setup (fr_app f)"
  shows "front_inv lib (f\<lparr>fr_app := st, fr_active := xs @ map (Pair sv) zs @ ys\<rparr>)"
proof -
  let ?f = "f\<lparr>fr_app := st, fr_active := xs @ map (Pair sv) zs @ ys\<rparr>"
  have "app_reachable lib st" using inv app by (auto simp: front_inv_def intro: app_reachable.step)
  moreover have "admitted sv' ?f \<le> CONCURRENCY_LIMIT" for sv'
  proof -
    have "admitted sv' ?f \<le> admitted sv' f"
      using act len by (cases zs) (auto simp: admitted_def)
    then show ?thesis using inv by (auto simp: front_inv_def intro: le_trans)
  qed
  moreover have "\<forall>(sv', q) \<in> set (fr_active ?f). sv' = phase_service q"
    using inv act srv by (auto simp: front_inv_def case_prod_unfold)
  moreover have "length (filter (awaits_setup \<circ> snd) (fr_active ?f)) = (if st_setup st = Idle then 0 else 1)"
  proof -
    let ?w = "\<lambda>es. length (filter (awaits_setup \<circ> snd) es)"
    have count: "?w xs + (if awaits_setup p then 1 else 0) + ?w ys = (if st_setup (fr_app f) = Idle then 0 else 1)"
      using inv act by (auto simp: front_inv_def)
    have zs: "?w (map (Pair sv) zs) = (if list_ex awaits_setup zs then 1 else 0)" using len by (cases zs) auto
    show ?thesis using count zs gate by (cases "awaits_setup p"; cases "list_ex awaits_setup zs") (auto split: if_splits)
  qed
  ultimately show ?thesis by (simp add: front_inv_def)
qed

text \<open>An arrival takes a permit of its service, when there is one.\<close>

lemma admitted_arrive:
  "front_arrive f rq = (r, f') \<Longrightarrow>
     admitted sv f' = admitted sv f + (if r = None \<and> sv = service_of rq then 1 else 0)"
  by (auto simp: front_arrive_def admitted_def split: if_splits)

lemma front_inv_arrive:
  assumes inv: "front_inv lib f" and arr: "front_arrive f rq = (r, f')"
  shows "front_inv lib f'"
proof -
  have "admitted sv f' \<le> CONCURRENCY_LIMIT" for sv
  proof (cases "r = None \<and> sv = service_of rq")
    case True
    then have "admitted sv f < CONCURRENCY_LIMIT" using arr by (auto simp: front_arrive_def split: if_splits)
    then show ?thesis using admitted_arrive [OF arr, of sv] True by simp
  next
    case False
    then have "admitted sv f' = admitted sv f"
      using admitted_arrive [OF arr, of sv] by (simp only: if_False add_0_right)
    then show ?thesis using inv by (simp add: front_inv_def)
  qed
  then show ?thesis using inv arr by (auto simp: front_inv_def front_arrive_def split: if_splits)
qed

lemma admitted_bound: "front_inv lib f \<Longrightarrow> admitted sv f \<le> CONCURRENCY_LIMIT"
  by (simp add: front_inv_def)

text \<open>A step in the background.\<close>

lemma front_inv_background:
  "front_inv lib f \<Longrightarrow> app_step lib (fr_app f) st \<Longrightarrow> st_setup st = st_setup (fr_app f) \<Longrightarrow> front_inv lib (f\<lparr>fr_app := st\<rparr>)"
  by (auto simp: front_inv_def admitted_def intro: app_reachable.step)

lemma front_inv_step:
  assumes inv: "front_inv lib f" and "front_step lib fl f r f'"
  shows "front_inv lib f'"
  using assms(2)
proof (cases rule: front_step.cases)
  case (arrive rq)
  then show ?thesis using front_inv_arrive [OF inv] by blast
next
  case (refused xs sv rq ys a)
  then show ?thesis using front_inv_replace [OF inv refused(3), of "fr_app f" "[]"] by simp
next
  case (extracted xs sv rq ys c)
  then show ?thesis
    using front_inv_replace [OF inv extracted(3), of "fr_app f" "[Handling c]"] dispatch_service [OF extracted(4)] by simp
next
  case (answered xs sv c ys json fjson now st)
  then show ?thesis
    using front_inv_replace [OF inv answered(2) handle_call_step [OF answered(3)], of "[]"] handle_call_gate [OF answered(3)]
    by simp
next
  case (waits xs sv c ys json fjson now p st)
  then show ?thesis
    using front_inv_replace [OF inv waits(3) handle_call_step [OF waits(4)], of "[p]"] handle_call_gate [OF waits(4)]
      handle_call_service [OF waits(4)]
    by (simp split: if_splits)
next
  case (derived xs sv ys s st)
  have "front_inv lib (f\<lparr>fr_app := st,
      fr_active := xs @ map (Pair sv) (if r = None then [AwaitingSetup] else []) @ ys\<rparr>)"
    by (rule front_inv_replace [OF inv derived(2) disjI2 [OF app_step.setup_derived [OF derived(3,4)]]])
      (simp_all add: setup_derived_gate [OF derived(4)] split: if_splits)
  then show ?thesis by (cases r) (simp_all add: derived(1))
next
  case (ready xs sv ys n signer identity answer a st)
  then show ?thesis
    using front_inv_replace [OF inv ready(3) disjI2 [OF app_step.setup_ready [OF ready(4-6)]], of "[]"]
      setup_ready_gate [OF ready(6)] by simp
next
  case (prepared xs sv q ys pjson now seed rng a st)
  then show ?thesis
    using front_inv_replace [OF inv prepared(3) disjI2 [OF app_step.prepare_end [OF prepared(4,5)]], of "[]"]
      prepare_end_gate [OF prepared(5)] by simp
next
  case (prepared_late q pjson now seed rng a st)
  then show ?thesis
    using front_inv_background [OF inv app_step.prepare_end [OF prepared_late(3,5)] prepare_end_gate [OF prepared_late(5)]]
    by simp
next
  case (deadline xs sv p ys)
  then show ?thesis
    using front_inv_replace [OF inv deadline(3) drop_phase_step, of "[]"] drop_phase_gate [of p "fr_app f"] by simp
next
  case (thread bound st)
  then show ?thesis
    using front_inv_background [OF inv app_step.thread [OF thread(3)] thread_bind_gate [OF thread(3)]] by simp
next
  case (thread_exits n orc e)
  then show ?thesis using front_inv_background [OF inv app_step.thread_exits [OF thread_exits(3)]] by simp
qed

lemma front_reachable_inv: "front_reachable lib fl f \<Longrightarrow> front_inv lib f"
proof (induction rule: front_reachable.induct)
  case (start st)
  then show ?case by (simp add: front_inv_def admitted_def)
next
  case (step f r f')
  then show ?case using front_inv_step by blast
qed

text \<open>The service ends without an error only on a signal.\<close>

lemma run_ends_on_signal: "run_end e = Ok () \<longleftrightarrow> e = ShutDown (Ok ())"
  by (auto simp: run_end_def signer_done_def bind_res_eq_Ok split: run_event.splits option.splits res.splits)

text \<open>No handler sees a body beyond the limit of its route.\<close>

lemma dispatch_bounded:
  assumes "dispatch fl rq = Ok c"
  shows "\<exists>r. service_of rq = Served r \<and> extract_call fl r (hr_body rq) = Ok c \<and>
    (r = RHealth \<or> r = RPublicKey \<or> length (hr_body rq) \<le> body_limit fl r)"
  using assms by (auto simp: dispatch_def service_of_def split: option.splits if_splits)

text \<open>The unique holder of the gate.\<close>

lemma awaits_setup_iff: "awaits_setup p \<longleftrightarrow> p = AwaitingSetup"
  by (cases p) simp_all

lemma gate_holder:
  assumes "length (filter (awaits_setup \<circ> snd) es) = (if idle then 0 else 1)"
    and "\<forall>(sv, p) \<in> set es. sv = phase_service p"
  shows "\<not> idle \<longleftrightarrow>
    (\<exists>xs ys. es = xs @ (Served RSetup, AwaitingSetup) # ys \<and> AwaitingSetup \<notin> snd ` set (xs @ ys))"
proof
  assume "\<not> idle"
  with assms(1) have "\<exists>e. filter (awaits_setup \<circ> snd) es = [e]" by (simp add: length_Suc_conv)
  then obtain e where "filter (awaits_setup \<circ> snd) es = [e]" ..
  from this [symmetric, unfolded Cons_eq_filter_iff] obtain xs ys where es: "es = xs @ e # ys"
    and e: "awaits_setup (snd e)" and rest: "\<forall>x \<in> set xs. \<not> awaits_setup (snd x)"
      "filter (awaits_setup \<circ> snd) ys = []" by auto
  from assms(2) es e have "e = (Served RSetup, AwaitingSetup)" by (cases e) (auto simp: awaits_setup_iff)
  moreover have "AwaitingSetup \<notin> snd ` set (xs @ ys)"
    using rest by (force simp: awaits_setup_iff filter_empty_conv)
  ultimately show "\<exists>xs ys. es = xs @ (Served RSetup, AwaitingSetup) # ys \<and> AwaitingSetup \<notin> snd ` set (xs @ ys)"
    using es by blast
next
  assume "\<exists>xs ys. es = xs @ (Served RSetup, AwaitingSetup) # ys \<and> AwaitingSetup \<notin> snd ` set (xs @ ys)"
  with assms(1) show "\<not> idle" by (auto split: if_splits)
qed

text \<open>Whether a request is admitted depends on the permits of its own service alone.\<close>

lemma front_arrive_answer:
  "fst (front_arrive f rq) =
     (if admitted (service_of rq) f < CONCURRENCY_LIMIT then None else Some (503, ''API capacity exceeded''))"
  by (simp add: front_arrive_def)

text \<open>The deadline of an active request: it is answered, and its permit is free again.\<close>

lemma deadline_releases:
  assumes act: "fr_active f = xs @ (sv, p) # ys" and cap: "admitted sv f \<le> CONCURRENCY_LIMIT"
  shows "\<exists>f'. front_step lib fl f (Some (408, ''request deadline exceeded'')) f' \<and> fr_active f' = xs @ ys \<and>
    (p = AwaitingSetup \<longrightarrow> st_setup (fr_app f') = Idle) \<and>
    (\<forall>rq. service_of rq = sv \<longrightarrow> fst (front_arrive f' rq) = None)"
proof -
  let ?f = "f\<lparr>fr_app := drop_phase p (fr_app f), fr_active := xs @ ys\<rparr>"
  have "front_step lib fl f (Some (408, ''request deadline exceeded'')) ?f"
    using front_step.deadline [OF act, of lib fl] by (simp add: deadline_answer_def)
  moreover have "admitted sv ?f < CONCURRENCY_LIMIT" using act cap by (simp add: admitted_def)
  ultimately show ?thesis by (intro exI [of _ ?f]) (simp add: front_arrive_answer)
qed

subsection \<open>A sample run\<close>

definition sample_front_lib :: front_lib where
  "sample_front_lib = \<lparr>MAX_REQUEST_BYTES = 65536, json_setup = (\<lambda>_. Ok sample_settings),
     json_attestation = (\<lambda>_. Err (422, [])), json_prepare = (\<lambda>_. Err (422, [])),
     json_finish = (\<lambda>_. Err (422, [])), json_cancel = (\<lambda>_. Err (422, []))\<rparr>"

definition sample_front :: "xpub front" where
  "sample_front = \<lparr>fr_app = (app_init (Some 3))\<lparr>st_setup := Deriving sample_settings\<rparr>,
     fr_active = [(Served RSetup, AwaitingSetup)]\<rparr>"

lemma sample_front_reachable: "front_reachable sample_app_lib sample_front_lib sample_front"
proof -
  let ?st = "app_init (Some 3) :: xpub app_state"
  let ?rq = "\<lparr>hr_verb = HttpPost, hr_path = ''/setup'', hr_body = [123, 125]\<rparr>"
  let ?f = "\<lambda>ps. \<lparr>fr_app = ?st, fr_active = map (Pair (Served RSetup)) ps\<rparr>"
  have rq: "service_of ?rq = Served RSetup"
    by (simp add: service_of_def routes_def answers_verb_def)
  have "front_reachable sample_app_lib sample_front_lib (?f [])"
    using front_reachable.start [OF app_reachable.nitro] by (simp add: app_init_def)
  moreover have "front_step sample_app_lib sample_front_lib (?f []) None (?f [Reading ?rq])"
    by (rule front_step.arrive [of _ ?rq]) (simp add: front_arrive_def CONCURRENCY_LIMIT_def admitted_def rq)
  moreover have "front_step sample_app_lib sample_front_lib (?f [Reading ?rq]) None (?f [Handling (CallSetup sample_settings)])"
    using front_step.extracted [of "?f [Reading ?rq]" "[]" "Served RSetup" ?rq "[]" sample_front_lib
        "CallSetup sample_settings" sample_app_lib]
    by (simp add: dispatch_def routes_def ark_routes_def answers_verb_def cors_allowed_def body_limit_def
        sample_front_lib_def)
  moreover have "front_step sample_app_lib sample_front_lib (?f [Handling (CallSetup sample_settings)]) None sample_front"
    using front_step.waits [of "?f [Handling (CallSetup sample_settings)]" "[]" "Served RSetup" "CallSetup sample_settings"
        "[]" sample_app_lib _ _ _ AwaitingSetup "fr_app sample_front" sample_front_lib]
    by (simp add: sample_front_def setup_begin_def app_init_def sample_settings_valid)
  ultimately show ?thesis by (blast intro: front_reachable.step)
qed

section \<open>Properties\<close>

text \<open>C13: the HTTP front keeps the service's states, bounds each route on its own and never leaks a
  permit or the setup gate. In every state the front can reach, the application state is one the
  application itself can reach; at most sixteen active requests hold a permit of any one service (a
  route, or a fallback), every active request holds one of its own service, and a request is refused
  503 exactly when the sixteen permits of its own service are taken, whatever the load elsewhere. The
  gate of setup is held exactly when one active request is waiting inside the setup handler. A
  request that meets its deadline is answered 408 and frees its permit, so that the next request of
  that service is admitted; if it was waiting in setup, it frees the gate too.\<close>

theorem front_refines_app:
  assumes "front_reachable lib fl f"
  shows "app_reachable lib (fr_app f) \<and>
    (\<forall>sv. length (filter (\<lambda>e. fst e = sv) (fr_active f)) \<le> 16) \<and>
    (\<forall>(sv, p) \<in> set (fr_active f). sv = phase_service p) \<and>
    (\<forall>rq. fst (front_arrive f rq) =
       (if length (filter (\<lambda>e. fst e = service_of rq) (fr_active f)) = 16
        then Some (503, ''API capacity exceeded'') else None)) \<and>
    (st_setup (fr_app f) \<noteq> Idle \<longleftrightarrow> (\<exists>xs ys. fr_active f = xs @ (Served RSetup, AwaitingSetup) # ys \<and>
       AwaitingSetup \<notin> snd ` set (xs @ ys))) \<and>
    (\<forall>xs sv p ys. fr_active f = xs @ (sv, p) # ys \<longrightarrow>
       (\<exists>f'. front_step lib fl f (Some (408, ''request deadline exceeded'')) f' \<and> fr_active f' = xs @ ys \<and>
          (p = AwaitingSetup \<longrightarrow> st_setup (fr_app f') = Idle) \<and>
          (\<forall>rq. service_of rq = sv \<longrightarrow> fst (front_arrive f' rq) = None)))"
proof (intro conjI)
  from front_reachable_inv [OF assms] have inv: "app_reachable lib (fr_app f)"
    "\<And>sv. admitted sv f \<le> CONCURRENCY_LIMIT" "\<forall>(sv, p) \<in> set (fr_active f). sv = phase_service p"
    "length (filter (awaits_setup \<circ> snd) (fr_active f)) = (if st_setup (fr_app f) = Idle then 0 else 1)"
    by (simp_all add: front_inv_def)
  show "app_reachable lib (fr_app f)" "\<forall>(sv, p) \<in> set (fr_active f). sv = phase_service p" by (fact inv)+
  show "\<forall>sv. length (filter (\<lambda>e. fst e = sv) (fr_active f)) \<le> 16"
    using inv(2) by (simp add: admitted_def CONCURRENCY_LIMIT_def)
  then show "\<forall>rq. fst (front_arrive f rq) =
       (if length (filter (\<lambda>e. fst e = service_of rq) (fr_active f)) = 16
        then Some (503, ''API capacity exceeded'') else None)"
    by (simp add: front_arrive_answer admitted_def CONCURRENCY_LIMIT_def order_less_le)
  show "st_setup (fr_app f) \<noteq> Idle \<longleftrightarrow> (\<exists>xs ys. fr_active f = xs @ (Served RSetup, AwaitingSetup) # ys \<and>
       AwaitingSetup \<notin> snd ` set (xs @ ys))"
    using inv(4,3) by (rule gate_holder)
qed (use deadline_releases front_reachable_inv [OF assms] in \<open>blast intro: admitted_bound\<close>)

theorem front_refines_app_witness:
  "front_reachable sample_app_lib sample_front_lib sample_front \<and>
   (\<exists>f'. front_step sample_app_lib sample_front_lib sample_front (Some (408, ''request deadline exceeded'')) f' \<and>
      st_setup (fr_app f') = Idle)"
proof -
  have "fr_active sample_front = [] @ (Served RSetup, AwaitingSetup) # []" by (simp add: sample_front_def)
  with front_refines_app [OF sample_front_reachable] sample_front_reachable show ?thesis by blast
qed

end
