(* ===== verification/Entry.thy ===== *)
theory Entry
  imports App
begin

text \<open>
  The command lines: \<open>src/src/main.rs\<close>, which selects what the service binary does, and
  \<open>src/examples/support/mod.rs\<close>, the options of the example clients and their check of the identity
  file of the enclave they talk to.

  Parameters: the address parser, the debug display of an argument, the file system, and the JSON
  decoder with serde's reading of a named network, in \<open>client_lib\<close>.
\<close>

section \<open>Data\<close>

text \<open>An operating-system string; only some are Unicode.\<close>

datatype os_string = Unicode string | Opaque bytes

fun to_str :: "os_string \<Rightarrow> string option" where
  "to_str (Unicode s) = Some s"
| "to_str (Opaque _) = None"

text \<open>\<open>serde_json::Value\<close>; indexing by a key gives null when the key or the object is missing.\<close>

datatype json = JNull | JBool bool | JNumber string | JString string | JArray "json list"
  | JObject "(string \<times> json) list"

fun is_object :: "json \<Rightarrow> bool" where
  "is_object (JObject _) = True"
| "is_object _ = False"

fun json_index :: "json \<Rightarrow> string \<Rightarrow> json" where
  "json_index (JObject entries) key = (case map_of entries key of None \<Rightarrow> JNull | Some v \<Rightarrow> v)"
| "json_index _ key = JNull"

record client_identity =
  ci_protocol :: string
  ci_mode :: string
  ci_xpub :: xpub
  ci_settings :: json
  ci_signing :: program_profile

record 'a options =
  op_address :: 'a
  op_identity :: os_string
  op_allow_local_dev :: bool

record ('a, 'f) client_lib =
  parse_address :: "string \<Rightarrow> 'a option"
  debug_os_string :: "os_string \<Rightarrow> string"
  file_open :: "os_string \<Rightarrow> 'f option"
  read_to_end :: "'f \<Rightarrow> nat \<Rightarrow> bytes result"
  client_identity_from_slice :: "bytes \<Rightarrow> client_identity option"
  network_from_value :: "json \<Rightarrow> network option"

definition MAX_IDENTITY_BYTES :: nat where "MAX_IDENTITY_BYTES = 64 * 1024"

section \<open>Operations\<close>

subsection \<open>The service binary\<close>

text \<open>What \<open>main\<close> does with its arguments; \<open>local_dev\<close> is the build feature.\<close>

datatype entry_action = PrintHelp | PrintProfile string | Run "int option"

definition main_entry ::
  "bool \<Rightarrow> nsm_lib \<Rightarrow> (program_profile \<Rightarrow> string result) \<Rightarrow> deployment_lib \<Rightarrow> string list \<Rightarrow>
     entry_action result" where
  "main_entry local_dev lib profile_to_json dl args =
     (if 1 < length args then Err (Msg ''unexpected arguments; use --help'')
      else case args of
        [] \<Rightarrow> bind_res (fst (nsm_open lib)) (\<lambda>nsm. Ok (Run (Some nsm)))
      | command # _ \<Rightarrow>
          if command = ''--help'' then Ok PrintHelp
          else if command = ''--program-profile''
          then bind_res (profile_to_json (profile_of_deployment dl)) (\<lambda>text. Ok (PrintProfile text))
          else if local_dev \<and> command = ''--local-dev'' then Ok (Run None)
          else Err (Msg ''unexpected arguments; use --help''))"

subsection \<open>Client options\<close>

text \<open>The argument loop of \<open>options\<close>; \<open>Ok None\<close> after \<open>--help\<close>.\<close>

fun options_loop ::
  "('a, 'f) client_lib \<Rightarrow> 'a option \<Rightarrow> os_string option \<Rightarrow> bool \<Rightarrow> os_string list \<Rightarrow>
     'a options option result" where
  "options_loop lib address identity dev [] =
     bind_res (ok_or (Msg ''--address is required; use --help'') address) (\<lambda>a.
     bind_res (ok_or (Msg ''--identity is required; use --help'') identity) (\<lambda>i.
     Ok (Some \<lparr>op_address = a, op_identity = i, op_allow_local_dev = dev\<rparr>)))"
| "options_loop lib address identity dev (argument # rest) =
     (if to_str argument = Some ''--help'' then Ok None
      else if to_str argument = Some ''--address'' \<and> address = None then
        (case rest of
           [] \<Rightarrow> Err (Msg ''--address needs IP:PORT'')
         | value # rest' \<Rightarrow>
             bind_res (ok_or (Msg ''address must be UTF-8'') (to_str value)) (\<lambda>text.
             bind_res (ok_or (Msg ''address must be an explicit numeric SocketAddr'')
                 (parse_address lib text)) (\<lambda>a.
             options_loop lib (Some a) identity dev rest')))
      else if to_str argument = Some ''--identity'' \<and> identity = None then
        (case rest of
           [] \<Rightarrow> Err (Msg ''--identity needs FILE'')
         | file # rest' \<Rightarrow> options_loop lib address (Some file) dev rest')
      else if to_str argument = Some ''--allow-local-dev'' \<and> \<not> dev then
        options_loop lib address identity True rest
      else Err (Msg (''unknown or repeated argument: '' @ debug_os_string lib argument @ ''; use --help'')))"

definition options_of :: "('a, 'f) client_lib \<Rightarrow> os_string list \<Rightarrow> 'a options option result" where
  "options_of lib args = options_loop lib None None False args"

subsection \<open>Client identity\<close>

text \<open>The match on the mode in \<open>load_identity\<close>.\<close>

definition check_mode :: "('a, 'f) client_lib \<Rightarrow> bool \<Rightarrow> client_identity \<Rightarrow> unit result" where
  "check_mode lib allow_local_dev identity =
     (if ci_mode identity = ''nitro'' then
        if \<not> is_object (ci_settings identity) then Err (Msg ''Nitro identity requires settings'')
        else
          bind_res (ok_or (Msg ''Nitro identity settings need a named network'')
              (network_from_value lib (json_index (ci_settings identity) ''network''))) (\<lambda>network.
          if xpub_network (ci_xpub identity) \<noteq> kind_of_network network
          then Err (Msg ''Nitro identity xpub does not match its settings network'')
          else Ok ())
      else if ci_mode identity = ''local-dev'' \<and> allow_local_dev then
        if ci_settings identity \<noteq> JNull then Err (Msg ''local-dev settings must be null'')
        else if xpub_network (ci_xpub identity) \<noteq> kind_of_network Regtest
        then Err (Msg ''local-dev requires a test-network xpub'')
        else Ok ()
      else Err (Msg ''expected nitro identity (local-dev requires --allow-local-dev)''))"

definition load_identity ::
  "('a, 'f) client_lib \<Rightarrow> deployment_lib \<Rightarrow> 'a options \<Rightarrow> client_identity result" where
  "load_identity lib dl opts =
     bind_res (ok_or (Msg ''opening identity file'') (file_open lib (op_identity opts))) (\<lambda>file.
     bind_res (read_to_end lib file (MAX_IDENTITY_BYTES + 1)) (\<lambda>bs.
     if MAX_IDENTITY_BYTES < length bs then Err (Msg ''identity exceeds 64 KiB'')
     else
       bind_res (ok_or (Msg ''parsing identity JSON'') (client_identity_from_slice lib bs)) (\<lambda>identity.
       if ci_protocol identity \<noteq> IDENTITY_PROTOCOL then Err (Msg ''unsupported identity protocol'')
       else if ci_signing identity \<noteq> profile_of_deployment dl
       then Err (Msg ''identity has an unexpected program profile'')
       else bind_res (check_mode lib (op_allow_local_dev opts) identity) (\<lambda>_. Ok identity))))"

section \<open>Specification\<close>

text \<open>An option as the user writes it.\<close>

datatype flag = FAddress os_string | FIdentity os_string | FLocalDev

fun render :: "flag \<Rightarrow> os_string list" where
  "render (FAddress v) = [Unicode ''--address'', v]"
| "render (FIdentity f) = [Unicode ''--identity'', f]"
| "render FLocalDev = [Unicode ''--allow-local-dev'']"

fun is_address :: "flag \<Rightarrow> bool" where
  "is_address (FAddress _) = True" | "is_address _ = False"

fun is_identity :: "flag \<Rightarrow> bool" where
  "is_identity (FIdentity _) = True" | "is_identity _ = False"

text \<open>The flags still to come complete what has been read to \<open>opts\<close>, each exactly once.\<close>

definition completes ::
  "('a, 'f) client_lib \<Rightarrow> 'a option \<Rightarrow> os_string option \<Rightarrow> bool \<Rightarrow> flag list \<Rightarrow> 'a options \<Rightarrow> bool" where
  "completes lib address identity dev flags opts \<longleftrightarrow>
     (case address of
        Some a \<Rightarrow> filter is_address flags = [] \<and> op_address opts = a
      | None \<Rightarrow> \<exists>text. filter is_address flags = [FAddress (Unicode text)] \<and>
          parse_address lib text = Some (op_address opts)) \<and>
     (case identity of
        Some i \<Rightarrow> filter is_identity flags = [] \<and> op_identity opts = i
      | None \<Rightarrow> filter is_identity flags = [FIdentity (op_identity opts)]) \<and>
     (if dev then FLocalDev \<notin> set flags \<and> op_allow_local_dev opts
      else filter (\<lambda>x. x = FLocalDev) flags = (if op_allow_local_dev opts then [FLocalDev] else []))"

text \<open>Documented behaviour of the libraries on both sides of an identity file: the client decodes
  what the enclave encoded, a serialized \<open>Settings\<close> is an object that names its network, and
  extended keys keep the network of their seed.\<close>

definition client_view :: "(settings \<Rightarrow> json) \<Rightarrow> identity \<Rightarrow> client_identity" where
  "client_view settings_value i = \<lparr>ci_protocol = id_protocol i, ci_mode = id_mode i, ci_xpub = id_xpub i,
     ci_settings = (case id_settings i of None \<Rightarrow> JNull | Some s \<Rightarrow> settings_value s),
     ci_signing = id_signing i\<rparr>"

definition identity_codec ::
  "('m, 'i, 'o) app_lib \<Rightarrow> ('a, 'f) client_lib \<Rightarrow> (settings \<Rightarrow> json) \<Rightarrow> bool" where
  "identity_codec lib clib settings_value \<longleftrightarrow>
     (\<forall>i text. identity_to_json lib i = Ok text \<longrightarrow>
        client_identity_from_slice clib (str_bytes text) = Some (client_view settings_value i)) \<and>
     (\<forall>s. is_object (settings_value s) \<and>
        network_from_value clib (json_index (settings_value s) ''network'') = Some (st_network s))"

definition bip32_networks :: "('m, 'i, 'o) app_lib \<Rightarrow> bool" where
  "bip32_networks lib \<longleftrightarrow>
     (\<forall>net seed root. xpriv_new_master (ap_keys lib) net seed = Ok root \<longrightarrow>
        xprv_network root = kind_of_network net) \<and>
     (\<forall>root. xpub_network (xpub_from_priv (env_ark (ap_env lib)) root) = xprv_network root) \<and>
     (\<forall>root es orc. oracle_new lib root es = Ok orc \<longrightarrow>
        oracle_public_root lib orc = xpub_from_priv (env_ark (ap_env lib)) root)"

section \<open>Lemmas\<close>

lemma to_str_eq_Some [simp]: "to_str x = Some s \<longleftrightarrow> x = Unicode s"
  by (cases x) auto

lemma completes_Nil [simp]:
  "completes lib address identity dev [] opts \<longleftrightarrow>
     address = Some (op_address opts) \<and> identity = Some (op_identity opts) \<and> op_allow_local_dev opts = dev"
  by (auto simp: completes_def split: option.splits)

lemma completes_Cons [simp]:
  "completes lib address identity dev (FAddress v # flags) opts \<longleftrightarrow>
     address = None \<and> (\<exists>text a. v = Unicode text \<and> parse_address lib text = Some a \<and>
       completes lib (Some a) identity dev flags opts)"
  "completes lib address identity dev (FIdentity f # flags) opts \<longleftrightarrow>
     identity = None \<and> completes lib address (Some f) dev flags opts"
  "completes lib address identity dev (FLocalDev # flags) opts \<longleftrightarrow>
     \<not> dev \<and> completes lib address identity True flags opts"
  by (auto simp: completes_def filter_empty_conv split: option.splits if_splits)

text \<open>What the loop accepts, from any position in the command line.\<close>

lemma options_loop_complete:
  "completes lib address identity dev flags opts \<Longrightarrow>
   options_loop lib address identity dev (concat (map render flags)) = Ok (Some opts)"
proof (induction flags arbitrary: address identity dev)
  case (Cons flag flags)
  then show ?case by (cases flag) auto
qed auto

lemma options_loop_sound:
  "options_loop lib address identity dev args = Ok (Some opts) \<Longrightarrow>
   \<exists>flags. args = concat (map render flags) \<and> completes lib address identity dev flags opts"
proof (induction lib address identity dev args rule: options_loop.induct)
  case (1 lib address identity dev)
  then show ?case by (intro exI [of _ "[]"]) (auto simp: bind_res_eq_Ok ok_or_eq_Ok)
next
  case (2 lib address identity dev argument rest)
  consider (a) "argument = Unicode ''--address''" "address = None"
    | (i) "argument = Unicode ''--identity''" "identity = None"
    | (d) "argument = Unicode ''--allow-local-dev''" "\<not> dev"
    using 2(4) by (auto split: if_splits)
  then show ?case
  proof cases
    case a
    with 2(4) obtain adr x rest' where v: "rest = Unicode adr # rest'" "parse_address lib adr = Some x"
      "options_loop lib (Some x) identity dev rest' = Ok (Some opts)"
      by (auto simp: bind_res_eq_Ok ok_or_eq_Ok split: list.splits)
    from 2(1) a v obtain flags where "rest' = concat (map render flags)"
      "completes lib (Some x) identity dev flags opts" by auto
    with a v show ?thesis by (intro exI [of _ "FAddress (Unicode adr) # flags"]) auto
  next
    case i
    with 2(4) obtain f rest' where v: "rest = f # rest'"
      "options_loop lib address (Some f) dev rest' = Ok (Some opts)" by (auto split: list.splits)
    from 2(2) i v obtain flags where "rest' = concat (map render flags)"
      "completes lib address (Some f) dev flags opts" by auto
    with i v show ?thesis by (intro exI [of _ "FIdentity f # flags"]) auto
  next
    case d
    with 2(3,4) obtain flags where "rest = concat (map render flags)"
      "completes lib address identity True flags opts" by auto
    with d show ?thesis by (intro exI [of _ "FLocalDev # flags"]) auto
  qed
qed

text \<open>At the start of the command line, the flags are the required ones, in any order.\<close>

lemma mset_flags:
  "mset flags = mset (filter is_address flags) + mset (filter is_identity flags) +
     mset (filter (\<lambda>x. x = FLocalDev) flags)"
proof (induction flags)
  case (Cons x flags)
  then show ?case by (cases x) auto
qed simp

lemma filter_singleton: "filter P xs = [y] \<longleftrightarrow> filter_mset P (mset xs) = {#y#}"
  by (metis mset_filter mset_single_iff_right)

lemma completes_start:
  "completes lib None None False flags opts \<longleftrightarrow>
     (\<exists>text. parse_address lib text = Some (op_address opts) \<and>
        mset flags = mset ([FAddress (Unicode text), FIdentity (op_identity opts)] @
          (if op_allow_local_dev opts then [FLocalDev] else [])))"
  (is "?L \<longleftrightarrow> ?R")
proof
  assume ?L
  then obtain adr where "parse_address lib adr = Some (op_address opts)"
    "filter is_address flags = [FAddress (Unicode adr)]"
    "filter is_identity flags = [FIdentity (op_identity opts)]"
    "filter (\<lambda>x. x = FLocalDev) flags = (if op_allow_local_dev opts then [FLocalDev] else [])"
    by (auto simp: completes_def)
  with mset_flags [of flags] show ?R by (intro exI [of _ adr]) simp
next
  assume ?R
  then show ?L
    by (auto simp: completes_def filter_singleton filter_empty_conv simp flip: set_mset_mset split: if_splits)
qed

text \<open>The fields of a served identity, from the invariant of the service.\<close>

lemma served_identity:
  assumes "app_reachable lib st" and "st_identity st = Some identity" and "bip32_networks lib"
  obtains i signer net where "identity_to_json lib i = Ok identity" "st_ark_signer st = Some signer"
    "id_protocol i = IDENTITY_PROTOCOL" "id_signing i = profile_of_deployment (env_deploy (ap_env lib))"
    "id_mode i = (if st_nsm st \<noteq> None then ''nitro'' else ''local-dev'')"
    "id_xpub i = as_public_root signer" "xpub_network (id_xpub i) = kind_of_network net"
    "case id_settings i of Some s \<Rightarrow> st_nsm st \<noteq> None \<and> st_network s = net
      | None \<Rightarrow> st_nsm st = None \<and> net = Regtest"
proof -
  from app_invD(6) [OF app_reachable_inv [OF assms(1)] assms(2)] obtain root s orc signer0 signer tr where
    b: "built lib st root s orc signer0 identity" and sg: "st_ark_signer st = Some signer"
      "signer_run (ap_env lib) root tr signer" by (auto simp: published_def)
  let ?i = "make_identity lib st orc s"
  from b assms(3) have "oracle_public_root lib orc = xpub_from_priv (env_ark (ap_env lib)) root"
    by (auto simp: built_def program_oracle_def bind_res_eq_Ok bip32_networks_def)
  with run_static [OF sg(2)] have x: "id_xpub ?i = as_public_root signer"
      "xpub_network (id_xpub ?i) = xprv_network root"
    using assms(3) by (simp_all add: make_identity_def bip32_networks_def)
  from b have r: "rooted lib (st_nsm st) s root" by (simp add: built_def)
  define net where "net = (case s of Some s' \<Rightarrow> st_network s' | None \<Rightarrow> Regtest)"
  have "xprv_network root = kind_of_network net"
    using r assms(3) derive_root_master [of "ap_keys lib" _ root]
    by (fastforce simp: rooted_def bip32_networks_def net_def split: option.splits)
  with x b r sg show thesis
    by (intro that [of ?i signer net])
      (auto simp: built_def rooted_def make_identity_def net_def split: option.splits)
qed

subsection \<open>A sample client\<close>

fun network_name :: "network \<Rightarrow> string" where
  "network_name Bitcoin = ''bitcoin''"
| "network_name Testnet = ''testnet''"
| "network_name Testnet4 = ''testnet4''"
| "network_name Signet = ''signet''"
| "network_name Regtest = ''regtest''"

definition sample_settings_value :: "settings \<Rightarrow> json" where
  "sample_settings_value s = JObject [(''network'', JString (network_name (st_network s)))]"

definition sample_client :: "(nat, unit) client_lib" where
  "sample_client = \<lparr>parse_address = (\<lambda>s. Some (length s)), debug_os_string = (\<lambda>_. ''argument''),
     file_open = (\<lambda>_. Some ()), read_to_end = (\<lambda>_ n. Ok (take n (str_bytes sample_identity))),
     client_identity_from_slice = (\<lambda>_. Some (client_view sample_settings_value sample_served)),
     network_from_value = (\<lambda>v. case v of
         JString s \<Rightarrow> List.find (\<lambda>n. network_name n = s) [Bitcoin, Testnet, Testnet4, Signet, Regtest]
       | _ \<Rightarrow> None)\<rparr>"

definition sample_options :: "nat options" where
  "sample_options = \<lparr>op_address = 4, op_identity = Unicode ''identity.json'', op_allow_local_dev = False\<rparr>"

lemma sample_codec_laws:
  "identity_codec sample_app_lib sample_client sample_settings_value" "bip32_networks sample_app_lib"
proof -
  have "List.find (\<lambda>m. network_name m = network_name n) [Bitcoin, Testnet, Testnet4, Signet, Regtest] = Some n"
    for n by (cases n) simp_all
  then show "identity_codec sample_app_lib sample_client sample_settings_value"
    by (simp add: identity_codec_def sample_app_lib_def sample_client_def sample_settings_value_def)
  show "bip32_networks sample_app_lib"
    by (simp add: bip32_networks_def sample_app_lib_def sample_keys_lib_def sample_env_def sample_ark_def)
qed

lemma sample_load_identity:
  "load_identity sample_client sample_deployment sample_options =
     Ok (client_view sample_settings_value sample_served)"
  by (simp add: load_identity_def sample_client_def sample_options_def MAX_IDENTITY_BYTES_def client_view_def
      sample_served_def sample_env_def IDENTITY_PROTOCOL_def check_mode_def sample_settings_value_def
      sample_settings_def sample_app_root_def sample_ark_def)

section \<open>Properties\<close>

text \<open>A production binary serves only inside a measured enclave. Without the local-dev feature,
  the entry point reaches the service exactly for the empty command line and an open security module
  whose three measurement registers are locked and nonzero; no argument selects an unattested run.\<close>

theorem production_runs_measured:
  "main_entry False lib js dl args = Ok (Run nsm) \<longleftrightarrow>
     args = [] \<and> nsm = Some (nsm_init lib) \<and> 0 \<le> nsm_init lib \<and>
     list_all (\<lambda>i. measured (nsm_process_request lib (nsm_init lib) (DescribePCR i))) [0, 1, 2]"
  by (auto simp: main_entry_def bind_res_eq_Ok nsm_open_eq_Ok list_all_iff split: list.splits if_splits)

text \<open>The client accepts exactly the documented command lines: one address that parses, one identity
  file and at most one \<open>--allow-local-dev\<close>, in any order, and nothing else; the options are the values
  given.\<close>

theorem options_grammar:
  "options_of lib args = Ok (Some opts) \<longleftrightarrow>
     (\<exists>flags adr. args = concat (map render flags) \<and> parse_address lib adr = Some (op_address opts) \<and>
        mset flags = mset ([FAddress (Unicode adr), FIdentity (op_identity opts)] @
          (if op_allow_local_dev opts then [FLocalDev] else [])))"
  unfolding options_of_def
  using options_loop_sound options_loop_complete completes_start by metis

text \<open>C30: enclave and client agree on the identity. In every reachable state, the file with the string
  that \<open>/public-key\<close> serves passes the client's check (a local-dev identity only with the flag, and any
  identity only up to 64 KiB), and the extended public key the client then uses is the root that the
  Ark signer demands of its requests.\<close>

theorem served_identity_accepted:
  assumes "app_reachable lib st" and "public_key st = (200, identity)"
    and "identity_codec lib clib settings_value" and "bip32_networks lib"
    and "file_open clib (op_identity opts) = Some file"
    and "read_to_end clib file (MAX_IDENTITY_BYTES + 1) = Ok (str_bytes identity)"
    and "length identity \<le> 65536" and "st_nsm st = None \<longrightarrow> op_allow_local_dev opts"
  shows "\<exists>ci signer. load_identity clib (env_deploy (ap_env lib)) opts = Ok ci \<and>
    st_ark_signer st = Some signer \<and> ci_xpub ci = as_public_root signer \<and>
    ci_mode ci = (if st_nsm st \<noteq> None then ''nitro'' else ''local-dev'')"
proof -
  from assms(2) have j: "st_identity st = Some identity" by (simp add: public_key_def split: option.splits)
  obtain i signer net where i: "identity_to_json lib i = Ok identity" "st_ark_signer st = Some signer"
    "id_protocol i = IDENTITY_PROTOCOL" "id_signing i = profile_of_deployment (env_deploy (ap_env lib))"
    "id_mode i = (if st_nsm st \<noteq> None then ''nitro'' else ''local-dev'')"
    "id_xpub i = as_public_root signer" "xpub_network (id_xpub i) = kind_of_network net"
    "case id_settings i of Some s \<Rightarrow> st_nsm st \<noteq> None \<and> st_network s = net
      | None \<Rightarrow> st_nsm st = None \<and> net = Regtest"
    by (rule served_identity [OF assms(1) j assms(4)])
  from assms(3) have sv: "is_object (settings_value s)"
    "network_from_value clib (json_index (settings_value s) ''network'') = Some (st_network s)" for s
    by (simp_all add: identity_codec_def)
  have "check_mode clib (op_allow_local_dev opts) (client_view settings_value i) = Ok ()"
    using i(5,7,8) sv assms(8)
    by (cases "id_settings i") (simp_all add: check_mode_def client_view_def)
  moreover have "client_identity_from_slice clib (str_bytes identity) = Some (client_view settings_value i)"
    using assms(3) i(1) by (simp add: identity_codec_def)
  ultimately have "load_identity clib (env_deploy (ap_env lib)) opts = Ok (client_view settings_value i)"
    using assms(5-7) i(3,4)
    by (simp add: load_identity_def bind_res_eq_Ok ok_or_eq_Ok MAX_IDENTITY_BYTES_def client_view_def)
  with i show ?thesis by (auto simp: client_view_def)
qed

theorem served_identity_accepted_witness:
  "public_key sample_ready = (200, sample_identity) \<and>
   (\<exists>ci. load_identity sample_client (env_deploy (ap_env sample_app_lib)) sample_options = Ok ci \<and>
      ci_mode ci = ''nitro'')"
proof -
  have k: "public_key sample_ready = (200, sample_identity)" by (simp add: public_key_def sample_ready_def)
  have r: "read_to_end sample_client () (MAX_IDENTITY_BYTES + 1) = Ok (str_bytes sample_identity)"
    by (simp add: sample_client_def MAX_IDENTITY_BYTES_def)
  have "st_nsm sample_ready \<noteq> None" by (simp add: sample_ready_def app_init_def)
  moreover have "file_open sample_client (op_identity sample_options) = Some ()" by (simp add: sample_client_def)
  ultimately show ?thesis
    using served_identity_accepted [OF sample_reachable k sample_codec_laws _ r, of sample_options] k by auto
qed

end
