(* ===== verification/Guest.thy ===== *)
theory Guest
  imports Evaluator
begin

text \<open>
  The guest side of the evaluation ABI, \<open>src/examples/vault/guest.rs\<close>, shared by both example
  predicates: the fixed input arena with its bump allocator, the checked access to host-written
  arguments, the result mapping and the bounded \<open>Reader\<close>.

  Guests are compiled for \<open>wasm32\<close> without overflow checks: \<open>usize\<close> has 32 bits, the
  \<open>checked\<close> operations are checked at that width and plain arithmetic wraps. A guest instance is
  its linear memory, the address of the arena, the arena's fill level and the memory size.
  \<open>guest_runtime\<close> plugs a guest into the host's runtime interface, and the instance's memory
  interprets the host's \<open>linear_memory\<close> contract.
\<close>

section \<open>Data\<close>

definition MAX_VIEW :: nat where "MAX_VIEW = 1048576"
definition MAX_ARGUMENT :: nat where "MAX_ARGUMENT = 65536"
definition INPUT_CAPACITY :: nat where "INPUT_CAPACITY = MAX_VIEW + 3 * MAX_ARGUMENT"

record guest =
  g_mem :: "nat \<Rightarrow> byte"
  g_input :: nat
  g_used :: nat
  g_size :: nat

record arguments =
  ar_program :: bytes
  ar_parameters :: bytes
  ar_view :: bytes
  ar_witness :: bytes

record reader =
  rd_bytes :: bytes
  rd_offset :: nat

section \<open>Operations\<close>

text \<open>\<open>usize::checked_add\<close> of the guest.\<close>

definition checked_add_wasm :: "nat \<Rightarrow> nat \<Rightarrow> nat option" where
  "checked_add_wasm a b = (if a + b < 2 ^ 32 then Some (a + b) else None)"

definition sapio_alloc_v1 :: "guest \<Rightarrow> u32 \<Rightarrow> u32 \<times> guest" where
  "sapio_alloc_v1 g len =
     (case checked_add_wasm (g_used g) (unat len) of
        None \<Rightarrow> (0, g)
      | Some end_pos \<Rightarrow>
          if INPUT_CAPACITY < end_pos then (0, g)
          else (word_of_nat (g_input g + g_used g), g\<lparr>g_used := end_pos\<rparr>))"

text \<open>Reading and host writes of the linear memory.\<close>

definition mem_get :: "guest \<Rightarrow> nat \<Rightarrow> nat \<Rightarrow> bytes" where
  "mem_get g a n = map (g_mem g) [a..<a + n]"

definition mem_put :: "guest \<Rightarrow> nat \<Rightarrow> bytes \<Rightarrow> (string, guest) res" where
  "mem_put g a bs =
     (if a + length bs \<le> g_size g
      then Ok (g\<lparr>g_mem := (\<lambda>i. if a \<le> i \<and> i < a + length bs then bs ! (i - a) else g_mem g i)\<rparr>)
      else Err ''memory access out of bounds'')"

definition input_slice :: "guest \<Rightarrow> u32 \<Rightarrow> u32 \<Rightarrow> bytes option" where
  "input_slice g pointer len =
     (if len = 0 then Some []
      else if unat pointer < g_input g then None
      else Option.bind (checked_add_wasm (unat pointer - g_input g) (unat len)) (\<lambda>end_pos.
        if g_used g < end_pos then None else Some (mem_get g (unat pointer) (unat len))))"

definition evaluate_guest :: "(guest \<Rightarrow> arguments \<Rightarrow> bool option) \<Rightarrow> guest \<Rightarrow> u32 list \<Rightarrow> u32" where
  "evaluate_guest evaluator g pointers =
     (case pointers of
        [pp, pl, ap, al, vp, vl, wp, wl] \<Rightarrow>
          if list_ex (\<lambda>len. MAX_ARGUMENT < unat len) [pl, al, wl] \<or> MAX_VIEW < unat vl then - 1
          else (case input_slice g pp pl of None \<Rightarrow> - 1 | Some program \<Rightarrow>
            (case input_slice g ap al of None \<Rightarrow> - 1 | Some parameters \<Rightarrow>
            (case input_slice g vp vl of None \<Rightarrow> - 1 | Some view \<Rightarrow>
            (case input_slice g wp wl of None \<Rightarrow> - 1 | Some witness \<Rightarrow>
            (case evaluator g \<lparr>ar_program = program, ar_parameters = parameters, ar_view = view,
                ar_witness = witness\<rparr> of
               Some True \<Rightarrow> 1 | Some False \<Rightarrow> 0 | None \<Rightarrow> - 1)))))
      | _ \<Rightarrow> - 1)"

definition reader_new :: "bytes \<Rightarrow> reader" where
  "reader_new bs = \<lparr>rd_bytes = bs, rd_offset = 0\<rparr>"

definition reader_take :: "reader \<Rightarrow> nat \<Rightarrow> (bytes \<times> reader) option" where
  "reader_take r len =
     Option.bind (checked_add_wasm (rd_offset r) len) (\<lambda>end_pos.
       if end_pos \<le> length (rd_bytes r)
       then Some (take len (drop (rd_offset r) (rd_bytes r)), r\<lparr>rd_offset := end_pos\<rparr>)
       else None)"

definition reader_u32 :: "reader \<Rightarrow> (u32 \<times> reader) option" where
  "reader_u32 r = map_option (\<lambda>(bs, r'). (u32_from_le bs, r')) (reader_take r 4)"

definition is_finished :: "reader \<Rightarrow> bool" where
  "is_finished r \<longleftrightarrow> rd_offset r = length (rd_bytes r)"

text \<open>\<open>sha\<close> is the imported host function; \<open>None\<close> is a non-zero status.\<close>

definition guest_hash :: "(bytes \<Rightarrow> bytes option) \<Rightarrow> bytes \<Rightarrow> nat \<Rightarrow> bytes option" where
  "guest_hash sha bs output_len = (if output_len \<noteq> 32 then None else sha bs)"

text \<open>A guest with the given predicate, as the host sees it: the module parser is third-party.\<close>

definition guest_runtime ::
  "(bytes \<Rightarrow> (string, payload) res list) \<Rightarrow> (guest \<Rightarrow> arguments \<Rightarrow> bool option) \<Rightarrow> guest \<Rightarrow>
     (unit, guest) wasm_runtime" where
  "guest_runtime parser evaluator fresh =
     \<lparr>rt_parse_all = parser, rt_module_new = (\<lambda>_. Ok ()), rt_instance_new = (\<lambda>_ _. Ok fresh),
      rt_bind_crypto = Ok, rt_get_memory = (\<lambda>_ _. Ok ()),
      rt_get_alloc = (\<lambda>_ nm. if nm = ''sapio_alloc_v1'' then Ok () else Err ''missing export''),
      rt_get_evaluate = (\<lambda>_ nm. if nm = ''sapio_evaluate_v1'' then Ok () else Err ''missing export''),
      rt_call_alloc = (\<lambda>g _ len. case sapio_alloc_v1 g len of (p, g') \<Rightarrow> (Ok p, g')),
      rt_call_evaluate = (\<lambda>g _ pointers. (Ok (evaluate_guest evaluator g pointers), g)),
      rt_exhausted = (\<lambda>_. False), rt_data_size = g_size, rt_write = mem_put\<rparr>"

section \<open>Specification\<close>

text \<open>A fresh instance: empty arena, inside a 32-bit memory, not at the null address.\<close>

definition fresh_guest :: "guest \<Rightarrow> bool" where
  "fresh_guest g \<longleftrightarrow> g_used g = 0 \<and> 0 < g_input g \<and> g_input g + INPUT_CAPACITY \<le> g_size g \<and> g_size g \<le> 2 ^ 32"

text \<open>The ranges the bump allocator hands out for a list of inputs.\<close>

fun arena_ranges :: "nat \<Rightarrow> bytes list \<Rightarrow> (nat \<times> nat) list" where
  "arena_ranges a [] = []"
| "arena_ranges a (b # bs) =
     (if b = [] then (0, 0) # arena_ranges a bs
      else (a, a + length b) # arena_ranges (a + length b) bs)"

text \<open>A reader positioned at the suffix \<open>ys\<close> of its bytes.\<close>

definition reader_at :: "bytes \<Rightarrow> bytes \<Rightarrow> reader" where
  "reader_at bs ys = \<lparr>rd_bytes = bs, rd_offset = length bs - length ys\<rparr>"

definition sample_guest :: guest where
  "sample_guest = \<lparr>g_mem = (\<lambda>_. 0), g_input = 1024, g_used = 0, g_size = 4194304\<rparr>"

section \<open>Lemmas\<close>

subsection \<open>The memory contract\<close>

lemma length_mem_get [simp]: "length (mem_get g a n) = n"
  by (simp add: mem_get_def)

lemma mem_put_eq_Ok:
  "mem_put g a bs = Ok g' \<longleftrightarrow> a + length bs \<le> g_size g \<and>
     g' = g\<lparr>g_mem := (\<lambda>i. if a \<le> i \<and> i < a + length bs then bs ! (i - a) else g_mem g i)\<rparr>"
  by (auto simp: mem_put_def)

interpretation lm: linear_memory mem_put mem_get
proof
  fix g a bs g' b n
  show "mem_get g a 0 = []" by (simp add: mem_get_def)
  assume wr: "mem_put g a bs = Ok g'"
  show "mem_get g' a (length bs) = bs"
    using wr by (auto simp: mem_put_eq_Ok mem_get_def intro!: nth_equalityI)
  assume "b + n \<le> a \<or> a + length bs \<le> b"
  then show "mem_get g' b n = mem_get g b n"
    using wr by (auto simp: mem_put_eq_Ok mem_get_def)
qed

text \<open>Host writes change nothing but the bytes.\<close>

lemma write_all_keeps:
  "write_all mem_put g ws = Ok g' \<Longrightarrow>
   g_input g' = g_input g \<and> g_used g' = g_used g \<and> g_size g' = g_size g"
  by (induction mem_put g ws rule: write_all.induct) (auto simp: bind_res_eq_Ok mem_put_eq_Ok)

lemma write_all_in_bounds:
  assumes "\<forall>(bs, r) \<in> set ws. fst r + length bs \<le> g_size g"
  shows "\<exists>g'. write_all mem_put g ws = Ok g'"
  using assms
proof (induction ws arbitrary: g)
  case Nil
  then show ?case by simp
next
  case (Cons w ws)
  obtain bs r where w: "w = (bs, r)" by (cases w)
  with Cons.prems obtain g1 where g1: "mem_put g (fst r) bs = Ok g1" by (auto simp: mem_put_def)
  then have "g_size g1 = g_size g" by (auto simp: mem_put_eq_Ok)
  with Cons.IH [of g1] Cons.prems g1 show ?case by (auto simp: w)
qed

lemma guest_runtime_simps [simp]:
  "rt_call_alloc (guest_runtime parser evaluator fresh) g nm len =
     (case sapio_alloc_v1 g len of (p, g') \<Rightarrow> (Ok p, g'))"
  "rt_call_evaluate (guest_runtime parser evaluator fresh) g nm pointers =
     (Ok (evaluate_guest evaluator g pointers), g)"
  "rt_data_size (guest_runtime parser evaluator fresh) = g_size"
  "rt_write (guest_runtime parser evaluator fresh) = mem_put"
  "rt_parse_all (guest_runtime parser evaluator fresh) = parser"
  "rt_module_new (guest_runtime parser evaluator fresh) m = Ok ()"
  "rt_instance_new (guest_runtime parser evaluator fresh) version c = Ok fresh"
  "rt_bind_crypto (guest_runtime parser evaluator fresh) = Ok"
  "rt_get_memory (guest_runtime parser evaluator fresh) g nm = Ok ()"
  "rt_get_alloc (guest_runtime parser evaluator fresh) g ''sapio_alloc_v1'' = Ok ()"
  "rt_get_evaluate (guest_runtime parser evaluator fresh) g ''sapio_evaluate_v1'' = Ok ()"
  by (simp_all add: guest_runtime_def)

subsection \<open>The arena\<close>

lemma sapio_alloc_v1_fits:
  assumes "g_used g + n \<le> INPUT_CAPACITY" and "n < 2 ^ 32"
  shows "sapio_alloc_v1 g (word_of_nat n) =
    (word_of_nat (g_input g + g_used g), g\<lparr>g_used := g_used g + n\<rparr>)"
proof -
  have "g_used g + n < 2 ^ 32"
    using assms(1) by (simp add: INPUT_CAPACITY_def MAX_VIEW_def MAX_ARGUMENT_def)
  then show ?thesis
    using assms by (simp add: sapio_alloc_v1_def checked_add_wasm_def unat_word_of_nat_u32)
qed

lemma length_arena_ranges [simp]: "length (arena_ranges a bs) = length bs"
  by (induction a bs rule: arena_ranges.induct) auto

lemma arena_ranges_zip:
  assumes "(b, r) \<in> set (zip bs (arena_ranges a bs))"
  shows "snd r = fst r + length b \<and>
    (b = [] \<and> r = (0, 0) \<or> b \<noteq> [] \<and> a \<le> fst r \<and> snd r \<le> a + sum_list (map length bs))"
  using assms by (induction a bs rule: arena_ranges.induct) (fastforce split: if_splits)+

lemma alloc_all_arena:
  assumes "g_used g + sum_list (map length bs) \<le> INPUT_CAPACITY"
    and "g_input g + INPUT_CAPACITY \<le> g_size g" and "g_size g \<le> 2 ^ 32"
    and "\<forall>r \<in> set ranges. fst r < snd r \<longrightarrow> snd r \<le> g_input g + g_used g"
  shows "alloc_all (guest_runtime parser evaluator fresh) nm g ranges bs =
    Ok (ranges @ arena_ranges (g_input g + g_used g) bs,
        g\<lparr>g_used := g_used g + sum_list (map length bs)\<rparr>)"
  using assms
proof (induction bs arbitrary: g ranges)
  case Nil
  then show ?case by simp
next
  case (Cons b bs)
  let ?a = "g_input g + g_used g"
  show ?case
  proof (cases "b = []")
    case True
    with Cons.IH [of g "ranges @ [(0, 0)]"] Cons.prems show ?thesis by auto
  next
    case False
    have small: "?a + length b \<le> g_size g" and a: "?a < 2 ^ 32"
      using Cons.prems False by (auto simp: neq_Nil_conv)
    have len: "length b < 2 ^ 32"
      using Cons.prems(1) by (simp add: INPUT_CAPACITY_def MAX_VIEW_def MAX_ARGUMENT_def)
    let ?g = "g\<lparr>g_used := g_used g + length b\<rparr>"
    define ptr :: u32 where "ptr = word_of_nat ?a"
    have al: "sapio_alloc_v1 g (word_of_nat (length b)) = (ptr, ?g)"
      unfolding ptr_def using Cons.prems len by (intro sapio_alloc_v1_fits) auto
    have ptr: "unat ptr = ?a" unfolding ptr_def by (rule unat_word_of_nat_u32 [OF a])
    have sep: "\<not> list_ex (overlaps (?a, ?a + length b)) ranges"
      using Cons.prems(4) by (auto simp: list_ex_iff overlaps_def)
    have "alloc_all (guest_runtime parser evaluator fresh) nm g ranges (b # bs) =
        alloc_all (guest_runtime parser evaluator fresh) nm ?g (ranges @ [(?a, ?a + length b)]) bs"
      using False al small sep by (simp add: Let_def ptr)
    also have "\<dots> = Ok ((ranges @ [(?a, ?a + length b)]) @ arena_ranges (g_input ?g + g_used ?g) bs,
        ?g\<lparr>g_used := g_used ?g + sum_list (map length bs)\<rparr>)"
    proof (rule Cons.IH)
      show "\<forall>r \<in> set (ranges @ [(?a, ?a + length b)]). fst r < snd r \<longrightarrow> snd r \<le> g_input ?g + g_used ?g"
        using Cons.prems(4) by fastforce
    qed (use Cons.prems in auto)
    finally show ?thesis using False by (simp add: add.assoc)
  qed
qed

text \<open>An argument the host wrote is the slice the guest reads.\<close>

lemma input_slice_delivered:
  assumes "mem_get g (fst r) (length b) = b" and "0 < g_input g" "g_input g + g_used g \<le> 2 ^ 32"
    and "b = [] \<and> r = (0, 0) \<or> b \<noteq> [] \<and> g_input g \<le> fst r \<and> fst r + length b \<le> g_input g + g_used g"
  shows "input_slice g (word_of_nat (fst r)) (word_of_nat (length b)) = Some b"
proof (cases "b = []")
  case True
  then show ?thesis by (simp add: input_slice_def)
next
  case False
  with assms have in_arena: "g_input g \<le> fst r" "fst r + length b \<le> g_input g + g_used g" by auto
  with assms(2,3) False have len: "length b < 2 ^ 32" and ptr: "fst r < 2 ^ 32"
    by (auto simp: neq_Nil_conv)
  have "(word_of_nat (length b) :: u32) \<noteq> 0"
    using False unat_word_of_nat_u32 [OF len] by (metis length_0_conv unat_0)
  moreover have "checked_add_wasm (fst r - g_input g) (length b) = Some (fst r - g_input g + length b)"
    using in_arena assms(2,3) by (auto simp: checked_add_wasm_def)
  ultimately show ?thesis
    using in_arena assms(1)
    by (simp add: input_slice_def unat_word_of_nat_u32 [OF len] unat_word_of_nat_u32 [OF ptr])
qed

lemma sorted_arena_ranges:
  "sorted_wrt (\<lambda>x y. \<not> overlaps y x) (arena_ranges a bs)"
proof (induction a bs rule: arena_ranges.induct)
  case (1 a)
  then show ?case by simp
next
  case (2 a b bs)
  have "\<not> overlaps r (a, a + length b)" if "r \<in> set (arena_ranges (a + length b) bs)" for r
  proof -
    from that obtain b' where "(b', r) \<in> set (zip bs (arena_ranges (a + length b) bs))"
      by (metis in_set_impl_in_set_zip2 length_arena_ranges)
    from arena_ranges_zip [OF this] show ?thesis by (auto simp: overlaps_def)
  qed
  with 2 show ?case by (auto simp: overlaps_def)
qed

subsection \<open>Readers\<close>

lemma reader_at_new: "reader_new bs = reader_at bs bs"
  by (simp add: reader_new_def reader_at_def)

lemma reader_take_at:
  assumes "suffix (xs @ ys) bs" and "length bs < 2 ^ 32" and "length xs = n"
  shows "reader_take (reader_at bs (xs @ ys)) n = Some (xs, reader_at bs ys)"
proof -
  from assms(1) obtain zs where bs: "bs = zs @ xs @ ys" by (auto simp: suffix_def)
  with assms(2,3) show ?thesis by (auto simp: reader_take_def reader_at_def checked_add_wasm_def)
qed

lemma reader_u32_at:
  assumes "suffix (u32_to_le w @ ys) bs" and "length bs < 2 ^ 32"
  shows "reader_u32 (reader_at bs (u32_to_le w @ ys)) = Some (w, reader_at bs ys)"
  using assms by (simp add: reader_u32_def reader_take_at)

lemma suffix_script: "suffix (encode_script s @ ys) bs \<Longrightarrow> suffix (s @ ys) bs"
  by (metis append.assoc encode_script_def suffix_appendD)

lemma reader_script_at:
  assumes "suffix (encode_script s @ ys) bs" and "length bs < 2 ^ 32"
  shows "reader_u32 (reader_at bs (encode_script s @ ys)) = Some (word_of_nat (length s), reader_at bs (s @ ys))"
  using reader_u32_at [of "word_of_nat (length s)" "s @ ys" bs] assms by (simp add: encode_script_def)

lemma is_finished_at: "suffix ys bs \<Longrightarrow> is_finished (reader_at bs ys) \<longleftrightarrow> ys = []"
  by (auto simp: is_finished_def reader_at_def suffix_def)

lemma reader_take_too_long:
  assumes "suffix ys bs" and "length ys < n"
  shows "reader_take (reader_at bs ys) n = None"
  using assms by (auto simp: reader_take_def reader_at_def suffix_def checked_add_wasm_def bind_eq_None_conv
      split: if_splits)

subsection \<open>Host and guest\<close>

lemma sample_guest_fresh: "fresh_guest sample_guest"
  by (simp add: fresh_guest_def sample_guest_def INPUT_CAPACITY_def MAX_VIEW_def MAX_ARGUMENT_def)

text \<open>What the guest's entry point sees after the host has allocated and written the arguments.\<close>

lemma evaluate_guest_delivered:
  assumes "list_all2 (\<lambda>r b. input_slice g (word_of_nat (fst r)) (word_of_nat (length b)) = Some b)
      [r1, r2, r3, r4] [program, parameters, view, witness]"
    and "length program \<le> MAX_ARGUMENT" "length parameters \<le> MAX_ARGUMENT"
      "length view \<le> MAX_VIEW" "length witness \<le> MAX_ARGUMENT"
  shows "evaluate_guest evaluator g (call_arguments [r1, r2, r3, r4] [program, parameters, view, witness]) =
    (case evaluator g \<lparr>ar_program = program, ar_parameters = parameters, ar_view = view,
        ar_witness = witness\<rparr> of Some True \<Rightarrow> 1 | Some False \<Rightarrow> 0 | None \<Rightarrow> - 1)"
proof -
  have "unat (word_of_nat n :: u32) \<le> k" if "n \<le> k" "k < 2 ^ 32" for n k
    using that by (simp add: unat_word_of_nat_u32)
  then have "unat (word_of_nat (length program) :: u32) \<le> MAX_ARGUMENT"
    "unat (word_of_nat (length parameters) :: u32) \<le> MAX_ARGUMENT"
    "unat (word_of_nat (length view) :: u32) \<le> MAX_VIEW"
    "unat (word_of_nat (length witness) :: u32) \<le> MAX_ARGUMENT"
    using assms(2-5) by (simp_all add: MAX_ARGUMENT_def MAX_VIEW_def)
  with assms(1) show ?thesis
    by (simp add: evaluate_guest_def call_arguments_def not_less)
qed

text \<open>The host's two loops on a fresh arena, for any inputs that fit.\<close>

lemma arena_delivery:
  assumes fresh: "fresh_guest g" and cap: "sum_list (map length inputs) \<le> INPUT_CAPACITY"
  shows "\<exists>g1 g2. alloc_all (guest_runtime parser evaluator fresh) nm g [] inputs =
        Ok (arena_ranges (g_input g) inputs, g1) \<and>
      write_all mem_put g1 (zip inputs (arena_ranges (g_input g) inputs)) = Ok g2 \<and>
      g_used g2 = sum_list (map length inputs) \<and> g_input g2 = g_input g \<and>
      list_all2 (\<lambda>r b. input_slice g2 (word_of_nat (fst r)) (word_of_nat (length b)) = Some b)
        (arena_ranges (g_input g) inputs) inputs"
proof -
  let ?ranges = "arena_ranges (g_input g) inputs" and ?g1 = "g\<lparr>g_used := sum_list (map length inputs)\<rparr>"
  from fresh have used: "g_used g = 0" and pos: "0 < g_input g"
    and room: "g_input g + INPUT_CAPACITY \<le> g_size g" and addr: "g_size g \<le> 2 ^ 32"
    by (simp_all add: fresh_guest_def)
  have al: "alloc_all (guest_runtime parser evaluator fresh) nm g [] inputs = Ok (?ranges, ?g1)"
    using alloc_all_arena [of g inputs "[]"] used room addr cap by simp
  note zips = arena_ranges_zip [of _ _ inputs "g_input g"]
  have inb: "fst r + length b \<le> g_size g" if "(b, r) \<in> set (zip inputs ?ranges)" for b r
    using zips [OF that] room cap by auto
  then have "\<forall>(b, r) \<in> set (zip inputs ?ranges). fst r + length b \<le> g_size ?g1" by auto
  from write_all_in_bounds [OF this] obtain g2
    where wr: "write_all mem_put ?g1 (zip inputs ?ranges) = Ok g2" by blast
  from write_all_keeps [OF wr] have g2: "g_input g2 = g_input g"
    "g_used g2 = sum_list (map length inputs)" by simp_all
  have "sorted_wrt (\<lambda>x y. \<not> overlaps (snd y) (snd x)) (zip inputs ?ranges)"
    using sorted_arena_ranges [of "g_input g" inputs] by (simp add: sorted_wrt_iff_nth_less)
  moreover have "\<forall>(b, r) \<in> set (zip inputs ?ranges). snd r = fst r + length b"
    using zips by blast
  ultimately have read: "mem_get g2 (fst r) (length b) = b" if "(b, r) \<in> set (zip inputs ?ranges)" for b r
    using lm.write_all_delivers [OF wr _ _ that] by blast
  have slice: "input_slice g2 (word_of_nat (fst r)) (word_of_nat (length b)) = Some b"
    if br: "(b, r) \<in> set (zip inputs ?ranges)" for b r
  proof (rule input_slice_delivered [OF read [OF br]])
    show "0 < g_input g2" using pos g2 by simp
    show "g_input g2 + g_used g2 \<le> 2 ^ 32" using g2 room addr cap by simp
    show "b = [] \<and> r = (0, 0) \<or>
        b \<noteq> [] \<and> g_input g2 \<le> fst r \<and> fst r + length b \<le> g_input g2 + g_used g2"
      using zips [OF br] g2 by auto
  qed
  have "list_all2 (\<lambda>r b. input_slice g2 (word_of_nat (fst r)) (word_of_nat (length b)) = Some b)
      ?ranges inputs"
    by (rule list_all2I) (auto simp: in_set_zip intro!: slice)
  with al wr g2 show ?thesis by blast
qed

lemma run_guest_fresh:
  assumes "fresh_guest g" and "length program \<le> MAX_ARGUMENT" "length parameters \<le> MAX_ARGUMENT"
    "length view \<le> MAX_VIEW" "length witness \<le> MAX_ARGUMENT"
  shows "\<exists>g'. g_used g' = length program + length parameters + length view + length witness \<and>
    g_input g' = g_input g \<and>
    run_guest (guest_runtime parser evaluator fresh) V1 g [program, parameters, view, witness] =
      (case evaluator g' \<lparr>ar_program = program, ar_parameters = parameters, ar_view = view,
          ar_witness = witness\<rparr> of
         Some b \<Rightarrow> Ok b
       | None \<Rightarrow> Err ''WASM evaluator must return exactly zero or one'')"
proof -
  define inputs where "inputs = [program, parameters, view, witness]"
  have "sum_list (map length inputs) \<le> INPUT_CAPACITY"
    using assms(2-5) by (simp add: inputs_def INPUT_CAPACITY_def)
  from arena_delivery [OF assms(1) this, of parser evaluator fresh "alloc_name V1"]
  obtain ranges g1 g2 where
    al: "alloc_all (guest_runtime parser evaluator fresh) (alloc_name V1) g [] inputs = Ok (ranges, g1)"
    and wr: "write_all mem_put g1 (zip inputs ranges) = Ok g2"
    and used: "g_used g2 = sum_list (map length inputs)" and inp: "g_input g2 = g_input g"
    and slices: "list_all2 (\<lambda>r b. input_slice g2 (word_of_nat (fst r)) (word_of_nat (length b)) = Some b)
        ranges inputs" by blast
  from list_all2_lengthD [OF slices] obtain r1 r2 r3 r4 where rs: "ranges = [r1, r2, r3, r4]"
    by (auto simp: inputs_def length_Suc_conv)
  have ev: "evaluate_guest evaluator g2 (call_arguments ranges inputs) =
    (case evaluator g2 \<lparr>ar_program = program, ar_parameters = parameters, ar_view = view,
        ar_witness = witness\<rparr> of Some True \<Rightarrow> 1 | Some False \<Rightarrow> 0 | None \<Rightarrow> - 1)"
    unfolding rs inputs_def
    by (rule evaluate_guest_delivered [OF slices [unfolded rs inputs_def] assms(2-5)])
  have "run_guest (guest_runtime parser evaluator fresh) V1 g inputs =
      call_result (case evaluator g2 \<lparr>ar_program = program, ar_parameters = parameters, ar_view = view,
        ar_witness = witness\<rparr> of Some True \<Rightarrow> 1 | Some False \<Rightarrow> 0 | None \<Rightarrow> - 1)"
    using al wr ev by (simp add: run_guest_def)
  moreover have "g_used g2 = length program + length parameters + length view + length witness"
    using used by (simp add: inputs_def)
  ultimately show ?thesis
    unfolding inputs_def
    by (intro exI [of _ g2]) (auto simp: call_result_def inp split: option.splits bool.splits)
qed

text \<open>One evaluation through the whole host path, for any guest predicate.\<close>

lemma evaluate_guest_runtime:
  assumes "fresh_guest g" and "check_module_bytes m = Ok ()"
    and "check_compilation_budget (guest_runtime parser evaluator g) V1 m = Ok ()"
    and "length program \<le> MAX_PROGRAM_BYTES" "length parameters \<le> MAX_PARAMETER_BYTES"
      "length witness \<le> MAX_WITNESS_BYTES"
    and "outpoint_codec enc" and "authenticated inp" and "encode_view enc V1 inp = Ok view"
  shows "\<exists>g'. g_used g' = length program + length parameters + length view + length witness \<and>
    g_input g' = g_input g \<and>
    evaluate (guest_runtime parser evaluator g) enc V1 m program parameters inp witness =
    (case evaluator g' \<lparr>ar_program = program, ar_parameters = parameters, ar_view = view,
        ar_witness = witness\<rparr> of
       Some b \<Rightarrow> Ok b
     | None \<Rightarrow> Err ''WASM evaluator must return exactly zero or one'')"
proof -
  let ?rt = "guest_runtime parser evaluator g"
  have "length view \<le> MAX_VIEW"
    using encode_view_length(2) [OF assms(7-9)] by (simp add: MAX_SIGNED_VIEW_BYTES_def MAX_VIEW_def)
  moreover have "length program \<le> MAX_ARGUMENT" "length parameters \<le> MAX_ARGUMENT"
    "length witness \<le> MAX_ARGUMENT"
    using assms(4-6) by (simp_all add: MAX_ARGUMENT_def MAX_PROGRAM_BYTES_def MAX_PARAMETER_BYTES_def
        MAX_WITNESS_BYTES_def)
  moreover have "evaluate ?rt enc V1 m program parameters inp witness =
      run_guest ?rt V1 g [program, parameters, view, witness]"
    using assms(2-6,9) by (simp add: evaluate_def alloc_name_def evaluate_name_def not_less)
  ultimately show ?thesis using run_guest_fresh [OF assms(1)] by simp
qed

text \<open>A predicate that only reads its arguments.\<close>

lemma evaluate_pure_guest:
  assumes "fresh_guest g" and "check_module_bytes m = Ok ()"
    and "check_compilation_budget (guest_runtime parser (\<lambda>_. predicate) g) V1 m = Ok ()"
    and "length program \<le> MAX_PROGRAM_BYTES" "length parameters \<le> MAX_PARAMETER_BYTES"
      "length witness \<le> MAX_WITNESS_BYTES"
    and "outpoint_codec enc" and "authenticated inp" and "encode_view enc V1 inp = Ok view"
  shows "evaluate (guest_runtime parser (\<lambda>_. predicate) g) enc V1 m program parameters inp witness =
    (case predicate \<lparr>ar_program = program, ar_parameters = parameters, ar_view = view,
        ar_witness = witness\<rparr> of
       Some b \<Rightarrow> Ok b
     | None \<Rightarrow> Err ''WASM evaluator must return exactly zero or one'')"
  using evaluate_guest_runtime [OF assms] by blast

text \<open>The bump allocator never hands out memory that an argument slice can read. A region
  allocated now lies beyond everything \<open>input_slice\<close> accepted before, inside the arena, and an
  exhausted arena returns the null pointer and changes nothing.\<close>

lemma arena_regions_disjoint:
  assumes "0 < g_input g" and "g_input g + INPUT_CAPACITY \<le> 2 ^ 32" and "g_used g \<le> INPUT_CAPACITY"
    and "sapio_alloc_v1 g len = (p, g')"
  shows "(g_used g + unat len \<le> INPUT_CAPACITY \<longrightarrow>
      g_used g' = g_used g + unat len \<and> g_mem g' = g_mem g \<and>
      (0 < unat len \<longrightarrow> unat p = g_input g + g_used g \<and>
        (\<forall>q n bs. input_slice g q n = Some bs \<longrightarrow> n \<noteq> 0 \<longrightarrow> unat q + unat n \<le> unat p))) \<and>
    (INPUT_CAPACITY < g_used g + unat len \<longrightarrow> p = 0 \<and> g' = g)"
proof (intro conjI impI)
  have len: "unat len < 2 ^ 32" using unsigned_less [of len, where ?'a = nat] by simp
  { assume fits: "g_used g + unat len \<le> INPUT_CAPACITY"
    have "(p, g') = (word_of_nat (g_input g + g_used g), g\<lparr>g_used := g_used g + unat len\<rparr>)"
      using sapio_alloc_v1_fits [OF fits len] assms(4) by simp
    then have p: "p = word_of_nat (g_input g + g_used g)" and g': "g' = g\<lparr>g_used := g_used g + unat len\<rparr>"
      by simp_all
    show "g_used g' = g_used g + unat len" "g_mem g' = g_mem g" using g' by simp_all
    assume "0 < unat len"
    then have "g_input g + g_used g < 2 ^ 32" using fits assms(2) by simp
    then show u: "unat p = g_input g + g_used g" unfolding p by (rule unat_word_of_nat_u32)
    show "\<forall>q n bs. input_slice g q n = Some bs \<longrightarrow> n \<noteq> 0 \<longrightarrow> unat q + unat n \<le> unat p"
      unfolding u
      by (auto simp: input_slice_def checked_add_wasm_def bind_eq_Some_conv split: if_splits) }
  assume "INPUT_CAPACITY < g_used g + unat len"
  then show "p = 0" "g' = g"
    using assms(4) by (auto simp: sapio_alloc_v1_def checked_add_wasm_def split: if_splits)
qed

section \<open>Properties\<close>

text \<open>C8: host and guest agree on the calling convention. For any arguments within the documented
  limits, evaluating on a fresh instance allocates, copies and calls so that the predicate
  receives exactly the four byte strings of the host, and the host returns its verdict; a predicate
  that declines to judge is an error, never an acceptance.\<close>

theorem host_guest_abi:
  assumes "fresh_guest g" and "length program \<le> MAX_ARGUMENT" "length parameters \<le> MAX_ARGUMENT"
    "length view \<le> MAX_VIEW" "length witness \<le> MAX_ARGUMENT"
  shows "run_guest (guest_runtime parser (\<lambda>_. predicate) fresh) V1 g [program, parameters, view, witness] =
    (case predicate \<lparr>ar_program = program, ar_parameters = parameters, ar_view = view,
        ar_witness = witness\<rparr> of
       Some b \<Rightarrow> Ok b
     | None \<Rightarrow> Err ''WASM evaluator must return exactly zero or one'')"
  using run_guest_fresh [OF assms, of parser "\<lambda>_. predicate" fresh] by auto

theorem host_guest_abi_witness:
  "fresh_guest sample_guest \<and>
   run_guest (guest_runtime (\<lambda>_. []) (\<lambda>_ a. Some (ar_view a = [1, 2, 3] \<and> ar_parameters a = [4])) sample_guest)
     V1 sample_guest [[], [4], [1, 2, 3], []] = Ok True"
  using host_guest_abi [OF sample_guest_fresh, of "[]" "[4]" "[1, 2, 3]" "[]" "\<lambda>_. []"
      "\<lambda>a. Some (ar_view a = [1, 2, 3] \<and> ar_parameters a = [4])" sample_guest] sample_guest_fresh
  by (simp add: MAX_ARGUMENT_def MAX_VIEW_def)

end
