(* ===== verification/Client.thy ===== *)
theory Client
  imports Entry Guest
begin

text \<open>
  What the three example clients share (\<open>src/examples/program_oracle.rs\<close>, \<open>templatehash/main.rs\<close>,
  \<open>vault/main.rs\<close>): the signing request, the two expectations \<open>accepted\<close> and \<open>rejected\<close>, and the
  sequence of steps of a demonstration.

  The remote oracle and its connection are a parameter: \<open>sign\<close> takes the state of the outside world
  and returns the answer with the next state. A demonstration is a list of steps, each of which
  builds its request only when it is reached. The locale \<open>honest_signer\<close> states what a demonstration
  relies on: the oracle signs exactly the requests it approves, refuses every other one with the typed
  rejection, and stays in service.
\<close>

section \<open>Data\<close>

datatype spend_path = KeyPath | ScriptPath hash

record signing_request =
  rq_instance :: program_instance
  rq_input_index :: u32
  rq_witness :: bytes
  rq_path :: spend_path
  rq_psbt :: psbt

datatype client_error = ClientRejected string | ClientFailure string

type_synonym 'w signer = "'w \<Rightarrow> signing_request \<Rightarrow> (client_error, psbt) res \<times> 'w"

text \<open>A command of a client: it acts on the outside world and may fail.\<close>

type_synonym ('w, 'a) cmd = "'w \<Rightarrow> 'a result \<times> 'w"

text \<open>One step of a demonstration; the request of a step may fail to be built.\<close>

datatype step =
    Accept "signing_request result" string
  | Reject "signing_request result" string
  | Ensure "unit result"

section \<open>Operations\<close>

fun cmd_bind :: "('w, 'a) cmd \<Rightarrow> ('a \<Rightarrow> ('w, 'b) cmd) \<Rightarrow> ('w, 'b) cmd" where
  "cmd_bind c f w = (case c w of (Ok x, w') \<Rightarrow> f x w' | (Err e, w') \<Rightarrow> (Err e, w') | (Panic, w') \<Rightarrow> (Panic, w'))"

definition cmd_lift :: "'a result \<Rightarrow> ('w, 'a) cmd" where
  "cmd_lift r w = (r, w)"

text \<open>\<open>expectation\<close> is the text of the error context, which differs between the clients.\<close>

definition accepted :: "'w signer \<Rightarrow> string \<Rightarrow> signing_request \<Rightarrow> string \<Rightarrow> ('w, unit) cmd" where
  "accepted sign expectation request label w =
     (case sign w request of
        (Ok _, w') \<Rightarrow> (Ok (), w')
      | (Err _, w') \<Rightarrow> (Err (Msg (label @ expectation)), w')
      | (Panic, w') \<Rightarrow> (Panic, w'))"

definition rejected ::
  "'w signer \<Rightarrow> (client_error \<Rightarrow> string) \<Rightarrow> string \<Rightarrow> signing_request \<Rightarrow> string \<Rightarrow> ('w, unit) cmd" where
  "rejected sign display failure request label w =
     (case sign w request of
        (Err (ClientRejected _), w') \<Rightarrow> (Ok (), w')
      | (Err e, w') \<Rightarrow> (Err (Msg (label @ failure @ display e)), w')
      | (Ok _, w') \<Rightarrow> (Err (Msg (label @ '': unexpectedly received a signature'')), w')
      | (Panic, w') \<Rightarrow> (Panic, w'))"

fun run_step ::
  "(signing_request \<Rightarrow> string \<Rightarrow> ('w, unit) cmd) \<Rightarrow> (signing_request \<Rightarrow> string \<Rightarrow> ('w, unit) cmd) \<Rightarrow>
     step \<Rightarrow> ('w, unit) cmd" where
  "run_step acc rej (Accept r label) = cmd_bind (cmd_lift r) (\<lambda>request. acc request label)"
| "run_step acc rej (Reject r label) = cmd_bind (cmd_lift r) (\<lambda>request. rej request label)"
| "run_step acc rej (Ensure r) = cmd_lift r"

fun run_steps ::
  "(signing_request \<Rightarrow> string \<Rightarrow> ('w, unit) cmd) \<Rightarrow> (signing_request \<Rightarrow> string \<Rightarrow> ('w, unit) cmd) \<Rightarrow>
     step list \<Rightarrow> ('w, unit) cmd" where
  "run_steps acc rej [] = cmd_lift (Ok ())"
| "run_steps acc rej (s # ss) = cmd_bind (run_step acc rej s) (\<lambda>_. run_steps acc rej ss)"

subsection \<open>Editing a request\<close>

text \<open>Indexing panics outside the list, and so does the arithmetic of amounts when it overflows.\<close>

definition edit_nth :: "'a list \<Rightarrow> nat \<Rightarrow> ('a \<Rightarrow> 'a result) \<Rightarrow> 'a list result" where
  "edit_nth xs i f = (if i < length xs then bind_res (f (xs ! i)) (\<lambda>x. Ok (xs[i := x])) else Panic)"

definition edit_tx :: "(transaction \<Rightarrow> transaction result) \<Rightarrow> signing_request \<Rightarrow> signing_request result" where
  "edit_tx f r = bind_res (f (psbt_unsigned_tx (rq_psbt r))) (\<lambda>tx.
     Ok (r\<lparr>rq_psbt := (rq_psbt r)\<lparr>psbt_unsigned_tx := tx\<rparr>\<rparr>))"

definition edit_output :: "nat \<Rightarrow> (tx_out \<Rightarrow> tx_out result) \<Rightarrow> transaction \<Rightarrow> transaction result" where
  "edit_output i f tx = bind_res (edit_nth (tx_output tx) i f) (\<lambda>outs. Ok (tx\<lparr>tx_output := outs\<rparr>))"

definition edit_input :: "nat \<Rightarrow> (tx_in \<Rightarrow> tx_in) \<Rightarrow> transaction \<Rightarrow> transaction result" where
  "edit_input i f tx = bind_res (edit_nth (tx_input tx) i (\<lambda>x. Ok (f x))) (\<lambda>ins. Ok (tx\<lparr>tx_input := ins\<rparr>))"

definition set_value :: "u64 \<Rightarrow> tx_out \<Rightarrow> tx_out result" where
  "set_value v out = Ok (out\<lparr>txo_value := v\<rparr>)"

definition set_script :: "script \<Rightarrow> tx_out \<Rightarrow> tx_out result" where
  "set_script s out = Ok (out\<lparr>txo_script_pubkey := s\<rparr>)"

definition add_value :: "u64 \<Rightarrow> tx_out \<Rightarrow> tx_out result" where
  "add_value v out =
     (if unat (txo_value out) + unat v < 2 ^ 64 then Ok (out\<lparr>txo_value := txo_value out + v\<rparr>) else Panic)"

definition sub_value :: "u64 \<Rightarrow> tx_out \<Rightarrow> tx_out result" where
  "sub_value v out = (if v \<le> txo_value out then Ok (out\<lparr>txo_value := txo_value out - v\<rparr>) else Panic)"

section \<open>Specification\<close>

text \<open>The signing context of a request, as the evaluator sees it.\<close>

definition request_input :: "signing_request \<Rightarrow> signing_input" where
  "request_input r = \<lparr>si_psbt = rq_psbt r, si_input_index = unat (rq_input_index r), si_script_leaf = None,
     si_participants = [], si_tweak = None, si_other = []\<rparr>"

text \<open>The output spent by the selected input commits to the program of the request; \<open>program_of\<close> is the
  program a script's key is derived from.\<close>

definition funded :: "(script \<Rightarrow> program_instance option) \<Rightarrow> signing_request \<Rightarrow> bool" where
  "funded program_of r \<longleftrightarrow>
     (case list_get (psbt_inputs (rq_psbt r)) (unat (rq_input_index r)) of
        None \<Rightarrow> False
      | Some m \<Rightarrow> (case pi_witness_utxo m of
          None \<Rightarrow> False | Some utxo \<Rightarrow> program_of (txo_script_pubkey utxo) = Some (rq_instance r)))"

text \<open>A documented oracle approves a request when its funding commits to the program and the
  evaluation of the program on the view of the request returns true.\<close>

definition inline_approves ::
  "('m, 'i) wasm_runtime \<Rightarrow> (outpoint \<Rightarrow> bytes) \<Rightarrow> wasm_version \<Rightarrow> (script \<Rightarrow> program_instance option) \<Rightarrow>
     signing_request \<Rightarrow> bool" where
  "inline_approves rt enc version program_of r \<longleftrightarrow> funded program_of r \<and>
     evaluate rt enc version (pr_program (rq_instance r)) [] (pr_parameters (rq_instance r))
       (request_input r) (rq_witness r) = Ok True"

text \<open>What a step expects of the oracle.\<close>

fun expects :: "(signing_request \<Rightarrow> bool) \<Rightarrow> step \<Rightarrow> bool" where
  "expects approves (Accept r _) \<longleftrightarrow> (\<exists>request. r = Ok request \<and> approves request)"
| "expects approves (Reject r _) \<longleftrightarrow> (\<exists>request. r = Ok request \<and> \<not> approves request)"
| "expects approves (Ensure r) \<longleftrightarrow> r = Ok ()"

locale honest_signer =
  fixes sign :: "'w signer" and inv :: "'w \<Rightarrow> bool" and approves :: "signing_request \<Rightarrow> bool"
  assumes sign_approved: "inv w \<Longrightarrow> approves r \<Longrightarrow>
      \<exists>p w'. sign w r = (Ok p, w') \<and> inv w' \<and> psbt_unsigned_tx p = psbt_unsigned_tx (rq_psbt r)"
    and sign_refused: "inv w \<Longrightarrow> \<not> approves r \<Longrightarrow> \<exists>e w'. sign w r = (Err (ClientRejected e), w') \<and> inv w'"
begin

lemma accepted_iff:
  assumes "inv w"
  shows "inv (snd (accepted sign expectation r label w)) \<and>
    (fst (accepted sign expectation r label w) = Ok () \<longleftrightarrow> approves r)"
proof (cases "approves r")
  case True
  with sign_approved [OF assms] show ?thesis by (force simp: accepted_def)
next
  case False
  with sign_refused [OF assms] show ?thesis by (force simp: accepted_def)
qed

lemma rejected_iff:
  assumes "inv w"
  shows "inv (snd (rejected sign display failure r label w)) \<and>
    (fst (rejected sign display failure r label w) = Ok () \<longleftrightarrow> \<not> approves r)"
proof (cases "approves r")
  case True
  with sign_approved [OF assms] show ?thesis by (force simp: rejected_def)
next
  case False
  with sign_refused [OF assms] show ?thesis by (force simp: rejected_def)
qed

text \<open>A demonstration passes exactly when every step's expectation is true of the oracle.\<close>

lemma run_steps_iff:
  assumes acc: "\<And>w r label. inv w \<Longrightarrow> inv (snd (acc r label w)) \<and> (fst (acc r label w) = Ok () \<longleftrightarrow> approves r)"
    and rej: "\<And>w r label. inv w \<Longrightarrow> inv (snd (rej r label w)) \<and> (fst (rej r label w) = Ok () \<longleftrightarrow> \<not> approves r)"
    and "inv w"
  shows "inv (snd (run_steps acc rej steps w)) \<and>
    (fst (run_steps acc rej steps w) = Ok () \<longleftrightarrow> list_all (expects approves) steps)"
  using assms(3)
proof (induction steps arbitrary: w)
  case Nil
  then show ?case by (simp add: cmd_lift_def)
next
  case (Cons s steps)
  have step: "inv (snd (run_step acc rej s w)) \<and> (fst (run_step acc rej s w) = Ok () \<longleftrightarrow> expects approves s)"
  proof (cases s)
    case (Accept r label)
    then show ?thesis using acc [OF Cons.prems] Cons.prems by (cases r) (auto simp: cmd_lift_def)
  next
    case (Reject r label)
    then show ?thesis using rej [OF Cons.prems] Cons.prems by (cases r) (auto simp: cmd_lift_def)
  next
    case (Ensure r)
    then show ?thesis using Cons.prems by (simp add: cmd_lift_def)
  qed
  obtain q w' where q: "run_step acc rej s w = (q, w')" by force
  show ?case using step Cons.IH [of w'] q by (cases q) auto
qed

corollary demo_iff:
  assumes "inv w"
  shows "fst (run_steps (accepted sign expectation) (rejected sign display failure) steps w) = Ok () \<longleftrightarrow>
    list_all (expects approves) steps"
  by (rule run_steps_iff [THEN conjunct2]) (use accepted_iff rejected_iff assms in blast)+

end

section \<open>The reference oracle\<close>

text \<open>An oracle that decides by the evaluator of this repository; its world counts the requests.\<close>

definition inline_sign ::
  "('m, 'i) wasm_runtime \<Rightarrow> (outpoint \<Rightarrow> bytes) \<Rightarrow> wasm_version \<Rightarrow> (script \<Rightarrow> program_instance option) \<Rightarrow>
     nat signer" where
  "inline_sign rt enc version program_of w r =
     (if \<not> funded program_of r then (Err (ClientRejected ''funding does not commit to the program''), Suc w)
      else case evaluate rt enc version (pr_program (rq_instance r)) [] (pr_parameters (rq_instance r))
          (request_input r) (rq_witness r) of
        Ok True \<Rightarrow> (Ok (rq_psbt r), Suc w)
      | Ok False \<Rightarrow> (Err (ClientRejected ''program rejected''), Suc w)
      | Err e \<Rightarrow> (Err (ClientRejected e), Suc w)
      | Panic \<Rightarrow> (Err (ClientRejected ''program evaluator unavailable''), Suc w))"

interpretation reference: honest_signer "inline_sign rt enc version program_of" "\<lambda>_. True"
  "inline_approves rt enc version program_of"
  for rt :: "('m, 'i) wasm_runtime" and enc version program_of
  by unfold_locales
    (auto simp: inline_sign_def inline_approves_def split: res.splits bool.splits)

section \<open>Lemmas\<close>

lemma edit_nth_eq_Ok [res_inv]:
  "edit_nth xs i f = Ok ys \<longleftrightarrow> i < length xs \<and> (\<exists>x. f (xs ! i) = Ok x \<and> ys = xs[i := x])"
  by (auto simp: edit_nth_def bind_res_eq_Ok)

lemma request_input_sel [simp]:
  "si_psbt (request_input r) = rq_psbt r" "si_input_index (request_input r) = unat (rq_input_index r)"
  by (simp_all add: request_input_def)

abbreviation sample_arguments :: "os_string list" where
  "sample_arguments \<equiv> [Unicode ''--address'', Unicode ''host'', Unicode ''--identity'', Unicode ''identity.json'']"

lemma sample_options_of: "options_of sample_client sample_arguments = Ok (Some sample_options)"
  by (simp add: options_of_def sample_options_def sample_client_def)

end
