(* ===== verification/Vault.thy ===== *)
theory Vault
  imports Guest
begin

text \<open>
  The safe-withdrawal example: the inline predicate \<open>src/examples/vault/predicate.rs\<close> and the
  contract constructor \<open>src/examples/vault/contract.rs\<close> that commits its parameters.

  The main result relates the two: on any view the host can produce, with the parameters the
  constructor commits, the predicate accepts exactly the complete sweeps to the committed script
  within the fee cap and above the dust floor.
\<close>

section \<open>Operations\<close>

definition reader_u64 :: "reader \<Rightarrow> (u64 \<times> reader) option" where
  "reader_u64 r = map_option (\<lambda>(bs, r'). (u64_from_le bs, r')) (reader_take r 8)"

text \<open>The committed parameters: fee cap and destination script.\<close>

definition read_parameters :: "bytes \<Rightarrow> (u64 \<times> script) option" where
  "read_parameters parameters =
     Option.bind (reader_u64 (reader_new parameters)) (\<lambda>(max_fee, p1).
     Option.bind (reader_u32 p1) (\<lambda>(destination_length, p2).
     Option.bind (reader_take p2 (unat destination_length)) (\<lambda>(destination, p3).
     if \<not> is_finished p3 then None else Some (max_fee, destination))))"

text \<open>The rest of the view after its header, and the verdict.\<close>

definition judge_sweep :: "u64 \<Rightarrow> script \<Rightarrow> reader \<Rightarrow> bool option" where
  "judge_sweep max_fee destination r0 =
     Option.bind (reader_take r0 36) (\<lambda>(_, r1).
     Option.bind (reader_take r1 4) (\<lambda>(_, r2).
     Option.bind (reader_u64 r2) (\<lambda>(input_value, r3).
     Option.bind (reader_u32 r3) (\<lambda>(input_script_length, r4).
     Option.bind (reader_take r4 (unat input_script_length)) (\<lambda>(_, r5).
     Option.bind (reader_u32 r5) (\<lambda>(output_count, r6).
     if output_count \<noteq> 1 then Some False
     else
       Option.bind (reader_u64 r6) (\<lambda>(output_value, r7).
       Option.bind (reader_u32 r7) (\<lambda>(output_script_length, r8).
       Option.bind (reader_take r8 (unat output_script_length)) (\<lambda>(output_script, r9).
       if \<not> is_finished r9 then None
       else if input_value < output_value then Some False
       else Some (output_script = destination \<and> 330 \<le> output_value \<and>
                  input_value - output_value \<le> max_fee))))))))))"

definition vault_evaluate :: "arguments \<Rightarrow> bool option" where
  "vault_evaluate args =
     (if ar_program args \<noteq> [] \<or> ar_witness args \<noteq> [] then None
      else
        Option.bind (read_parameters (ar_parameters args)) (\<lambda>(max_fee, destination).
        Option.bind (reader_take (reader_new (ar_view args)) 8) (\<lambda>(_, r1).
        Option.bind (reader_u32 r1) (\<lambda>(selected_index, r2).
        Option.bind (reader_u32 r2) (\<lambda>(input_count, r3).
        if selected_index \<noteq> 0 \<or> input_count \<noteq> 1 then Some False
        else judge_sweep max_fee destination r3)))))"

text \<open>The exported entry point.\<close>

definition vault_sapio_evaluate_v1 ::
  "guest \<Rightarrow> u32 \<Rightarrow> u32 \<Rightarrow> u32 \<Rightarrow> u32 \<Rightarrow> u32 \<Rightarrow> u32 \<Rightarrow> u32 \<Rightarrow> u32 \<Rightarrow> u32" where
  "vault_sapio_evaluate_v1 g program_pointer program_length parameters_pointer parameters_length view_pointer
       view_length witness_pointer witness_length =
     evaluate_guest (\<lambda>_. vault_evaluate) g
       [program_pointer, program_length, parameters_pointer, parameters_length, view_pointer, view_length,
        witness_pointer, witness_length]"

text \<open>\<open>contract::instance\<close>: \<open>wasm\<close> stands for \<open>ProgramInstance::wasm\<close>, \<open>VAULT_WASM\<close> for the
  included artifact.\<close>

definition vault_parameters :: "u64 \<Rightarrow> script \<Rightarrow> bytes result" where
  "vault_parameters max_fee destination =
     bind_res (ok_or (Msg ''destination script too large'') (u32_try_from (length destination)))
       (\<lambda>script_len. Ok (u64_to_le max_fee @ u32_to_le script_len @ destination))"

definition vault_instance ::
  "(bytes \<Rightarrow> bytes \<Rightarrow> program_instance result) \<Rightarrow> bytes \<Rightarrow> u64 \<Rightarrow> script \<Rightarrow> program_instance result" where
  "vault_instance wasm VAULT_WASM max_fee destination =
     bind_res (vault_parameters max_fee destination) (\<lambda>parameters. wasm VAULT_WASM parameters)"

text \<open>\<open>SafeWithdrawal::new\<close>: \<open>emulate\<close> stands for \<open>EmulatedProgram::new\<close>.\<close>

definition safe_withdrawal_new ::
  "(bytes \<Rightarrow> bytes \<Rightarrow> program_instance result) \<Rightarrow> (program_instance \<Rightarrow> xpub \<Rightarrow> 'e result) \<Rightarrow> bytes \<Rightarrow>
     u64 \<Rightarrow> script \<Rightarrow> xpub \<Rightarrow> 'e result" where
  "safe_withdrawal_new wasm emulate VAULT_WASM max_fee destination root =
     bind_res (vault_instance wasm VAULT_WASM max_fee destination) (\<lambda>i. emulate i root)"

section \<open>Specification\<close>

text \<open>The policy, on the signing context: one input, selected; one output, to the committed script,
  not dust; a fee between zero and the cap, over the integers.\<close>

definition complete_sweep :: "u64 \<Rightarrow> script \<Rightarrow> signing_input \<Rightarrow> bool" where
  "complete_sweep max_fee destination inp \<longleftrightarrow>
     (let tx = psbt_unsigned_tx (si_psbt inp);
          spent = prevouts (psbt_inputs (si_psbt inp)) in
      length (tx_input tx) = 1 \<and> si_input_index inp = 0 \<and> length (tx_output tx) = 1 \<and>
      txo_script_pubkey (hd (tx_output tx)) = destination \<and>
      330 \<le> unat (txo_value (hd (tx_output tx))) \<and>
      unat (txo_value (hd (tx_output tx))) \<le> unat (txo_value (hd spent)) \<and>
      unat (txo_value (hd spent)) \<le> unat (txo_value (hd (tx_output tx))) + unat max_fee)"

section \<open>Lemmas\<close>

text \<open>The runtime calls the exported entry point.\<close>

lemma vault_call:
  "rt_call_evaluate (guest_runtime parser (\<lambda>_. vault_evaluate) fresh) g nm [pp, pl, ap, al, vp, vl, wp, wl] =
     (Ok (vault_sapio_evaluate_v1 g pp pl ap al vp vl wp wl), g)"
  by (simp add: vault_sapio_evaluate_v1_def)

lemma reader_u64_at:
  assumes "suffix (u64_to_le w @ ys) bs" and "length bs < 2 ^ 32"
  shows "reader_u64 (reader_at bs (u64_to_le w @ ys)) = Some (w, reader_at bs ys)"
  using assms by (simp add: reader_u64_def reader_take_at)

lemmas reader_simps = reader_take_at reader_u32_at reader_u64_at is_finished_at

lemma vault_parameters_eq_Ok:
  "vault_parameters max_fee destination = Ok ps \<longleftrightarrow> length destination < 2 ^ 32 \<and>
     ps = u64_to_le max_fee @ u32_to_le (word_of_nat (length destination)) @ destination"
  by (auto simp: vault_parameters_def bind_res_eq_Ok ok_or_eq_Ok)

lemma read_parameters_committed:
  assumes "vault_parameters max_fee destination = Ok ps" and "length ps < 2 ^ 32"
  shows "read_parameters ps = Some (max_fee, destination)"
proof -
  let ?rest = "u32_to_le (word_of_nat (length destination)) @ destination @ []"
  from assms have ps: "ps = u64_to_le max_fee @ ?rest"
    and len: "length destination < 2 ^ 32" by (simp_all add: vault_parameters_eq_Ok)
  have "suffix (u64_to_le max_fee @ ?rest) ps" "suffix ?rest ps" "suffix (destination @ []) ps"
    "suffix [] ps" unfolding ps by (auto simp: suffix_def)
  then show ?thesis
    using assms(2)
    by (simp add: read_parameters_def reader_at_new ps reader_simps unat_word_of_nat_u32 [OF len]
        del: append_Nil2)
qed

lemma word_of_nat_eq_1: "n < 2 ^ 32 \<Longrightarrow> (word_of_nat n :: u32) = 1 \<longleftrightarrow> n = 1"
  by (simp only: word_unat_eq_iff unat_word_of_nat_u32 unat_1)

lemma word_of_nat_eq_0: "n < 2 ^ 32 \<Longrightarrow> (word_of_nat n :: u32) = 0 \<longleftrightarrow> n = 0"
  by (simp only: word_unat_eq_iff unat_word_of_nat_u32 unat_0)

lemma fee_in_range:
  fixes i out cap :: u64
  shows "\<not> i < out \<and> i - out \<le> cap \<longleftrightarrow> unat out \<le> unat i \<and> unat i \<le> unat out + unat cap"
proof (cases "out \<le> i")
  case True
  then have sub: "unat (i - out) = unat i - unat out" by (simp add: unat_sub)
  have "i - out \<le> cap \<longleftrightarrow> unat i \<le> unat out + unat cap"
    by (simp only: word_le_nat_alt sub le_diff_conv add.commute)
  moreover have "unat out \<le> unat i" using True by (simp only: word_le_nat_alt)
  moreover have "\<not> i < out" using True by (simp only: not_less)
  ultimately show ?thesis by blast
next
  case False
  then have "i < out" "\<not> unat out \<le> unat i" by (simp_all only: not_le not_less word_le_nat_alt word_less_nat_alt)
  then show ?thesis by blast
qed

text \<open>The verdict on the tail of a view with a single input.\<close>

lemma judge_sweep_at:
  assumes "length op = 36" and "length script < 2 ^ 32"
    and "length outs < 2 ^ 32" and "\<forall>out \<in> set outs. length (txo_script_pubkey out) < 2 ^ 32"
    and rest: "rest = u32_to_le (word_of_nat (length outs)) @ concat (map encode_output outs)"
    and sfx: "suffix (op @ u32_to_le sq @ u64_to_le v @ encode_script script @ rest) bs"
    and small: "length bs < 2 ^ 32"
  shows "judge_sweep max_fee destination
      (reader_at bs (op @ u32_to_le sq @ u64_to_le v @ encode_script script @ rest)) =
    Some (length outs = 1 \<and> txo_script_pubkey (hd outs) = destination \<and> 330 \<le> txo_value (hd outs) \<and>
      \<not> v < txo_value (hd outs) \<and> v - txo_value (hd outs) \<le> max_fee)"
proof -
  note sfx1 = suffix_appendD [OF sfx]
  note sfx2 = suffix_appendD [OF sfx1]
  note sfx3 = suffix_appendD [OF sfx2]
  note sfx4 = suffix_script [OF sfx3]
  note sfx5 = suffix_appendD [OF sfx4]
  note head = reader_take_at [OF sfx small assms(1)] reader_take_at [OF sfx1 small length_u32_to_le]
    reader_u64_at [OF sfx2 small]
    reader_script_at [OF sfx3 small]
    reader_take_at [OF sfx4 small refl]
    unat_word_of_nat_u32 [OF assms(2)] reader_u32_at [OF sfx5 [unfolded rest] small, folded rest]
  have step: "judge_sweep max_fee destination
      (reader_at bs (op @ u32_to_le sq @ u64_to_le v @ encode_script script @ rest)) =
    (if length outs \<noteq> 1 then Some False
     else
       Option.bind (reader_u64 (reader_at bs (concat (map encode_output outs)))) (\<lambda>(output_value, r7).
       Option.bind (reader_u32 r7) (\<lambda>(output_script_length, r8).
       Option.bind (reader_take r8 (unat output_script_length)) (\<lambda>(output_script, r9).
       if \<not> is_finished r9 then None
       else if v < output_value then Some False
       else Some (output_script = destination \<and> 330 \<le> output_value \<and> v - output_value \<le> max_fee)))))"
    by (simp add: judge_sweep_def head word_of_nat_eq_1 [OF assms(3)] del: One_nat_def)
  show ?thesis
  proof (cases "length outs = 1")
    case True
    then obtain out where outs: "outs = [out]" by (auto simp: length_Suc_conv)
    let ?s = "txo_script_pubkey out"
    have len: "length ?s < 2 ^ 32" using assms(4) outs by simp
    have tail: "concat (map encode_output outs) =
        u64_to_le (txo_value out) @ encode_script ?s @ []"
      by (simp add: outs encode_output_def)
    have sfx6: "suffix (u64_to_le (txo_value out) @ encode_script ?s @ []) bs"
      using suffix_appendD [OF sfx5 [unfolded rest]] unfolding tail .
    note sfx7 = suffix_appendD [OF sfx6]
    note sfx8 = suffix_script [OF sfx7]
    note sfx9 = suffix_appendD [OF sfx8]
    note facts = reader_u64_at [OF sfx6 small] reader_script_at [OF sfx7 small]
      reader_take_at [OF sfx8 small refl] is_finished_at [OF sfx9] unat_word_of_nat_u32 [OF len]
    show ?thesis unfolding step tail by (simp add: facts outs del: append_Nil2)
  next
    case False
    then show ?thesis unfolding step by simp
  qed
qed

lemma vault_evaluate_view:
  assumes "outpoint_codec enc" and "authenticated inp" and "encode_view enc V1 inp = Ok view"
    and "vault_parameters max_fee destination = Ok parameters"
    and "length parameters \<le> MAX_PARAMETER_BYTES"
  shows "vault_evaluate \<lparr>ar_program = [], ar_parameters = parameters, ar_view = view, ar_witness = []\<rparr> =
    Some (complete_sweep max_fee destination inp)"
proof -
  let ?tx = "psbt_unsigned_tx (si_psbt inp)" and ?ps = "prevouts (psbt_inputs (si_psbt inp))"
  let ?outs = "tx_output ?tx"
  note facts = encode_view_eq_Ok [OF assms(3)]
  have params: "read_parameters parameters = Some (max_fee, destination)"
    using assms(4,5) by (intro read_parameters_committed) (auto simp: MAX_PARAMETER_BYTES_def)
  have small: "length view < 2 ^ 32"
    using encode_view_length(2) [OF assms(1-3)] by (simp add: MAX_SIGNED_VIEW_BYTES_def)
  let ?tail = "u32_to_le (word_of_nat (length ?outs)) @ concat (map encode_output ?outs)"
  let ?ins = "concat (map (encode_input enc) (zip (tx_input ?tx) ?ps)) @ ?tail"
  define head where "head = u32_to_le (tx_version ?tx) @ u32_to_le (tx_lock_time ?tx)"
  have len8: "length head = 8" by (simp add: head_def)
  have v: "view = head @ u32_to_le (word_of_nat (si_input_index inp)) @
      u32_to_le (word_of_nat (length (tx_input ?tx))) @ ?ins"
    unfolding head_def by (rule encode_view_V1 [OF assms(3)])
  have s0: "suffix (head @ u32_to_le (word_of_nat (si_input_index inp)) @
      u32_to_le (word_of_nat (length (tx_input ?tx))) @ ?ins) view" by (subst v) (rule suffix_order.refl)
  note s1 = suffix_appendD [OF s0]
  note s2 = suffix_appendD [OF s1]
  note s3 = suffix_appendD [OF s2]
  have r0: "reader_new view = reader_at view (head @ u32_to_le (word_of_nat (si_input_index inp)) @
      u32_to_le (word_of_nat (length (tx_input ?tx))) @ ?ins)"
    by (subst reader_at_new) (rule arg_cong [OF v])
  have step: "vault_evaluate \<lparr>ar_program = [], ar_parameters = parameters, ar_view = view, ar_witness = []\<rparr> =
      (if si_input_index inp \<noteq> 0 \<or> length (tx_input ?tx) \<noteq> 1 then Some False
       else judge_sweep max_fee destination (reader_at view ?ins))"
    by (simp add: vault_evaluate_def params r0 reader_take_at [OF s0 small len8] reader_u32_at [OF s1 small]
        reader_u32_at [OF s2 small] word_of_nat_eq_0 [OF facts(4)] word_of_nat_eq_1 [OF facts(2)]
        del: One_nat_def)
  show ?thesis
  proof (cases "si_input_index inp = 0 \<and> length (tx_input ?tx) = 1")
    case True
    moreover have "length ?ps = length (tx_input ?tx)"
      using assms(2) by (simp add: authenticated_def prevouts_def)
    ultimately obtain i q where i: "tx_input ?tx = [i]" "?ps = [q]"
      by (auto simp: length_Suc_conv)
    have op: "length (enc (ti_previous_output i)) = 36"
      using assms(1,2) i by (simp add: outpoint_codec_def authenticated_def)
    have script: "length (txo_script_pubkey q) < 2 ^ 32"
      using view_scripts_small(1) [OF assms(3), of "(i, q)" "[i]"] i by simp
    have ins: "?ins = enc (ti_previous_output i) @ u32_to_le (ti_sequence i) @ u64_to_le (txo_value q) @
        encode_script (txo_script_pubkey q) @ ?tail" by (simp add: i encode_input_def)
    from judge_sweep_at [OF op script facts(3) _ refl s3 [unfolded ins] small]
    have "judge_sweep max_fee destination (reader_at view ?ins) =
      Some (length ?outs = 1 \<and> txo_script_pubkey (hd ?outs) = destination \<and> 330 \<le> txo_value (hd ?outs) \<and>
        \<not> txo_value q < txo_value (hd ?outs) \<and> txo_value q - txo_value (hd ?outs) \<le> max_fee)"
      unfolding ins using view_scripts_small(2) [OF assms(3)] by blast
    moreover have "330 \<le> txo_value (hd ?outs) \<longleftrightarrow> 330 \<le> unat (txo_value (hd ?outs))"
      by (simp add: word_le_nat_alt)
    ultimately show ?thesis
      using True i fee_in_range [of "txo_value q" "txo_value (hd ?outs)" max_fee]
      unfolding step complete_sweep_def Let_def by auto
  next
    case False
    then show ?thesis unfolding step complete_sweep_def Let_def by auto
  qed
qed

lemma sample_vault_sweep: "complete_sweep 1000 [81, 7] sample_context"
  by (simp add: complete_sweep_def sample_defs prevouts_def)

section \<open>Properties\<close>

text \<open>C6: on every view the host can encode, with the parameters the contract constructor commits,
  the predicate reaches a verdict, and accepts exactly the complete sweeps: the only input selected,
  a single output to the committed script of at least 330 satoshis, and a fee between zero and the
  cap, computed over the integers.\<close>

theorem vault_accepts_complete_sweep:
  assumes "outpoint_codec enc" and "authenticated inp" and "encode_view enc V1 inp = Ok view"
    and "vault_parameters max_fee destination = Ok parameters"
    and "length parameters \<le> MAX_PARAMETER_BYTES"
  shows "vault_evaluate \<lparr>ar_program = [], ar_parameters = parameters, ar_view = view, ar_witness = []\<rparr> =
    Some (complete_sweep max_fee destination inp)"
  using assms by (rule vault_evaluate_view)

theorem vault_accepts_complete_sweep_witness:
  "vault_parameters 1000 [81, 7] = Ok (u64_to_le 1000 @ u32_to_le 2 @ [81, 7]) \<and>
   complete_sweep 1000 [81, 7] sample_context \<and>
   vault_evaluate \<lparr>ar_program = [], ar_parameters = u64_to_le 1000 @ u32_to_le 2 @ [81, 7],
     ar_view = sample_view, ar_witness = []\<rparr> = Some True"
proof -
  have params: "vault_parameters 1000 [81, 7] = Ok (u64_to_le 1000 @ u32_to_le 2 @ [81, 7])"
    by (simp add: vault_parameters_eq_Ok)
  note sweep = sample_vault_sweep
  have "length (u64_to_le 1000 @ u32_to_le 2 @ [81, 7]) \<le> MAX_PARAMETER_BYTES"
    by (simp add: MAX_PARAMETER_BYTES_def)
  from vault_accepts_complete_sweep [OF sample_enc_codec(1) sample_authenticated sample_encode_view
      params this] params sweep show ?thesis by simp
qed

end
