(* ===== verification/Vault_Client.thy ===== *)
theory Vault_Client
  imports Client Vault
begin

text \<open>
  The vault demonstration, \<open>src/examples/vault/main.rs\<close>: compile the safe-withdrawal contract, fund it
  synthetically, and check that a remote oracle signs the sweeps the policy allows and refuses ten
  variations of them.

  Parameters, in \<open>vault_lib\<close>: the contract compiler, the PSBT, Miniscript and transaction-id functions of
  the libraries, their default values, and the connection to the oracle. What is relied on of them is
  \<open>vault_lib_laws\<close>.
\<close>

section \<open>Data\<close>

definition FUNDING_SATS :: u64 where "FUNDING_SATS = 1000000"
definition MAX_FEE_SATS :: u64 where "MAX_FEE_SATS = 1000"

record ('a, 'c, 'w, 'e, 'd) vault_lib =
  vl_client_new :: "'a \<Rightarrow> xpub \<Rightarrow> 'c result"
  vl_sign :: "'c \<Rightarrow> 'w signer"
  vl_display :: "client_error \<Rightarrow> string"
  vl_p2wpkh :: "bytes \<Rightarrow> script"
  vl_wasm :: "bytes \<Rightarrow> bytes \<Rightarrow> program_instance result"
  vl_emulate :: "program_instance \<Rightarrow> xpub \<Rightarrow> 'e result"
  VAULT_WASM :: bytes
  vl_effect_path :: "string \<Rightarrow> (string, string) res"
  vl_compile :: "'e \<Rightarrow> network \<Rightarrow> u64 \<Rightarrow> string \<Rightarrow> (string, 'd) res"
  vl_requirements :: "'d \<Rightarrow> ('e \<times> spend_path) list result"
  vl_address_script :: "'d \<Rightarrow> script"
  vl_txid :: "transaction \<Rightarrow> hash"
  vl_psbt_from_unsigned_tx :: "transaction \<Rightarrow> psbt result"
  vl_prepare_program_request :: "'d \<Rightarrow> 'e \<times> spend_path \<Rightarrow> psbt \<Rightarrow> nat \<Rightarrow> bytes \<Rightarrow> signing_request result"
  vl_finalize :: "psbt \<Rightarrow> (string, psbt) res"
  vl_extract_tx :: "psbt \<Rightarrow> (string, transaction) res"
  vl_tx_in_default :: tx_in
  vl_psbt_input_default :: psbt_input
  vl_push_default_output :: "psbt \<Rightarrow> psbt"

section \<open>Operations\<close>

definition vault_recipient :: "('a, 'c, 'w, 'e, 'd) vault_lib \<Rightarrow> byte \<Rightarrow> script" where
  "vault_recipient lib tag = vl_p2wpkh lib (replicate 20 tag)"

text \<open>\<open>accepted\<close> of this client also finalizes and extracts the transaction.\<close>

definition vault_finalized ::
  "('a, 'c, 'w, 'e, 'd) vault_lib \<Rightarrow> signing_request \<Rightarrow> string \<Rightarrow> psbt \<Rightarrow> unit result" where
  "vault_finalized lib request label signed_psbt =
     bind_res (map_err (\<lambda>errors. Msg (label @ '': Miniscript finalization failed: '' @ errors))
         (vl_finalize lib signed_psbt)) (\<lambda>finalized.
     bind_res (map_err (\<lambda>_. Msg ''extract finalized sweep'') (vl_extract_tx lib finalized)) (\<lambda>tx.
     if vl_txid lib tx \<noteq> vl_txid lib (psbt_unsigned_tx (rq_psbt request))
     then Err (Msg (label @ '': finalization changed the unsigned transaction'')) else Ok ()))"

definition vault_accepted ::
  "('a, 'c, 'w, 'e, 'd) vault_lib \<Rightarrow> 'c \<Rightarrow> signing_request \<Rightarrow> string \<Rightarrow> ('w, unit) cmd" where
  "vault_accepted lib client request label w =
     (case vl_sign lib client w request of
        (Ok signed_psbt, w') \<Rightarrow> (vault_finalized lib request label signed_psbt, w')
      | (Err _, w') \<Rightarrow> (Err (Msg (label @ '': expected a verified signature'')), w')
      | (Panic, w') \<Rightarrow> (Panic, w'))"

definition vault_rejected ::
  "('a, 'c, 'w, 'e, 'd) vault_lib \<Rightarrow> 'c \<Rightarrow> signing_request \<Rightarrow> string \<Rightarrow> ('w, unit) cmd" where
  "vault_rejected lib client =
     rejected (vl_sign lib client) (vl_display lib)
       '': expected Rejected, not transport/validation failure: ''"

subsection \<open>Building the original request\<close>

definition select_requirement :: "'e \<Rightarrow> ('e \<times> spend_path) list \<Rightarrow> ('e \<times> spend_path) result" where
  "select_requirement emulation requirements =
     (if \<not> list_all (\<lambda>requirement. fst requirement = emulation) requirements
      then Err (Msg ''compiled artifact contains an unexpected program or oracle root'')
      else case filter (\<lambda>requirement. snd requirement = KeyPath) requirements of
        [] \<Rightarrow> Err (Msg ''vault has no program key path'')
      | [requirement] \<Rightarrow> Ok requirement
      | _ \<Rightarrow> Err (Msg ''vault has multiple program key-path requirements''))"

definition vault_funding :: "('a, 'c, 'w, 'e, 'd) vault_lib \<Rightarrow> 'd \<Rightarrow> tx_out" where
  "vault_funding lib compiled =
     \<lparr>txo_value = FUNDING_SATS, txo_script_pubkey = vl_address_script lib compiled\<rparr>"

definition vault_transaction :: "('a, 'c, 'w, 'e, 'd) vault_lib \<Rightarrow> 'd \<Rightarrow> script \<Rightarrow> transaction" where
  "vault_transaction lib compiled destination =
     (let funding = \<lparr>tx_version = 2, tx_lock_time = 0, tx_input = [vl_tx_in_default lib],
          tx_output = [vault_funding lib compiled]\<rparr> in
      \<lparr>tx_version = 2, tx_lock_time = 0,
       tx_input = [(vl_tx_in_default lib)\<lparr>ti_previous_output := \<lparr>op_txid = vl_txid lib funding, op_vout = 0\<rparr>\<rparr>],
       tx_output = [\<lparr>txo_value = FUNDING_SATS - 500, txo_script_pubkey = destination\<rparr>]\<rparr>)"

definition vault_original ::
  "('a, 'c, 'w, 'e, 'd) vault_lib \<Rightarrow> 'e \<Rightarrow> script \<Rightarrow> signing_request result" where
  "vault_original lib emulation destination =
     bind_res (map_err (\<lambda>e. Msg (''vault path: '' @ e)) (vl_effect_path lib ''vault'')) (\<lambda>path.
     bind_res (map_err (\<lambda>e. Msg (''compile safe-withdrawal contract: '' @ e))
         (vl_compile lib emulation Regtest FUNDING_SATS path)) (\<lambda>compiled.
     bind_res (vl_requirements lib compiled) (\<lambda>requirements.
     bind_res (select_requirement emulation requirements) (\<lambda>requirement.
     bind_res (vl_psbt_from_unsigned_tx lib (vault_transaction lib compiled destination)) (\<lambda>psbt.
     bind_res (edit_nth (psbt_inputs psbt) 0 (\<lambda>m. Ok (m\<lparr>pi_witness_utxo := Some (vault_funding lib compiled)\<rparr>)))
       (\<lambda>ms.
     vl_prepare_program_request lib compiled requirement (psbt\<lparr>psbt_inputs := ms\<rparr>) 0 []))))))"

subsection \<open>The variations\<close>

definition maximum_fee :: "signing_request \<Rightarrow> signing_request result" where
  "maximum_fee = edit_tx (edit_output 0 (set_value (FUNDING_SATS - MAX_FEE_SATS)))"

definition excessive_fee :: "signing_request \<Rightarrow> signing_request result" where
  "excessive_fee = edit_tx (edit_output 0 (set_value (FUNDING_SATS - 1001)))"

definition redirected :: "('a, 'c, 'w, 'e, 'd) vault_lib \<Rightarrow> signing_request \<Rightarrow> signing_request result" where
  "redirected lib = edit_tx (edit_output 0 (set_script (vault_recipient lib 43)))"

definition negative_fee :: "signing_request \<Rightarrow> signing_request result" where
  "negative_fee = edit_tx (edit_output 0 (set_value (FUNDING_SATS + 1)))"

definition set_funding_value :: "u64 \<Rightarrow> signing_request \<Rightarrow> signing_request result" where
  "set_funding_value v r =
     bind_res (edit_nth (psbt_inputs (rq_psbt r)) 0 (\<lambda>m.
         bind_res (ok_or (Msg ''missing funding witness'') (pi_witness_utxo m)) (\<lambda>utxo.
         Ok (m\<lparr>pi_witness_utxo := Some (utxo\<lparr>txo_value := v\<rparr>)\<rparr>)))) (\<lambda>ms.
     Ok (r\<lparr>rq_psbt := (rq_psbt r)\<lparr>psbt_inputs := ms\<rparr>\<rparr>))"

definition dust :: "signing_request \<Rightarrow> signing_request result" where
  "dust r = bind_res (set_funding_value (MAX_FEE_SATS + 200) r) (edit_tx (edit_output 0 (set_value 200)))"

definition dust_boundary :: "signing_request \<Rightarrow> signing_request result" where
  "dust_boundary r =
     bind_res (set_funding_value (MAX_FEE_SATS + 330) r) (edit_tx (edit_output 0 (set_value 330)))"

definition extra_output ::
  "('a, 'c, 'w, 'e, 'd) vault_lib \<Rightarrow> script \<Rightarrow> signing_request \<Rightarrow> signing_request result" where
  "extra_output lib destination r =
     bind_res (edit_tx (edit_output 0 (sub_value 1)) r) (\<lambda>r1.
     bind_res (edit_tx (\<lambda>tx. Ok (tx\<lparr>tx_output := tx_output tx @
         [\<lparr>txo_value = 1, txo_script_pubkey = destination\<rparr>]\<rparr>)) r1) (\<lambda>r2.
     Ok (r2\<lparr>rq_psbt := vl_push_default_output lib (rq_psbt r2)\<rparr>)))"

definition extra_input :: "('a, 'c, 'w, 'e, 'd) vault_lib \<Rightarrow> signing_request \<Rightarrow> signing_request result" where
  "extra_input lib r =
     bind_res (edit_tx (\<lambda>tx. Ok (tx\<lparr>tx_input := tx_input tx @ [(vl_tx_in_default lib)
         \<lparr>ti_previous_output := \<lparr>op_txid = replicate 32 7, op_vout = 0\<rparr>\<rparr>]\<rparr>)) r) (\<lambda>r1.
     edit_tx (edit_output 0 (add_value 1000))
       (r1\<lparr>rq_psbt := (rq_psbt r1)\<lparr>psbt_inputs := psbt_inputs (rq_psbt r1) @
          [(vl_psbt_input_default lib)\<lparr>pi_witness_utxo :=
             Some \<lparr>txo_value = 1000, txo_script_pubkey = vault_recipient lib 44\<rparr>\<rparr>]\<rparr>\<rparr>))"

definition unexpected_witness :: "signing_request \<Rightarrow> signing_request result" where
  "unexpected_witness r = Ok (r\<lparr>rq_witness := rq_witness r @ [1]\<rparr>)"

definition substituted ::
  "('a, 'c, 'w, 'e, 'd) vault_lib \<Rightarrow> script \<Rightarrow> signing_request \<Rightarrow> signing_request result" where
  "substituted lib destination r =
     bind_res (vault_instance (vl_wasm lib) (VAULT_WASM lib) (MAX_FEE_SATS + 1) destination) (\<lambda>i.
     Ok (r\<lparr>rq_instance := i\<rparr>))"

definition vault_steps ::
  "('a, 'c, 'w, 'e, 'd) vault_lib \<Rightarrow> script \<Rightarrow> signing_request \<Rightarrow> step list" where
  "vault_steps lib destination original =
     [Accept (Ok original) ''500-sat fee to committed recipient'',
      Accept (maximum_fee original) ''exact 1000-sat maximum fee under same instance/funding'',
      Reject (excessive_fee original) ''1001-sat fee exceeds committed cap'',
      Reject (redirected lib original) ''different recipient at allowed 500-sat fee'',
      Reject (negative_fee original) ''outputs exceed input by 1 sat'',
      Reject (dust original) ''200-sat sweep output below the 330-sat dust floor, in-cap fee'',
      Accept (dust_boundary original) ''330-sat dust-floor boundary output with in-cap fee'',
      Reject (extra_output lib destination original) ''extra output, same recipient and total 500-sat fee'',
      Reject (extra_input lib original) ''extra input, same recipient and total 500-sat fee'',
      Reject (unexpected_witness original) ''unexpected predicate witness'',
      Reject (substituted lib destination original)
        ''relaxed fee policy substituted against original funding'',
      Accept (Ok original) ''valid 500-sat sweep still signs after all rejections'']"

subsection \<open>The client\<close>

text \<open>Everything before the first request: identity, connection, contract and original request.\<close>

definition vault_setup ::
  "('a, 'f) client_lib \<Rightarrow> deployment_lib \<Rightarrow> ('a, 'c, 'w, 'e, 'd) vault_lib \<Rightarrow> 'a options \<Rightarrow>
     ('c \<times> script \<times> signing_request) result" where
  "vault_setup clib dl lib opts =
     bind_res (load_identity clib dl opts) (\<lambda>identity.
     bind_res (vl_client_new lib (op_address opts) (ci_xpub identity)) (\<lambda>client.
     bind_res (safe_withdrawal_new (vl_wasm lib) (vl_emulate lib) (VAULT_WASM lib) MAX_FEE_SATS
         (vault_recipient lib 42) (ci_xpub identity)) (\<lambda>emulation.
     bind_res (vault_original lib emulation (vault_recipient lib 42)) (\<lambda>original.
     Ok (client, vault_recipient lib 42, original)))))"

definition vault_main ::
  "('a, 'f) client_lib \<Rightarrow> deployment_lib \<Rightarrow> ('a, 'c, 'w, 'e, 'd) vault_lib \<Rightarrow> os_string list \<Rightarrow>
     ('w, unit) cmd" where
  "vault_main clib dl lib args =
     cmd_bind (cmd_lift (options_of clib args)) (\<lambda>parsed.
     case parsed of
       None \<Rightarrow> cmd_lift (Ok ())
     | Some opts \<Rightarrow>
         cmd_bind (cmd_lift (vault_setup clib dl lib opts)) (\<lambda>(client, destination, original).
         run_steps (vault_accepted lib client) (vault_rejected lib client)
           (vault_steps lib destination original)))"

section \<open>Specification\<close>

text \<open>Documented behaviour of the libraries: constructors keep what they are given and check only its size, a PSBT made from a
  transaction has one empty map per input, the prepared request spends the given PSBT under the program
  of its requirement, the compiled address commits to the contract's program, and ordinary sizes.\<close>

definition vault_lib_laws ::
  "('a, 'c, 'w, 'e, 'd) vault_lib \<Rightarrow> (script \<Rightarrow> program_instance option) \<Rightarrow> bool" where
  "vault_lib_laws lib program_of \<longleftrightarrow>
     (\<forall>m p i. vl_wasm lib m p = Ok i \<longrightarrow> pr_program i = m \<and> pr_parameters i = p \<and>
        (\<forall>q. length q = length p \<longrightarrow> (\<exists>j. vl_wasm lib m q = Ok j))) \<and>
     (\<forall>h. length h = 20 \<longrightarrow> length (vl_p2wpkh lib h) = 22) \<and> inj_on (vl_p2wpkh lib) {h. length h = 20} \<and>
     (\<forall>tx. length (vl_txid lib tx) = 32) \<and>
     pi_tap_internal_key (vl_psbt_input_default lib) = None \<and>
     (\<forall>psbt. psbt_unsigned_tx (vl_push_default_output lib psbt) = psbt_unsigned_tx psbt \<and>
        psbt_inputs (vl_push_default_output lib psbt) = psbt_inputs psbt) \<and>
     (\<forall>tx psbt. vl_psbt_from_unsigned_tx lib tx = Ok psbt \<longrightarrow>
        psbt_unsigned_tx psbt = tx \<and> length (psbt_inputs psbt) = length (tx_input tx)) \<and>
     (\<forall>i root e net funds path d. vl_emulate lib i root = Ok e \<longrightarrow> vl_compile lib e net funds path = Ok d \<longrightarrow>
        program_of (vl_address_script lib d) = Some i \<and> length (vl_address_script lib d) = 34 \<and>
        (\<forall>path' psbt n w r. vl_prepare_program_request lib d (e, path') psbt n w = Ok r \<longrightarrow>
           rq_instance r = i \<and> unat (rq_input_index r) = n \<and> rq_witness r = w \<and>
           psbt_unsigned_tx (rq_psbt r) = psbt_unsigned_tx psbt \<and>
           map pi_witness_utxo (psbt_inputs (rq_psbt r)) = map pi_witness_utxo (psbt_inputs psbt) \<and>
           list_all (\<lambda>m. case pi_tap_internal_key m of None \<Rightarrow> True | Some k \<Rightarrow> length k = 32)
             (psbt_inputs (rq_psbt r))))"

text \<open>A signed request finalizes to a transaction with the same identifier.\<close>

locale finalizing_signer = honest_signer sign inv approves
  for sign :: "'w signer" and inv approves +
  fixes lib :: "('a, 'c, 'w, 'e, 'd) vault_lib" and client :: 'c
  assumes sign_eq: "vl_sign lib client = sign"
    and finalizes: "inv w \<Longrightarrow> sign w r = (Ok p, w') \<Longrightarrow>
      \<exists>f tx. vl_finalize lib p = Ok f \<and> vl_extract_tx lib f = Ok tx \<and>
        vl_txid lib tx = vl_txid lib (psbt_unsigned_tx (rq_psbt r))"
begin

lemma vault_accepted_iff:
  assumes "inv w"
  shows "inv (snd (vault_accepted lib client r label w)) \<and>
    (fst (vault_accepted lib client r label w) = Ok () \<longleftrightarrow> approves r)"
proof (cases "approves r")
  case True
  with sign_approved [OF assms] obtain p w' where s: "sign w r = (Ok p, w')" "inv w'" by blast
  with finalizes [OF assms s(1)] True show ?thesis
    by (auto simp: vault_accepted_def vault_finalized_def sign_eq)
next
  case False
  with sign_refused [OF assms] obtain e w' where "sign w r = (Err (ClientRejected e), w')" "inv w'" by blast
  with False show ?thesis by (simp add: vault_accepted_def sign_eq)
qed

lemma vault_demo_iff:
  assumes "inv w"
  shows "fst (run_steps (vault_accepted lib client) (vault_rejected lib client) steps w) = Ok () \<longleftrightarrow>
    list_all (expects approves) steps"
proof -
  have "inv w \<Longrightarrow> inv (snd (vault_rejected lib client r label w)) \<and>
      (fst (vault_rejected lib client r label w) = Ok () \<longleftrightarrow> \<not> approves r)" for w r label
    unfolding vault_rejected_def sign_eq by (rule rejected_iff)
  from run_steps_iff [OF vault_accepted_iff this assms] show ?thesis by simp
qed

end

text \<open>The deployment of the vault module: a fresh instance per evaluation, and a module that passes the
  checks of the host.\<close>

definition vault_deployed ::
  "(bytes \<Rightarrow> (string, payload) res list) \<Rightarrow> guest \<Rightarrow> (outpoint \<Rightarrow> bytes) \<Rightarrow> bytes \<Rightarrow> bool" where
  "vault_deployed parser g enc wasm \<longleftrightarrow> fresh_guest g \<and> outpoint_codec enc \<and> check_module_bytes wasm = Ok () \<and>
     check_compilation_budget (guest_runtime parser (\<lambda>_. vault_evaluate) g) V1 wasm = Ok ()"

section \<open>Lemmas\<close>

lemma vault_evaluate_witness:
  "w \<noteq> [] \<Longrightarrow> vault_evaluate \<lparr>ar_program = p, ar_parameters = q, ar_view = v, ar_witness = w\<rparr> = None"
  by (simp add: vault_evaluate_def)

text \<open>The verdict on a request under the committed program.\<close>

lemma vault_verdict:
  assumes dep: "vault_deployed parser g enc wasm"
    and inst: "pr_program (rq_instance r) = wasm" "vault_parameters max_fee destination = Ok (pr_parameters (rq_instance r))"
      "length (pr_parameters (rq_instance r)) \<le> MAX_PARAMETER_BYTES"
    and inp: "authenticated (request_input r)" "total_view_size V1 (request_input r) \<le> MAX_SIGNED_VIEW_BYTES"
  shows "inline_approves (guest_runtime parser (\<lambda>_. vault_evaluate) g) enc V1 program_of r \<longleftrightarrow>
    funded program_of r \<and> rq_witness r = [] \<and> complete_sweep max_fee destination (request_input r)"
proof -
  obtain view where v: "encode_view enc V1 (request_input r) = Ok view"
    using encode_view_fits [OF inp] by auto
  let ?ev = "evaluate (guest_runtime parser (\<lambda>_. vault_evaluate) g) enc V1 wasm [] (pr_parameters (rq_instance r))
      (request_input r) (rq_witness r)"
  note pure = evaluate_pure_guest [OF _ _ _ _ inst(3) _ _ inp(1) v, where program = "[]" and m = wasm]
  have "?ev = Ok True \<longleftrightarrow> rq_witness r = [] \<and> complete_sweep max_fee destination (request_input r)"
  proof (cases "length (rq_witness r) \<le> MAX_WITNESS_BYTES")
    case True
    have "vault_evaluate \<lparr>ar_program = [], ar_parameters = pr_parameters (rq_instance r), ar_view = view,
        ar_witness = rq_witness r\<rparr> =
        (if rq_witness r = [] then Some (complete_sweep max_fee destination (request_input r)) else None)"
      using vault_evaluate_view [OF _ inp(1) v inst(2,3)] dep
      by (auto simp: vault_deployed_def vault_evaluate_witness)
    with pure True dep show ?thesis by (auto simp: vault_deployed_def)
  next
    case False
    then have "?ev \<noteq> Ok True" using dep by (auto simp: evaluate_def vault_deployed_def)
    with False show ?thesis by (auto simp: MAX_WITNESS_BYTES_def)
  qed
  then show ?thesis unfolding inline_approves_def inst(1) by blast
qed

lemma vault_wasm_law:
  assumes "vault_lib_laws lib program_of" and "vl_wasm lib m p = Ok i"
  shows "pr_program i = m" and "pr_parameters i = p"
    and "length q = length p \<Longrightarrow> \<exists>j. vl_wasm lib m q = Ok j"
  using assms(1) [unfolded vault_lib_laws_def, THEN conjunct1] assms(2) by blast+

text \<open>What the setup establishes of the original request.\<close>

definition vault_origin ::
  "('a, 'c, 'w, 'e, 'd) vault_lib \<Rightarrow> (script \<Rightarrow> program_instance option) \<Rightarrow> signing_request \<Rightarrow> bool" where
  "vault_origin lib program_of r \<longleftrightarrow> (\<exists>m s t.
     vl_wasm lib (VAULT_WASM lib) (pr_parameters (rq_instance r)) = Ok (rq_instance r) \<and>
     vault_parameters MAX_FEE_SATS (vault_recipient lib 42) = Ok (pr_parameters (rq_instance r)) \<and>
     rq_input_index r = 0 \<and> rq_witness r = [] \<and> psbt_inputs (rq_psbt r) = [m] \<and>
     pi_witness_utxo m = Some \<lparr>txo_value = FUNDING_SATS, txo_script_pubkey = s\<rparr> \<and> length s = 34 \<and>
     program_of s = Some (rq_instance r) \<and>
     (case pi_tap_internal_key m of None \<Rightarrow> True | Some k \<Rightarrow> length k = 32) \<and> wf_outpoint (ti_previous_output t) \<and>
     psbt_unsigned_tx (rq_psbt r) = \<lparr>tx_version = 2, tx_lock_time = 0, tx_input = [t],
       tx_output = [\<lparr>txo_value = FUNDING_SATS - 500, txo_script_pubkey = vault_recipient lib 42\<rparr>]\<rparr>)"

lemma vault_setup_origin:
  assumes laws: "vault_lib_laws lib program_of"
    and su: "vault_setup clib dl lib opts = Ok (client, destination, original)"
  shows "destination = vault_recipient lib 42" and "vault_origin lib program_of original"
proof -
  from su obtain root emulation i compiled req psbt ms path where
    dest: "destination = vault_recipient lib 42"
    and i: "vault_instance (vl_wasm lib) (VAULT_WASM lib) MAX_FEE_SATS destination = Ok i"
    and e: "vl_emulate lib i root = Ok emulation"
    and c: "vl_compile lib emulation Regtest FUNDING_SATS path = Ok compiled"
    and q: "fst req = emulation"
    and p: "vl_psbt_from_unsigned_tx lib (vault_transaction lib compiled destination) = Ok psbt"
    and ms: "edit_nth (psbt_inputs psbt) 0 (\<lambda>m. Ok (m\<lparr>pi_witness_utxo := Some (vault_funding lib compiled)\<rparr>)) = Ok ms"
    and r: "vl_prepare_program_request lib compiled req (psbt\<lparr>psbt_inputs := ms\<rparr>) 0 [] = Ok original"
    by (auto simp: vault_setup_def safe_withdrawal_new_def vault_original_def select_requirement_def
        bind_res_eq_Ok map_err_eq_Ok list_all_iff filter_eq_Cons_iff split: if_splits list.splits)
  show "destination = vault_recipient lib 42" by (rule dest)
  from p laws have psbt: "psbt_unsigned_tx psbt = vault_transaction lib compiled destination"
    "length (psbt_inputs psbt) = 1"
    by (auto simp: vault_lib_laws_def vault_transaction_def Let_def)
  from r q have r': "vl_prepare_program_request lib compiled (emulation, snd req)
      (psbt\<lparr>psbt_inputs := ms\<rparr>) 0 [] = Ok original" by (cases req) simp
  from laws e c r' have o: "rq_instance original = i" "unat (rq_input_index original) = 0"
    "rq_witness original = []" "psbt_unsigned_tx (rq_psbt original) = psbt_unsigned_tx psbt"
    "map pi_witness_utxo (psbt_inputs (rq_psbt original)) = map pi_witness_utxo ms"
    "list_all (\<lambda>m. case pi_tap_internal_key m of None \<Rightarrow> True | Some k \<Rightarrow> length k = 32)
       (psbt_inputs (rq_psbt original))"
    "program_of (vl_address_script lib compiled) = Some i" "length (vl_address_script lib compiled) = 34"
    unfolding vault_lib_laws_def by fastforce+
  from ms psbt(2) obtain m0 where "ms = [m0]" "pi_witness_utxo m0 = Some (vault_funding lib compiled)"
    by (auto simp: edit_nth_eq_Ok length_Suc_conv)
  with o(5) obtain m where m: "psbt_inputs (rq_psbt original) = [m]"
    "pi_witness_utxo m = Some (vault_funding lib compiled)" by (auto simp: map_eq_Cons_conv)
  from i obtain ps where "vault_parameters MAX_FEE_SATS destination = Ok ps" "vl_wasm lib (VAULT_WASM lib) ps = Ok i"
    by (auto simp: vault_instance_def bind_res_eq_Ok)
  with laws have "vl_wasm lib (VAULT_WASM lib) (pr_parameters i) = Ok i"
    "vault_parameters MAX_FEE_SATS destination = Ok (pr_parameters i)"
    using vault_wasm_law [OF laws] by auto
  moreover have "length (vl_txid lib tx) = 32" for tx using laws by (simp add: vault_lib_laws_def)
  ultimately show "vault_origin lib program_of original"
    using o m psbt dest
    unfolding vault_origin_def
    by (intro exI [of _ m] exI [of _ "vl_address_script lib compiled"])
      (auto simp: vault_funding_def vault_transaction_def Let_def wf_outpoint_def unat_eq_0)
qed

text \<open>The verdict on the one-input requests of the demonstration.\<close>

lemma vault_single_verdict:
  assumes dep: "vault_deployed parser g enc (VAULT_WASM lib)"
    and inst: "pr_program (rq_instance r) = VAULT_WASM lib"
      "vault_parameters MAX_FEE_SATS destination = Ok (pr_parameters (rq_instance r))" "length destination = 22"
    and m: "psbt_inputs (rq_psbt r) = [m]" "pi_witness_utxo m = Some u" "length (txo_script_pubkey u) = 34"
      "case pi_tap_internal_key m of None \<Rightarrow> True | Some k \<Rightarrow> length k = 32"
      "program_of (txo_script_pubkey u) = Some (rq_instance r)"
    and t: "tx_input (psbt_unsigned_tx (rq_psbt r)) = [t]" "wf_outpoint (ti_previous_output t)"
      "rq_input_index r = 0" "outputs_size (tx_output (psbt_unsigned_tx (rq_psbt r))) \<le> 1000"
  shows "inline_approves (guest_runtime parser (\<lambda>_. vault_evaluate) g) enc V1 program_of r \<longleftrightarrow>
    rq_witness r = [] \<and> (\<exists>out. tx_output (psbt_unsigned_tx (rq_psbt r)) = [out] \<and>
      txo_script_pubkey out = destination \<and> 330 \<le> unat (txo_value out) \<and>
      unat (txo_value out) \<le> unat (txo_value u) \<and> unat (txo_value u) \<le> unat (txo_value out) + 1000)"
proof -
  have len: "length (pr_parameters (rq_instance r)) \<le> MAX_PARAMETER_BYTES"
    using inst(2,3) by (auto simp: vault_parameters_eq_Ok MAX_PARAMETER_BYTES_def)
  have "authenticated (request_input r)" using m t by (simp add: authenticated_def)
  moreover have "total_view_size V1 (request_input r) \<le> MAX_SIGNED_VIEW_BYTES"
    using m t by (simp add: total_view_size_def MAX_SIGNED_VIEW_BYTES_def)
  moreover have "funded program_of r" using m t by (simp add: funded_def list_get_def)
  ultimately show ?thesis
    using vault_verdict [OF dep inst(1,2) len, of program_of] m t
    by (auto simp: complete_sweep_def Let_def prevouts_def MAX_FEE_SATS_def length_Suc_conv)
qed

lemma recipient_props:
  assumes "vault_lib_laws lib program_of"
  shows "length (vault_recipient lib tag) = 22" and "vault_recipient lib 42 \<noteq> vault_recipient lib 43"
proof -
  show "length (vault_recipient lib tag) = 22"
    using assms by (simp add: vault_lib_laws_def vault_recipient_def)
  have "inj_on (vl_p2wpkh lib) {h. length h = 20}" using assms by (simp add: vault_lib_laws_def)
  from inj_onD [OF this, of "replicate 20 42" "replicate 20 43"]
  show "vault_recipient lib 42 \<noteq> vault_recipient lib 43" by (auto simp: vault_recipient_def)
qed

text \<open>Another program, even a more permissive one, cannot spend the funding.\<close>

lemma vault_substituted:
  assumes laws: "vault_lib_laws lib program_of"
    and wasm: "vl_wasm lib (VAULT_WASM lib) (pr_parameters (rq_instance r)) = Ok (rq_instance r)"
    and par: "vault_parameters MAX_FEE_SATS destination = Ok (pr_parameters (rq_instance r))"
    and fund: "psbt_inputs (rq_psbt r) = [m]" "pi_witness_utxo m = Some u" "rq_input_index r = 0"
      "program_of (txo_script_pubkey u) = Some (rq_instance r)"
  shows "\<exists>q. substituted lib destination r = Ok q \<and> \<not> inline_approves rt enc V1 program_of q"
proof -
  obtain ps where ps: "vault_parameters (MAX_FEE_SATS + 1) destination = Ok ps"
    and len: "length ps = length (pr_parameters (rq_instance r))" and ne: "ps \<noteq> pr_parameters (rq_instance r)"
    using par by (auto simp: vault_parameters_eq_Ok MAX_FEE_SATS_def)
  from wasm laws len obtain j where j: "vl_wasm lib (VAULT_WASM lib) ps = Ok j" "pr_parameters j = ps"
    using vault_wasm_law [OF laws] by metis
  have "substituted lib destination r = Ok (r\<lparr>rq_instance := j\<rparr>)"
    using ps j by (simp add: substituted_def vault_instance_def)
  moreover have "\<not> funded program_of (r\<lparr>rq_instance := j\<rparr>)"
    using fund j ne by (auto simp: funded_def list_get_def)
  ultimately show ?thesis by (auto simp: inline_approves_def)
qed

lemmas edit_simps = edit_tx_def edit_output_def edit_input_def edit_nth_def set_value_def set_script_def
  add_value_def sub_value_def

text \<open>Every expectation of the demonstration is true of the predicate.\<close>

lemma vault_steps_expected:
  assumes dep: "vault_deployed parser g enc (VAULT_WASM lib)" and laws: "vault_lib_laws lib program_of"
    and orig: "vault_origin lib program_of r"
  shows "list_all (expects (inline_approves (guest_runtime parser (\<lambda>_. vault_evaluate) g) enc V1 program_of))
    (vault_steps lib (vault_recipient lib 42) r)"
proof -
  let ?dest = "vault_recipient lib 42"
  let ?ok = "inline_approves (guest_runtime parser (\<lambda>_. vault_evaluate) g) enc V1 program_of"
  from orig obtain m sc t where
    wasm: "vl_wasm lib (VAULT_WASM lib) (pr_parameters (rq_instance r)) = Ok (rq_instance r)"
    and par: "vault_parameters MAX_FEE_SATS ?dest = Ok (pr_parameters (rq_instance r))"
    and r: "rq_input_index r = 0" "rq_witness r = []" "psbt_inputs (rq_psbt r) = [m]"
    and m: "pi_witness_utxo m = Some \<lparr>txo_value = FUNDING_SATS, txo_script_pubkey = sc\<rparr>" "length sc = 34"
      "program_of sc = Some (rq_instance r)" "case pi_tap_internal_key m of None \<Rightarrow> True | Some k \<Rightarrow> length k = 32"
    and t: "wf_outpoint (ti_previous_output t)"
      "psbt_unsigned_tx (rq_psbt r) = \<lparr>tx_version = 2, tx_lock_time = 0, tx_input = [t],
       tx_output = [\<lparr>txo_value = FUNDING_SATS - 500, txo_script_pubkey = ?dest\<rparr>]\<rparr>"
    unfolding vault_origin_def by blast
  note len = recipient_props(1) [OF laws] and neq = recipient_props(2) [OF laws]
  have inst: "pr_program (rq_instance r) = VAULT_WASM lib"
    "vault_parameters MAX_FEE_SATS ?dest = Ok (pr_parameters (rq_instance r))"
    using vault_wasm_law(1) [OF laws wasm] par by simp_all
  let ?u = "\<lambda>v. \<lparr>txo_value = v, txo_script_pubkey = sc\<rparr>"
  note verdict = vault_single_verdict [OF dep, where destination = ?dest and program_of = program_of and t = t]
  have push: "psbt_unsigned_tx (vl_push_default_output lib psbt) = psbt_unsigned_tx psbt"
    "psbt_inputs (vl_push_default_output lib psbt) = psbt_inputs psbt" for psbt
    using laws by (simp_all add: vault_lib_laws_def)
  have key: "pi_tap_internal_key (vl_psbt_input_default lib) = None"
    using laws by (simp_all add: vault_lib_laws_def)
  have plen: "length (pr_parameters (rq_instance r)) = 34"
    using par len by (auto simp: vault_parameters_eq_Ok)
  note verdict0 = verdict [where m = m and u = "?u FUNDING_SATS"]
  note facts = inst inst(2) [unfolded MAX_FEE_SATS_def] r m t len FUNDING_SATS_def MAX_FEE_SATS_def
  have "?ok r" by (subst verdict0) (simp_all add: facts)
  moreover have "\<exists>q. maximum_fee r = Ok q \<and> ?ok q"
    by (simp add: maximum_fee_def edit_simps facts, subst verdict0) (simp_all add: facts)
  moreover have "\<exists>q. excessive_fee r = Ok q \<and> \<not> ?ok q"
    by (simp add: excessive_fee_def edit_simps facts, subst verdict0) (simp_all add: facts)
  moreover have "\<exists>q. redirected lib r = Ok q \<and> \<not> ?ok q"
    by (simp add: redirected_def edit_simps facts, subst verdict0) (simp_all add: facts neq [symmetric])
  moreover have "\<exists>q. negative_fee r = Ok q \<and> \<not> ?ok q"
    by (simp add: negative_fee_def edit_simps facts, subst verdict0) (simp_all add: facts)
  moreover have "\<exists>q. dust r = Ok q \<and> \<not> ?ok q"
    by (simp add: dust_def set_funding_value_def edit_simps facts, subst verdict [where u = "?u 1200" and m = "m\<lparr>pi_witness_utxo := Some (?u 1200)\<rparr>"])
      (simp_all add: facts)
  moreover have "\<exists>q. dust_boundary r = Ok q \<and> ?ok q"
    by (simp add: dust_boundary_def set_funding_value_def edit_simps facts, subst verdict [where u = "?u 1330" and m = "m\<lparr>pi_witness_utxo := Some (?u 1330)\<rparr>"])
      (simp_all add: facts)
  moreover have "\<exists>q. unexpected_witness r = Ok q \<and> \<not> ?ok q"
    by (simp add: unexpected_witness_def, subst verdict0) (simp_all add: facts)
  moreover have "\<exists>q. extra_output lib ?dest r = Ok q \<and> \<not> ?ok q"
    by (simp add: extra_output_def edit_simps facts, subst verdict0) (simp_all add: facts push)
  moreover have "\<exists>q. extra_input lib r = Ok q \<and> \<not> ?ok q"
    by (simp add: extra_input_def edit_simps facts, subst vault_verdict [OF dep, where max_fee = MAX_FEE_SATS and destination = ?dest])
      (simp_all add: facts key complete_sweep_def authenticated_def total_view_size_def wf_outpoint_def
        MAX_PARAMETER_BYTES_def MAX_SIGNED_VIEW_BYTES_def plen t(1) [unfolded wf_outpoint_def])
  moreover have "\<exists>q. substituted lib ?dest r = Ok q \<and> \<not> ?ok q"
    by (rule vault_substituted [OF laws wasm par r(3) m(1) r(1)]) (simp add: m)
  ultimately show ?thesis by (simp add: vault_steps_def)
qed

section \<open>A sample run\<close>

abbreviation sample_vault_module :: "(unit, guest) wasm_runtime" where
  "sample_vault_module \<equiv> guest_runtime (\<lambda>_. []) (\<lambda>_. vault_evaluate) sample_guest"

definition sample_committed :: program_instance where
  "sample_committed = \<lparr>pr_evaluator = [1], pr_program = WASM_HEADER,
     pr_parameters = u64_to_le 1000 @ u32_to_le 22 @ [0, 20] @ replicate 20 42\<rparr>"

definition sample_program_of :: "script \<Rightarrow> program_instance option" where
  "sample_program_of s = (if s = replicate 34 81 then Some sample_committed else None)"

definition sample_vault_lib :: "(nat, unit, nat, program_instance, program_instance) vault_lib" where
  "sample_vault_lib = \<lparr>vl_client_new = (\<lambda>_ _. Ok ()),
     vl_sign = (\<lambda>_. inline_sign sample_vault_module sample_enc V1 sample_program_of),
     vl_display = (\<lambda>_. ''error''), vl_p2wpkh = (\<lambda>h. [0, 20] @ h),
     vl_wasm = (\<lambda>m p. Ok \<lparr>pr_evaluator = [1], pr_program = m, pr_parameters = p\<rparr>),
     vl_emulate = (\<lambda>i _. if i = sample_committed then Ok i else Err (Msg ''unknown program'')),
     VAULT_WASM = WASM_HEADER, vl_effect_path = Ok, vl_compile = (\<lambda>e _ _ _. Ok e),
     vl_requirements = (\<lambda>d. Ok [(d, KeyPath)]), vl_address_script = (\<lambda>_. replicate 34 81),
     vl_txid = (\<lambda>_. replicate 32 9),
     vl_psbt_from_unsigned_tx = (\<lambda>tx. Ok \<lparr>psbt_unsigned_tx = tx,
       psbt_inputs = map (\<lambda>_. sample_psbt_input) (tx_input tx), psbt_other = []\<rparr>),
     vl_prepare_program_request = (\<lambda>d q psbt n w.
       if n < 2 ^ 32 then Ok \<lparr>rq_instance = d, rq_input_index = word_of_nat n, rq_witness = w, rq_path = snd q,
         rq_psbt = psbt\<lparr>psbt_inputs := map (\<lambda>m. m\<lparr>pi_tap_internal_key := None\<rparr>) (psbt_inputs psbt)\<rparr>\<rparr>
       else Err (Msg ''input index'')),
     vl_finalize = Ok, vl_extract_tx = (\<lambda>p. Ok (psbt_unsigned_tx p)),
     vl_tx_in_default = \<lparr>ti_previous_output = sample_outpoint, ti_sequence = 4294967295\<rparr>,
     vl_psbt_input_default = sample_psbt_input\<lparr>pi_tap_internal_key := None\<rparr>,
     vl_push_default_output = (\<lambda>p. p\<lparr>psbt_other := psbt_other p @ [0]\<rparr>)\<rparr>"

lemma sample_vault_laws: "vault_lib_laws sample_vault_lib sample_program_of"
  by (auto simp: vault_lib_laws_def sample_vault_lib_def sample_program_of_def inj_on_def comp_def
      list_all_iff unat_word_of_nat_u32 split: if_splits)

lemma sample_vault_deployed: "vault_deployed (\<lambda>_. []) sample_guest sample_enc (VAULT_WASM sample_vault_lib)"
  by (simp add: vault_deployed_def sample_vault_lib_def sample_guest_fresh sample_enc_codec check_module_bytes_def
      WASM_HEADER_def MAX_PROGRAM_BYTES_def check_compilation_budget_def)

interpretation sample_vault: finalizing_signer "inline_sign sample_vault_module sample_enc V1 sample_program_of"
  "\<lambda>_. True" "inline_approves sample_vault_module sample_enc V1 sample_program_of" sample_vault_lib "()"
  by unfold_locales (auto simp: sample_vault_lib_def)

lemma sample_vault_setup:
  "\<exists>original. vault_setup sample_client sample_deployment sample_vault_lib sample_options =
     Ok ((), [0, 20] @ replicate 20 42, original)"
  by (simp add: vault_setup_def sample_load_identity safe_withdrawal_new_def vault_instance_def vault_original_def
      vault_parameters_def select_requirement_def sample_vault_lib_def vault_recipient_def sample_committed_def
      MAX_FEE_SATS_def vault_transaction_def edit_nth_def u32_try_from_def)

section \<open>Properties\<close>

text \<open>C11: the vault demonstration passes. Against every oracle that signs exactly the requests whose
  funding commits to their program and on which that program, evaluated by the host, returns true,
  the client accepts all four sweeps and sees all eight other requests refused: the cap, the exact
  recipient, the nonnegative fee, the dust floor on both sides of its boundary, the single input and
  output, the empty witness and the commitment are each enforced, and a refusal leaves the oracle in
  service.\<close>

theorem vault_demo_passes:
  assumes "vault_deployed parser g enc (VAULT_WASM lib)" and "vault_lib_laws lib program_of"
    and "options_of clib args = Ok (Some opts)"
    and "vault_setup clib dl lib opts = Ok (client, destination, original)"
    and "finalizing_signer sign ready
      (inline_approves (guest_runtime parser (\<lambda>_. vault_evaluate) g) enc V1 program_of) lib client"
    and "ready w"
  shows "fst (vault_main clib dl lib args w) = Ok ()"
proof -
  note origin = vault_setup_origin [OF assms(2,4)]
  from finalizing_signer.vault_demo_iff [OF assms(5,6)] vault_steps_expected [OF assms(1,2) origin(2)]
  show ?thesis using assms(3,4) origin(1) by (simp add: vault_main_def cmd_lift_def)
qed

theorem vault_demo_passes_witness:
  "fst (vault_main sample_client sample_deployment sample_vault_lib sample_arguments 0) = Ok ()"
proof -
  from sample_vault_setup obtain original where
    su: "vault_setup sample_client sample_deployment sample_vault_lib sample_options =
      Ok ((), [0, 20] @ replicate 20 42, original)" ..
  show ?thesis
    by (rule vault_demo_passes [OF sample_vault_deployed sample_vault_laws sample_options_of su
        sample_vault.finalizing_signer_axioms]) simp
qed

end
