(* ===== verification/Templatehash.thy ===== *)
theory Templatehash
  imports Guest
begin

text \<open>
  The BIP-446 template-hash example: the inline predicate
  \<open>src/examples/templatehash/predicate.rs\<close>, which recomputes the hash from the signed view inside
  the guest's bounded arena, and the client's computation of the same hash from the transaction,
  \<open>src/examples/templatehash/main.rs\<close>.

  SHA-256 is a parameter: \<open>sha\<close> for the client's crate, \<open>imp\<close> for the host function the guest
  imports. The main result is the equivalence of the two computations on every view the host can
  encode, as long as the arena has room for the predicate's two scratch buffers.
\<close>

section \<open>Operations of the client\<close>

definition DIGEST :: nat where "DIGEST = 32"

definition tagged_hash :: "(bytes \<Rightarrow> bytes) \<Rightarrow> string \<Rightarrow> bytes \<Rightarrow> bytes" where
  "tagged_hash sha tag message =
     (let tag_hash = sha (str_bytes tag) in sha (tag_hash @ tag_hash @ message))"

definition push_compact_size :: "bytes \<Rightarrow> nat \<Rightarrow> bytes" where
  "push_compact_size buffer len =
     (if len < 253 then buffer @ le_nat 1 len
      else if len \<le> 65535 then buffer @ [253] @ le_nat 2 len
      else if len \<le> 4294967295 then buffer @ [254] @ le_nat 4 len
      else buffer @ [255] @ le_nat 8 len)"

definition sha_sequences :: "(bytes \<Rightarrow> bytes) \<Rightarrow> transaction \<Rightarrow> bytes" where
  "sha_sequences sha tx = sha (concat (map (\<lambda>i. u32_to_le (ti_sequence i)) (tx_input tx)))"

definition push_output :: "bytes \<Rightarrow> tx_out \<Rightarrow> bytes" where
  "push_output buffer out =
     push_compact_size (buffer @ u64_to_le (txo_value out)) (length (txo_script_pubkey out)) @
     txo_script_pubkey out"

definition sha_outputs :: "(bytes \<Rightarrow> bytes) \<Rightarrow> transaction \<Rightarrow> bytes" where
  "sha_outputs sha tx = sha (foldl push_output [] (tx_output tx))"

definition template_hash :: "(bytes \<Rightarrow> bytes) \<Rightarrow> transaction \<Rightarrow> u32 \<Rightarrow> bytes" where
  "template_hash sha tx input_index =
     tagged_hash sha ''TemplateHash''
       (u32_to_le (tx_version tx) @ u32_to_le (tx_lock_time tx) @ sha_sequences sha tx @
        sha_outputs sha tx @ [0] @ u32_to_le input_index)"

text \<open>\<open>wasm\<close> stands for \<open>ProgramInstance::wasm\<close>.\<close>

definition instance_for ::
  "(bytes \<Rightarrow> bytes \<Rightarrow> program_instance result) \<Rightarrow> bytes \<Rightarrow> (bytes \<Rightarrow> bytes) \<Rightarrow> transaction \<Rightarrow> u32 \<Rightarrow>
     program_instance result" where
  "instance_for wasm TEMPLATEHASH_WASM sha tx input_index =
     wasm TEMPLATEHASH_WASM (template_hash sha tx input_index)"

section \<open>Operations of the predicate\<close>

definition scratch :: "guest \<Rightarrow> nat \<Rightarrow> (bytes \<times> guest) option" where
  "scratch g len =
     Option.bind (u32_try_from len) (\<lambda>n.
     case sapio_alloc_v1 g n of (pointer, g') \<Rightarrow>
       if pointer = 0 \<or> len = 0 then None else Some (mem_get g (unat pointer) len, g'))"

text \<open>\<open>buffer.get_mut(offset..offset + n)?.copy_from_slice(..)\<close>.\<close>

definition buf_put :: "bytes \<Rightarrow> nat \<Rightarrow> bytes \<Rightarrow> bytes option" where
  "buf_put buffer offset bs =
     (if offset + length bs \<le> length buffer
      then Some (take offset buffer @ bs @ drop (offset + length bs) buffer) else None)"

definition guest_push_compact_size :: "bytes \<Rightarrow> nat \<Rightarrow> u32 \<Rightarrow> (bytes \<times> nat) option" where
  "guest_push_compact_size buffer offset len =
     (if len < 253 then map_option (\<lambda>b. (b, offset + 1)) (buf_put buffer offset (le_nat 1 (unat len)))
      else if len \<le> 65535
      then map_option (\<lambda>b. (b, offset + 3)) (buf_put buffer offset (253 # le_nat 2 (unat len)))
      else map_option (\<lambda>b. (b, offset + 5)) (buf_put buffer offset (254 # u32_to_le len)))"

text \<open>The loop over the four-byte slots of the sequence buffer.\<close>

fun fill_sequences :: "bytes \<Rightarrow> reader \<Rightarrow> (bytes \<times> reader) option" where
  "fill_sequences buffer r =
     (if length buffer < 4 then Some (buffer, r)
      else
        Option.bind (reader_take r 36) (\<lambda>(_, r1).
        Option.bind (reader_take r1 4) (\<lambda>(slot, r2).
        Option.bind (reader_take r2 8) (\<lambda>(_, r3).
        Option.bind (reader_u32 r3) (\<lambda>(script_length, r4).
        Option.bind (reader_take r4 (unat script_length)) (\<lambda>(_, r5).
        Option.bind (fill_sequences (drop 4 buffer) r5) (\<lambda>(rest, r6). Some (slot @ rest, r6))))))))"

declare fill_sequences.simps [simp del]

text \<open>The loop over the outputs, into the output buffer.\<close>

fun write_outputs :: "nat \<Rightarrow> bytes \<Rightarrow> nat \<Rightarrow> reader \<Rightarrow> (bytes \<times> nat \<times> reader) option" where
  "write_outputs 0 outputs used r = Some (outputs, used, r)"
| "write_outputs (Suc n) outputs used r =
     Option.bind (reader_take r 8) (\<lambda>(value, r1).
     Option.bind (reader_u32 r1) (\<lambda>(script_length, r2).
     Option.bind (reader_take r2 (unat script_length)) (\<lambda>(script, r3).
     Option.bind (buf_put outputs used value) (\<lambda>outputs1.
     Option.bind (guest_push_compact_size outputs1 (used + 8) script_length) (\<lambda>(outputs2, used2).
     Option.bind (buf_put outputs2 used2 script) (\<lambda>outputs3.
     write_outputs n outputs3 (used2 + length script) r3))))))"

text \<open>The tagged hash over the collected fields, and the comparison.\<close>

definition judge_template ::
  "(bytes \<Rightarrow> bytes option) \<Rightarrow> bytes \<Rightarrow> bytes \<Rightarrow> bytes \<Rightarrow> bytes \<Rightarrow> u32 \<Rightarrow> bool option" where
  "judge_template imp committed header sequences outputs input_index =
     Option.bind (guest_hash imp sequences DIGEST) (\<lambda>sha_seq.
     Option.bind (guest_hash imp outputs DIGEST) (\<lambda>sha_out.
     Option.bind (guest_hash imp (str_bytes ''TemplateHash'') DIGEST) (\<lambda>tag_hash.
     Option.bind (guest_hash imp
       (tag_hash @ tag_hash @ take 8 header @ sha_seq @ sha_out @ [0] @ u32_to_le input_index) DIGEST)
       (\<lambda>digest. Some (digest = committed)))))"

definition template_evaluate ::
  "(bytes \<Rightarrow> bytes option) \<Rightarrow> guest \<Rightarrow> arguments \<Rightarrow> bool option" where
  "template_evaluate imp g args =
     (if ar_program args \<noteq> [] \<or> ar_witness args \<noteq> [] then None
      else if length (ar_parameters args) \<noteq> DIGEST then None
      else
        Option.bind (reader_take (reader_new (ar_view args)) 16) (\<lambda>(header, r1).
        let input_index = u32_from_le (take 4 (drop 8 header));
            input_count = unat (u32_from_le (take 4 (drop 12 header))) in
        if input_count \<le> unat input_index then None
        else
          Option.bind (scratch g ((4 * input_count) mod 2 ^ 32)) (\<lambda>(buffer, g1).
          Option.bind (fill_sequences buffer r1) (\<lambda>(sequences, r2).
          Option.bind (reader_u32 r2) (\<lambda>(output_count, r3).
          Option.bind (scratch g1 (length (ar_view args))) (\<lambda>(obuffer, _).
          Option.bind (write_outputs (unat output_count) obuffer 0 r3) (\<lambda>(outputs, used, r4).
          if \<not> is_finished r4 then None
          else judge_template imp (ar_parameters args) header sequences (take used outputs)
                 input_index)))))))"

text \<open>The exported entry point.\<close>

definition template_sapio_evaluate_v1 ::
  "(bytes \<Rightarrow> bytes option) \<Rightarrow> guest \<Rightarrow> u32 \<Rightarrow> u32 \<Rightarrow> u32 \<Rightarrow> u32 \<Rightarrow> u32 \<Rightarrow> u32 \<Rightarrow> u32 \<Rightarrow> u32 \<Rightarrow> u32" where
  "template_sapio_evaluate_v1 imp g pp pl ap al vp vl wp wl =
     evaluate_guest (template_evaluate imp) g [pp, pl, ap, al, vp, vl, wp, wl]"

section \<open>Specification\<close>

text \<open>The consensus serialization of one output, and its size.\<close>

definition ser_output :: "tx_out \<Rightarrow> bytes" where
  "ser_output out = u64_to_le (txo_value out) @
     push_compact_size [] (length (txo_script_pubkey out)) @ txo_script_pubkey out"

text \<open>What the predicate relies on of the imported host function.\<close>

definition sha_import :: "(bytes \<Rightarrow> bytes) \<Rightarrow> (bytes \<Rightarrow> bytes option) \<Rightarrow> bool" where
  "sha_import sha imp \<longleftrightarrow> (\<forall>bs. imp bs = Some (sha bs))"

text \<open>The byte strings hashed on the way to a template hash.\<close>

definition template_message :: "(bytes \<Rightarrow> bytes) \<Rightarrow> transaction \<Rightarrow> u32 \<Rightarrow> bytes" where
  "template_message sha tx idx =
     u32_to_le (tx_version tx) @ u32_to_le (tx_lock_time tx) @ sha_sequences sha tx @
     sha_outputs sha tx @ [0] @ u32_to_le idx"

definition template_preimages :: "(bytes \<Rightarrow> bytes) \<Rightarrow> transaction \<Rightarrow> u32 \<Rightarrow> bytes set" where
  "template_preimages sha tx idx =
     {concat (map (\<lambda>i. u32_to_le (ti_sequence i)) (tx_input tx)),
      concat (map ser_output (tx_output tx)),
      sha (str_bytes ''TemplateHash'') @ sha (str_bytes ''TemplateHash'') @ template_message sha tx idx}"

definition sample_sha :: "bytes \<Rightarrow> bytes" where
  "sample_sha bs = replicate 31 0 @ [word_of_nat (nat_le bs mod 251)]"

section \<open>Lemmas\<close>

text \<open>The runtime calls the exported entry point.\<close>

lemma template_call:
  "rt_call_evaluate (guest_runtime parser (template_evaluate imp) fresh) g nm [pp, pl, ap, al, vp, vl, wp, wl] =
     (Ok (template_sapio_evaluate_v1 imp g pp pl ap al vp vl wp wl), g)"
  by (simp add: template_sapio_evaluate_v1_def)

subsection \<open>The client\<close>

lemma push_compact_size_append: "push_compact_size buffer n = buffer @ push_compact_size [] n"
  by (simp add: push_compact_size_def)

lemma push_output_append: "push_output buffer out = buffer @ ser_output out"
  by (simp add: push_output_def ser_output_def push_compact_size_append [of "buffer @ _"])

lemma foldl_push_output: "foldl push_output buffer outs = buffer @ concat (map ser_output outs)"
  by (induction outs arbitrary: buffer) (simp_all add: push_output_append)

subsection \<open>Buffers\<close>

lemma map_zip_fst: "length (zip xs ys) = length xs \<Longrightarrow> map (\<lambda>p. f (fst p)) (zip xs ys) = map f xs"
  by (simp add: list_eq_iff_nth_eq)

lemma buf_put_fits:
  assumes "offset + length bs \<le> length buffer"
  obtains buffer' where "buf_put buffer offset bs = Some buffer'" "length buffer' = length buffer"
    "take (offset + length bs) buffer' = take offset buffer @ bs"
  using assms by (auto simp: buf_put_def)

lemma guest_push_compact_size_eq:
  "guest_push_compact_size buffer offset len =
     map_option (\<lambda>b. (b, offset + length (push_compact_size [] (unat len))))
       (buf_put buffer offset (push_compact_size [] (unat len)))"
proof -
  have "unat len < 2 ^ 32" using unsigned_less [of len, where ?'a = nat] by simp
  moreover have "len < 253 \<longleftrightarrow> unat len < 253" "len \<le> 65535 \<longleftrightarrow> unat len \<le> 65535"
    by (simp_all add: word_less_nat_alt word_le_nat_alt)
  ultimately show ?thesis
    by (simp add: guest_push_compact_size_def push_compact_size_def u32_to_le_def del: le_nat_numeral)
qed

subsection \<open>The loops\<close>

lemma fill_sequences_at:
  assumes "outpoint_codec enc"
    and "\<forall>p \<in> set ps. wf_outpoint (ti_previous_output (fst p)) \<and> length (txo_script_pubkey (snd p)) < 2 ^ 32"
    and "suffix (concat (map (encode_input enc) ps) @ ys) bs" and "length bs < 2 ^ 32"
    and "length buffer = 4 * length ps"
  shows "fill_sequences buffer (reader_at bs (concat (map (encode_input enc) ps) @ ys)) =
    Some (concat (map (\<lambda>p. u32_to_le (ti_sequence (fst p))) ps), reader_at bs ys)"
  using assms(2-5)
proof (induction ps arbitrary: buffer)
  case Nil
  then show ?case by (simp add: fill_sequences.simps)
next
  case (Cons p ps)
  let ?rest = "concat (map (encode_input enc) ps) @ ys"
  have op: "length (enc (ti_previous_output (fst p))) = 36"
    using assms(1) Cons.prems(1) by (simp add: outpoint_codec_def)
  have len: "length (txo_script_pubkey (snd p)) < 2 ^ 32" using Cons.prems(1) by simp
  have eq: "concat (map (encode_input enc) (p # ps)) @ ys = enc (ti_previous_output (fst p)) @
      u32_to_le (ti_sequence (fst p)) @ u64_to_le (txo_value (snd p)) @
      encode_script (txo_script_pubkey (snd p)) @ ?rest"
    by (simp add: encode_input_def)
  note s0 = Cons.prems(2) [unfolded eq] and small = Cons.prems(3)
  note s1 = suffix_appendD [OF s0]
  note s2 = suffix_appendD [OF s1]
  note s3 = suffix_appendD [OF s2]
  note s4 = suffix_script [OF s3]
  note s5 = suffix_appendD [OF s4]
  have "length (drop 4 buffer) = 4 * length ps" "\<not> length buffer < 4" using Cons.prems(4) by simp_all
  with Cons.IH [OF _ s5 small] Cons.prems(1) show ?case
    unfolding eq
    by (subst fill_sequences.simps) (simp add: reader_take_at [OF s0 small op]
        reader_take_at [OF s1 small length_u32_to_le] reader_take_at [OF s2 small length_u64_to_le]
        reader_script_at [OF s3 small] unat_word_of_nat_u32 [OF len] reader_take_at [OF s4 small refl])
qed

lemma length_ser_output: "length (ser_output out) =
    8 + length (push_compact_size [] (length (txo_script_pubkey out))) + length (txo_script_pubkey out)"
  by (simp add: ser_output_def)

text \<open>One round of the output loop.\<close>

lemma write_output_at:
  assumes "length (txo_script_pubkey out) < 2 ^ 32"
    and "suffix (encode_output out @ ys) bs" and small: "length bs < 2 ^ 32"
    and "used + length (ser_output out) \<le> length buffer"
  shows "\<exists>buffer'. write_outputs (Suc n) buffer used (reader_at bs (encode_output out @ ys)) =
      write_outputs n buffer' (used + length (ser_output out)) (reader_at bs ys) \<and>
    length buffer' = length buffer \<and>
    take (used + length (ser_output out)) buffer' = take used buffer @ ser_output out"
proof -
  let ?v = "u64_to_le (txo_value out)" and ?s = "txo_script_pubkey out"
  let ?c = "push_compact_size [] (length ?s)"
  have eq: "encode_output out @ ys = ?v @ encode_script ?s @ ys" by (simp add: encode_output_def)
  note s0 = assms(2) [unfolded eq]
  note s1 = suffix_appendD [OF s0]
  note s2 = suffix_script [OF s1]
  note rd = reader_take_at [OF s0 small length_u64_to_le] reader_script_at [OF s1 small]
    unat_word_of_nat_u32 [OF assms(1)] reader_take_at [OF s2 small refl]
  from assms(4) have fit: "used + length ?v \<le> length buffer"
    "used + 8 + length ?c + length ?s \<le> length buffer" by (simp_all add: length_ser_output)
  from buf_put_fits [OF fit(1)] obtain b1 where b1: "buf_put buffer used ?v = Some b1"
    "length b1 = length buffer" "take (used + length ?v) b1 = take used buffer @ ?v" .
  have "used + 8 + length ?c \<le> length b1" using fit b1 by simp
  from buf_put_fits [OF this] obtain b2 where b2: "buf_put b1 (used + 8) ?c = Some b2"
    "length b2 = length b1" "take (used + 8 + length ?c) b2 = take (used + 8) b1 @ ?c" .
  have "used + 8 + length ?c + length ?s \<le> length b2" using fit b1 b2 by simp
  from buf_put_fits [OF this] obtain b3 where b3: "buf_put b2 (used + 8 + length ?c) ?s = Some b3"
    "length b3 = length b2"
    "take (used + 8 + length ?c + length ?s) b3 = take (used + 8 + length ?c) b2 @ ?s" .
  have "write_outputs (Suc n) buffer used (reader_at bs (encode_output out @ ys)) =
      write_outputs n b3 (used + 8 + length ?c + length ?s) (reader_at bs ys)"
    unfolding eq by (simp add: rd b1(1) b2(1) b3(1) guest_push_compact_size_eq)
  moreover have "take (used + 8 + length ?c + length ?s) b3 = take used buffer @ ser_output out"
    using b1(3) b2(3) b3(3) by (simp add: ser_output_def)
  ultimately show ?thesis
    using b1(2) b2(2) b3(2) by (intro exI [of _ b3]) (simp add: length_ser_output add.assoc)
qed

lemma write_outputs_at:
  assumes "\<forall>out \<in> set outs. length (txo_script_pubkey out) < 2 ^ 32"
    and "suffix (concat (map encode_output outs) @ ys) bs" and "length bs < 2 ^ 32"
    and "used + length (concat (map ser_output outs)) \<le> length buffer"
  shows "\<exists>buffer'. write_outputs (length outs) buffer used (reader_at bs (concat (map encode_output outs) @ ys)) =
      Some (buffer', used + length (concat (map ser_output outs)), reader_at bs ys) \<and>
    length buffer' = length buffer \<and>
    take (used + length (concat (map ser_output outs))) buffer' =
      take used buffer @ concat (map ser_output outs)"
  using assms
proof (induction outs arbitrary: buffer used)
  case Nil
  then show ?case by simp
next
  case (Cons out outs)
  let ?ys = "concat (map encode_output outs) @ ys"
  have eq: "concat (map encode_output (out # outs)) @ ys = encode_output out @ ?ys" by simp
  have "suffix (encode_output out @ ?ys) bs" using Cons.prems(2) unfolding eq .
  moreover have "used + length (ser_output out) \<le> length buffer" using Cons.prems(4) by simp
  ultimately obtain b1 where b1:
    "write_outputs (Suc (length outs)) buffer used (reader_at bs (encode_output out @ ?ys)) =
      write_outputs (length outs) b1 (used + length (ser_output out)) (reader_at bs ?ys)"
    "length b1 = length buffer"
    "take (used + length (ser_output out)) b1 = take used buffer @ ser_output out"
    using write_output_at [of out ?ys bs used buffer "length outs"] Cons.prems(1,3) by auto
  have "suffix ?ys bs" using Cons.prems(2) unfolding eq by (rule suffix_appendD)
  with Cons.IH [of "used + length (ser_output out)" b1] Cons.prems b1(2) obtain b2 where
    "write_outputs (length outs) b1 (used + length (ser_output out)) (reader_at bs ?ys) =
       Some (b2, used + length (ser_output out) + length (concat (map ser_output outs)), reader_at bs ys)"
    "length b2 = length b1"
    "take (used + length (ser_output out) + length (concat (map ser_output outs))) b2 =
       take (used + length (ser_output out)) b1 @ concat (map ser_output outs)"
    by (auto simp: add.assoc)
  with b1 show ?case unfolding eq by (intro exI [of _ b2]) (simp add: add.assoc)
qed

subsection \<open>The buffers are large enough\<close>

lemma compact_size_length:
  "n < 2 ^ 32 \<Longrightarrow> 65536 * length (push_compact_size [] n) \<le> 65536 * 4 + n"
  by (auto simp: push_compact_size_def)

lemma ser_outputs_length:
  assumes "\<forall>out \<in> set outs. length (txo_script_pubkey out) < 2 ^ 32"
  shows "65536 * length (concat (map ser_output outs)) \<le> 65537 * outputs_size outs"
  using assms
proof (induction outs)
  case Nil
  then show ?case by simp
next
  case (Cons out outs)
  let ?n = "length (txo_script_pubkey out)"
  have "65536 * length (push_compact_size [] ?n) \<le> 65536 * 4 + ?n"
    using compact_size_length Cons.prems by simp
  then have "65536 * length (ser_output out) \<le> 65537 * (12 + ?n)"
    unfolding length_ser_output by simp
  with Cons show ?case by (simp add: algebra_simps)
qed

lemma ser_outputs_fit:
  assumes "outpoint_codec enc" and "authenticated inp" and "encode_view enc V1 inp = Ok view"
  shows "length (concat (map ser_output (tx_output (psbt_unsigned_tx (si_psbt inp))))) \<le> length view"
proof -
  let ?outs = "tx_output (psbt_unsigned_tx (si_psbt inp))"
  have len: "length view = total_view_size V1 inp" and "length view \<le> 1048576"
    using encode_view_length [OF assms] by (simp_all add: MAX_SIGNED_VIEW_BYTES_def)
  moreover have "outputs_size ?outs + 20 \<le> length view" using len by (simp add: total_view_size_def)
  moreover have "65536 * length (concat (map ser_output ?outs)) \<le> 65537 * outputs_size ?outs"
    by (rule ser_outputs_length) (use view_scripts_small(2) [OF assms(3)] in blast)
  ultimately show ?thesis by linarith
qed

lemma scratch_fits:
  assumes "0 < g_input g" and "g_input g + INPUT_CAPACITY \<le> 2 ^ 32"
    and "g_used g + n \<le> INPUT_CAPACITY" and "0 < n"
  shows "\<exists>buffer g'. scratch g n = Some (buffer, g') \<and> length buffer = n \<and>
    g_input g' = g_input g \<and> g_used g' = g_used g + n"
proof -
  have n: "n < 2 ^ 32" using assms(3) by (simp add: INPUT_CAPACITY_def MAX_VIEW_def MAX_ARGUMENT_def)
  have a: "g_input g + g_used g < 2 ^ 32" using assms by simp
  define p :: u32 where "p = word_of_nat (g_input g + g_used g)"
  have "unat p = g_input g + g_used g" unfolding p_def by (rule unat_word_of_nat_u32 [OF a])
  then have "p \<noteq> 0" using assms(1) by auto
  moreover have "sapio_alloc_v1 g (word_of_nat n) = (p, g\<lparr>g_used := g_used g + n\<rparr>)"
    unfolding p_def by (rule sapio_alloc_v1_fits [OF assms(3) n])
  ultimately show ?thesis using assms(4) n by (simp add: scratch_def u32_try_from_def)
qed

text \<open>On an encoded view the predicate collects exactly the bytes the hash is defined over.\<close>

lemma template_evaluate_judges:
  assumes "outpoint_codec enc" and "authenticated inp" and "encode_view enc V1 inp = Ok view"
    and "length committed = 32"
    and "0 < g_input g" and "g_input g + INPUT_CAPACITY \<le> 2 ^ 32"
    and "g_used g + 4 * length (tx_input (psbt_unsigned_tx (si_psbt inp))) + length view \<le> INPUT_CAPACITY"
  shows "\<exists>head. take 8 head = u32_to_le (tx_version (psbt_unsigned_tx (si_psbt inp))) @
      u32_to_le (tx_lock_time (psbt_unsigned_tx (si_psbt inp))) \<and>
    template_evaluate imp g \<lparr>ar_program = [], ar_parameters = committed, ar_view = view, ar_witness = []\<rparr> =
      judge_template imp committed head
        (concat (map (\<lambda>i. u32_to_le (ti_sequence i)) (tx_input (psbt_unsigned_tx (si_psbt inp)))))
        (concat (map ser_output (tx_output (psbt_unsigned_tx (si_psbt inp)))))
        (word_of_nat (si_input_index inp))"
proof -
  let ?tx = "psbt_unsigned_tx (si_psbt inp)" and ?ps = "prevouts (psbt_inputs (si_psbt inp))"
  let ?zs = "zip (tx_input ?tx) ?ps" and ?outs = "tx_output ?tx"
  let ?idx = "word_of_nat (si_input_index inp) :: u32" and ?n = "length (tx_input ?tx)"
  note facts = encode_view_eq_Ok [OF assms(3)]
  have small: "length view < 2 ^ 32"
    using encode_view_length(2) [OF assms(1-3)] by (simp add: MAX_SIGNED_VIEW_BYTES_def)
  have in_range: "si_input_index inp < ?n" and len: "length ?zs = ?n"
    and wf: "list_all (\<lambda>i. wf_outpoint (ti_previous_output i)) (tx_input ?tx)"
    using assms(2) by (auto simp: authenticated_def prevouts_def)
  have fourn: "4 * ?n mod 4294967296 = 4 * ?n"
    using assms(7) by (simp add: INPUT_CAPACITY_def MAX_VIEW_def MAX_ARGUMENT_def)
  obtain buffer g1 where sc1: "scratch g (4 * ?n) = Some (buffer, g1)" "length buffer = 4 * length ?zs"
    "g_input g1 = g_input g" "g_used g1 = g_used g + 4 * ?n"
    using scratch_fits [OF assms(5,6), of "4 * ?n"] assms(7) in_range unfolding len by force
  define head where "head = (u32_to_le (tx_version ?tx) @ u32_to_le (tx_lock_time ?tx)) @
    u32_to_le ?idx @ u32_to_le (word_of_nat ?n)"
  let ?ins = "concat (map (encode_input enc) ?zs)"
  let ?os = "concat (map encode_output ?outs) @ []" and ?nout = "u32_to_le (word_of_nat (length ?outs))"
  have v: "view = head @ ?ins @ ?nout @ ?os"
    unfolding head_def using encode_view_V1 [OF assms(3)] by simp
  have s0: "suffix (head @ ?ins @ ?nout @ ?os) view" by (subst v) (rule suffix_order.refl)
  note s1 = suffix_appendD [OF s0]
  note s2 = suffix_appendD [OF s1]
  note s3 = suffix_appendD [OF s2]
  note s4 = suffix_appendD [OF s3]
  have h: "length head = 16" "take 4 (drop 8 head) = u32_to_le ?idx"
    "take 4 (drop 12 head) = u32_to_le (word_of_nat ?n)"
    "take 8 head = u32_to_le (tx_version ?tx) @ u32_to_le (tx_lock_time ?tx)"
    by (simp_all add: head_def)
  have r0: "reader_new view = reader_at view (head @ ?ins @ ?nout @ ?os)"
    by (subst reader_at_new) (rule arg_cong [OF v])
  have fill: "fill_sequences buffer (reader_at view (?ins @ ?nout @ ?os)) =
      Some (concat (map (\<lambda>p. u32_to_le (ti_sequence (fst p))) ?zs), reader_at view (?nout @ ?os))"
  proof (rule fill_sequences_at [OF assms(1) _ s1 small sc1(2)])
    show "\<forall>p \<in> set ?zs. wf_outpoint (ti_previous_output (fst p)) \<and> length (txo_script_pubkey (snd p)) < 2 ^ 32"
      using wf view_scripts_small(1) [OF assms(3)] by (auto simp: list_all_iff dest: set_zip_leftD)
  qed
  have seqs: "concat (map (\<lambda>p. u32_to_le (ti_sequence (fst p))) ?zs) =
      concat (map (\<lambda>i. u32_to_le (ti_sequence i)) (tx_input ?tx))"
    using map_zip_fst [OF len, of "\<lambda>i. u32_to_le (ti_sequence i)"] by simp
  have "16 \<le> length view" by (subst v) (simp add: h(1))
  then have "0 < length view" by linarith
  then obtain obuffer g2 where sc2: "scratch g1 (length view) = Some (obuffer, g2)"
    "length obuffer = length view"
    using scratch_fits [of g1 "length view"] assms(5-7) sc1(3,4) by force
  have "0 + length (concat (map ser_output ?outs)) \<le> length obuffer"
    using ser_outputs_fit [OF assms(1-3)] sc2(2) by simp
  from write_outputs_at [OF _ s3 small this] view_scripts_small(2) [OF assms(3)] obtain outputs where
    wr: "write_outputs (length ?outs) obuffer 0 (reader_at view ?os) =
      Some (outputs, length (concat (map ser_output ?outs)), reader_at view [])"
    "take (length (concat (map ser_output ?outs))) outputs = concat (map ser_output ?outs)"
    by force
  have nout: "reader_u32 (reader_at view (?nout @ ?os)) = Some (word_of_nat (length ?outs), reader_at view ?os)"
    by (rule reader_u32_at [OF s2 small])
  have idx: "\<not> ?n \<le> unat ?idx" using in_range facts(4) by (simp add: unat_word_of_nat_u32)
  have "template_evaluate imp g \<lparr>ar_program = [], ar_parameters = committed, ar_view = view, ar_witness = []\<rparr> =
      judge_template imp committed head (concat (map (\<lambda>i. u32_to_le (ti_sequence i)) (tx_input ?tx)))
        (concat (map ser_output ?outs)) ?idx"
    using idx unfolding template_evaluate_def
    by (simp add: assms(4) DIGEST_def r0 reader_take_at [OF s0 small h(1)] h(2,3) Let_def
        unat_word_of_nat_u32 [OF facts(2)] fourn sc1(1) fill seqs nout sc2(1) wr
        unat_word_of_nat_u32 [OF facts(3)] is_finished_at [OF s4] del: append_Nil2)
  then show ?thesis using h(4) by blast
qed

lemma judge_template_hash:
  assumes "sha_import sha imp" and "take 8 head = u32_to_le (tx_version tx) @ u32_to_le (tx_lock_time tx)"
  shows "judge_template imp committed head (concat (map (\<lambda>i. u32_to_le (ti_sequence i)) (tx_input tx)))
      (concat (map ser_output (tx_output tx))) idx = Some (template_hash sha tx idx = committed)"
  using assms
  by (simp add: judge_template_def guest_hash_def DIGEST_def sha_import_def template_hash_def
      tagged_hash_def sha_sequences_def sha_outputs_def foldl_push_output Let_def)

lemma template_evaluate_view:
  assumes "outpoint_codec enc" and "authenticated inp" and "encode_view enc V1 inp = Ok view"
    and "sha_import sha imp" and "length committed = 32"
    and "0 < g_input g" and "g_input g + INPUT_CAPACITY \<le> 2 ^ 32"
    and "g_used g + 4 * length (tx_input (psbt_unsigned_tx (si_psbt inp))) + length view \<le> INPUT_CAPACITY"
  shows "template_evaluate imp g
      \<lparr>ar_program = [], ar_parameters = committed, ar_view = view, ar_witness = []\<rparr> =
    Some (template_hash sha (psbt_unsigned_tx (si_psbt inp)) (word_of_nat (si_input_index inp)) = committed)"
  using template_evaluate_judges [OF assms(1-3,5-8), of imp] judge_template_hash [OF assms(4)] by auto

subsection \<open>The hash binds the template\<close>

lemma nat_le_prefix_inj:
  assumes "le_nat k n @ xs = le_nat k m @ ys" and "n < 256 ^ k" and "m < 256 ^ k"
  shows "n = m \<and> xs = ys"
  using assms by (metis append_eq_append_conv le_nat_inj length_le_nat)

lemma le_nat_1: "le_nat 1 n = [word_of_nat n]"
  by (simp only: One_nat_def le_nat.simps)

lemma byte_less_253: "n < 253 \<Longrightarrow> (word_of_nat n :: byte) \<noteq> 253 \<and> (word_of_nat n :: byte) \<noteq> 254 \<and>
    (word_of_nat n :: byte) \<noteq> 255"
proof -
  assume n: "n < 253"
  then have "unat (word_of_nat n :: byte) = n" by (simp add: unat_byte_of_nat)
  with n show ?thesis by auto
qed

text \<open>A compact size is a tag byte, which fixes the number of bytes after it.\<close>

lemma compact_size_form:
  assumes "n < 2 ^ 64"
  obtains t k where "push_compact_size [] n = t # le_nat k n" "n < 256 ^ max 1 k"
    "(k = 0 \<and> t = word_of_nat n \<and> t \<notin> {253, 254, 255}) \<or> (k = 2 \<and> t = 253) \<or> (k = 4 \<and> t = 254) \<or>
     (k = 8 \<and> t = 255)"
proof -
  consider "n < 253" | "253 \<le> n" "n \<le> 65535" | "65535 < n" "n \<le> 4294967295" | "4294967295 < n"
    by linarith
  then show ?thesis
  proof cases
    case 1
    then show ?thesis
      using byte_less_253 [OF 1] by (intro that [of "word_of_nat n" 0])
        (simp_all add: push_compact_size_def le_nat_1)
  next
    case 2
    then show ?thesis
      by (intro that [of 253 2]) (simp_all add: push_compact_size_def del: le_nat_numeral)
  next
    case 3
    then show ?thesis
      by (intro that [of 254 4]) (simp_all add: push_compact_size_def del: le_nat_numeral)
  next
    case 4
    with assms show ?thesis
      by (intro that [of 255 8]) (simp_all add: push_compact_size_def del: le_nat_numeral)
  qed
qed

lemma compact_size_inj:
  assumes eq: "push_compact_size [] n @ xs = push_compact_size [] m @ ys"
    and "n < 2 ^ 64" and "m < 2 ^ 64"
  shows "n = m \<and> xs = ys"
proof -
  obtain t k where n: "push_compact_size [] n = t # le_nat k n" "n < 256 ^ max 1 k"
    "(k = 0 \<and> t = word_of_nat n \<and> t \<notin> {253, 254, 255}) \<or> (k = 2 \<and> t = 253) \<or> (k = 4 \<and> t = 254) \<or>
     (k = 8 \<and> t = 255)" using assms(2) by (rule compact_size_form)
  obtain u l where m: "push_compact_size [] m = u # le_nat l m" "m < 256 ^ max 1 l"
    "(l = 0 \<and> u = word_of_nat m \<and> u \<notin> {253, 254, 255}) \<or> (l = 2 \<and> u = 253) \<or> (l = 4 \<and> u = 254) \<or>
     (l = 8 \<and> u = 255)" using assms(3) by (rule compact_size_form)
  from eq n(1) m(1) have tu: "t = u" and rest: "le_nat k n @ xs = le_nat l m @ ys" by simp_all
  from n(3) m(3) tu have kl: "k = l" by auto
  show ?thesis
  proof (cases "k = 0")
    case True
    with n m kl tu have "le_nat 1 n @ xs = le_nat 1 m @ ys" using rest by (simp add: le_nat_1)
    with n(2) m(2) True kl show ?thesis by (intro nat_le_prefix_inj [of 1]) simp_all
  next
    case False
    then have "max 1 k = k" by simp
    with rest n(2) m(2) kl show ?thesis by (intro nat_le_prefix_inj [of k]) simp_all
  qed
qed

lemma ser_output_inj:
  assumes "ser_output a @ xs = ser_output b @ ys"
    and "length (txo_script_pubkey a) < 2 ^ 64" "length (txo_script_pubkey b) < 2 ^ 64"
  shows "a = b \<and> xs = ys"
proof -
  from assms(1) have "u64_to_le (txo_value a) = u64_to_le (txo_value b)"
    and eq: "push_compact_size [] (length (txo_script_pubkey a)) @ txo_script_pubkey a @ xs =
      push_compact_size [] (length (txo_script_pubkey b)) @ txo_script_pubkey b @ ys"
    by (simp_all add: ser_output_def append_eq_append_conv)
  with compact_size_inj [OF eq assms(2,3)] show ?thesis by (auto intro!: tx_out.equality)
qed

lemma ser_outputs_inj:
  assumes "concat (map ser_output as) = concat (map ser_output bs)"
    and "\<forall>out \<in> set as \<union> set bs. length (txo_script_pubkey out) < 2 ^ 64"
  shows "as = bs"
  using assms
proof (induction as arbitrary: bs)
  case Nil
  then show ?case by (cases bs) (auto simp: ser_output_def u64_to_le_def)
next
  case (Cons a as)
  then obtain b bs' where bs: "bs = b # bs'" by (cases bs) (auto simp: ser_output_def u64_to_le_def)
  with Cons.prems have "ser_output a @ concat (map ser_output as) = ser_output b @ concat (map ser_output bs')"
    by simp
  then have "a = b" "concat (map ser_output as) = concat (map ser_output bs')"
    using ser_output_inj Cons.prems(2) bs by auto
  with Cons bs show ?case by auto
qed

lemma sequences_inj:
  "concat (map (\<lambda>i. u32_to_le (ti_sequence i)) as) = concat (map (\<lambda>i. u32_to_le (ti_sequence i)) bs) \<Longrightarrow>
   map ti_sequence as = map ti_sequence bs"
proof (induction as arbitrary: bs)
  case Nil
  then show ?case by (cases bs) (auto simp: u32_to_le_def)
next
  case (Cons a as)
  then obtain b bs' where bs: "bs = b # bs'" by (cases bs) (auto simp: u32_to_le_def)
  with Cons.prems have "u32_to_le (ti_sequence a) = u32_to_le (ti_sequence b)"
    "concat (map (\<lambda>i. u32_to_le (ti_sequence i)) as) = concat (map (\<lambda>i. u32_to_le (ti_sequence i)) bs')"
    by (simp_all add: append_eq_append_conv)
  with Cons.IH bs show ?case by auto
qed

lemma template_hash_inj:
  assumes "\<forall>bs. length (sha bs) = 32"
    and "\<forall>out \<in> set (tx_output tx) \<union> set (tx_output tx'). length (txo_script_pubkey out) < 2 ^ 64"
    and "template_hash sha tx idx = template_hash sha tx' idx'"
  shows "(tx_version tx = tx_version tx' \<and> tx_lock_time tx = tx_lock_time tx' \<and> idx = idx' \<and>
      map ti_sequence (tx_input tx) = map ti_sequence (tx_input tx') \<and> tx_output tx = tx_output tx') \<or>
    (\<exists>x \<in> template_preimages sha tx idx. \<exists>y \<in> template_preimages sha tx' idx'. x \<noteq> y \<and> sha x = sha y)"
proof (rule disjCI)
  assume no: "\<not> (\<exists>x \<in> template_preimages sha tx idx. \<exists>y \<in> template_preimages sha tx' idx'. x \<noteq> y \<and> sha x = sha y)"
  then have inj: "x = y" if "x \<in> template_preimages sha tx idx" "y \<in> template_preimages sha tx' idx'"
    "sha x = sha y" for x y using that by blast
  define t where "t = sha (str_bytes ''TemplateHash'')"
  have "sha (t @ t @ template_message sha tx idx) = sha (t @ t @ template_message sha tx' idx')"
    using assms(3) by (simp add: template_hash_def tagged_hash_def Let_def t_def template_message_def)
  then have "t @ t @ template_message sha tx idx = t @ t @ template_message sha tx' idx'"
    by (rule inj [rotated 2]) (simp_all add: template_preimages_def t_def)
  then have "template_message sha tx idx = template_message sha tx' idx'" by simp
  then have m: "tx_version tx = tx_version tx'" "tx_lock_time tx = tx_lock_time tx'"
    "sha_sequences sha tx = sha_sequences sha tx'" "sha_outputs sha tx = sha_outputs sha tx'" "idx = idx'"
    using assms(1) by (simp_all add: template_message_def append_eq_append_conv sha_sequences_def sha_outputs_def)
  have "concat (map (\<lambda>i. u32_to_le (ti_sequence i)) (tx_input tx)) =
       concat (map (\<lambda>i. u32_to_le (ti_sequence i)) (tx_input tx'))"
    by (rule inj) (use m(3) in \<open>simp_all add: template_preimages_def sha_sequences_def\<close>)
  moreover have "concat (map ser_output (tx_output tx)) = concat (map ser_output (tx_output tx'))"
    by (rule inj) (use m(4) in \<open>simp_all add: template_preimages_def sha_outputs_def foldl_push_output\<close>)
  ultimately show "tx_version tx = tx_version tx' \<and> tx_lock_time tx = tx_lock_time tx' \<and> idx = idx' \<and>
      map ti_sequence (tx_input tx) = map ti_sequence (tx_input tx') \<and> tx_output tx = tx_output tx'"
    using m sequences_inj ser_outputs_inj [OF _ assms(2)] by simp
qed

section \<open>Properties\<close>

text \<open>C5: the predicate and the client compute the same template hash. On every view the host can
  encode, if the arena has room for the two scratch buffers, the predicate decides, and it accepts
  exactly when the client's BIP-446 hash of the transaction and the selected index is the committed
  value; previous outputs, amounts and scripts of the inputs do not matter.\<close>

theorem templatehash_predicate_correct:
  assumes "outpoint_codec enc" and "authenticated inp" and "encode_view enc V1 inp = Ok view"
    and "sha_import sha imp" and "length committed = 32"
    and "0 < g_input g" and "g_input g + INPUT_CAPACITY \<le> 2 ^ 32"
    and "g_used g + 4 * length (tx_input (psbt_unsigned_tx (si_psbt inp))) + length view \<le> INPUT_CAPACITY"
  shows "template_evaluate imp g
      \<lparr>ar_program = [], ar_parameters = committed, ar_view = view, ar_witness = []\<rparr> =
    Some (template_hash sha (psbt_unsigned_tx (si_psbt inp)) (word_of_nat (si_input_index inp)) = committed)"
  using assms by (rule template_evaluate_view)

theorem templatehash_predicate_correct_witness:
  "template_evaluate (\<lambda>bs. Some (sample_sha bs)) sample_guest
     \<lparr>ar_program = [], ar_parameters = template_hash sample_sha sample_tx 0, ar_view = sample_view,
      ar_witness = []\<rparr> = Some True"
proof -
  have "sha_import sample_sha (\<lambda>bs. Some (sample_sha bs))" by (simp add: sha_import_def)
  moreover have "length (template_hash sample_sha sample_tx 0) = 32"
    by (simp add: template_hash_def tagged_hash_def Let_def sample_sha_def)
  moreover have "0 < g_input sample_guest" "g_input sample_guest + INPUT_CAPACITY \<le> 2 ^ 32"
    "g_used sample_guest + 4 * length (tx_input (psbt_unsigned_tx (si_psbt sample_context))) +
      length sample_view \<le> INPUT_CAPACITY"
    by (simp_all add: sample_guest_def INPUT_CAPACITY_def MAX_VIEW_def MAX_ARGUMENT_def sample_defs
        sample_view_def)
  ultimately show ?thesis
    using templatehash_predicate_correct [OF sample_enc_codec(1) sample_authenticated
        sample_encode_view, of sample_sha] by (simp add: sample_context_def)
qed

text \<open>C34: a template hash commits to the transaction. Two transactions and indices with the same
  hash agree on version, lock time, the sequence of every input, every output and the index, unless
  two of the byte strings hashed on the way are an actual collision of the hash function.\<close>

theorem template_hash_binds:
  assumes "\<forall>bs. length (sha bs) = 32"
    and "\<forall>out \<in> set (tx_output tx) \<union> set (tx_output tx'). length (txo_script_pubkey out) < 2 ^ 64"
    and "template_hash sha tx idx = template_hash sha tx' idx'"
  shows "(tx_version tx = tx_version tx' \<and> tx_lock_time tx = tx_lock_time tx' \<and> idx = idx' \<and>
      map ti_sequence (tx_input tx) = map ti_sequence (tx_input tx') \<and> tx_output tx = tx_output tx') \<or>
    (\<exists>x \<in> template_preimages sha tx idx. \<exists>y \<in> template_preimages sha tx' idx'. x \<noteq> y \<and> sha x = sha y)"
  using assms by (rule template_hash_inj)

theorem template_hash_binds_witness:
  "(\<forall>bs. length (sample_sha bs) = 32) \<and>
   ((tx_version sample_tx = tx_version sample_tx \<and> map ti_sequence (tx_input sample_tx) = [12]) \<or>
    (\<exists>x \<in> template_preimages sample_sha sample_tx 0. \<exists>y \<in> template_preimages sample_sha sample_tx 0.
       x \<noteq> y \<and> sample_sha x = sample_sha y))"
proof -
  have "\<forall>bs. length (sample_sha bs) = 32" by (simp add: sample_sha_def)
  moreover have "\<forall>out \<in> set (tx_output sample_tx) \<union> set (tx_output sample_tx).
      length (txo_script_pubkey out) < 2 ^ 64" by (simp add: sample_tx_def)
  ultimately show ?thesis
    using template_hash_binds [of sample_sha sample_tx sample_tx 0 0] by (auto simp: sample_tx_def)
qed

end
