(* ===== verification/Templatehash_Client.thy ===== *)
theory Templatehash_Client
  imports Client Templatehash
begin

text \<open>
  The template-hash demonstration, the rest of \<open>src/examples/templatehash/main.rs\<close>: the cross-check of
  the client's partial hashes against the library's BIP-341 signature hash, the synthetic funding of a
  template, and the session with a remote oracle, which must sign the committed template and its
  rebinding to other inputs and refuse every change of a committed field.

  Parameters, in \<open>template_lib\<close>: SHA-256, the signature hash, key derivation and script constructors of the
  libraries, consensus decoding, and the connection to the oracle. What is relied on of them is
  \<open>template_lib_laws\<close>.
\<close>

section \<open>Data\<close>

definition VECTOR_TX :: string where
  "VECTOR_TX =
     ''02000000000102c997a5e56e104102fa209c6a852dd90660a20b2d9c352423edce25857fcd37041500000000ffffffff'' @
     ''169e1e83e930853391bc6f35f605c6754cfead57cf8387639d3b4096c54f18f40c00000000ffffffff01327906000000'' @
     ''000016001482074bdf6ce32b071dd120a17cf99cbc01ad3080022320d1f1955b1327167cb7ae3dc39d52c277be39d757'' @
     ''37b9cb80514ce6e825fd8eeace8721c050929b74c1a04954b78b4b6035e97a5e078a5a0f28ec96d547bfee9ace803ac0'' @
     ''0000000000''"

definition VECTOR_SPENT :: "string list" where
  "VECTOR_SPENT =
     [''33790600000000002251205331c80448b5eb2daad3567c98bc99664d14e0ea12bdf3be755429055d67756a'',
      ''22921000000000001976a914079ded3e3befdab0757fe0e8842aeffc0ff2160288ac'']"

record ('a, 'c, 'w) template_lib =
  tl_client_new :: "'a \<Rightarrow> xpub \<Rightarrow> 'c result"
  tl_sign :: "'c \<Rightarrow> 'w signer"
  tl_display :: "client_error \<Rightarrow> string"
  tl_sha :: "bytes \<Rightarrow> bytes"
  tl_p2wpkh :: "bytes \<Rightarrow> script"
  tl_new_p2tr :: "bytes \<Rightarrow> script"
  tl_wasm :: "bytes \<Rightarrow> bytes \<Rightarrow> program_instance result"
  TEMPLATEHASH_WASM :: bytes
  tl_derive_public_key :: "program_instance \<Rightarrow> xpub \<Rightarrow> bytes result"
  tl_psbt_from_unsigned_tx :: "transaction \<Rightarrow> psbt result"
  tl_taproot_signature_hash :: "transaction \<Rightarrow> nat \<Rightarrow> tx_out list \<Rightarrow> (string, hash) res"
  tl_hex_decode :: "string \<Rightarrow> bytes result"
  tl_decode_tx :: "bytes \<Rightarrow> transaction result"
  tl_decode_tx_out :: "bytes \<Rightarrow> tx_out result"

section \<open>Operations\<close>

subsection \<open>The cross-check\<close>

text \<open>The three buffers of the loop over the inputs and their previous outputs.\<close>

fun push_prevouts :: "bytes \<times> bytes \<times> bytes \<Rightarrow> (tx_in \<times> tx_out) list \<Rightarrow> bytes \<times> bytes \<times> bytes" where
  "push_prevouts buffers [] = buffers"
| "push_prevouts (sha_prevouts, sha_amounts, sha_scriptpubkeys) ((i, prevout) # rest) =
     push_prevouts
       (sha_prevouts @ op_txid (ti_previous_output i) @ u32_to_le (op_vout (ti_previous_output i)),
        sha_amounts @ u64_to_le (txo_value prevout),
        push_compact_size sha_scriptpubkeys (length (txo_script_pubkey prevout)) @ txo_script_pubkey prevout) rest"

definition crosscheck_sighash ::
  "('a, 'c, 'w) template_lib \<Rightarrow> transaction \<Rightarrow> nat \<Rightarrow> tx_out list \<Rightarrow> unit result" where
  "crosscheck_sighash lib tx input_index prevs =
     bind_res (map_err (\<lambda>_. Msg ''rust-bitcoin sighash failed'')
         (tl_taproot_signature_hash lib tx input_index prevs)) (\<lambda>theirs.
     case push_prevouts ([], [], []) (zip (tx_input tx) prevs) of
       (sha_prevouts, sha_amounts, sha_scriptpubkeys) \<Rightarrow>
         if tagged_hash (tl_sha lib) ''TapSighash''
              ([0, 1] @ u32_to_le (tx_version tx) @ u32_to_le (tx_lock_time tx) @
               tl_sha lib sha_prevouts @ tl_sha lib sha_amounts @ tl_sha lib sha_scriptpubkeys @
               sha_sequences (tl_sha lib) tx @ sha_outputs (tl_sha lib) tx @ [0] @
               u32_to_le (word_of_nat input_index)) \<noteq> theirs
         then Err (Msg (''sha_outputs/sha_sequences diverge from rust-bitcoin'' @ [CHR 0x27] @ ''s sighash''))
         else Ok ())"

subsection \<open>Requests\<close>

text \<open>The loop of \<open>request\<close> over the PSBT inputs. The tag of a synthetic recipient is \<open>index as u8 + 1\<close>,
  which overflows for every 256th input.\<close>

fun fund_inputs ::
  "('a, 'c, 'w) template_lib \<Rightarrow> bytes \<Rightarrow> nat \<Rightarrow> nat \<Rightarrow> psbt_input list \<Rightarrow> psbt_input list result" where
  "fund_inputs lib key input_index n [] = Ok []"
| "fund_inputs lib key input_index n (m # ms) =
     bind_res
       (if n = input_index then
          Ok (m\<lparr>pi_witness_utxo := Some \<lparr>txo_value = 100000, txo_script_pubkey = tl_new_p2tr lib key\<rparr>,
                pi_tap_internal_key := Some key\<rparr>)
        else if pi_witness_utxo m = None then
          if (word_of_nat n :: byte) = 255 then Panic
          else Ok (m\<lparr>pi_witness_utxo := Some \<lparr>txo_value = 50000,
                 txo_script_pubkey = tl_p2wpkh lib (replicate 20 (word_of_nat n + 1))\<rparr>\<rparr>)
        else Ok m) (\<lambda>m'.
     bind_res (fund_inputs lib key input_index (Suc n) ms) (\<lambda>ms'. Ok (m' # ms')))"

definition template_request ::
  "('a, 'c, 'w) template_lib \<Rightarrow> xpub \<Rightarrow> program_instance \<Rightarrow> transaction \<Rightarrow> nat \<Rightarrow> signing_request result" where
  "template_request lib root inst tx input_index =
     bind_res (tl_derive_public_key lib inst root) (\<lambda>key.
     bind_res (tl_psbt_from_unsigned_tx lib tx) (\<lambda>psbt.
     bind_res (fund_inputs lib key input_index 0 (psbt_inputs psbt)) (\<lambda>ms.
     Ok \<lparr>rq_instance = inst, rq_input_index = word_of_nat input_index, rq_witness = [], rq_path = KeyPath,
         rq_psbt = psbt\<lparr>psbt_inputs := ms\<rparr>\<rparr>)))"

definition template_transaction :: "('a, 'c, 'w) template_lib \<Rightarrow> transaction" where
  "template_transaction lib =
     \<lparr>tx_version = 2, tx_lock_time = 800000,
      tx_input =
        [\<lparr>ti_previous_output = \<lparr>op_txid = replicate 32 7, op_vout = 0\<rparr>, ti_sequence = 0xfffffffd\<rparr>,
         \<lparr>ti_previous_output = \<lparr>op_txid = replicate 32 8, op_vout = 1\<rparr>, ti_sequence = 0xfffffffd\<rparr>],
      tx_output =
        [\<lparr>txo_value = 99000, txo_script_pubkey = tl_p2wpkh lib (replicate 20 42)\<rparr>,
         \<lparr>txo_value = 500, txo_script_pubkey = tl_p2wpkh lib (replicate 20 43)\<rparr>]\<rparr>"

text \<open>The five changes of a committed field, and the rebinding of the other input.\<close>

definition template_mutations ::
  "('a, 'c, 'w) template_lib \<Rightarrow> (string \<times> (transaction \<Rightarrow> transaction result)) list" where
  "template_mutations lib =
     [(''one satoshi more in an output'', edit_output 0 (add_value 1)),
      (''different output script'', edit_output 1 (set_script (tl_p2wpkh lib (replicate 20 44)))),
      (''changed input sequence'', edit_input 1 (\<lambda>i. i\<lparr>ti_sequence := 0xfffffffc\<rparr>)),
      (''changed locktime'', \<lambda>tx. Ok (tx\<lparr>tx_lock_time := 800001\<rparr>)),
      (''changed version'', \<lambda>tx. Ok (tx\<lparr>tx_version := 1\<rparr>))]"

definition rebind :: "nat \<Rightarrow> outpoint \<Rightarrow> transaction \<Rightarrow> transaction result" where
  "rebind n p = edit_input n (\<lambda>i. i\<lparr>ti_previous_output := p\<rparr>)"

text \<open>The Bitcoin Core vector with the outputs it spends. Clearing its witnesses does not change the
  fields a transaction has here.\<close>

fun decode_spent :: "('a, 'c, 'w) template_lib \<Rightarrow> string list \<Rightarrow> tx_out list result" where
  "decode_spent lib [] = Ok []"
| "decode_spent lib (raw # rest) =
     (case bind_res (tl_hex_decode lib raw) (tl_decode_tx_out lib) of
        Ok out \<Rightarrow> bind_res (decode_spent lib rest) (\<lambda>outs. Ok (out # outs))
      | _ \<Rightarrow> Panic)"

definition vector_fixture :: "('a, 'c, 'w) template_lib \<Rightarrow> (transaction \<times> tx_out list) result" where
  "vector_fixture lib =
     bind_res (tl_hex_decode lib VECTOR_TX) (\<lambda>vector_bytes.
     bind_res (tl_decode_tx lib vector_bytes) (\<lambda>vector_tx.
     bind_res (decode_spent lib VECTOR_SPENT) (\<lambda>vector_prevouts.
     if length (tx_input vector_tx) \<noteq> length vector_prevouts
     then Err (Msg ''vector prevout count mismatch'')
     else Ok (vector_tx, vector_prevouts))))"

definition vector_request ::
  "('a, 'c, 'w) template_lib \<Rightarrow> xpub \<Rightarrow> transaction \<Rightarrow> signing_request result" where
  "vector_request lib root vector_tx =
     bind_res (rebind 0 \<lparr>op_txid = replicate 32 0x42, op_vout = 0\<rparr> vector_tx) (\<lambda>vector_spend.
     bind_res (instance_for (tl_wasm lib) (TEMPLATEHASH_WASM lib) (tl_sha lib) vector_spend 0)
       (\<lambda>vector_instance. template_request lib root vector_instance vector_spend 0))"

definition wrong_hash :: "('a, 'c, 'w) template_lib \<Rightarrow> signing_request \<Rightarrow> signing_request result" where
  "wrong_hash lib original =
     bind_res (tl_wasm lib (TEMPLATEHASH_WASM lib) (replicate DIGEST 0xAB)) (\<lambda>i.
     Ok (original\<lparr>rq_instance := i\<rparr>))"

text \<open>The previous outputs of the funded request; a missing one is a panic.\<close>

fun supplied_prevouts :: "psbt_input list \<Rightarrow> tx_out list result" where
  "supplied_prevouts [] = Ok []"
| "supplied_prevouts (m # ms) =
     (case pi_witness_utxo m of
        None \<Rightarrow> Panic
      | Some utxo \<Rightarrow> bind_res (supplied_prevouts ms) (\<lambda>outs. Ok (utxo # outs)))"

definition template_steps ::
  "('a, 'c, 'w) template_lib \<Rightarrow> xpub \<Rightarrow> signing_request \<Rightarrow> tx_out list \<Rightarrow> step list" where
  "template_steps lib root original prevs =
     [Ensure (crosscheck_sighash lib (template_transaction lib) 0 prevs),
      Accept (Ok original) ''exact BIP-446 template match, input 0'',
      Ensure (bind_res (vector_fixture lib) (\<lambda>(vector_tx, vector_prevouts).
        crosscheck_sighash lib vector_tx 0 vector_prevouts)),
      Accept (bind_res (vector_fixture lib) (\<lambda>(vector_tx, _). vector_request lib root vector_tx))
        ''Bitcoin Core test-vector transaction, input 0'',
      Reject (wrong_hash lib original) ''wrong committed template hash''] @
     map (\<lambda>(label, mutate). Reject (bind_res (mutate (template_transaction lib))
        (\<lambda>mutated_tx. template_request lib root (rq_instance original) mutated_tx 0)) label)
       (template_mutations lib) @
     [Accept (bind_res (rebind 1 \<lparr>op_txid = replicate 32 9, op_vout = 2\<rparr> (template_transaction lib))
        (\<lambda>rebound_tx. template_request lib root (rq_instance original) rebound_tx 0))
        ''rebound other input, identical template'']"

definition template_setup ::
  "('a, 'f) client_lib \<Rightarrow> deployment_lib \<Rightarrow> ('a, 'c, 'w) template_lib \<Rightarrow> 'a options \<Rightarrow>
     ('c \<times> xpub \<times> signing_request \<times> tx_out list) result" where
  "template_setup clib dl lib opts =
     bind_res (load_identity clib dl opts) (\<lambda>identity.
     bind_res (tl_client_new lib (op_address opts) (ci_xpub identity)) (\<lambda>client.
     bind_res (instance_for (tl_wasm lib) (TEMPLATEHASH_WASM lib) (tl_sha lib) (template_transaction lib) 0)
       (\<lambda>inst.
     bind_res (template_request lib (ci_xpub identity) inst (template_transaction lib) 0) (\<lambda>original.
     bind_res (supplied_prevouts (psbt_inputs (rq_psbt original))) (\<lambda>prevs.
     Ok (client, ci_xpub identity, original, prevs))))))"

definition template_main ::
  "('a, 'f) client_lib \<Rightarrow> deployment_lib \<Rightarrow> ('a, 'c, 'w) template_lib \<Rightarrow> os_string list \<Rightarrow> ('w, unit) cmd" where
  "template_main clib dl lib args =
     cmd_bind (cmd_lift (options_of clib args)) (\<lambda>parsed.
     case parsed of
       None \<Rightarrow> cmd_lift (Ok ())
     | Some opts \<Rightarrow>
         cmd_bind (cmd_lift (template_setup clib dl lib opts)) (\<lambda>(client, root, original, prevs).
         run_steps (accepted (tl_sign lib client) '': expected a verified signature'')
           (rejected (tl_sign lib client) (tl_display lib) '': expected Rejected, not transport failure: '')
           (template_steps lib root original prevs)))"

section \<open>Specification\<close>

text \<open>The BIP-341 signature hash for \<open>SIGHASH_ALL\<close>, key path, no annex.\<close>

definition bip341_sighash :: "(bytes \<Rightarrow> bytes) \<Rightarrow> transaction \<Rightarrow> nat \<Rightarrow> tx_out list \<Rightarrow> hash" where
  "bip341_sighash sha tx input_index prevs =
     tagged_hash sha ''TapSighash''
       ([0] @ [1] @ u32_to_le (tx_version tx) @ u32_to_le (tx_lock_time tx) @
        sha (concat (map (\<lambda>i. op_txid (ti_previous_output i) @ u32_to_le (op_vout (ti_previous_output i)))
          (tx_input tx))) @
        sha (concat (map (\<lambda>out. u64_to_le (txo_value out)) prevs)) @
        sha (concat (map (\<lambda>out. push_compact_size [] (length (txo_script_pubkey out)) @ txo_script_pubkey out)
          prevs)) @
        sha (concat (map (\<lambda>i. u32_to_le (ti_sequence i)) (tx_input tx))) @
        sha (concat (map ser_output (tx_output tx))) @
        [0] @ u32_to_le (word_of_nat input_index))"

text \<open>Documented behaviour of the libraries.\<close>

definition template_lib_laws :: "('a, 'c, 'w) template_lib \<Rightarrow> bool" where
  "template_lib_laws lib \<longleftrightarrow>
     (\<forall>bs. length (tl_sha lib bs) = 32) \<and>
     (\<forall>h. length h = 20 \<longrightarrow> length (tl_p2wpkh lib h) = 22) \<and> inj_on (tl_p2wpkh lib) {h. length h = 20} \<and>
     (\<forall>m p i. tl_wasm lib m p = Ok i \<longrightarrow> pr_program i = m \<and> pr_parameters i = p \<and>
        (\<forall>q. length q = length p \<longrightarrow> (\<exists>j. tl_wasm lib m q = Ok j))) \<and>
     (\<forall>tx. \<exists>psbt. tl_psbt_from_unsigned_tx lib tx = Ok psbt \<and> psbt_unsigned_tx psbt = tx \<and>
        length (psbt_inputs psbt) = length (tx_input tx) \<and>
        list_all (\<lambda>m. pi_witness_utxo m = None \<and> pi_tap_internal_key m = None) (psbt_inputs psbt)) \<and>
     (\<forall>tx n prevs. n < length (tx_input tx) \<longrightarrow> length prevs = length (tx_input tx) \<longrightarrow>
        tl_taproot_signature_hash lib tx n prevs = Ok (bip341_sighash (tl_sha lib) tx n prevs))"

text \<open>The key of a program commits to it.\<close>

definition key_committed ::
  "('a, 'c, 'w) template_lib \<Rightarrow> xpub \<Rightarrow> (script \<Rightarrow> program_instance option) \<Rightarrow> program_instance \<Rightarrow> bool" where
  "key_committed lib root program_of i \<longleftrightarrow> (\<exists>key. tl_derive_public_key lib i root = Ok key \<and> length key = 32 \<and>
     length (tl_new_p2tr lib key) = 34 \<and> program_of (tl_new_p2tr lib key) = Some i)"

text \<open>The decoded vector is an ordinary transaction.\<close>

definition ordinary_tx :: "transaction \<Rightarrow> bool" where
  "ordinary_tx tx \<longleftrightarrow> list_all (\<lambda>i. wf_outpoint (ti_previous_output i)) (tx_input tx) \<and>
     0 < length (tx_input tx) \<and> length (tx_input tx) \<le> 255 \<and> outputs_size (tx_output tx) \<le> 10000"

definition template_deployed ::
  "(bytes \<Rightarrow> (string, payload) res list) \<Rightarrow> (bytes \<Rightarrow> bytes option) \<Rightarrow> guest \<Rightarrow> (outpoint \<Rightarrow> bytes) \<Rightarrow>
     ('a, 'c, 'w) template_lib \<Rightarrow> bool" where
  "template_deployed parser imp g enc lib \<longleftrightarrow> fresh_guest g \<and> outpoint_codec enc \<and> sha_import (tl_sha lib) imp \<and>
     check_module_bytes (TEMPLATEHASH_WASM lib) = Ok () \<and>
     check_compilation_budget (guest_runtime parser (template_evaluate imp) g) V1 (TEMPLATEHASH_WASM lib) = Ok ()"

text \<open>The two programs of the demonstration are committed to by their keys.\<close>

definition committed_templates ::
  "('a, 'c, 'w) template_lib \<Rightarrow> xpub \<Rightarrow> (script \<Rightarrow> program_instance option) \<Rightarrow> transaction \<Rightarrow> bool" where
  "committed_templates lib root program_of vector_tx \<longleftrightarrow>
     (\<forall>tx i. Ok tx \<in> {Ok (template_transaction lib), rebind 0 \<lparr>op_txid = replicate 32 0x42, op_vout = 0\<rparr> vector_tx} \<longrightarrow>
        instance_for (tl_wasm lib) (TEMPLATEHASH_WASM lib) (tl_sha lib) tx 0 = Ok i \<longrightarrow>
        key_committed lib root program_of i)"

text \<open>No collision among the byte strings hashed for the template and its five changes, and the
  template is not a preimage of the wrong hash.\<close>

definition collision_free :: "('a, 'c, 'w) template_lib \<Rightarrow> bool" where
  "collision_free lib \<longleftrightarrow>
     template_hash (tl_sha lib) (template_transaction lib) 0 \<noteq> replicate DIGEST 0xAB \<and>
     list_all (\<lambda>(_, mutate). case mutate (template_transaction lib) of
         Ok tx' \<Rightarrow> \<not> (\<exists>x \<in> template_preimages (tl_sha lib) (template_transaction lib) 0.
           \<exists>y \<in> template_preimages (tl_sha lib) tx' 0. x \<noteq> y \<and> tl_sha lib x = tl_sha lib y)
       | _ \<Rightarrow> True) (template_mutations lib)"

section \<open>Lemmas\<close>

lemma template_lawD:
  assumes "template_lib_laws lib"
  shows "length (tl_sha lib bs) = 32" and "length h = 20 \<Longrightarrow> length (tl_p2wpkh lib h) = 22"
    and "inj_on (tl_p2wpkh lib) {h. length h = 20}"
    and "tl_wasm lib m p = Ok i \<Longrightarrow> pr_program i = m \<and> pr_parameters i = p"
    and "tl_wasm lib m p = Ok i \<Longrightarrow> length q = length p \<Longrightarrow> \<exists>j. tl_wasm lib m q = Ok j"
    and "\<exists>psbt. tl_psbt_from_unsigned_tx lib tx = Ok psbt \<and> psbt_unsigned_tx psbt = tx \<and>
        length (psbt_inputs psbt) = length (tx_input tx) \<and>
        list_all (\<lambda>m. pi_witness_utxo m = None \<and> pi_tap_internal_key m = None) (psbt_inputs psbt)"
    and "n < length (tx_input tx) \<Longrightarrow> length prevs = length (tx_input tx) \<Longrightarrow>
        tl_taproot_signature_hash lib tx n prevs = Ok (bip341_sighash (tl_sha lib) tx n prevs)"
  using assms unfolding template_lib_laws_def by simp_all

lemma push_prevouts_eq:
  "push_prevouts (a, b, c) zs =
     (a @ concat (map (\<lambda>(i, _). op_txid (ti_previous_output i) @ u32_to_le (op_vout (ti_previous_output i))) zs),
      b @ concat (map (\<lambda>(_, out). u64_to_le (txo_value out)) zs),
      c @ concat (map (\<lambda>(_, out). push_compact_size [] (length (txo_script_pubkey out)) @ txo_script_pubkey out) zs))"
proof (induction zs arbitrary: a b c)
  case (Cons z zs)
  then show ?case
    by (cases z) (simp add: push_compact_size_append [of c])
qed simp

text \<open>The client's partial hashes assemble to the library's signature hash.\<close>

lemma crosscheck_sighash_Ok:
  assumes "template_lib_laws lib" and "n < length (tx_input tx)" and "length prevs = length (tx_input tx)"
  shows "crosscheck_sighash lib tx n prevs = Ok ()"
proof -
  let ?zs = "zip (tx_input tx) prevs"
  have "map fst ?zs = tx_input tx" "map snd ?zs = prevs" using assms(3) by simp_all
  then have "map (\<lambda>(i, _). f i) ?zs = map f (tx_input tx)" "map (\<lambda>(_, out). h out) ?zs = map h prevs"
    for f :: "tx_in \<Rightarrow> bytes" and h :: "tx_out \<Rightarrow> bytes"
    by (metis (no_types, lifting) list.map_comp comp_def case_prod_beta map_cong)+
  with template_lawD(7) [OF assms] show ?thesis
    by (simp add: crosscheck_sighash_def push_prevouts_eq bip341_sighash_def sha_sequences_def sha_outputs_def
        foldl_push_output)
qed

lemma fund_inputs_fresh:
  assumes "list_all (\<lambda>m. pi_witness_utxo m = None \<and> pi_tap_internal_key m = None) ms"
    and "n + length ms \<le> 255" and "length key = 32" and "length (tl_new_p2tr lib key) = 34"
    and "\<And>h. length h = 20 \<Longrightarrow> length (tl_p2wpkh lib h) = 22"
  shows "\<exists>ms'. fund_inputs lib key idx n ms = Ok ms' \<and> length ms' = length ms \<and>
    list_all (\<lambda>m. pi_witness_utxo m \<noteq> None \<and>
      (case pi_tap_internal_key m of None \<Rightarrow> True | Some k \<Rightarrow> length k = 32)) ms' \<and>
    prevouts_size ms' \<le> 86 * length ms \<and>
    (\<forall>j < length ms. n + j = idx \<longrightarrow>
       pi_witness_utxo (ms' ! j) = Some \<lparr>txo_value = 100000, txo_script_pubkey = tl_new_p2tr lib key\<rparr>)"
  using assms(1,2)
proof (induction ms arbitrary: n)
  case (Cons m ms)
  then obtain ms' where ms': "fund_inputs lib key idx (Suc n) ms = Ok ms'" "length ms' = length ms"
    "list_all (\<lambda>m. pi_witness_utxo m \<noteq> None \<and>
      (case pi_tap_internal_key m of None \<Rightarrow> True | Some k \<Rightarrow> length k = 32)) ms'"
    "prevouts_size ms' \<le> 86 * length ms"
    "\<forall>j < length ms. Suc n + j = idx \<longrightarrow>
       pi_witness_utxo (ms' ! j) = Some \<lparr>txo_value = 100000, txo_script_pubkey = tl_new_p2tr lib key\<rparr>"
    using Cons.IH [of "Suc n"] by auto
  have "n < 255" using Cons.prems(2) by simp
  then have "(word_of_nat n :: byte) \<noteq> 255"
    by (simp add: word_unat_eq_iff unat_of_nat take_bit_eq_mod)
  with Cons.prems(1) ms' assms(3-5) show ?case
    by (auto simp: less_Suc_eq_0_disj)
qed simp

text \<open>Every request the client builds is a well-formed, funded signing context.\<close>

lemma template_request_Ok:
  assumes laws: "template_lib_laws lib" and key: "key_committed lib root program_of i" and tx: "ordinary_tx tx"
  shows "\<exists>r. template_request lib root i tx 0 = Ok r \<and> rq_instance r = i \<and> rq_input_index r = 0 \<and>
    rq_witness r = [] \<and> psbt_unsigned_tx (rq_psbt r) = tx \<and> authenticated (request_input r) \<and>
    funded program_of r \<and> total_view_size V1 (request_input r) \<le> 40000 \<and>
    (\<exists>prevs. supplied_prevouts (psbt_inputs (rq_psbt r)) = Ok prevs \<and> length prevs = length (tx_input tx))"
proof -
  from key obtain k where k: "tl_derive_public_key lib i root = Ok k" "length k = 32"
    "length (tl_new_p2tr lib k) = 34" "program_of (tl_new_p2tr lib k) = Some i"
    by (auto simp: key_committed_def)
  from template_lawD(6) [OF laws] obtain psbt where
    p: "tl_psbt_from_unsigned_tx lib tx = Ok psbt" "psbt_unsigned_tx psbt = tx"
      "length (psbt_inputs psbt) = length (tx_input tx)"
      "list_all (\<lambda>m. pi_witness_utxo m = None \<and> pi_tap_internal_key m = None) (psbt_inputs psbt)" by blast
  from tx have t: "0 < length (tx_input tx)" "length (tx_input tx) \<le> 255" "outputs_size (tx_output tx) \<le> 10000"
    "list_all (\<lambda>i. wf_outpoint (ti_previous_output i)) (tx_input tx)" by (simp_all add: ordinary_tx_def)
  have "0 + length (psbt_inputs psbt) \<le> 255" using p(3) t by simp
  from fund_inputs_fresh [OF p(4) this k(2,3) template_lawD(2) [OF laws], of 0] obtain ms where
    ms: "fund_inputs lib k 0 0 (psbt_inputs psbt) = Ok ms" "length ms = length (tx_input tx)"
      "list_all (\<lambda>m. pi_witness_utxo m \<noteq> None \<and>
        (case pi_tap_internal_key m of None \<Rightarrow> True | Some k \<Rightarrow> length k = 32)) ms"
      "prevouts_size ms \<le> 86 * length (tx_input tx)"
      "pi_witness_utxo (ms ! 0) = Some \<lparr>txo_value = 100000, txo_script_pubkey = tl_new_p2tr lib k\<rparr>"
    using p(3) t by auto
  have "supplied_prevouts ms = Ok (prevouts ms)"
    using ms(3) by (induction ms) (auto simp: prevouts_def)
  moreover have "authenticated (request_input (\<lparr>rq_instance = i, rq_input_index = 0, rq_witness = [],
      rq_path = KeyPath, rq_psbt = psbt\<lparr>psbt_inputs := ms\<rparr>\<rparr>))"
    using ms t p by (auto simp: authenticated_def list_all_iff)
  ultimately show ?thesis
    using k p ms t
    by (auto simp: template_request_def funded_def list_get_def total_view_size_def prevouts_def)
qed

lemma template_verdict:
  assumes dep: "template_deployed parser imp g enc lib"
    and inst: "pr_program (rq_instance r) = TEMPLATEHASH_WASM lib" "length (pr_parameters (rq_instance r)) = 32"
    and r: "rq_witness r = []" "rq_input_index r = 0" "authenticated (request_input r)" "funded program_of r"
      "total_view_size V1 (request_input r) \<le> 40000"
  shows "inline_approves (guest_runtime parser (template_evaluate imp) g) enc V1 program_of r \<longleftrightarrow>
    template_hash (tl_sha lib) (psbt_unsigned_tx (rq_psbt r)) 0 = pr_parameters (rq_instance r)"
proof -
  let ?ps = "pr_parameters (rq_instance r)" and ?inp = "request_input r"
  let ?n = "length (tx_input (psbt_unsigned_tx (rq_psbt r)))"
  have d: "fresh_guest g" "outpoint_codec enc" "sha_import (tl_sha lib) imp"
    "check_module_bytes (TEMPLATEHASH_WASM lib) = Ok ()"
    "check_compilation_budget (guest_runtime parser (template_evaluate imp) g) V1 (TEMPLATEHASH_WASM lib) = Ok ()"
    using dep by (simp_all add: template_deployed_def)
  obtain view where v: "encode_view enc V1 ?inp = Ok view"
    using encode_view_fits [OF r(3), of V1] r(5) by (auto simp: MAX_SIGNED_VIEW_BYTES_def)
  have len: "length view \<le> 40000" using encode_view_length(1) [OF d(2) r(3) v] r(5) by simp
  obtain g' where g': "g_used g' = 32 + length view" "g_input g' = g_input g"
    and ev: "evaluate (guest_runtime parser (template_evaluate imp) g) enc V1 (TEMPLATEHASH_WASM lib) [] ?ps ?inp [] =
      (case template_evaluate imp g' \<lparr>ar_program = [], ar_parameters = ?ps, ar_view = view, ar_witness = []\<rparr> of
         Some b \<Rightarrow> Ok b | None \<Rightarrow> Err ''WASM evaluator must return exactly zero or one'')"
    using evaluate_guest_runtime [OF d(1,4,5), of "[]" ?ps "[]", OF _ _ _ d(2) r(3) v] inst(2)
    by (auto simp: MAX_PARAMETER_BYTES_def)
  have "?n \<le> 40000"
    using r(3,5) length_le_view_size(1) [of "psbt_inputs (rq_psbt r)"]
    by (simp add: authenticated_def total_view_size_def)
  then have room: "g_used g' + 4 * ?n + length view \<le> INPUT_CAPACITY"
    using g' len by (simp add: INPUT_CAPACITY_def MAX_VIEW_def MAX_ARGUMENT_def)
  have mem: "0 < g_input g'" "g_input g' + INPUT_CAPACITY \<le> 2 ^ 32"
    using d(1) g'(2) by (simp_all add: fresh_guest_def)
  from template_evaluate_view [OF d(2) r(3) v d(3) inst(2) mem] room ev
  have "evaluate (guest_runtime parser (template_evaluate imp) g) enc V1 (TEMPLATEHASH_WASM lib) [] ?ps ?inp [] =
      Ok (template_hash (tl_sha lib) (psbt_unsigned_tx (rq_psbt r)) 0 = ?ps)"
    using r(2) by simp
  then show ?thesis using r inst(1) by (simp add: inline_approves_def)
qed

lemma template_hash_length: "template_lib_laws lib \<Longrightarrow> length (template_hash (tl_sha lib) tx idx) = 32"
  by (simp add: template_hash_def tagged_hash_def Let_def template_lawD(1))

lemma ordinary_template: "template_lib_laws lib \<Longrightarrow> ordinary_tx (template_transaction lib)"
  by (simp add: ordinary_tx_def template_transaction_def wf_outpoint_def template_lawD(2))

text \<open>A request for a transaction under the program committed to a template.\<close>

lemma template_request_verdict:
  assumes dep: "template_deployed parser imp g enc lib" and laws: "template_lib_laws lib"
    and key: "key_committed lib root program_of i" and tx: "ordinary_tx tx"
    and i: "instance_for (tl_wasm lib) (TEMPLATEHASH_WASM lib) (tl_sha lib) tx0 0 = Ok i"
  shows "\<exists>r. template_request lib root i tx 0 = Ok r \<and>
    (inline_approves (guest_runtime parser (template_evaluate imp) g) enc V1 program_of r \<longleftrightarrow>
      template_hash (tl_sha lib) tx 0 = template_hash (tl_sha lib) tx0 0)"
proof -
  from template_lawD(4) [OF laws i [unfolded instance_for_def]] template_hash_length [OF laws]
  have "pr_program i = TEMPLATEHASH_WASM lib" "length (pr_parameters i) = 32"
    "pr_parameters i = template_hash (tl_sha lib) tx0 0" by simp_all
  with template_request_Ok [OF laws key tx] template_verdict [OF dep, where program_of = program_of] show ?thesis
    by metis
qed

text \<open>Rebinding an input leaves the template hash and an ordinary transaction what they were.\<close>

lemma rebind_Ok:
  assumes "ordinary_tx tx" and "n < length (tx_input tx)" and "wf_outpoint p"
  shows "\<exists>tx'. rebind n p tx = Ok tx' \<and> ordinary_tx tx' \<and> template_hash sha tx' idx = template_hash sha tx idx"
proof -
  let ?ins = "(tx_input tx)[n := (tx_input tx ! n)\<lparr>ti_previous_output := p\<rparr>]"
  have "map (\<lambda>i. u32_to_le (ti_sequence i)) ?ins = map (\<lambda>i. u32_to_le (ti_sequence i)) (tx_input tx)"
    using assms(2) by (simp add: map_update) (metis list_update_id nth_map)
  then have "template_hash sha (tx\<lparr>tx_input := ?ins\<rparr>) idx = template_hash sha tx idx"
    by (simp add: template_hash_def sha_sequences_def sha_outputs_def)
  moreover have "ordinary_tx (tx\<lparr>tx_input := ?ins\<rparr>)"
    using assms by (auto simp: ordinary_tx_def list_all_iff dest!: subsetD [OF set_update_subset_insert])
  ultimately show ?thesis using assms(2) by (simp add: rebind_def edit_input_def edit_nth_def)
qed

text \<open>Each of the five changes succeeds and changes a committed field.\<close>

lemma template_mutations_change:
  assumes laws: "template_lib_laws lib" and m: "(label, mutate) \<in> set (template_mutations lib)"
  shows "\<exists>tx'. mutate (template_transaction lib) = Ok tx' \<and> ordinary_tx tx' \<and>
    \<not> (tx_version (template_transaction lib) = tx_version tx' \<and>
       tx_lock_time (template_transaction lib) = tx_lock_time tx' \<and>
       map ti_sequence (tx_input (template_transaction lib)) = map ti_sequence (tx_input tx') \<and>
       tx_output (template_transaction lib) = tx_output tx')"
proof -
  have "tl_p2wpkh lib (replicate 20 43) \<noteq> tl_p2wpkh lib (replicate 20 44)"
    using inj_onD [OF template_lawD(3) [OF laws], of "replicate 20 43" "replicate 20 44"] by auto
  with m show ?thesis
    by (auto simp: template_mutations_def template_transaction_def edit_output_def edit_input_def edit_nth_def
        add_value_def set_script_def ordinary_tx_def wf_outpoint_def template_lawD(2) [OF laws])
qed

lemma template_mutations_hash:
  assumes laws: "template_lib_laws lib" and cf: "collision_free lib"
    and m: "(label, mutate) \<in> set (template_mutations lib)"
  shows "\<exists>tx'. mutate (template_transaction lib) = Ok tx' \<and> ordinary_tx tx' \<and>
    template_hash (tl_sha lib) tx' 0 \<noteq> template_hash (tl_sha lib) (template_transaction lib) 0"
proof -
  from template_mutations_change [OF laws m] obtain tx' where tx': "mutate (template_transaction lib) = Ok tx'"
    "ordinary_tx tx'" "\<not> (tx_version (template_transaction lib) = tx_version tx' \<and>
       tx_lock_time (template_transaction lib) = tx_lock_time tx' \<and>
       map ti_sequence (tx_input (template_transaction lib)) = map ti_sequence (tx_input tx') \<and>
       tx_output (template_transaction lib) = tx_output tx')" by blast
  have "length (txo_script_pubkey out) \<le> outputs_size outs" if "out \<in> set outs" for out outs
    using that by (induction outs) auto
  then have short: "length (txo_script_pubkey out) < 2 ^ 64" if "ordinary_tx tx" "out \<in> set (tx_output tx)" for tx out
    using that by (force simp: ordinary_tx_def dest: le_trans)
  from cf m tx'(1) have nc: "\<not> (\<exists>x \<in> template_preimages (tl_sha lib) (template_transaction lib) 0.
      \<exists>y \<in> template_preimages (tl_sha lib) tx' 0. x \<noteq> y \<and> tl_sha lib x = tl_sha lib y)"
    by (force simp: collision_free_def list_all_iff)
  have "\<forall>out \<in> set (tx_output (template_transaction lib)) \<union> set (tx_output tx'). length (txo_script_pubkey out) < 2 ^ 64"
    using short ordinary_template [OF laws] tx'(2) by blast
  from template_hash_inj [OF _ this, of "tl_sha lib" 0 0] nc tx'(3)
  have "template_hash (tl_sha lib) (template_transaction lib) 0 \<noteq> template_hash (tl_sha lib) tx' 0"
    using template_lawD(1) [OF laws] by blast
  with tx' show ?thesis by metis
qed

text \<open>A request with the wrong hash names a program its funding does not commit to.\<close>

lemma wrong_hash_refused:
  assumes laws: "template_lib_laws lib" and "tl_wasm lib (TEMPLATEHASH_WASM lib) ps = Ok (rq_instance r)"
    and "length ps = 32" and "ps \<noteq> replicate DIGEST 0xAB" and "funded program_of r"
  shows "\<exists>q. wrong_hash lib r = Ok q \<and> \<not> inline_approves rt enc V1 program_of q"
proof -
  obtain j where j: "tl_wasm lib (TEMPLATEHASH_WASM lib) (replicate DIGEST 0xAB) = Ok j"
    using template_lawD(5) [OF laws assms(2), of "replicate DIGEST 0xAB"] assms(3) by (auto simp: DIGEST_def)
  have "j \<noteq> rq_instance r"
    using template_lawD(4) [OF laws assms(2)] template_lawD(4) [OF laws j] assms(4) by auto
  then have "\<not> funded program_of (r\<lparr>rq_instance := j\<rparr>)"
    using assms(5) by (auto simp: funded_def split: option.splits)
  then show ?thesis using j by (simp add: wrong_hash_def inline_approves_def)
qed

lemma template_setup_Ok:
  assumes "template_setup clib dl lib opts = Ok (client, root, original, prevs)"
  shows "\<exists>i. instance_for (tl_wasm lib) (TEMPLATEHASH_WASM lib) (tl_sha lib) (template_transaction lib) 0 = Ok i \<and>
    template_request lib root i (template_transaction lib) 0 = Ok original \<and>
    supplied_prevouts (psbt_inputs (rq_psbt original)) = Ok prevs"
  using assms by (auto simp: template_setup_def bind_res_eq_Ok)

text \<open>The rebound vector is a request for its own template.\<close>

lemma vector_request_approved:
  assumes dep: "template_deployed parser imp g enc lib" and laws: "template_lib_laws lib"
    and vec: "ordinary_tx vector_tx" and com: "committed_templates lib root program_of vector_tx"
    and i: "instance_for (tl_wasm lib) (TEMPLATEHASH_WASM lib) (tl_sha lib) tx 0 = Ok i"
  shows "\<exists>q. vector_request lib root vector_tx = Ok q \<and>
    inline_approves (guest_runtime parser (template_evaluate imp) g) enc V1 program_of q"
proof -
  obtain spend where s: "rebind 0 \<lparr>op_txid = replicate 32 0x42, op_vout = 0\<rparr> vector_tx = Ok spend" "ordinary_tx spend"
    using rebind_Ok [OF vec, of 0 "\<lparr>op_txid = replicate 32 0x42, op_vout = 0\<rparr>"] vec
    by (auto simp: ordinary_tx_def wf_outpoint_def)
  obtain j where j: "instance_for (tl_wasm lib) (TEMPLATEHASH_WASM lib) (tl_sha lib) spend 0 = Ok j"
    using template_lawD(5) [OF laws i [unfolded instance_for_def], of "template_hash (tl_sha lib) spend 0"]
      template_hash_length [OF laws]
    by (auto simp: instance_for_def)
  have "key_committed lib root program_of j" using com s j by (auto simp: committed_templates_def)
  from template_request_verdict [OF dep laws this s(2) j] s j show ?thesis by (auto simp: vector_request_def)
qed

text \<open>Every expectation of the demonstration is true of the predicate.\<close>

lemma template_steps_expected:
  assumes dep: "template_deployed parser imp g enc lib" and laws: "template_lib_laws lib"
    and vec: "vector_fixture lib = Ok (vector_tx, vector_prevouts)" "ordinary_tx vector_tx"
    and com: "committed_templates lib root program_of vector_tx" and cf: "collision_free lib"
    and i: "instance_for (tl_wasm lib) (TEMPLATEHASH_WASM lib) (tl_sha lib) (template_transaction lib) 0 = Ok i"
    and original: "template_request lib root i (template_transaction lib) 0 = Ok original"
      "supplied_prevouts (psbt_inputs (rq_psbt original)) = Ok prevs"
  shows "list_all (expects (inline_approves (guest_runtime parser (template_evaluate imp) g) enc V1 program_of))
    (template_steps lib root original prevs)"
proof -
  let ?ok = "inline_approves (guest_runtime parser (template_evaluate imp) g) enc V1 program_of"
  let ?tx = "template_transaction lib"
  have key: "key_committed lib root program_of i" using com i by (simp add: committed_templates_def)
  note ord = ordinary_template [OF laws]
  note verdict = template_request_verdict [OF dep laws key _ i]
  from template_request_Ok [OF laws key ord] original
  have o: "rq_instance original = i" "funded program_of original" "length prevs = length (tx_input ?tx)" by auto
  have hash: "i = rq_instance original" "length (template_hash (tl_sha lib) ?tx 0) = 32"
    "template_hash (tl_sha lib) ?tx 0 \<noteq> replicate DIGEST 0xAB"
    using o template_hash_length [OF laws] cf by (simp_all add: collision_free_def)
  have "crosscheck_sighash lib ?tx 0 prevs = Ok ()"
    by (rule crosscheck_sighash_Ok [OF laws]) (use o in \<open>simp_all add: template_transaction_def\<close>)
  moreover have "?ok original" using verdict [OF ord] original by auto
  moreover have "crosscheck_sighash lib vector_tx 0 vector_prevouts = Ok ()"
    by (rule crosscheck_sighash_Ok [OF laws])
      (use vec in \<open>auto simp: ordinary_tx_def vector_fixture_def bind_res_eq_Ok split: if_splits\<close>)
  moreover have "\<exists>q. vector_request lib root vector_tx = Ok q \<and> ?ok q"
    by (rule vector_request_approved [OF dep laws vec(2) com i])
  moreover have "\<exists>q. wrong_hash lib original = Ok q \<and> \<not> ?ok q"
    by (rule wrong_hash_refused [OF laws i [unfolded instance_for_def hash(1)] hash(2,3) o(2)])
  moreover have "\<exists>q. bind_res (mutate ?tx) (\<lambda>t. template_request lib root (rq_instance original) t 0) = Ok q \<and> \<not> ?ok q"
    if m: "(label, mutate) \<in> set (template_mutations lib)" for label mutate
    using template_mutations_hash [OF laws cf m] verdict o(1) by force
  moreover have "\<exists>q. bind_res (rebind 1 \<lparr>op_txid = replicate 32 9, op_vout = 2\<rparr> ?tx)
      (\<lambda>t. template_request lib root (rq_instance original) t 0) = Ok q \<and> ?ok q"
  proof -
    obtain t where t: "rebind 1 \<lparr>op_txid = replicate 32 9, op_vout = 2\<rparr> ?tx = Ok t" "ordinary_tx t"
      "template_hash (tl_sha lib) t 0 = template_hash (tl_sha lib) ?tx 0"
      using rebind_Ok [OF ord, of 1 "\<lparr>op_txid = replicate 32 9, op_vout = 2\<rparr>" "tl_sha lib" 0]
      by (auto simp: template_transaction_def wf_outpoint_def)
    with verdict [OF t(2)] o(1) show ?thesis by auto
  qed
  ultimately show ?thesis
    using vec(1) by (auto simp: template_steps_def list_all_iff)
qed

section \<open>A sample run\<close>

text \<open>A hash that tells the sample's byte strings apart: their length and the sum of their bytes.\<close>

definition sum_sha :: "bytes \<Rightarrow> bytes" where
  "sum_sha bs = word_of_nat (length bs) # sum_list bs # replicate 30 0"

definition sample_template_program :: "script \<Rightarrow> program_instance option" where
  "sample_template_program s = Some \<lparr>pr_evaluator = [1], pr_program = WASM_HEADER, pr_parameters = drop 2 s\<rparr>"

abbreviation sample_template_module :: "(unit, guest) wasm_runtime" where
  "sample_template_module \<equiv> guest_runtime (\<lambda>_. []) (template_evaluate (\<lambda>bs. Some (sum_sha bs))) sample_guest"

definition sample_template_lib :: "(nat, unit, nat) template_lib" where
  "sample_template_lib = \<lparr>tl_client_new = (\<lambda>_ _. Ok ()),
     tl_sign = (\<lambda>_. inline_sign sample_template_module sample_enc V1 sample_template_program),
     tl_display = (\<lambda>_. ''error''), tl_sha = sum_sha, tl_p2wpkh = (\<lambda>h. [0, 20] @ h), tl_new_p2tr = (\<lambda>k. [81, 32] @ k),
     tl_wasm = (\<lambda>m p. Ok \<lparr>pr_evaluator = [1], pr_program = m, pr_parameters = p\<rparr>),
     TEMPLATEHASH_WASM = WASM_HEADER, tl_derive_public_key = (\<lambda>i _. Ok (pr_parameters i)),
     tl_psbt_from_unsigned_tx = (\<lambda>tx. Ok \<lparr>psbt_unsigned_tx = tx,
       psbt_inputs = map (\<lambda>_. sample_psbt_input\<lparr>pi_witness_utxo := None, pi_tap_internal_key := None\<rparr>) (tx_input tx),
       psbt_other = []\<rparr>),
     tl_taproot_signature_hash = (\<lambda>tx n prevs. Ok (bip341_sighash sum_sha tx n prevs)),
     tl_hex_decode = (\<lambda>_. Ok []),
     tl_decode_tx = (\<lambda>_. Ok \<lparr>tx_version = 2, tx_lock_time = 0,
       tx_input = replicate 2 \<lparr>ti_previous_output = sample_outpoint, ti_sequence = 4294967295\<rparr>,
       tx_output = [\<lparr>txo_value = 424242, txo_script_pubkey = [0, 20] @ replicate 20 5\<rparr>]\<rparr>),
     tl_decode_tx_out = (\<lambda>_. Ok \<lparr>txo_value = 424243, txo_script_pubkey = [81, 32] @ replicate 32 6\<rparr>)\<rparr>"

lemma sum_sha_length [simp]: "length (sum_sha bs) = 32"
  by (simp add: sum_sha_def)

lemma sample_template_laws: "template_lib_laws sample_template_lib"
  by (auto simp: template_lib_laws_def sample_template_lib_def inj_on_def list_all_iff)

lemma sample_template_deployed:
  "template_deployed (\<lambda>_. []) (\<lambda>bs. Some (sum_sha bs)) sample_guest sample_enc sample_template_lib"
  by (simp add: template_deployed_def sample_template_lib_def sample_guest_fresh sample_enc_codec sha_import_def
      check_module_bytes_def WASM_HEADER_def MAX_PROGRAM_BYTES_def check_compilation_budget_def)

lemma sample_committed_templates: "committed_templates sample_template_lib root sample_template_program vector_tx"
  using template_hash_length [OF sample_template_laws]
  by (auto simp: committed_templates_def key_committed_def instance_for_def sample_template_lib_def
      sample_template_program_def)

lemmas sample_template_simps = sample_template_lib_def template_transaction_def template_mutations_def edit_output_def
  edit_input_def edit_nth_def add_value_def set_script_def template_hash_def tagged_hash_def sha_sequences_def
  sha_outputs_def foldl_push_output

lemma sample_collision_free: "collision_free sample_template_lib"
  by (simp add: collision_free_def template_preimages_def template_message_def sample_template_simps sum_sha_def
      DIGEST_def ser_output_def push_output_def push_compact_size_def u32_to_le_def u64_to_le_def Let_def
      sum_list_replicate Cons_replicate_eq)

lemma sample_vector:
  "\<exists>vector_tx vector_prevouts. vector_fixture sample_template_lib = Ok (vector_tx, vector_prevouts) \<and>
     ordinary_tx vector_tx"
  by (simp add: vector_fixture_def sample_template_lib_def VECTOR_SPENT_def ordinary_tx_def wf_outpoint_def
      sample_outpoint_def list_all_iff)

lemma sample_template_setup:
  "\<exists>root original prevs. template_setup sample_client sample_deployment sample_template_lib sample_options =
     Ok ((), root, original, prevs)"
  by (simp add: template_setup_def sample_load_identity instance_for_def template_request_def
      sample_template_lib_def template_transaction_def)

section \<open>Properties\<close>

text \<open>C12: the template-hash demonstration passes. Against every oracle that signs exactly the requests
  whose funding commits to their program and on which that program, evaluated by the host, returns
  true, the client's hashes agree with the library's signature hash, the committed template, the
  rebound test vector and the template with another input rebound are signed, and the request with the
  wrong hash and each of the five changes of a committed field are refused, unless two of the byte
  strings hashed collide.\<close>

theorem template_demo_passes:
  assumes "template_deployed parser imp g enc lib" and "template_lib_laws lib"
    and "options_of clib args = Ok (Some opts)"
    and "template_setup clib dl lib opts = Ok (client, root, original, prevs)"
    and "vector_fixture lib = Ok (vector_tx, vector_prevouts)" and "ordinary_tx vector_tx"
    and "committed_templates lib root program_of vector_tx" and "collision_free lib"
    and "honest_signer (tl_sign lib client) ready
      (inline_approves (guest_runtime parser (template_evaluate imp) g) enc V1 program_of)"
    and "ready w"
  shows "fst (template_main clib dl lib args w) = Ok ()"
proof -
  from template_setup_Ok [OF assms(4)] template_steps_expected [OF assms(1,2,5-8)]
  have "list_all (expects (inline_approves (guest_runtime parser (template_evaluate imp) g) enc V1 program_of))
    (template_steps lib root original prevs)" by blast
  with honest_signer.demo_iff [OF assms(9,10)] show ?thesis
    using assms(3,4) by (simp add: template_main_def cmd_lift_def)
qed

theorem template_demo_passes_witness:
  "fst (template_main sample_client sample_deployment sample_template_lib sample_arguments 0) = Ok ()"
proof -
  have sign: "tl_sign sample_template_lib () = inline_sign sample_template_module sample_enc V1 sample_template_program"
    by (simp add: sample_template_lib_def)
  from sample_vector sample_template_setup obtain vtx vprevs root original prevs where
    v: "vector_fixture sample_template_lib = Ok (vtx, vprevs)" "ordinary_tx vtx" and
    su: "template_setup sample_client sample_deployment sample_template_lib sample_options =
      Ok ((), root, original, prevs)" by blast
  show ?thesis
    by (rule template_demo_passes [OF sample_template_deployed sample_template_laws sample_options_of su v
        sample_committed_templates sample_collision_free, unfolded sign, OF reference.honest_signer_axioms]) simp
qed

end
