(* ===== verification/V2_Module.thy ===== *)
theory V2_Module
  imports Evaluator Guest
begin

text \<open>
  The three inline V2 modules of \<open>src/examples/program_oracle.rs\<close> (\<open>v2_module\<close> and the bodies in
  \<open>inline_v2\<close>), which the source writes as WebAssembly text: a one-page memory, a bump allocator over a
  global, and a predicate of eight parameters.

  The modules are instruction lists and \<open>vm_exec\<close> is the stack machine of the WebAssembly specification for
  the instructions they and the modules of the tests (\<open>Test_Module\<close>, \<open>Inline_Module\<close>) use, metered: every
  instruction and every end of a block costs one point of fuel. \<open>v2_runtime\<close> plugs a module into the host's runtime interface; its memory interprets the
  \<open>linear_memory\<close> contract. The assembler, the binary decoder and the parser of the module structure
  are third-party: parameters, related by \<open>assembles\<close>.
\<close>

section \<open>Data\<close>

datatype instr =
    LocalGet nat
  | LocalSet nat
  | LocalTee nat
  | GlobalGet
  | GlobalSet
  | I32Const u32
  | I32Add
  | I32Sub
  | I32Eqz
  | I32Eq
  | I32Ne
  | I32And
  | I32GeU
  | I32Load nat
  | I32Load8U nat
  | MemoryFill
  | If "instr list" "instr list"
  | When "instr list" "instr list"
  | Block "instr list"
  | Loop "instr list"
  | Br nat
  | BrIf nat
  | Return
  | Unreachable

text \<open>A label of an open block: the body of a loop (a branch restarts it), the height of the operand
  stack outside the block, and the instructions after it. An \<open>If\<close> has one result; \<open>When\<close> is the \<open>if\<close> without
  one, and \<open>Void\<close> the label of a block without one.\<close>

datatype label = Label "instr list option" nat "instr list" | Void nat "instr list"

datatype trap = UnreachableExecuted | OutOfBoundsMemory | InvalidStack

datatype outcome = Finished u32 | Trapped trap | OutOfFuel

record vm =
  vm_mem :: "nat \<Rightarrow> byte"
  vm_size :: nat
  vm_heap :: u32
  vm_fuel :: nat
  vm_body :: "instr list"
  vm_fill_cost :: "nat \<Rightarrow> nat"

section \<open>Operations\<close>

definition vm_get :: "vm \<Rightarrow> nat \<Rightarrow> nat \<Rightarrow> bytes" where
  "vm_get v a n = map (vm_mem v) [a..<a + n]"

definition vm_put :: "vm \<Rightarrow> nat \<Rightarrow> bytes \<Rightarrow> (string, vm) res" where
  "vm_put v a bs =
     (if a + length bs \<le> vm_size v
      then Ok (v\<lparr>vm_mem := (\<lambda>i. if a \<le> i \<and> i < a + length bs then bs ! (i - a) else vm_mem v i)\<rparr>)
      else Err ''memory access out of bounds'')"

definition of_bool_u32 :: "bool \<Rightarrow> u32" where
  "of_bool_u32 b = (if b then 1 else 0)"

text \<open>Where a branch continues: stack, open blocks and instructions. The outermost label is the function.\<close>

definition branch :: "nat \<Rightarrow> u32 list \<Rightarrow> label list \<Rightarrow> (u32 list \<times> label list \<times> instr list) option" where
  "branch d st ks =
     (if d < length ks then
        Some (case ks ! d of
           Label (Some body) h rest \<Rightarrow> (drop (length st - h) st, drop d ks, body)
         | Label None h rest \<Rightarrow> (take 1 st @ drop (length st - h) st, drop (Suc d) ks, rest)
         | Void h rest \<Rightarrow> (drop (length st - h) st, drop (Suc d) ks, rest))
      else None)"

definition returned :: "u32 list \<Rightarrow> outcome" where
  "returned st = (case st of r # _ \<Rightarrow> Finished r | [] \<Rightarrow> Trapped InvalidStack)"

text \<open>The operand stack has its top first. A validated module never reaches \<open>InvalidStack\<close>. Filling memory is
  charged by its length on top of the instruction.\<close>

fun vm_exec ::
  "nat \<Rightarrow> vm \<Rightarrow> u32 list \<Rightarrow> u32 list \<Rightarrow> label list \<Rightarrow> instr list \<Rightarrow> outcome \<times> vm" where
  "vm_exec 0 v locs st ks is = (OutOfFuel, v\<lparr>vm_fuel := 0\<rparr>)"
| "vm_exec (Suc n) v locs st [] [] =
     ((case st of [r] \<Rightarrow> Finished r | _ \<Rightarrow> Trapped InvalidStack), v\<lparr>vm_fuel := n\<rparr>)"
| "vm_exec (Suc n) v locs st (Label b h rest # ks) [] = vm_exec n v locs st ks rest"
| "vm_exec (Suc n) v locs st (Void h rest # ks) [] = vm_exec n v locs st ks rest"
| "vm_exec (Suc n) v locs st ks (i # is) =
     (let trapped = (\<lambda>t. (Trapped t, v\<lparr>vm_fuel := n\<rparr>)) in
      case i of
        LocalGet x \<Rightarrow>
          if x < length locs then vm_exec n v locs (locs ! x # st) ks is else trapped InvalidStack
      | LocalSet x \<Rightarrow>
          (case st of
             a # st' \<Rightarrow> if x < length locs then vm_exec n v (locs[x := a]) st' ks is else trapped InvalidStack
           | _ \<Rightarrow> trapped InvalidStack)
      | LocalTee x \<Rightarrow>
          (case st of
             a # _ \<Rightarrow> if x < length locs then vm_exec n v (locs[x := a]) st ks is else trapped InvalidStack
           | _ \<Rightarrow> trapped InvalidStack)
      | GlobalGet \<Rightarrow> vm_exec n v locs (vm_heap v # st) ks is
      | GlobalSet \<Rightarrow>
          (case st of a # st' \<Rightarrow> vm_exec n (v\<lparr>vm_heap := a\<rparr>) locs st' ks is | _ \<Rightarrow> trapped InvalidStack)
      | I32Const c \<Rightarrow> vm_exec n v locs (c # st) ks is
      | I32Add \<Rightarrow> (case st of b # a # st' \<Rightarrow> vm_exec n v locs ((a + b) # st') ks is | _ \<Rightarrow> trapped InvalidStack)
      | I32Sub \<Rightarrow> (case st of b # a # st' \<Rightarrow> vm_exec n v locs ((a - b) # st') ks is | _ \<Rightarrow> trapped InvalidStack)
      | I32Eqz \<Rightarrow>
          (case st of a # st' \<Rightarrow> vm_exec n v locs (of_bool_u32 (a = 0) # st') ks is | _ \<Rightarrow> trapped InvalidStack)
      | I32Eq \<Rightarrow>
          (case st of b # a # st' \<Rightarrow> vm_exec n v locs (of_bool_u32 (a = b) # st') ks is
           | _ \<Rightarrow> trapped InvalidStack)
      | I32Ne \<Rightarrow>
          (case st of b # a # st' \<Rightarrow> vm_exec n v locs (of_bool_u32 (a \<noteq> b) # st') ks is
           | _ \<Rightarrow> trapped InvalidStack)
      | I32And \<Rightarrow>
          (case st of b # a # st' \<Rightarrow> vm_exec n v locs (and a b # st') ks is | _ \<Rightarrow> trapped InvalidStack)
      | I32GeU \<Rightarrow>
          (case st of b # a # st' \<Rightarrow> vm_exec n v locs (of_bool_u32 (b \<le> a) # st') ks is
           | _ \<Rightarrow> trapped InvalidStack)
      | I32Load offset \<Rightarrow>
          (case st of
             a # st' \<Rightarrow>
               if unat a + offset + 4 \<le> vm_size v
               then vm_exec n v locs (u32_from_le (vm_get v (unat a + offset) 4) # st') ks is
               else trapped OutOfBoundsMemory
           | _ \<Rightarrow> trapped InvalidStack)
      | I32Load8U offset \<Rightarrow>
          (case st of
             a # st' \<Rightarrow>
               if unat a + offset + 1 \<le> vm_size v
               then vm_exec n v locs (ucast (vm_mem v (unat a + offset)) # st') ks is
               else trapped OutOfBoundsMemory
           | _ \<Rightarrow> trapped InvalidStack)
      | MemoryFill \<Rightarrow>
          (case st of
             len # x # a # st' \<Rightarrow>
               if n < vm_fill_cost v (unat len) then (OutOfFuel, v\<lparr>vm_fuel := 0\<rparr>)
               else (case vm_put v (unat a) (replicate (unat len) (ucast x)) of
                  Ok v' \<Rightarrow> vm_exec (n - vm_fill_cost v (unat len)) v' locs st' ks is
                | _ \<Rightarrow> trapped OutOfBoundsMemory)
           | _ \<Rightarrow> trapped InvalidStack)
      | If t e \<Rightarrow>
          (case st of
             a # st' \<Rightarrow> vm_exec n v locs st' (Label None (length st') is # ks) (if a \<noteq> 0 then t else e)
           | _ \<Rightarrow> trapped InvalidStack)
      | When t e \<Rightarrow>
          (case st of
             a # st' \<Rightarrow> vm_exec n v locs st' (Void (length st') is # ks) (if a \<noteq> 0 then t else e)
           | _ \<Rightarrow> trapped InvalidStack)
      | Block body \<Rightarrow> vm_exec n v locs st (Void (length st) is # ks) body
      | Loop body \<Rightarrow> vm_exec n v locs st (Label (Some body) (length st) is # ks) body
      | Br d \<Rightarrow>
          (case branch d st ks of
             Some (st', ks', is') \<Rightarrow> vm_exec n v locs st' ks' is'
           | None \<Rightarrow> (returned st, v\<lparr>vm_fuel := n\<rparr>))
      | BrIf d \<Rightarrow>
          (case st of
             a # st0 \<Rightarrow>
               if a = 0 then vm_exec n v locs st0 ks is
               else (case branch d st0 ks of
                  Some (st', ks', is') \<Rightarrow> vm_exec n v locs st' ks' is'
                | None \<Rightarrow> (returned st0, v\<lparr>vm_fuel := n\<rparr>))
           | _ \<Rightarrow> trapped InvalidStack)
      | Return \<Rightarrow> (returned st, v\<lparr>vm_fuel := n\<rparr>)
      | Unreachable \<Rightarrow> trapped UnreachableExecuted)"

definition PAGE :: nat where "PAGE = 65536"

text \<open>The allocator of the module text: \<open>len\<close> is local 0, \<open>ptr\<close> local 1.\<close>

definition sapio_alloc_v2 :: "instr list" where
  "sapio_alloc_v2 = [GlobalGet, LocalTee 1, LocalGet 0, I32Add, GlobalSet, LocalGet 1]"

text \<open>A fresh instance of the module with the given body: one page, the heap at 1024. None of the bodies fills memory.\<close>

definition v2_module :: "nat \<Rightarrow> instr list \<Rightarrow> vm" where
  "v2_module fuel body =
     \<lparr>vm_mem = (\<lambda>_. 0), vm_size = PAGE, vm_heap = 1024, vm_fuel = fuel, vm_body = body,
      vm_fill_cost = (\<lambda>_. 0)\<rparr>"

text \<open>The three bodies. The locals are the pointer and length pairs of program, parameters, view and
  witness.\<close>

definition lock_time_body :: "instr list" where
  "lock_time_body =
     [LocalGet 1, I32Eqz,
      LocalGet 3, I32Const 4, I32Eq, I32And,
      LocalGet 7, I32Eqz, I32And,
      LocalGet 5, I32Const 52, I32GeU, I32And,
      If [LocalGet 4, I32Load 4, LocalGet 2, I32Load 0, I32Eq] [I32Const 0]]"

definition trap_body :: "instr list" where
  "trap_body = [Unreachable]"

definition loop_body :: "instr list" where
  "loop_body = [Loop [Br 0], I32Const 1]"

text \<open>The structure of the module text: two function types, two functions, one local.\<close>

definition v2_payloads :: "(string, payload) res list" where
  "v2_payloads =
     [Ok (TypeSection [Ok \<lparr>ft_params = [I32], ft_results = [I32]\<rparr>,
        Ok \<lparr>ft_params = replicate 8 I32, ft_results = [I32]\<rparr>]),
      Ok (FunctionSection [Ok 0, Ok 1]), Ok (OtherPayload 5), Ok (OtherPayload 6), Ok (OtherPayload 7),
      Ok (CodeSectionEntry (Ok [Ok 1])), Ok (CodeSectionEntry (Ok []))]"

subsection \<open>The engine\<close>

definition trap_message :: "outcome \<Rightarrow> string" where
  "trap_message r = (case r of Trapped OutOfBoundsMemory \<Rightarrow> ''out of bounds memory access'' | _ \<Rightarrow> ''unreachable'')"

definition vm_call :: "vm \<Rightarrow> instr list \<Rightarrow> u32 list \<Rightarrow> (string, u32) res \<times> vm" where
  "vm_call v body locs =
     (case vm_exec (vm_fuel v) v locs [] [] body of
        (Finished r, v') \<Rightarrow> (Ok r, v')
      | (r, v') \<Rightarrow> (Err (trap_message r), v'))"

definition v2_runtime ::
  "(bytes \<Rightarrow> (string, payload) res list) \<Rightarrow> (bytes \<Rightarrow> (string, instr list) res) \<Rightarrow> nat \<Rightarrow>
     (instr list, vm) wasm_runtime" where
  "v2_runtime parser decode fuel =
     \<lparr>rt_parse_all = parser, rt_module_new = decode,
      rt_instance_new = (\<lambda>_ body. Ok (v2_module fuel body)),
      rt_bind_crypto = Ok, rt_get_memory = (\<lambda>_ _. Ok ()),
      rt_get_alloc = (\<lambda>_ nm. if nm = ''sapio_alloc_v2'' then Ok () else Err ''missing export''),
      rt_get_evaluate = (\<lambda>_ nm. if nm = ''sapio_evaluate_v2'' then Ok () else Err ''missing export''),
      rt_call_alloc = (\<lambda>v _ len. vm_call v sapio_alloc_v2 [len, 0]),
      rt_call_evaluate = (\<lambda>v _ pointers. vm_call v (vm_body v) pointers),
      rt_exhausted = (\<lambda>v. vm_fuel v = 0), rt_data_size = vm_size, rt_write = vm_put\<rparr>"

section \<open>Specification\<close>

text \<open>The assembled module is a version-one binary that decodes to the body it was written with and
  has the structure of the text.\<close>

definition assembles ::
  "(bytes \<Rightarrow> (string, payload) res list) \<Rightarrow> (bytes \<Rightarrow> (string, instr list) res) \<Rightarrow> bytes \<Rightarrow> instr list \<Rightarrow> bool" where
  "assembles parser decode m body \<longleftrightarrow>
     check_module_bytes m = Ok () \<and> decode m = Ok body \<and> parser m = v2_payloads"

section \<open>Lemmas\<close>

lemma vm_put_eq_Ok:
  "vm_put v a bs = Ok v' \<longleftrightarrow> a + length bs \<le> vm_size v \<and>
     v' = v\<lparr>vm_mem := (\<lambda>i. if a \<le> i \<and> i < a + length bs then bs ! (i - a) else vm_mem v i)\<rparr>"
  by (auto simp: vm_put_def)

interpretation page: linear_memory vm_put vm_get
proof
  fix v a bs v' b n
  show "vm_get v a 0 = []" by (simp add: vm_get_def)
  assume wr: "vm_put v a bs = Ok v'"
  show "vm_get v' a (length bs) = bs"
    using wr by (auto simp: vm_put_eq_Ok vm_get_def intro!: nth_equalityI)
  assume "b + n \<le> a \<or> a + length bs \<le> b"
  then show "vm_get v' b n = vm_get v b n"
    using wr by (auto simp: vm_put_eq_Ok vm_get_def)
qed

lemma of_bool_u32_simps [simp]:
  "and (of_bool_u32 a) (of_bool_u32 b) = of_bool_u32 (a \<and> b)" "of_bool_u32 a = 0 \<longleftrightarrow> \<not> a" "of_bool_u32 a = 1 \<longleftrightarrow> a"
  by (simp_all add: of_bool_u32_def)

text \<open>Fuel in the form the machine consumes.\<close>

lemma fuel_split: "k \<le> f \<Longrightarrow> \<exists>n. f = (Suc ^^ k) n"
  by (rule exI [of _ "f - k"]) simp

lemma v2_runtime_simps [simp]:
  "rt_parse_all (v2_runtime parser decode fuel) = parser"
  "rt_module_new (v2_runtime parser decode fuel) = decode"
  "rt_instance_new (v2_runtime parser decode fuel) version body = Ok (v2_module fuel body)"
  "rt_bind_crypto (v2_runtime parser decode fuel) = Ok"
  "rt_get_memory (v2_runtime parser decode fuel) v nm = Ok ()"
  "rt_get_alloc (v2_runtime parser decode fuel) v ''sapio_alloc_v2'' = Ok ()"
  "rt_get_evaluate (v2_runtime parser decode fuel) v ''sapio_evaluate_v2'' = Ok ()"
  "rt_call_alloc (v2_runtime parser decode fuel) v nm len = vm_call v sapio_alloc_v2 [len, 0]"
  "rt_call_evaluate (v2_runtime parser decode fuel) v nm pointers = vm_call v (vm_body v) pointers"
  "rt_exhausted (v2_runtime parser decode fuel) v \<longleftrightarrow> vm_fuel v = 0"
  "rt_data_size (v2_runtime parser decode fuel) = vm_size"
  "rt_write (v2_runtime parser decode fuel) = vm_put"
  by (simp_all add: v2_runtime_def)

lemma v2_budget:
  assumes "parser m = v2_payloads"
  shows "check_compilation_budget (v2_runtime parser decode fuel) V2 m = Ok ()"
proof -
  have "add_slots 0 1 = Ok 1" "add_slots 1 8 = Ok 9" "add_slots 9 1 = Ok 10"
    by (simp_all add: add_slots_def MAX_FUNCTION_SLOTS_def)
  then show ?thesis
    by (simp add: check_compilation_budget_def assms v2_payloads_def list_get_def u32_try_from_def
        cong: bind_res_weak_cong payload.case_cong_weak)
qed

subsection \<open>The functions of the modules\<close>

lemma vm_alloc:
  assumes "7 \<le> vm_fuel v"
  shows "vm_call v sapio_alloc_v2 [len, 0] =
    (Ok (vm_heap v), v\<lparr>vm_heap := vm_heap v + len, vm_fuel := vm_fuel v - 7\<rparr>)"
proof -
  from fuel_split [OF assms] obtain n where "vm_fuel v = (Suc ^^ 7) n" ..
  then show ?thesis by (simp add: vm_call_def sapio_alloc_v2_def eval_nat_numeral)
qed

lemma vm_lock_time:
  assumes "21 \<le> vm_fuel v"
    and "pl = 0 \<Longrightarrow> al = 4 \<Longrightarrow> wl = 0 \<Longrightarrow> 52 \<le> vl \<Longrightarrow> unat vp + 8 \<le> vm_size v \<and> unat ap + 4 \<le> vm_size v"
  shows "fst (vm_call v lock_time_body [pp, pl, ap, al, vp, vl, wp, wl]) =
    Ok (of_bool_u32 (pl = 0 \<and> al = 4 \<and> wl = 0 \<and> 52 \<le> vl \<and>
      u32_from_le (vm_get v (unat vp + 4) 4) = u32_from_le (vm_get v (unat ap) 4)))"
proof -
  from fuel_split [OF assms(1)] obtain n where n: "vm_fuel v = (Suc ^^ 21) n" ..
  show ?thesis
  proof (cases "pl = 0 \<and> al = 4 \<and> wl = 0 \<and> 52 \<le> vl")
    case True
    then show ?thesis using n assms(2) by (simp add: vm_call_def lock_time_body_def eval_nat_numeral)
  next
    case False
    then have "\<not> (((pl = 0 \<and> al = 4) \<and> wl = 0) \<and> 52 \<le> vl)" by blast
    with False show ?thesis using n by (auto simp: vm_call_def lock_time_body_def eval_nat_numeral)
  qed
qed

lemma vm_trap: "\<exists>e. fst (vm_call v trap_body locs) = Err e"
  by (cases "vm_fuel v") (simp_all add: vm_call_def trap_body_def)

text \<open>The loop never leaves its block: it runs out of fuel, whatever the budget.\<close>

lemma vm_exec_loop: "vm_exec n v locs [] [Label (Some [Br 0]) 0 rest] [Br 0] = (OutOfFuel, v\<lparr>vm_fuel := 0\<rparr>)"
  by (induction n) (simp_all add: branch_def)

lemma vm_loop: "vm_call v loop_body locs = (Err ''unreachable'', v\<lparr>vm_fuel := 0\<rparr>)"
  by (cases "vm_fuel v") (simp_all add: vm_call_def loop_body_def vm_exec_loop trap_message_def)

subsection \<open>Delivery\<close>

text \<open>The host's first loop on the bump allocator: the ranges of the arena when the inputs fit in the
  page, and a refusal when they do not.\<close>

lemma alloc_all_page:
  assumes "vm_heap v = word_of_nat a" and "a \<le> vm_size v" and "vm_size v = PAGE"
    and "7 * length bs \<le> vm_fuel v" and "list_all (\<lambda>b. length b \<le> MAX_VIEW) bs"
    and "\<forall>r \<in> set ranges. fst r < snd r \<longrightarrow> snd r \<le> a"
  shows "if a + sum_list (map length bs) \<le> PAGE
    then \<exists>v'. alloc_all (v2_runtime parser decode fuel) nm v ranges bs = Ok (ranges @ arena_ranges a bs, v') \<and>
      vm_size v' = PAGE \<and> vm_body v' = vm_body v \<and> vm_fuel v \<le> vm_fuel v' + 7 * length bs
    else alloc_all (v2_runtime parser decode fuel) nm v ranges bs =
      Err ''WASM evaluator allocation is outside linear memory''"
  using assms
proof (induction bs arbitrary: v a ranges)
  case Nil
  then show ?case by simp
next
  case (Cons b bs)
  show ?case
  proof (cases "b = []")
    case True
    have "7 * length bs \<le> vm_fuel v" using Cons.prems(4) by simp
    from Cons.IH [OF Cons.prems(1-3) this, of "ranges @ [(0, 0)]"] Cons.prems(5,6) True show ?thesis
      by (auto split: if_splits)
  next
    case False
    let ?v = "v\<lparr>vm_heap := vm_heap v + word_of_nat (length b), vm_fuel := vm_fuel v - 7\<rparr>"
    have al: "vm_call v sapio_alloc_v2 [word_of_nat (length b), 0] = (Ok (vm_heap v), ?v)"
      using Cons.prems(4) by (intro vm_alloc) simp
    have ptr: "unat (vm_heap v) = a"
      using Cons.prems(1-3) by (simp add: PAGE_def unat_word_of_nat_u32)
    have sep: "\<not> list_ex (overlaps (a, a + length b)) ranges"
      using Cons.prems(6) by (auto simp: list_ex_iff overlaps_def)
    show ?thesis
    proof (cases "a + length b \<le> PAGE")
      case True
      have "vm_heap ?v = word_of_nat (a + length b)" "a + length b \<le> vm_size ?v" "vm_size ?v = PAGE"
        "7 * length bs \<le> vm_fuel ?v" "list_all (\<lambda>b. length b \<le> MAX_VIEW) bs"
        "\<forall>r \<in> set (ranges @ [(a, a + length b)]). fst r < snd r \<longrightarrow> snd r \<le> a + length b"
        using Cons.prems True by auto
      from Cons.IH [OF this] have ih: "if a + length b + sum_list (map length bs) \<le> PAGE
        then \<exists>v'. alloc_all (v2_runtime parser decode fuel) nm ?v (ranges @ [(a, a + length b)]) bs =
            Ok ((ranges @ [(a, a + length b)]) @ arena_ranges (a + length b) bs, v') \<and>
          vm_size v' = PAGE \<and> vm_body v' = vm_body ?v \<and> vm_fuel ?v \<le> vm_fuel v' + 7 * length bs
        else alloc_all (v2_runtime parser decode fuel) nm ?v (ranges @ [(a, a + length b)]) bs =
          Err ''WASM evaluator allocation is outside linear memory''" .
      have "alloc_all (v2_runtime parser decode fuel) nm v ranges (b # bs) =
          alloc_all (v2_runtime parser decode fuel) nm ?v (ranges @ [(a, a + length b)]) bs"
        using False True al sep Cons.prems(3) by (simp add: Let_def ptr)
      with ih False Cons.prems(4) show ?thesis by (fastforce simp: add.assoc split: if_splits)
    next
      case gt: False
      with False al Cons.prems(3) show ?thesis by (simp add: Let_def ptr)
    qed
  qed
qed

lemma write_all_page:
  assumes "\<forall>(bs, r) \<in> set ws. fst r + length bs \<le> vm_size v"
  shows "\<exists>v'. write_all vm_put v ws = Ok v' \<and> vm_size v' = vm_size v \<and> vm_body v' = vm_body v \<and> vm_fuel v' = vm_fuel v"
  using assms
proof (induction ws arbitrary: v)
  case (Cons w ws)
  obtain bs r where w: "w = (bs, r)" by (cases w)
  with Cons.prems obtain v1 where v1: "vm_put v (fst r) bs = Ok v1" by (auto simp: vm_put_def)
  then have "vm_size v1 = vm_size v" "vm_body v1 = vm_body v" "vm_fuel v1 = vm_fuel v" by (auto simp: vm_put_eq_Ok)
  with Cons.IH [of v1] Cons.prems v1 show ?case by (auto simp: w)
qed simp

text \<open>Both loops of the host, on a fresh instance.\<close>

lemma page_delivery:
  assumes cap: "1024 + sum_list (map length inputs) \<le> PAGE" and fuel: "7 * length inputs \<le> fuel"
    and view: "list_all (\<lambda>b. length b \<le> MAX_VIEW) inputs"
  shows "\<exists>v1 v2. alloc_all (v2_runtime parser decode fuel) nm (v2_module fuel body) [] inputs =
        Ok (arena_ranges 1024 inputs, v1) \<and>
      write_all vm_put v1 (zip inputs (arena_ranges 1024 inputs)) = Ok v2 \<and>
      vm_size v2 = PAGE \<and> vm_body v2 = body \<and> fuel \<le> vm_fuel v2 + 7 * length inputs \<and>
      (\<forall>(b, r) \<in> set (zip inputs (arena_ranges 1024 inputs)). vm_get v2 (fst r) (length b) = b \<and>
        fst r + length b \<le> PAGE)"
proof -
  let ?ranges = "arena_ranges 1024 inputs" and ?v = "v2_module fuel body"
  have "vm_heap ?v = word_of_nat 1024" "1024 \<le> vm_size ?v" "vm_size ?v = PAGE" "7 * length inputs \<le> vm_fuel ?v"
    using fuel by (simp_all add: v2_module_def PAGE_def)
  from alloc_all_page [OF this view, of "[]" parser decode fuel nm] cap obtain v1 where
    al: "alloc_all (v2_runtime parser decode fuel) nm ?v [] inputs = Ok (?ranges, v1)"
    and v1: "vm_size v1 = PAGE" "vm_body v1 = body" "fuel \<le> vm_fuel v1 + 7 * length inputs"
    by (auto simp: v2_module_def)
  note zips = arena_ranges_zip [of _ _ inputs 1024]
  have inb: "fst r + length b \<le> PAGE" if "(b, r) \<in> set (zip inputs ?ranges)" for b r
    using zips [OF that] cap by (auto simp: PAGE_def)
  then have "\<forall>(b, r) \<in> set (zip inputs ?ranges). fst r + length b \<le> vm_size v1" using v1 by auto
  from write_all_page [OF this] obtain v2 where wr: "write_all vm_put v1 (zip inputs ?ranges) = Ok v2"
    and v2: "vm_size v2 = PAGE" "vm_body v2 = body" "vm_fuel v2 = vm_fuel v1" using v1 by auto
  have "sorted_wrt (\<lambda>x y. \<not> overlaps (snd y) (snd x)) (zip inputs ?ranges)"
    using sorted_arena_ranges [of 1024 inputs] by (simp add: sorted_wrt_iff_nth_less)
  moreover have "\<forall>(b, r) \<in> set (zip inputs ?ranges). snd r = fst r + length b" using zips by blast
  ultimately have "vm_get v2 (fst r) (length b) = b" if "(b, r) \<in> set (zip inputs ?ranges)" for b r
    using page.write_all_delivers [OF wr _ _ that] by blast
  with inb al wr v1 v2 show ?thesis by (intro exI [of _ v1] exI [of _ v2]) auto
qed

lemma vm_get_part:
  "i + k \<le> n \<Longrightarrow> vm_get v (a + i) k = take k (drop i (vm_get v a n))"
  by (simp add: vm_get_def take_map drop_map add.assoc)

lemma run_guest_v2:
  assumes fuel: "7 * length inputs \<le> fuel" and small: "list_all (\<lambda>b. length b \<le> MAX_VIEW) inputs"
  shows "if 1024 + sum_list (map length inputs) \<le> PAGE
    then \<exists>v. vm_size v = PAGE \<and> vm_body v = body \<and> fuel \<le> vm_fuel v + 7 * length inputs \<and>
      (\<forall>(b, r) \<in> set (zip inputs (arena_ranges 1024 inputs)). vm_get v (fst r) (length b) = b \<and>
        fst r + length b \<le> PAGE) \<and>
      run_guest (v2_runtime parser decode fuel) V2 (v2_module fuel body) inputs =
        (case vm_call v body (call_arguments (arena_ranges 1024 inputs) inputs) of
           (Panic, _) \<Rightarrow> Panic
         | (Err e, v') \<Rightarrow> Err (execution_error (v2_runtime parser decode fuel) v' (evaluate_name V2) e)
         | (Ok w, _) \<Rightarrow> call_result w)
    else run_guest (v2_runtime parser decode fuel) V2 (v2_module fuel body) inputs =
      Err ''WASM evaluator allocation is outside linear memory''"
proof (cases "1024 + sum_list (map length inputs) \<le> PAGE")
  case True
  from page_delivery [OF True fuel small, of parser decode "alloc_name V2" body] obtain v1 v2 where
    "alloc_all (v2_runtime parser decode fuel) (alloc_name V2) (v2_module fuel body) [] inputs =
      Ok (arena_ranges 1024 inputs, v1)"
    "write_all vm_put v1 (zip inputs (arena_ranges 1024 inputs)) = Ok v2" and
    v2: "vm_size v2 = PAGE" "vm_body v2 = body" "fuel \<le> vm_fuel v2 + 7 * length inputs"
    "\<forall>(b, r) \<in> set (zip inputs (arena_ranges 1024 inputs)). vm_get v2 (fst r) (length b) = b \<and> fst r + length b \<le> PAGE"
    by blast
  then show ?thesis using True
    by (simp add: run_guest_def) (intro exI [of _ v2], simp)
next
  case False
  have "vm_heap (v2_module fuel body) = word_of_nat 1024" "1024 \<le> vm_size (v2_module fuel body)"
    "vm_size (v2_module fuel body) = PAGE" "7 * length inputs \<le> vm_fuel (v2_module fuel body)"
    using fuel by (simp_all add: v2_module_def PAGE_def)
  from alloc_all_page [OF this small, of "[]" parser decode fuel "alloc_name V2"] False show ?thesis
    by (simp add: run_guest_def)
qed

text \<open>Evaluation of an assembled module is a run of its body on delivered inputs, or a refusal.\<close>

lemma evaluate_v2:
  assumes asm: "assembles parser decode m body"
    and len: "length parameters \<le> MAX_PARAMETER_BYTES" "length witness \<le> MAX_WITNESS_BYTES"
    and view: "encode_view enc V2 inp = Ok view"
  shows "evaluate (v2_runtime parser decode fuel) enc V2 m [] parameters inp witness =
    run_guest (v2_runtime parser decode fuel) V2 (v2_module fuel body) [[], parameters, view, witness]"
  using asm len view v2_budget [of parser m decode fuel]
  by (simp add: evaluate_def assembles_def alloc_name_def evaluate_name_def not_less)

lemma v2_inputs_small:
  assumes "length parameters \<le> MAX_PARAMETER_BYTES" "length witness \<le> MAX_WITNESS_BYTES"
    and "outpoint_codec enc" "authenticated inp" and "encode_view enc V2 inp = Ok view"
  shows "list_all (\<lambda>b. length b \<le> MAX_VIEW) [[], parameters, view, witness]"
  using assms(1,2) encode_view_length(2) [OF assms(3-5)]
  by (simp add: MAX_VIEW_def MAX_SIGNED_VIEW_BYTES_def MAX_PARAMETER_BYTES_def MAX_WITNESS_BYTES_def)

text \<open>The lock time of a view is the four bytes at offset four.\<close>

lemma view_lock_time:
  assumes "outpoint_codec enc" "authenticated inp" and "encode_view enc V2 inp = Ok view"
  shows "take 4 (drop 4 view) = u32_to_le (tx_lock_time (psbt_unsigned_tx (si_psbt inp)))" and "56 \<le> length view"
  using encode_view_eq_Ok(5) [OF assms(3)] encode_view_length(1) [OF assms]
  by (auto simp: total_view_size_def)

lemma lock_time_call:
  assumes len: "length parameters \<le> MAX_PARAMETER_BYTES" "length witness \<le> MAX_WITNESS_BYTES"
    and inp: "outpoint_codec enc" "authenticated inp" and view: "encode_view enc V2 inp = Ok view"
    and v: "vm_size v = PAGE" "21 \<le> vm_fuel v"
      "\<forall>(b, r) \<in> set (zip [[], parameters, view, witness] (arena_ranges 1024 [[], parameters, view, witness])).
        vm_get v (fst r) (length b) = b \<and> fst r + length b \<le> PAGE"
  shows "fst (vm_call v lock_time_body (call_arguments (arena_ranges 1024 [[], parameters, view, witness])
      [[], parameters, view, witness])) =
    Ok (of_bool_u32 (witness = [] \<and> parameters = u32_to_le (tx_lock_time (psbt_unsigned_tx (si_psbt inp)))))"
proof -
  note vl = view_lock_time [OF inp view]
  have "length (arena_ranges 1024 [parameters, view, witness]) = Suc (Suc (Suc 0))" by (simp only: length_arena_ranges) simp
  then obtain pr vr wr where "arena_ranges 1024 [parameters, view, witness] = [pr, vr, wr]"
    by (auto simp only: length_Suc_conv length_0_conv)
  then have ranges: "arena_ranges 1024 [[], parameters, view, witness] = [(0, 0), pr, vr, wr]" by simp
  let ?p = "word_of_nat (fst pr) :: u32" and ?v = "word_of_nat (fst vr) :: u32"
  have mem: "vm_get v (fst pr) (length parameters) = parameters" "fst pr + length parameters \<le> PAGE"
    "vm_get v (fst vr) (length view) = view" "fst vr + length view \<le> PAGE"
    using v(3) unfolding ranges by simp_all
  then have ptr: "unat ?p = fst pr" "unat ?v = fst vr"
    by (simp_all add: PAGE_def unat_word_of_nat_u32)
  have words: "(word_of_nat (length parameters) :: u32) = 4 \<longleftrightarrow> length parameters = 4"
    "(word_of_nat (length witness) :: u32) = 0 \<longleftrightarrow> witness = []" "(52 :: u32) \<le> word_of_nat (length view)"
    using len vl(2) encode_view_length(2) [OF inp view]
    by (simp_all add: word_unat_eq_iff word_le_nat_alt unat_word_of_nat_u32 MAX_PARAMETER_BYTES_def
        MAX_WITNESS_BYTES_def MAX_SIGNED_VIEW_BYTES_def)
  have lock: "vm_get v (fst vr + 4) 4 = u32_to_le (tx_lock_time (psbt_unsigned_tx (si_psbt inp)))"
    using vm_get_part [of 4 4 "length view" v "fst vr"] mem(3) vl by simp
  have "fst (vm_call v lock_time_body [0, 0, ?p, word_of_nat (length parameters), ?v, word_of_nat (length view),
      word_of_nat (fst wr), word_of_nat (length witness)]) =
    Ok (of_bool_u32 (length parameters = 4 \<and> witness = [] \<and>
      tx_lock_time (psbt_unsigned_tx (si_psbt inp)) = u32_from_le (vm_get v (fst pr) 4)))"
    by (subst vm_lock_time) (use v mem vl in \<open>simp_all add: ptr words lock\<close>)
  moreover have "length parameters = 4 \<and> tx_lock_time (psbt_unsigned_tx (si_psbt inp)) = u32_from_le (vm_get v (fst pr) 4) \<longleftrightarrow>
      parameters = u32_to_le (tx_lock_time (psbt_unsigned_tx (si_psbt inp)))"
    using mem(1) u32_to_from_le [of parameters] by auto
  ultimately show ?thesis unfolding ranges call_arguments_def by (simp add: conj_ac)
qed

lemma evaluate_lock_time:
  assumes asm: "assembles parser decode m lock_time_body" and fuel: "49 \<le> fuel"
    and len: "length parameters \<le> MAX_PARAMETER_BYTES" "length witness \<le> MAX_WITNESS_BYTES"
    and inp: "outpoint_codec enc" "authenticated inp" and view: "encode_view enc V2 inp = Ok view"
  shows "evaluate (v2_runtime parser decode fuel) enc V2 m [] parameters inp witness =
    (if 1024 + length parameters + length view + length witness \<le> PAGE
     then Ok (witness = [] \<and> parameters = u32_to_le (tx_lock_time (psbt_unsigned_tx (si_psbt inp))))
     else Err ''WASM evaluator allocation is outside linear memory'')"
proof -
  let ?inputs = "[[], parameters, view, witness]"
  have "7 * length ?inputs \<le> fuel" using fuel by simp
  note run = run_guest_v2 [OF this v2_inputs_small [OF len inp view], of lock_time_body parser decode]
  note ev = evaluate_v2 [OF asm len view, of fuel]
  show ?thesis
  proof (cases "1024 + length parameters + length view + length witness \<le> PAGE")
    case True
    then have "1024 + sum_list (map length ?inputs) \<le> PAGE" by simp
    with run obtain v where v: "vm_size v = PAGE" "fuel \<le> vm_fuel v + 7 * length ?inputs"
      "\<forall>(b, r) \<in> set (zip ?inputs (arena_ranges 1024 ?inputs)). vm_get v (fst r) (length b) = b \<and> fst r + length b \<le> PAGE"
      and r: "run_guest (v2_runtime parser decode fuel) V2 (v2_module fuel lock_time_body) ?inputs =
        (case vm_call v lock_time_body (call_arguments (arena_ranges 1024 ?inputs) ?inputs) of
           (Panic, _) \<Rightarrow> Panic
         | (Err e, v') \<Rightarrow> Err (execution_error (v2_runtime parser decode fuel) v' (evaluate_name V2) e)
         | (Ok w, _) \<Rightarrow> call_result w)"
      unfolding if_P [OF \<open>1024 + sum_list (map length ?inputs) \<le> PAGE\<close>] by blast
    have "21 \<le> vm_fuel v" using v(2) fuel by simp
    from lock_time_call [OF len inp view v(1) this v(3)]
    obtain v' where "vm_call v lock_time_body (call_arguments (arena_ranges 1024 ?inputs) ?inputs) =
      (Ok (of_bool_u32 (witness = [] \<and> parameters = u32_to_le (tx_lock_time (psbt_unsigned_tx (si_psbt inp))))), v')"
      by (metis prod.collapse)
    with r ev True show ?thesis by (simp only: prod.case res.case if_P) (simp add: call_result_def of_bool_u32_def)
  next
    case False
    then have "\<not> 1024 + sum_list (map length ?inputs) \<le> PAGE" by simp
    with run ev False show ?thesis by (simp only: if_False)
  qed
qed

text \<open>A body that never returns a value is never an acceptance.\<close>

lemma evaluate_no_value:
  assumes asm: "assembles parser decode m body" and fuel: "28 \<le> fuel"
    and len: "length parameters \<le> MAX_PARAMETER_BYTES" "length witness \<le> MAX_WITNESS_BYTES"
    and inp: "outpoint_codec enc" "authenticated inp"
    and body: "\<And>v locs. \<exists>e. fst (vm_call v body locs) = Err e"
  shows "evaluate (v2_runtime parser decode fuel) enc V2 m [] parameters inp witness \<noteq> Ok b"
proof (cases "encode_view enc V2 inp")
  case (Ok view)
  have "7 * length [[], parameters, view, witness] \<le> fuel" using fuel by simp
  note run = run_guest_v2 [OF this v2_inputs_small [OF len inp Ok], of body parser decode]
  have "(case vm_call v body locs of (Panic, _) \<Rightarrow> Panic
     | (Err e, v') \<Rightarrow> Err (execution_error rt v' (evaluate_name V2) e) | (Ok w, _) \<Rightarrow> call_result w) \<noteq> Ok b"
    for v locs and rt :: "('x, vm) wasm_runtime"
    using body [of v locs] by (auto split: prod.splits res.splits)
  with run have "run_guest (v2_runtime parser decode fuel) V2 (v2_module fuel body) [[], parameters, view, witness] \<noteq> Ok b"
    by (metis res.distinct(1))
  then show ?thesis using evaluate_v2 [OF asm len Ok, of fuel] by simp
qed (use asm len in \<open>auto simp: evaluate_def assembles_def bind_res_eq_Ok\<close>)

lemma sample_assembles: "assembles (\<lambda>_. v2_payloads) (\<lambda>_. Ok body) WASM_HEADER body"
  by (simp add: assembles_def check_module_bytes_def WASM_HEADER_def MAX_PROGRAM_BYTES_def)

section \<open>Properties\<close>

text \<open>C9: the inline lock-time module authorizes exactly its committed lock time. Through the whole host
  path (allocation by the module's own allocator, delivery, call) and for every context, parameters and
  witness, the module's verdict is that the witness is empty and the parameters are the lock time of the
  signed transaction; inputs that do not fit in its single page are refused before it runs.\<close>

theorem v2_lock_time_exact:
  assumes "assembles parser decode m lock_time_body" and "49 \<le> fuel"
    and "length parameters \<le> MAX_PARAMETER_BYTES" "length witness \<le> MAX_WITNESS_BYTES"
    and "outpoint_codec enc" "authenticated inp" and "encode_view enc V2 inp = Ok view"
  shows "evaluate (v2_runtime parser decode fuel) enc V2 m [] parameters inp witness =
    (if 1024 + length parameters + length view + length witness \<le> PAGE
     then Ok (witness = [] \<and> parameters = u32_to_le (tx_lock_time (psbt_unsigned_tx (si_psbt inp))))
     else Err ''WASM evaluator allocation is outside linear memory'')"
  using assms by (rule evaluate_lock_time)

theorem v2_lock_time_exact_witness:
  "evaluate (v2_runtime (\<lambda>_. v2_payloads) (\<lambda>_. Ok lock_time_body) 100000000) sample_enc V2 WASM_HEADER []
     (u32_to_le (tx_lock_time sample_tx)) sample_context [] = Ok True"
proof -
  have size: "total_view_size V2 sample_context = 124" by (simp add: sample_defs total_view_size_def)
  have key: "pi_tap_internal_key (psbt_inputs (si_psbt sample_context) ! si_input_index sample_context) \<noteq> None"
    by (simp add: sample_defs)
  from encode_view_fits [OF sample_authenticated _ key, of V2] size obtain view
    where view: "encode_view sample_enc V2 sample_context = Ok view" by (auto simp: MAX_SIGNED_VIEW_BYTES_def)
  have "length view = 124" using encode_view_length(1) [OF sample_enc_codec(1) sample_authenticated view] size by simp
  show ?thesis
    by (subst v2_lock_time_exact [OF sample_assembles _ _ _ sample_enc_codec(1) sample_authenticated view])
      (simp_all add: \<open>length view = 124\<close> PAGE_def MAX_PARAMETER_BYTES_def sample_context_def)
qed

end
