(* ===== verification/Oracle_Client.thy ===== *)
theory Oracle_Client
  imports Client V2_Module "HOL-Library.AList"
begin

text \<open>
  The program-oracle demonstration, \<open>src/examples/program_oracle.rs\<close>: the registered payment rule, the
  inline CTV program and three inline V2 modules against a remote oracle, with synthetic funding of
  input one on the key path and on a script path.

  Parameters, in \<open>oracle_lib\<close>: the connection, the Taproot builder, script, PSBT and transaction-id
  functions of the libraries, the program constructors, the CTV hash and its program, and the
  WebAssembly assembler. What is relied on of them is \<open>oracle_lib_laws\<close>. The verdict of the oracle is
  \<open>oracle_approves\<close>: the selection of the module is \<open>select_module\<close> over the measured registry, and
  the evaluation is a parameter \<open>engine\<close> which runs the V2 modules as \<open>V2_Module\<close> does and obeys the
  documented rule of the payment interpreter.
\<close>

section \<open>Data\<close>

definition MINIMUM :: u64 where "MINIMUM = 9000"
definition FUNDING :: u64 where "FUNDING = 20000"

text \<open>\<open>LeafVersion::TapScript\<close>.\<close>

definition TAP_SCRIPT :: byte where "TAP_SCRIPT = 0xc0"

record ('a, 'c, 'w, 'b, 'i) oracle_lib =
  ol_client_new :: "'a \<Rightarrow> xpub \<Rightarrow> 'c result"
  ol_sign :: "'c \<Rightarrow> 'w signer"
  ol_display :: "client_error \<Rightarrow> string"
  ol_p2wpkh :: "bytes \<Rightarrow> script"
  ol_for_wasm :: "bytes \<Rightarrow> hash"
  ol_program_new :: "hash \<Rightarrow> bytes \<Rightarrow> bytes \<Rightarrow> program_instance result"
  ol_wasm_v2 :: "bytes \<Rightarrow> bytes \<Rightarrow> program_instance result"
  ol_derive_public_key :: "program_instance \<Rightarrow> xpub \<Rightarrow> bytes result"
  ol_checksig_script :: "bytes \<Rightarrow> script"
  ol_builder_new :: 'b
  ol_add_leaf :: "'b \<Rightarrow> nat \<Rightarrow> script \<Rightarrow> 'b result"
  ol_finalize :: "'b \<Rightarrow> bytes \<Rightarrow> (string, 'i) res"
  ol_output_key :: "'i \<Rightarrow> bytes"
  ol_merkle_root :: "'i \<Rightarrow> hash option"
  ol_control_block :: "'i \<Rightarrow> script \<times> byte \<Rightarrow> bytes option"
  ol_leaf_hash :: "script \<Rightarrow> byte \<Rightarrow> hash"
  ol_new_p2tr_tweaked :: "bytes \<Rightarrow> script"
  ol_compute_txid :: "transaction \<Rightarrow> hash"
  ol_tx_in_default :: tx_in
  ol_psbt_from_unsigned_tx :: "transaction \<Rightarrow> psbt result"
  ol_ctv_hash :: "transaction \<Rightarrow> u32 \<Rightarrow> hash"
  ol_ctv_wasm_instance :: "hash \<Rightarrow> program_instance"
  ol_wat_parse :: "instr list \<Rightarrow> bytes result"

section \<open>Operations\<close>

definition oracle_recipient :: "('a, 'c, 'w, 'b, 'i) oracle_lib \<Rightarrow> byte \<Rightarrow> script" where
  "oracle_recipient lib tag = ol_p2wpkh lib (replicate 20 tag)"

definition payment_instance ::
  "('a, 'c, 'w, 'b, 'i) oracle_lib \<Rightarrow> deployment_lib \<Rightarrow> program_instance result" where
  "payment_instance lib dl =
     (let s = oracle_recipient lib 1;
          parameters = u64_to_le MINIMUM @ u32_to_le (word_of_nat (length s)) @ s
      in ol_program_new lib (ol_for_wasm lib (PAY_AT_LEAST_WASM dl)) PAY_AT_LEAST_SELECTOR parameters)"

definition oracle_transaction :: "('a, 'c, 'w, 'b, 'i) oracle_lib \<Rightarrow> transaction" where
  "oracle_transaction lib =
     \<lparr>tx_version = 2, tx_lock_time = 500,
      tx_input =
        [\<lparr>ti_previous_output = \<lparr>op_txid = replicate 32 1, op_vout = 0\<rparr>, ti_sequence = 100\<rparr>,
         \<lparr>ti_previous_output = \<lparr>op_txid = replicate 32 2, op_vout = 0\<rparr>, ti_sequence = 200\<rparr>],
      tx_output =
        [\<lparr>txo_value = MINIMUM, txo_script_pubkey = oracle_recipient lib 1\<rparr>,
         \<lparr>txo_value = 10000, txo_script_pubkey = oracle_recipient lib 2\<rparr>]\<rparr>"

subsection \<open>Requests\<close>

text \<open>The Taproot output of \<open>request\<close>: a single leaf on the script path, none on the key path.\<close>

definition taproot_spend ::
  "('a, 'c, 'w, 'b, 'i) oracle_lib \<Rightarrow> bytes \<Rightarrow> script option \<Rightarrow> 'i result" where
  "taproot_spend lib key leaf =
     bind_res (case leaf of None \<Rightarrow> Ok (ol_builder_new lib) | Some s \<Rightarrow> ol_add_leaf lib (ol_builder_new lib) 0 s)
       (\<lambda>builder. map_err (\<lambda>_. Msg ''incomplete Taproot tree'') (ol_finalize lib builder key))"

definition funding_output :: "('a, 'c, 'w, 'b, 'i) oracle_lib \<Rightarrow> 'i \<Rightarrow> tx_out" where
  "funding_output lib spend =
     \<lparr>txo_value = FUNDING, txo_script_pubkey = ol_new_p2tr_tweaked lib (ol_output_key lib spend)\<rparr>"

definition funding_tx :: "('a, 'c, 'w, 'b, 'i) oracle_lib \<Rightarrow> 'i \<Rightarrow> transaction" where
  "funding_tx lib spend =
     \<lparr>tx_version = 2, tx_lock_time = 0, tx_input = [ol_tx_in_default lib], tx_output = [funding_output lib spend]\<rparr>"

definition fund_selected ::
  "('a, 'c, 'w, 'b, 'i) oracle_lib \<Rightarrow> bytes \<Rightarrow> 'i \<Rightarrow> psbt_input \<Rightarrow> psbt_input" where
  "fund_selected lib key spend m =
     m\<lparr>pi_witness_utxo := Some (funding_output lib spend), pi_tap_internal_key := Some key,
       pi_tap_merkle_root := ol_merkle_root lib spend\<rparr>"

text \<open>The spend path, and the selected input with the leaf it is authenticated by.\<close>

definition spend_path_of ::
  "('a, 'c, 'w, 'b, 'i) oracle_lib \<Rightarrow> 'i \<Rightarrow> script option \<Rightarrow> psbt_input \<Rightarrow> (spend_path \<times> psbt_input) result" where
  "spend_path_of lib spend leaf m =
     (case leaf of
        None \<Rightarrow> Ok (KeyPath, m)
      | Some s \<Rightarrow>
          bind_res (ok_or (Msg ''missing generated control block'') (ol_control_block lib spend (s, TAP_SCRIPT)))
            (\<lambda>control. Ok (ScriptPath (ol_leaf_hash lib s TAP_SCRIPT),
              m\<lparr>pi_tap_scripts := AList.update control (s, TAP_SCRIPT) (pi_tap_scripts m)\<rparr>)))"

definition oracle_request ::
  "('a, 'c, 'w, 'b, 'i) oracle_lib \<Rightarrow> xpub \<Rightarrow> program_instance \<Rightarrow> transaction \<Rightarrow> bool \<Rightarrow> signing_request result" where
  "oracle_request lib root inst tx script_path =
     bind_res (ol_derive_public_key lib inst root) (\<lambda>key.
     let leaf = (if script_path then Some (ol_checksig_script lib key) else None) in
     bind_res (taproot_spend lib key leaf) (\<lambda>spend.
     bind_res (edit_input 1 (\<lambda>i. i\<lparr>ti_previous_output :=
         \<lparr>op_txid = ol_compute_txid lib (funding_tx lib spend), op_vout = 0\<rparr>\<rparr>) tx) (\<lambda>tx'.
     bind_res (ol_psbt_from_unsigned_tx lib tx') (\<lambda>psbt.
     bind_res (edit_nth (psbt_inputs psbt) 0 (\<lambda>m. Ok (m\<lparr>pi_witness_utxo :=
         Some \<lparr>txo_value = 1000, txo_script_pubkey = oracle_recipient lib 3\<rparr>\<rparr>))) (\<lambda>ms.
     bind_res (edit_nth ms 1 (\<lambda>m. Ok (fund_selected lib key spend m))) (\<lambda>ms'.
     bind_res (spend_path_of lib spend leaf (ms' ! 1)) (\<lambda>(path, m).
     Ok \<lparr>rq_instance = inst, rq_input_index = 1, rq_witness = [], rq_path = path,
         rq_psbt = psbt\<lparr>psbt_inputs := ms'[1 := m]\<rparr>\<rparr>)))))))"

definition same_commitment_and_funding :: "signing_request \<Rightarrow> signing_request \<Rightarrow> unit result" where
  "same_commitment_and_funding a b =
     (if \<not> (rq_instance a = rq_instance b \<and> rq_path a = rq_path b)
      then Err (Msg ''fixture changed program commitment/path'')
      else if rq_input_index a \<noteq> rq_input_index b then Err (Msg ''fixture changed selected input'')
      else if tx_input (psbt_unsigned_tx (rq_psbt a)) \<noteq> tx_input (psbt_unsigned_tx (rq_psbt b))
      then Err (Msg ''fixture changed funding inputs'')
      else if list_ex (\<lambda>(m, n). pi_witness_utxo m \<noteq> pi_witness_utxo n)
        (zip (psbt_inputs (rq_psbt a)) (psbt_inputs (rq_psbt b)))
      then Err (Msg ''fixture changed funding output'')
      else Ok ())"

subsection \<open>Registered payments\<close>

definition payment_original ::
  "('a, 'c, 'w, 'b, 'i) oracle_lib \<Rightarrow> xpub \<Rightarrow> program_instance \<Rightarrow> bool \<Rightarrow> signing_request result" where
  "payment_original lib root inst script_path =
     bind_res (oracle_request lib root inst (oracle_transaction lib) script_path)
       (\<lambda>r. Ok (r\<lparr>rq_witness := u32_to_le 0\<rparr>))"

definition swap_outputs :: "transaction \<Rightarrow> transaction result" where
  "swap_outputs tx =
     (if 1 < length (tx_output tx)
      then Ok (tx\<lparr>tx_output := (tx_output tx)[0 := tx_output tx ! 1, 1 := tx_output tx ! 0]\<rparr>) else Panic)"

definition alternative_payment :: "signing_request \<Rightarrow> signing_request result" where
  "alternative_payment original =
     bind_res (edit_tx (\<lambda>tx. bind_res (edit_output 0 (set_value 11000) tx)
         (\<lambda>tx1. bind_res (edit_output 1 (set_value 8000) tx1) swap_outputs)) original)
       (\<lambda>r. Ok (r\<lparr>rq_witness := u32_to_le 1\<rparr>))"

definition underpaid :: "signing_request \<Rightarrow> signing_request result" where
  "underpaid = edit_tx (edit_output 0 (set_value (MINIMUM - 1)))"

definition redirected_payment ::
  "('a, 'c, 'w, 'b, 'i) oracle_lib \<Rightarrow> signing_request \<Rightarrow> signing_request result" where
  "redirected_payment lib = edit_tx (edit_output 0 (set_script (oracle_recipient lib 4)))"

definition malformed_evidence :: "signing_request \<Rightarrow> signing_request result" where
  "malformed_evidence original = Ok (original\<lparr>rq_witness := butlast (rq_witness original)\<rparr>)"

definition unauthenticated :: "signing_request \<Rightarrow> signing_request result" where
  "unauthenticated r =
     bind_res (edit_nth (psbt_inputs (rq_psbt r)) 1 (\<lambda>m. Ok (m\<lparr>pi_tap_scripts := []\<rparr>)))
       (\<lambda>ms. Ok (r\<lparr>rq_psbt := (rq_psbt r)\<lparr>psbt_inputs := ms\<rparr>\<rparr>))"

definition substituted_payment ::
  "('a, 'c, 'w, 'b, 'i) oracle_lib \<Rightarrow> signing_request \<Rightarrow> signing_request result" where
  "substituted_payment lib original =
     (let parameters = pr_parameters (rq_instance original) in
      if length parameters < 8 then Panic
      else bind_res (ol_program_new lib (pr_evaluator (rq_instance original)) PAY_AT_LEAST_SELECTOR
          (u64_to_le 1 @ drop 8 parameters))
        (\<lambda>i. Ok (original\<lparr>rq_instance := i\<rparr>)))"

definition unknown_evaluator ::
  "('a, 'c, 'w, 'b, 'i) oracle_lib \<Rightarrow> xpub \<Rightarrow> signing_request result" where
  "unknown_evaluator lib root =
     bind_res (ol_program_new lib (ol_for_wasm lib (str_bytes ''unregistered demonstration interpreter'')) [] [])
       (\<lambda>unknown. oracle_request lib root unknown (oracle_transaction lib) False)"

text \<open>A changed request is compared with the original before it is sent.\<close>

definition compared :: "signing_request result \<Rightarrow> (signing_request \<Rightarrow> signing_request result) \<Rightarrow> step" where
  "compared original f = Ensure (bind_res original (\<lambda>r. bind_res (f r) (same_commitment_and_funding r)))"

definition payments ::
  "('a, 'c, 'w, 'b, 'i) oracle_lib \<Rightarrow> xpub \<Rightarrow> program_instance \<Rightarrow> signing_request \<Rightarrow> step list" where
  "payments lib root inst original =
     [Accept (Ok original) ''registered payment: minimum to output 0, key path/input 1'',
      compared (Ok original) alternative_payment,
      Accept (alternative_payment original) ''same payment commitment/funding: larger payment to output 1'',
      compared (Ok original) underpaid,
      Reject (underpaid original) ''underpayment'',
      compared (Ok original) (redirected_payment lib),
      Reject (redirected_payment lib original) ''redirected recipient'',
      compared (Ok original) malformed_evidence,
      Reject (malformed_evidence original) ''malformed output-index evidence'',
      Accept (payment_original lib root inst True) ''authenticated payment script path/input 1'',
      Reject (bind_res (payment_original lib root inst True) unauthenticated)
        ''missing script-path authentication'',
      Reject (substituted_payment lib original) ''different instance cannot authorize original funding'',
      Reject (unknown_evaluator lib root) ''unknown evaluator'']"

subsection \<open>Inline programs\<close>

definition ctv_original :: "('a, 'c, 'w, 'b, 'i) oracle_lib \<Rightarrow> xpub \<Rightarrow> signing_request result" where
  "ctv_original lib root =
     oracle_request lib root (ol_ctv_wasm_instance lib (ol_ctv_hash lib (oracle_transaction lib) 1))
       (oracle_transaction lib) False"

definition ctv_changed :: "signing_request \<Rightarrow> signing_request result" where
  "ctv_changed = edit_tx (edit_output 0 (add_value 1))"

definition ctv :: "('a, 'c, 'w, 'b, 'i) oracle_lib \<Rightarrow> xpub \<Rightarrow> step list" where
  "ctv lib root =
     [Accept (ctv_original lib root) ''inline v1 CTV with native-witness prevouts/input 1'',
      compared (ctv_original lib root) ctv_changed,
      Reject (bind_res (ctv_original lib root) ctv_changed)
        ''changed CTV template under original commitment/funding'']"

definition inline_request ::
  "('a, 'c, 'w, 'b, 'i) oracle_lib \<Rightarrow> xpub \<Rightarrow> instr list \<Rightarrow> bytes \<Rightarrow> signing_request result" where
  "inline_request lib root body parameters =
     bind_res (ol_wat_parse lib body) (\<lambda>m.
     bind_res (ol_wasm_v2 lib m parameters) (\<lambda>i.
     oracle_request lib root i (oracle_transaction lib) False))"

definition lock_time_changed :: "signing_request \<Rightarrow> signing_request result" where
  "lock_time_changed = edit_tx (\<lambda>tx. Ok (tx\<lparr>tx_lock_time := 501\<rparr>))"

definition inline_v2 :: "('a, 'c, 'w, 'b, 'i) oracle_lib \<Rightarrow> xpub \<Rightarrow> step list" where
  "inline_v2 lib root =
     (let original = inline_request lib root lock_time_body (u32_to_le 500) in
      [Accept original ''inline v2 signed lock-time predicate/input 1'',
       compared original lock_time_changed,
       Reject (bind_res original lock_time_changed) ''v2 rejects changed signed lock time'',
       Reject (inline_request lib root trap_body []) ''v2 trap fails closed'',
       Reject (inline_request lib root loop_body []) ''v2 infinite loop exhausts fuel and fails closed''])"

subsection \<open>The client\<close>

definition oracle_setup ::
  "('a, 'f) client_lib \<Rightarrow> deployment_lib \<Rightarrow> ('a, 'c, 'w, 'b, 'i) oracle_lib \<Rightarrow> 'a options \<Rightarrow>
     ('c \<times> xpub \<times> program_instance \<times> signing_request) result" where
  "oracle_setup clib dl lib opts =
     bind_res (load_identity clib dl opts) (\<lambda>identity.
     bind_res (ol_client_new lib (op_address opts) (ci_xpub identity)) (\<lambda>client.
     bind_res (payment_instance lib dl) (\<lambda>inst.
     bind_res (payment_original lib (ci_xpub identity) inst False) (\<lambda>original.
     Ok (client, ci_xpub identity, inst, original)))))"

definition oracle_steps ::
  "('a, 'c, 'w, 'b, 'i) oracle_lib \<Rightarrow> xpub \<Rightarrow> program_instance \<Rightarrow> signing_request \<Rightarrow> step list" where
  "oracle_steps lib root inst payment =
     payments lib root inst payment @ ctv lib root @ inline_v2 lib root @
     [Accept (Ok payment) ''server remains live after rejected predicates, trap and fuel exhaustion'']"

definition oracle_main ::
  "('a, 'f) client_lib \<Rightarrow> deployment_lib \<Rightarrow> ('a, 'c, 'w, 'b, 'i) oracle_lib \<Rightarrow> os_string list \<Rightarrow> ('w, unit) cmd" where
  "oracle_main clib dl lib args =
     cmd_bind (cmd_lift (options_of clib args)) (\<lambda>parsed.
     case parsed of
       None \<Rightarrow> cmd_lift (Ok ())
     | Some opts \<Rightarrow>
         cmd_bind (cmd_lift (oracle_setup clib dl lib opts)) (\<lambda>(client, root, inst, payment).
         run_steps (accepted (ol_sign lib client) '': expected valid signature'')
           (rejected (ol_sign lib client) (ol_display lib)
             '': expected Rejected, not transport/validation failure: '')
           (oracle_steps lib root inst payment)))"

section \<open>Specification\<close>

type_synonym engine =
  "wasm_version \<Rightarrow> bytes \<Rightarrow> bytes \<Rightarrow> bytes \<Rightarrow> signing_input \<Rightarrow> bytes \<Rightarrow> (string, bool) res"

text \<open>A script path is authenticated by its leaf among the Taproot scripts of the selected input.\<close>

definition script_authenticated :: "(script \<Rightarrow> byte \<Rightarrow> hash) \<Rightarrow> signing_request \<Rightarrow> bool" where
  "script_authenticated leaf_hash r \<longleftrightarrow>
     (case rq_path r of
        KeyPath \<Rightarrow> True
      | ScriptPath h \<Rightarrow>
          (case list_get (psbt_inputs (rq_psbt r)) (unat (rq_input_index r)) of
             None \<Rightarrow> False
           | Some m \<Rightarrow> list_ex (\<lambda>(control, s, v). leaf_hash s v = h) (pi_tap_scripts m)))"

definition oracle_approves ::
  "engine \<Rightarrow> spend_lib \<Rightarrow> wasm_evaluator list \<Rightarrow> (script \<Rightarrow> byte \<Rightarrow> hash) \<Rightarrow>
     (script \<Rightarrow> program_instance option) \<Rightarrow> signing_request \<Rightarrow> bool" where
  "oracle_approves engine sl registry leaf_hash program_of r \<longleftrightarrow>
     funded program_of r \<and> script_authenticated leaf_hash r \<and>
     (case select_module sl registry (rq_instance r) of
        Ok (m, selector, version) \<Rightarrow>
          engine version m selector (pr_parameters (rq_instance r)) (request_input r) (rq_witness r) = Ok True
      | _ \<Rightarrow> False)"

text \<open>The rule of the registered interpreter: the output the witness selects pays at least the committed
  minimum to the committed script.\<close>

definition pays_at_least :: "bytes \<Rightarrow> transaction \<Rightarrow> bytes \<Rightarrow> bool" where
  "pays_at_least parameters tx witness \<longleftrightarrow>
     length witness = 4 \<and> unat (u32_from_le witness) < length (tx_output tx) \<and>
     (let out = tx_output tx ! unat (u32_from_le witness) in
      8 \<le> length parameters \<and> u64_from_le (take 8 parameters) \<le> txo_value out \<and>
      drop 8 parameters = encode_script (txo_script_pubkey out))"

text \<open>Native witness outputs, by the length of their scripts.\<close>

definition native_witness :: "signing_input \<Rightarrow> bool" where
  "native_witness inp \<longleftrightarrow>
     list_all (\<lambda>out. length (txo_script_pubkey out) \<in> {22, 34}) (prevouts (psbt_inputs (si_psbt inp)))"

definition documented_engine ::
  "engine \<Rightarrow> deployment_lib \<Rightarrow> ('a, 'c, 'w, 'b, 'i) oracle_lib \<Rightarrow> (bytes \<Rightarrow> (string, payload) res list) \<Rightarrow>
     (bytes \<Rightarrow> (string, instr list) res) \<Rightarrow> nat \<Rightarrow> (outpoint \<Rightarrow> bytes) \<Rightarrow> bool" where
  "documented_engine engine dl lib parser decode fuel enc \<longleftrightarrow>
     (\<forall>p inp w. authenticated inp \<longrightarrow> total_view_size V1 inp \<le> MAX_SIGNED_VIEW_BYTES \<longrightarrow>
        (engine V1 (PAY_AT_LEAST_WASM dl) PAY_AT_LEAST_SELECTOR p inp w = Ok True \<longleftrightarrow>
          pays_at_least p (psbt_unsigned_tx (si_psbt inp)) w)) \<and>
     (\<forall>h inp. authenticated inp \<longrightarrow> native_witness inp \<longrightarrow> total_view_size V1 inp \<le> MAX_SIGNED_VIEW_BYTES \<longrightarrow>
        (engine V1 (pr_program (ol_ctv_wasm_instance lib h)) [] (pr_parameters (ol_ctv_wasm_instance lib h)) inp [] =
          Ok True \<longleftrightarrow> ol_ctv_hash lib (psbt_unsigned_tx (si_psbt inp)) (word_of_nat (si_input_index inp)) = h)) \<and>
     (\<forall>body m p inp w. ol_wat_parse lib body = Ok m \<longrightarrow>
        engine V2 m [] p inp w = evaluate (v2_runtime parser decode fuel) enc V2 m [] p inp w)"

definition assembler ::
  "('a, 'c, 'w, 'b, 'i) oracle_lib \<Rightarrow> (bytes \<Rightarrow> (string, payload) res list) \<Rightarrow>
     (bytes \<Rightarrow> (string, instr list) res) \<Rightarrow> bool" where
  "assembler lib parser decode \<longleftrightarrow>
     list_all (\<lambda>body. \<exists>m. ol_wat_parse lib body = Ok m \<and> assembles parser decode m body)
       [lock_time_body, trap_body, loop_body]"

text \<open>Documented behaviour of the libraries.\<close>

definition oracle_lib_laws ::
  "('a, 'c, 'w, 'b, 'i) oracle_lib \<Rightarrow> deployment_lib \<Rightarrow> spend_lib \<Rightarrow> bool" where
  "oracle_lib_laws lib dl sl \<longleftrightarrow>
     (\<forall>h. length h = 20 \<longrightarrow> length (ol_p2wpkh lib h) = 22) \<and> inj_on (ol_p2wpkh lib) {h. length h = 20} \<and>
     (\<forall>e p ps. length p \<le> MAX_PROGRAM_BYTES \<longrightarrow> length ps \<le> MAX_PARAMETER_BYTES \<longrightarrow>
        ol_program_new lib e p ps = Ok \<lparr>pr_evaluator = e, pr_program = p, pr_parameters = ps\<rparr>) \<and>
     (\<forall>m ps. check_module_bytes m = Ok () \<longrightarrow> length ps \<le> MAX_PARAMETER_BYTES \<longrightarrow>
        ol_wasm_v2 lib m ps = Ok \<lparr>pr_evaluator = evaluator_id_wasm_v2 dl, pr_program = m, pr_parameters = ps\<rparr>) \<and>
     (\<forall>h. pr_evaluator (ol_ctv_wasm_instance lib h) = evaluator_id_wasm dl) \<and>
     inline_wasm_version sl (evaluator_id_wasm dl) = Some V1 \<and>
     inline_wasm_version sl (evaluator_id_wasm_v2 dl) = Some V2 \<and>
     (\<forall>m. ol_for_wasm lib m = evaluator_id_for_wasm_version dl m V1) \<and>
     inline_wasm_version sl (evaluator_id_for_wasm_version dl (PAY_AT_LEAST_WASM dl) V1) = None \<and>
     inline_wasm_version sl (evaluator_id_for_wasm_version dl (str_bytes ''unregistered demonstration interpreter'') V1) = None \<and>
     (\<forall>key leaf. \<exists>spend. taproot_spend lib key leaf = Ok spend \<and>
        (\<forall>s. leaf = Some s \<longrightarrow> ol_control_block lib spend (s, TAP_SCRIPT) \<noteq> None)) \<and>
     (\<forall>k. length (ol_new_p2tr_tweaked lib k) = 34) \<and> (\<forall>tx. length (ol_compute_txid lib tx) = 32) \<and>
     (\<forall>tx. \<exists>psbt. ol_psbt_from_unsigned_tx lib tx = Ok psbt \<and> psbt_unsigned_tx psbt = tx \<and>
        length (psbt_inputs psbt) = length (tx_input tx) \<and>
        list_all (\<lambda>m. pi_witness_utxo m = None \<and> pi_tap_internal_key m = None \<and> pi_tap_scripts m = [])
          (psbt_inputs psbt)) \<and>
     (\<forall>tx ins k. map ti_sequence ins = map ti_sequence (tx_input tx) \<longrightarrow>
        ol_ctv_hash lib (tx\<lparr>tx_input := ins\<rparr>) k = ol_ctv_hash lib tx k)"

text \<open>The output key of a program's key, on either path, commits to the program.\<close>

definition commits ::
  "('a, 'c, 'w, 'b, 'i) oracle_lib \<Rightarrow> xpub \<Rightarrow> (script \<Rightarrow> program_instance option) \<Rightarrow> program_instance \<Rightarrow> bool" where
  "commits lib root program_of i \<longleftrightarrow>
     (\<exists>key. ol_derive_public_key lib i root = Ok key \<and> length key = 32 \<and>
        (\<forall>leaf \<in> {None, Some (ol_checksig_script lib key)}. \<forall>spend. taproot_spend lib key leaf = Ok spend \<longrightarrow>
           program_of (ol_new_p2tr_tweaked lib (ol_output_key lib spend)) = Some i))"

definition demo_programs :: "('a, 'c, 'w, 'b, 'i) oracle_lib \<Rightarrow> deployment_lib \<Rightarrow> program_instance result list" where
  "demo_programs lib dl =
     [payment_instance lib dl,
      ol_program_new lib (ol_for_wasm lib (str_bytes ''unregistered demonstration interpreter'')) [] [],
      Ok (ol_ctv_wasm_instance lib (ol_ctv_hash lib (oracle_transaction lib) 1))] @
     map (\<lambda>(body, p). bind_res (ol_wat_parse lib body) (\<lambda>m. ol_wasm_v2 lib m p))
       [(lock_time_body, u32_to_le 500), (trap_body, []), (loop_body, [])]"

text \<open>The identifiers and hashes of the demonstration do not collide.\<close>

definition oracle_distinct :: "('a, 'c, 'w, 'b, 'i) oracle_lib \<Rightarrow> deployment_lib \<Rightarrow> bool" where
  "oracle_distinct lib dl \<longleftrightarrow>
     ol_for_wasm lib (str_bytes ''unregistered demonstration interpreter'') \<noteq> ol_for_wasm lib (PAY_AT_LEAST_WASM dl) \<and>
     (case edit_output 0 (add_value 1) (oracle_transaction lib) of
        Ok tx \<Rightarrow> ol_ctv_hash lib tx 1 \<noteq> ol_ctv_hash lib (oracle_transaction lib) 1 | _ \<Rightarrow> True)"

definition oracle_funded ::
  "('a, 'c, 'w, 'b, 'i) oracle_lib \<Rightarrow> (script \<Rightarrow> program_instance option) \<Rightarrow> signing_request \<Rightarrow> bool" where
  "oracle_funded lib program_of r \<longleftrightarrow>
     (\<exists>t0 t1 m0 m1 sc key. tx_input (psbt_unsigned_tx (rq_psbt r)) = [t0, t1] \<and>
        map ti_sequence [t0, t1] = map ti_sequence (tx_input (oracle_transaction lib)) \<and>
        wf_outpoint (ti_previous_output t0) \<and> wf_outpoint (ti_previous_output t1) \<and>
        psbt_inputs (rq_psbt r) = [m0, m1] \<and>
        pi_witness_utxo m0 = Some \<lparr>txo_value = 1000, txo_script_pubkey = oracle_recipient lib 3\<rparr> \<and>
        pi_witness_utxo m1 = Some \<lparr>txo_value = FUNDING, txo_script_pubkey = sc\<rparr> \<and> length sc = 34 \<and>
        program_of sc = Some (rq_instance r) \<and> pi_tap_internal_key m0 = None \<and>
        pi_tap_internal_key m1 = Some key \<and> length key = 32 \<and> rq_input_index r = 1 \<and>
        outputs_size (tx_output (psbt_unsigned_tx (rq_psbt r))) \<le> 1000)"

section \<open>Lemmas\<close>

lemma oracle_lawD:
  assumes "oracle_lib_laws lib dl sl"
  shows "length h = 20 \<Longrightarrow> length (ol_p2wpkh lib h) = 22" and "inj_on (ol_p2wpkh lib) {h. length h = 20}"
    and "length p \<le> MAX_PROGRAM_BYTES \<Longrightarrow> length ps \<le> MAX_PARAMETER_BYTES \<Longrightarrow>
        ol_program_new lib e p ps = Ok \<lparr>pr_evaluator = e, pr_program = p, pr_parameters = ps\<rparr>"
    and "check_module_bytes m = Ok () \<Longrightarrow> length ps \<le> MAX_PARAMETER_BYTES \<Longrightarrow>
        ol_wasm_v2 lib m ps = Ok \<lparr>pr_evaluator = evaluator_id_wasm_v2 dl, pr_program = m, pr_parameters = ps\<rparr>"
    and "pr_evaluator (ol_ctv_wasm_instance lib hh) = evaluator_id_wasm dl"
    and "inline_wasm_version sl (evaluator_id_wasm dl) = Some V1"
    and "inline_wasm_version sl (evaluator_id_wasm_v2 dl) = Some V2"
    and "ol_for_wasm lib m = evaluator_id_for_wasm_version dl m V1"
    and "m \<in> {PAY_AT_LEAST_WASM dl, str_bytes ''unregistered demonstration interpreter''} \<Longrightarrow>
        inline_wasm_version sl (ol_for_wasm lib m) = None"
    and "\<exists>spend. taproot_spend lib key leaf = Ok spend \<and>
        (\<forall>s. leaf = Some s \<longrightarrow> ol_control_block lib spend (s, TAP_SCRIPT) \<noteq> None)"
    and "length (ol_new_p2tr_tweaked lib k) = 34" and "length (ol_compute_txid lib tx) = 32"
    and "\<exists>psbt. ol_psbt_from_unsigned_tx lib tx = Ok psbt \<and> psbt_unsigned_tx psbt = tx \<and>
        length (psbt_inputs psbt) = length (tx_input tx) \<and>
        list_all (\<lambda>m. pi_witness_utxo m = None \<and> pi_tap_internal_key m = None \<and> pi_tap_scripts m = [])
          (psbt_inputs psbt)"
    and "map ti_sequence ins = map ti_sequence (tx_input tx) \<Longrightarrow>
        ol_ctv_hash lib (tx\<lparr>tx_input := ins\<rparr>) idx = ol_ctv_hash lib tx idx"
  using assms unfolding oracle_lib_laws_def by (simp_all, auto)

lemma oracle_recipient_length: "oracle_lib_laws lib dl sl \<Longrightarrow> length (oracle_recipient lib tag) = 22"
  by (simp add: oracle_recipient_def oracle_lawD(1))

lemma oracle_recipient_inj: "oracle_lib_laws lib dl sl \<Longrightarrow> oracle_recipient lib a = oracle_recipient lib b \<longleftrightarrow> a = b"
  using inj_onD [OF oracle_lawD(2), of lib dl sl "replicate 20 a" "replicate 20 b"]
  by (auto simp: oracle_recipient_def)

text \<open>A funded request is a context the oracle can judge.\<close>

lemma oracle_funded_context:
  assumes "oracle_lib_laws lib dl sl" and "oracle_funded lib program_of r"
  shows "authenticated (request_input r)" and "funded program_of r" and "native_witness (request_input r)"
    and "total_view_size version (request_input r) \<le> 2000"
    and "pi_tap_internal_key (psbt_inputs (si_psbt (request_input r)) ! si_input_index (request_input r)) \<noteq> None"
  using assms(2) oracle_recipient_length [OF assms(1)]
  by (auto simp: oracle_funded_def authenticated_def funded_def list_get_def native_witness_def prevouts_def
      total_view_size_def)

lemma oracle_transaction_wf:
  assumes "oracle_lib_laws lib dl sl"
  shows "outputs_size (tx_output (oracle_transaction lib)) \<le> 1000"
  by (simp add: oracle_transaction_def oracle_recipient_length [OF assms])

text \<open>The path of a request is authenticated by what is inserted into the selected input.\<close>

lemma spend_path_of_Ok:
  assumes "pi_tap_scripts m = []"
    and "\<And>s. leaf = Some s \<Longrightarrow> ol_control_block lib spend (s, TAP_SCRIPT) \<noteq> None"
  shows "\<exists>path m'. spend_path_of lib spend leaf m = Ok (path, m') \<and>
    pi_witness_utxo m' = pi_witness_utxo m \<and> pi_tap_internal_key m' = pi_tap_internal_key m \<and>
    (leaf = None \<longleftrightarrow> path = KeyPath) \<and>
    (case path of KeyPath \<Rightarrow> True
     | ScriptPath h \<Rightarrow> list_ex (\<lambda>(control, s, v). ol_leaf_hash lib s v = h) (pi_tap_scripts m'))"
  using assms by (cases leaf) (auto simp: spend_path_of_def)

lemma oracle_request_Ok:
  assumes laws: "oracle_lib_laws lib dl sl" and com: "commits lib root program_of i"
  shows "\<exists>r ins. oracle_request lib root i (oracle_transaction lib) script_path = Ok r \<and> rq_instance r = i \<and>
    oracle_funded lib program_of r \<and> rq_witness r = [] \<and> script_authenticated (ol_leaf_hash lib) r \<and>
    (script_path \<longleftrightarrow> rq_path r \<noteq> KeyPath) \<and>
    map ti_sequence ins = map ti_sequence (tx_input (oracle_transaction lib)) \<and>
    psbt_unsigned_tx (rq_psbt r) = (oracle_transaction lib)\<lparr>tx_input := ins\<rparr>"
proof -
  from com obtain key where key: "ol_derive_public_key lib i root = Ok key" "length key = 32"
    and prog: "\<And>leaf spend. leaf \<in> {None, Some (ol_checksig_script lib key)} \<Longrightarrow>
      taproot_spend lib key leaf = Ok spend \<Longrightarrow> program_of (ol_new_p2tr_tweaked lib (ol_output_key lib spend)) = Some i"
    unfolding commits_def by blast
  define leaf where "leaf = (if script_path then Some (ol_checksig_script lib key) else None)"
  from oracle_lawD(10) [OF laws, of key leaf] obtain spend where sp: "taproot_spend lib key leaf = Ok spend"
    "\<And>s. leaf = Some s \<Longrightarrow> ol_control_block lib spend (s, TAP_SCRIPT) \<noteq> None" by blast
  have prog': "program_of (ol_new_p2tr_tweaked lib (ol_output_key lib spend)) = Some i"
    using prog [OF _ sp(1)] by (simp add: leaf_def)
  let ?in = "\<lparr>ti_previous_output = \<lparr>op_txid = ol_compute_txid lib (funding_tx lib spend), op_vout = 0\<rparr>, ti_sequence = 200\<rparr>"
  define tx where "tx = (oracle_transaction lib)\<lparr>tx_input := [tx_input (oracle_transaction lib) ! 0, ?in]\<rparr>"
  have edit: "edit_input 1 (\<lambda>i. i\<lparr>ti_previous_output :=
      \<lparr>op_txid = ol_compute_txid lib (funding_tx lib spend), op_vout = 0\<rparr>\<rparr>) (oracle_transaction lib) = Ok tx"
    by (simp add: edit_input_def edit_nth_def oracle_transaction_def tx_def)
  from oracle_lawD(13) [OF laws, of tx] obtain psbt m0 m1 where
    p: "ol_psbt_from_unsigned_tx lib tx = Ok psbt" "psbt_unsigned_tx psbt = tx" "psbt_inputs psbt = [m0, m1]"
      "pi_tap_internal_key m0 = None" "pi_tap_scripts m1 = []"
    by (auto simp: tx_def length_Suc_conv)
  from spend_path_of_Ok [of "fund_selected lib key spend m1" leaf, OF _ sp(2)] p(5) obtain path m where
    m: "spend_path_of lib spend leaf (fund_selected lib key spend m1) = Ok (path, m)"
      "pi_witness_utxo m = Some (funding_output lib spend)" "pi_tap_internal_key m = Some key"
      "leaf = None \<longleftrightarrow> path = KeyPath"
      "case path of KeyPath \<Rightarrow> True
       | ScriptPath h \<Rightarrow> list_ex (\<lambda>(control, s, v). ol_leaf_hash lib s v = h) (pi_tap_scripts m)"
    by (auto simp: fund_selected_def)
  let ?m0 = "m0\<lparr>pi_witness_utxo := Some \<lparr>txo_value = 1000, txo_script_pubkey = oracle_recipient lib 3\<rparr>\<rparr>"
  have first: "edit_nth [m0, m1] 0 (\<lambda>m. Ok (m\<lparr>pi_witness_utxo :=
      Some \<lparr>txo_value = 1000, txo_script_pubkey = oracle_recipient lib 3\<rparr>\<rparr>)) = Ok [?m0, m1]"
    and second: "edit_nth [?m0, m1] 1 (\<lambda>m. Ok (fund_selected lib key spend m)) = Ok [?m0, fund_selected lib key spend m1]"
    by (simp_all add: edit_nth_def)
  have seq: "map ti_sequence [tx_input (oracle_transaction lib) ! 0, ?in] = map ti_sequence (tx_input (oracle_transaction lib))"
    by (simp add: oracle_transaction_def)
  have wf: "wf_outpoint (ti_previous_output (tx_input (oracle_transaction lib) ! 0))"
    by (simp add: oracle_transaction_def wf_outpoint_def)
  define r where "r = \<lparr>rq_instance = i, rq_input_index = 1, rq_witness = [], rq_path = path,
    rq_psbt = psbt\<lparr>psbt_inputs := [?m0, m]\<rparr>\<rparr>"
  have "oracle_request lib root i (oracle_transaction lib) script_path = Ok r"
    unfolding oracle_request_def
    by (simp only: key(1) sp(1) edit p(1,3) first second bind_res.simps Let_def leaf_def [symmetric])
      (simp add: m(1) r_def)
  moreover have "script_authenticated (ol_leaf_hash lib) r"
    using m(5) by (cases path) (simp_all add: script_authenticated_def list_get_def r_def)
  moreover have "oracle_funded lib program_of r"
    using key prog' p m(2,3) seq wf oracle_lawD(11,12) [OF laws] oracle_transaction_wf [OF laws]
    by (simp add: oracle_funded_def r_def tx_def funding_output_def wf_outpoint_def)
  moreover have "psbt_unsigned_tx (rq_psbt r) = (oracle_transaction lib)\<lparr>tx_input := [tx_input (oracle_transaction lib) ! 0, ?in]\<rparr>"
    "rq_instance r = i" "rq_witness r = []" "rq_path r = path"
    using p(2) by (simp_all add: r_def tx_def)
  moreover have "script_path \<longleftrightarrow> path \<noteq> KeyPath" using m(4) by (auto simp: leaf_def split: if_splits)
  ultimately show ?thesis using seq by blast
qed

subsection \<open>Changed requests\<close>

text \<open>A request with the same program, path and funding.\<close>

definition variant :: "signing_request \<Rightarrow> signing_request \<Rightarrow> bool" where
  "variant r q \<longleftrightarrow> rq_instance q = rq_instance r \<and> rq_path q = rq_path r \<and> rq_input_index q = rq_input_index r \<and>
     psbt_inputs (rq_psbt q) = psbt_inputs (rq_psbt r) \<and>
     tx_input (psbt_unsigned_tx (rq_psbt q)) = tx_input (psbt_unsigned_tx (rq_psbt r))"

lemma variant_compared: "variant r q \<Longrightarrow> same_commitment_and_funding r q = Ok ()"
  by (auto simp: variant_def same_commitment_and_funding_def list_ex_iff zip_same_conv_map)

lemma variant_keeps:
  assumes "variant r q" and "oracle_funded lib program_of r" and "script_authenticated (ol_leaf_hash lib) r"
    and "outputs_size (tx_output (psbt_unsigned_tx (rq_psbt q))) \<le> 1000"
  shows "oracle_funded lib program_of q" and "script_authenticated (ol_leaf_hash lib) q"
proof -
  from assms(1) have eq: "rq_instance q = rq_instance r" "rq_path q = rq_path r"
    "rq_input_index q = rq_input_index r" "psbt_inputs (rq_psbt q) = psbt_inputs (rq_psbt r)"
    "tx_input (psbt_unsigned_tx (rq_psbt q)) = tx_input (psbt_unsigned_tx (rq_psbt r))" by (simp_all add: variant_def)
  show "oracle_funded lib program_of q" using assms(2,4) by (auto simp: oracle_funded_def eq)
  show "script_authenticated (ol_leaf_hash lib) q" using assms(3) by (simp only: script_authenticated_def eq)
qed

lemmas edit_defs = edit_tx_def edit_output_def edit_nth_def set_value_def set_script_def add_value_def
  swap_outputs_def variant_def

text \<open>The changes of the demonstration, on a request for the demonstration transaction.\<close>

lemma payment_edits:
  assumes r: "tx_output (psbt_unsigned_tx (rq_psbt r)) = tx_output (oracle_transaction lib)" and w: "rq_witness r = u32_to_le 0"
  shows "\<exists>q. alternative_payment r = Ok q \<and> variant r q \<and> rq_witness q = u32_to_le 1 \<and>
      tx_output (psbt_unsigned_tx (rq_psbt q)) =
        [\<lparr>txo_value = 8000, txo_script_pubkey = oracle_recipient lib 2\<rparr>,
         \<lparr>txo_value = 11000, txo_script_pubkey = oracle_recipient lib 1\<rparr>]"
    and "\<exists>q. underpaid r = Ok q \<and> variant r q \<and> rq_witness q = u32_to_le 0 \<and>
      tx_output (psbt_unsigned_tx (rq_psbt q)) =
        [\<lparr>txo_value = MINIMUM - 1, txo_script_pubkey = oracle_recipient lib 1\<rparr>,
         \<lparr>txo_value = 10000, txo_script_pubkey = oracle_recipient lib 2\<rparr>]"
    and "\<exists>q. redirected_payment lib r = Ok q \<and> variant r q \<and> rq_witness q = u32_to_le 0 \<and>
      tx_output (psbt_unsigned_tx (rq_psbt q)) =
        [\<lparr>txo_value = MINIMUM, txo_script_pubkey = oracle_recipient lib 4\<rparr>,
         \<lparr>txo_value = 10000, txo_script_pubkey = oracle_recipient lib 2\<rparr>]"
    and "\<exists>q. malformed_evidence r = Ok q \<and> variant r q \<and> length (rq_witness q) = 3 \<and>
      tx_output (psbt_unsigned_tx (rq_psbt q)) = tx_output (oracle_transaction lib)"
  using assms
  by (simp_all add: alternative_payment_def underpaid_def redirected_payment_def malformed_evidence_def
      oracle_transaction_def edit_defs)

section \<open>Verdicts\<close>

lemma payment_verdict:
  assumes laws: "oracle_lib_laws lib dl sl" and eng: "documented_engine engine dl lib parser decode fuel enc"
    and reg: "evaluator_lib dl" "evaluators dl = Ok registry"
    and i: "rq_instance r = \<lparr>pr_evaluator = ol_for_wasm lib (PAY_AT_LEAST_WASM dl),
      pr_program = PAY_AT_LEAST_SELECTOR, pr_parameters = ps\<rparr>"
    and r: "oracle_funded lib program_of r"
  shows "oracle_approves engine sl registry (ol_leaf_hash lib) program_of r \<longleftrightarrow>
    script_authenticated (ol_leaf_hash lib) r \<and> pays_at_least ps (psbt_unsigned_tx (rq_psbt r)) (rq_witness r)"
proof -
  note ctx = oracle_funded_context [OF laws r]
  from reg obtain e where e: "registry = [e]" "we_id e = ol_for_wasm lib (PAY_AT_LEAST_WASM dl)"
    "we_version e = V1" "we_module e = PAY_AT_LEAST_WASM dl"
    by (auto simp: evaluators_eq_Ok evaluator_lib_def oracle_lawD(8) [OF laws])
  then have "select_module sl registry (rq_instance r) = Ok (PAY_AT_LEAST_WASM dl, PAY_AT_LEAST_SELECTOR, V1)"
    by (simp add: select_module_def i oracle_lawD(9) [OF laws])
  moreover have "engine V1 (PAY_AT_LEAST_WASM dl) PAY_AT_LEAST_SELECTOR ps (request_input r) (rq_witness r) = Ok True \<longleftrightarrow>
      pays_at_least ps (psbt_unsigned_tx (rq_psbt r)) (rq_witness r)"
    using eng [unfolded documented_engine_def, THEN conjunct1] ctx(1) ctx(4) [of V1]
    by (simp add: MAX_SIGNED_VIEW_BYTES_def)
  ultimately show ?thesis using ctx(2) by (simp add: oracle_approves_def i)
qed

lemma ctv_verdict:
  assumes laws: "oracle_lib_laws lib dl sl" and eng: "documented_engine engine dl lib parser decode fuel enc"
    and i: "rq_instance r = ol_ctv_wasm_instance lib h" and w: "rq_witness r = []"
    and r: "oracle_funded lib program_of r" "script_authenticated (ol_leaf_hash lib) r"
  shows "oracle_approves engine sl registry (ol_leaf_hash lib) program_of r \<longleftrightarrow> ol_ctv_hash lib (psbt_unsigned_tx (rq_psbt r)) 1 = h"
proof -
  note ctx = oracle_funded_context [OF laws r(1)]
  have idx: "word_of_nat (si_input_index (request_input r)) = (1 :: u32)"
    using r(1) by (auto simp: oracle_funded_def)
  have "select_module sl registry (rq_instance r) = Ok (pr_program (ol_ctv_wasm_instance lib h), [], V1)"
    by (simp add: select_module_def i oracle_lawD(5,6) [OF laws])
  moreover have "engine V1 (pr_program (ol_ctv_wasm_instance lib h)) [] (pr_parameters (ol_ctv_wasm_instance lib h))
      (request_input r) [] = Ok True \<longleftrightarrow> ol_ctv_hash lib (psbt_unsigned_tx (rq_psbt r)) 1 = h"
    using eng [unfolded documented_engine_def, THEN conjunct2, THEN conjunct1] ctx(1,3) ctx(4) [of V1] idx
    by (simp add: MAX_SIGNED_VIEW_BYTES_def)
  ultimately show ?thesis using ctx(2) r(2) by (simp add: oracle_approves_def i w)
qed

text \<open>The verdict on an inline V2 request is the verdict of its module.\<close>

lemma inline_verdict:
  assumes laws: "oracle_lib_laws lib dl sl" and eng: "documented_engine engine dl lib parser decode fuel enc"
    and m: "ol_wat_parse lib body = Ok m" and r: "oracle_funded lib program_of r" "script_authenticated (ol_leaf_hash lib) r"
    and i: "rq_instance r = \<lparr>pr_evaluator = evaluator_id_wasm_v2 dl, pr_program = m, pr_parameters = ps\<rparr>"
  shows "oracle_approves engine sl registry (ol_leaf_hash lib) program_of r \<longleftrightarrow>
    evaluate (v2_runtime parser decode fuel) enc V2 m [] ps (request_input r) (rq_witness r) = Ok True"
proof -
  have "select_module sl registry (rq_instance r) = Ok (m, [], V2)"
    by (simp add: select_module_def i oracle_lawD(7) [OF laws])
  moreover have "engine V2 m [] ps (request_input r) (rq_witness r) =
      evaluate (v2_runtime parser decode fuel) enc V2 m [] ps (request_input r) (rq_witness r)"
    using eng [unfolded documented_engine_def, THEN conjunct2, THEN conjunct2] m by blast
  ultimately show ?thesis
    using oracle_funded_context(2) [OF laws r(1)] r(2) by (simp add: oracle_approves_def i)
qed

lemma inline_lock_time:
  assumes laws: "oracle_lib_laws lib dl sl" and asm: "assembles parser decode m lock_time_body" and fuel: "49 \<le> fuel"
    and enc: "outpoint_codec enc" and r: "oracle_funded lib program_of r"
  shows "evaluate (v2_runtime parser decode fuel) enc V2 m [] (u32_to_le k) (request_input r) [] =
    Ok (tx_lock_time (psbt_unsigned_tx (rq_psbt r)) = k)"
proof -
  note ctx = oracle_funded_context [OF laws r]
  from encode_view_fits [OF ctx(1) _ ctx(5), of V2 enc] ctx(4) [of V2] obtain view
    where view: "encode_view enc V2 (request_input r) = Ok view" by (auto simp: MAX_SIGNED_VIEW_BYTES_def)
  have "length view \<le> 2000" using encode_view_length(1) [OF enc ctx(1) view] ctx(4) [of V2] by simp
  then show ?thesis
    using evaluate_lock_time [OF asm fuel, of "u32_to_le k" "[]", OF _ _ enc ctx(1) view]
    by (auto simp: PAGE_def MAX_PARAMETER_BYTES_def)
qed

section \<open>The steps\<close>

text \<open>What the demonstration relies on, with the commitments of its six programs.\<close>

definition oracle_deployed ::
  "engine \<Rightarrow> deployment_lib \<Rightarrow> spend_lib \<Rightarrow> wasm_evaluator list \<Rightarrow> ('a, 'c, 'w, 'b, 'i) oracle_lib \<Rightarrow>
     (bytes \<Rightarrow> (string, payload) res list) \<Rightarrow> (bytes \<Rightarrow> (string, instr list) res) \<Rightarrow> nat \<Rightarrow> (outpoint \<Rightarrow> bytes) \<Rightarrow>
     xpub \<Rightarrow> (script \<Rightarrow> program_instance option) \<Rightarrow> bool" where
  "oracle_deployed engine dl sl registry lib parser decode fuel enc root program_of \<longleftrightarrow>
     oracle_lib_laws lib dl sl \<and> documented_engine engine dl lib parser decode fuel enc \<and> evaluator_lib dl \<and>
     evaluators dl = Ok registry \<and> assembler lib parser decode \<and> 49 \<le> fuel \<and> outpoint_codec enc \<and>
     oracle_distinct lib dl \<and>
     (\<forall>i. Ok i \<in> set (demo_programs lib dl) \<longrightarrow> commits lib root program_of i)"

lemma oracle_deployedD:
  assumes "oracle_deployed engine dl sl registry lib parser decode fuel enc root program_of"
  shows "oracle_lib_laws lib dl sl" "documented_engine engine dl lib parser decode fuel enc" "evaluator_lib dl"
    "evaluators dl = Ok registry" "assembler lib parser decode" "49 \<le> fuel" "outpoint_codec enc"
    "oracle_distinct lib dl" "Ok i \<in> set (demo_programs lib dl) \<Longrightarrow> commits lib root program_of i"
  using assms by (simp_all add: oracle_deployed_def)

lemma payment_instance_Ok:
  assumes "oracle_lib_laws lib dl sl"
  shows "payment_instance lib dl = Ok \<lparr>pr_evaluator = ol_for_wasm lib (PAY_AT_LEAST_WASM dl),
    pr_program = PAY_AT_LEAST_SELECTOR, pr_parameters = u64_to_le MINIMUM @ encode_script (oracle_recipient lib 1)\<rparr>"
  using oracle_lawD(3) [OF assms, of PAY_AT_LEAST_SELECTOR "u64_to_le MINIMUM @ encode_script (oracle_recipient lib 1)"]
  by (simp add: payment_instance_def Let_def encode_script_def oracle_recipient_length [OF assms] MAX_PROGRAM_BYTES_def
      MAX_PARAMETER_BYTES_def PAY_AT_LEAST_SELECTOR_def str_bytes_def)

text \<open>The payments: the minimum and a larger payment at another output are approved on both paths, and
  everything else is refused.\<close>

lemma payment_original_Ok:
  assumes dep: "oracle_deployed engine dl sl registry lib parser decode fuel enc root program_of"
    and inst: "payment_instance lib dl = Ok inst"
  shows "\<exists>r. payment_original lib root inst script_path = Ok r \<and> rq_instance r = inst \<and>
    oracle_funded lib program_of r \<and> script_authenticated (ol_leaf_hash lib) r \<and> rq_witness r = u32_to_le 0 \<and>
    (script_path \<longleftrightarrow> rq_path r \<noteq> KeyPath) \<and>
    tx_output (psbt_unsigned_tx (rq_psbt r)) = tx_output (oracle_transaction lib)"
proof -
  note laws = oracle_deployedD(1) [OF dep]
  have "commits lib root program_of inst" using oracle_deployedD(9) [OF dep] inst by (simp add: demo_programs_def)
  from oracle_request_Ok [OF laws this, of script_path] obtain r where
    r: "oracle_request lib root inst (oracle_transaction lib) script_path = Ok r" "rq_instance r = inst"
      "oracle_funded lib program_of r" "script_authenticated (ol_leaf_hash lib) r" "script_path \<longleftrightarrow> rq_path r \<noteq> KeyPath"
      "tx_output (psbt_unsigned_tx (rq_psbt r)) = tx_output (oracle_transaction lib)" by auto
  let ?r = "r\<lparr>rq_witness := u32_to_le 0\<rparr>"
  have "variant r ?r" by (simp add: variant_def)
  from variant_keeps [OF this r(3,4)] r show ?thesis
    by (auto simp: payment_original_def oracle_transaction_wf [OF laws])
qed

lemma payment_variants:
  assumes dep: "oracle_deployed engine dl sl registry lib parser decode fuel enc root program_of"
    and inst: "payment_instance lib dl = Ok inst" and r: "rq_instance r = inst" "oracle_funded lib program_of r"
      "script_authenticated (ol_leaf_hash lib) r" "rq_witness r = u32_to_le 0"
      "tx_output (psbt_unsigned_tx (rq_psbt r)) = tx_output (oracle_transaction lib)"
  shows "oracle_approves engine sl registry (ol_leaf_hash lib) program_of r"
    and "\<exists>q. alternative_payment r = Ok q \<and> variant r q \<and> oracle_approves engine sl registry (ol_leaf_hash lib) program_of q"
    and "\<exists>q. underpaid r = Ok q \<and> variant r q \<and> \<not> oracle_approves engine sl registry (ol_leaf_hash lib) program_of q"
    and "\<exists>q. redirected_payment lib r = Ok q \<and> variant r q \<and> \<not> oracle_approves engine sl registry (ol_leaf_hash lib) program_of q"
    and "\<exists>q. malformed_evidence r = Ok q \<and> variant r q \<and> \<not> oracle_approves engine sl registry (ol_leaf_hash lib) program_of q"
proof -
  let ?ok = "oracle_approves engine sl registry (ol_leaf_hash lib) program_of"
  note laws = oracle_deployedD(1) [OF dep] and len = oracle_recipient_length [OF oracle_deployedD(1) [OF dep]]
  let ?ps = "u64_to_le MINIMUM @ encode_script (oracle_recipient lib 1)"
  have i: "inst = \<lparr>pr_evaluator = ol_for_wasm lib (PAY_AT_LEAST_WASM dl), pr_program = PAY_AT_LEAST_SELECTOR,
    pr_parameters = ?ps\<rparr>" using inst payment_instance_Ok [OF laws] by simp
  note verdict = payment_verdict [OF laws oracle_deployedD(2-4) [OF dep], where program_of = program_of and ps = ?ps]
  note edits = payment_edits [OF r(5,4)]
  have judge: "?ok q \<longleftrightarrow> pays_at_least ?ps (psbt_unsigned_tx (rq_psbt q)) (rq_witness q)"
    if "variant r q" "outputs_size (tx_output (psbt_unsigned_tx (rq_psbt q))) \<le> 1000" for q
    using verdict [of q] variant_keeps [OF that(1) r(2,3) that(2)] that(1) r(1) i by (simp add: variant_def)
  have self: "variant r r" by (simp add: variant_def)
  show "?ok r" using judge [OF self] r by (simp add: pays_at_least_def oracle_transaction_def len)
  show "\<exists>q. alternative_payment r = Ok q \<and> variant r q \<and> ?ok q"
    using edits(1) judge by (force simp: pays_at_least_def len MINIMUM_def)
  show "\<exists>q. underpaid r = Ok q \<and> variant r q \<and> \<not> ?ok q"
    using edits(2) judge by (force simp: pays_at_least_def len MINIMUM_def)
  show "\<exists>q. redirected_payment lib r = Ok q \<and> variant r q \<and> \<not> ?ok q"
    using edits(3) judge oracle_recipient_inj [OF laws, of 1 4]
    by (force simp: pays_at_least_def len encode_script_def)
  show "\<exists>q. malformed_evidence r = Ok q \<and> variant r q \<and> \<not> ?ok q"
    using edits(4) judge by (force simp: pays_at_least_def len oracle_transaction_def)
qed

text \<open>Without its leaf, a script-path request is refused.\<close>

lemma unauthenticated_refused:
  assumes "oracle_funded lib program_of r" and "rq_path r \<noteq> KeyPath"
  shows "\<exists>q. unauthenticated r = Ok q \<and> \<not> oracle_approves engine sl registry (ol_leaf_hash lib) program_of q"
proof -
  from assms(1) obtain m0 m1 where m: "psbt_inputs (rq_psbt r) = [m0, m1]" "rq_input_index r = 1"
    by (auto simp: oracle_funded_def)
  from assms(2) obtain h where "rq_path r = ScriptPath h" by (cases "rq_path r") auto
  with m show ?thesis
    by (simp add: unauthenticated_def edit_nth_def oracle_approves_def script_authenticated_def list_get_def)
qed

text \<open>Another program cannot spend the funding, and an unregistered evaluator is not dispatched to.\<close>

lemma substituted_payment_refused:
  assumes laws: "oracle_lib_laws lib dl sl" and inst: "payment_instance lib dl = Ok (rq_instance r)"
    and r: "oracle_funded lib program_of r"
  shows "\<exists>q. substituted_payment lib r = Ok q \<and> \<not> oracle_approves engine sl registry (ol_leaf_hash lib) program_of q"
proof -
  let ?ps = "encode_script (oracle_recipient lib 1)"
  have i: "rq_instance r = \<lparr>pr_evaluator = ol_for_wasm lib (PAY_AT_LEAST_WASM dl), pr_program = PAY_AT_LEAST_SELECTOR,
    pr_parameters = u64_to_le MINIMUM @ ?ps\<rparr>" using inst payment_instance_Ok [OF laws] by simp
  have new: "ol_program_new lib e PAY_AT_LEAST_SELECTOR (u64_to_le 1 @ ?ps) =
      Ok \<lparr>pr_evaluator = e, pr_program = PAY_AT_LEAST_SELECTOR, pr_parameters = u64_to_le 1 @ ?ps\<rparr>" for e
    by (rule oracle_lawD(3) [OF laws]) (simp_all add: oracle_recipient_length [OF laws] MAX_PROGRAM_BYTES_def
        MAX_PARAMETER_BYTES_def PAY_AT_LEAST_SELECTOR_def str_bytes_def)
  from r obtain m0 m1 sc where m: "psbt_inputs (rq_psbt r) = [m0, m1]" "rq_input_index r = 1"
    "pi_witness_utxo m1 = Some \<lparr>txo_value = FUNDING, txo_script_pubkey = sc\<rparr>" "program_of sc = Some (rq_instance r)"
    by (auto simp: oracle_funded_def)
  then show ?thesis
    using new by (auto simp: substituted_payment_def i oracle_approves_def funded_def list_get_def MINIMUM_def)
qed

lemma unknown_evaluator_refused:
  assumes dep: "oracle_deployed engine dl sl registry lib parser decode fuel enc root program_of"
  shows "\<exists>q. unknown_evaluator lib root = Ok q \<and> \<not> oracle_approves engine sl registry (ol_leaf_hash lib) program_of q"
proof -
  note laws = oracle_deployedD(1) [OF dep]
  let ?id = "ol_for_wasm lib (str_bytes ''unregistered demonstration interpreter'')"
  let ?i = "\<lparr>pr_evaluator = ?id, pr_program = [], pr_parameters = []\<rparr>"
  have new: "ol_program_new lib ?id [] [] = Ok ?i"
    by (rule oracle_lawD(3) [OF laws]) simp_all
  have "commits lib root program_of ?i" using oracle_deployedD(9) [OF dep] new by (simp add: demo_programs_def)
  from oracle_request_Ok [OF laws this, of False] obtain q where
    q: "oracle_request lib root ?i (oracle_transaction lib) False = Ok q" "rq_instance q = ?i" by auto
  from oracle_deployedD(3,4,8) [OF dep] obtain e where "registry = [e]" "we_id e \<noteq> ?id"
    by (auto simp: evaluators_eq_Ok evaluator_lib_def oracle_distinct_def oracle_lawD(8) [OF laws])
  then have "select_module sl registry ?i = Err (Program (UnknownEvaluator ?id))"
    by (simp add: select_module_def oracle_lawD(9) [OF laws])
  with q new show ?thesis by (simp add: unknown_evaluator_def oracle_approves_def)
qed

lemma payments_expected:
  assumes dep: "oracle_deployed engine dl sl registry lib parser decode fuel enc root program_of"
    and inst: "payment_instance lib dl = Ok inst"
    and original: "payment_original lib root inst False = Ok r"
  shows "list_all (expects (oracle_approves engine sl registry (ol_leaf_hash lib) program_of)) (payments lib root inst r)"
proof -
  note laws = oracle_deployedD(1) [OF dep]
  from payment_original_Ok [OF dep inst, of False] original have
    r: "rq_instance r = inst" "oracle_funded lib program_of r" "script_authenticated (ol_leaf_hash lib) r" "rq_witness r = u32_to_le 0"
      "tx_output (psbt_unsigned_tx (rq_psbt r)) = tx_output (oracle_transaction lib)" by auto
  from payment_original_Ok [OF dep inst, of True] obtain s where
    s: "payment_original lib root inst True = Ok s" "rq_instance s = inst" "oracle_funded lib program_of s"
      "script_authenticated (ol_leaf_hash lib) s" "rq_witness s = u32_to_le 0" "rq_path s \<noteq> KeyPath"
      "tx_output (psbt_unsigned_tx (rq_psbt s)) = tx_output (oracle_transaction lib)" by auto
  have inst': "payment_instance lib dl = Ok (rq_instance r)" using inst r(1) by simp
  from payment_variants [OF dep inst r] payment_variants(1) [OF dep inst s(2-5,7)]
    unauthenticated_refused [OF s(3,6), of engine sl registry]
    substituted_payment_refused [OF laws inst' r(2), of engine registry] unknown_evaluator_refused [OF dep] s(1)
  show ?thesis
    by (auto simp: payments_def compared_def variant_compared)
qed

lemma ctv_expected:
  assumes dep: "oracle_deployed engine dl sl registry lib parser decode fuel enc root program_of"
  shows "list_all (expects (oracle_approves engine sl registry (ol_leaf_hash lib) program_of)) (ctv lib root)"
proof -
  note laws = oracle_deployedD(1) [OF dep]
  let ?tx = "oracle_transaction lib" and ?h = "ol_ctv_hash lib (oracle_transaction lib) 1"
  have "commits lib root program_of (ol_ctv_wasm_instance lib ?h)"
    using oracle_deployedD(9) [OF dep] by (simp add: demo_programs_def)
  from oracle_request_Ok [OF laws this, of False] obtain r ins where
    r: "ctv_original lib root = Ok r" "rq_instance r = ol_ctv_wasm_instance lib ?h" "oracle_funded lib program_of r"
      "rq_witness r = []" "script_authenticated (ol_leaf_hash lib) r" "map ti_sequence ins = map ti_sequence (tx_input ?tx)"
      "psbt_unsigned_tx (rq_psbt r) = ?tx\<lparr>tx_input := ins\<rparr>" by (auto simp: ctv_original_def)
  note verdict = ctv_verdict [OF laws oracle_deployedD(2) [OF dep], where program_of = program_of and h = ?h]
  have hash: "ol_ctv_hash lib (tx\<lparr>tx_input := ins\<rparr>) 1 = ol_ctv_hash lib tx 1" if "tx_input tx = tx_input ?tx" for tx
    using oracle_lawD(14) [OF laws, of ins tx 1] r(6) that by simp
  obtain tx' where tx': "edit_output 0 (add_value 1) ?tx = Ok tx'" "tx_input tx' = tx_input ?tx"
    "outputs_size (tx_output tx') \<le> 1000"
    "edit_output 0 (add_value 1) (?tx\<lparr>tx_input := ins\<rparr>) = Ok (tx'\<lparr>tx_input := ins\<rparr>)"
    by (auto simp: edit_defs oracle_transaction_def MINIMUM_def oracle_recipient_length [OF laws])
  let ?q = "r\<lparr>rq_psbt := (rq_psbt r)\<lparr>psbt_unsigned_tx := tx'\<lparr>tx_input := ins\<rparr>\<rparr>\<rparr>"
  have q: "ctv_changed r = Ok ?q" by (simp add: ctv_changed_def edit_tx_def r(7) tx'(4))
  have v: "variant r ?q" by (simp add: variant_def r(7))
  have "oracle_approves engine sl registry (ol_leaf_hash lib) program_of r"
    using verdict [OF r(2,4,3,5)] hash [of ?tx] r(7) by simp
  moreover have "\<not> oracle_approves engine sl registry (ol_leaf_hash lib) program_of ?q"
    using verdict [of ?q] variant_keeps [OF v r(3,5)] hash [OF tx'(2)] tx'(1,3) r(2,4) oracle_deployedD(8) [OF dep]
    by (simp add: oracle_distinct_def)
  ultimately show ?thesis using r(1) q v by (simp add: ctv_def compared_def variant_compared)
qed

lemma inline_request_Ok:
  assumes dep: "oracle_deployed engine dl sl registry lib parser decode fuel enc root program_of"
    and body: "(body, ps) \<in> set [(lock_time_body, u32_to_le 500), (trap_body, []), (loop_body, [])]"
  shows "\<exists>m r. ol_wat_parse lib body = Ok m \<and> assembles parser decode m body \<and> inline_request lib root body ps = Ok r \<and>
    rq_instance r = \<lparr>pr_evaluator = evaluator_id_wasm_v2 dl, pr_program = m, pr_parameters = ps\<rparr> \<and>
    oracle_funded lib program_of r \<and> script_authenticated (ol_leaf_hash lib) r \<and> rq_witness r = [] \<and>
    tx_lock_time (psbt_unsigned_tx (rq_psbt r)) = 500"
proof -
  note laws = oracle_deployedD(1) [OF dep]
  from oracle_deployedD(5) [OF dep] body obtain m where
    m: "ol_wat_parse lib body = Ok m" "assembles parser decode m body" by (auto simp: assembler_def)
  let ?i = "\<lparr>pr_evaluator = evaluator_id_wasm_v2 dl, pr_program = m, pr_parameters = ps\<rparr>"
  have new: "ol_wasm_v2 lib m ps = Ok ?i"
    by (rule oracle_lawD(4) [OF laws]) (use m(2) body in \<open>auto simp: assembles_def MAX_PARAMETER_BYTES_def\<close>)
  have "Ok ?i \<in> set (demo_programs lib dl)"
    using body m(1) new by (auto simp: demo_programs_def)
  from oracle_request_Ok [OF laws oracle_deployedD(9) [OF dep this], of False] m new show ?thesis
    by (auto simp: inline_request_def oracle_transaction_def)
qed

lemma inline_expected:
  assumes dep: "oracle_deployed engine dl sl registry lib parser decode fuel enc root program_of"
  shows "list_all (expects (oracle_approves engine sl registry (ol_leaf_hash lib) program_of)) (inline_v2 lib root)"
proof -
  let ?ok = "oracle_approves engine sl registry (ol_leaf_hash lib) program_of"
  note laws = oracle_deployedD(1) [OF dep] and eng = oracle_deployedD(2) [OF dep]
    and fuel = oracle_deployedD(6) [OF dep] and enc = oracle_deployedD(7) [OF dep]
  from inline_request_Ok [OF dep, of lock_time_body "u32_to_le 500"] obtain m r where
    m: "ol_wat_parse lib lock_time_body = Ok m" "assembles parser decode m lock_time_body" and
    r: "inline_request lib root lock_time_body (u32_to_le 500) = Ok r"
      "rq_instance r = \<lparr>pr_evaluator = evaluator_id_wasm_v2 dl, pr_program = m, pr_parameters = u32_to_le 500\<rparr>"
      "oracle_funded lib program_of r" "script_authenticated (ol_leaf_hash lib) r" "rq_witness r = []"
      "tx_lock_time (psbt_unsigned_tx (rq_psbt r)) = 500" by auto
  have judge: "?ok q \<longleftrightarrow> tx_lock_time (psbt_unsigned_tx (rq_psbt q)) = 500"
    if "oracle_funded lib program_of q" "script_authenticated (ol_leaf_hash lib) q" "rq_instance q = rq_instance r" "rq_witness q = []" for q
    using inline_verdict [OF laws eng m(1) that(1,2)] that(3,4) r(2)
      inline_lock_time [OF laws m(2) fuel enc that(1), of 500] by simp
  let ?q = "r\<lparr>rq_psbt := (rq_psbt r)\<lparr>psbt_unsigned_tx := (psbt_unsigned_tx (rq_psbt r))\<lparr>tx_lock_time := 501\<rparr>\<rparr>\<rparr>"
  have q: "lock_time_changed r = Ok ?q" "variant r ?q" by (simp_all add: lock_time_changed_def edit_tx_def variant_def)
  have out: "outputs_size (tx_output (psbt_unsigned_tx (rq_psbt ?q))) \<le> 1000" using r(3) by (auto simp: oracle_funded_def)
  have changed: "\<not> ?ok ?q" using judge [of ?q] variant_keeps [OF q(2) r(3,4) out] r(5) by simp
  have refused: "\<exists>q. inline_request lib root body [] = Ok q \<and> \<not> ?ok q"
    if body: "body \<in> {trap_body, loop_body}" for body
  proof -
    from inline_request_Ok [OF dep, of body "[]"] body obtain m q where
      q: "ol_wat_parse lib body = Ok m" "assembles parser decode m body" "inline_request lib root body [] = Ok q"
        "rq_instance q = \<lparr>pr_evaluator = evaluator_id_wasm_v2 dl, pr_program = m, pr_parameters = []\<rparr>"
        "oracle_funded lib program_of q" "script_authenticated (ol_leaf_hash lib) q" "rq_witness q = []" by auto
    have "\<exists>e. fst (vm_call v body locs) = Err e" for v locs
      using body vm_trap vm_loop by auto
    from evaluate_no_value [OF q(2) _ _ _ enc oracle_funded_context(1) [OF laws q(5)] this, of fuel "[]" "[]" True] fuel
    have "\<not> ?ok q" using inline_verdict [OF laws eng q(1,5,6,4)] q(7) by simp
    with q(3) show ?thesis by blast
  qed
  from refused [of trap_body] refused [of loop_body] judge [OF r(3,4) refl r(5)] r(1,6) q changed show ?thesis
    by (auto simp: inline_v2_def Let_def compared_def variant_compared)
qed

lemma oracle_steps_expected:
  assumes dep: "oracle_deployed engine dl sl registry lib parser decode fuel enc root program_of"
    and inst: "payment_instance lib dl = Ok inst" and r: "payment_original lib root inst False = Ok r"
  shows "list_all (expects (oracle_approves engine sl registry (ol_leaf_hash lib) program_of)) (oracle_steps lib root inst r)"
proof -
  note pay = payments_expected [OF dep inst r]
  then have "oracle_approves engine sl registry (ol_leaf_hash lib) program_of r" by (auto simp: payments_def)
  with pay ctv_expected [OF dep] inline_expected [OF dep] show ?thesis by (simp add: oracle_steps_def)
qed

lemma oracle_setup_Ok:
  assumes "oracle_setup clib dl lib opts = Ok (client, root, inst, payment)"
  shows "payment_instance lib dl = Ok inst" and "payment_original lib root inst False = Ok payment"
  using assms by (auto simp: oracle_setup_def bind_res_eq_Ok)

section \<open>A sample run\<close>

text \<open>A reference oracle that decides by the registry and the engine; its world counts the requests.\<close>

definition registry_sign ::
  "engine \<Rightarrow> spend_lib \<Rightarrow> wasm_evaluator list \<Rightarrow> (script \<Rightarrow> byte \<Rightarrow> hash) \<Rightarrow>
     (script \<Rightarrow> program_instance option) \<Rightarrow> nat signer" where
  "registry_sign engine sl registry leaf_hash program_of w r =
     (if \<not> funded program_of r \<or> \<not> script_authenticated leaf_hash r
      then (Err (ClientRejected ''unauthenticated funding''), Suc w)
      else case select_module sl registry (rq_instance r) of
        Ok (m, selector, version) \<Rightarrow>
          if engine version m selector (pr_parameters (rq_instance r)) (request_input r) (rq_witness r) = Ok True
          then (Ok (rq_psbt r), Suc w) else (Err (ClientRejected ''program rejected''), Suc w)
      | _ \<Rightarrow> (Err (ClientRejected ''unknown evaluator''), Suc w))"

interpretation registered: honest_signer "registry_sign engine sl registry leaf_hash program_of" "\<lambda>_. True"
  "oracle_approves engine sl registry leaf_hash program_of"
  for engine sl registry leaf_hash program_of
  by unfold_locales (auto simp: registry_sign_def oracle_approves_def split: res.splits)

definition sample_spend :: spend_lib where
  "sample_spend = \<lparr>validate_psbt = (\<lambda>_. Ok ()), sighash = (\<lambda>_. Ok [7]), annex_get = (\<lambda>_. Ok None),
     inline_wasm_version = (\<lambda>h. if h = [1] then Some V1 else if h = [2] then Some V2 else None),
     outpoint_encode = sample_enc\<rparr>"

definition sample_decode :: "bytes \<Rightarrow> (string, instr list) res" where
  "sample_decode m =
     (if m = WASM_HEADER @ [4] then Ok lock_time_body else if m = WASM_HEADER @ [5] then Ok trap_body
      else if m = WASM_HEADER @ [6] then Ok loop_body else Err ''unknown module'')"

definition sample_ctv_hash :: "transaction \<Rightarrow> u32 \<Rightarrow> hash" where
  "sample_ctv_hash tx _ = concat (map (\<lambda>out. u64_to_le (txo_value out)) (tx_output tx))"

definition sample_engine :: engine where
  "sample_engine version m selector p inp w =
     (if version = V2 then evaluate (v2_runtime (\<lambda>_. v2_payloads) sample_decode 100) sample_enc V2 m [] p inp w
      else if m = WASM_HEADER @ [7] then Ok (pays_at_least p (psbt_unsigned_tx (si_psbt inp)) w)
      else Ok (sample_ctv_hash (psbt_unsigned_tx (si_psbt inp)) 0 = p))"

text \<open>The keys of the six programs are told apart by a tag.\<close>

definition sample_tag :: "program_instance \<Rightarrow> byte" where
  "sample_tag i =
     (if pr_evaluator i = [1] then 2 else if pr_evaluator i = [2] then last (pr_program i)
      else if pr_evaluator i = 1 # WASM_HEADER @ [7] then 1 else 9)"

definition sample_programs :: "(byte \<times> program_instance) list" where
  "sample_programs = map (\<lambda>i. (sample_tag i, i))
     [\<lparr>pr_evaluator = 1 # WASM_HEADER @ [7], pr_program = PAY_AT_LEAST_SELECTOR,
       pr_parameters = u64_to_le MINIMUM @ encode_script ([0, 20] @ replicate 20 1)\<rparr>,
      \<lparr>pr_evaluator = 1 # str_bytes ''unregistered demonstration interpreter'', pr_program = [], pr_parameters = []\<rparr>,
      \<lparr>pr_evaluator = [1], pr_program = WASM_HEADER @ [8], pr_parameters = u64_to_le MINIMUM @ u64_to_le 10000\<rparr>,
      \<lparr>pr_evaluator = [2], pr_program = WASM_HEADER @ [4], pr_parameters = u32_to_le 500\<rparr>,
      \<lparr>pr_evaluator = [2], pr_program = WASM_HEADER @ [5], pr_parameters = []\<rparr>,
      \<lparr>pr_evaluator = [2], pr_program = WASM_HEADER @ [6], pr_parameters = []\<rparr>]"

definition sample_oracle_program :: "script \<Rightarrow> program_instance option" where
  "sample_oracle_program s = map_of sample_programs (last s)"

definition sample_registry :: "wasm_evaluator list" where
  "sample_registry = [\<lparr>we_id = 1 # WASM_HEADER @ [7], we_version = V1, we_module = WASM_HEADER @ [7]\<rparr>]"

definition sample_oracle_lib :: "(nat, unit, nat, unit, bytes) oracle_lib" where
  "sample_oracle_lib = \<lparr>ol_client_new = (\<lambda>_ _. Ok ()),
     ol_sign = (\<lambda>_. registry_sign sample_engine sample_spend sample_registry (\<lambda>s _. s) sample_oracle_program),
     ol_display = (\<lambda>_. ''error''), ol_p2wpkh = (\<lambda>h. [0, 20] @ h), ol_for_wasm = (\<lambda>m. 1 # m),
     ol_program_new = (\<lambda>e p ps. Ok \<lparr>pr_evaluator = e, pr_program = p, pr_parameters = ps\<rparr>),
     ol_wasm_v2 = (\<lambda>m ps. Ok \<lparr>pr_evaluator = [2], pr_program = m, pr_parameters = ps\<rparr>),
     ol_derive_public_key = (\<lambda>i _. Ok (replicate 32 (sample_tag i))), ol_checksig_script = (\<lambda>k. k @ [172]),
     ol_builder_new = (), ol_add_leaf = (\<lambda>_ _ _. Ok ()), ol_finalize = (\<lambda>_ key. Ok key), ol_output_key = (\<lambda>k. k),
     ol_merkle_root = (\<lambda>_. None), ol_control_block = (\<lambda>_ _. Some [192]), ol_leaf_hash = (\<lambda>s _. s),
     ol_new_p2tr_tweaked = (\<lambda>k. replicate 33 81 @ [last k]), ol_compute_txid = (\<lambda>_. replicate 32 9),
     ol_tx_in_default = \<lparr>ti_previous_output = sample_outpoint, ti_sequence = 4294967295\<rparr>,
     ol_psbt_from_unsigned_tx = (\<lambda>tx. Ok \<lparr>psbt_unsigned_tx = tx,
       psbt_inputs = map (\<lambda>_. sample_psbt_input\<lparr>pi_witness_utxo := None, pi_tap_internal_key := None\<rparr>) (tx_input tx),
       psbt_other = []\<rparr>),
     ol_ctv_hash = sample_ctv_hash,
     ol_ctv_wasm_instance = (\<lambda>h. \<lparr>pr_evaluator = [1], pr_program = WASM_HEADER @ [8], pr_parameters = h\<rparr>),
     ol_wat_parse = (\<lambda>body. if body = lock_time_body then Ok (WASM_HEADER @ [4])
       else if body = trap_body then Ok (WASM_HEADER @ [5])
       else if body = loop_body then Ok (WASM_HEADER @ [6]) else Err (Msg ''parse error''))\<rparr>"

lemma sample_oracle_laws: "oracle_lib_laws sample_oracle_lib sample_deployment sample_spend"
  by (auto simp: oracle_lib_laws_def sample_oracle_lib_def sample_deployment_def sample_spend_def inj_on_def
      taproot_spend_def list_all_iff version_number_def WASM_HEADER_def sample_psbt_input_def sample_ctv_hash_def
      str_bytes_def split: option.splits)

lemma sample_documented_engine:
  "documented_engine sample_engine sample_deployment sample_oracle_lib (\<lambda>_. v2_payloads) sample_decode 100 sample_enc"
  by (simp add: documented_engine_def sample_engine_def sample_oracle_lib_def sample_deployment_def sample_ctv_hash_def)

lemma sample_assembler: "assembler sample_oracle_lib (\<lambda>_. v2_payloads) sample_decode"
  by (simp add: assembler_def sample_oracle_lib_def assembles_def sample_decode_def lock_time_body_def trap_body_def
      loop_body_def check_module_bytes_def WASM_HEADER_def MAX_PROGRAM_BYTES_def)

lemma sample_oracle_distinct: "oracle_distinct sample_oracle_lib sample_deployment"
  by (simp add: oracle_distinct_def sample_oracle_lib_def sample_deployment_def WASM_HEADER_def str_bytes_def
      edit_defs oracle_transaction_def MINIMUM_def sample_ctv_hash_def)

lemma sample_tags: "distinct (map fst sample_programs)"
  by (simp add: sample_programs_def sample_tag_def WASM_HEADER_def str_bytes_def)

lemma sample_demo_programs:
  assumes "Ok i \<in> set (demo_programs sample_oracle_lib sample_deployment)"
  shows "(sample_tag i, i) \<in> set sample_programs"
proof -
  have "payment_instance sample_oracle_lib sample_deployment = Ok \<lparr>pr_evaluator = 1 # WASM_HEADER @ [7],
      pr_program = PAY_AT_LEAST_SELECTOR, pr_parameters = u64_to_le MINIMUM @ encode_script ([0, 20] @ replicate 20 1)\<rparr>"
    using payment_instance_Ok [OF sample_oracle_laws]
    by (simp add: sample_oracle_lib_def sample_deployment_def oracle_recipient_def)
  with assms show ?thesis
    by (auto simp: demo_programs_def sample_oracle_lib_def sample_programs_def sample_ctv_hash_def
        oracle_transaction_def lock_time_body_def trap_body_def loop_body_def)
qed

lemma sample_commits: "(sample_tag i, i) \<in> set sample_programs \<Longrightarrow> commits sample_oracle_lib root sample_oracle_program i"
  using map_of_is_SomeI [OF sample_tags]
  by (auto simp: commits_def sample_oracle_lib_def taproot_spend_def sample_oracle_program_def)

lemma sample_oracle_deployed:
  "oracle_deployed sample_engine sample_deployment sample_spend sample_registry sample_oracle_lib (\<lambda>_. v2_payloads)
     sample_decode 100 sample_enc root sample_oracle_program"
  unfolding oracle_deployed_def sample_registry_def
  using sample_oracle_laws sample_documented_engine sample_evaluator_lib sample_evaluators sample_assembler
    sample_enc_codec(1) sample_oracle_distinct sample_demo_programs sample_commits by auto

lemma sample_oracle_setup:
  "\<exists>root inst payment. oracle_setup sample_client sample_deployment sample_oracle_lib sample_options =
     Ok ((), root, inst, payment)"
proof -
  obtain inst where inst: "payment_instance sample_oracle_lib sample_deployment = Ok inst"
    using payment_instance_Ok [OF sample_oracle_laws] by blast
  have new: "ol_client_new sample_oracle_lib a x = Ok ()" for a x by (simp add: sample_oracle_lib_def)
  have "\<exists>r. payment_original sample_oracle_lib root inst False = Ok r" for root
    using payment_original_Ok [OF sample_oracle_deployed inst, of root False] by blast
  then show ?thesis
    by (simp add: oracle_setup_def sample_load_identity new inst bind_res_eq_Ok)
qed

section \<open>Properties\<close>

text \<open>C10: the program-oracle demonstration passes. Against every oracle that signs exactly the requests
  whose funding commits to their program, whose path is authenticated and which the selected module
  approves, the client sees every request of the demonstration signed or refused as it expects: the
  registered payment at its minimum, above it, at another output and on the script path; underpayment,
  another recipient, malformed evidence, a missing leaf, another instance and an unknown evaluator; the
  CTV template and its change; the committed lock time and another one; the trap and the endless loop,
  after which the oracle still serves the first payment.\<close>

theorem oracle_demo_passes:
  assumes "options_of clib args = Ok (Some opts)"
    and "oracle_setup clib dl lib opts = Ok (client, root, inst, payment)"
    and "oracle_deployed engine dl sl registry lib parser decode fuel enc root program_of"
    and "honest_signer (ol_sign lib client) ready (oracle_approves engine sl registry (ol_leaf_hash lib) program_of)"
    and "ready w"
  shows "fst (oracle_main clib dl lib args w) = Ok ()"
  using oracle_steps_expected [OF assms(3) oracle_setup_Ok [OF assms(2)]] honest_signer.demo_iff [OF assms(4,5)]
    assms(1,2) by (simp add: oracle_main_def cmd_lift_def)

theorem oracle_demo_passes_witness:
  "fst (oracle_main sample_client sample_deployment sample_oracle_lib sample_arguments 0) = Ok ()"
proof -
  from sample_oracle_setup obtain root inst payment where
    su: "oracle_setup sample_client sample_deployment sample_oracle_lib sample_options = Ok ((), root, inst, payment)" by blast
  have sign: "ol_sign sample_oracle_lib () =
      registry_sign sample_engine sample_spend sample_registry (ol_leaf_hash sample_oracle_lib) sample_oracle_program"
    by (simp add: sample_oracle_lib_def)
  show ?thesis
    by (rule oracle_demo_passes [OF sample_options_of su sample_oracle_deployed, unfolded sign,
        OF registered.honest_signer_axioms]) simp
qed

end
