(* ===== verification/Test_Module.thy ===== *)
theory Test_Module
  imports V2_Module
begin

text \<open>
  The WebAssembly modules of the tests of \<open>src/src/ark_signer.rs\<close>: \<open>test_program\<close> fills an allocator, a predicate and
  extra declarations into one module text. The texts are function bodies over the instructions of \<open>V2_Module\<close>,
  run by its metered machine; what a fill of memory costs and how much fuel there is are parameters.

  Shown here, through the whole host path of the evaluator: overlapping and out-of-bounds allocations, a trap, a
  result other than zero and one, a start function, a foreign import, and functions that burn more fuel than there
  is are errors, never a verdict.
\<close>

section \<open>Data\<close>

record func_text =
  fn_locals :: nat
  fn_code :: "instr list"

datatype extra_text = NoExtra | StartFunction | ImportApprove

record module_text =
  mt_version :: nat
  mt_allocator :: func_text
  mt_predicate :: func_text
  mt_extra :: extra_text

record test_guest =
  tg_text :: module_text
  tg_vm :: vm

section \<open>Operations\<close>

definition TEST_ALLOCATOR :: func_text where
  "TEST_ALLOCATOR = \<lparr>fn_locals = 0, fn_code = [GlobalGet, GlobalGet, LocalGet 0, I32Add, GlobalSet]\<rparr>"

definition const_text :: "u32 \<Rightarrow> func_text" where
  "const_text c = \<lparr>fn_locals = 0, fn_code = [I32Const c]\<rparr>"

definition unsafe_guests :: "(func_text \<times> func_text \<times> extra_text) list" where
  "unsafe_guests =
     [(const_text 4096, const_text 1, NoExtra),
      (const_text (- 1), const_text 1, NoExtra),
      (TEST_ALLOCATOR, \<lparr>fn_locals = 0, fn_code = [Unreachable]\<rparr>, NoExtra),
      (TEST_ALLOCATOR, const_text 2, NoExtra),
      (TEST_ALLOCATOR, const_text 1, StartFunction),
      (TEST_ALLOCATOR, const_text 1, ImportApprove)]"

text \<open>The text \<open>burn\<close>; \<open>$remaining\<close> is the first local after the parameters.\<close>

definition burn_body :: "nat \<Rightarrow> instr list" where
  "burn_body r = [I32Const 0, I32Const 0, I32Const 65536, MemoryFill, LocalGet r, I32Const 1, I32Sub, LocalTee r, BrIf 0]"

definition burn :: "nat \<Rightarrow> instr list" where
  "burn r = [I32Const 2000, LocalSet r, Loop (burn_body r)]"

definition burning_guests :: "(func_text \<times> func_text) list" where
  "burning_guests =
     [(TEST_ALLOCATOR, \<lparr>fn_locals = 1, fn_code = burn 8 @ [I32Const 1]\<rparr>),
      (\<lparr>fn_locals = 1, fn_code = burn 1 @ fn_code TEST_ALLOCATOR\<rparr>, const_text 1)]"

text \<open>The structure of the module text: the extra declarations come first, then memory, global and the two
  exported functions.\<close>

definition test_payloads :: "module_text \<Rightarrow> (string, payload) res list" where
  "test_payloads tm =
     (let void = \<lparr>ft_params = [], ft_results = []\<rparr>;
          types = [Ok \<lparr>ft_params = [I32], ft_results = [I32]\<rparr>, Ok \<lparr>ft_params = replicate 8 I32, ft_results = [I32]\<rparr>];
          local_groups = (\<lambda>f. if fn_locals f = 0 then [] else [Ok (word_of_nat (fn_locals f))]);
          code = [Ok (CodeSectionEntry (Ok (local_groups (mt_allocator tm)))),
                  Ok (CodeSectionEntry (Ok (local_groups (mt_predicate tm))))];
          sections = [Ok (OtherPayload 5), Ok (OtherPayload 6), Ok (OtherPayload 7)] in
      case mt_extra tm of
        NoExtra \<Rightarrow> [Ok (TypeSection types), Ok (FunctionSection [Ok 0, Ok 1])] @ sections @ code
      | StartFunction \<Rightarrow> [Ok (TypeSection (Ok void # types)), Ok (FunctionSection [Ok 0, Ok 1, Ok 2])] @ sections @
          [Ok StartSection, Ok (CodeSectionEntry (Ok []))] @ code
      | ImportApprove \<Rightarrow> [Ok (TypeSection (Ok void # types)),
          Ok (ImportSection [Ok \<lparr>imp_module = ''env'', imp_name = ''approve'', imp_ty = FuncRef 0\<rparr>]),
          Ok (FunctionSection [Ok 1, Ok 2])] @ sections @ code)"

subsection \<open>The engine\<close>

text \<open>A fresh instance: one page, the heap at 4096.\<close>

definition test_instance :: "(nat \<Rightarrow> nat) \<Rightarrow> nat \<Rightarrow> module_text \<Rightarrow> test_guest" where
  "test_instance cost fuel tm =
     \<lparr>tg_text = tm, tg_vm = \<lparr>vm_mem = (\<lambda>_. 0), vm_size = PAGE, vm_heap = 4096, vm_fuel = fuel,
        vm_body = fn_code (mt_predicate tm), vm_fill_cost = cost\<rparr>\<rparr>"

definition text_call :: "test_guest \<Rightarrow> func_text \<Rightarrow> u32 list \<Rightarrow> (string, u32) res \<times> test_guest" where
  "text_call g f args =
     (case vm_call (tg_vm g) (fn_code f) (args @ replicate (fn_locals f) 0) of (r, v) \<Rightarrow> (r, g\<lparr>tg_vm := v\<rparr>))"

definition exported :: "string \<Rightarrow> test_guest \<Rightarrow> string \<Rightarrow> (string, unit) res" where
  "exported stem g nm =
     (if nm = stem @ [char_of (48 + mt_version (tg_text g))] then Ok () else Err ''missing export'')"

definition test_runtime ::
  "(bytes \<Rightarrow> (string, payload) res list) \<Rightarrow> (bytes \<Rightarrow> (string, module_text) res) \<Rightarrow> (nat \<Rightarrow> nat) \<Rightarrow> nat \<Rightarrow>
     (module_text, test_guest) wasm_runtime" where
  "test_runtime parser decode cost fuel =
     \<lparr>rt_parse_all = parser, rt_module_new = decode,
      rt_instance_new = (\<lambda>_ tm. if mt_extra tm = ImportApprove then Err ''unknown import'' else Ok (test_instance cost fuel tm)),
      rt_bind_crypto = Ok, rt_get_memory = (\<lambda>_ _. Ok ()),
      rt_get_alloc = exported ''sapio_alloc_v'', rt_get_evaluate = exported ''sapio_evaluate_v'',
      rt_call_alloc = (\<lambda>g _ len. text_call g (mt_allocator (tg_text g)) [len]),
      rt_call_evaluate = (\<lambda>g _ pointers. text_call g (mt_predicate (tg_text g)) pointers),
      rt_exhausted = (\<lambda>g. vm_fuel (tg_vm g) = 0), rt_data_size = (\<lambda>g. vm_size (tg_vm g)),
      rt_write = (\<lambda>g a bs. bind_res (vm_put (tg_vm g) a bs) (\<lambda>v. Ok (g\<lparr>tg_vm := v\<rparr>)))\<rparr>"

section \<open>Specification\<close>

text \<open>The assembled module is a version-one binary that decodes to its text and has its structure.\<close>

definition text_assembles ::
  "(bytes \<Rightarrow> (string, payload) res list) \<Rightarrow> (bytes \<Rightarrow> (string, module_text) res) \<Rightarrow> bytes \<Rightarrow> module_text \<Rightarrow> bool" where
  "text_assembles parser decode m tm \<longleftrightarrow>
     check_module_bytes m = Ok () \<and> decode m = Ok tm \<and> parser m = test_payloads tm"

section \<open>Lemmas\<close>

lemma test_runtime_simps [simp]:
  "rt_parse_all (test_runtime parser decode cost fuel) = parser"
  "rt_module_new (test_runtime parser decode cost fuel) = decode"
  "rt_instance_new (test_runtime parser decode cost fuel) version tm =
     (if mt_extra tm = ImportApprove then Err ''unknown import'' else Ok (test_instance cost fuel tm))"
  "rt_bind_crypto (test_runtime parser decode cost fuel) = Ok"
  "rt_get_memory (test_runtime parser decode cost fuel) g nm = Ok ()"
  "rt_get_alloc (test_runtime parser decode cost fuel) = exported ''sapio_alloc_v''"
  "rt_get_evaluate (test_runtime parser decode cost fuel) = exported ''sapio_evaluate_v''"
  "rt_call_alloc (test_runtime parser decode cost fuel) g nm len = text_call g (mt_allocator (tg_text g)) [len]"
  "rt_call_evaluate (test_runtime parser decode cost fuel) g nm pointers = text_call g (mt_predicate (tg_text g)) pointers"
  "rt_exhausted (test_runtime parser decode cost fuel) g \<longleftrightarrow> vm_fuel (tg_vm g) = 0"
  "rt_data_size (test_runtime parser decode cost fuel) g = vm_size (tg_vm g)"
  "rt_write (test_runtime parser decode cost fuel) g a bs = bind_res (vm_put (tg_vm g) a bs) (\<lambda>v. Ok (g\<lparr>tg_vm := v\<rparr>))"
  by (simp_all add: test_runtime_def)

text \<open>A run keeps the size of the memory and the prices, and never gains fuel.\<close>

lemma vm_exec_keeps:
  "vm_size (snd (vm_exec n v locs st ks is)) = vm_size v \<and> vm_fill_cost (snd (vm_exec n v locs st ks is)) = vm_fill_cost v \<and>
    vm_fuel (snd (vm_exec n v locs st ks is)) \<le> n"
proof (induction n arbitrary: v locs st ks "is" rule: less_induct)
  case (less n)
  show ?case
  proof (cases n)
    case (Suc m)
    have IH: "vm_size (snd (vm_exec k v locs st ks is)) = vm_size v \<and> vm_fill_cost (snd (vm_exec k v locs st ks is)) = vm_fill_cost v \<and>
        vm_fuel (snd (vm_exec k v locs st ks is)) \<le> Suc m" if "k \<le> m" for k v locs st ks "is"
      using less.IH [of k v locs st ks "is"] that Suc by auto
    show ?thesis
    proof (cases "is")
      case Nil
      then show ?thesis by (cases ks rule: list.exhaust; case_tac "hd ks") (simp_all add: Suc IH)
    next
      case (Cons i rest)
      then show ?thesis
        by (cases i) (auto simp: Suc IH vm_put_def split: list.splits option.splits prod.splits if_splits)
    qed
  qed simp
qed

text \<open>A guest call and a write either succeed or report an error, and leave a guest of the same text.\<close>

definition worn :: "test_guest \<Rightarrow> test_guest \<Rightarrow> bool" where
  "worn g g' \<longleftrightarrow> tg_text g' = tg_text g \<and> vm_size (tg_vm g') = vm_size (tg_vm g) \<and>
     vm_fill_cost (tg_vm g') = vm_fill_cost (tg_vm g) \<and> vm_fuel (tg_vm g') \<le> vm_fuel (tg_vm g)"

lemma worn_refl [simp]: "worn g g"
  by (simp add: worn_def)

lemma worn_trans: "worn g g' \<Longrightarrow> worn g' g'' \<Longrightarrow> worn g g''"
  by (auto simp: worn_def)

lemma text_callD: "text_call g f args = (r, g') \<Longrightarrow> r \<noteq> Panic \<and> worn g g'"
  using vm_exec_keeps [of "vm_fuel (tg_vm g)" "tg_vm g" "args @ replicate (fn_locals f) 0" "[]" "[]" "fn_code f"]
  by (auto simp: text_call_def vm_call_def worn_def split: prod.splits outcome.splits)

lemma alloc_all_text:
  "alloc_all (test_runtime parser decode cost fuel) nm g ranges bs \<noteq> Panic \<and>
    (\<forall>ranges' g'. alloc_all (test_runtime parser decode cost fuel) nm g ranges bs = Ok (ranges', g') \<longrightarrow> worn g g')"
proof (induction bs arbitrary: g ranges)
  case (Cons b bs)
  obtain r g1 where c: "text_call g (mt_allocator (tg_text g)) [word_of_nat (length b)] = (r, g1)" by fastforce
  with Cons.IH text_callD [OF c] show ?case by (cases r) (auto simp: Let_def intro: worn_trans)
qed simp

lemma write_all_text:
  "write_all (rt_write (test_runtime parser decode cost fuel)) g ws \<noteq> Panic \<and>
    (\<forall>g'. write_all (rt_write (test_runtime parser decode cost fuel)) g ws = Ok g' \<longrightarrow> worn g g')"
proof (induction ws arbitrary: g)
  case (Cons w ws)
  have "worn g (g\<lparr>tg_vm := (tg_vm g)\<lparr>vm_mem := m\<rparr>\<rparr>)" for m by (simp add: worn_def)
  with Cons show ?case by (cases w) (auto simp: vm_put_def intro: worn_trans)
qed simp

lemma length_call_arguments: "length ranges = length inputs \<Longrightarrow> length (call_arguments ranges inputs) = 2 * length inputs"
  by (induction ranges inputs rule: list_induct2) (simp_all add: call_arguments_def)

text \<open>A predicate that never returns zero or one is refused, whatever the allocator does.\<close>

definition no_verdict :: "test_guest \<Rightarrow> bool" where
  "no_verdict g \<longleftrightarrow> (\<forall>args w g'. length args = 8 \<longrightarrow> text_call g (mt_predicate (tg_text g)) args = (Ok w, g') \<longrightarrow> w \<noteq> 0 \<and> w \<noteq> 1)"

lemma run_guest_no_verdict:
  assumes "\<And>g'. worn g g' \<Longrightarrow> no_verdict g'" "length inputs = 4"
  shows "\<exists>e. run_guest (test_runtime parser decode cost fuel) version g inputs = Err e"
proof (cases "alloc_all (test_runtime parser decode cost fuel) (alloc_name version) g [] inputs")
  case (Ok r)
  obtain ranges g1 where r: "r = (ranges, g1)" by (cases r)
  show ?thesis
  proof (cases "write_all (rt_write (test_runtime parser decode cost fuel)) g1 (zip inputs ranges)")
    case w: (Ok g2)
    have "worn g g1" using alloc_all_text [of parser decode cost fuel "alloc_name version" g "[]" inputs] by (simp add: Ok r)
    moreover have "worn g1 g2" using write_all_text [of parser decode cost fuel g1 "zip inputs ranges"] by (simp add: w)
    ultimately have t: "worn g g2" by (rule worn_trans)
    obtain c g3 where c: "text_call g2 (mt_predicate (tg_text g2)) (call_arguments ranges inputs) = (c, g3)" by fastforce
    have "length ranges = length inputs" using alloc_all_eq_Ok [OF Ok [unfolded r]] by auto
    then have "length (call_arguments ranges inputs) = 8" using assms(2) by (simp add: length_call_arguments)
    then have "c \<noteq> Panic" "\<And>w. c = Ok w \<Longrightarrow> w \<noteq> 0 \<and> w \<noteq> 1" using assms(1) [OF t] text_callD [OF c] c by (auto simp: no_verdict_def)
    with c show ?thesis by (cases c) (simp_all add: run_guest_def Ok r w call_result_def)
  qed (use write_all_text in \<open>simp_all add: run_guest_def Ok r\<close>)
qed (use alloc_all_text in \<open>simp_all add: run_guest_def\<close>)

text \<open>A run that exhausts its fuel.\<close>

definition dry :: "nat \<Rightarrow> vm \<Rightarrow> u32 list \<Rightarrow> u32 list \<Rightarrow> label list \<Rightarrow> instr list \<Rightarrow> bool" where
  "dry n v locs st ks is \<longleftrightarrow> fst (vm_exec n v locs st ks is) = OutOfFuel"

named_theorems dry_intros

lemma dry_steps [dry_intros]:
  "dry (n - 1) v locs (c # st) ks is \<Longrightarrow> dry n v locs st ks (I32Const c # is)"
  "x < length locs \<Longrightarrow> dry (n - 1) v locs (locs ! x # st) ks is \<Longrightarrow> dry n v locs st ks (LocalGet x # is)"
  "x < length locs \<Longrightarrow> dry (n - 1) v (locs[x := a]) st ks is \<Longrightarrow> dry n v locs (a # st) ks (LocalSet x # is)"
  "x < length locs \<Longrightarrow> dry (n - 1) v (locs[x := a]) (a # st) ks is \<Longrightarrow> dry n v locs (a # st) ks (LocalTee x # is)"
  "dry (n - 1) v locs ((a - b) # st) ks is \<Longrightarrow> dry n v locs (b # a # st) ks (I32Sub # is)"
  "dry (n - 1) v locs st (Label (Some body) (length st) is # ks) body \<Longrightarrow> dry n v locs st ks (Loop body # is)"
  by (cases n; simp add: dry_def)+

lemma dry_again:
  "a \<noteq> 0 \<Longrightarrow> dry (n - 1) v locs [] (Label (Some body) 0 rest # ks) body \<Longrightarrow>
     dry n v locs [a] (Label (Some body) 0 rest # ks) (BrIf 0 # is)"
  by (cases n) (simp_all add: dry_def branch_def)

lemma dry_fill:
  assumes "unat a + unat len \<le> vm_size v"
    and "\<And>v'. vm_size v' = vm_size v \<Longrightarrow> vm_fill_cost v' = vm_fill_cost v \<Longrightarrow> vm_fill_cost v (unat len) < n \<Longrightarrow>
      dry (n - Suc (vm_fill_cost v (unat len))) v' locs st ks is"
  shows "dry n v locs (len # x # a # st) ks (MemoryFill # is)"
  using assms by (cases n) (auto simp: dry_def vm_put_def not_less less_Suc_eq_le)

lemma dry_burn:
  assumes "x < length locs" "locs ! x = word_of_nat (Suc k)" "k < 2000" "vm_size v = PAGE"
    and "n < Suc k * vm_fill_cost v 65536"
  shows "dry n v locs [] [Label (Some (burn_body x)) 0 rest] (burn_body x)"
  using assms
proof (induction k arbitrary: n v locs)
  case 0
  then show ?case unfolding burn_body_def
    by (intro dry_steps dry_fill) (simp_all add: PAGE_def)
next
  case (Suc k)
  have w: "(word_of_nat (Suc (Suc k)) :: u32) - 1 = word_of_nat (Suc k)" by simp
  have nz: "(word_of_nat (Suc k) :: u32) \<noteq> 0"
    using unat_word_of_nat_u32 [of "Suc k"] Suc.prems(3) by (auto simp del: of_nat_Suc)
  show ?case
    apply (subst (2) burn_body_def)
    apply (intro dry_steps dry_fill)
    subgoal using Suc.prems by (simp add: PAGE_def)
    subgoal using Suc.prems by simp
    subgoal using Suc.prems by simp
    subgoal using Suc.prems nz w by (intro dry_again Suc.IH) simp_all
    done
qed

text \<open>The functions of the guests.\<close>

lemma burn_dry:
  assumes "x < length locs" "vm_size v = PAGE" "n < 2000 * vm_fill_cost v 65536"
  shows "dry n v locs [] [] (burn x @ rest)"
  unfolding burn_def append_Cons append_Nil
  by (intro dry_steps) (use assms in \<open>auto intro!: dry_burn [where k = 1999]\<close>)

lemma text_call_dry:
  assumes "dry (vm_fuel (tg_vm g)) (tg_vm g) (args @ replicate (fn_locals f) 0) [] [] (fn_code f)"
  shows "\<exists>e g'. text_call g f args = (Err e, g')"
  using assms by (auto simp: dry_def text_call_def vm_call_def split: prod.splits)

lemma const_call: "text_call g (const_text c) args = (r, g') \<Longrightarrow> r = Ok c \<or> (\<exists>e. r = Err e)"
  by (cases "vm_fuel (tg_vm g)"; cases "vm_fuel (tg_vm g) - 1")
    (auto simp: text_call_def const_text_def vm_call_def)

lemma trap_call: "text_call g \<lparr>fn_locals = 0, fn_code = [Unreachable]\<rparr> args = (r, g') \<Longrightarrow> \<exists>e. r = Err e"
  by (cases "vm_fuel (tg_vm g)") (auto simp: text_call_def vm_call_def)

text \<open>An allocator that always answers the same address: the second region overlaps the first, and no region at
  the end of the address space is in memory.\<close>

lemma run_guest_fixed_allocator:
  assumes "mt_allocator (tg_text g) = const_text c" "c \<in> {4096, - 1}" "vm_size (tg_vm g) = PAGE" "view \<noteq> []"
  shows "\<exists>e. run_guest (test_runtime parser decode cost fuel) version g [[], [x], view, w] = Err e"
proof -
  obtain r g1 where c1: "text_call g (const_text c) [1] = (r, g1)" by fastforce
  obtain r' g2 where c2: "text_call g1 (const_text c) [word_of_nat (length view)] = (r', g2)" by fastforce
  have w: "worn g g1" "worn g1 g2" "r = Ok c \<or> (\<exists>e. r = Err e)" "r' = Ok c \<or> (\<exists>e. r' = Err e)"
    using text_callD [OF c1] text_callD [OF c2] const_call [OF c1] const_call [OF c2] by auto
  then have "tg_text g1 = tg_text g" "vm_size (tg_vm g1) = PAGE" "vm_size (tg_vm g2) = PAGE" using assms(3) by (simp_all add: worn_def)
  with w c1 c2 assms show ?thesis by (auto simp: run_guest_def Let_def overlaps_def PAGE_def)
qed

subsection \<open>Evaluation\<close>

lemma text_budget:
  assumes "parser m = test_payloads tm" "fn_locals (mt_allocator tm) \<le> 1" "fn_locals (mt_predicate tm) \<le> 1"
  shows "mt_extra tm = NoExtra \<Longrightarrow> check_compilation_budget (test_runtime parser decode cost fuel) version m = Ok ()"
    and "mt_extra tm \<noteq> NoExtra \<Longrightarrow> \<exists>e. check_compilation_budget (test_runtime parser decode cost fuel) version m = Err e"
proof -
  have loc: "fn_locals (mt_allocator tm) = 0 \<or> fn_locals (mt_allocator tm) = 1"
    "fn_locals (mt_predicate tm) = 0 \<or> fn_locals (mt_predicate tm) = 1" using assms(2,3) by auto
  have slots: "add_slots 0 1 = Ok 1" "add_slots 1 8 = Ok 9" "add_slots 9 1 = Ok 10" "add_slots 10 1 = Ok 11" "add_slots 0 0 = Ok 0"
    by (simp_all add: add_slots_def MAX_FUNCTION_SLOTS_def)
  show "check_compilation_budget (test_runtime parser decode cost fuel) version m = Ok ()" if "mt_extra tm = NoExtra"
    using loc slots by (auto simp: check_compilation_budget_def assms(1) test_payloads_def that list_get_def u32_try_from_def Let_def
        cong: bind_res_weak_cong payload.case_cong_weak)
  show "\<exists>e. check_compilation_budget (test_runtime parser decode cost fuel) version m = Err e" if "mt_extra tm \<noteq> NoExtra"
  proof (cases "mt_extra tm")
    case StartFunction
    then show ?thesis using slots by (simp add: check_compilation_budget_def assms(1) test_payloads_def list_get_def u32_try_from_def Let_def
        cong: bind_res_weak_cong payload.case_cong_weak)
  next
    case ImportApprove
    have "expected_params version \<lparr>imp_module = ''env'', imp_name = ''approve'', imp_ty = FuncRef 0\<rparr> = None"
      by (simp add: expected_params_def CRYPTO_NAMESPACE_def CRYPTO_NAMESPACE_V2_def)
    with ImportApprove show ?thesis
      by (simp add: check_compilation_budget_def assms(1) test_payloads_def check_import_def Let_def
        cong: bind_res_weak_cong payload.case_cong_weak)
  qed (use that in simp)
qed

lemma export_digits: "char_of (49 :: nat) = CHR ''1''" "char_of (50 :: nat) = CHR ''2''"
  by (simp_all add: char_of_def bit_0)

lemma evaluate_text:
  assumes "text_assembles parser decode m tm" "fn_locals (mt_allocator tm) \<le> 1" "fn_locals (mt_predicate tm) \<le> 1"
    and "mt_extra tm = NoExtra" "mt_version tm = (case version of V1 \<Rightarrow> 1 | V2 \<Rightarrow> 2)"
    and "length p \<le> MAX_PARAMETER_BYTES" "length w \<le> MAX_WITNESS_BYTES" "encode_view enc version inp = Ok view"
  shows "evaluate (test_runtime parser decode cost fuel) enc version m [] p inp w =
    run_guest (test_runtime parser decode cost fuel) version (test_instance cost fuel tm) [[], p, view, w]"
proof -
  have "exported ''sapio_alloc_v'' (test_instance cost fuel tm) (alloc_name version) = Ok ()"
    "exported ''sapio_evaluate_v'' (test_instance cost fuel tm) (evaluate_name version) = Ok ()"
    using assms(5) by (cases version; simp add: exported_def test_instance_def alloc_name_def evaluate_name_def export_digits)+
  moreover have "check_module_bytes m = Ok ()" "decode m = Ok tm"
    "check_compilation_budget (test_runtime parser decode cost fuel) version m = Ok ()"
    using assms(1) text_budget(1) [OF _ assms(2-4)] by (simp_all add: text_assembles_def)
  ultimately show ?thesis using assms(4,6-8) by (simp add: evaluate_def not_less)
qed

lemma text_budget_refused:
  assumes "text_assembles parser decode m tm" "fn_locals (mt_allocator tm) \<le> 1" "fn_locals (mt_predicate tm) \<le> 1" "mt_extra tm \<noteq> NoExtra"
  shows "\<exists>e. evaluate (test_runtime parser decode cost fuel) enc version m [] p inp w = Err e"
  using assms text_budget(2) [OF _ assms(2-4), of parser m decode cost fuel version] by (auto simp: evaluate_def text_assembles_def)

abbreviation guest_text :: "func_text \<Rightarrow> func_text \<Rightarrow> extra_text \<Rightarrow> module_text" where
  "guest_text allocator predicate extra \<equiv> \<lparr>mt_version = 1, mt_allocator = allocator, mt_predicate = predicate, mt_extra = extra\<rparr>"

lemma unsafe_guest_refused:
  assumes "(allocator, predicate, extra) \<in> set unsafe_guests" "text_assembles parser decode m (guest_text allocator predicate extra)"
    and "length w \<le> MAX_WITNESS_BYTES" "encode_view enc V1 inp = Ok view" "view \<noteq> []"
  shows "\<exists>e. evaluate (test_runtime parser decode cost fuel) enc V1 m [] [7] inp w = Err e"
proof (cases "extra = NoExtra")
  case True
  let ?tm = "guest_text allocator predicate extra" and ?g = "test_instance cost fuel (guest_text allocator predicate extra)"
  have "fn_locals allocator \<le> 1" "fn_locals predicate \<le> 1"
    using assms(1) by (auto simp: unsafe_guests_def TEST_ALLOCATOR_def const_text_def)
  then have ev: "evaluate (test_runtime parser decode cost fuel) enc V1 m [] [7] inp w =
      run_guest (test_runtime parser decode cost fuel) V1 ?g [[], [7], view, w]"
    by (intro evaluate_text [OF assms(2)]) (use True assms(3,4) in \<open>simp_all add: MAX_PARAMETER_BYTES_def\<close>)
  consider (fixed) c where "allocator = const_text c" "c \<in> {4096, - 1}"
    | (verdict) "predicate = const_text 2 \<or> predicate = \<lparr>fn_locals = 0, fn_code = [Unreachable]\<rparr>"
    using assms(1) True by (auto simp: unsafe_guests_def)
  then show ?thesis
  proof cases
    case fixed
    then show ?thesis unfolding ev
      by (intro run_guest_fixed_allocator [of ?g c]) (use assms(5) in \<open>simp_all add: test_instance_def\<close>)
  next
    case verdict
    have "no_verdict g" if "worn ?g g" for g
    proof -
      from that have "mt_predicate (tg_text g) = predicate" by (simp add: worn_def test_instance_def)
      with verdict show ?thesis using const_call [of g 2] trap_call [of g] by (fastforce simp: no_verdict_def)
    qed
    then show ?thesis unfolding ev by (rule run_guest_no_verdict) simp_all
  qed
next
  case False
  have "fn_locals allocator \<le> 1" "fn_locals predicate \<le> 1"
    using assms(1) by (auto simp: unsafe_guests_def TEST_ALLOCATOR_def const_text_def)
  then show ?thesis by (intro text_budget_refused [OF assms(2)]) (use False in simp_all)
qed

lemma burning_guest_refused:
  assumes "(allocator, predicate) \<in> set burning_guests" "text_assembles parser decode m (guest_text allocator predicate NoExtra)"
    and "length w \<le> MAX_WITNESS_BYTES" "encode_view enc V1 inp = Ok view" "fuel < 2000 * cost 65536"
  shows "\<exists>e. evaluate (test_runtime parser decode cost fuel) enc V1 m [] [7] inp w = Err e"
proof -
  let ?g = "test_instance cost fuel (guest_text allocator predicate NoExtra)"
  have "fn_locals allocator \<le> 1" "fn_locals predicate \<le> 1"
    using assms(1) by (auto simp: burning_guests_def TEST_ALLOCATOR_def const_text_def)
  then have ev: "evaluate (test_runtime parser decode cost fuel) enc V1 m [] [7] inp w =
      run_guest (test_runtime parser decode cost fuel) V1 ?g [[], [7], view, w]"
    by (intro evaluate_text [OF assms(2)]) (use assms(3,4) in \<open>simp_all add: MAX_PARAMETER_BYTES_def\<close>)
  have dry: "\<exists>e g'. text_call g \<lparr>fn_locals = 1, fn_code = burn (length args) @ rest\<rparr> args = (Err e, g')" if "worn ?g g" for g args rest
    by (intro text_call_dry) (use that assms(5) in \<open>auto simp: worn_def test_instance_def intro!: burn_dry\<close>)
  from assms(1) consider (predicate) "predicate = \<lparr>fn_locals = 1, fn_code = burn 8 @ [I32Const 1]\<rparr>"
    | (allocator) "allocator = \<lparr>fn_locals = 1, fn_code = burn 1 @ fn_code TEST_ALLOCATOR\<rparr>"
    by (auto simp: burning_guests_def)
  then show ?thesis
  proof cases
    case predicate
    have "no_verdict g" if "worn ?g g" for g
    proof -
      from that have "mt_predicate (tg_text g) = predicate" by (simp add: worn_def test_instance_def)
      with predicate dry [OF that, of _ "[I32Const 1]"] show ?thesis unfolding no_verdict_def by (metis Pair_inject res.distinct(1))
    qed
    then show ?thesis unfolding ev by (rule run_guest_no_verdict) simp_all
  next
    case allocator
    have "mt_allocator (tg_text ?g) = allocator" by (simp add: test_instance_def)
    with allocator dry [OF worn_refl, of "[1]" "fn_code TEST_ALLOCATOR"] show ?thesis
      unfolding ev by (auto simp: run_guest_def)
  qed
qed

end
