(* ===== verification/Inline_Module.thy ===== *)
theory Inline_Module
  imports Test_Module
begin

text \<open>
  The V2 predicate of the test \<open>inline_v2_observes_authenticated_internal_key_and_no_unsigned_annex\<close> of
  \<open>src/src/ark_signer.rs\<close>: it checks version, lock time, input index and the empty annex of the view, and compares the
  internal key at the end of the view with its witness, byte by byte. Shown here: on delivered inputs, and through the
  whole host path, it returns one exactly when all of this holds.
\<close>

section \<open>Operations\<close>

text \<open>The locals are the four pointer and length pairs and \<open>$index\<close>.\<close>

definition compare_body :: "instr list" where
  "compare_body =
     [LocalGet 8, I32Const 32, I32Eq, BrIf 1,
      LocalGet 4, LocalGet 5, I32Add, I32Const 36, I32Sub, LocalGet 8, I32Add, I32Load8U 0,
      LocalGet 6, LocalGet 8, I32Add, I32Load8U 0,
      I32Ne, When [I32Const 0, Return] [],
      LocalGet 8, I32Const 1, I32Add, LocalSet 8,
      Br 0]"

definition inline_predicate :: func_text where
  "inline_predicate = \<lparr>fn_locals = 1, fn_code =
     [LocalGet 1, I32Eqz,
      LocalGet 4, I32Load 0, I32Const 2, I32Eq, I32And,
      LocalGet 4, I32Load 4, I32Const 500, I32Eq, I32And,
      LocalGet 4, I32Load 8, I32Eqz, I32And,
      LocalGet 4, LocalGet 5, I32Add, I32Const 4, I32Sub, I32Load 0,
        I32Eqz, I32And,
      LocalGet 7, I32Const 32, I32Eq, I32And,
      When [] [I32Const 0, Return],
      Block [Loop compare_body],
      I32Const 1]\<rparr>"

section \<open>Lemmas\<close>

text \<open>Fuel in the form the machine consumes, kept as a numeral.\<close>

lemma fuel_numeral: "Suc (pred_numeral m + k) = numeral m + k"
  by (simp add: numeral_eq_Suc)

lemmas exec_fuel = vm_exec.simps(2-5) [where n = "pred_numeral m + k" for m k, unfolded fuel_numeral]

lemma vm_get_nth: "i < n \<Longrightarrow> vm_mem v (a + i) = vm_get v a n ! i"
  by (simp add: vm_get_def)

lemma drop_get: "i < n \<Longrightarrow> drop i (vm_get v a n) = vm_mem v (a + i) # drop (Suc i) (vm_get v a n)"
  using Cons_nth_drop_Suc [of i "vm_get v a n"] by (simp add: vm_get_def)

text \<open>The comparison from position \<open>i\<close> on.\<close>

lemma exec_compare:
  fixes view wit :: nat and len :: nat
  assumes "24 * (32 - i) + 6 \<le> n" "i \<le> 32" "36 \<le> len" "view + len \<le> PAGE" "wit + 32 \<le> PAGE" "vm_size v = PAGE"
    and "length locs = 9" "locs ! 4 = word_of_nat view" "locs ! 5 = word_of_nat len" "locs ! 6 = word_of_nat wit" "locs ! 8 = word_of_nat i"
  shows "fst (vm_exec n v locs [] [Label (Some compare_body) 0 [], Void 0 [I32Const 1]] compare_body) =
    Finished (of_bool_u32 (drop i (vm_get v (view + len - 36) 32) = drop i (vm_get v wit 32)))"
  using assms
proof (induction "32 - i" arbitrary: i n locs)
  case 0
  then obtain k where n: "n = 6 + k" using le_Suc_ex by (metis mult_0_right add_0)
  have "i = 32" using 0 by simp
  moreover have "drop 32 (vm_get v a 32) = []" for a by (simp add: vm_get_def)
  ultimately show ?case using 0(8,12)
    by (simp add: n exec_fuel compare_body_def branch_def of_bool_u32_def)
next
  case (Suc d)
  then have "i < 32" by simp
  then have "24 \<le> n" using Suc.prems(1) by simp
  then obtain k where n: "n = 24 + k" unfolding le_iff_add by blast
  then have k: "24 * (32 - Suc i) + 6 \<le> k" using Suc.prems(1) \<open>i < 32\<close> by simp
  have i: "(word_of_nat i :: u32) \<noteq> 32" using \<open>i < 32\<close> by (simp add: word_unat_eq_iff unat_word_of_nat_u32)
  let ?a = "view + len - 36"
  have a: "unat (word_of_nat view + word_of_nat len - 36 + word_of_nat i :: u32) = ?a + i"
  proof -
    have "(word_of_nat view + word_of_nat len - 36 + word_of_nat i :: u32) = word_of_nat (?a + i)"
      using Suc.prems(3) by (simp add: of_nat_diff)
    then show ?thesis using unat_word_of_nat_u32 [of "?a + i"] Suc.prems(4) \<open>i < 32\<close> by (simp add: PAGE_def)
  qed
  have w: "unat (word_of_nat wit + word_of_nat i :: u32) = wit + i"
    using unat_word_of_nat_u32 [of "wit + i"] Suc.prems(5) \<open>i < 32\<close> by (simp add: PAGE_def)
  have m: "(ucast x :: u32) = ucast y \<longleftrightarrow> x = y" for x y :: byte by transfer simp
  have IH: "fst (vm_exec k v (locs[8 := word_of_nat i + 1]) [] [Label (Some compare_body) 0 [], Void 0 [I32Const 1]] compare_body) =
      Finished (of_bool_u32 (drop (Suc i) (vm_get v ?a 32) = drop (Suc i) (vm_get v wit 32)))"
    by (rule Suc.hyps(1)) (use Suc.hyps(2) Suc.prems k \<open>i < 32\<close> in \<open>simp_all add: add.commute\<close>)
  have bounds: "Suc (?a + i) \<le> PAGE" "Suc (wit + i) \<le> PAGE" using Suc.prems(3-5) \<open>i < 32\<close> by simp_all
  show ?case
    using IH bounds Suc.prems(6-11) i a w m
    by (subst (2) compare_body_def) (simp add: n exec_fuel drop_get [OF \<open>i < 32\<close>] branch_def of_bool_u32_def returned_def)
qed

lemma fst_text_call: "fst (text_call g f args) =
    (case fst (vm_exec (vm_fuel (tg_vm g)) (tg_vm g) (args @ replicate (fn_locals f) 0) [] [] (fn_code f)) of
       Finished r \<Rightarrow> Ok r | r \<Rightarrow> Err (trap_message r))"
  by (simp add: text_call_def vm_call_def split: prod.splits outcome.splits)

text \<open>The predicate on inputs that lie in memory.\<close>

lemma inline_call:
  assumes mem: "vm_get (tg_vm g) view (length bs) = bs" "vm_get (tg_vm g) wit (length w) = w" "view + length bs \<le> PAGE"
      "wit + length w \<le> PAGE" "vm_size (tg_vm g) = PAGE" "56 \<le> length bs"
    and fuel: "900 \<le> vm_fuel (tg_vm g)"
  shows "fst (text_call g inline_predicate [0, 0, pp, pl, word_of_nat view, word_of_nat (length bs), word_of_nat wit, word_of_nat (length w)]) =
    Ok (of_bool_u32 (u32_from_le (take 4 bs) = 2 \<and> u32_from_le (take 4 (drop 4 bs)) = 500 \<and> u32_from_le (take 4 (drop 8 bs)) = 0 \<and>
      u32_from_le (drop (length bs - 4) bs) = 0 \<and> length w = 32 \<and> take 32 (drop (length bs - 36) bs) = w))"
proof -
  let ?v = "tg_vm g" and ?locs = "[0, 0, pp, pl, word_of_nat view, word_of_nat (length bs), word_of_nat wit, word_of_nat (length w), 0] :: u32 list"
  obtain k where k: "vm_fuel ?v = 50 + k" "800 \<le> k" using fuel le_Suc_ex [of 50 "vm_fuel ?v"] by force
  have get: "vm_get ?v (view + i) n = take n (drop i bs)" if "i + n \<le> length bs" for i n
    using vm_get_part [OF that, of ?v view] mem(1) by simp
  have ptr: "unat (word_of_nat view :: u32) = view" using mem(3) unat_word_of_nat_u32 [of view] by (simp add: PAGE_def)
  have last: "unat (word_of_nat view + word_of_nat (length bs) - 4 :: u32) = view + (length bs - 4)"
  proof -
    have e: "(word_of_nat view + word_of_nat (length bs) - 4 :: u32) = word_of_nat (view + (length bs - 4))"
      using mem(6) by (simp add: of_nat_diff)
    show ?thesis unfolding e by (rule unat_word_of_nat_u32) (use mem(3) in \<open>simp add: PAGE_def\<close>)
  qed
  have len: "(word_of_nat (length w) :: u32) = 32 \<longleftrightarrow> length w = 32"
    using mem(4) by (simp add: word_unat_eq_iff unat_word_of_nat_u32 PAGE_def)
  have loads: "vm_get ?v view 4 = take 4 bs" "vm_get ?v (view + 4) 4 = take 4 (drop 4 bs)" "vm_get ?v (view + 8) 4 = take 4 (drop 8 bs)"
    "vm_get ?v (view + (length bs - 4)) 4 = drop (length bs - 4) bs"
    using get [of 0 4] get [of 4 4] get [of 8 4] get [of "length bs - 4" 4] mem(6) by simp_all
  have bounds: "view + 12 \<le> PAGE" "view + (length bs - 4) + 4 \<le> PAGE" using mem(3,6) by simp_all
  let ?c = "u32_from_le (take 4 bs) = 2 \<and> u32_from_le (take 4 (drop 4 bs)) = 500 \<and> u32_from_le (take 4 (drop 8 bs)) = 0 \<and>
      u32_from_le (drop (length bs - 4) bs) = 0 \<and> length w = 32"
  have run: "fst (vm_exec (50 + k) ?v ?locs [] [] (fn_code inline_predicate)) =
      (if ?c then fst (vm_exec (18 + k) ?v ?locs [] [Label (Some compare_body) 0 [], Void 0 [I32Const 1]] compare_body) else Finished 0)"
    using bounds by (simp add: inline_predicate_def exec_fuel returned_def ptr last len loads mem(5))
  have "fst (vm_exec (18 + k) ?v ?locs [] [Label (Some compare_body) 0 [], Void 0 [I32Const 1]] compare_body) =
      Finished (of_bool_u32 (take 32 (drop (length bs - 36) bs) = w))" if "length w = 32"
    using exec_compare [of 0 "18 + k" "length bs" view wit ?v ?locs] get [of "length bs - 36" 32] mem k(2) that by simp
  with run show ?thesis
    by (auto simp: fst_text_call k(1) inline_predicate_def of_bool_u32_def)
qed

subsection \<open>Delivery\<close>

interpretation text_memory: linear_memory "rt_write (test_runtime parser decode cost fuel)" "\<lambda>g. vm_get (tg_vm g)" for parser decode cost fuel
  by unfold_locales (auto simp: bind_res_eq_Ok page.read_none dest: page.read_written page.read_disjoint)

lemma test_allocator_call:
  assumes "6 \<le> vm_fuel (tg_vm g)"
  shows "text_call g TEST_ALLOCATOR [len] = (Ok (vm_heap (tg_vm g)),
    g\<lparr>tg_vm := (tg_vm g)\<lparr>vm_heap := vm_heap (tg_vm g) + len, vm_fuel := vm_fuel (tg_vm g) - 6\<rparr>\<rparr>)"
proof -
  obtain k where "vm_fuel (tg_vm g) = 6 + k" using assms unfolding le_iff_add by blast
  then show ?thesis by (simp add: text_call_def vm_call_def TEST_ALLOCATOR_def exec_fuel)
qed

lemma inline_ranges:
  assumes "mt_allocator tm = TEST_ALLOCATOR" "18 \<le> fuel" "view \<noteq> []" "w \<noteq> []" "4097 + length view + length w \<le> PAGE"
  shows "\<exists>g. alloc_all (test_runtime parser decode cost fuel') nm (test_instance cost fuel tm) [] [[], [x], view, w] =
      Ok ([(0, 0), (4096, 4097), (4097, 4097 + length view), (4097 + length view, 4097 + length view + length w)], g) \<and>
    tg_text g = tm \<and> vm_size (tg_vm g) = PAGE \<and> vm_fuel (tg_vm g) = fuel - 18"
proof -
  have ptr: "unat (4097 + word_of_nat (length view) :: u32) = 4097 + length view"
    using unat_word_of_nat_u32 [of "4097 + length view"] assms(5) by (simp add: PAGE_def)
  show ?thesis
    using assms by (simp add: test_instance_def test_allocator_call Let_def overlaps_def ptr PAGE_def)
qed

lemma write_in_page:
  assumes "\<forall>(b, r) \<in> set ws. fst r + length b \<le> vm_size (tg_vm g)"
  shows "\<exists>g'. write_all (rt_write (test_runtime parser decode cost fuel)) g ws = Ok g' \<and> tg_text g' = tg_text g \<and>
    vm_size (tg_vm g') = vm_size (tg_vm g) \<and> vm_fuel (tg_vm g') = vm_fuel (tg_vm g)"
  using assms
proof (induction ws arbitrary: g)
  case (Cons w ws)
  obtain b r where w: "w = (b, r)" by (cases w)
  then obtain v where v: "vm_put (tg_vm g) (fst r) b = Ok v" "vm_size v = vm_size (tg_vm g)" "vm_fuel v = vm_fuel (tg_vm g)"
    using Cons.prems by (auto simp: vm_put_def)
  from Cons.IH [of "g\<lparr>tg_vm := v\<rparr>"] Cons.prems v show ?case by (auto simp: w)
qed simp

definition inline_accepts :: "bytes \<Rightarrow> bytes \<Rightarrow> bool" where
  "inline_accepts view w \<longleftrightarrow> u32_from_le (take 4 view) = 2 \<and> u32_from_le (take 4 (drop 4 view)) = 500 \<and>
     u32_from_le (take 4 (drop 8 view)) = 0 \<and> u32_from_le (drop (length view - 4) view) = 0 \<and> length w = 32 \<and>
     take 32 (drop (length view - 36) view) = w"

lemma run_guest_value:
  assumes "alloc_all rt (alloc_name version) g [] inputs = Ok (ranges, g1)" "write_all (rt_write rt) g1 (zip inputs ranges) = Ok g2"
    and "fst (rt_call_evaluate rt g2 (evaluate_name version) (call_arguments ranges inputs)) = Ok r"
  shows "run_guest rt version g inputs = call_result r"
  using assms by (cases "rt_call_evaluate rt g2 (evaluate_name version) (call_arguments ranges inputs)") (simp add: run_guest_def)

lemma run_guest_inline:
  assumes "mt_allocator tm = TEST_ALLOCATOR" "mt_predicate tm = inline_predicate" "1000 \<le> fuel"
    and "56 \<le> length view" "w \<noteq> []" "4097 + length view + length w \<le> PAGE"
  shows "run_guest (test_runtime parser decode cost fuel) version (test_instance cost fuel tm) [[], [x], view, w] = Ok (inline_accepts view w)"
proof -
  let ?ranges = "[(0, 0), (4096, 4097), (4097, 4097 + length view), (4097 + length view, 4097 + length view + length w)] :: (nat \<times> nat) list"
  let ?inputs = "[[], [x], view, w]"
  have ne: "18 \<le> fuel" "view \<noteq> []" using assms(3,4) by auto
  obtain g1 where g1: "alloc_all (test_runtime parser decode cost fuel) (alloc_name version) (test_instance cost fuel tm) [] ?inputs = Ok (?ranges, g1)"
    "tg_text g1 = tm" "vm_size (tg_vm g1) = PAGE" "vm_fuel (tg_vm g1) = fuel - 18"
    using inline_ranges [OF assms(1) ne assms(5,6), of parser decode cost fuel "alloc_name version" x] by blast
  obtain g2 where g2: "write_all (rt_write (test_runtime parser decode cost fuel)) g1 (zip ?inputs ?ranges) = Ok g2"
    "tg_text g2 = tm" "vm_size (tg_vm g2) = PAGE" "vm_fuel (tg_vm g2) = fuel - 18"
    using write_in_page [of "zip ?inputs ?ranges" g1 parser decode cost fuel] g1 assms(6) by (auto simp: PAGE_def)
  have mem: "vm_get (tg_vm g2) (fst r) (length b) = b" if "(b, r) \<in> set (zip ?inputs ?ranges)" for b r
    by (rule text_memory.write_all_delivers [OF g2(1) _ _ that]) (auto simp: overlaps_def)
  have "fst (text_call g2 inline_predicate (call_arguments ?ranges ?inputs)) = Ok (of_bool_u32 (inline_accepts view w))"
    using inline_call [of g2 4097 view "4097 + length view" w "word_of_nat 4096" 1] mem [of view "(4097, 4097 + length view)"]
      mem [of w "(4097 + length view, 4097 + length view + length w)"] g2 assms
    by (simp add: call_arguments_def inline_accepts_def)
  then have "fst (rt_call_evaluate (test_runtime parser decode cost fuel) g2 (evaluate_name version) (call_arguments ?ranges ?inputs)) =
      Ok (of_bool_u32 (inline_accepts view w))" using g2(2) assms(2) by simp
  from run_guest_value [OF g1(1) g2(1) this] show ?thesis by (simp add: call_result_def of_bool_u32_def)
qed

text \<open>The text with this predicate, and its verdict through the host.\<close>

definition inline_text :: module_text where
  "inline_text = \<lparr>mt_version = 2, mt_allocator = TEST_ALLOCATOR, mt_predicate = inline_predicate, mt_extra = NoExtra\<rparr>"

lemma inline_accepts_view:
  assumes "outpoint_codec enc" "authenticated inp" "encode_view enc V2 inp = Ok view"
    and "pi_tap_internal_key (psbt_inputs (si_psbt inp) ! si_input_index inp) = Some k" "length w = 32"
  shows "inline_accepts view w \<longleftrightarrow> tx_version (psbt_unsigned_tx (si_psbt inp)) = 2 \<and>
    tx_lock_time (psbt_unsigned_tx (si_psbt inp)) = 500 \<and> si_input_index inp = 0 \<and> w = k"
proof -
  have k: "length k = 32" using assms(2,4) by (auto simp: authenticated_def list_all_length)
  obtain body where v: "view = u32_to_le (tx_version (psbt_unsigned_tx (si_psbt inp))) @
      u32_to_le (tx_lock_time (psbt_unsigned_tx (si_psbt inp))) @ u32_to_le (word_of_nat (si_input_index inp)) @ body @ k @ u32_to_le 0"
    using encode_view_eq_Ok(5) [OF assms(3)] assms(4) by auto
  have "(word_of_nat (si_input_index inp) :: u32) = 0 \<longleftrightarrow> si_input_index inp = 0"
    using encode_view_eq_Ok(4) [OF assms(3)] by (simp add: word_unat_eq_iff unat_word_of_nat_u32)
  then show ?thesis using assms(5) k by (auto simp: inline_accepts_def v)
qed

lemma evaluate_inline:
  assumes "text_assembles parser decode m inline_text" "1000 \<le> fuel" "outpoint_codec enc" "authenticated inp"
    and "total_view_size V2 inp \<le> 50000" "length w = 32"
    and "pi_tap_internal_key (psbt_inputs (si_psbt inp) ! si_input_index inp) = Some k"
  shows "evaluate (test_runtime parser decode cost fuel) enc V2 m [] [7] inp w =
    Ok (tx_version (psbt_unsigned_tx (si_psbt inp)) = 2 \<and> tx_lock_time (psbt_unsigned_tx (si_psbt inp)) = 500 \<and>
      si_input_index inp = 0 \<and> w = k)"
proof -
  obtain view where v: "encode_view enc V2 inp = Ok view"
    using encode_view_fits [OF assms(4), of V2] assms(5,7) by (auto simp: MAX_SIGNED_VIEW_BYTES_def)
  have len: "56 \<le> length view" "length view \<le> 50000"
    using encode_view_length(1) [OF assms(3,4) v] assms(5) by (simp_all add: total_view_size_def)
  have "w \<noteq> []" using assms(6) by auto
  with len have run: "run_guest (test_runtime parser decode cost fuel) V2 (test_instance cost fuel inline_text) [[], [7], view, w] =
      Ok (inline_accepts view w)"
    using assms(2,6) by (intro run_guest_inline) (simp_all add: inline_text_def PAGE_def)
  have "evaluate (test_runtime parser decode cost fuel) enc V2 m [] [7] inp w =
      run_guest (test_runtime parser decode cost fuel) V2 (test_instance cost fuel inline_text) [[], [7], view, w]"
    by (rule evaluate_text [OF assms(1)]) (use v assms(6) in \<open>simp_all add: inline_text_def TEST_ALLOCATOR_def inline_predicate_def
        MAX_PARAMETER_BYTES_def MAX_WITNESS_BYTES_def\<close>)
  with run show ?thesis using inline_accepts_view [OF assms(3,4) v assms(7,6)] by simp
qed

end
