(* ===== verification/V2_Types.thy ===== *)
theory V2_Types
  imports Inline_Module
begin

text \<open>
  WebAssembly validation for the instructions of the modules, and its soundness for \<open>vm_exec\<close>: a
  validated function never underflows its operand stack, never reads a local it does not have, never
  branches outside its blocks and returns exactly one value, whatever its arguments, the memory and the
  fuel. All values are 32-bit integers, so the type of a stack is its height.
\<close>

section \<open>Validation\<close>

text \<open>\<open>valid n bs h is e\<close>: with \<open>n\<close> locals, inside blocks whose branch targets take \<open>bs\<close> values, the
  instructions take a block's stack of height \<open>h\<close> to height \<open>e\<close>. Code after a branch or a trap is dead.\<close>

fun valid :: "nat \<Rightarrow> nat list \<Rightarrow> nat \<Rightarrow> instr list \<Rightarrow> nat \<Rightarrow> bool" where
  "valid n bs h [] e \<longleftrightarrow> h = e"
| "valid n bs h (LocalGet x # is) e \<longleftrightarrow> x < n \<and> valid n bs (Suc h) is e"
| "valid n bs h (LocalSet x # is) e \<longleftrightarrow> x < n \<and> 1 \<le> h \<and> valid n bs (h - 1) is e"
| "valid n bs h (LocalTee x # is) e \<longleftrightarrow> x < n \<and> 1 \<le> h \<and> valid n bs h is e"
| "valid n bs h (GlobalGet # is) e \<longleftrightarrow> valid n bs (Suc h) is e"
| "valid n bs h (GlobalSet # is) e \<longleftrightarrow> 1 \<le> h \<and> valid n bs (h - 1) is e"
| "valid n bs h (I32Const c # is) e \<longleftrightarrow> valid n bs (Suc h) is e"
| "valid n bs h (I32Add # is) e \<longleftrightarrow> 2 \<le> h \<and> valid n bs (Suc (h - 2)) is e"
| "valid n bs h (I32Sub # is) e \<longleftrightarrow> 2 \<le> h \<and> valid n bs (Suc (h - 2)) is e"
| "valid n bs h (I32Ne # is) e \<longleftrightarrow> 2 \<le> h \<and> valid n bs (Suc (h - 2)) is e"
| "valid n bs h (I32Load8U k # is) e \<longleftrightarrow> 1 \<le> h \<and> valid n bs h is e"
| "valid n bs h (MemoryFill # is) e \<longleftrightarrow> 3 \<le> h \<and> valid n bs (h - 3) is e"
| "valid n bs h (I32Eqz # is) e \<longleftrightarrow> 1 \<le> h \<and> valid n bs h is e"
| "valid n bs h (I32Eq # is) e \<longleftrightarrow> 2 \<le> h \<and> valid n bs (Suc (h - 2)) is e"
| "valid n bs h (I32And # is) e \<longleftrightarrow> 2 \<le> h \<and> valid n bs (Suc (h - 2)) is e"
| "valid n bs h (I32GeU # is) e \<longleftrightarrow> 2 \<le> h \<and> valid n bs (Suc (h - 2)) is e"
| "valid n bs h (I32Load k # is) e \<longleftrightarrow> 1 \<le> h \<and> valid n bs h is e"
| "valid n bs h (If t f # is) e \<longleftrightarrow>
     1 \<le> h \<and> valid n (1 # bs) 0 t 1 \<and> valid n (1 # bs) 0 f 1 \<and> valid n bs h is e"
| "valid n bs h (When t f # is) e \<longleftrightarrow>
     1 \<le> h \<and> valid n (0 # bs) 0 t 0 \<and> valid n (0 # bs) 0 f 0 \<and> valid n bs (h - 1) is e"
| "valid n bs h (Block body # is) e \<longleftrightarrow> valid n (0 # bs) 0 body 0 \<and> valid n bs h is e"
| "valid n bs h (Loop body # is) e \<longleftrightarrow> valid n (0 # bs) 0 body 0 \<and> valid n bs h is e"
| "valid n bs h (Br d # is) e \<longleftrightarrow> d < length bs \<and> bs ! d \<le> h"
| "valid n bs h (BrIf d # is) e \<longleftrightarrow> 1 \<le> h \<and> d < length bs \<and> bs ! d \<le> h - 1 \<and> valid n bs (h - 1) is e"
| "valid n bs h (Return # is) e \<longleftrightarrow> 1 \<le> h"
| "valid n bs h (Unreachable # is) e \<longleftrightarrow> True"

text \<open>A function body: its own block takes and leaves one value.\<close>

definition valid_function :: "nat \<Rightarrow> instr list \<Rightarrow> bool" where
  "valid_function n body \<longleftrightarrow> valid n [1] 0 body 1"

section \<open>Typed configurations\<close>

fun arity :: "label \<Rightarrow> nat" where
  "arity (Label None h rest) = 1"
| "arity (Label (Some body) h rest) = 0"
| "arity (Void h rest) = 0"

fun base :: "label list \<Rightarrow> nat" where
  "base [] = 0"
| "base (Label b h rest # ks) = h"
| "base (Void h rest # ks) = h"

abbreviation arities :: "label list \<Rightarrow> nat list" where
  "arities ks \<equiv> map arity ks @ [1]"

text \<open>The open blocks of a configuration: each continues validly with the value its block leaves.\<close>

fun typed_blocks :: "nat \<Rightarrow> label list \<Rightarrow> bool" where
  "typed_blocks n [] \<longleftrightarrow> True"
| "typed_blocks n (Label b h rest # ks) \<longleftrightarrow> base ks \<le> h \<and> typed_blocks n ks \<and>
     (case b of None \<Rightarrow> True | Some body \<Rightarrow> valid n (0 # arities ks) 0 body 0) \<and>
     valid n (arities ks) (h + arity (Label b h rest) - base ks) rest
       (case ks of [] \<Rightarrow> 1 | l # _ \<Rightarrow> arity l)"
| "typed_blocks n (Void h rest # ks) \<longleftrightarrow> base ks \<le> h \<and> typed_blocks n ks \<and>
     valid n (arities ks) (h - base ks) rest (case ks of [] \<Rightarrow> 1 | l # _ \<Rightarrow> arity l)"

definition typed_config :: "nat \<Rightarrow> nat \<Rightarrow> label list \<Rightarrow> instr list \<Rightarrow> bool" where
  "typed_config n height ks is \<longleftrightarrow> base ks \<le> height \<and> typed_blocks n ks \<and>
     valid n (arities ks) (height - base ks) is (case ks of [] \<Rightarrow> 1 | l # _ \<Rightarrow> arity l)"

lemma typed_blocks_drop: "typed_blocks n ks \<Longrightarrow> typed_blocks n (drop d ks)"
proof (induction ks arbitrary: d)
  case (Cons l ks)
  then show ?case by (cases l; cases d) auto
qed simp

lemma base_drop: "typed_blocks n ks \<Longrightarrow> base (drop d ks) \<le> base ks"
proof (induction ks arbitrary: d)
  case (Cons l ks)
  then show ?case by (cases l; cases d) (auto intro: order_trans)
qed simp

text \<open>A branch to an open block is a typed configuration again; a branch out of the function finds its result.\<close>

lemma branch_typed:
  assumes "typed_blocks n ks" "base ks \<le> length st" "d < length (arities ks)" "arities ks ! d \<le> length st - base ks"
  shows "case branch d st ks of Some (st', ks', is') \<Rightarrow> typed_config n (length st') ks' is' | None \<Rightarrow> 1 \<le> length st"
proof (cases "d < length ks")
  case True
  have drop: "drop d ks = ks ! d # drop (Suc d) ks" using True by (metis Cons_nth_drop_Suc)
  have ty: "typed_blocks n (ks ! d # drop (Suc d) ks)" "base (ks ! d # drop (Suc d) ks) \<le> base ks"
    using typed_blocks_drop [OF assms(1), of d] base_drop [OF assms(1), of d] by (simp_all add: drop)
  have ar: "arity (ks ! d) \<le> length st - base ks" using assms(4) True by (simp add: nth_append)
  show ?thesis
  proof (cases "ks ! d")
    case (Label b h rest)
    show ?thesis
    proof (cases b)
      case None
      then have "1 \<le> length st" using ar Label by simp
      then show ?thesis using ty ar assms(2) True by (simp add: branch_def typed_config_def Label None)
    qed (use ty assms(2) True drop Label in \<open>simp add: branch_def typed_config_def\<close>)
  next
    case (Void h rest)
    then show ?thesis using ty assms(2) True by (simp add: branch_def typed_config_def)
  qed
next
  case False
  then show ?thesis using assms(3,4) by (simp add: branch_def nth_append)
qed

section \<open>Soundness\<close>

text \<open>Leaving a block continues outside it.\<close>

fun continuation :: "label \<Rightarrow> instr list" where
  "continuation (Label b h rest) = rest"
| "continuation (Void h rest) = rest"

lemma typed_end:
  assumes "typed_config n height (l # ks) []"
  shows "typed_config n height ks (continuation l)"
proof (cases l)
  case (Label b h rest)
  with assms have "height = h + arity (Label b h rest)" by (auto simp: typed_config_def)
  with assms Label show ?thesis by (auto simp: typed_config_def)
next
  case (Void h rest)
  with assms have "height = h" by (auto simp: typed_config_def)
  with assms Void show ?thesis by (auto simp: typed_config_def)
qed

lemma vm_exec_end: "vm_exec (Suc k) v locs st (l # ks) [] = vm_exec k v locs st ks (continuation l)"
  by (cases l) simp_all

text \<open>An instruction that stays in its block and changes the height of the stack by what validation says.\<close>

lemma typed_next:
  assumes "typed_config n height ks (i # is)"
    and "\<And>bs h e. valid n bs h (i # is) e \<Longrightarrow> p \<le> h \<and> valid n bs (h - p + q) is e"
  shows "p \<le> height" and "typed_config n (height - p + q) ks is"
proof -
  from assms [unfolded typed_config_def] have "p \<le> height - base ks" "valid n (arities ks) (height - base ks - p + q) is
      (case ks of [] \<Rightarrow> 1 | l # _ \<Rightarrow> arity l)" "base ks \<le> height" "typed_blocks n ks"
    by blast+
  moreover from this have "height - base ks - p + q = height - p + q - base ks" by simp
  ultimately show "p \<le> height" "typed_config n (height - p + q) ks is" by (simp_all add: typed_config_def)
qed

lemma typed_if:
  assumes "typed_config n height ks (If t f # is)"
  shows "1 \<le> height" and "typed_config n (height - 1) (Label None (height - 1) is # ks) (if c then t else f)"
proof -
  from assms have "1 \<le> height - base ks" "base ks \<le> height" by (simp_all add: typed_config_def)
  moreover from this have "Suc (height - Suc 0) - base ks = height - base ks" by simp
  ultimately show "1 \<le> height" "typed_config n (height - 1) (Label None (height - 1) is # ks) (if c then t else f)"
    using assms by (auto simp: typed_config_def)
qed

lemma typed_when:
  assumes "typed_config n height ks (When t f # is)"
  shows "1 \<le> height" and "typed_config n (height - 1) (Void (height - 1) is # ks) (if c then t else f)"
  using assms by (auto simp: typed_config_def)

lemma typed_loop:
  "typed_config n height ks (Loop body # is) \<Longrightarrow> typed_config n height (Label (Some body) height is # ks) body"
  by (auto simp: typed_config_def)

lemma typed_block:
  "typed_config n height ks (Block body # is) \<Longrightarrow> typed_config n height (Void height is # ks) body"
  by (auto simp: typed_config_def)

text \<open>The instructions that open or leave a block.\<close>

fun straight :: "instr \<Rightarrow> bool" where
  "straight (If t f) = False"
| "straight (When t f) = False"
| "straight (Block body) = False"
| "straight (Loop body) = False"
| "straight (Br d) = False"
| "straight (BrIf d) = False"
| "straight Return = False"
| "straight Unreachable = False"
| "straight i = True"

text \<open>One instruction that stays in its block: its operands are there and what follows is typed.\<close>

lemma exec_straight:
  assumes IH': "\<And>k' v locs st is. k' \<le> k \<Longrightarrow> typed_config (length locs) (length st) ks is \<Longrightarrow>
      fst (vm_exec k' v locs st ks is) \<noteq> Trapped InvalidStack"
    and ty: "typed_config (length locs) (length st) ks (i # is)"
    and i: "straight i"
  shows "fst (vm_exec (Suc k) v locs st ks (i # is)) \<noteq> Trapped InvalidStack"
proof -
  note IH = IH' [OF order_refl]
  have stack: "\<exists>a st'. st = a # st'" if "1 \<le> length st"
    using that by (cases st) simp_all
  have stack2: "\<exists>a b st'. st = a # b # st'" if "2 \<le> length st"
    using that by (auto simp: numeral_2_eq_2 Suc_le_length_iff)
  have stack3: "\<exists>a b c st'. st = a # b # c # st'" if "3 \<le> length st"
    using that by (auto simp: numeral_3_eq_3 Suc_le_length_iff)
  have local: "x < length locs" if "i = LocalGet x \<or> i = LocalSet x \<or> i = LocalTee x" for x
    using ty that by (auto simp: typed_config_def)
  note n01 = typed_next [OF ty, of 0 1] and n11 = typed_next [OF ty, of 1 1]
    and n10 = typed_next [OF ty, of 1 0] and n21 = typed_next [OF ty, of 2 1]
    and n30 = typed_next [OF ty, of 3 0]
  show ?thesis
  proof (cases i)
    case (LocalGet x)
    with n01 local show ?thesis by (auto elim!: IH [THEN notE, rotated])
  next
    case (LocalSet x)
    with n10 local stack IH [of "locs[x := hd st]" "tl st" "is"] show ?thesis by auto
  next
    case (LocalTee x)
    with n11 local stack IH [of "locs[x := hd st]" st "is"] show ?thesis by auto
  next
    case GlobalGet
    with n01 show ?thesis by (auto elim!: IH [THEN notE, rotated])
  next
    case GlobalSet
    with n10 stack show ?thesis by (auto elim!: IH [THEN notE, rotated])
  next
    case (I32Const c)
    with n01 show ?thesis by (auto elim!: IH [THEN notE, rotated])
  next
    case I32Add
    with n21 stack2 show ?thesis by (auto elim!: IH [THEN notE, rotated])
  next
    case I32Sub
    with n21 stack2 show ?thesis by (auto elim!: IH [THEN notE, rotated])
  next
    case I32Ne
    with n21 stack2 show ?thesis by (auto elim!: IH [THEN notE, rotated])
  next
    case (I32Load8U x)
    with n11 stack show ?thesis by (auto elim!: IH [THEN notE, rotated] split: if_splits)
  next
    case MemoryFill
    with n30 stack3 show ?thesis by (auto dest: IH' [OF diff_le_self] split: if_splits res.splits)
  next
    case I32Eqz
    with n11 stack show ?thesis by (auto elim!: IH [THEN notE, rotated])
  next
    case I32Eq
    with n21 stack2 show ?thesis by (auto elim!: IH [THEN notE, rotated])
  next
    case I32And
    with n21 stack2 show ?thesis by (auto elim!: IH [THEN notE, rotated])
  next
    case I32GeU
    with n21 stack2 show ?thesis by (auto elim!: IH [THEN notE, rotated])
  next
    case (I32Load x)
    with n11 stack show ?thesis by (auto elim!: IH [THEN notE, rotated] split: if_splits)
  qed (use i in auto)
qed

lemma exec_branch:
  assumes IH: "\<And>v locs st ks is. typed_config (length locs) (length st) ks is \<Longrightarrow>
      fst (vm_exec k v locs st ks is) \<noteq> Trapped InvalidStack"
    and "typed_blocks (length locs) ks" "base ks \<le> length st" "d < length (arities ks)" "arities ks ! d \<le> length st - base ks"
  shows "fst (case branch d st ks of Some (st', ks', is') \<Rightarrow> vm_exec k v locs st' ks' is'
    | None \<Rightarrow> (returned st, v\<lparr>vm_fuel := k\<rparr>)) \<noteq> Trapped InvalidStack"
  using branch_typed [OF assms(2-5)]
  by (auto split: option.splits list.splits simp: returned_def dest: IH [where v = v])

lemma exec_leaving:
  assumes IH: "\<And>v locs st ks is. typed_config (length locs) (length st) ks is \<Longrightarrow>
      fst (vm_exec k v locs st ks is) \<noteq> Trapped InvalidStack"
    and ty: "typed_config (length locs) (length st) ks (i # is)" and i: "\<not> straight i"
  shows "fst (vm_exec (Suc k) v locs st ks (i # is)) \<noteq> Trapped InvalidStack"
proof (cases i)
  case (If t f)
  from typed_if(1) [OF ty [unfolded If]] obtain a st' where st: "st = a # st'" by (cases st) auto
  from IH [of locs st' "Label None (length st') is # ks" "if a \<noteq> 0 then t else f" v]
    typed_if(2) [OF ty [unfolded If], of "a \<noteq> 0"] show ?thesis by (simp add: If st)
next
  case (When t f)
  from typed_when(1) [OF ty [unfolded When]] obtain a st' where st: "st = a # st'" by (cases st) auto
  from IH [of locs st' "Void (length st') is # ks" "if a \<noteq> 0 then t else f" v]
    typed_when(2) [OF ty [unfolded When], of "a \<noteq> 0"] show ?thesis by (simp add: When st)
next
  case (Block body)
  from IH [OF typed_block [OF ty [unfolded Block]]] show ?thesis by (simp add: Block)
next
  case (Loop body)
  from IH [OF typed_loop [OF ty [unfolded Loop]]] show ?thesis by (simp add: Loop)
next
  case (Br d)
  with ty have "typed_blocks (length locs) ks" "base ks \<le> length st" "d < length (arities ks)"
    "arities ks ! d \<le> length st - base ks" by (simp_all add: typed_config_def)
  from exec_branch [OF IH this, of v] show ?thesis by (simp add: Br)
next
  case (BrIf d)
  with ty obtain a st' where st: "st = a # st'" by (cases st) (auto simp: typed_config_def)
  from ty BrIf have "typed_blocks (length locs) ks" "base ks \<le> length st'" "d < length (arities ks)"
    "arities ks ! d \<le> length st' - base ks" by (auto simp: typed_config_def st)
  moreover have "typed_config (length locs) (length st') ks is" using typed_next(2) [OF ty, of 1 0] by (simp add: BrIf st)
  ultimately show ?thesis using exec_branch [OF IH, of locs ks st' d v] IH [of locs st' ks "is" v] by (simp add: BrIf st)
next
  case Return
  with ty show ?thesis by (cases st) (simp_all add: typed_config_def returned_def)
qed (use i in simp_all)

lemma exec_type_safe:
  assumes "typed_config (length locs) (length st) ks is"
  shows "fst (vm_exec k v locs st ks is) \<noteq> Trapped InvalidStack"
  using assms
proof (induction k arbitrary: v locs st ks "is" rule: less_induct)
  case (less k)
  show ?case
  proof (cases k)
    case (Suc m)
    have IH': "fst (vm_exec k' v locs st ks is) \<noteq> Trapped InvalidStack"
      if "k' \<le> m" "typed_config (length locs) (length st) ks is" for k' v locs st ks "is"
      by (rule less.IH [OF _ that(2)]) (use that(1) Suc in simp)
    show ?thesis
    proof (cases "is")
      case Nil
      show ?thesis
      proof (cases ks)
        case (Cons l ks')
        from IH' [OF order_refl typed_end] less.prems show ?thesis by (simp add: Nil Cons Suc vm_exec_end)
      qed (use less.prems Nil Suc in \<open>auto simp: typed_config_def length_Suc_conv\<close>)
    next
      case (Cons i rest)
      have ty: "typed_config (length locs) (length st) ks (i # rest)" using less.prems Cons by simp
      show ?thesis unfolding Suc Cons
        by (cases "straight i") (rule exec_straight [OF IH' ty] exec_leaving [OF IH' [OF order_refl] ty]; assumption)+
    qed
  qed simp
qed

section \<open>Properties\<close>

text \<open>C20: the functions of the modules are well typed. The allocators with their parameter and locals, and each of the
  predicate bodies with the eight parameters of the ABI and its locals, of the example and of the tests, run without an
  operand-stack, local or branch fault on all arguments, memories and fuel: every run returns one value,
  executes \<open>unreachable\<close>, accesses memory out of bounds or runs out of fuel.\<close>

theorem module_functions_type_safe:
  assumes "(body, n) \<in> {(sapio_alloc_v2, 2), (lock_time_body, 8), (trap_body, 8), (loop_body, 8),
      (fn_code TEST_ALLOCATOR, 1), (burn 1 @ fn_code TEST_ALLOCATOR, 2), (burn 8 @ [I32Const 1], 9), (fn_code inline_predicate, 9)}"
    and "length locs = n"
  shows "fst (vm_exec fuel v locs [] [] body) \<noteq> Trapped InvalidStack"
proof -
  have "valid_function n body"
    using assms(1)
    by (auto simp: valid_function_def sapio_alloc_v2_def lock_time_body_def trap_body_def loop_body_def TEST_ALLOCATOR_def
        burn_def burn_body_def inline_predicate_def compare_body_def)
  then have "typed_config (length locs) (length []) [] body"
    using assms(2) by (simp add: typed_config_def valid_function_def)
  then show ?thesis using exec_type_safe by blast
qed

theorem module_functions_type_safe_witness:
  "fst (vm_exec 100 (v2_module 100 lock_time_body) [0, 0, 1024, 4, 1028, 56, 0, 0] [] [] lock_time_body) \<noteq>
     Trapped InvalidStack"
  by (rule module_functions_type_safe [of _ 8]) simp_all

end
