(* ===== verification/Test_Harness.thy ===== *)
theory Test_Harness
  imports Ark_Signer
begin

text \<open>
  The vocabulary of the repository's own tests (\<open>mod tests\<close> of \<open>src/src/ark_signer.rs\<close>): a test is a
  computation on a signer that returns, panics (a failed assertion, an \<open>unwrap\<close> of an error) or never
  returns. \<open>triple P m Q\<close> is total correctness: from every state with \<open>P\<close> the computation returns, with
  \<open>Q\<close> of its value and state. A test passes when its triple holds; the rules for sequencing, assertions
  and loops are proved here once.

  Time, entropy and the random session identifiers of the \<open>k\<close>-th call are read from an oracle. The locale
  \<open>test_clock\<close> states what the tests rely on of it: the clock does not run backwards, a test is over before
  a session it created expires, and the generator does not repeat an identifier.
\<close>

section \<open>Data\<close>

datatype ('a, 's) run = Returned 'a 's | Panicked | Diverged

type_synonym ('s, 'a) test = "'s \<Rightarrow> ('a, 's) run"

record test_oracle =
  or_now :: "nat \<Rightarrow> nat"
  or_seed :: "nat \<Rightarrow> bytes"
  or_session :: "nat \<Rightarrow> nat \<Rightarrow> hash"

record test_state =
  ts_signer :: ark_signer
  ts_calls :: nat

section \<open>Operations\<close>

definition test_return :: "'a \<Rightarrow> ('s, 'a) test" where
  "test_return x s = Returned x s"

definition test_bind :: "('s, 'a) test \<Rightarrow> ('a \<Rightarrow> ('s, 'b) test) \<Rightarrow> ('s, 'b) test" where
  "test_bind m f s = (case m s of Returned x s' \<Rightarrow> f x s' | Panicked \<Rightarrow> Panicked | Diverged \<Rightarrow> Diverged)"

text \<open>\<open>assert!\<close>, \<open>unwrap\<close> and \<open>unwrap_err\<close> (or \<open>expect_err\<close>).\<close>

definition assert_that :: "bool \<Rightarrow> ('s, unit) test" where
  "assert_that b s = (if b then Returned () s else Panicked)"

fun unwrap :: "('e, 'a) res \<Rightarrow> ('s, 'a) test" where
  "unwrap (Ok x) s = Returned x s"
| "unwrap (Err e) s = Panicked"
| "unwrap Panic s = Panicked"

fun unwrap_err :: "('e, 'a) res \<Rightarrow> ('s, 'e) test" where
  "unwrap_err (Err e) s = Returned e s"
| "unwrap_err (Ok x) s = Panicked"
| "unwrap_err Panic s = Panicked"

definition observe :: "('s \<Rightarrow> 'a) \<Rightarrow> ('s, 'a) test" where
  "observe f s = Returned (f s) s"

text \<open>A \<open>for\<close> loop, and a loop that collects what its body returns.\<close>

fun for_each :: "'a list \<Rightarrow> ('a \<Rightarrow> ('s, unit) test) \<Rightarrow> ('s, unit) test" where
  "for_each [] body = test_return ()"
| "for_each (x # xs) body = test_bind (body x) (\<lambda>_. for_each xs body)"

fun collect_each :: "'a list \<Rightarrow> ('a \<Rightarrow> ('s, 'b) test) \<Rightarrow> ('s, 'b list) test" where
  "collect_each [] body = test_return []"
| "collect_each (x # xs) body = test_bind (body x) (\<lambda>y. test_bind (collect_each xs body) (\<lambda>ys. test_return (y # ys)))"

text \<open>\<open>str::contains\<close> and the display of an error; a typed error displays through its crate, whose text
  no test looks at.\<close>

fun contains :: "string \<Rightarrow> string \<Rightarrow> bool" where
  "contains [] pat \<longleftrightarrow> pat = []"
| "contains (c # cs) pat \<longleftrightarrow> prefix pat (c # cs) \<or> contains cs pat"

fun error_text :: "error \<Rightarrow> string" where
  "error_text (Msg m) = m"
| "error_text (Program e) = []"

subsection \<open>Calls of the signer\<close>

definition call_prepare ::
  "('m, 'i) signer_env \<Rightarrow> test_oracle \<Rightarrow> prepare_request \<Rightarrow> (test_state, prepare_response result) test" where
  "call_prepare env orc request s =
     (let k = ts_calls s in
      case prepare env (ts_signer s) (or_now orc k) (or_seed orc k) (\<lambda>i. Some (or_session orc k i)) request of
        None \<Rightarrow> Diverged
      | Some (Panic, _) \<Rightarrow> Panicked
      | Some (r, sg) \<Rightarrow> Returned r \<lparr>ts_signer = sg, ts_calls = Suc k\<rparr>)"

definition call_finish ::
  "('m, 'i) signer_env \<Rightarrow> test_oracle \<Rightarrow> finish_request \<Rightarrow> (test_state, finish_response result) test" where
  "call_finish env orc request s =
     (case finish env (ts_signer s) (or_now orc (ts_calls s)) request of
        (Panic, _) \<Rightarrow> Panicked
      | (r, sg) \<Rightarrow> Returned r \<lparr>ts_signer = sg, ts_calls = Suc (ts_calls s)\<rparr>)"

definition call_cancel ::
  "('m, 'i) signer_env \<Rightarrow> cancel_request \<Rightarrow> (test_state, unit result) test" where
  "call_cancel env request s =
     (case cancel env (ts_signer s) request of
        (Panic, _) \<Rightarrow> Panicked
      | (r, sg) \<Rightarrow> Returned r \<lparr>ts_signer = sg, ts_calls = Suc (ts_calls s)\<rparr>)"

text \<open>\<open>Nonce::new\<close> on the side of a wallet.\<close>

definition new_nonce ::
  "('m, 'i) signer_env \<Rightarrow> test_oracle \<Rightarrow> intent \<Rightarrow> pubkey \<Rightarrow> (test_state, nonce) test" where
  "new_nonce env orc intn public s =
     (case nonce_new (env_ark env) (or_seed orc (ts_calls s)) intn public of
        Ok nonce \<Rightarrow> Returned nonce (s\<lparr>ts_calls := Suc (ts_calls s)\<rparr>)
      | _ \<Rightarrow> Panicked)"

text \<open>A test that starts with a signer of its own.\<close>

definition with_signer :: "ark_signer result \<Rightarrow> (test_state, 'a) test \<Rightarrow> (unit, 'a) test" where
  "with_signer new body s =
     (case new of
        Ok sg \<Rightarrow> (case body \<lparr>ts_signer = sg, ts_calls = 0\<rparr> of
          Returned x _ \<Rightarrow> Returned x s | Panicked \<Rightarrow> Panicked | Diverged \<Rightarrow> Diverged)
      | _ \<Rightarrow> Panicked)"

section \<open>Specification\<close>

definition triple :: "('s \<Rightarrow> bool) \<Rightarrow> ('s, 'a) test \<Rightarrow> ('a \<Rightarrow> 's \<Rightarrow> bool) \<Rightarrow> bool" where
  "triple P m Q \<longleftrightarrow> (\<forall>s. P s \<longrightarrow> (\<exists>x s'. m s = Returned x s' \<and> Q x s'))"

text \<open>A test that needs no state passes.\<close>

definition test_passes :: "(unit, unit) test \<Rightarrow> bool" where
  "test_passes m \<longleftrightarrow> m () = Returned () ()"

text \<open>A state of a test: the signer with table \<open>t\<close> after \<open>k\<close> calls.\<close>

abbreviation at :: "ark_signer \<Rightarrow> (hash, pending) table \<Rightarrow> nat \<Rightarrow> test_state" where
  "at sg t k \<equiv> \<lparr>ts_signer = sg\<lparr>as_pending := t\<rparr>, ts_calls = k\<rparr>"

text \<open>What an admitted prepare answers and stores.\<close>

definition reserved :: "('m, 'i) signer_env \<Rightarrow> test_oracle \<Rightarrow> nat \<Rightarrow> nonce \<Rightarrow> prepare_response" where
  "reserved env orc k nonce =
     \<lparr>ps_protocol = SIGNING_PROTOCOL (env_deploy env), ps_session = or_session orc k 0,
      ps_program_nonce = hex_encode (env_ark env)
        (member_nonce_serialize (env_ark env) (nonce_public (env_ark env) nonce))\<rparr>"

definition new_pending ::
  "('m, 'i) signer_env \<Rightarrow> test_oracle \<Rightarrow> nat \<Rightarrow> intent \<times> member_nonce \<times> program_instance \<Rightarrow> nonce \<Rightarrow> pending" where
  "new_pending env orc k checked nonce =
     \<lparr>pd_program_id = instance_id (env_ark env) (snd (snd checked)), pd_intent = fst checked,
      pd_user_nonce = fst (snd checked), pd_nonce = nonce,
      pd_expires = or_now orc k + duration_from_secs SESSION_LIFETIME_SECS\<rparr>"

definition wallet :: "pending \<Rightarrow> pubkey" where
  "wallet p = fst (in_members (pd_intent p))"

section \<open>Lemmas\<close>

subsection \<open>Rules for triples\<close>

named_theorems triple_rules \<open>weakest preconditions of the test commands\<close>

lemma tripleD: "triple P m Q \<Longrightarrow> P s \<Longrightarrow> \<exists>x s'. m s = Returned x s' \<and> Q x s'"
  by (auto simp: triple_def)

lemma run_bind [simp]: "m s = Returned x s' \<Longrightarrow> test_bind m f s = f x s'"
  by (simp add: test_bind_def)

lemma bind_return [simp]: "test_bind m test_return = m"
  by (rule ext) (simp add: test_bind_def test_return_def split: run.splits)

lemma triple_conseq:
  "triple P m Q \<Longrightarrow> (\<And>s. P' s \<Longrightarrow> P s) \<Longrightarrow> (\<And>x s. Q x s \<Longrightarrow> Q' x s) \<Longrightarrow> triple P' m Q'"
  by (fastforce simp: triple_def)

lemma triple_pre: "triple P m Q \<Longrightarrow> (\<And>s. P' s \<Longrightarrow> P s) \<Longrightarrow> triple P' m Q"
  by (rule triple_conseq)

lemma triple_bind:
  assumes "triple P m R" and "\<And>x. triple (R x) (f x) Q"
  shows "triple P (test_bind m f) Q"
  unfolding triple_def
proof (intro allI impI)
  fix s
  assume "P s"
  with assms(1) obtain x s' where "m s = Returned x s'" "R x s'" by (auto simp: triple_def)
  with assms(2) [of x] show "\<exists>y t. test_bind m f s = Returned y t \<and> Q y t" by (simp add: triple_def)
qed

lemma triple_return [triple_rules]: "triple (Q x) (test_return x) Q"
  by (simp add: triple_def test_return_def)

lemma triple_assert [triple_rules]: "triple (\<lambda>s. b \<and> Q () s) (assert_that b) Q"
  by (simp add: triple_def assert_that_def)

lemma triple_observe [triple_rules]: "triple (\<lambda>s. Q (f s) s) (observe f) Q"
  by (simp add: triple_def observe_def)

lemma triple_unwrap [triple_rules]: "triple (\<lambda>s. \<exists>x. r = Ok x \<and> Q x s) (unwrap r) Q"
  by (auto simp: triple_def)

lemma triple_unwrap_err [triple_rules]: "triple (\<lambda>s. \<exists>e. r = Err e \<and> Q e s) (unwrap_err r) Q"
  by (auto simp: triple_def)

lemma triple_pure: "(b \<Longrightarrow> triple P m Q) \<Longrightarrow> triple (\<lambda>s. P s \<and> b) m Q"
  by (auto simp: triple_def)

lemma triple_assert_then: "b \<Longrightarrow> triple P (f ()) Q \<Longrightarrow> triple P (test_bind (assert_that b) f) Q"
  by (simp add: triple_def assert_that_def)

lemma triple_unwrap_then: "r = Ok x \<Longrightarrow> triple P (f x) Q \<Longrightarrow> triple P (test_bind (unwrap r) f) Q"
  by (simp add: triple_def)

lemma triple_discard: "triple P m (\<lambda>_. Q) \<Longrightarrow> triple P (test_bind m (\<lambda>_. test_return x)) (\<lambda>_. Q)"
  by (fastforce simp: triple_def test_return_def)

lemma triple_unwrap_of:
  "triple P m (\<lambda>r s. Q s \<and> (\<exists>x. r = Ok x \<and> R x)) \<Longrightarrow> triple P (test_bind m unwrap) (\<lambda>x s. Q s \<and> R x)"
  by (fastforce simp: triple_def)

lemma triple_unwrap_err_of:
  "triple P m (\<lambda>r s. Q s \<and> (\<exists>e. r = Err e)) \<Longrightarrow> triple P (test_bind m unwrap_err) (\<lambda>_. Q)"
  by (fastforce simp: triple_def)

lemma triple_trivial: "triple P (test_return x) (\<lambda>_ _. True)"
  by (simp add: triple_def test_return_def)

text \<open>Loops: an invariant indexed by the number of rounds done.\<close>

lemma triple_for_each:
  assumes "\<And>i. i < length xs \<Longrightarrow> triple (I i) (body (xs ! i)) (\<lambda>_. I (Suc i))"
  shows "triple (I 0) (for_each xs body) (\<lambda>_. I (length xs))"
  using assms
proof (induction xs arbitrary: I)
  case Nil
  then show ?case by (simp add: triple_def test_return_def)
next
  case (Cons x xs)
  have "triple (I (Suc 0)) (for_each xs body) (\<lambda>_. I (Suc (length xs)))"
    by (rule Cons.IH [of "\<lambda>i. I (Suc i)"]) (use Cons.prems [of "Suc _"] in simp)
  with Cons.prems [of 0] show ?case by (auto intro: triple_bind)
qed

lemma triple_for_all:
  assumes "\<And>x. x \<in> set xs \<Longrightarrow> triple P (body x) (\<lambda>_. P)"
  shows "triple P (for_each xs body) (\<lambda>_. P)"
  by (rule triple_for_each) (simp add: assms)

lemma triple_collect_each:
  assumes "\<And>i ys. i < length xs \<Longrightarrow> length ys = i \<Longrightarrow>
    triple (I ys) (body (xs ! i)) (\<lambda>y. I (ys @ [y]))"
  shows "triple (I []) (collect_each xs body) (\<lambda>ys s. length ys = length xs \<and> I ys s)"
proof -
  have "triple (I zs) (collect_each xs body) (\<lambda>ys s. length ys = length xs \<and> I (zs @ ys) s)"
    if "\<And>i ys. i < length xs \<Longrightarrow> length ys = length zs + i \<Longrightarrow> triple (I ys) (body (xs ! i)) (\<lambda>y. I (ys @ [y]))"
    for zs
    using that
  proof (induction xs arbitrary: zs)
    case Nil
    then show ?case by (simp add: triple_def test_return_def)
  next
    case (Cons x xs)
    have "triple (I (zs @ [y])) (collect_each xs body)
        (\<lambda>ys s. length ys = length xs \<and> I ((zs @ [y]) @ ys) s)" for y
      by (rule Cons.IH) (use Cons.prems [of "Suc _"] in simp)
    then have "triple (I (zs @ [y])) (test_bind (collect_each xs body) (\<lambda>ys. test_return (y # ys)))
        (\<lambda>ys s. length ys = length (x # xs) \<and> I (zs @ ys) s)" for y
      by (fastforce simp: triple_def test_return_def)
    from triple_bind [OF _ this] Cons.prems [of 0 zs] show ?case by simp
  qed
  from this [of "[]"] assms show ?thesis by simp
qed

lemma with_signer_passes:
  assumes "new = Ok sg" and "triple (\<lambda>s. s = \<lparr>ts_signer = sg, ts_calls = 0\<rparr>) body Q"
  shows "test_passes (with_signer new body)"
  using tripleD [OF assms(2)] assms(1) by (auto simp: test_passes_def with_signer_def)

subsection \<open>Calls at a known time\<close>

lemma tbl_insert_fresh: "map_of t k = None \<Longrightarrow> tbl_insert k v t = t @ [(k, v)]"
  unfolding tbl_insert_def by (induction t) auto

lemma tbl_retain_all: "list_all (\<lambda>e. P (snd e)) t \<Longrightarrow> tbl_retain P t = t"
  by (auto simp: tbl_retain_def list_all_iff filter_id_conv)

lemma reserved_sel [simp]:
  "ps_protocol (reserved env orc k nonce) = SIGNING_PROTOCOL (env_deploy env)"
  "ps_session (reserved env orc k nonce) = or_session orc k 0"
  "ps_program_nonce (reserved env orc k nonce) = hex_encode (env_ark env)
     (member_nonce_serialize (env_ark env) (nonce_public (env_ark env) nonce))"
  by (simp_all add: reserved_def)

lemma new_pending_sel [simp]:
  "pd_intent (new_pending env orc k checked nonce) = fst checked"
  "pd_user_nonce (new_pending env orc k checked nonce) = fst (snd checked)"
  "pd_nonce (new_pending env orc k checked nonce) = nonce"
  "pd_program_id (new_pending env orc k checked nonce) = instance_id (env_ark env) (snd (snd checked))"
  "pd_expires (new_pending env orc k checked nonce) = or_now orc k + duration_from_secs SESSION_LIFETIME_SECS"
  by (simp_all add: new_pending_def)

lemma call_cancel_known:
  assumes "\<not> as_poisoned sg" "map_of t sid \<noteq> None"
  shows "call_cancel env \<lparr>cq_protocol = SIGNING_PROTOCOL (env_deploy env), cq_session = sid\<rparr> (at sg t k) =
    Returned (Ok ()) (at sg (tbl_remove sid t) (Suc k))"
  using assms by (auto simp: call_cancel_def cancel_def)

lemma tbl_remove_subset: "set (tbl_remove sid t) \<subseteq> set t"
  by (auto simp: tbl_remove_def AList.delete_eq)

lemma tbl_remove_length: "length (tbl_remove sid t) \<le> length t"
  by (simp add: tbl_remove_def AList.delete_eq)

locale test_clock =
  fixes orc :: test_oracle
  assumes now_mono: "i \<le> j \<Longrightarrow> or_now orc i \<le> or_now orc j"
    and now_short: "or_now orc j < or_now orc 0 + duration_from_secs SESSION_LIFETIME_SECS"
    and now_started: "duration_from_secs 1 \<le> or_now orc 0"
    and session_eq: "or_session orc i a = or_session orc j b \<longleftrightarrow> i = j \<and> a = b"
begin

definition young :: "(hash, pending) table \<Rightarrow> bool" where
  "young t \<longleftrightarrow> list_all (\<lambda>e. \<forall>k. or_now orc k < pd_expires (snd e)) t"

definition known :: "(hash, pending) table \<Rightarrow> nat \<Rightarrow> bool" where
  "known t k \<longleftrightarrow> list_all (\<lambda>e. \<exists>j i. j < k \<and> fst e = or_session orc j i) t"

lemma young_simps [simp]: "young []" "young (t @ [e]) \<longleftrightarrow> young t \<and> (\<forall>k. or_now orc k < pd_expires (snd e))"
  by (auto simp: young_def)

lemma known_simps [simp]: "known [] k" "known (t @ [(or_session orc k i, p)]) (Suc k) \<longleftrightarrow> known t (Suc k)"
  by (auto simp: known_def)

lemma known_later: "known t k \<Longrightarrow> k \<le> k' \<Longrightarrow> known t k'"
  unfolding known_def by (force simp: list_all_iff)

lemma known_fresh: "known t k \<Longrightarrow> map_of t (or_session orc k i) = None"
  by (force simp: known_def list_all_iff map_of_eq_None_iff session_eq)

lemma young_subset: "set t' \<subseteq> set t \<Longrightarrow> young t \<Longrightarrow> young t'"
  by (auto simp: young_def list_all_iff)

lemma known_subset: "set t' \<subseteq> set t \<Longrightarrow> known t k \<Longrightarrow> known t' k"
  unfolding known_def list_all_iff by blast

lemmas young_remove = young_subset [OF tbl_remove_subset]
lemmas known_remove = known_subset [OF tbl_remove_subset]

lemma new_pending_young: "or_now orc j < or_now orc k + duration_from_secs SESSION_LIFETIME_SECS"
  using now_short [of j] now_mono [of 0 k] by linarith

lemma retain_young: "young t \<Longrightarrow> tbl_retain (\<lambda>p. or_now orc k < pd_expires p) t = t"
  by (rule tbl_retain_all) (auto simp: young_def list_all_iff)

text \<open>The states of a test over one signer, with a condition on the table of sessions.\<close>

definition holding :: "ark_signer \<Rightarrow> ((hash, pending) table \<Rightarrow> bool) \<Rightarrow> test_state \<Rightarrow> bool" where
  "holding sg \<Phi> s \<longleftrightarrow> \<not> as_poisoned sg \<and> (\<exists>t k. s = at sg t k \<and> young t \<and> known t k \<and> \<Phi> t)"

lemma holding_at [simp]: "holding sg \<Phi> (at sg t k) \<longleftrightarrow> \<not> as_poisoned sg \<and> young t \<and> known t k \<and> \<Phi> t"
proof -
  have "sg\<lparr>as_pending := t\<rparr> = sg\<lparr>as_pending := t'\<rparr> \<longleftrightarrow> t = t'" for t'
    by (metis ark_signer.select_convs(4) ark_signer.surjective ark_signer.update_convs(4))
  then show ?thesis by (auto simp: holding_def)
qed

lemma holdingE:
  assumes "holding sg \<Phi> s"
  obtains t k where "s = at sg t k" "\<not> as_poisoned sg" "young t" "known t k" "\<Phi> t"
  using assms by (auto simp: holding_def)

lemma holding_later: "holding sg \<Phi> s \<Longrightarrow> \<exists>t k. s = at sg t k \<and> holding sg \<Phi> (at sg t (Suc k))"
  by (metis holdingE holding_at known_later lessI less_imp_le)

lemma holding_start: "\<not> as_poisoned sg \<Longrightarrow> as_pending sg = [] \<Longrightarrow> \<Phi> [] \<Longrightarrow> holding sg \<Phi> \<lparr>ts_signer = sg, ts_calls = 0\<rparr>"
  using holding_at [of sg \<Phi> "[]" 0] by (cases sg) simp

lemma holding_mono: "holding sg \<Phi> s \<Longrightarrow> (\<And>t. \<Phi> t \<Longrightarrow> \<Psi> t) \<Longrightarrow> holding sg \<Psi> s"
  by (auto simp: holding_def)

text \<open>A request of wallet \<open>u\<close> that passes the gate of the signer.\<close>

definition admissible :: "('m, 'i) signer_env \<Rightarrow> ark_signer \<Rightarrow> prepare_request \<Rightarrow> pubkey \<Rightarrow> bool" where
  "admissible env sg rq u \<longleftrightarrow> (\<exists>checked. check_prepare env sg rq = Ok checked \<and>
     fst (in_members (fst checked)) = u \<and>
     (\<forall>seed. \<exists>nonce. nonce_new (env_ark env) seed (fst checked) (snd (in_members (fst checked))) = Ok nonce))"

text \<open>Expired sessions are dropped first; \<open>rest\<close> is what remains.\<close>

lemma prepare_admitted_pruning:
  assumes "check_prepare env sg rq = Ok checked" "\<not> as_poisoned sg"
    and rest: "tbl_retain (\<lambda>p. or_now orc k < pd_expires p) t = rest" "known rest k"
    and "length rest < MAX_PENDING_SESSIONS"
    and "tbl_count (\<lambda>p. wallet p = fst (in_members (fst checked))) rest < MAX_SESSIONS_PER_USER"
    and "nonce_new (env_ark env) (or_seed orc k) (fst checked) (snd (in_members (fst checked))) = Ok nonce"
  shows "call_prepare env orc rq (at sg t k) = Returned (Ok (reserved env orc k nonce))
    (at sg (rest @ [(or_session orc k 0, new_pending env orc k checked nonce)]) (Suc k))"
  using assms
  by (cases checked)
    (simp add: call_prepare_def prepare_def check_prepare_static [of "sg\<lparr>as_pending := t\<rparr>" sg] reserve_def Let_def
      pick_session_first known_fresh tbl_insert_fresh tbl_count_length reserved_def new_pending_def wallet_def)

lemmas prepare_admitted = prepare_admitted_pruning [OF _ _ retain_young]

lemma prepare_refused:
  assumes "check_prepare env sg rq = Err e"
  shows "call_prepare env orc rq (at sg t k) = Returned (Err e) (at sg t (Suc k))"
  using assms by (simp add: call_prepare_def prepare_def check_prepare_static [of "sg\<lparr>as_pending := t\<rparr>" sg])

lemma prepare_full:
  assumes "check_prepare env sg rq = Ok checked" "\<not> as_poisoned sg" "young t" "MAX_PENDING_SESSIONS \<le> length t"
  shows "call_prepare env orc rq (at sg t k) =
    Returned (Err (Msg ''signer session capacity exceeded'')) (at sg t (Suc k))"
  using assms
  by (cases checked)
    (simp add: call_prepare_def prepare_def check_prepare_static [of "sg\<lparr>as_pending := t\<rparr>" sg] reserve_def Let_def
      retain_young tbl_count_length)

lemma prepare_capped:
  assumes "check_prepare env sg rq = Ok checked" "\<not> as_poisoned sg" "young t" "length t < MAX_PENDING_SESSIONS"
    and "MAX_SESSIONS_PER_USER \<le> tbl_count (\<lambda>p. wallet p = fst (in_members (fst checked))) t"
  shows "call_prepare env orc rq (at sg t k) =
    Returned (Err (Msg ''per-wallet session capacity exceeded'')) (at sg t (Suc k))"
  using assms
  by (cases checked)
    (simp add: call_prepare_def prepare_def check_prepare_static [of "sg\<lparr>as_pending := t\<rparr>" sg] reserve_def Let_def
      retain_young tbl_count_length wallet_def)

text \<open>The same facts as rules for \<open>triple\<close>.\<close>

lemma triple_admitted:
  assumes "admissible env sg rq u"
  shows "triple (holding sg (\<lambda>t. length t < MAX_PENDING_SESSIONS \<and>
      tbl_count (\<lambda>p. wallet p = u) t < MAX_SESSIONS_PER_USER \<and>
      (\<forall>sid p. map_of t sid = None \<longrightarrow> wallet p = u \<longrightarrow> \<Phi> sid (t @ [(sid, p)]))))
    (test_bind (call_prepare env orc rq) unwrap) (\<lambda>r. holding sg (\<Phi> (ps_session r)))"
  unfolding triple_def
proof (intro allI impI)
  fix s
  assume "holding sg (\<lambda>t. length t < MAX_PENDING_SESSIONS \<and>
      tbl_count (\<lambda>p. wallet p = u) t < MAX_SESSIONS_PER_USER \<and>
      (\<forall>sid p. map_of t sid = None \<longrightarrow> wallet p = u \<longrightarrow> \<Phi> sid (t @ [(sid, p)]))) s"
  then obtain t k where s: "s = at sg t k" and t: "\<not> as_poisoned sg" "young t" "known t k"
      "length t < MAX_PENDING_SESSIONS" "tbl_count (\<lambda>p. wallet p = u) t < MAX_SESSIONS_PER_USER"
    and \<Phi>: "\<And>sid p. map_of t sid = None \<Longrightarrow> wallet p = u \<Longrightarrow> \<Phi> sid (t @ [(sid, p)])"
    by (auto elim: holdingE)
  from assms obtain checked nonce where c: "check_prepare env sg rq = Ok checked"
      "fst (in_members (fst checked)) = u"
      "nonce_new (env_ark env) (or_seed orc k) (fst checked) (snd (in_members (fst checked))) = Ok nonce"
    unfolding admissible_def by blast
  let ?p = "new_pending env orc k checked nonce"
  have "call_prepare env orc rq s = Returned (Ok (reserved env orc k nonce))
      (at sg (t @ [(or_session orc k 0, ?p)]) (Suc k))"
    unfolding s by (rule prepare_admitted) (use t c in simp_all)
  moreover have "\<Phi> (or_session orc k 0) (t @ [(or_session orc k 0, ?p)])"
    by (rule \<Phi>) (use t c in \<open>simp_all add: known_fresh wallet_def\<close>)
  then have "holding sg (\<Phi> (or_session orc k 0)) (at sg (t @ [(or_session orc k 0, ?p)]) (Suc k))"
    using t new_pending_young by (auto intro: known_later)
  ultimately show "\<exists>x s'. test_bind (call_prepare env orc rq) unwrap s = Returned x s' \<and>
      holding sg (\<Phi> (ps_session x)) s'"
    by (simp add: reserved_def)
qed

lemma triple_capped:
  assumes "admissible env sg rq u"
  shows "triple (holding sg (\<lambda>t. length t < MAX_PENDING_SESSIONS \<and>
      MAX_SESSIONS_PER_USER \<le> tbl_count (\<lambda>p. wallet p = u) t \<and> \<Phi> t))
    (test_bind (call_prepare env orc rq) unwrap_err)
    (\<lambda>e s. e = Msg ''per-wallet session capacity exceeded'' \<and> holding sg \<Phi> s)"
  using assms
  by (fastforce simp: triple_def admissible_def prepare_capped elim!: holdingE intro: known_later)

lemma triple_full:
  assumes "admissible env sg rq u"
  shows "triple (holding sg (\<lambda>t. MAX_PENDING_SESSIONS \<le> length t \<and> \<Phi> t))
    (test_bind (call_prepare env orc rq) unwrap_err)
    (\<lambda>e s. e = Msg ''signer session capacity exceeded'' \<and> holding sg \<Phi> s)"
  using assms
  by (fastforce simp: triple_def admissible_def prepare_full elim!: holdingE intro: known_later)

lemma triple_refused:
  assumes "check_prepare env sg rq = Err e"
  shows "triple (holding sg \<Phi>) (test_bind (call_prepare env orc rq) unwrap_err) (\<lambda>e' s. e' = e \<and> holding sg \<Phi> s)"
  using assms by (fastforce simp: triple_def prepare_refused elim!: holdingE intro: known_later)

lemma triple_cancel:
  "triple (holding sg (\<lambda>t. map_of t sid \<noteq> None \<and> \<Phi> (tbl_remove sid t)))
    (test_bind (call_cancel env \<lparr>cq_protocol = SIGNING_PROTOCOL (env_deploy env), cq_session = sid\<rparr>) unwrap)
    (\<lambda>_. holding sg \<Phi>)"
  by (fastforce simp: triple_def call_cancel_known elim!: holdingE intro: known_later young_remove known_remove)

end

section \<open>A sample oracle\<close>

definition sample_test_oracle :: test_oracle where
  "sample_test_oracle = \<lparr>or_now = (\<lambda>k. duration_from_secs 1 + min k 100), or_seed = (\<lambda>k. replicate k 6),
     or_session = (\<lambda>k i. replicate k 0 @ 1 # replicate i 0)\<rparr>"

interpretation sample_clock: test_clock sample_test_oracle
proof
  show "or_session sample_test_oracle i a = or_session sample_test_oracle j b \<longleftrightarrow> i = j \<and> a = b" for i a j b
  proof
    assume "or_session sample_test_oracle i a = or_session sample_test_oracle j b"
    then have e: "replicate i (0 :: byte) @ 1 # replicate a 0 = replicate j 0 @ 1 # replicate b 0"
      by (simp add: sample_test_oracle_def)
    then have "length (takeWhile (\<lambda>x. x = 0) (replicate i (0 :: byte) @ 1 # replicate a 0)) =
        length (takeWhile (\<lambda>x. x = 0) (replicate j (0 :: byte) @ 1 # replicate b 0))"
      by simp
    then have "i = j" by (simp add: takeWhile_append)
    with arg_cong [OF e, of length] show "i = j \<and> a = b" by simp
  qed simp
qed (simp_all add: sample_test_oracle_def duration_from_secs_def SESSION_LIFETIME_SECS_def)

end
