(* ===== verification/Key_Tests.thy ===== *)
theory Key_Tests
  imports Keys Test_Harness
begin

text \<open>
  The tests of \<open>src/src/keys.rs\<close>: the first valid counter of the NUMS search, the separation of key material by
  every setting, and the refusal of ambiguous or unsupported key identifiers.

  What the tests call beside the code is the record \<open>key_test_lib\<close>: the parsers of the Bitcoin crate, the
  compressed encoding of a curve point and the public half of an extended key. The locale \<open>key_lab\<close> states the
  calculation the first test cites (the candidate of counter 0 has no square root, counter 1 gives the vector)
  and that the derivation does not collide on the settings of the second.
\<close>

section \<open>Data\<close>

record key_test_lib =
  kt_parse_blockhash :: "string \<Rightarrow> hash result"
  kt_from_hex :: "string \<Rightarrow> bytes result"
  kt_compressed :: "bytes \<Rightarrow> bytes"
  kt_from_priv :: "xpriv \<Rightarrow> xpub"

section \<open>Operations\<close>

text \<open>\<open>str::replace\<close>: every occurrence, from the left; no test replaces the empty string.\<close>

function replace_all :: "string \<Rightarrow> string \<Rightarrow> string \<Rightarrow> string" where
  "replace_all s from into =
     (case s of
        [] \<Rightarrow> []
      | c # cs \<Rightarrow>
          if from \<noteq> [] \<and> prefix from s then into @ replace_all (drop (length from) s) from into
          else c # replace_all cs from into)"
  by pat_completeness auto

termination by (relation "measure (\<lambda>(s, from, into). length s)") (auto simp: less_Suc_eq_le neq_Nil_conv)

declare replace_all.simps [simp del]

definition test_settings :: "key_test_lib \<Rightarrow> settings result" where
  "test_settings kt =
     bind_res (kt_parse_blockhash kt ''000000000019d6689c085ae165831e934ff763ae46a2a6c172b3f1b60a8ce26f'') (\<lambda>h.
     Ok \<lparr>st_key_id = ''arn:aws:kms:us-east-1:123456789012:key/12345678-1234-1234-1234-123456789abc'',
         st_blockhash = h, st_network = Bitcoin\<rparr>)"

definition nums_retry_test :: "keys_lib \<Rightarrow> key_test_lib \<Rightarrow> (unit, unit) test" where
  "nums_retry_test lib kt =
     test_bind (unwrap (nums_point lib (replicate 32 1))) (\<lambda>point.
     test_bind (unwrap (kt_from_hex kt ''0214eda59eccad5da43a585f25b0b89e6980ec928d6937440e81142b1f9390cd7f'')) (\<lambda>expected.
     assert_that (kt_compressed kt point = expected)))"

text \<open>The public key a test compares.\<close>

definition derived_public :: "keys_lib \<Rightarrow> key_test_lib \<Rightarrow> settings \<Rightarrow> ('s, bytes) test" where
  "derived_public lib kt s =
     test_bind (unwrap (root_from_secret lib s (replicate 32 0x42))) (\<lambda>root. test_return (xpub_key (kt_from_priv kt root)))"

definition setting_changes :: "(settings \<Rightarrow> settings) list" where
  "setting_changes =
     [\<lambda>s. s\<lparr>st_key_id := replace_all (st_key_id s) ''us-east-1'' ''us-west-2''\<rparr>,
      \<lambda>s. s\<lparr>st_blockhash := replicate 32 1\<rparr>,
      \<lambda>s. s\<lparr>st_network := Testnet\<rparr>]"

definition setting_separation_test :: "keys_lib \<Rightarrow> key_test_lib \<Rightarrow> (unit, unit) test" where
  "setting_separation_test lib kt =
     test_bind (unwrap (test_settings kt)) (\<lambda>original.
     test_bind (derived_public lib kt original) (\<lambda>original_public.
     test_bind (for_each setting_changes (\<lambda>change.
       test_bind (derived_public lib kt (change original)) (\<lambda>derived. assert_that (derived \<noteq> original_public)))) (\<lambda>_.
     test_bind (derived_public lib kt (original\<lparr>st_network := Testnet\<rparr>)) (\<lambda>testnet.
     test_bind (derived_public lib kt (original\<lparr>st_network := Signet\<rparr>)) (\<lambda>signet.
     assert_that (testnet \<noteq> signet))))))"

definition invalid_identifiers :: "string \<Rightarrow> string list" where
  "invalid_identifiers valid =
     [replace_all valid ''arn:aws:'' ''arn:aws-cn:'',
      replace_all valid ''us-east-1'' ''us-gov-west-1'',
      replace_all valid ''us-east-1'' ''us-east-99'',
      replace_all valid ''123456789012:'' ''1234:'',
      replace_all valid ''key/'' ''alias/'',
      replace_all valid ''key/'' ''key/extra/'',
      replace_all valid ''789abc'' ''789ABC'',
      valid @ '':extra'',
      ''alias/sapio'',
      ''12345678-1234-1234-1234-123456789abc'']"

definition key_identifier_test :: "key_test_lib \<Rightarrow> (unit, unit) test" where
  "key_identifier_test kt =
     test_bind (unwrap (test_settings kt)) (\<lambda>valid.
     test_bind (unwrap (validate_settings valid)) (\<lambda>_.
     test_bind (for_each (invalid_identifiers (st_key_id valid)) (\<lambda>invalid.
       test_bind (unwrap_err (validate_settings (valid\<lparr>st_key_id := invalid\<rparr>))) (\<lambda>_. test_return ()))) (\<lambda>_.
     test_bind (unwrap_err (validate_settings (valid\<lparr>st_blockhash := ALL_ZEROS\<rparr>))) (\<lambda>_. test_return ()))))"

section \<open>Specification\<close>

text \<open>The settings of the separation test.\<close>

definition separated_settings :: "settings \<Rightarrow> settings set" where
  "separated_settings original =
     {original, original\<lparr>st_network := Signet\<rparr>} \<union> (\<lambda>change. change original) ` set setting_changes"

text \<open>The public key of some settings: HKDF output, master key, public half.\<close>

definition public_of :: "keys_lib \<Rightarrow> key_test_lib \<Rightarrow> settings \<Rightarrow> bytes \<Rightarrow> bool" where
  "public_of lib kt s public \<longleftrightarrow>
     (\<exists>seed root. hkdf_expand lib HKDF_SALT (replicate 32 0x42) (root_info s (word_of_nat (length (st_key_id s)))) 64 = Some seed \<and>
        xpriv_new_master lib (st_network s) seed = Ok root \<and> public = xpub_key (kt_from_priv kt root))"

locale key_lab =
  fixes lib :: keys_lib and kt :: key_test_lib
  assumes genesis: "\<exists>h. kt_parse_blockhash kt ''000000000019d6689c085ae165831e934ff763ae46a2a6c172b3f1b60a8ce26f'' = Ok h \<and>
      length h = 32 \<and> h \<noteq> ALL_ZEROS \<and> h \<noteq> replicate 32 1"
    and no_square_root: "point_from_sec1 lib (2 # sha256_of lib (NUMS_DOMAIN @ replicate 32 1 @ [0, 0, 0, 0])) = None"
    and vector: "\<exists>p bs. point_from_sec1 lib (2 # sha256_of lib (NUMS_DOMAIN @ replicate 32 1 @ [0, 0, 0, 1])) = Some p \<and>
      kt_from_hex kt ''0214eda59eccad5da43a585f25b0b89e6980ec928d6937440e81142b1f9390cd7f'' = Ok bs \<and> kt_compressed kt p = bs"
    and derivable: "test_settings kt = Ok original \<Longrightarrow> s \<in> separated_settings original \<Longrightarrow> \<exists>public. public_of lib kt s public"
    and no_collision: "test_settings kt = Ok original \<Longrightarrow> s \<in> separated_settings original \<Longrightarrow> s' \<in> separated_settings original \<Longrightarrow>
      public_of lib kt s public \<Longrightarrow> public_of lib kt s' public \<Longrightarrow>
      root_info s (word_of_nat (length (st_key_id s))) = root_info s' (word_of_nat (length (st_key_id s')))"

section \<open>Lemmas\<close>

lemma replace_all_simps:
  "replace_all [] from into = []"
  "from \<noteq> [] \<Longrightarrow> prefix from (c # cs) \<Longrightarrow> replace_all (c # cs) from into = into @ replace_all (drop (length from) (c # cs)) from into"
  "\<not> prefix from (c # cs) \<Longrightarrow> replace_all (c # cs) from into = c # replace_all cs from into"
  by (simp_all add: replace_all.simps [of "_ # _"] replace_all.simps [of "[]"])

text \<open>The identifiers of the tests.\<close>

abbreviation test_arn :: string where
  "test_arn \<equiv> ''arn:aws:kms:us-east-1:123456789012:key/12345678-1234-1234-1234-123456789abc''"

lemma invalid_identifiers_eq: "invalid_identifiers test_arn =
    [''arn:aws-cn:kms:us-east-1:123456789012:key/12345678-1234-1234-1234-123456789abc'',
     ''arn:aws:kms:us-gov-west-1:123456789012:key/12345678-1234-1234-1234-123456789abc'',
     ''arn:aws:kms:us-east-99:123456789012:key/12345678-1234-1234-1234-123456789abc'',
     ''arn:aws:kms:us-east-1:1234:key/12345678-1234-1234-1234-123456789abc'',
     ''arn:aws:kms:us-east-1:123456789012:alias/12345678-1234-1234-1234-123456789abc'',
     ''arn:aws:kms:us-east-1:123456789012:key/extra/12345678-1234-1234-1234-123456789abc'',
     ''arn:aws:kms:us-east-1:123456789012:key/12345678-1234-1234-1234-123456789ABC'',
     ''arn:aws:kms:us-east-1:123456789012:key/12345678-1234-1234-1234-123456789abc:extra'',
     ''alias/sapio'', ''12345678-1234-1234-1234-123456789abc'']"
  unfolding invalid_identifiers_def by (simp add: replace_all_simps)

lemma test_arn_region: "key_region test_arn = Ok ''us-east-1''"
  by (simp add: key_region_def list_get_def Let_def REGIONS_def ascii_digit_def valid_key_def lowercase_hex_def upt_rec)

lemma invalid_identifiers_refused: "list_all (\<lambda>k. \<exists>e. key_region k = Err e) (invalid_identifiers test_arn)"
  unfolding invalid_identifiers_eq list.pred_inject
  by (intro conjI; simp add: key_region_def list_get_def Let_def REGIONS_def ascii_digit_def valid_key_def lowercase_hex_def upt_rec)

context key_lab
begin

lemma test_settings_Ok:
  obtains h where "test_settings kt = Ok \<lparr>st_key_id = test_arn, st_blockhash = h, st_network = Bitcoin\<rparr>"
    "length h = 32" "h \<noteq> ALL_ZEROS" "h \<noteq> replicate 32 1"
  using genesis by (auto simp: test_settings_def)

lemma key_identifier_test_passes: "test_passes (key_identifier_test kt)"
proof -
  obtain h where h: "test_settings kt = Ok \<lparr>st_key_id = test_arn, st_blockhash = h, st_network = Bitcoin\<rparr>"
    "h \<noteq> ALL_ZEROS" by (rule test_settings_Ok)
  let ?valid = "\<lparr>st_key_id = test_arn, st_blockhash = h, st_network = Bitcoin\<rparr>"
  have "\<exists>e. validate_settings (?valid\<lparr>st_key_id := k\<rparr>) = Err e" if "k \<in> set (invalid_identifiers test_arn)" for k
    using invalid_identifiers_refused that by (auto simp: list_all_iff validate_settings_def)
  then have "triple (\<lambda>_. True) (test_bind (unwrap_err (validate_settings (?valid\<lparr>st_key_id := k\<rparr>))) (\<lambda>_. test_return ())) (\<lambda>_ _. True)"
    if "k \<in> set (invalid_identifiers test_arn)" for k
    using that by (fastforce simp: triple_def test_return_def)
  then have "triple (\<lambda>_. True) (for_each (invalid_identifiers test_arn) (\<lambda>invalid.
      test_bind (unwrap_err (validate_settings (?valid\<lparr>st_key_id := invalid\<rparr>))) (\<lambda>_. test_return ()))) (\<lambda>_ _. True)"
    by (rule triple_for_each [where I = "\<lambda>_ _. True"]) simp
  from tripleD [OF this, of "()"] show ?thesis
    using h by (auto simp: test_passes_def key_identifier_test_def validate_settings_def test_arn_region test_return_def)
qed

lemma nums_retry_test_passes: "test_passes (nums_retry_test lib kt)"
proof -
  obtain p bs where p: "point_from_sec1 lib (2 # sha256_of lib (NUMS_DOMAIN @ replicate 32 1 @ [0, 0, 0, 1])) = Some p"
    "kt_from_hex kt ''0214eda59eccad5da43a585f25b0b89e6980ec928d6937440e81142b1f9390cd7f'' = Ok bs" "kt_compressed kt p = bs"
    using vector by blast
  have "nums_candidate lib (replicate 32 1) 0 = None" "nums_candidate lib (replicate 32 1) 1 = Some p"
    using no_square_root p(1) by (simp_all add: nums_candidate_def u32_to_be_def)
  then have "nums_search (nums_candidate lib (replicate 32 1)) 0 = Some p"
    unfolding nums_search_least by (intro exI [of _ 1]) simp
  with p(2,3) show ?thesis
    by (simp add: test_passes_def nums_retry_test_def nums_point_def assert_that_def)
qed

text \<open>The settings of the separation test are distinct, and short enough for the length field.\<close>

lemma separated:
  assumes "test_settings kt = Ok original" "s \<in> separated_settings original"
  shows "length (st_key_id s) < 2 ^ 32" "length (st_blockhash s) = 32"
proof -
  obtain h where "original = \<lparr>st_key_id = test_arn, st_blockhash = h, st_network = Bitcoin\<rparr>" "length h = 32"
    by (rule test_settings_Ok) (use assms(1) in simp)
  with assms(2) show "length (st_key_id s) < 2 ^ 32" "length (st_blockhash s) = 32"
    by (auto simp: separated_settings_def setting_changes_def replace_all_simps)
qed

lemma derived_public_run:
  fixes t :: 's
  assumes "test_settings kt = Ok original" "s \<in> separated_settings original"
  obtains public where "derived_public lib kt s t = Returned public t" "public_of lib kt s public"
proof -
  obtain public where public: "public_of lib kt s public" using derivable [OF assms] by blast
  then obtain seed root where "hkdf_expand lib HKDF_SALT (replicate 32 0x42) (root_info s (word_of_nat (length (st_key_id s)))) 64 = Some seed"
    "xpriv_new_master lib (st_network s) seed = Ok root" "public = xpub_key (kt_from_priv kt root)"
    unfolding public_of_def by blast
  with separated(1) [OF assms] have "root_from_secret lib s (replicate 32 0x42) = Ok root" "public = xpub_key (kt_from_priv kt root)"
    by (simp_all add: root_from_secret_eq_Ok)
  with public that show ?thesis by (simp add: derived_public_def test_return_def)
qed

lemma public_differs:
  assumes "test_settings kt = Ok original" "s \<in> separated_settings original" "s' \<in> separated_settings original" "s \<noteq> s'"
    and "public_of lib kt s p" "public_of lib kt s' p'"
  shows "p \<noteq> p'"
proof
  assume "p = p'"
  with no_collision [OF assms(1-3)] assms(5,6)
  have "root_info s (word_of_nat (length (st_key_id s))) = root_info s' (word_of_nat (length (st_key_id s')))" by blast
  from root_info_inj [OF _ _ _ this] separated [OF assms(1,2)] separated [OF assms(1,3)] assms(4) show False by simp
qed

lemma setting_separation_test_passes: "test_passes (setting_separation_test lib kt)"
proof -
  obtain h where h: "test_settings kt = Ok \<lparr>st_key_id = test_arn, st_blockhash = h, st_network = Bitcoin\<rparr>"
    "h \<noteq> replicate 32 1" by (rule test_settings_Ok)
  let ?o = "\<lparr>st_key_id = test_arn, st_blockhash = h, st_network = Bitcoin\<rparr>"
  have changed: "change ?o \<noteq> ?o" if "change \<in> set setting_changes" for change
    using that h(2) by (auto simp: setting_changes_def replace_all_simps)
  have mem: "change ?o \<in> separated_settings ?o" if "change \<in> set setting_changes" for change
    using that by (auto simp: separated_settings_def)
  have nets: "?o\<lparr>st_network := Testnet\<rparr> \<in> separated_settings ?o" "?o\<lparr>st_network := Signet\<rparr> \<in> separated_settings ?o"
    "?o \<in> separated_settings ?o"
    by (auto simp: separated_settings_def setting_changes_def)
  obtain p where p: "derived_public lib kt ?o () = Returned p ()" "public_of lib kt ?o p"
    by (rule derived_public_run [OF h(1) nets(3), of "()"])
  have "triple (\<lambda>_ :: unit. True) (test_bind (derived_public lib kt (change ?o)) (\<lambda>derived. assert_that (derived \<noteq> p))) (\<lambda>_ _. True)"
    if c: "change \<in> set setting_changes" for change
    unfolding triple_def
  proof (intro allI impI)
    fix t :: unit
    obtain q where "derived_public lib kt (change ?o) t = Returned q t" "public_of lib kt (change ?o) q"
      by (rule derived_public_run [OF h(1) mem [OF c], of t])
    with public_differs [OF h(1) mem [OF c] nets(3) changed [OF c] _ p(2)]
    show "\<exists>x s'. test_bind (derived_public lib kt (change ?o)) (\<lambda>derived. assert_that (derived \<noteq> p)) t = Returned x s' \<and> True"
      by (simp add: assert_that_def)
  qed
  then have loop: "triple (\<lambda>_ :: unit. True) (for_each setting_changes (\<lambda>change. test_bind (derived_public lib kt (change ?o))
      (\<lambda>derived. assert_that (derived \<noteq> p)))) (\<lambda>_ _. True)"
    by (rule triple_for_each [where I = "\<lambda>_ _. True"]) simp
  obtain a b where ab: "derived_public lib kt (?o\<lparr>st_network := Testnet\<rparr>) () = Returned a ()" "public_of lib kt (?o\<lparr>st_network := Testnet\<rparr>) a"
    "derived_public lib kt (?o\<lparr>st_network := Signet\<rparr>) () = Returned b ()" "public_of lib kt (?o\<lparr>st_network := Signet\<rparr>) b"
    by (rule derived_public_run [OF h(1) nets(1), of "()"], rule derived_public_run [OF h(1) nets(2), of "()"])
  have "a \<noteq> b" by (rule public_differs [OF h(1) nets(1,2) _ ab(2,4)]) simp
  with tripleD [OF loop, of "()"] p(1) ab(1,3) show ?thesis
    by (auto simp: test_passes_def setting_separation_test_def h(1) assert_that_def)
qed

end

section \<open>A sample environment\<close>

definition sample_vector_lib :: keys_lib where
  "sample_vector_lib = sample_keys_lib\<lparr>sha256_of := (\<lambda>bs. bs),
     point_from_sec1 := (\<lambda>bs. if last bs = 0 then None else Some bs), hkdf_expand := (\<lambda>_ _ info _. Some info),
     xpriv_new_master := (\<lambda>n seed. Ok \<lparr>xprv_network = kind_of_network n, xprv_depth = 0, xprv_key = seed\<rparr>)\<rparr>"

definition sample_key_test_lib :: key_test_lib where
  "sample_key_test_lib =
     \<lparr>kt_parse_blockhash = (\<lambda>s. Ok (replicate 32 (word_of_nat (length s)))), kt_from_hex = (\<lambda>s. Ok [word_of_nat (length s)]),
      kt_compressed = (\<lambda>_. [66]),
      kt_from_priv = (\<lambda>x. \<lparr>xpub_network = xprv_network x, xpub_depth = xprv_depth x, xpub_key = 2 # xprv_key x\<rparr>)\<rparr>"

interpretation sample_key: key_lab sample_vector_lib sample_key_test_lib
  by unfold_locales (auto simp: sample_vector_lib_def sample_key_test_lib_def public_of_def ALL_ZEROS_def)

section \<open>Properties\<close>

text \<open>C19: the key tests of the repository pass in every environment with the documented behaviour: the NUMS search takes
  the point of counter 1 when counter 0 has no square root; changing the key, the block hash or the network
  changes the derived public key, also between two test networks; and validation accepts the sample identifier
  and refuses each of its ten ambiguous or unsupported variants and a zero block hash.\<close>

theorem key_tests_pass:
  assumes "key_lab lib kt"
  shows "test_passes (nums_retry_test lib kt) \<and> test_passes (setting_separation_test lib kt) \<and> test_passes (key_identifier_test kt)"
  by (intro conjI key_lab.nums_retry_test_passes [OF assms] key_lab.setting_separation_test_passes [OF assms]
      key_lab.key_identifier_test_passes [OF assms])

theorem key_tests_pass_witness:
  "test_passes (nums_retry_test sample_vector_lib sample_key_test_lib) \<and>
   test_passes (setting_separation_test sample_vector_lib sample_key_test_lib) \<and> test_passes (key_identifier_test sample_key_test_lib)"
  by (rule key_tests_pass [OF sample_key.key_lab_axioms])

end
