(* ===== verification/Ownership_Tests.thy ===== *)
theory Ownership_Tests
  imports Test_Harness
begin

text \<open>
  The ownership tests of \<open>src/src/ark_signer.rs\<close>: reservation limits per wallet and in total, and the
  native ownership policy at the signer (offboard destinations, round outputs, the status flag, malformed
  envelopes, programs that are not inline). The fixtures are the ones of the source; what they call of the
  Bitcoin, Ark and JSON crates is the record \<open>fixture_lib\<close>.

  The locale \<open>ownership_lab\<close> states the documented behaviour of that code: keys of distinct bytes differ,
  constructors keep what they are given, encodings round-trip, an ownership intent names the wallet and the
  program key, and a member of an intent can make a nonce. In every such environment each test passes.
\<close>

section \<open>Data\<close>

definition TEST_FUNDING :: u64 where "TEST_FUNDING = 10000"
definition EXIT_DELAY :: nat where "EXIT_DELAY = 12"

text \<open>The JSON objects of the tests: \<open>serde_json::json!\<close> with numbers, flags and lists of strings.\<close>

datatype json = JNum nat | JBool bool | JStrings "string list"

type_synonym json_object = "(string \<times> json) list"

record fixture_lib =
  fl_new_master :: "network \<Rightarrow> bytes \<Rightarrow> xpriv result"
  fl_keypair_from_slice :: "bytes \<Rightarrow> bytes result"
  fl_public_key :: "bytes \<Rightarrow> pubkey"
  fl_x_only :: "bytes \<Rightarrow> bytes"
  fl_new_p2tr :: "bytes \<Rightarrow> script"
  fl_program_new :: "hash \<Rightarrow> bytes \<Rightarrow> bytes \<Rightarrow> ark_program result"
  fl_for_wasm :: "bytes \<Rightarrow> hash"
  fl_group_key :: "program_key \<Rightarrow> pubkey result"
  fl_new_pubkey :: "pubkey \<Rightarrow> vtxo_policy"
  fl_check_block_delta :: "nat \<Rightarrow> nat result"
  fl_vtxo_new :: "outpoint \<Rightarrow> vtxo_policy \<Rightarrow> u64 \<Rightarrow> nat \<Rightarrow> pubkey \<Rightarrow> nat \<Rightarrow> outpoint \<Rightarrow> bytes"
  fl_vtxo_serialize :: "bytes \<Rightarrow> bytes"
  fl_vtxo_deserialize :: "bytes \<Rightarrow> bytes result"
  fl_vtxo_id :: "bytes \<Rightarrow> bytes"
  fl_fee_rate :: "nat \<Rightarrow> u64 option"
  fl_to_lower_hex :: "bytes \<Rightarrow> string"
  fl_serialize_hex :: "vtxo_policy \<Rightarrow> string"
  fl_json_to_vec :: "json_object \<Rightarrow> bytes result"
  TEMPLATEHASH :: bytes

section \<open>Operations\<close>

subsection \<open>Documents\<close>

text \<open>What the derived deserializer of \<open>Document\<close> makes of an object: unknown and repeated fields are
  refused, the version is required, every other field has a default.\<close>

definition document_fields :: "string list" where
  "document_fields = [''version'', ''offboard'', ''arkoor'', ''round'', ''delegated_round'', ''status'',
     ''lightning_receive'']"

fun strings_field :: "json option \<Rightarrow> string list option" where
  "strings_field None = Some []"
| "strings_field (Some (JStrings xs)) = Some xs"
| "strings_field (Some _) = None"

fun bool_field :: "json option \<Rightarrow> bool option" where
  "bool_field None = Some False"
| "bool_field (Some (JBool b)) = Some b"
| "bool_field (Some _) = None"

fun version_field :: "json option \<Rightarrow> byte option" where
  "version_field (Some (JNum n)) = (if n < 256 then Some (word_of_nat n) else None)"
| "version_field _ = None"

definition document_of_json :: "json_object \<Rightarrow> document option" where
  "document_of_json obj =
     (if \<not> distinct (map fst obj) \<or> \<not> list_all (\<lambda>f. f \<in> set document_fields) (map fst obj) then None
      else case (version_field (map_of obj ''version''), strings_field (map_of obj ''offboard''),
          strings_field (map_of obj ''arkoor''), strings_field (map_of obj ''round''),
          strings_field (map_of obj ''delegated_round''), bool_field (map_of obj ''status''),
          bool_field (map_of obj ''lightning_receive'')) of
        (Some v, Some off, Some ark, Some rnd, Some del, Some st, Some ln) \<Rightarrow>
          Some \<lparr>doc_version = v, doc_offboard = off, doc_arkoor = ark, doc_round = rnd,
            doc_delegated_round = del, doc_status = st, doc_lightning_receive = ln\<rparr>
      | _ \<Rightarrow> None)"

definition script_hex :: "fixture_lib \<Rightarrow> script \<Rightarrow> string" where
  "script_hex fl script = fl_to_lower_hex fl script"

definition policy_hex :: "fixture_lib \<Rightarrow> vtxo_policy \<Rightarrow> string" where
  "policy_hex fl policy = fl_serialize_hex fl policy"

subsection \<open>Fixtures\<close>

text \<open>A helper that unwraps a failure panics; its failures are the ones its caller unwraps.\<close>

definition test_root :: "fixture_lib \<Rightarrow> xpriv result" where
  "test_root fl = fl_new_master fl Regtest (replicate 32 0x41)"

definition test_key :: "fixture_lib \<Rightarrow> byte \<Rightarrow> bytes result" where
  "test_key fl b = fl_keypair_from_slice fl (replicate 32 b)"

definition test_signer :: "('m, 'i) signer_env \<Rightarrow> fixture_lib \<Rightarrow> ark_signer result" where
  "test_signer env fl = bind_res (test_root fl) (ark_signer_new env)"

definition test_recipient :: "fixture_lib \<Rightarrow> byte \<Rightarrow> script result" where
  "test_recipient fl b = bind_res (test_key fl b) (\<lambda>kp. Ok (fl_new_p2tr fl (fl_x_only fl kp)))"

definition payment_parameters :: "fixture_lib \<Rightarrow> u64 \<Rightarrow> bytes result" where
  "payment_parameters fl amount = bind_res (test_recipient fl 0x45) (\<lambda>destination.
     Ok (u64_to_le amount @ u32_to_le (word_of_nat (length destination)) @ destination))"

definition payment_program :: "('m, 'i) signer_env \<Rightarrow> fixture_lib \<Rightarrow> ark_program result" where
  "payment_program env fl = bind_res (payment_parameters fl 9000) (\<lambda>parameters.
     fl_program_new fl (fl_for_wasm fl (PAY_AT_LEAST_WASM (env_deploy env))) PAY_AT_LEAST_SELECTOR parameters)"

definition ownership_fixture ::
  "('m, 'i) signer_env \<Rightarrow> fixture_lib \<Rightarrow> ark_program \<Rightarrow> byte \<Rightarrow> (program_key \<times> bytes \<times> bytes) result" where
  "ownership_fixture env fl program user =
     bind_res (test_key fl user) (\<lambda>user_key.
     bind_res (test_root fl) (\<lambda>root.
     let program_key = \<lparr>pk_program = program, pk_root = xpub_from_priv (env_ark env) root,
           pk_user_pubkey = fl_public_key fl user_key\<rparr>;
         point = \<lparr>op_txid = replicate 32 user, op_vout = 0\<rparr> in
     bind_res (fl_group_key fl program_key) (\<lambda>owner.
     bind_res (test_key fl 0x43) (\<lambda>server.
     bind_res (fl_check_block_delta fl EXIT_DELAY) (\<lambda>delta.
     let bare = fl_vtxo_new fl point (fl_new_pubkey fl owner) TEST_FUNDING 500 (fl_public_key fl server) delta point in
     bind_res (fl_vtxo_deserialize fl (fl_vtxo_serialize fl bare)) (\<lambda>input.
     Ok (program_key, input, user_key)))))))"

definition ownership_prepare ::
  "('m, 'i) signer_env \<Rightarrow> fixture_lib \<Rightarrow> test_oracle \<Rightarrow> program_key \<Rightarrow> bytes \<Rightarrow> ownership_proof \<Rightarrow> bytes \<Rightarrow>
     (test_state, prepare_request) test" where
  "ownership_prepare env fl orc program_key input proof user_key =
     (let action = Ownership \<lparr>ow_input = input, ow_proof = proof\<rparr> in
      test_bind (unwrap (action_intent (env_ark env) action program_key)) (\<lambda>intn.
      test_bind (new_nonce env orc intn (fl_public_key fl user_key)) (\<lambda>nonce.
      test_return \<lparr>pq_protocol = SIGNING_PROTOCOL (env_deploy env), pq_key = program_key, pq_action = action,
        pq_user_nonce = hex_encode (env_ark env)
          (member_nonce_serialize (env_ark env) (nonce_public (env_ark env) nonce))\<rparr>)))"

definition ownership_request_for ::
  "('m, 'i) signer_env \<Rightarrow> fixture_lib \<Rightarrow> test_oracle \<Rightarrow> byte \<Rightarrow> (test_state, prepare_request) test" where
  "ownership_request_for env fl orc user =
     test_bind (unwrap (bind_res (payment_program env fl) (\<lambda>program. ownership_fixture env fl program user)))
       (\<lambda>(program_key, input, user_key). ownership_prepare env fl orc program_key input Status user_key)"

definition policy_program ::
  "('m, 'i) signer_env \<Rightarrow> fixture_lib \<Rightarrow> json_object \<Rightarrow> bytes \<Rightarrow> ark_program result" where
  "policy_program env fl doc inner =
     bind_res (fl_json_to_vec fl doc) (\<lambda>bs.
     bind_res (encode bs inner) (\<lambda>parameters.
     fl_program_new fl (evaluator_id_wasm (env_deploy env)) (TEMPLATEHASH fl) parameters))"

definition offboard_proof :: "fixture_lib \<Rightarrow> bytes \<Rightarrow> script \<Rightarrow> ownership_proof result" where
  "offboard_proof fl input script =
     bind_res (ok_or (Msg ''valid fee rate'') (fl_fee_rate fl 1)) (\<lambda>rate.
     Ok (Offboard \<lparr>or_script_pubkey = script, or_net_amount = TEST_FUNDING, or_deduct_fees = False,
       or_fee_rate = rate\<rparr> [fl_vtxo_id fl input]))"

subsection \<open>Reservation limits\<close>

definition per_wallet_session_cap_test ::
  "('m, 'i) signer_env \<Rightarrow> fixture_lib \<Rightarrow> test_oracle \<Rightarrow> (unit, unit) test" where
  "per_wallet_session_cap_test env fl orc =
     with_signer (test_signer env fl)
      (test_bind (ownership_request_for env fl orc 0x42) (\<lambda>alice.
       test_bind (ownership_request_for env fl orc 0x46) (\<lambda>bob.
       test_bind (assert_that (pk_user_pubkey (pq_key alice) \<noteq> pk_user_pubkey (pq_key bob))) (\<lambda>_.
       test_bind (collect_each [0..<MAX_SESSIONS_PER_USER] (\<lambda>_.
           test_bind (test_bind (call_prepare env orc alice) unwrap) (\<lambda>r. test_return (ps_session r)))) (\<lambda>sessions.
       test_bind (test_bind (call_prepare env orc alice) unwrap_err) (\<lambda>e.
       test_bind (assert_that (contains (error_text e) ''per-wallet session capacity exceeded'')) (\<lambda>_.
       test_bind (test_bind (call_prepare env orc bob) unwrap) (\<lambda>_.
       test_bind (test_bind (call_cancel env
           \<lparr>cq_protocol = SIGNING_PROTOCOL (env_deploy env), cq_session = last sessions\<rparr>) unwrap) (\<lambda>_.
       test_bind (test_bind (call_prepare env orc alice) unwrap) (\<lambda>_.
       test_return ()))))))))))"

definition global_capacity_test ::
  "('m, 'i) signer_env \<Rightarrow> fixture_lib \<Rightarrow> test_oracle \<Rightarrow> (unit, unit) test" where
  "global_capacity_test env fl orc =
     with_signer (test_signer env fl)
      (test_bind (for_each (map word_of_nat [0x60..<0x80]) (\<lambda>b.
           test_bind (ownership_request_for env fl orc b) (\<lambda>request.
           for_each [0..<MAX_SESSIONS_PER_USER] (\<lambda>_.
             test_bind (test_bind (call_prepare env orc request) unwrap) (\<lambda>_. test_return ()))))) (\<lambda>_.
       test_bind (ownership_request_for env fl orc 0x80) (\<lambda>request.
       test_bind (test_bind (call_prepare env orc request) unwrap_err) (\<lambda>e.
       assert_that (contains (error_text e) ''signer session capacity exceeded'')))))"

subsection \<open>The native policy at the signer\<close>

text \<open>The common shape: the first proof, if there is one, is admitted; the second is refused with a
  message that contains the given words.\<close>

definition policy_verdicts ::
  "('m, 'i) signer_env \<Rightarrow> fixture_lib \<Rightarrow> test_oracle \<Rightarrow> ark_program result \<Rightarrow>
     (bytes \<Rightarrow> ownership_proof result list) \<Rightarrow> (bytes \<Rightarrow> ownership_proof result) \<Rightarrow> string \<Rightarrow> (unit, unit) test" where
  "policy_verdicts env fl orc program accepted rejected words =
     with_signer (test_signer env fl)
      (test_bind (unwrap (bind_res program (\<lambda>p. ownership_fixture env fl p 0x42)))
        (\<lambda>(program_key, input, user_key).
       test_bind (for_each (accepted input) (\<lambda>proof.
           test_bind (unwrap proof) (\<lambda>pf.
           test_bind (ownership_prepare env fl orc program_key input pf user_key) (\<lambda>request.
           test_bind (test_bind (call_prepare env orc request) unwrap) (\<lambda>_. test_return ()))))) (\<lambda>_.
       test_bind (unwrap (rejected input)) (\<lambda>pf.
       test_bind (ownership_prepare env fl orc program_key input pf user_key) (\<lambda>request.
       test_bind (test_bind (call_prepare env orc request) unwrap_err) (\<lambda>e.
       assert_that (contains (error_text e) words)))))))"

definition offboard_document :: "fixture_lib \<Rightarrow> script \<Rightarrow> json_object" where
  "offboard_document fl allow =
     [(''version'', JNum 1), (''offboard'', JStrings [script_hex fl allow]), (''arkoor'', JStrings []),
      (''round'', JStrings []), (''delegated_round'', JStrings []), (''status'', JBool True),
      (''lightning_receive'', JBool False)]"

definition native_policy_offboard_test ::
  "('m, 'i) signer_env \<Rightarrow> fixture_lib \<Rightarrow> test_oracle \<Rightarrow> (unit, unit) test" where
  "native_policy_offboard_test env fl orc =
     test_bind (unwrap (test_recipient fl 0x45)) (\<lambda>allow.
     test_bind (unwrap (test_recipient fl 0x46)) (\<lambda>deny.
     policy_verdicts env fl orc (policy_program env fl (offboard_document fl allow) [])
       (\<lambda>input. [offboard_proof fl input allow]) (\<lambda>input. offboard_proof fl input deny)
       ''offboard destination''))"

definition delegated_document :: "fixture_lib \<Rightarrow> vtxo_policy \<Rightarrow> json_object" where
  "delegated_document fl allow =
     [(''version'', JNum 1), (''delegated_round'', JStrings [policy_hex fl allow]), (''status'', JBool True)]"

definition native_policy_delegated_test ::
  "('m, 'i) signer_env \<Rightarrow> fixture_lib \<Rightarrow> test_oracle \<Rightarrow> (unit, unit) test" where
  "native_policy_delegated_test env fl orc =
     test_bind (unwrap (test_key fl 0x47)) (\<lambda>k.
     test_bind (unwrap (test_key fl 0x48)) (\<lambda>k'.
     let allow = fl_new_pubkey fl (fl_public_key fl k); deny = fl_new_pubkey fl (fl_public_key fl k');
         proof = (\<lambda>policy. Ok (DelegatedRound [\<lparr>vr_amount = 1000, vr_policy = policy\<rparr>])) in
     policy_verdicts env fl orc (policy_program env fl (delegated_document fl allow) [])
       (\<lambda>_. [proof allow]) (\<lambda>_. proof deny) ''delegated-round output policy''))"

definition round_document :: "fixture_lib \<Rightarrow> vtxo_policy \<Rightarrow> json_object" where
  "round_document fl allow =
     [(''version'', JNum 1), (''round'', JStrings [policy_hex fl allow]), (''status'', JBool True)]"

definition native_policy_round_test ::
  "('m, 'i) signer_env \<Rightarrow> fixture_lib \<Rightarrow> test_oracle \<Rightarrow> (unit, unit) test" where
  "native_policy_round_test env fl orc =
     test_bind (unwrap (test_key fl 0x47)) (\<lambda>k.
     test_bind (unwrap (test_key fl 0x48)) (\<lambda>k'.
     test_bind (unwrap (test_key fl 0x49)) (\<lambda>cosigner.
     let allow = fl_new_pubkey fl (fl_public_key fl k); deny = fl_new_pubkey fl (fl_public_key fl k');
         proof = (\<lambda>policy. Ok (Round (replicate 32 0x55)
           [\<lparr>svr_vtxo = \<lparr>vr_amount = 1000, vr_policy = policy\<rparr>, svr_cosign_pubkey = fl_public_key fl cosigner,
             svr_nonces = []\<rparr>])) in
     policy_verdicts env fl orc (policy_program env fl (round_document fl allow) [])
       (\<lambda>_. [proof allow]) (\<lambda>_. proof deny) ''round output policy'')))"

definition no_status_document :: json_object where
  "no_status_document = [(''version'', JNum 1), (''status'', JBool False)]"

definition native_policy_status_test ::
  "('m, 'i) signer_env \<Rightarrow> fixture_lib \<Rightarrow> test_oracle \<Rightarrow> (unit, unit) test" where
  "native_policy_status_test env fl orc =
     policy_verdicts env fl orc (policy_program env fl no_status_document []) (\<lambda>_. []) (\<lambda>_. Ok Status)
       ''does not allow status''"

definition malformed_native_policy_test ::
  "('m, 'i) signer_env \<Rightarrow> fixture_lib \<Rightarrow> test_oracle \<Rightarrow> (unit, unit) test" where
  "malformed_native_policy_test env fl orc =
     policy_verdicts env fl orc
       (fl_program_new fl (evaluator_id_wasm (env_deploy env)) (TEMPLATEHASH fl) (MAGIC @ [1, 0]))
       (\<lambda>_. []) (\<lambda>_. Ok Status) ''native ownership policy''"

definition status_document :: json_object where
  "status_document = [(''version'', JNum 1), (''status'', JBool True)]"

definition native_policy_inline_test ::
  "('m, 'i) signer_env \<Rightarrow> fixture_lib \<Rightarrow> test_oracle \<Rightarrow> (unit, unit) test" where
  "native_policy_inline_test env fl orc =
     policy_verdicts env fl orc
       (bind_res (fl_json_to_vec fl status_document) (\<lambda>bs.
        bind_res (encode bs []) (\<lambda>parameters.
        fl_program_new fl (fl_for_wasm fl (PAY_AT_LEAST_WASM (env_deploy env))) PAY_AT_LEAST_SELECTOR parameters)))
       (\<lambda>_. []) (\<lambda>_. Ok Status) ''inline WASM''"

section \<open>Specification\<close>

text \<open>The documents of the tests.\<close>

definition test_documents :: "fixture_lib \<Rightarrow> json_object list" where
  "test_documents fl =
     (case (test_recipient fl 0x45, test_key fl 0x47) of
        (Ok allow, Ok k) \<Rightarrow>
          [offboard_document fl allow, delegated_document fl (fl_new_pubkey fl (fl_public_key fl k)),
           round_document fl (fl_new_pubkey fl (fl_public_key fl k)), no_status_document, status_document]
      | _ \<Rightarrow> [])"

text \<open>The verdict of the signer on an ownership proof of a program.\<close>

definition ownership_verdict ::
  "('m, 'i) signer_env \<Rightarrow> ark_program \<Rightarrow> ownership_proof \<Rightarrow> unit result" where
  "ownership_verdict env program pf =
     bind_res (parse (env_codec env) (ap_parameters program)) (\<lambda>policy.
     if policy \<noteq> None \<and> inline_wasm_version (env_spend env) (ap_evaluator program) = None
     then Err (Msg ''native ownership policy requires an inline WASM program'')
     else case policy of None \<Rightarrow> Ok () | Some p \<Rightarrow> enforce p pf)"

text \<open>What the deserializer makes of each document.\<close>

lemma decoded:
  "document_of_json (offboard_document fl allow) = Some \<lparr>doc_version = 1, doc_offboard = map (script_hex fl) [allow],
     doc_arkoor = [], doc_round = map (policy_hex fl) [], doc_delegated_round = map (policy_hex fl) [],
     doc_status = True, doc_lightning_receive = False\<rparr>"
  "document_of_json (delegated_document fl policy) = Some \<lparr>doc_version = 1, doc_offboard = map (script_hex fl) [],
     doc_arkoor = [], doc_round = map (policy_hex fl) [], doc_delegated_round = map (policy_hex fl) [policy],
     doc_status = True, doc_lightning_receive = False\<rparr>"
  "document_of_json (round_document fl policy) = Some \<lparr>doc_version = 1, doc_offboard = map (script_hex fl) [],
     doc_arkoor = [], doc_round = map (policy_hex fl) [policy], doc_delegated_round = map (policy_hex fl) [],
     doc_status = True, doc_lightning_receive = False\<rparr>"
  "document_of_json no_status_document = Some \<lparr>doc_version = 1, doc_offboard = map (script_hex fl) [],
     doc_arkoor = [], doc_round = map (policy_hex fl) [], doc_delegated_round = map (policy_hex fl) [],
     doc_status = False, doc_lightning_receive = False\<rparr>"
  "document_of_json status_document = Some \<lparr>doc_version = 1, doc_offboard = map (script_hex fl) [],
     doc_arkoor = [], doc_round = map (policy_hex fl) [], doc_delegated_round = map (policy_hex fl) [],
     doc_status = True, doc_lightning_receive = False\<rparr>"
  by (simp_all add: document_of_json_def document_fields_def offboard_document_def delegated_document_def
      round_document_def no_status_document_def status_document_def)

lemma payment_minimum: "u64_to_le 9000 = [0x28, 0x23, 0, 0, 0, 0, 0, 0]"
  by code_simp

locale ownership_lab = test_clock orc
  for orc :: test_oracle +
  fixes env :: "('m, 'i) signer_env" and fl :: fixture_lib
  assumes master: "\<exists>root. test_root fl = Ok root \<and> xprv_depth root = 0"
    and registry: "\<exists>es. evaluators (env_deploy env) = Ok es"
    and keypair: "0 < b \<Longrightarrow> b < 255 \<Longrightarrow> \<exists>kp. test_key fl b = Ok kp"
    and public_eq: "test_key fl a = Ok x \<Longrightarrow> test_key fl b = Ok y \<Longrightarrow> fl_public_key fl x = fl_public_key fl y \<longleftrightarrow> a = b"
    and recipient_eq: "test_recipient fl a = Ok x \<Longrightarrow> test_recipient fl b = Ok y \<Longrightarrow> x = y \<longleftrightarrow> a = b"
    and recipient_length: "test_recipient fl a = Ok x \<Longrightarrow> length x = 34"
    and policy_eq: "fl_new_pubkey fl x = fl_new_pubkey fl y \<longleftrightarrow> x = y"
    and program_new: "length p \<le> MAX_PROGRAM_BYTES \<Longrightarrow> length q \<le> MAX_PARAMETER_BYTES \<Longrightarrow>
      fl_program_new fl e p q = Ok \<lparr>ap_evaluator = e, ap_program = p, ap_parameters = q\<rparr>"
    and instance_new: "length p \<le> MAX_PROGRAM_BYTES \<Longrightarrow> length q \<le> MAX_PARAMETER_BYTES \<Longrightarrow>
      program_instance_new (env_ark env) e p q = Ok \<lparr>pr_evaluator = e, pr_program = p, pr_parameters = q\<rparr>"
    and same_id: "instance_id (env_ark env) \<lparr>pr_evaluator = e, pr_program = p, pr_parameters = q\<rparr> =
      ark_program_id (env_ark env) \<lparr>ap_evaluator = e, ap_program = p, ap_parameters = q\<rparr>"
    and for_wasm: "fl_for_wasm fl m = evaluator_id_for_wasm_version (env_deploy env) m V1"
    and inline: "inline_wasm_version (env_spend env) (evaluator_id_wasm (env_deploy env)) = Some V1"
      "inline_wasm_version (env_spend env)
         (evaluator_id_for_wasm_version (env_deploy env) (PAY_AT_LEAST_WASM (env_deploy env)) V1) = None"
    and template_size: "length (TEMPLATEHASH fl) \<le> MAX_PROGRAM_BYTES"
    and group_key: "test_root fl = Ok root \<Longrightarrow> test_key fl b = Ok kp \<Longrightarrow>
      pk_root key = xpub_from_priv (env_ark env) root \<Longrightarrow> pk_user_pubkey key = fl_public_key fl kp \<Longrightarrow>
      \<exists>g x. fl_group_key fl key = Ok g \<and> derive_public_key (env_ark env)
        \<lparr>pr_evaluator = ap_evaluator (pk_program key), pr_program = ap_program (pk_program key),
         pr_parameters = ap_parameters (pk_program key)\<rparr> (pk_root key) = Ok x"
    and block_delta: "\<exists>d. fl_check_block_delta fl EXIT_DELAY = Ok d"
    and vtxo_roundtrip: "fl_vtxo_deserialize fl (fl_vtxo_serialize fl v) = Ok v"
    and fee_rate: "\<exists>r. fl_fee_rate fl 1 = Some r"
    and hex: "script_from_hex (env_codec env) (fl_to_lower_hex fl script) = Ok script"
      "policy_from_hex (env_codec env) (fl_serialize_hex fl policy) = Ok policy"
    and json: "obj \<in> set (test_documents fl) \<Longrightarrow> \<exists>bs d. fl_json_to_vec fl obj = Ok bs \<and> document_of_json obj = Some d \<and>
      document_from_slice (env_codec env) bs = Ok d \<and> length bs \<le> 60000"
    and ownership_intent: "fl_group_key fl key = Ok g \<Longrightarrow>
      v = fl_vtxo_new fl point (fl_new_pubkey fl g) amount height server delta point \<Longrightarrow>
      (\<And>rq ids. pf = Offboard rq ids \<Longrightarrow> fl_vtxo_id fl v \<in> set ids) \<Longrightarrow>
      derive_public_key (env_ark env)
        \<lparr>pr_evaluator = ap_evaluator (pk_program key), pr_program = ap_program (pk_program key),
         pr_parameters = ap_parameters (pk_program key)\<rparr> (pk_root key) = Ok x \<Longrightarrow>
      \<exists>intn. action_intent (env_ark env) (Ownership \<lparr>ow_input = v, ow_proof = pf\<rparr>) key = Ok intn \<and>
        in_members intn = (pk_user_pubkey key, even_public_key (env_ark env) x) \<and>
        ownership_message (env_ark env) \<lparr>ow_input = v, ow_proof = pf\<rparr> key = Ok (in_message intn)"
    and member_nonce: "public \<in> {fst (in_members intn), snd (in_members intn)} \<Longrightarrow>
      \<exists>nonce. nonce_new (env_ark env) seed intn public = Ok nonce"
    and nonce_codec: "nonce_new (env_ark env) seed intn public = Ok nonce \<Longrightarrow>
      parse_nonce (env_ark env) (hex_encode (env_ark env)
        (member_nonce_serialize (env_ark env) (nonce_public (env_ark env) nonce))) =
        Ok (member_nonce_serialize (env_ark env) (nonce_public (env_ark env) nonce)) \<and>
      member_nonce_from_bytes (env_ark env) intn public
        (member_nonce_serialize (env_ark env) (nonce_public (env_ark env) nonce)) =
        Ok (nonce_public (env_ark env) nonce)"
begin

lemma recipient_Ok: "0 < b \<Longrightarrow> b < 255 \<Longrightarrow> \<exists>script. test_recipient fl b = Ok script"
  using keypair by (auto simp: test_recipient_def bind_res_eq_Ok)

lemma test_signer_Ok:
  obtains root sg where "test_root fl = Ok root" "test_signer env fl = Ok sg"
    "as_public_root sg = xpub_from_priv (env_ark env) root" "\<not> as_poisoned sg" "as_pending sg = []"
proof -
  from master registry obtain root es where "test_root fl = Ok root" "xprv_depth root = 0"
    "evaluators (env_deploy env) = Ok es" by blast
  with that show ?thesis by (auto simp: test_signer_def ark_signer_new_def)
qed

text \<open>A program of the tests: its parts are within the limits.\<close>

definition small :: "ark_program \<Rightarrow> bool" where
  "small program \<longleftrightarrow> length (ap_program program) \<le> MAX_PROGRAM_BYTES \<and>
     length (ap_parameters program) \<le> MAX_PARAMETER_BYTES"

lemma payment_program_Ok: "\<exists>program. payment_program env fl = Ok program \<and> small program \<and>
    ownership_verdict env program Status = Ok ()"
proof -
  obtain script where "test_recipient fl 0x45 = Ok script" using recipient_Ok [of "0x45"] by auto
  moreover from recipient_length [OF this]
  have "length (u64_to_le 9000 @ u32_to_le (word_of_nat (length script)) @ script) \<le> MAX_PARAMETER_BYTES"
    by (simp add: MAX_PARAMETER_BYTES_def byte_simps)
  moreover have "parse (env_codec env) (u64_to_le 9000 @ xs) = Ok None" for xs
    by (simp add: parse_None MAGIC_def str_bytes_def payment_minimum)
  moreover have "length PAY_AT_LEAST_SELECTOR \<le> MAX_PROGRAM_BYTES"
    by (simp add: PAY_AT_LEAST_SELECTOR_def str_bytes_def MAX_PROGRAM_BYTES_def)
  ultimately show ?thesis
    by (simp add: payment_program_def payment_parameters_def program_new small_def ownership_verdict_def)
qed

lemma ownership_fixture_Ok:
  assumes "0 < b" "b < 255" "test_root fl = Ok root"
  obtains key v kp where "ownership_fixture env fl program b = Ok (key, v, kp)"
proof -
  from keypair [OF assms(1,2)] obtain kp where kp: "test_key fl b = Ok kp" by blast
  let ?key = "\<lparr>pk_program = program, pk_root = xpub_from_priv (env_ark env) root, pk_user_pubkey = fl_public_key fl kp\<rparr>"
  from group_key [OF assms(3) kp, of ?key] obtain g where "fl_group_key fl ?key = Ok g" by auto
  moreover from keypair [of "0x43"] obtain server where "test_key fl 0x43 = Ok server" by auto
  moreover from block_delta obtain d where "fl_check_block_delta fl EXIT_DELAY = Ok d" by blast
  ultimately show ?thesis using that [of ?key _ kp] assms(3) kp
    by (fastforce simp: ownership_fixture_def vtxo_roundtrip Let_def)
qed

lemma ownership_fixtureD:
  assumes "ownership_fixture env fl program b = Ok (key, v, kp)" and "test_root fl = Ok root"
  shows "test_key fl b = Ok kp" "pk_program key = program" "pk_root key = xpub_from_priv (env_ark env) root"
    "pk_user_pubkey key = fl_public_key fl kp"
    "\<exists>g point amount height server delta. fl_group_key fl key = Ok g \<and>
      v = fl_vtxo_new fl point (fl_new_pubkey fl g) amount height server delta point"
  using assms by (auto simp: ownership_fixture_def bind_res_eq_Ok Let_def vtxo_roundtrip) blast

text \<open>A request of the tests is decided by the native policy alone.\<close>

lemma ownership_gate:
  assumes fx: "ownership_fixture env fl program b = Ok (key, v, kp)" "small program"
    and sg: "test_root fl = Ok root" "as_public_root sg = xpub_from_priv (env_ark env) root"
    and pf: "\<And>rq ids. pf = Offboard rq ids \<Longrightarrow> fl_vtxo_id fl v \<in> set ids"
  shows "triple (holding sg \<Phi>) (ownership_prepare env fl orc key v pf kp) (\<lambda>rq s. holding sg \<Phi> s \<and>
    pk_user_pubkey (pq_key rq) = fl_public_key fl kp \<and>
    (ownership_verdict env program pf = Ok () \<longrightarrow> admissible env sg rq (fl_public_key fl kp)) \<and>
    (\<forall>e. ownership_verdict env program pf = Err e \<longrightarrow> check_prepare env sg rq = Err e))"
  unfolding triple_def
proof (intro allI impI)
  fix s
  assume "holding sg \<Phi> s"
  then obtain t k where s: "s = at sg t k" and h: "holding sg \<Phi> (at sg t (Suc k))"
    using holding_later by blast
  note key = ownership_fixtureD [OF fx(1) sg(1)]
  from key(5) obtain g point amount height server delta where v: "fl_group_key fl key = Ok g"
      "v = fl_vtxo_new fl point (fl_new_pubkey fl g) amount height server delta point"
    by blast
  let ?inst = "\<lparr>pr_evaluator = ap_evaluator program, pr_program = ap_program program,
      pr_parameters = ap_parameters program\<rparr>"
  let ?lib = "env_ark env"
  let ?act = "Ownership \<lparr>ow_input = v, ow_proof = pf\<rparr>"
  from group_key [OF sg(1) key(1,3,4)] obtain x where x: "derive_public_key ?lib ?inst (pk_root key) = Ok x"
    by (auto simp: key(2))
  have "\<exists>intn. action_intent ?lib ?act key = Ok intn \<and>
      in_members intn = (pk_user_pubkey key, even_public_key ?lib x) \<and>
      ownership_message ?lib \<lparr>ow_input = v, ow_proof = pf\<rparr> key = Ok (in_message intn)"
    by (rule ownership_intent [OF v pf]) (use x key(2) in simp_all)
  then obtain intn where intn: "action_intent ?lib ?act key = Ok intn"
      "in_members intn = (pk_user_pubkey key, even_public_key ?lib x)"
      "ownership_message ?lib \<lparr>ow_input = v, ow_proof = pf\<rparr> key = Ok (in_message intn)"
    by blast
  obtain n where n: "nonce_new ?lib (or_seed orc k) intn (pk_user_pubkey key) = Ok n"
    using member_nonce [of "pk_user_pubkey key" intn] intn(2) by auto
  let ?rq = "\<lparr>pq_protocol = SIGNING_PROTOCOL (env_deploy env), pq_key = key, pq_action = ?act,
    pq_user_nonce = hex_encode ?lib (member_nonce_serialize ?lib (nonce_public ?lib n))\<rparr>"
  have run: "ownership_prepare env fl orc key v pf kp s = Returned ?rq (at sg t (Suc k))"
    by (simp add: ownership_prepare_def s intn(1) new_nonce_def n key(4) [symmetric] test_return_def)
  obtain e p q where prog: "program = \<lparr>ap_evaluator = e, ap_program = p, ap_parameters = q\<rparr>" by (cases program) simp
  have check: "check_prepare env sg ?rq =
      bind_res (ownership_verdict env program pf) (\<lambda>_. Ok (intn, nonce_public ?lib n, ?inst))"
  proof -
    have "check_action env (as_evaluators sg) key ?inst policy intn ?act =
        (case policy of None \<Rightarrow> Ok () | Some p \<Rightarrow> enforce p pf)" for policy
      by (cases policy; cases "enforce (the policy) pf") (simp_all add: check_action_def intn(3))
    with x fx(2) intn nonce_codec [OF n] show ?thesis
      by (cases "parse (env_codec env) q")
        (simp_all add: check_prepare_def Let_def sg(2) key(2,3) instance_new same_id prog small_def
          ownership_verdict_def)
  qed
  have "\<exists>nonce. nonce_new ?lib seed intn (snd (in_members intn)) = Ok nonce" for seed
    using member_nonce [of "snd (in_members intn)" intn] by simp
  with check intn(2) key(4) have "ownership_verdict env program pf = Ok () \<longrightarrow> admissible env sg ?rq (fl_public_key fl kp)"
    by (simp add: admissible_def)
  with run h check key(4) show "\<exists>x s'. ownership_prepare env fl orc key v pf kp s = Returned x s' \<and> holding sg \<Phi> s' \<and>
    pk_user_pubkey (pq_key x) = fl_public_key fl kp \<and>
    (ownership_verdict env program pf = Ok () \<longrightarrow> admissible env sg x (fl_public_key fl kp)) \<and>
    (\<forall>e. ownership_verdict env program pf = Err e \<longrightarrow> check_prepare env sg x = Err e)"
    by simp
qed

subsection \<open>Reservation limits\<close>

lemma triple_request_for:
  assumes "0 < b" "b < 255" and sg: "test_root fl = Ok root" "as_public_root sg = xpub_from_priv (env_ark env) root"
    and kp: "test_key fl b = Ok kp"
  shows "triple (holding sg \<Phi>) (ownership_request_for env fl orc b) (\<lambda>rq s. holding sg \<Phi> s \<and>
    pk_user_pubkey (pq_key rq) = fl_public_key fl kp \<and> admissible env sg rq (fl_public_key fl kp))"
proof -
  from payment_program_Ok obtain program where p: "payment_program env fl = Ok program" "small program"
    "ownership_verdict env program Status = Ok ()" by blast
  from ownership_fixture_Ok [OF assms(1,2) sg(1)] obtain key v kp' where
    fx: "ownership_fixture env fl program b = Ok (key, v, kp')" by blast
  from ownership_fixtureD(1) [OF fx sg(1)] kp have [simp]: "kp' = kp" by simp
  have "ownership_request_for env fl orc b = ownership_prepare env fl orc key v Status kp"
    by (rule ext) (simp add: ownership_request_for_def p fx)
  then show ?thesis
    using triple_conseq [OF ownership_gate [OF fx p(2) sg, where pf = Status and \<Phi> = \<Phi>]] p(3) by simp
qed

lemma count_all: "list_all (\<lambda>e. P (snd e)) t \<Longrightarrow> tbl_count P t = length t"
  by (induction t) (auto simp: tbl_count_def)

text \<open>The pool of one wallet: \<open>full_wallet u ss t\<close> says that the table holds the sessions \<open>ss\<close>, as many as the
  cap allows, all of \<open>u\<close>; \<open>joined\<close> adds one session of another wallet \<open>w\<close>.\<close>

definition full_wallet :: "pubkey \<Rightarrow> hash list \<Rightarrow> (hash, pending) table \<Rightarrow> bool" where
  "full_wallet u ss t \<longleftrightarrow> length t = MAX_SESSIONS_PER_USER \<and> distinct ss \<and> map fst t = ss \<and>
     list_all (\<lambda>e. wallet (snd e) = u) t"

definition joined :: "pubkey \<Rightarrow> pubkey \<Rightarrow> hash list \<Rightarrow> (hash, pending) table \<Rightarrow> bool" where
  "joined u w ss t \<longleftrightarrow> (\<exists>t' sid p. t = t' @ [(sid, p)] \<and> full_wallet u ss t' \<and> map_of t' sid = None \<and> wallet p = w)"

definition has_room :: "pubkey \<Rightarrow> (hash, pending) table \<Rightarrow> bool" where
  "has_room u t \<longleftrightarrow> length t \<le> Suc MAX_SESSIONS_PER_USER \<and> tbl_count (\<lambda>p. wallet p = u) t < MAX_SESSIONS_PER_USER"

lemmas cap_numbers = MAX_PENDING_SESSIONS_def MAX_SESSIONS_PER_USER_def

lemma triple_fill_wallet:
  assumes "admissible env sg rq u"
  shows "triple (holding sg (\<lambda>t. t = [])) (collect_each [0..<MAX_SESSIONS_PER_USER] (\<lambda>_.
      test_bind (test_bind (call_prepare env orc rq) unwrap) (\<lambda>r. test_return (ps_session r))))
    (\<lambda>ss. holding sg (full_wallet u ss))"
proof -
  let ?I = "\<lambda>ss t. length ss \<le> MAX_SESSIONS_PER_USER \<and> distinct ss \<and> map fst t = ss \<and>
    list_all (\<lambda>e. wallet (snd e) = u) t"
  have "triple (holding sg (?I ss)) (test_bind (call_prepare env orc rq) unwrap)
      (\<lambda>r. holding sg (?I (ss @ [ps_session r])))" if "length ss < MAX_SESSIONS_PER_USER" for ss
  proof (rule triple_pre [OF triple_admitted [OF assms]], erule holding_mono)
    fix t
    assume "?I ss t"
    moreover from this have "length t = length ss" by (metis length_map)
    ultimately show "length t < MAX_PENDING_SESSIONS \<and> tbl_count (\<lambda>p. wallet p = u) t < MAX_SESSIONS_PER_USER \<and>
        (\<forall>sid p. map_of t sid = None \<longrightarrow> wallet p = u \<longrightarrow> ?I (ss @ [sid]) (t @ [(sid, p)]))"
      using that by (auto simp: count_all cap_numbers map_of_eq_None_iff)
  qed
  then have "triple (holding sg (?I [])) (collect_each [0..<MAX_SESSIONS_PER_USER] (\<lambda>_.
      test_bind (test_bind (call_prepare env orc rq) unwrap) (\<lambda>r. test_return (ps_session r))))
      (\<lambda>ss s. length ss = length [0..<MAX_SESSIONS_PER_USER] \<and> holding sg (?I ss) s)"
    by (intro triple_collect_each triple_bind [OF _ triple_return]) auto
  then show ?thesis
    by (rule triple_conseq) (auto elim!: holding_mono simp: full_wallet_def)
qed

lemma triple_other_wallet:
  assumes "admissible env sg rq w" "u \<noteq> w"
  shows "triple (holding sg (full_wallet u ss)) (test_bind (call_prepare env orc rq) unwrap) (\<lambda>_. holding sg (joined u w ss))"
proof (rule triple_pre [OF triple_admitted [OF assms(1)]], erule holding_mono)
  fix t
  assume t: "full_wallet u ss t"
  then have "tbl_count (\<lambda>p. wallet p = w) t = 0"
    using assms(2) by (auto simp: full_wallet_def tbl_count_def list_all_iff filter_empty_conv)
  with t show "length t < MAX_PENDING_SESSIONS \<and> tbl_count (\<lambda>p. wallet p = w) t < MAX_SESSIONS_PER_USER \<and>
      (\<forall>sid p. map_of t sid = None \<longrightarrow> wallet p = w \<longrightarrow> joined u w ss (t @ [(sid, p)]))"
    by (auto simp: cap_numbers full_wallet_def joined_def)
qed

lemma count_last_removed:
  assumes "distinct (map fst t)" "list_all (\<lambda>e. wallet (snd e) = u) t" "t \<noteq> []" "wallet p \<noteq> u" "fst (last t) \<noteq> sid"
  shows "tbl_count (\<lambda>p. wallet p = u) (tbl_remove (fst (last t)) (t @ [(sid, p)])) < length t"
proof -
  obtain t' e where t: "t = t' @ [e]" using assms(3) by (cases t rule: rev_cases) auto
  have "tbl_remove (fst e) t' = t'"
    using assms(1) by (simp add: t tbl_remove_def delete_id)
  then have "tbl_remove (fst (last t)) (t @ [(sid, p)]) = t' @ [(sid, p)]"
    using assms(5) by (cases e) (simp add: t tbl_remove_def AList.delete_eq)
  with assms(2,4) show ?thesis
    by (simp add: t tbl_count_def le_imp_less_Suc)
qed

lemma release_frees:
  assumes "joined u w ss t" "u \<noteq> w"
  shows "map_of t (last ss) \<noteq> None \<and> has_room u (tbl_remove (last ss) t)"
proof -
  from assms(1) obtain t' sid p where t: "t = t' @ [(sid, p)]" "full_wallet u ss t'" "map_of t' sid = None" "wallet p = w"
    unfolding joined_def by blast
  then have ne: "t' \<noteq> []" by (auto simp: full_wallet_def cap_numbers)
  from ne t(2) have l: "last ss = fst (last t')" unfolding full_wallet_def by (metis last_map)
  moreover from ne t(3) have "fst (last t') \<noteq> sid" by (metis last_in_set map_of_eq_None_iff image_eqI)
  ultimately have "tbl_count (\<lambda>p. wallet p = u) (tbl_remove (last ss) t) < MAX_SESSIONS_PER_USER"
    using count_last_removed [of t' u p sid] t assms(2) ne unfolding full_wallet_def by (metis (no_types, lifting))
  moreover from ne have "map_of t (last ss) \<noteq> None"
    by (auto simp: l t(1) map_of_eq_None_iff map_add_def split: option.splits)
  ultimately show ?thesis
    using tbl_remove_length [of "last ss" t] t by (simp add: has_room_def full_wallet_def)
qed

lemma per_wallet_session_cap: "test_passes (per_wallet_session_cap_test env fl orc)"
proof -
  obtain root sg where sg: "test_root fl = Ok root" "test_signer env fl = Ok sg"
    "as_public_root sg = xpub_from_priv (env_ark env) root" "\<not> as_poisoned sg" "as_pending sg = []"
    by (rule test_signer_Ok)
  obtain ka kb where k: "test_key fl 0x42 = Ok ka" "test_key fl 0x46 = Ok kb"
    using keypair [of "0x42"] keypair [of "0x46"] by auto
  let ?a = "fl_public_key fl ka" and ?b = "fl_public_key fl kb"
  have ab: "?a \<noteq> ?b" using public_eq [OF k] by simp
  have capped: "triple (holding sg (full_wallet ?a ss)) (test_bind (call_prepare env orc rq) unwrap_err)
      (\<lambda>e s. holding sg (full_wallet ?a ss) s \<and> e = Msg ''per-wallet session capacity exceeded'')"
    if "admissible env sg rq ?a" for rq ss
    by (rule triple_conseq [OF triple_capped [OF that]])
      (auto elim!: holding_mono simp: count_all cap_numbers full_wallet_def)
  have again: "triple (holding sg (has_room ?a)) (test_bind (call_prepare env orc rq) unwrap) (\<lambda>_. holding sg (\<lambda>_. True))"
    if "admissible env sg rq ?a" for rq
    by (rule triple_pre [OF triple_admitted [OF that, where \<Phi> = "\<lambda>_ _. True"]], erule holding_mono)
      (simp add: cap_numbers has_room_def)
  have free: "triple (holding sg (joined ?a ?b ss)) (test_bind (call_cancel env
      \<lparr>cq_protocol = SIGNING_PROTOCOL (env_deploy env), cq_session = last ss\<rparr>) unwrap) (\<lambda>_. holding sg (has_room ?a))" for ss
    by (rule triple_pre [OF triple_cancel], erule holding_mono) (rule release_frees [OF _ ab])
  show ?thesis
    unfolding per_wallet_session_cap_test_def
    apply (rule with_signer_passes [OF sg(2)], rule triple_pre [where P = "holding sg (\<lambda>t. t = [])"])
     apply (rule triple_bind [OF triple_request_for [OF _ _ sg(1,3) k(1)]], simp, simp)
     apply (rule triple_pure, rule triple_bind [OF triple_request_for [OF _ _ sg(1,3) k(2)]], simp, simp)
     apply (rule triple_pure, rule triple_assert_then, simp add: ab)
     apply (rule triple_bind [OF triple_fill_wallet [where u = ?a]], simp)
     apply (rule triple_bind [OF capped], simp, rule triple_pure, rule triple_assert_then, simp)
     apply (rule triple_bind [OF triple_other_wallet [OF _ ab]], simp, rule triple_bind [OF free])
     apply (rule triple_bind [OF again triple_trivial], simp)
    apply (use holding_start [OF sg(4,5)] in simp)
    done
qed

text \<open>Filling the pool: the table holds the full share of \<open>m\<close> wallets, all in \<open>us\<close>, and \<open>n\<close> sessions of
  the wallet \<open>u\<close>.\<close>

definition pooled :: "pubkey set \<Rightarrow> nat \<Rightarrow> pubkey \<Rightarrow> nat \<Rightarrow> (hash, pending) table \<Rightarrow> bool" where
  "pooled us m u n t \<longleftrightarrow> length t = m * MAX_SESSIONS_PER_USER + n \<and> tbl_count (\<lambda>p. wallet p = u) t = n \<and>
     list_all (\<lambda>e. wallet (snd e) \<in> insert u us) t"

lemma triple_fill:
  assumes "admissible env sg rq u" "u \<notin> us" "m * MAX_SESSIONS_PER_USER < MAX_PENDING_SESSIONS"
  shows "triple (holding sg (pooled us m u 0)) (for_each [0..<MAX_SESSIONS_PER_USER] (\<lambda>_.
      test_bind (test_bind (call_prepare env orc rq) unwrap) (\<lambda>_. test_return ())))
    (\<lambda>_. holding sg (pooled us m u MAX_SESSIONS_PER_USER))"
proof -
  have "triple (holding sg (pooled us m u i)) (test_bind (call_prepare env orc rq) unwrap)
      (\<lambda>_. holding sg (pooled us m u (Suc i)))" if "i < MAX_SESSIONS_PER_USER" for i
  proof (rule triple_pre [OF triple_admitted [OF assms(1)]], erule holding_mono)
    fix t
    assume "pooled us m u i t"
    with that assms(3) show "length t < MAX_PENDING_SESSIONS \<and> tbl_count (\<lambda>p. wallet p = u) t < MAX_SESSIONS_PER_USER \<and>
        (\<forall>sid p. map_of t sid = None \<longrightarrow> wallet p = u \<longrightarrow> pooled us m u (Suc i) (t @ [(sid, p)]))"
      by (auto simp: pooled_def tbl_count_def cap_numbers)
  qed
  then have "triple (holding sg (pooled us m u 0)) (for_each [0..<MAX_SESSIONS_PER_USER] (\<lambda>_.
      test_bind (test_bind (call_prepare env orc rq) unwrap) (\<lambda>_. test_return ())))
      (\<lambda>_. holding sg (pooled us m u (length [0..<MAX_SESSIONS_PER_USER])))"
    by (intro triple_for_each [where I = "\<lambda>i. holding sg (pooled us m u i)"] triple_bind [OF _ triple_return]) auto
  then show ?thesis by simp
qed

text \<open>The wallets of the capacity test.\<close>

definition wallet_byte :: "nat \<Rightarrow> byte" where
  "wallet_byte i = word_of_nat (0x60 + i)"

lemma wallet_byte:
  assumes "i \<le> 0x20"
  shows "0 < wallet_byte i" "wallet_byte i < 255" "unat (wallet_byte i) = 0x60 + i"
proof -
  have "(0x60 + i) mod 256 = 0x60 + i" using assms by simp
  then show u: "unat (wallet_byte i) = 0x60 + i" unfolding wallet_byte_def by (simp only: unat_of_nat) simp
  show "0 < wallet_byte i" "wallet_byte i < 255" using assms by (simp_all add: word_less_nat_alt u)
qed

lemma global_capacity: "test_passes (global_capacity_test env fl orc)"
proof -
  obtain root sg where sg: "test_root fl = Ok root" "test_signer env fl = Ok sg"
    "as_public_root sg = xpub_from_priv (env_ark env) root" "\<not> as_poisoned sg" "as_pending sg = []"
    by (rule test_signer_Ok)
  have "\<forall>i. \<exists>kp. i \<le> 0x20 \<longrightarrow> test_key fl (wallet_byte i) = Ok kp"
    using keypair wallet_byte by blast
  then obtain key where key: "i \<le> 0x20 \<Longrightarrow> test_key fl (wallet_byte i) = Ok (key i)" for i by metis
  let ?u = "\<lambda>i. fl_public_key fl (key i)"
  let ?us = "\<lambda>i. ?u ` {..<i}"
  have u_new: "?u i \<notin> ?us i" if "i \<le> 0x20" for i
  proof
    assume "?u i \<in> ?us i"
    then obtain j where j: "j < i" "?u i = ?u j" by blast
    with public_eq [OF key key, of i j] that have "wallet_byte i = wallet_byte j" by simp
    with wallet_byte(3) [of i] wallet_byte(3) [of j] j(1) that show False by simp
  qed
  let ?I = "\<lambda>i t. length t = i * MAX_SESSIONS_PER_USER \<and> list_all (\<lambda>e. wallet (snd e) \<in> ?us i) t"
  let ?fill = "\<lambda>request. for_each [0..<MAX_SESSIONS_PER_USER] (\<lambda>_.
        test_bind (test_bind (call_prepare env orc request) unwrap) (\<lambda>_. test_return ()))"
  have fill: "triple (holding sg (?I i)) (?fill rq) (\<lambda>_. holding sg (?I (Suc i)))"
    if "i < 0x20" "admissible env sg rq (?u i)" for i rq
  proof (rule triple_conseq [OF triple_fill [OF that(2) u_new, of i]])
    show "i \<le> 0x20" "i * MAX_SESSIONS_PER_USER < MAX_PENDING_SESSIONS"
      using that(1) by (simp_all add: cap_numbers)
    show "holding sg (?I i) s \<Longrightarrow> holding sg (pooled (?us i) i (?u i) 0) s" for s
      using u_new [of i] that(1)
      by (erule_tac holding_mono) (auto simp: pooled_def tbl_count_def list_all_iff filter_empty_conv)
    show "holding sg (pooled (?us i) i (?u i) MAX_SESSIONS_PER_USER) s \<Longrightarrow> holding sg (?I (Suc i)) s" for s
      by (erule holding_mono) (auto simp: pooled_def list_all_iff less_Suc_eq)
  qed
  have round: "triple (holding sg (?I i)) (test_bind (ownership_request_for env fl orc (wallet_byte i)) ?fill)
      (\<lambda>_. holding sg (?I (Suc i)))" if "i < 0x20" for i
  proof (rule triple_bind [OF triple_request_for [OF wallet_byte(1,2) sg(1,3) key]])
    show "triple (\<lambda>s. holding sg (?I i) s \<and> pk_user_pubkey (pq_key rq) = ?u i \<and> admissible env sg rq (?u i)) (?fill rq)
        (\<lambda>_. holding sg (?I (Suc i)))" for rq
      by (rule triple_pure) (use fill that in blast)
  qed (use that in simp_all)
  have bytes: "map word_of_nat [0x60..<0x80] = map wallet_byte [0..<0x20]"
    by (rule nth_equalityI) (simp_all add: wallet_byte_def del: upt_rec_numeral)
  have loop: "triple (holding sg (\<lambda>t. t = [])) (for_each (map word_of_nat [0x60..<0x80])
      (\<lambda>b. test_bind (ownership_request_for env fl orc b) ?fill)) (\<lambda>_. holding sg (?I 0x20))"
    unfolding bytes
    by (rule triple_conseq [OF triple_for_each [where I = "\<lambda>i. holding sg (?I i)"]])
      ((simp add: round del: upt_rec_numeral mult_Suc; fail) | (erule holding_mono, simp))+
  show ?thesis
    unfolding global_capacity_test_def
  proof (rule with_signer_passes [OF sg(2)], rule triple_pre, rule triple_bind [OF loop])
    let ?message = "''signer session capacity exceeded''"
    have full: "triple (holding sg (?I 0x20)) (test_bind (call_prepare env orc rq) unwrap_err)
        (\<lambda>e s. holding sg (\<lambda>_. True) s \<and> e = Msg ?message)" if "admissible env sg rq u" for rq u
      by (rule triple_conseq [OF triple_full [OF that, where \<Phi> = "\<lambda>_. True"]])
        (auto elim!: holding_mono simp: cap_numbers)
    show "triple (holding sg (?I 0x20)) (test_bind (ownership_request_for env fl orc 0x80) (\<lambda>request.
        test_bind (test_bind (call_prepare env orc request) unwrap_err) (\<lambda>e.
        assert_that (contains (error_text e) ?message)))) (\<lambda>_ _. True)"
    proof (rule triple_bind)
      show "triple (holding sg (?I 0x20)) (ownership_request_for env fl orc 0x80) (\<lambda>rq s. holding sg (?I 0x20) s \<and>
          pk_user_pubkey (pq_key rq) = ?u 0x20 \<and> admissible env sg rq (?u 0x20))"
        by (rule triple_request_for [OF _ _ sg(1,3)]) (use key [of "0x20"] in \<open>simp_all add: wallet_byte_def\<close>)
      show "triple (\<lambda>s. holding sg (?I 0x20) s \<and> pk_user_pubkey (pq_key rq) = ?u 0x20 \<and> admissible env sg rq (?u 0x20))
          (test_bind (test_bind (call_prepare env orc rq) unwrap_err) (\<lambda>e.
            assert_that (contains (error_text e) ?message))) (\<lambda>_ _. True)" for rq
        by (rule triple_pure, rule triple_bind [OF full], erule conjunct2)
          (auto simp: triple_def assert_that_def)
    qed
    show "s = \<lparr>ts_signer = sg, ts_calls = 0\<rparr> \<Longrightarrow> holding sg (\<lambda>t. t = []) s" for s
      using holding_start [OF sg(4,5)] by simp
  qed
qed

subsection \<open>The native policy at the signer\<close>

text \<open>A proof that names the fixture's own VTXO wherever it names inputs.\<close>

definition own_inputs :: "bytes \<Rightarrow> ownership_proof \<Rightarrow> bool" where
  "own_inputs v pf \<longleftrightarrow> (\<forall>rq ids. pf = Offboard rq ids \<longrightarrow> fl_vtxo_id fl v \<in> set ids)"

lemma policy_verdicts_pass:
  assumes program: "program = Ok prog" "small prog"
    and acc: "\<And>v. length (acc v) \<le> 1" "\<And>v r. r \<in> set (acc v) \<Longrightarrow>
      \<exists>pf. r = Ok pf \<and> own_inputs v pf \<and> ownership_verdict env prog pf = Ok ()"
    and rej: "\<And>v. \<exists>pf e. rej v = Ok pf \<and> own_inputs v pf \<and> ownership_verdict env prog pf = Err e \<and>
      contains (error_text e) words"
  shows "test_passes (policy_verdicts env fl orc program acc rej words)"
proof -
  obtain root sg where sg: "test_root fl = Ok root" "test_signer env fl = Ok sg"
    "as_public_root sg = xpub_from_priv (env_ark env) root" "\<not> as_poisoned sg" "as_pending sg = []"
    by (rule test_signer_Ok)
  have "0 < (0x42 :: byte)" "(0x42 :: byte) < 255" by simp_all
  from ownership_fixture_Ok [OF this sg(1)] obtain key v kp where
    fx: "ownership_fixture env fl prog 0x42 = Ok (key, v, kp)" by blast
  let ?u = "fl_public_key fl kp"
  have gate: "triple (holding sg \<Phi>) (ownership_prepare env fl orc key v pf kp) (\<lambda>rq s. holding sg \<Phi> s \<and>
    pk_user_pubkey (pq_key rq) = ?u \<and> (ownership_verdict env prog pf = Ok () \<longrightarrow> admissible env sg rq ?u) \<and>
    (\<forall>e. ownership_verdict env prog pf = Err e \<longrightarrow> check_prepare env sg rq = Err e))" if "own_inputs v pf" for pf \<Phi>
    by (rule ownership_gate [OF fx program(2) sg(1,3)]) (use that in \<open>simp add: own_inputs_def\<close>)
  have admit: "triple (holding sg (\<lambda>t. t = [])) (test_bind (call_prepare env orc rq) unwrap) (\<lambda>_. holding sg (\<lambda>_. True))"
    if "admissible env sg rq ?u" for rq
    by (rule triple_pre [OF triple_admitted [OF that, where \<Phi> = "\<lambda>_ _. True"]], erule holding_mono)
      (simp add: tbl_count_def cap_numbers)
  have first: "triple (holding sg (\<lambda>t. t = [])) (test_bind (unwrap r) (\<lambda>pf.
      test_bind (ownership_prepare env fl orc key v pf kp) (\<lambda>request.
      test_bind (test_bind (call_prepare env orc request) unwrap) (\<lambda>_. test_return ()))))
      (\<lambda>_. holding sg (\<lambda>_. True))" if "r \<in> set (acc v)" for r
  proof -
    from acc(2) [OF that] obtain pf where pf: "r = Ok pf" "own_inputs v pf" "ownership_verdict env prog pf = Ok ()"
      by blast
    show ?thesis
      by (rule triple_unwrap_then [OF pf(1)], rule triple_bind [OF gate [OF pf(2)]], rule triple_pure,
          rule triple_discard [OF admit]) (use pf(3) in simp)
  qed
  have loop: "triple (holding sg (\<lambda>t. t = [])) (for_each (acc v) (\<lambda>r. test_bind (unwrap r) (\<lambda>pf.
      test_bind (ownership_prepare env fl orc key v pf kp) (\<lambda>request.
      test_bind (test_bind (call_prepare env orc request) unwrap) (\<lambda>_. test_return ())))))
      (\<lambda>_. holding sg (\<lambda>_. True))"
  proof (cases "acc v")
    case Nil
    then show ?thesis by (auto simp: triple_def test_return_def elim!: holding_mono)
  next
    case (Cons r rs)
    with acc(1) [of v] first [of r] show ?thesis by simp
  qed
  from rej [of v] obtain pf e where pf: "rej v = Ok pf" "own_inputs v pf" "ownership_verdict env prog pf = Err e"
    "contains (error_text e) words" by blast
  show ?thesis
    unfolding policy_verdicts_def
    apply (rule with_signer_passes [OF sg(2), where Q = "\<lambda>_ _. True"], rule triple_pre [where P = "holding sg (\<lambda>t. t = [])"])
     apply (rule triple_unwrap_then [where x = "(key, v, kp)"], simp add: program fx, unfold prod.case)
     apply (rule triple_bind [OF loop])
     apply (rule triple_unwrap_then [OF pf(1)], rule triple_bind [OF gate [OF pf(2)]], rule triple_pure)
     apply (rule triple_bind [OF triple_refused], use pf(3) in blast)
     apply (simp add: triple_def assert_that_def pf(4))
    apply (use holding_start [OF sg(4,5)] in simp)
    done
qed

text \<open>What a program with a document of the tests decides.\<close>

lemma document_verdict:
  assumes "obj \<in> set (test_documents fl)" "document_of_json obj = Some d"
    and "policy_of_document (env_codec env) d = Ok policy" and "length m \<le> MAX_PROGRAM_BYTES"
  obtains prog where
    "bind_res (fl_json_to_vec fl obj) (\<lambda>bs. bind_res (encode bs []) (fl_program_new fl e m)) = Ok prog" "small prog"
    "\<And>pf. ownership_verdict env prog pf = (if inline_wasm_version (env_spend env) e = None
      then Err (Msg ''native ownership policy requires an inline WASM program'') else enforce policy pf)"
proof -
  from json [OF assms(1)] assms(2) obtain bs where bs: "fl_json_to_vec fl obj = Ok bs"
    "document_from_slice (env_codec env) bs = Ok d" "length bs \<le> 60000" by auto
  let ?q = "MAGIC @ u32_to_le (word_of_nat (length bs)) @ bs"
  have "length MAGIC = 29" by (simp add: MAGIC_def str_bytes_def)
  with bs have q: "encode bs [] = Ok ?q" "length ?q \<le> MAX_PARAMETER_BYTES"
    by (simp_all add: encode_Ok MAX_PARAMETER_BYTES_def byte_simps)
  have "parse (env_codec env) ?q = Ok (Some policy)"
    using parse_envelope [of bs "env_codec env" "[]"] bs assms(3) by simp
  with q bs(1) assms(4) show ?thesis
    by (intro that [of "\<lparr>ap_evaluator = e, ap_program = m, ap_parameters = ?q\<rparr>"])
      (simp_all add: program_new small_def ownership_verdict_def)
qed

lemma test_documents_eq:
  assumes "test_recipient fl 0x45 = Ok allow" "test_key fl 0x47 = Ok k"
  shows "test_documents fl =
    [offboard_document fl allow, delegated_document fl (fl_new_pubkey fl (fl_public_key fl k)),
     round_document fl (fl_new_pubkey fl (fl_public_key fl k)), no_status_document, status_document]"
  using assms by (simp add: test_documents_def)

text \<open>The policy of each document.\<close>

lemma policy_of_one:
  "policy_of_document (env_codec env) \<lparr>doc_version = 1, doc_offboard = map (script_hex fl) off, doc_arkoor = [],
     doc_round = map (policy_hex fl) rnd, doc_delegated_round = map (policy_hex fl) del, doc_status = st,
     doc_lightning_receive = ln\<rparr> =
   Ok \<lparr>offboard = off, arkoor = [], round = rnd, delegated_round = del, status = st, lightning_receive = ln\<rparr>"
proof -
  have "collect_res (\<lambda>x. map_err f (g x)) (map h ys) = Ok ys" if "\<And>y. g (h y) = Ok y"
    for f :: "string \<Rightarrow> error" and g and h :: "bytes \<Rightarrow> string" and ys
    using that by (induction ys) auto
  then show ?thesis by (simp add: policy_of_document_def scripts_def policies_def script_hex_def policy_hex_def hex)
qed

lemmas decoded_verdict = document_verdict [OF _ decoded(1) policy_of_one] document_verdict [OF _ decoded(2) policy_of_one]
  document_verdict [OF _ decoded(3) policy_of_one] document_verdict [OF _ decoded(4) policy_of_one]
  document_verdict [OF _ decoded(5) policy_of_one]

lemma fixture_values:
  obtains allow deny k k' c where "test_recipient fl 0x45 = Ok allow" "test_recipient fl 0x46 = Ok deny"
    "deny \<noteq> allow" "test_key fl 0x47 = Ok k" "test_key fl 0x48 = Ok k'" "test_key fl 0x49 = Ok c"
    "fl_new_pubkey fl (fl_public_key fl k') \<noteq> fl_new_pubkey fl (fl_public_key fl k)"
proof -
  obtain allow deny where r: "test_recipient fl 0x45 = Ok allow" "test_recipient fl 0x46 = Ok deny"
    using recipient_Ok [of "0x45"] recipient_Ok [of "0x46"] by auto
  obtain k k' c where k: "test_key fl 0x47 = Ok k" "test_key fl 0x48 = Ok k'" "test_key fl 0x49 = Ok c"
    using keypair [of "0x47"] keypair [of "0x48"] keypair [of "0x49"] by auto
  show ?thesis
    by (rule that [OF r _ k]) (use recipient_eq [OF r(2,1)] public_eq [OF k(2,1)] in \<open>simp_all add: policy_eq\<close>)
qed

lemma native_policy_offboard: "test_passes (native_policy_offboard_test env fl orc)"
proof -
  obtain allow deny k k' c where v: "test_recipient fl 0x45 = Ok allow" "test_recipient fl 0x46 = Ok deny"
    "deny \<noteq> allow" "test_key fl 0x47 = Ok k" by (rule fixture_values)
  obtain rate where rate: "fl_fee_rate fl 1 = Some rate" using fee_rate by blast
  obtain prog where prog: "policy_program env fl (offboard_document fl allow) [] = Ok prog" "small prog"
    and verdict: "\<And>pf. ownership_verdict env prog pf = enforce \<lparr>offboard = [allow], arkoor = [], round = [], delegated_round = [],
       status = True, lightning_receive = False\<rparr> pf"
    by (rule decoded_verdict(1) [OF _ template_size, of allow "evaluator_id_wasm (env_deploy env)"])
      (simp_all add: test_documents_eq [OF v(1,4)] inline policy_program_def)
  from prog have "test_passes (policy_verdicts env fl orc (policy_program env fl (offboard_document fl allow) [])
      (\<lambda>input. [offboard_proof fl input allow]) (\<lambda>input. offboard_proof fl input deny) ''offboard destination'')"
    by (rule policy_verdicts_pass) (use v(3) in \<open>simp_all add: offboard_proof_def rate [simplified] own_inputs_def verdict\<close>)
  then show ?thesis
    by (simp add: native_policy_offboard_test_def test_passes_def v)
qed

lemma native_policy_delegated: "test_passes (native_policy_delegated_test env fl orc)"
proof -
  obtain allow k k' where v: "test_recipient fl 0x45 = Ok allow" "test_key fl 0x47 = Ok k" "test_key fl 0x48 = Ok k'"
    "fl_new_pubkey fl (fl_public_key fl k') \<noteq> fl_new_pubkey fl (fl_public_key fl k)" by (rule fixture_values)
  let ?ok = "fl_new_pubkey fl (fl_public_key fl k)" and ?bad = "fl_new_pubkey fl (fl_public_key fl k')"
  obtain prog where prog: "policy_program env fl (delegated_document fl ?ok) [] = Ok prog" "small prog"
    and verdict: "\<And>pf. ownership_verdict env prog pf = enforce \<lparr>offboard = [], arkoor = [], round = [], delegated_round = [?ok],
       status = True, lightning_receive = False\<rparr> pf"
    by (rule decoded_verdict(2) [OF _ template_size, of ?ok "evaluator_id_wasm (env_deploy env)"])
      (simp_all add: test_documents_eq [OF v(1,2)] inline policy_program_def)
  from prog have "test_passes (policy_verdicts env fl orc (policy_program env fl (delegated_document fl ?ok) [])
      (\<lambda>_. [Ok (DelegatedRound [\<lparr>vr_amount = 1000, vr_policy = ?ok\<rparr>])])
      (\<lambda>_. Ok (DelegatedRound [\<lparr>vr_amount = 1000, vr_policy = ?bad\<rparr>])) ''delegated-round output policy'')"
    by (rule policy_verdicts_pass) (use v(4) in \<open>simp_all add: own_inputs_def verdict\<close>)
  then show ?thesis
    by (simp add: native_policy_delegated_test_def test_passes_def v Let_def)
qed

lemma native_policy_round: "test_passes (native_policy_round_test env fl orc)"
proof -
  obtain allow k k' c where v: "test_recipient fl 0x45 = Ok allow" "test_key fl 0x47 = Ok k" "test_key fl 0x48 = Ok k'"
    "test_key fl 0x49 = Ok c" "fl_new_pubkey fl (fl_public_key fl k') \<noteq> fl_new_pubkey fl (fl_public_key fl k)"
    by (rule fixture_values)
  let ?ok = "fl_new_pubkey fl (fl_public_key fl k)" and ?bad = "fl_new_pubkey fl (fl_public_key fl k')"
  let ?proof = "\<lambda>policy. Ok (Round (replicate 32 0x55) [\<lparr>svr_vtxo = \<lparr>vr_amount = 1000, vr_policy = policy\<rparr>,
      svr_cosign_pubkey = fl_public_key fl c, svr_nonces = []\<rparr>])"
  obtain prog where prog: "policy_program env fl (round_document fl ?ok) [] = Ok prog" "small prog"
    and verdict: "\<And>pf. ownership_verdict env prog pf = enforce \<lparr>offboard = [], arkoor = [], round = [?ok], delegated_round = [],
       status = True, lightning_receive = False\<rparr> pf"
    by (rule decoded_verdict(3) [OF _ template_size, of ?ok "evaluator_id_wasm (env_deploy env)"])
      (simp_all add: test_documents_eq [OF v(1,2)] inline policy_program_def)
  from prog have "test_passes (policy_verdicts env fl orc (policy_program env fl (round_document fl ?ok) [])
      (\<lambda>_. [?proof ?ok]) (\<lambda>_. ?proof ?bad) ''round output policy'')"
    by (rule policy_verdicts_pass) (use v(5) in \<open>simp_all add: own_inputs_def verdict\<close>)
  then show ?thesis
    by (simp add: native_policy_round_test_def test_passes_def v Let_def)
qed

lemma native_policy_status: "test_passes (native_policy_status_test env fl orc)"
proof -
  obtain allow k where v: "test_recipient fl 0x45 = Ok allow" "test_key fl 0x47 = Ok k" by (rule fixture_values)
  obtain prog where prog: "policy_program env fl no_status_document [] = Ok prog" "small prog"
    and verdict: "\<And>pf. ownership_verdict env prog pf = enforce \<lparr>offboard = [], arkoor = [], round = [], delegated_round = [],
       status = False, lightning_receive = False\<rparr> pf"
    by (rule decoded_verdict(4) [OF _ template_size, of "evaluator_id_wasm (env_deploy env)"])
      (simp_all add: test_documents_eq [OF v] inline policy_program_def)
  from prog show ?thesis
    unfolding native_policy_status_test_def
    by (rule policy_verdicts_pass) (simp_all add: own_inputs_def verdict)
qed

lemma malformed_native_policy: "test_passes (malformed_native_policy_test env fl orc)"
proof -
  let ?q = "MAGIC @ [1, 0]"
  have "parse (env_codec env) ?q = Err (Msg ''native ownership policy envelope is truncated'')"
    by (simp add: parse_def)
  moreover have "length ?q \<le> MAX_PARAMETER_BYTES" by (simp add: MAGIC_def str_bytes_def MAX_PARAMETER_BYTES_def)
  moreover from this have "small \<lparr>ap_evaluator = evaluator_id_wasm (env_deploy env), ap_program = TEMPLATEHASH fl,
      ap_parameters = ?q\<rparr>"
    by (simp add: small_def template_size)
  ultimately show ?thesis
    unfolding malformed_native_policy_test_def
    by (intro policy_verdicts_pass [OF program_new [OF template_size]])
      (simp_all add: own_inputs_def ownership_verdict_def)
qed

lemma native_policy_inline: "test_passes (native_policy_inline_test env fl orc)"
proof -
  obtain allow k where v: "test_recipient fl 0x45 = Ok allow" "test_key fl 0x47 = Ok k" by (rule fixture_values)
  have "length PAY_AT_LEAST_SELECTOR \<le> MAX_PROGRAM_BYTES"
    by (simp add: PAY_AT_LEAST_SELECTOR_def str_bytes_def MAX_PROGRAM_BYTES_def)
  then obtain prog where prog: "bind_res (fl_json_to_vec fl status_document) (\<lambda>bs. bind_res (encode bs [])
      (fl_program_new fl (fl_for_wasm fl (PAY_AT_LEAST_WASM (env_deploy env))) PAY_AT_LEAST_SELECTOR)) = Ok prog" "small prog"
    and verdict: "\<And>pf. ownership_verdict env prog pf = Err (Msg ''native ownership policy requires an inline WASM program'')"
    by (rule decoded_verdict(5) [where e = "fl_for_wasm fl (PAY_AT_LEAST_WASM (env_deploy env))", rotated])
      (simp_all add: test_documents_eq [OF v] inline for_wasm)
  from prog show ?thesis
    unfolding native_policy_inline_test_def
    by (rule policy_verdicts_pass) (simp_all add: own_inputs_def verdict)
qed

end

section \<open>A sample environment\<close>

text \<open>Keys are single bytes, scripts and policies are hex-encoded byte for byte, and the JSON text of a
  document is a digest that tells the five documents of the tests apart.\<close>

definition sample_json :: "json_object \<Rightarrow> bytes" where
  "sample_json obj = [word_of_nat (length obj), word_of_nat (length (fst (obj ! 1))),
     if snd (last obj) = JBool True then 1 else 0]"

definition sample_fixture_lib :: fixture_lib where
  "sample_fixture_lib =
     \<lparr>fl_new_master = (\<lambda>_ _. Ok sample_root), fl_keypair_from_slice = (\<lambda>b. Ok (take 1 b)),
      fl_public_key = (\<lambda>k. 2 # k), fl_x_only = (\<lambda>k. k), fl_new_p2tr = (\<lambda>k. [81, 32] @ replicate 31 0 @ take 1 k),
      fl_program_new = (\<lambda>e p q. Ok \<lparr>ap_evaluator = e, ap_program = p, ap_parameters = q\<rparr>),
      fl_for_wasm = (\<lambda>m. 1 # m), fl_group_key = (\<lambda>key. Ok (3 # pk_user_pubkey key)), fl_new_pubkey = (\<lambda>p. 4 # p),
      fl_check_block_delta = Ok, fl_vtxo_new = (\<lambda>_ policy _ _ _ _ _. policy), fl_vtxo_serialize = (\<lambda>v. v),
      fl_vtxo_deserialize = Ok, fl_vtxo_id = (\<lambda>v. v), fl_fee_rate = (\<lambda>n. Some (word_of_nat n)),
      fl_to_lower_hex = map (\<lambda>b. char_of (unat b)), fl_serialize_hex = map (\<lambda>b. char_of (unat b)),
      fl_json_to_vec = (\<lambda>obj. Ok (sample_json obj)), TEMPLATEHASH = WASM_HEADER @ [9]\<rparr>"

definition sample_lab_env :: "(unit, unit) signer_env" where
  "sample_lab_env = sample_env\<lparr>env_codec :=
     \<lparr>document_from_slice = (\<lambda>bs. case find (\<lambda>obj. sample_json obj = bs) (test_documents sample_fixture_lib) of
        None \<Rightarrow> Err ''json''
      | Some obj \<Rightarrow> (case document_of_json obj of None \<Rightarrow> Err ''json'' | Some d \<Rightarrow> Ok d)),
      script_from_hex = (\<lambda>s. Ok (str_bytes s)), policy_from_hex = (\<lambda>s. Ok (str_bytes s))\<rparr>\<rparr>"

lemma unat_lt2p_byte: "unat (b :: byte) < 256"
  using unsigned_less [of b] by simp

lemma byte_of_char: "of_char (char_of (unat b)) = (b :: byte)"
proof -
  have "(of_char (char_of (unat b)) :: byte) = word_of_nat (of_char (char_of (unat b)))" by (simp only: of_nat_of_char)
  also have "\<dots> = b" using unat_lt2p_byte [of b] by (simp add: of_char_of)
  finally show ?thesis .
qed

lemma str_bytes_chars: "str_bytes (map (\<lambda>b. char_of (unat b)) bs) = bs"
  by (induction bs) (simp_all add: str_bytes_def byte_of_char)

lemma sample_keys: "test_key sample_fixture_lib b = Ok [b]"
  "test_recipient sample_fixture_lib b = Ok ([81, 32] @ replicate 31 0 @ [b])"
  "test_root sample_fixture_lib = Ok sample_root"
  by (simp_all add: test_key_def test_recipient_def test_root_def sample_fixture_lib_def numeral_eq_Suc)

lemma sample_documents: "test_documents sample_fixture_lib =
    [offboard_document sample_fixture_lib ([81, 32] @ replicate 31 0 @ [0x45]),
     delegated_document sample_fixture_lib [4, 2, 0x47], round_document sample_fixture_lib [4, 2, 0x47],
     no_status_document, status_document]"
  unfolding test_documents_def sample_keys by (simp add: sample_fixture_lib_def)

lemma sample_json_documents:
  "sample_json (offboard_document fl s) = [7, 8, 0]" "sample_json (delegated_document fl p) = [3, 15, 1]"
  "sample_json (round_document fl p) = [3, 5, 1]" "sample_json no_status_document = [2, 6, 0]"
  "sample_json status_document = [2, 6, 1]"
  by (simp_all add: sample_json_def offboard_document_def delegated_document_def round_document_def
      no_status_document_def status_document_def)

lemma find_distinct: "distinct (map f xs) \<Longrightarrow> x \<in> set xs \<Longrightarrow> find (\<lambda>y. f y = f x) xs = Some x"
  by (induction xs) (auto simp: image_iff)

lemma documents_decode:
  assumes "obj \<in> set (test_documents sample_fixture_lib)"
  shows "\<exists>d. document_of_json obj = Some d \<and> document_from_slice (env_codec sample_lab_env) (sample_json obj) = Ok d"
proof -
  have "\<exists>d. document_of_json obj = Some d"
    using assms unfolding sample_documents list.set insert_iff empty_iff
    by (elim disjE) (simp_all add: decoded [where fl = sample_fixture_lib])
  moreover have "distinct (map sample_json (test_documents sample_fixture_lib))"
    unfolding sample_documents by (simp add: sample_json_documents)
  note find_distinct [OF this assms]
  ultimately show ?thesis by (auto simp: sample_lab_env_def)
qed

lemma sample_lab_env_sel [simp]:
  "env_ark sample_lab_env = sample_ark" "env_spend sample_lab_env = sample_spend_lib"
  "env_deploy sample_lab_env = sample_deployment"
  by (simp_all add: sample_lab_env_def sample_env_def)

lemma sample_fixture_sel:
  "fl_public_key sample_fixture_lib k = 2 # k" "fl_new_pubkey sample_fixture_lib x = 4 # x"
  "fl_program_new sample_fixture_lib e p q = Ok \<lparr>ap_evaluator = e, ap_program = p, ap_parameters = q\<rparr>"
  "fl_for_wasm sample_fixture_lib m = 1 # m" "fl_group_key sample_fixture_lib key = Ok (3 # pk_user_pubkey key)"
  "fl_check_block_delta sample_fixture_lib n = Ok n" "fl_vtxo_serialize sample_fixture_lib v = v"
  "fl_vtxo_deserialize sample_fixture_lib v = Ok v" "fl_fee_rate sample_fixture_lib n = Some (word_of_nat n)"
  "fl_to_lower_hex sample_fixture_lib s = map (\<lambda>b. char_of (unat b)) s"
  "fl_serialize_hex sample_fixture_lib s = map (\<lambda>b. char_of (unat b)) s"
  "script_from_hex (env_codec sample_lab_env) h = Ok (str_bytes h)"
  "policy_from_hex (env_codec sample_lab_env) h = Ok (str_bytes h)"
  "length (TEMPLATEHASH sample_fixture_lib) \<le> MAX_PROGRAM_BYTES"
  by (simp_all add: sample_fixture_lib_def sample_lab_env_def WASM_HEADER_def MAX_PROGRAM_BYTES_def)

lemma sample_ids:
  "evaluator_id_wasm sample_deployment = [1]"
  "evaluator_id_for_wasm_version sample_deployment m v = version_number v # m" "version_number V1 = 1"
  "PAY_AT_LEAST_WASM sample_deployment = [0, 97, 115, 109, 1, 0, 0, 0, 7]"
  by (simp_all add: sample_deployment_def version_number_def WASM_HEADER_def)

interpretation sample_lab: ownership_lab sample_test_oracle sample_lab_env sample_fixture_lib
proof unfold_locales
  show "\<exists>bs d. fl_json_to_vec sample_fixture_lib obj = Ok bs \<and> document_of_json obj = Some d \<and>
      document_from_slice (env_codec sample_lab_env) bs = Ok d \<and> length bs \<le> 60000"
    if "obj \<in> set (test_documents sample_fixture_lib)" for obj
    using documents_decode [OF that] by (simp add: sample_fixture_lib_def sample_json_def)
qed (auto simp: sample_keys sample_root_def sample_evaluators sample_ids sample_ark_def sample_spend_lib_def
    str_bytes_chars str_bytes_chars [of "1 # _", simplified] sample_fixture_sel)

section \<open>Properties\<close>

text \<open>C18: the ownership tests of the repository pass in every environment with the documented behaviour. One wallet is
  admitted eight times and then refused with the per-wallet message while another wallet is served, and a cancelled
  session frees exactly its wallet's slot; thirty-two wallets fill the pool of 256 sessions, after which a new wallet
  is refused with the capacity message. Through the whole gate of the signer, a listed offboard destination,
  delegated-round or round output is admitted and an unlisted one refused, status is denied by default, a malformed
  envelope and a policy on a program that is not inline are refused, each with the message of its cause.\<close>

theorem ownership_tests_pass:
  assumes "ownership_lab orc env fl"
  shows "test_passes (per_wallet_session_cap_test env fl orc) \<and> test_passes (global_capacity_test env fl orc) \<and>
    test_passes (native_policy_offboard_test env fl orc) \<and>
    test_passes (native_policy_delegated_test env fl orc) \<and> test_passes (native_policy_round_test env fl orc) \<and>
    test_passes (native_policy_status_test env fl orc) \<and> test_passes (malformed_native_policy_test env fl orc) \<and>
    test_passes (native_policy_inline_test env fl orc)"
  using ownership_lab.per_wallet_session_cap [OF assms] ownership_lab.global_capacity [OF assms]
    ownership_lab.native_policy_offboard [OF assms] ownership_lab.native_policy_delegated [OF assms]
    ownership_lab.native_policy_round [OF assms] ownership_lab.native_policy_status [OF assms]
    ownership_lab.malformed_native_policy [OF assms] ownership_lab.native_policy_inline [OF assms] by blast

theorem ownership_tests_pass_witness:
  "ownership_lab sample_test_oracle sample_lab_env sample_fixture_lib \<and>
   test_passes (per_wallet_session_cap_test sample_lab_env sample_fixture_lib sample_test_oracle) \<and>
   test_passes (global_capacity_test sample_lab_env sample_fixture_lib sample_test_oracle) \<and>
   test_passes (native_policy_offboard_test sample_lab_env sample_fixture_lib sample_test_oracle) \<and>
   test_passes (native_policy_inline_test sample_lab_env sample_fixture_lib sample_test_oracle)"
  using ownership_tests_pass [OF sample_lab.ownership_lab_axioms] sample_lab.ownership_lab_axioms by blast

end
