(* ===== verification/Spend_Fixture.thy ===== *)
theory Spend_Fixture
  imports Ownership_Tests Templatehash
begin

text \<open>
  The spend fixture of the tests of \<open>src/src/ark_signer.rs\<close>: the transaction and programs of the tests, the
  funded signing context \<open>Fixture\<close>, and the wallet's side of a signing session: request, prepare, finish,
  completion of the nested MuSig signature and its verification.

  What the fixture calls of the Bitcoin and Ark crates is the record \<open>spend_fixture_lib\<close>. Public nonces,
  partial signatures, sessions, key pairs and Taproot trees are byte strings that are only passed on.
\<close>

section \<open>Data\<close>

record spend_fixture_lib =
  sf_sha256 :: "bytes \<Rightarrow> bytes"
  sf_serialize_output :: "tx_out \<Rightarrow> bytes"
  sf_taproot :: "pubkey \<Rightarrow> pubkey \<Rightarrow> nat \<Rightarrow> bytes"
  sf_tree_script :: "bytes \<Rightarrow> script"
  sf_compute_txid :: "transaction \<Rightarrow> hash"
  sf_tx_in_default :: tx_in
  sf_key_spend :: "transaction \<Rightarrow> nat \<Rightarrow> tx_out list \<Rightarrow> bytes \<Rightarrow> pubkey list \<Rightarrow> signing_input result"
  sf_claim_tapscript :: "pubkey \<Rightarrow> nat \<Rightarrow> script"
  sf_leaf_hash :: "script \<Rightarrow> hash"
  sf_program_pubkey :: "program_key \<Rightarrow> pubkey result"
  sf_from_input :: "signing_input \<Rightarrow> pubkey option \<Rightarrow> bytes \<Rightarrow> spend_request result"
  sf_nonce_pair_with_msg :: "bytes \<Rightarrow> bytes \<Rightarrow> hash \<Rightarrow> bytes \<times> bytes"
  sf_nonce_serialize :: "bytes \<Rightarrow> bytes"
  sf_aggregate_nonce :: "bytes \<Rightarrow> bytes"
  sf_group_nonce :: "bytes \<Rightarrow> bytes"
  sf_negate_point :: "bytes \<Rightarrow> bytes result"
  sf_nonce_from_byte_array :: "bytes \<Rightarrow> bytes result"
  sf_intent_tweak :: "intent \<Rightarrow> bytes option"
  sf_session_message :: "bytes \<Rightarrow> hash"
  sf_session_tweak :: "bytes \<Rightarrow> bytes option"
  sf_partial_sign :: "pubkey list \<Rightarrow> bytes \<Rightarrow> bytes \<Rightarrow> bytes \<Rightarrow> hash \<Rightarrow> bytes option \<Rightarrow> bytes"
  sf_partial_serialize :: "bytes \<Rightarrow> bytes"
  sf_verify_member :: "bytes \<Rightarrow> nat \<Rightarrow> bytes \<Rightarrow> unit result"
  sf_aggregate :: "bytes \<Rightarrow> bytes \<times> bytes \<Rightarrow> bytes option \<Rightarrow> bytes result"
  sf_combine_members :: "bytes \<Rightarrow> bytes \<times> bytes \<Rightarrow> bytes result"
  sf_combine_partial_signatures :: "pubkey list \<Rightarrow> bytes \<Rightarrow> hash \<Rightarrow> bytes option \<Rightarrow> bytes list \<Rightarrow> bytes"
  sf_verify_signature :: "signing_input \<Rightarrow> bytes \<Rightarrow> unit result"
  sf_script_spend_sighash :: "transaction \<Rightarrow> nat \<Rightarrow> tx_out list \<Rightarrow> hash \<Rightarrow> hash result"
  sf_key_spend_sighash :: "transaction \<Rightarrow> nat \<Rightarrow> tx_out list \<Rightarrow> hash result"
  sf_xonly_from_slice :: "bytes \<Rightarrow> bytes result"
  sf_pubkey_x_only :: "pubkey \<Rightarrow> bytes"
  sf_verify_schnorr :: "bytes \<Rightarrow> hash \<Rightarrow> bytes \<Rightarrow> unit result"
  sf_claim_witness :: "pubkey \<Rightarrow> nat \<Rightarrow> bytes \<Rightarrow> bytes \<Rightarrow> bytes list"
  sf_claim_sequence :: "pubkey \<Rightarrow> nat \<Rightarrow> u32"
  sf_resize_outputs :: "nat \<Rightarrow> psbt \<Rightarrow> psbt"
  VAULT :: bytes

record fixture =
  fx_key :: program_key
  fx_input :: signing_input
  fx_server :: "bytes option"
  fx_witness :: bytes

record prepared_session =
  pp_user_nonce :: nonce
  pp_session :: bytes
  pp_server_partial :: "bytes option"
  pp_finish :: finish_request

section \<open>Operations\<close>

subsection \<open>Transactions and programs\<close>

definition test_transaction :: "fixture_lib \<Rightarrow> transaction result" where
  "test_transaction fl = bind_res (test_recipient fl 0x45) (\<lambda>script. Ok
     \<lparr>tx_version = 2, tx_lock_time = 500,
      tx_input = [\<lparr>ti_previous_output = \<lparr>op_txid = replicate 32 0x44, op_vout = 0\<rparr>,
        ti_sequence = word_of_nat EXIT_DELAY\<rparr>],
      tx_output = [\<lparr>txo_value = 9000, txo_script_pubkey = script\<rparr>]\<rparr>)"

text \<open>The tests' own template hash, which feeds the hash engine field by field.\<close>

definition test_template_hash :: "spend_fixture_lib \<Rightarrow> transaction \<Rightarrow> u32 \<Rightarrow> bytes" where
  "test_template_hash sl tx input_index =
     (let sha = sf_sha256 sl;
          sequences = foldl (\<lambda>eng i. eng @ u32_to_le (ti_sequence i)) [] (tx_input tx);
          outputs = foldl (\<lambda>eng out. eng @ sf_serialize_output sl out) [] (tx_output tx);
          tag = sha (str_bytes ''TemplateHash'');
          eng = tag @ tag;
          eng = eng @ u32_to_le (tx_version tx);
          eng = eng @ u32_to_le (tx_lock_time tx);
          eng = eng @ sha sequences;
          eng = eng @ sha outputs;
          eng = eng @ [0];
          eng = eng @ u32_to_le input_index in
      sha eng)"

definition template_program ::
  "('m, 'i) signer_env \<Rightarrow> fixture_lib \<Rightarrow> spend_fixture_lib \<Rightarrow> transaction \<Rightarrow> ark_program result" where
  "template_program env fl sl tx =
     fl_program_new fl (evaluator_id_wasm (env_deploy env)) (TEMPLATEHASH fl) (test_template_hash sl tx 0)"

subsection \<open>The fixture\<close>

text \<open>The part of \<open>Fixture::new\<close> after the funding: the selected path.\<close>

definition fixture_path ::
  "spend_fixture_lib \<Rightarrow> program_key \<Rightarrow> pubkey \<Rightarrow> nat \<Rightarrow> bool \<Rightarrow> signing_input \<Rightarrow> signing_input result" where
  "fixture_path sl key grp delta claim input =
     (if \<not> claim then Ok input
      else bind_res (sf_program_pubkey sl key) (\<lambda>program.
        Ok (input\<lparr>si_script_leaf := Some (sf_leaf_hash sl (sf_claim_tapscript sl grp delta)),
                  si_participants := [pk_user_pubkey key, program], si_tweak := None\<rparr>)))"

definition fixture_new ::
  "('m, 'i) signer_env \<Rightarrow> fixture_lib \<Rightarrow> spend_fixture_lib \<Rightarrow> ark_program \<Rightarrow> transaction \<Rightarrow> bool \<Rightarrow> fixture result" where
  "fixture_new env fl sl program tx claim =
     bind_res (test_key fl 0x43) (\<lambda>server.
     bind_res (test_root fl) (\<lambda>root.
     bind_res (test_key fl 0x42) (\<lambda>user.
     let key = \<lparr>pk_program = program, pk_root = xpub_from_priv (env_ark env) root,
           pk_user_pubkey = fl_public_key fl user\<rparr> in
     bind_res (fl_group_key fl key) (\<lambda>grp.
     bind_res (fl_check_block_delta fl EXIT_DELAY) (\<lambda>delta.
     let tree = sf_taproot sl grp (fl_public_key fl server) delta;
         funding_output = \<lparr>txo_value = TEST_FUNDING, txo_script_pubkey = sf_tree_script sl tree\<rparr>;
         funding = \<lparr>tx_version = 2, tx_lock_time = 0, tx_input = [sf_tx_in_default sl], tx_output = [funding_output]\<rparr> in
     if tx_input tx = [] then Panic
     else
       let tx' = tx\<lparr>tx_input := (tx_input tx)[0 := (tx_input tx ! 0)
             \<lparr>ti_previous_output := \<lparr>op_txid = sf_compute_txid sl funding, op_vout = 0\<rparr>\<rparr>]\<rparr> in
       bind_res (test_recipient fl 0x46) (\<lambda>other.
       let prevouts = funding_output # map (\<lambda>_. \<lparr>txo_value = 5000, txo_script_pubkey = other\<rparr>) [1..<length (tx_input tx)] in
       bind_res (sf_key_spend sl tx' 0 prevouts tree [grp, fl_public_key fl server]) (\<lambda>input.
       if psbt_inputs (si_psbt input) = [] then Panic
       else
         let ms = (psbt_inputs (si_psbt input))[0 := (psbt_inputs (si_psbt input) ! 0)
               \<lparr>pi_non_witness_utxo := Some funding\<rparr>] in
         bind_res (fixture_path sl key grp delta claim (input\<lparr>si_psbt := (si_psbt input)\<lparr>psbt_inputs := ms\<rparr>\<rparr>)) (\<lambda>input'.
         bind_res (sighash (env_spend env) input') (\<lambda>_.
         Ok \<lparr>fx_key = key, fx_input = input', fx_server = (if claim then None else Some server),
             fx_witness = []\<rparr>)))))))))"

definition fixture_template ::
  "('m, 'i) signer_env \<Rightarrow> fixture_lib \<Rightarrow> spend_fixture_lib \<Rightarrow> bool \<Rightarrow> fixture result" where
  "fixture_template env fl sl claim =
     bind_res (test_transaction fl) (\<lambda>tx.
     bind_res (template_program env fl sl tx) (\<lambda>program.
     fixture_new env fl sl program tx claim))"

definition fixture_action :: "fixture_lib \<Rightarrow> spend_fixture_lib \<Rightarrow> fixture \<Rightarrow> signing_action result" where
  "fixture_action fl sl fx =
     bind_res (sf_from_input sl (fx_input fx) (map_option (fl_public_key fl) (fx_server fx)) (fx_witness fx))
       (\<lambda>request. Ok (Spend request))"

definition fixture_request ::
  "('m, 'i) signer_env \<Rightarrow> fixture_lib \<Rightarrow> spend_fixture_lib \<Rightarrow> test_oracle \<Rightarrow> fixture \<Rightarrow>
     (test_state, prepare_request \<times> nonce) test" where
  "fixture_request env fl sl orc fx =
     test_bind (unwrap (fixture_action fl sl fx)) (\<lambda>action.
     test_bind (unwrap (action_intent (env_ark env) action (fx_key fx))) (\<lambda>intn.
     test_bind (new_nonce env orc intn (pk_user_pubkey (fx_key fx))) (\<lambda>nonce.
     test_return
       (\<lparr>pq_protocol = SIGNING_PROTOCOL (env_deploy env), pq_key = fx_key fx, pq_action = action,
         pq_user_nonce = hex_encode (env_ark env)
           (member_nonce_serialize (env_ark env) (nonce_public (env_ark env) nonce))\<rparr>, nonce))))"

subsection \<open>A session\<close>

text \<open>The server's nonce pair, and its share of a session.\<close>

definition server_nonces ::
  "spend_fixture_lib \<Rightarrow> test_oracle \<Rightarrow> bytes option \<Rightarrow> intent \<Rightarrow> (test_state, (bytes \<times> bytes) option) test" where
  "server_nonces sl orc server intn s =
     (case server of
        None \<Rightarrow> Returned None s
      | Some key \<Rightarrow> Returned (Some (sf_nonce_pair_with_msg sl (or_seed orc (ts_calls s)) key (in_message intn)))
          (s\<lparr>ts_calls := Suc (ts_calls s)\<rparr>))"

definition server_share ::
  "('m, 'i) signer_env \<Rightarrow> spend_fixture_lib \<Rightarrow> fixture \<Rightarrow> intent \<Rightarrow> bytes \<Rightarrow> (bytes \<times> bytes) option \<Rightarrow>
     bytes option result" where
  "server_share env sl fx intn session nonces =
     (case (fx_server fx, nonces) of
        (Some key, Some (secret, _)) \<Rightarrow>
          let partial = sf_partial_sign sl (si_participants (fx_input fx)) (sf_aggregate_nonce sl session) key secret
                (in_message intn) (sf_intent_tweak sl intn) in
          bind_res (verify_server (env_ark env) session partial) (\<lambda>_. Ok (Some partial))
      | _ \<Rightarrow> Ok None)"

definition fixture_prepare ::
  "('m, 'i) signer_env \<Rightarrow> fixture_lib \<Rightarrow> spend_fixture_lib \<Rightarrow> test_oracle \<Rightarrow> fixture \<Rightarrow>
     (test_state, prepared_session) test" where
  "fixture_prepare env fl sl orc fx =
     test_bind (fixture_request env fl sl orc fx) (\<lambda>(request, user_nonce).
     test_bind (unwrap (action_intent (env_ark env) (pq_action request) (pq_key request))) (\<lambda>intn.
     test_bind (test_bind (call_prepare env orc request) unwrap) (\<lambda>response.
     test_bind (assert_that (ps_protocol response = SIGNING_PROTOCOL (env_deploy env))) (\<lambda>_.
     test_bind (unwrap (bind_res (sf_program_pubkey sl (fx_key fx)) (\<lambda>program.
         bind_res (parse_nonce (env_ark env) (ps_program_nonce response)) (\<lambda>public.
         member_nonce_from_bytes (env_ark env) intn program public)))) (\<lambda>program_nonce.
     test_bind (server_nonces sl orc (fx_server fx) intn) (\<lambda>nonces.
     test_bind (unwrap (session_new (env_ark env) intn
         (nonce_public (env_ark env) user_nonce, program_nonce) (map_option snd nonces))) (\<lambda>session.
     test_bind (unwrap (server_share env sl fx intn session nonces)) (\<lambda>partial.
     test_return \<lparr>pp_user_nonce = user_nonce, pp_session = session, pp_server_partial = partial,
       pp_finish = \<lparr>fq_protocol = SIGNING_PROTOCOL (env_deploy env), fq_session = ps_session response,
         fq_server_nonce = map_option (\<lambda>p. hex_encode (env_ark env) (sf_nonce_serialize sl (snd p))) nonces,
         fq_server_partial = map_option (\<lambda>p. hex_encode (env_ark env) (sf_partial_serialize sl p)) partial\<rparr>\<rparr>))))))))"

definition fixture_verify ::
  "('m, 'i) signer_env \<Rightarrow> fixture_lib \<Rightarrow> spend_fixture_lib \<Rightarrow> fixture \<Rightarrow> bytes \<Rightarrow> (test_state, unit) test" where
  "fixture_verify env fl sl fx signature =
     (let input = fx_input fx; tx = psbt_unsigned_tx (si_psbt input); i = si_input_index input in
      test_bind (unwrap (sf_verify_signature sl input signature)) (\<lambda>_.
      test_bind (unwrap (collect_res (\<lambda>m. ok_or (Msg ''unwrap'') (pi_witness_utxo m)) (psbt_inputs (si_psbt input))))
        (\<lambda>prevouts.
      test_bind (unwrap (case si_script_leaf input of
          Some leaf \<Rightarrow> sf_script_spend_sighash sl tx i prevouts leaf
        | None \<Rightarrow> sf_key_spend_sighash sl tx i prevouts)) (\<lambda>h.
      test_bind (unwrap (if si_script_leaf input \<noteq> None
          then bind_res (fl_group_key fl (fx_key fx)) (\<lambda>grp. Ok (sf_pubkey_x_only sl grp))
          else if i < length prevouts \<and> 2 \<le> length (txo_script_pubkey (prevouts ! i))
          then sf_xonly_from_slice sl (drop 2 (txo_script_pubkey (prevouts ! i)))
          else Panic)) (\<lambda>verification_key.
      test_bind (unwrap (sf_verify_schnorr sl signature h verification_key)) (\<lambda>_.
      assert_that (sighash (env_spend env) input = Ok h)))))))"

definition prepared_complete ::
  "('m, 'i) signer_env \<Rightarrow> fixture_lib \<Rightarrow> spend_fixture_lib \<Rightarrow> prepared_session \<Rightarrow> fixture \<Rightarrow> finish_response \<Rightarrow>
     (test_state, bytes) test" where
  "prepared_complete env fl sl prepared fx response =
     (let lib = env_ark env; session = pp_session prepared in
      test_bind (assert_that (fs_protocol response = SIGNING_PROTOCOL (env_deploy env))) (\<lambda>_.
      test_bind (unwrap (parse_partial lib (fs_program_partial response))) (\<lambda>program_partial.
      test_bind (unwrap (sf_verify_member sl session 1 program_partial)) (\<lambda>_.
      test_bind (unwrap (bind_res (test_key fl 0x42) (\<lambda>user.
          nonce_sign lib (pp_user_nonce prepared) user session))) (\<lambda>user_partial.
      test_bind (unwrap (sf_aggregate sl session (user_partial, program_partial) (pp_server_partial prepared)))
        (\<lambda>signature.
      test_bind (case pp_server_partial prepared of
          None \<Rightarrow> test_return ()
        | Some server \<Rightarrow>
            test_bind (unwrap (sf_combine_members sl session (user_partial, program_partial))) (\<lambda>grp.
            assert_that (sf_combine_partial_signatures sl (si_participants (fx_input fx))
              (sf_aggregate_nonce sl session) (sf_session_message sl session) (sf_session_tweak sl session)
              [grp, server] = signature))) (\<lambda>_.
      test_bind (fixture_verify env fl sl fx signature) (\<lambda>_.
      test_return signature))))))))"

definition fixture_sign ::
  "('m, 'i) signer_env \<Rightarrow> fixture_lib \<Rightarrow> spend_fixture_lib \<Rightarrow> test_oracle \<Rightarrow> fixture \<Rightarrow> (test_state, bytes) test" where
  "fixture_sign env fl sl orc fx =
     test_bind (fixture_prepare env fl sl orc fx) (\<lambda>prepared.
     test_bind (test_bind (call_finish env orc (pp_finish prepared)) unwrap) (\<lambda>response.
     test_bind (test_bind (call_finish env orc (pp_finish prepared)) unwrap_err) (\<lambda>_.
     prepared_complete env fl sl prepared fx response)))"

subsection \<open>Expectations\<close>

definition refused ::
  "('m, 'i) signer_env \<Rightarrow> test_oracle \<Rightarrow> prepare_request \<Rightarrow> (test_state, error) test" where
  "refused env orc request =
     test_bind (observe (\<lambda>s. length (as_pending (ts_signer s)))) (\<lambda>before.
     test_bind (test_bind (call_prepare env orc request) unwrap_err) (\<lambda>e.
     test_bind (observe (\<lambda>s. length (as_pending (ts_signer s)))) (\<lambda>after.
     test_bind (assert_that (after = before)) (\<lambda>_.
     test_return e))))"

definition predicate_refused ::
  "('m, 'i) signer_env \<Rightarrow> fixture_lib \<Rightarrow> spend_fixture_lib \<Rightarrow> test_oracle \<Rightarrow> fixture \<Rightarrow> (test_state, unit) test" where
  "predicate_refused env fl sl orc fx =
     test_bind (fixture_request env fl sl orc fx) (\<lambda>(request, _).
     test_bind (refused env orc request) (\<lambda>e.
     assert_that (e = Program Rejected)))"

definition invalid_evaluation ::
  "('m, 'i) signer_env \<Rightarrow> fixture_lib \<Rightarrow> spend_fixture_lib \<Rightarrow> test_oracle \<Rightarrow> fixture \<Rightarrow> (test_state, unit) test" where
  "invalid_evaluation env fl sl orc fx =
     test_bind (fixture_request env fl sl orc fx) (\<lambda>(request, _).
     test_bind (refused env orc request) (\<lambda>e.
     assert_that (case e of Program (EvaluationFailed _) \<Rightarrow> True | _ \<Rightarrow> False)))"

definition consumed ::
  "('m, 'i) signer_env \<Rightarrow> test_oracle \<Rightarrow> prepared_session \<Rightarrow> finish_request \<Rightarrow> (test_state, unit) test" where
  "consumed env orc prepared invalid =
     test_bind (test_bind (call_finish env orc invalid) unwrap_err) (\<lambda>_.
     test_bind (observe (\<lambda>s. map_of (as_pending (ts_signer s)) (fq_session (pp_finish prepared)))) (\<lambda>entry.
     test_bind (assert_that (entry = None)) (\<lambda>_.
     test_bind (test_bind (call_finish env orc (pp_finish prepared)) unwrap_err) (\<lambda>_.
     test_return ()))))"

end
