(* ===== verification/Session_Lab.thy ===== *)
theory Session_Lab
  imports Spend_Fixture
begin

text \<open>
  What the session tests rely on, and the triples of one signing session.

  The locale \<open>musig_lab\<close> extends \<open>ownership_lab\<close> with the documented behaviour of the nested MuSig protocol:
  codecs round-trip, honest nonces open a session, honest partial signatures verify and aggregate to a
  signature of the intent's message under its key, a server share is valid for one session only, and a
  malformed, missing or cancelling server contribution is an error. A fixture is \<open>ready\<close> at a signer when its
  spend passes the signer's gate; \<open>honest\<close> relates what the wallet holds after a prepare to the record in the
  signer's table.
\<close>

section \<open>Specification\<close>

text \<open>The intent of a fixture's spend.\<close>

definition spend_intent ::
  "('m, 'i) signer_env \<Rightarrow> fixture_lib \<Rightarrow> spend_fixture_lib \<Rightarrow> fixture \<Rightarrow> intent \<Rightarrow> bool" where
  "spend_intent env fl sl fx intn \<longleftrightarrow>
     (\<exists>action. fixture_action fl sl fx = Ok action \<and> action_intent (env_ark env) action (fx_key fx) = Ok intn)"

definition request_with :: "('m, 'i) signer_env \<Rightarrow> fixture \<Rightarrow> signing_action \<Rightarrow> nonce \<Rightarrow> prepare_request" where
  "request_with env fx action nonce =
     \<lparr>pq_protocol = SIGNING_PROTOCOL (env_deploy env), pq_key = fx_key fx, pq_action = action,
      pq_user_nonce = hex_encode (env_ark env)
        (member_nonce_serialize (env_ark env) (nonce_public (env_ark env) nonce))\<rparr>"

text \<open>A spend that the signer admits, with its intent and program.\<close>

definition ready ::
  "('m, 'i) signer_env \<Rightarrow> fixture_lib \<Rightarrow> spend_fixture_lib \<Rightarrow> ark_signer \<Rightarrow> fixture \<Rightarrow> intent \<Rightarrow>
     program_instance \<Rightarrow> bool" where
  "ready env fl sl sg fx intn inst \<longleftrightarrow>
     (\<exists>action user x. fixture_action fl sl fx = Ok action \<and> action_intent (env_ark env) action (fx_key fx) = Ok intn \<and>
        test_key fl 0x42 = Ok user \<and> pk_user_pubkey (fx_key fx) = fl_public_key fl user \<and>
        derive_public_key (env_ark env) inst (as_public_root sg) = Ok x \<and>
        in_members intn = (pk_user_pubkey (fx_key fx), even_public_key (env_ark env) x) \<and>
        sf_program_pubkey sl (fx_key fx) = Ok (even_public_key (env_ark env) x) \<and>
        in_server intn = map_option (fl_public_key fl) (fx_server fx) \<and>
        sighash (env_spend env) (fx_input fx) = Ok (in_message intn) \<and>
        list_all (\<lambda>m. pi_witness_utxo m \<noteq> None) (psbt_inputs (si_psbt (fx_input fx))) \<and>
        si_input_index (fx_input fx) < length (psbt_inputs (si_psbt (fx_input fx))) \<and>
        (\<forall>seed nonce. nonce_new (env_ark env) seed intn (pk_user_pubkey (fx_key fx)) = Ok nonce \<longrightarrow>
           check_prepare env sg (request_with env fx action nonce) = Ok (intn, nonce_public (env_ark env) nonce, inst)))"

lemma request_with_sel [simp]:
  "pq_protocol (request_with env fx action nonce) = SIGNING_PROTOCOL (env_deploy env)"
  "pq_key (request_with env fx action nonce) = fx_key fx" "pq_action (request_with env fx action nonce) = action"
  by (simp_all add: request_with_def)

text \<open>The inverse of a group nonce, point by point: the contribution that makes the aggregate vanish.\<close>

fun negate_points :: "(bytes \<Rightarrow> bytes result) \<Rightarrow> nat \<Rightarrow> bytes \<Rightarrow> bytes result" where
  "negate_points neg 0 bs = Ok bs"
| "negate_points neg (Suc n) bs = bind_res (neg (take 33 bs)) (\<lambda>p.
     bind_res (negate_points neg n (drop 33 bs)) (\<lambda>ps. Ok (p @ ps)))"

locale musig_lab = ownership_lab orc env fl
  for orc :: test_oracle and env :: "('m, 'i) signer_env" and fl :: fixture_lib +
  fixes sl :: spend_fixture_lib and intent_key :: "intent \<Rightarrow> bytes"
  assumes seed_eq: "or_seed orc i = or_seed orc j \<longleftrightarrow> i = j"
    and server_nonce_codec: "parse_nonce (env_ark env) (hex_encode (env_ark env)
      (sf_nonce_serialize sl (snd (sf_nonce_pair_with_msg sl seed kp m)))) = Ok (snd (sf_nonce_pair_with_msg sl seed kp m))"
    and partial_codec: "parse_partial (env_ark env) (hex_encode (env_ark env) (sf_partial_serialize sl p)) = Ok p"
    and session_opens: "nonce_new (env_ark env) a intn (fst (in_members intn)) = Ok n \<Longrightarrow>
      nonce_new (env_ark env) b intn (snd (in_members intn)) = Ok n' \<Longrightarrow>
      (in_server intn = None \<Longrightarrow> sn = None) \<Longrightarrow>
      (\<And>server. in_server intn = Some server \<Longrightarrow> \<exists>seed kp. sn = Some (snd (sf_nonce_pair_with_msg sl seed kp (in_message intn)))) \<Longrightarrow>
      \<exists>s. session_new (env_ark env) intn (nonce_public (env_ark env) n, nonce_public (env_ark env) n') sn = Ok s"
    and session_keeps: "session_new (env_ark env) intn ns sn = Ok s \<Longrightarrow>
      sf_session_message sl s = in_message intn \<and> sf_session_tweak sl s = sf_intent_tweak sl intn"
    and session_mismatch: "(sn = None) \<noteq> (in_server intn = None) \<Longrightarrow> \<exists>e. session_new (env_ark env) intn ns sn = Err e"
    and session_eq_nonces: "session_new (env_ark env) intn (a, b) sn = Ok s \<Longrightarrow>
      session_new (env_ark env) intn' (a', b') sn' = Ok s \<Longrightarrow> b = b'"
    and nonce_eq: "nonce_new (env_ark env) a intn p = Ok n \<Longrightarrow> nonce_new (env_ark env) b intn' p' = Ok n' \<Longrightarrow>
      nonce_public (env_ark env) n = nonce_public (env_ark env) n' \<Longrightarrow> a = b"
    and server_signs: "spend_intent env fl sl fx intn \<Longrightarrow> fx_server fx = Some kp \<Longrightarrow>
      session_new (env_ark env) intn ns (Some (snd (sf_nonce_pair_with_msg sl seed kp (in_message intn)))) = Ok s \<Longrightarrow>
      verify_server (env_ark env) s (sf_partial_sign sl (si_participants (fx_input fx)) (sf_aggregate_nonce sl s) kp
        (fst (sf_nonce_pair_with_msg sl seed kp (in_message intn))) (in_message intn) (sf_intent_tweak sl intn)) = Ok ()"
    and server_share_binds: "session_new (env_ark env) intn ns sn = Ok s \<Longrightarrow>
      session_new (env_ark env) intn' ns' sn' = Ok s' \<Longrightarrow>
      verify_server (env_ark env) s p = Ok () \<Longrightarrow> verify_server (env_ark env) s' p = Ok () \<Longrightarrow> s = s'"
    and program_signs: "test_root fl = Ok root \<Longrightarrow>
      derive_public_key (env_ark env) inst (xpub_from_priv (env_ark env) root) = Ok x \<Longrightarrow>
      snd (in_members intn) = even_public_key (env_ark env) x \<Longrightarrow>
      nonce_new (env_ark env) seed intn (snd (in_members intn)) = Ok n \<Longrightarrow>
      session_new (env_ark env) intn (un, nonce_public (env_ark env) n) sn = Ok s \<Longrightarrow>
      \<exists>d kp share. derive_priv (env_ark env) root
          (program_derivation_path (env_ark env) (instance_id (env_ark env) inst)) = Ok d \<and>
        add_xonly_tweak (env_ark env) (to_keypair (env_ark env) d) SCALAR_ZERO = Ok kp \<and>
        nonce_sign (env_ark env) n kp s = Ok share \<and>
        parse_partial (env_ark env) (hex_encode (env_ark env) share) = Ok share \<and> sf_verify_member sl s 1 share = Ok ()"
    and user_signs: "test_key fl 0x42 = Ok user \<Longrightarrow> fst (in_members intn) = fl_public_key fl user \<Longrightarrow>
      nonce_new (env_ark env) seed intn (fst (in_members intn)) = Ok n \<Longrightarrow>
      session_new (env_ark env) intn (nonce_public (env_ark env) n, pn) sn = Ok s \<Longrightarrow>
      \<exists>share. nonce_sign (env_ark env) n user s = Ok share"
    and aggregates: "spend_intent env fl sl fx intn \<Longrightarrow> session_new (env_ark env) intn (nonce_public (env_ark env) n, pn) sn = Ok s \<Longrightarrow>
      test_key fl 0x42 = Ok user \<Longrightarrow> fst (in_members intn) = fl_public_key fl user \<Longrightarrow>
      nonce_sign (env_ark env) n user s = Ok us \<Longrightarrow> sf_verify_member sl s 1 ps = Ok () \<Longrightarrow>
      (sp = None \<longleftrightarrow> in_server intn = None) \<Longrightarrow> (\<And>p. sp = Some p \<Longrightarrow> verify_server (env_ark env) s p = Ok ()) \<Longrightarrow>
      \<exists>sig. sf_aggregate sl s (us, ps) sp = Ok sig \<and> sf_verify_schnorr sl sig (in_message intn) (intent_key intn) = Ok () \<and>
        (\<forall>p. sp = Some p \<longrightarrow> (\<exists>g. sf_combine_members sl s (us, ps) = Ok g \<and>
          sf_combine_partial_signatures sl (si_participants (fx_input fx)) (sf_aggregate_nonce sl s) (in_message intn)
            (sf_intent_tweak sl intn) [g, p] = sig))"
    and verify_signature_iff: "spend_intent env fl sl fx intn \<Longrightarrow>
      sf_verify_signature sl (fx_input fx) sig = Ok () \<longleftrightarrow> sf_verify_schnorr sl sig (in_message intn) (intent_key intn) = Ok ()"
    and taproot_sighash: "sighash (env_spend env) inp = Ok h \<Longrightarrow> map Some outs = map pi_witness_utxo (psbt_inputs (si_psbt inp)) \<Longrightarrow>
      (case si_script_leaf inp of
         Some leaf \<Rightarrow> sf_script_spend_sighash sl (psbt_unsigned_tx (si_psbt inp)) (si_input_index inp) outs leaf
       | None \<Rightarrow> sf_key_spend_sighash sl (psbt_unsigned_tx (si_psbt inp)) (si_input_index inp) outs) = Ok h"
    and intent_key_claim: "spend_intent env fl sl fx intn \<Longrightarrow> si_script_leaf (fx_input fx) \<noteq> None \<Longrightarrow>
      \<exists>g. fl_group_key fl (fx_key fx) = Ok g \<and> sf_pubkey_x_only sl g = intent_key intn"
    and intent_key_native: "spend_intent env fl sl fx intn \<Longrightarrow> si_script_leaf (fx_input fx) = None \<Longrightarrow>
      pi_witness_utxo (psbt_inputs (si_psbt (fx_input fx)) ! si_input_index (fx_input fx)) = Some out \<Longrightarrow>
      2 \<le> length (txo_script_pubkey out) \<and> sf_xonly_from_slice sl (drop 2 (txo_script_pubkey out)) = Ok (intent_key intn)"
    and not_hex: "\<exists>e. parse_nonce (env_ark env) ''not-hex'' = Err e" "\<exists>e. parse_partial (env_ark env) ''not-hex'' = Err e"
    and zero_nonce: "\<exists>e. parse_nonce (env_ark env) (hex_encode (env_ark env) (replicate 66 0)) = Err e"
    and zero_share: "parse_partial (env_ark env) (hex_encode (env_ark env) (replicate 32 0)) = Ok z \<Longrightarrow>
      \<exists>e. verify_server (env_ark env) s z = Err e"
    and no_panic: "parse_partial (env_ark env) str \<noteq> Panic" "parse_nonce (env_ark env) str \<noteq> Panic" "verify_server (env_ark env) s p \<noteq> Panic"
    and cancelling: "session_new (env_ark env) intn ns sn = Ok s \<Longrightarrow> in_server intn \<noteq> None \<Longrightarrow>
      \<exists>inv nonce. negate_points (sf_negate_point sl) 2 (sf_nonce_serialize sl (sf_group_nonce sl s)) = Ok inv \<and>
        sf_nonce_from_byte_array sl inv = Ok nonce \<and>
        parse_nonce (env_ark env) (hex_encode (env_ark env) (sf_nonce_serialize sl nonce)) = Ok nonce \<and>
        (\<exists>e. session_new (env_ark env) intn ns (Some nonce) = Err e)"
begin

definition honest ::
  "xpriv \<Rightarrow> fixture \<Rightarrow> intent \<Rightarrow> program_instance \<Rightarrow> prepared_session \<Rightarrow> pending \<Rightarrow> bool" where
  "honest root fx intn inst pd p \<longleftrightarrow>
     (\<exists>a b n n' nonces.
        nonce_new (env_ark env) a intn (fst (in_members intn)) = Ok n \<and>
        nonce_new (env_ark env) b intn (snd (in_members intn)) = Ok n' \<and>
        pd_program_id p = instance_id (env_ark env) inst \<and> pd_intent p = intn \<and>
        pd_user_nonce p = nonce_public (env_ark env) n \<and> pd_nonce p = n' \<and> pp_user_nonce pd = n \<and>
        session_new (env_ark env) intn (nonce_public (env_ark env) n, nonce_public (env_ark env) n')
          (map_option snd nonces) = Ok (pp_session pd) \<and>
        (nonces = None \<longleftrightarrow> in_server intn = None) \<and>
        (\<forall>q. nonces = Some q \<longrightarrow> (\<exists>seed kp. q = sf_nonce_pair_with_msg sl seed kp (in_message intn))) \<and>
        (pp_server_partial pd = None \<longleftrightarrow> in_server intn = None) \<and>
        (\<forall>sp. pp_server_partial pd = Some sp \<longrightarrow> verify_server (env_ark env) (pp_session pd) sp = Ok ()) \<and>
        fq_protocol (pp_finish pd) = SIGNING_PROTOCOL (env_deploy env) \<and>
        fq_server_nonce (pp_finish pd) =
          map_option (\<lambda>q. hex_encode (env_ark env) (sf_nonce_serialize sl (snd q))) nonces \<and>
        fq_server_partial (pp_finish pd) =
          map_option (\<lambda>q. hex_encode (env_ark env) (sf_partial_serialize sl q)) (pp_server_partial pd))"

lemma honestE:
  assumes "honest root fx intn inst pd p"
  obtains (honest) a b n n' nonces where
    "nonce_new (env_ark env) a intn (fst (in_members intn)) = Ok n"
    "nonce_new (env_ark env) b intn (snd (in_members intn)) = Ok n'"
    "pd_program_id p = instance_id (env_ark env) inst" "pd_intent p = intn"
    "pd_user_nonce p = nonce_public (env_ark env) n" "pd_nonce p = n'" "pp_user_nonce pd = n"
    "session_new (env_ark env) intn (nonce_public (env_ark env) n, nonce_public (env_ark env) n')
      (map_option snd nonces) = Ok (pp_session pd)"
    "nonces = None \<longleftrightarrow> in_server intn = None"
    "\<forall>q. nonces = Some q \<longrightarrow> (\<exists>seed kp. q = sf_nonce_pair_with_msg sl seed kp (in_message intn))"
    "pp_server_partial pd = None \<longleftrightarrow> in_server intn = None"
    "\<forall>sp. pp_server_partial pd = Some sp \<longrightarrow> verify_server (env_ark env) (pp_session pd) sp = Ok ()"
    "fq_protocol (pp_finish pd) = SIGNING_PROTOCOL (env_deploy env)"
    "fq_server_nonce (pp_finish pd) =
      map_option (\<lambda>q. hex_encode (env_ark env) (sf_nonce_serialize sl (snd q))) nonces"
    "fq_server_partial (pp_finish pd) =
      map_option (\<lambda>q. hex_encode (env_ark env) (sf_partial_serialize sl q)) (pp_server_partial pd)"
  using assms unfolding honest_def by (elim exE conjE) (rule that; assumption)

lemma honest_open:
  assumes "honest root fx intn inst pd p"
  shows "\<exists>a pn sn. nonce_new (env_ark env) a intn (fst (in_members intn)) = Ok (pp_user_nonce pd) \<and>
      session_new (env_ark env) intn (nonce_public (env_ark env) (pp_user_nonce pd), pn) sn = Ok (pp_session pd)"
    and "pp_server_partial pd = None \<longleftrightarrow> in_server intn = None"
    and "\<forall>sp. pp_server_partial pd = Some sp \<longrightarrow> verify_server (env_ark env) (pp_session pd) sp = Ok ()"
  by (rule honestE [OF assms]; simp; blast)+

lemma server_share_honest:
  assumes "spend_intent env fl sl fx intn"
    and "session_new (env_ark env) intn ns (map_option snd nonces) = Ok s"
    and "nonces = map_option (\<lambda>kp. sf_nonce_pair_with_msg sl seed kp (in_message intn)) (fx_server fx)"
  shows "\<exists>sp. server_share env sl fx intn s nonces = Ok sp \<and> (sp = None \<longleftrightarrow> fx_server fx = None) \<and>
    (\<forall>q. sp = Some q \<longrightarrow> verify_server (env_ark env) s q = Ok ())"
proof (cases "fx_server fx")
  case None
  then show ?thesis by (simp add: server_share_def)
next
  case (Some kp)
  with server_signs [OF assms(1) Some, of ns seed s] assms(2,3) show ?thesis
    by (auto simp: server_share_def Let_def split: prod.splits)
qed

lemma fixture_prepare_run:
  assumes "ready env fl sl sg fx intn inst" "test_root fl = Ok root"
    and t: "\<not> as_poisoned sg" "tbl_retain (\<lambda>p. or_now orc (Suc k) < pd_expires p) t0 = t" "known t k"
      "length t < MAX_PENDING_SESSIONS"
      "tbl_count (\<lambda>p. wallet p = pk_user_pubkey (fx_key fx)) t < MAX_SESSIONS_PER_USER"
  shows "\<exists>pd p k'. fixture_prepare env fl sl orc fx (at sg t0 k) =
      Returned pd (at sg (t @ [(or_session orc (Suc k) 0, p)]) k') \<and>
    honest root fx intn inst pd p \<and> fq_session (pp_finish pd) = or_session orc (Suc k) 0 \<and>
    wallet p = pk_user_pubkey (fx_key fx) \<and> (\<forall>j. or_now orc j < pd_expires p) \<and> Suc (Suc k) \<le> k' \<and>
    nonce_new (env_ark env) (or_seed orc (Suc k)) intn (snd (in_members intn)) = Ok (pd_nonce p)"
proof -
  let ?lib = "env_ark env" and ?sid = "or_session orc (Suc k) 0"
  from assms(1) obtain action user x where r: "fixture_action fl sl fx = Ok action"
      "action_intent ?lib action (fx_key fx) = Ok intn"
      "in_members intn = (pk_user_pubkey (fx_key fx), even_public_key ?lib x)"
      "sf_program_pubkey sl (fx_key fx) = Ok (even_public_key ?lib x)"
      "in_server intn = map_option (fl_public_key fl) (fx_server fx)"
    and chk: "\<And>seed nonce. nonce_new ?lib seed intn (pk_user_pubkey (fx_key fx)) = Ok nonce \<Longrightarrow>
       check_prepare env sg (request_with env fx action nonce) = Ok (intn, nonce_public ?lib nonce, inst)"
    unfolding ready_def by blast
  obtain n where n: "nonce_new ?lib (or_seed orc k) intn (pk_user_pubkey (fx_key fx)) = Ok n"
    using member_nonce [of "pk_user_pubkey (fx_key fx)" intn] r(3) by auto
  obtain n' where n': "nonce_new ?lib (or_seed orc (Suc k)) intn (even_public_key ?lib x) = Ok n'"
    using member_nonce [of "even_public_key ?lib x" intn] r(3) by auto
  let ?c = "(intn, nonce_public ?lib n, inst)" and ?rq = "request_with env fx action n"
  let ?p = "new_pending env orc (Suc k) ?c n'" and ?t = "t @ [(?sid, new_pending env orc (Suc k) ?c n')]"
  have prep: "call_prepare env orc ?rq (at sg t0 (Suc k)) = Returned (Ok (reserved env orc (Suc k) n')) (at sg ?t (Suc (Suc k)))"
    by (rule prepare_admitted_pruning) (use t chk [OF n] n' r(3) in \<open>simp_all add: known_later\<close>)
  have req: "fixture_request env fl sl orc fx (at sg t0 k) = Returned (?rq, n) (at sg t0 (Suc k))"
    by (simp add: fixture_request_def r(1,2) new_nonce_def n test_return_def request_with_def)
  note codec = nonce_codec [OF n', folded reserved_def]
  define nonces where "nonces = map_option (\<lambda>kp. sf_nonce_pair_with_msg sl (or_seed orc (Suc (Suc k))) kp (in_message intn)) (fx_server fx)"
  obtain k' where k': "server_nonces sl orc (fx_server fx) intn (at sg ?t (Suc (Suc k))) = Returned nonces (at sg ?t k')"
      "Suc (Suc k) \<le> k'"
    by (cases "fx_server fx") (auto simp: server_nonces_def nonces_def)
  obtain s where s: "session_new ?lib intn (nonce_public ?lib n, nonce_public ?lib n') (map_option snd nonces) = Ok s"
    using session_opens [of "or_seed orc k" intn n "or_seed orc (Suc k)" n' "map_option snd nonces"] n n' r(3,5)
    by (cases "fx_server fx") (auto simp: nonces_def)
  have "spend_intent env fl sl fx intn" using r(1,2) by (simp add: spend_intent_def)
  from server_share_honest [OF this s nonces_def] obtain sp where sp: "server_share env sl fx intn s nonces = Ok sp"
      "sp = None \<longleftrightarrow> fx_server fx = None" "\<forall>q. sp = Some q \<longrightarrow> verify_server ?lib s q = Ok ()"
    by (elim exE conjE)
  let ?pd = "\<lparr>pp_user_nonce = n, pp_session = s, pp_server_partial = sp,
    pp_finish = \<lparr>fq_protocol = SIGNING_PROTOCOL (env_deploy env), fq_session = ?sid,
      fq_server_nonce = map_option (\<lambda>p. hex_encode ?lib (sf_nonce_serialize sl (snd p))) nonces,
      fq_server_partial = map_option (\<lambda>p. hex_encode ?lib (sf_partial_serialize sl p)) sp\<rparr>\<rparr>"
  have "fixture_prepare env fl sl orc fx (at sg t0 k) = Returned ?pd (at sg ?t k')"
    using codec r(2,3,4) k'(1) s sp(1)
    by (simp add: fixture_prepare_def req prep assert_that_def test_return_def)
  moreover have "honest root fx intn inst ?pd ?p"
  proof -
    have "nonces = None \<longleftrightarrow> in_server intn = None" "sp = None \<longleftrightarrow> in_server intn = None"
      using r(5) sp(2) by (simp_all add: nonces_def)
    moreover have "\<forall>q. nonces = Some q \<longrightarrow> (\<exists>seed kp. q = sf_nonce_pair_with_msg sl seed kp (in_message intn))"
      unfolding nonces_def by (cases "fx_server fx") auto
    ultimately show ?thesis
      unfolding honest_def
      by (intro exI [of _ "or_seed orc k"] exI [of _ "or_seed orc (Suc k)"] exI [of _ n] exI [of _ n'] exI [of _ nonces] conjI)
        (use n n' r(3) s sp(3) in simp_all)
  qed
  ultimately show ?thesis
    using new_pending_young r(3) k'(2) n' by (intro exI [of _ ?pd] exI [of _ ?p] exI [of _ k']) (simp add: wallet_def)
qed

text \<open>The share of an honest finish, with or without the share of the server.\<close>

lemma finish_pending_honest:
  assumes "honest root fx intn inst pd p" "ready env fl sl sg fx intn inst"
    and "test_root fl = Ok root" "as_public_root sg = xpub_from_priv (env_ark env) root" "now < pd_expires p"
    and "rq = pp_finish pd \<or> rq = (pp_finish pd)\<lparr>fq_server_partial := None\<rparr>"
  shows "\<exists>share. finish_pending env root now rq p =
      Ok \<lparr>fs_protocol = SIGNING_PROTOCOL (env_deploy env), fs_program_partial = hex_encode (env_ark env) share\<rparr> \<and>
    parse_partial (env_ark env) (hex_encode (env_ark env) share) = Ok share \<and>
    sf_verify_member sl (pp_session pd) 1 share = Ok ()"
proof -
  let ?lib = "env_ark env"
  from assms(2) obtain x where x: "derive_public_key ?lib inst (xpub_from_priv ?lib root) = Ok x"
    "snd (in_members intn) = even_public_key ?lib x"
    unfolding ready_def assms(4) by auto
  obtain a b n n' nonces where h: "nonce_new ?lib a intn (fst (in_members intn)) = Ok n"
      "nonce_new ?lib b intn (snd (in_members intn)) = Ok n'"
      "pd_program_id p = instance_id ?lib inst" "pd_intent p = intn" "pd_user_nonce p = nonce_public ?lib n" "pd_nonce p = n'"
      "pp_user_nonce pd = n"
      "session_new ?lib intn (nonce_public ?lib n, nonce_public ?lib n') (map_option snd nonces) = Ok (pp_session pd)"
      "nonces = None \<longleftrightarrow> in_server intn = None"
      "\<forall>q. nonces = Some q \<longrightarrow> (\<exists>seed kp. q = sf_nonce_pair_with_msg sl seed kp (in_message intn))"
      "pp_server_partial pd = None \<longleftrightarrow> in_server intn = None"
      "\<forall>sp. pp_server_partial pd = Some sp \<longrightarrow> verify_server ?lib (pp_session pd) sp = Ok ()"
      "fq_protocol (pp_finish pd) = SIGNING_PROTOCOL (env_deploy env)"
      "fq_server_nonce (pp_finish pd) = map_option (\<lambda>q. hex_encode ?lib (sf_nonce_serialize sl (snd q))) nonces"
      "fq_server_partial (pp_finish pd) = map_option (\<lambda>q. hex_encode ?lib (sf_partial_serialize sl q)) (pp_server_partial pd)"
    by (rule honestE [OF assms(1)])
  from program_signs [OF assms(3) x(1,2) h(2,8)] obtain d kp share where
    share: "derive_priv ?lib root (program_derivation_path ?lib (instance_id ?lib inst)) = Ok d"
      "add_xonly_tweak ?lib (to_keypair ?lib d) SCALAR_ZERO = Ok kp" "nonce_sign ?lib n' kp (pp_session pd) = Ok share"
      "parse_partial ?lib (hex_encode ?lib share) = Ok share" "sf_verify_member sl (pp_session pd) 1 share = Ok ()"
    by blast
  have nonce: "transpose_res (parse_nonce ?lib) (map_option (\<lambda>q. hex_encode ?lib (sf_nonce_serialize sl (snd q))) nonces) =
      Ok (map_option snd nonces)"
    using h(10) by (cases nonces) (auto simp: server_nonce_codec)
  have sp: "transpose_res (parse_partial ?lib) (map_option (\<lambda>q. hex_encode ?lib (sf_partial_serialize sl q)) (pp_server_partial pd)) =
      Ok (pp_server_partial pd)"
    by (cases "pp_server_partial pd") (auto simp: partial_codec)
  have vs: "(case pp_server_partial pd of None \<Rightarrow> Ok () | Some s \<Rightarrow> verify_server ?lib (pp_session pd) s) = Ok ()"
    using h(12) by (cases "pp_server_partial pd") auto
  have "finish_pending env root now rq p =
      Ok \<lparr>fs_protocol = SIGNING_PROTOCOL (env_deploy env), fs_program_partial = hex_encode ?lib share\<rparr>"
    using assms(5,6) h(3-6,8,9,11,13-15) share nonce sp vs by (auto simp: finish_pending_def Let_def)
  with share(4,5) show ?thesis by blast
qed

subsection \<open>Completion\<close>

lemma fixture_verify_run:
  assumes "ready env fl sl sg fx intn inst" "sf_verify_schnorr sl sig (in_message intn) (intent_key intn) = Ok ()"
  shows "fixture_verify env fl sl fx sig s = Returned () s"
proof -
  let ?inp = "fx_input fx"
  let ?ms = "psbt_inputs (si_psbt ?inp)"
  let ?outs = "map (\<lambda>m. the (pi_witness_utxo m)) ?ms"
  from assms(1) have r: "sighash (env_spend env) ?inp = Ok (in_message intn)"
      "list_all (\<lambda>m. pi_witness_utxo m \<noteq> None) ?ms" "si_input_index ?inp < length ?ms"
    and si: "spend_intent env fl sl fx intn"
    unfolding ready_def spend_intent_def by blast+
  have outs: "map Some ?outs = map pi_witness_utxo ?ms" using r(2) by (auto simp: list_all_iff)
  have collect: "collect_res (\<lambda>m. ok_or e (pi_witness_utxo m)) ?ms = Ok ?outs" for e :: error
    using r(2) by (auto simp: collect_res_eq_Ok list_all2_conv_all_nth list_all_iff ok_or_eq_Ok)
  note sh = taproot_sighash [OF r(1) outs]
  have key: "(if si_script_leaf ?inp \<noteq> None
      then bind_res (fl_group_key fl (fx_key fx)) (\<lambda>grp. Ok (sf_pubkey_x_only sl grp))
      else if si_input_index ?inp < length ?outs \<and> 2 \<le> length (txo_script_pubkey (?outs ! si_input_index ?inp))
      then sf_xonly_from_slice sl (drop 2 (txo_script_pubkey (?outs ! si_input_index ?inp))) else Panic) = Ok (intent_key intn)"
  proof (cases "si_script_leaf ?inp")
    case None
    have "pi_witness_utxo (?ms ! si_input_index ?inp) = Some (?outs ! si_input_index ?inp)"
      using r(2,3) by (auto simp: list_all_length)
    from intent_key_native [OF si None this] None r(3) show ?thesis by simp
  next
    case (Some leaf)
    with intent_key_claim [OF si] show ?thesis by auto
  qed
  show ?thesis
    using verify_signature_iff [OF si, of sig] assms(2) collect sh key r(1)
    by (simp only: fixture_verify_def Let_def run_bind unwrap.simps assert_that_def if_True simp_thms)
qed

text \<open>The wallet completes an honest session with the share of the program.\<close>

definition completes :: "fixture \<Rightarrow> intent \<Rightarrow> prepared_session \<Rightarrow> finish_response \<Rightarrow> bool" where
  "completes fx intn pd response \<longleftrightarrow> (\<forall>s. \<exists>sig. prepared_complete env fl sl pd fx response s = Returned sig s \<and>
     sf_verify_schnorr sl sig (in_message intn) (intent_key intn) = Ok ())"

lemma complete_honest:
  assumes "honest root fx intn inst pd p" "ready env fl sl sg fx intn inst"
    and "parse_partial (env_ark env) (hex_encode (env_ark env) share) = Ok share"
    and "sf_verify_member sl (pp_session pd) 1 share = Ok ()"
  shows "completes fx intn pd
    \<lparr>fs_protocol = SIGNING_PROTOCOL (env_deploy env), fs_program_partial = hex_encode (env_ark env) share\<rparr>"
  unfolding completes_def
proof
  fix s :: test_state
  let ?lib = "env_ark env"
  let ?n = "pp_user_nonce pd"
  obtain a pn sn where h: "nonce_new ?lib a intn (fst (in_members intn)) = Ok ?n"
      "session_new ?lib intn (nonce_public ?lib ?n, pn) sn = Ok (pp_session pd)"
    using honest_open(1) [OF assms(1)] by blast
  note h = h honest_open(2,3) [OF assms(1)]
  from assms(2) obtain user where u: "test_key fl 0x42 = Ok user" "fst (in_members intn) = fl_public_key fl user"
    and si: "spend_intent env fl sl fx intn"
    unfolding ready_def spend_intent_def by auto
  from user_signs [OF u h(1,2)] obtain us where us: "nonce_sign ?lib ?n user (pp_session pd) = Ok us" by blast
  from aggregates [OF si h(2) u us assms(4) h(3)] h(4) obtain sig where
    sig: "sf_aggregate sl (pp_session pd) (us, share) (pp_server_partial pd) = Ok sig"
      "sf_verify_schnorr sl sig (in_message intn) (intent_key intn) = Ok ()"
      "\<forall>q. pp_server_partial pd = Some q \<longrightarrow> (\<exists>g. sf_combine_members sl (pp_session pd) (us, share) = Ok g \<and>
         sf_combine_partial_signatures sl (si_participants (fx_input fx)) (sf_aggregate_nonce sl (pp_session pd))
           (in_message intn) (sf_intent_tweak sl intn) [g, q] = sig)"
    by blast
  have "(case pp_server_partial pd of
          None \<Rightarrow> test_return ()
        | Some server \<Rightarrow>
            test_bind (unwrap (sf_combine_members sl (pp_session pd) (us, share))) (\<lambda>grp.
            assert_that (sf_combine_partial_signatures sl (si_participants (fx_input fx))
              (sf_aggregate_nonce sl (pp_session pd)) (sf_session_message sl (pp_session pd))
              (sf_session_tweak sl (pp_session pd)) [grp, server] = sig))) s = Returned () s"
    using sig(3) session_keeps [OF h(2)]
    by (cases "pp_server_partial pd") (auto simp: test_return_def assert_that_def)
  then have "prepared_complete env fl sl pd fx
      \<lparr>fs_protocol = SIGNING_PROTOCOL (env_deploy env), fs_program_partial = hex_encode ?lib share\<rparr> s = Returned sig s"
    using assms(3,4) us sig(1) fixture_verify_run [OF assms(2) sig(2)] u(1)
    by (simp add: prepared_complete_def Let_def assert_that_def test_return_def)
  with sig(2) show "\<exists>sig. prepared_complete env fl sl pd fx
      \<lparr>fs_protocol = SIGNING_PROTOCOL (env_deploy env), fs_program_partial = hex_encode ?lib share\<rparr> s = Returned sig s \<and>
      sf_verify_schnorr sl sig (in_message intn) (intent_key intn) = Ok ()"
    by blast
qed

subsection \<open>Triples of a session\<close>

text \<open>A signer of the tests.\<close>

definition lab_signer :: "xpriv \<Rightarrow> ark_signer \<Rightarrow> bool" where
  "lab_signer root sg \<longleftrightarrow> test_root fl = Ok root \<and> as_root sg = root \<and>
     as_public_root sg = xpub_from_priv (env_ark env) root \<and> \<not> as_poisoned sg"

lemma lab_signer_Ok:
  obtains root sg where "test_signer env fl = Ok sg" "lab_signer root sg" "as_pending sg = []"
proof -
  from master registry obtain root es where "test_root fl = Ok root" "xprv_depth root = 0"
    "evaluators (env_deploy env) = Ok es" by blast
  with that show ?thesis by (auto simp: test_signer_def ark_signer_new_def lab_signer_def)
qed

abbreviation session_of :: "prepared_session \<Rightarrow> hash" where
  "session_of pd \<equiv> fq_session (pp_finish pd)"

lemma triple_prepare:
  assumes "ready env fl sl sg fx intn inst" "lab_signer root sg"
  shows "triple (holding sg (\<lambda>t. length t < MAX_PENDING_SESSIONS \<and>
      tbl_count (\<lambda>p. wallet p = pk_user_pubkey (fx_key fx)) t < MAX_SESSIONS_PER_USER \<and>
      (\<forall>pd p. honest root fx intn inst pd p \<longrightarrow> map_of t (session_of pd) = None \<longrightarrow>
         wallet p = pk_user_pubkey (fx_key fx) \<longrightarrow> \<Phi> pd (t @ [(session_of pd, p)]))))
    (fixture_prepare env fl sl orc fx) (\<lambda>pd. holding sg (\<Phi> pd))"
  unfolding triple_def
proof (intro allI impI, elim holdingE conjE)
  fix s t k
  assume s: "s = at sg t k" and t: "\<not> as_poisoned sg" "young t" "known t k" "length t < MAX_PENDING_SESSIONS"
      "tbl_count (\<lambda>p. wallet p = pk_user_pubkey (fx_key fx)) t < MAX_SESSIONS_PER_USER"
    and \<Phi>: "\<forall>pd p. honest root fx intn inst pd p \<longrightarrow> map_of t (session_of pd) = None \<longrightarrow>
         wallet p = pk_user_pubkey (fx_key fx) \<longrightarrow> \<Phi> pd (t @ [(session_of pd, p)])"
  from assms(2) have root: "test_root fl = Ok root" by (simp add: lab_signer_def)
  from fixture_prepare_run [OF assms(1) root t(1) retain_young [OF t(2)] t(3-5)] obtain pd p k' where
    run: "fixture_prepare env fl sl orc fx s = Returned pd (at sg (t @ [(or_session orc (Suc k) 0, p)]) k')"
      "honest root fx intn inst pd p" "session_of pd = or_session orc (Suc k) 0"
      "wallet p = pk_user_pubkey (fx_key fx)" "\<forall>j. or_now orc j < pd_expires p" "Suc (Suc k) \<le> k'"
    unfolding s by blast
  have "known t (Suc k)" using t(3) by (rule known_later) simp
  then have "known (t @ [(or_session orc (Suc k) 0, p)]) k'"
    using run(6) by (intro known_later [OF _ run(6)]) (simp add: known_later)
  moreover have "\<Phi> pd (t @ [(or_session orc (Suc k) 0, p)])"
    using \<Phi> run(2-4) known_fresh [OF \<open>known t (Suc k)\<close>, of 0] by metis
  ultimately have "holding sg (\<Phi> pd) (at sg (t @ [(or_session orc (Suc k) 0, p)]) k')"
    using t(1,2) run(5) by simp
  with run(1) show "\<exists>x s'. fixture_prepare env fl sl orc fx s = Returned x s' \<and> holding sg (\<Phi> x) s'" by blast
qed

lemma call_finish_known:
  assumes "\<not> as_poisoned sg" "map_of t (fq_session rq) = Some p" "finish_pending env (as_root sg) (or_now orc k) rq p = r" "r \<noteq> Panic"
  shows "call_finish env orc rq (at sg t k) = Returned r (at sg (tbl_remove (fq_session rq) t) (Suc k))"
  using assms by (cases r) (simp_all add: call_finish_def finish_def Let_def)

lemma triple_call_finish:
  assumes "honest root fx intn inst pd p" "ready env fl sl sg fx intn inst" "lab_signer root sg"
    and "rq = pp_finish pd \<or> rq = (pp_finish pd)\<lparr>fq_server_partial := None\<rparr>"
  shows "triple (holding sg (\<lambda>t. map_of t (session_of pd) = Some p \<and> \<Phi> (tbl_remove (session_of pd) t)))
    (call_finish env orc rq) (\<lambda>r s. holding sg \<Phi> s \<and> (\<exists>response. r = Ok response \<and> completes fx intn pd response))"
  unfolding triple_def
proof (intro allI impI, elim holdingE conjE)
  fix s t k
  assume s: "s = at sg t k" and t: "\<not> as_poisoned sg" "young t" "known t k" "map_of t (session_of pd) = Some p"
    "\<Phi> (tbl_remove (session_of pd) t)"
  from assms(3) have root: "test_root fl = Ok root" "as_root sg = root" "as_public_root sg = xpub_from_priv (env_ark env) root"
    by (simp_all add: lab_signer_def)
  have "or_now orc k < pd_expires p"
    using t(2) map_of_SomeD [OF t(4)] by (force simp: young_def list_all_iff)
  from finish_pending_honest [OF assms(1,2) root(1,3) this assms(4)] obtain share where
    f: "finish_pending env root (or_now orc k) rq p =
      Ok \<lparr>fs_protocol = SIGNING_PROTOCOL (env_deploy env), fs_program_partial = hex_encode (env_ark env) share\<rparr>"
    and c: "parse_partial (env_ark env) (hex_encode (env_ark env) share) = Ok share" "sf_verify_member sl (pp_session pd) 1 share = Ok ()"
    by blast
  from assms(4) have "fq_session rq = session_of pd" by auto
  with call_finish_known [OF t(1) _ f [folded root(2)]] t complete_honest [OF assms(1,2) c]
  show "\<exists>x s'. call_finish env orc rq s = Returned x s' \<and> holding sg \<Phi> s' \<and>
      (\<exists>response. x = Ok response \<and> completes fx intn pd response)"
    by (simp add: s known_later young_remove known_remove)
qed

lemmas triple_finish = triple_call_finish [THEN triple_unwrap_of]

text \<open>A finish that fails, of a known session and of one that is gone.\<close>

lemma triple_finish_fails:
  assumes "\<And>now. \<exists>e. finish_pending env (as_root sg) now rq p = Err e"
  shows "triple (holding sg (\<lambda>t. map_of t (fq_session rq) = Some p \<and> \<Phi> (tbl_remove (fq_session rq) t)))
    (test_bind (call_finish env orc rq) unwrap_err) (\<lambda>_. holding sg \<Phi>)"
  unfolding triple_def
proof (intro allI impI, elim holdingE conjE)
  fix s t k
  assume s: "s = at sg t k" and t: "\<not> as_poisoned sg" "young t" "known t k" "map_of t (fq_session rq) = Some p"
    "\<Phi> (tbl_remove (fq_session rq) t)"
  from assms [of "or_now orc k"] obtain e where e: "finish_pending env (as_root sg) (or_now orc k) rq p = Err e" by blast
  with call_finish_known [OF t(1,4) e] t
  show "\<exists>x s'. test_bind (call_finish env orc rq) unwrap_err s = Returned x s' \<and> holding sg \<Phi> s'"
    by (simp add: s known_later young_remove known_remove)
qed

lemma tbl_remove_absent: "map_of t sid = None \<Longrightarrow> tbl_remove sid t = t"
  by (simp add: tbl_remove_def delete_id map_of_eq_None_iff)

lemma triple_call_finish_unknown:
  "triple (holding sg (\<lambda>t. map_of t (fq_session rq) = None \<and> \<Phi> t))
    (call_finish env orc rq) (\<lambda>r s. holding sg \<Phi> s \<and> (\<exists>e. r = Err e))"
  unfolding triple_def
proof (intro allI impI, elim holdingE conjE)
  fix s t k
  assume s: "s = at sg t k" and t: "\<not> as_poisoned sg" "young t" "known t k" "map_of t (fq_session rq) = None" "\<Phi> t"
  then show "\<exists>x s'. call_finish env orc rq s = Returned x s' \<and> holding sg \<Phi> s' \<and> (\<exists>e. x = Err e)"
    by (simp add: s call_finish_def finish_def Let_def tbl_remove_absent known_later)
qed

lemmas triple_finish_unknown = triple_call_finish_unknown [THEN triple_unwrap_err_of]

text \<open>Cancelling: by the right protocol, by a wrong one, and of a session that is gone.\<close>

lemma triple_call_cancel:
  assumes "cq_protocol rq = SIGNING_PROTOCOL (env_deploy env)"
  shows "triple (holding sg (\<lambda>t. map_of t (cq_session rq) \<noteq> None \<and> \<Phi> (tbl_remove (cq_session rq) t)))
    (call_cancel env rq) (\<lambda>r s. holding sg \<Phi> s \<and> r = Ok ())"
  using assms
  by (fastforce simp: triple_def call_cancel_def cancel_def elim!: holdingE intro: known_later young_remove known_remove)

lemma triple_call_cancel_fails:
  "triple (holding sg (\<lambda>t. (cq_protocol rq \<noteq> SIGNING_PROTOCOL (env_deploy env) \<or> map_of t (cq_session rq) = None) \<and>
      \<Phi> (tbl_remove (cq_session rq) t)))
    (call_cancel env rq) (\<lambda>r s. holding sg \<Phi> s \<and> (\<exists>e. r = Err e))"
  unfolding triple_def
proof (intro allI impI, elim holdingE conjE)
  fix s t k
  assume s: "s = at sg t k" and t: "\<not> as_poisoned sg" "young t" "known t k"
    "cq_protocol rq \<noteq> SIGNING_PROTOCOL (env_deploy env) \<or> map_of t (cq_session rq) = None"
    "\<Phi> (tbl_remove (cq_session rq) t)"
  then show "\<exists>x s'. call_cancel env rq s = Returned x s' \<and> holding sg \<Phi> s' \<and> (\<exists>e. x = Err e)"
    by (auto simp: s call_cancel_def cancel_def known_later young_remove known_remove)
qed

lemmas triple_cancel_fails = triple_call_cancel_fails [THEN triple_unwrap_err_of]

lemma tbl_remove_gone: "map_of (tbl_remove sid t) sid = None"
  by (simp add: tbl_remove_def delete_conv)

text \<open>An invalid finish consumes the session.\<close>

lemma triple_consumed:
  assumes "\<And>now. \<exists>e. finish_pending env (as_root sg) now rq p = Err e" "fq_session rq = session_of pd"
  shows "triple (holding sg (\<lambda>t. map_of t (session_of pd) = Some p \<and> \<Phi> (tbl_remove (session_of pd) t)))
    (consumed env orc pd rq) (\<lambda>_. holding sg \<Phi>)"
proof -
  let ?gone = "\<lambda>t. map_of t (session_of pd) = None \<and> \<Phi> t"
  have first: "triple (holding sg (\<lambda>t. map_of t (session_of pd) = Some p \<and> \<Phi> (tbl_remove (session_of pd) t)))
      (test_bind (call_finish env orc rq) unwrap_err) (\<lambda>_. holding sg ?gone)"
    by (rule triple_pre [OF triple_finish_fails [OF assms(1)]])
      (auto elim!: holding_mono simp: assms(2) tbl_remove_gone)
  have look: "triple (holding sg ?gone) (observe (\<lambda>s. map_of (as_pending (ts_signer s)) (session_of pd)))
      (\<lambda>entry s. holding sg ?gone s \<and> entry = None)"
    by (auto simp: triple_def observe_def elim!: holdingE)
  show ?thesis
    unfolding consumed_def
    by (rule triple_bind [OF first], rule triple_bind [OF look], rule triple_pure, rule triple_assert_then, simp,
        rule triple_discard [OF triple_finish_unknown])
qed

end

end
