(* ===== verification/Session_Tests.thy ===== *)
theory Session_Tests
  imports Session_Lab "HOL-Library.Multiset"
begin

text \<open>
  The session tests of \<open>src/src/ark_signer.rs\<close>: an invalid finish consumes its session, cancellation and
  expiry are terminal, concurrent finishes and cancellations have one winner, a restarted signer cannot
  revive a session, a native forfeit may receive the server's share later, and a completed signature
  outlives the signer. The threads of a test are run in the order of a schedule; the signer's operations
  are atomic, so every interleaving of the threads is one of the schedules.

  Each lemma is about any fixture that is \<open>ready\<close> at the signer.
\<close>

section \<open>Operations\<close>

subsection \<open>Invalid finishes\<close>

definition malformed_finishes :: "('m, 'i) signer_env \<Rightarrow> (finish_request \<Rightarrow> finish_request) list" where
  "malformed_finishes env =
     [\<lambda>r. r\<lparr>fq_protocol := ''unsupported''\<rparr>,
      \<lambda>r. r\<lparr>fq_server_nonce := Some ''not-hex''\<rparr>,
      \<lambda>r. r\<lparr>fq_server_nonce := Some (hex_encode (env_ark env) (replicate 66 0))\<rparr>,
      \<lambda>r. r\<lparr>fq_server_nonce := None\<rparr>,
      \<lambda>r. r\<lparr>fq_server_partial := Some ''not-hex''\<rparr>,
      \<lambda>r. r\<lparr>fq_server_partial := Some (hex_encode (env_ark env) (replicate 32 0))\<rparr>]"

definition malformed_finish_test ::
  "('m, 'i) signer_env \<Rightarrow> fixture_lib \<Rightarrow> spend_fixture_lib \<Rightarrow> test_oracle \<Rightarrow> (unit, unit) test" where
  "malformed_finish_test env fl sl orc =
     with_signer (test_signer env fl)
      (test_bind (unwrap (fixture_template env fl sl False)) (\<lambda>fixture.
       test_bind (for_each (malformed_finishes env) (\<lambda>mutate.
           test_bind (fixture_prepare env fl sl orc fixture) (\<lambda>prepared.
           consumed env orc prepared (mutate (pp_finish prepared))))) (\<lambda>_.
       test_bind (fixture_prepare env fl sl orc fixture) (\<lambda>first.
       test_bind (fixture_prepare env fl sl orc fixture) (\<lambda>second.
       test_bind (consumed env orc first
           ((pp_finish first)\<lparr>fq_server_partial := fq_server_partial (pp_finish second)\<rparr>)) (\<lambda>_.
       test_bind (test_bind (call_finish env orc (pp_finish second)) unwrap) (\<lambda>response.
       test_bind (prepared_complete env fl sl second fixture response) (\<lambda>_.
       test_bind (unwrap (fixture_template env fl sl True)) (\<lambda>claim.
       test_bind (fixture_prepare env fl sl orc claim) (\<lambda>prepared.
       consumed env orc prepared
         ((pp_finish prepared)\<lparr>fq_server_partial := Some (hex_encode (env_ark env) (replicate 32 0))\<rparr>)))))))))))"

definition cancelling_nonce_test ::
  "('m, 'i) signer_env \<Rightarrow> fixture_lib \<Rightarrow> spend_fixture_lib \<Rightarrow> test_oracle \<Rightarrow> (unit, unit) test" where
  "cancelling_nonce_test env fl sl orc =
     with_signer (test_signer env fl)
      (test_bind (unwrap (fixture_template env fl sl False)) (\<lambda>fixture.
       test_bind (fixture_prepare env fl sl orc fixture) (\<lambda>prepared.
       test_bind (unwrap (bind_res (negate_points (sf_negate_point sl) 2
           (sf_nonce_serialize sl (sf_group_nonce sl (pp_session prepared)))) (sf_nonce_from_byte_array sl))) (\<lambda>inverse.
       consumed env orc prepared
         ((pp_finish prepared)\<lparr>fq_server_nonce := Some (hex_encode (env_ark env) (sf_nonce_serialize sl inverse)),
           fq_server_partial := None\<rparr>)))))"

subsection \<open>Cancellation and expiry\<close>

text \<open>The tests reach into the table and set an expiry one second back. \<open>Instant\<close> arithmetic panics on
  underflow, the lookup on a missing session.\<close>

definition expire_session :: "test_oracle \<Rightarrow> hash \<Rightarrow> (test_state, unit) test" where
  "expire_session orc sid s =
     (case map_of (as_pending (ts_signer s)) sid of
        None \<Rightarrow> Panicked
      | Some p \<Rightarrow>
          if or_now orc (ts_calls s) < duration_from_secs 1 then Panicked
          else Returned () \<lparr>ts_signer = (ts_signer s)\<lparr>as_pending := tbl_insert sid
            (p\<lparr>pd_expires := or_now orc (ts_calls s) - duration_from_secs 1\<rparr>) (as_pending (ts_signer s))\<rparr>,
            ts_calls = Suc (ts_calls s)\<rparr>)"

definition cancellation_and_expiry_test ::
  "('m, 'i) signer_env \<Rightarrow> fixture_lib \<Rightarrow> spend_fixture_lib \<Rightarrow> test_oracle \<Rightarrow> (unit, unit) test" where
  "cancellation_and_expiry_test env fl sl orc =
     with_signer (test_signer env fl)
      (test_bind (unwrap (fixture_template env fl sl True)) (\<lambda>fixture.
       test_bind (for_each [SIGNING_PROTOCOL (env_deploy env), ''unsupported''] (\<lambda>protocol.
           test_bind (fixture_prepare env fl sl orc fixture) (\<lambda>prepared.
           let request = \<lparr>cq_protocol = protocol, cq_session = fq_session (pp_finish prepared)\<rparr> in
           test_bind (call_cancel env request) (\<lambda>r.
           test_bind (assert_that (is_ok r = (protocol = SIGNING_PROTOCOL (env_deploy env)))) (\<lambda>_.
           test_bind (test_bind (call_cancel env request) unwrap_err) (\<lambda>_.
           test_bind (test_bind (call_finish env orc (pp_finish prepared)) unwrap_err) (\<lambda>_.
           test_return ()))))))) (\<lambda>_.
       test_bind (fixture_prepare env fl sl orc fixture) (\<lambda>expired.
       test_bind (expire_session orc (fq_session (pp_finish expired))) (\<lambda>_.
       test_bind (consumed env orc expired (pp_finish expired)) (\<lambda>_.
       test_bind (fixture_prepare env fl sl orc fixture) (\<lambda>pruned.
       test_bind (expire_session orc (fq_session (pp_finish pruned))) (\<lambda>_.
       test_bind (fixture_prepare env fl sl orc fixture) (\<lambda>fresh.
       test_bind (observe (\<lambda>s. map_of (as_pending (ts_signer s)) (fq_session (pp_finish pruned)))) (\<lambda>entry.
       test_bind (assert_that (entry = None)) (\<lambda>_.
       test_bind (test_bind (call_finish env orc (pp_finish pruned)) unwrap_err) (\<lambda>_.
       test_bind (test_bind (call_finish env orc (pp_finish fresh)) unwrap) (\<lambda>response.
       test_bind (prepared_complete env fl sl fresh fixture response) (\<lambda>_.
       test_return ()))))))))))))))"

subsection \<open>Concurrency\<close>

text \<open>The threads of a scope in the order of a schedule, each with its result.\<close>

definition run_threads :: "(nat \<Rightarrow> ('s, 'a) test) \<Rightarrow> nat list \<Rightarrow> ('s, (nat \<times> 'a) list) test" where
  "run_threads thread schedule = collect_each schedule (\<lambda>i. test_bind (thread i) (\<lambda>r. test_return (i, r)))"

definition concurrent_finish_cancel_test ::
  "('m, 'i) signer_env \<Rightarrow> fixture_lib \<Rightarrow> spend_fixture_lib \<Rightarrow> test_oracle \<Rightarrow> bool \<Rightarrow> (unit, unit) test" where
  "concurrent_finish_cancel_test env fl sl orc finish_first =
     with_signer (test_signer env fl)
      (test_bind (unwrap (fixture_template env fl sl False)) (\<lambda>fixture.
       test_bind (fixture_prepare env fl sl orc fixture) (\<lambda>prepared.
       let retry = pp_finish prepared;
           cancel = \<lparr>cq_protocol = SIGNING_PROTOCOL (env_deploy env), cq_session = fq_session retry\<rparr> in
       test_bind (if finish_first
          then test_bind (call_finish env orc retry) (\<lambda>f. test_bind (call_cancel env cancel) (\<lambda>c. test_return (f, c)))
          else test_bind (call_cancel env cancel) (\<lambda>c. test_bind (call_finish env orc retry) (\<lambda>f. test_return (f, c))))
        (\<lambda>(finished, cancelled).
       test_bind (assert_that (is_ok finished \<noteq> is_ok cancelled)) (\<lambda>_.
       test_bind (case finished of
           Ok response \<Rightarrow> test_bind (prepared_complete env fl sl prepared fixture response) (\<lambda>_. test_return ())
         | _ \<Rightarrow> test_return ()) (\<lambda>_.
       test_bind (test_bind (call_finish env orc retry) unwrap_err) (\<lambda>_.
       test_bind (test_bind (call_cancel env cancel) unwrap_err) (\<lambda>_.
       test_return ()))))))))"

definition concurrent_finish_test ::
  "('m, 'i) signer_env \<Rightarrow> fixture_lib \<Rightarrow> spend_fixture_lib \<Rightarrow> test_oracle \<Rightarrow> nat list \<Rightarrow> (unit, unit) test" where
  "concurrent_finish_test env fl sl orc schedule =
     with_signer (test_signer env fl)
      (test_bind (unwrap (fixture_template env fl sl False)) (\<lambda>fixture.
       test_bind (fixture_prepare env fl sl orc fixture) (\<lambda>prepared.
       test_bind (run_threads (\<lambda>_. call_finish env orc (pp_finish prepared)) schedule) (\<lambda>finished.
       let results = map (\<lambda>i. map_of finished i) [0..<8] in
       test_bind (assert_that (None \<notin> set results)) (\<lambda>_.
       test_bind (assert_that (length (filter (\<lambda>r. is_ok (the r)) results) = 1)) (\<lambda>_.
       test_bind (assert_that (length (filter (\<lambda>r. \<not> is_ok (the r)) results) = 7)) (\<lambda>_.
       test_bind (observe (\<lambda>s. as_pending (ts_signer s))) (\<lambda>pending.
       test_bind (assert_that (pending = [])) (\<lambda>_.
       test_bind (test_bind (call_finish env orc (pp_finish prepared)) unwrap_err) (\<lambda>_.
       case find (\<lambda>r. is_ok (the r)) results of
         Some (Some (Ok response)) \<Rightarrow>
           test_bind (prepared_complete env fl sl prepared fixture response) (\<lambda>_. test_return ())
       | _ \<Rightarrow> assert_that False))))))))))"

subsection \<open>Restart, late server share, dropped signer\<close>

text \<open>Dropping the signer and starting another: the clock and the generator go on.\<close>

definition restart :: "ark_signer result \<Rightarrow> (test_state, unit) test" where
  "restart new s = (case new of Ok sg \<Rightarrow> Returned () (s\<lparr>ts_signer := sg\<rparr>) | _ \<Rightarrow> Panicked)"

definition fresh_signer_test ::
  "('m, 'i) signer_env \<Rightarrow> fixture_lib \<Rightarrow> spend_fixture_lib \<Rightarrow> test_oracle \<Rightarrow> (unit, unit) test" where
  "fresh_signer_test env fl sl orc =
     with_signer (test_signer env fl)
      (test_bind (unwrap (fixture_template env fl sl False)) (\<lambda>fixture.
       test_bind (fixture_prepare env fl sl orc fixture) (\<lambda>old.
       test_bind (observe (\<lambda>s. as_public_root (ts_signer s))) (\<lambda>old_root.
       test_bind (restart (test_signer env fl)) (\<lambda>_.
       test_bind (observe (\<lambda>s. as_public_root (ts_signer s))) (\<lambda>root.
       test_bind (assert_that (root = old_root)) (\<lambda>_.
       test_bind (test_bind (call_finish env orc (pp_finish old)) unwrap_err) (\<lambda>_.
       test_bind (test_bind (call_cancel env
           \<lparr>cq_protocol = SIGNING_PROTOCOL (env_deploy env), cq_session = fq_session (pp_finish old)\<rparr>) unwrap_err) (\<lambda>_.
       test_bind (fixture_prepare env fl sl orc fixture) (\<lambda>fresh.
       test_bind (assert_that (fq_session (pp_finish fresh) \<noteq> fq_session (pp_finish old))) (\<lambda>_.
       test_bind (test_bind (call_finish env orc (pp_finish old)) unwrap_err) (\<lambda>_.
       test_bind (test_bind (call_finish env orc (pp_finish fresh)) unwrap) (\<lambda>response.
       test_bind (prepared_complete env fl sl fresh fixture response) (\<lambda>_.
       test_return ()))))))))))))))"

definition native_forfeit_test ::
  "('m, 'i) signer_env \<Rightarrow> fixture_lib \<Rightarrow> spend_fixture_lib \<Rightarrow> test_oracle \<Rightarrow> (unit, unit) test" where
  "native_forfeit_test env fl sl orc =
     with_signer (test_signer env fl)
      (test_bind (unwrap (fixture_template env fl sl False)) (\<lambda>fixture.
       test_bind (fixture_prepare env fl sl orc fixture) (\<lambda>prepared.
       test_bind (test_bind (call_finish env orc ((pp_finish prepared)\<lparr>fq_server_partial := None\<rparr>)) unwrap) (\<lambda>response.
       test_bind (test_bind (call_finish env orc (pp_finish prepared)) unwrap_err) (\<lambda>_.
       test_bind (prepared_complete env fl sl prepared fixture response) (\<lambda>_.
       test_return ()))))))"

definition delayed_claim_test ::
  "('m, 'i) signer_env \<Rightarrow> fixture_lib \<Rightarrow> spend_fixture_lib \<Rightarrow> test_oracle \<Rightarrow> (unit, unit) test" where
  "delayed_claim_test env fl sl orc =
     with_signer (test_signer env fl)
      (test_bind (unwrap (fixture_template env fl sl True)) (\<lambda>fixture.
       test_bind (fixture_sign env fl sl orc fixture) (\<lambda>signature.
       fixture_verify env fl sl fixture signature)))"

section \<open>Lemmas\<close>

text \<open>In every schedule of the threads the results are those of the schedule's order.\<close>

lemma results_mset:
  assumes "distinct schedule" "set schedule = {..<n}" "map fst finished = schedule"
  shows "mset (map (map_of finished) [0..<n]) = mset (map (Some \<circ> snd) finished)"
proof -
  have d: "distinct (map fst finished)" using assms(1,3) by simp
  have "mset [0..<n] = mset schedule"
    using assms(1,2) by (intro set_eq_iff_mset_eq_distinct [THEN iffD1]) (auto simp: lessThan_atLeast0)
  then have "mset (map (map_of finished) [0..<n]) = mset (map (map_of finished) (map fst finished))"
    using assms(3) by (metis mset_map)
  also have "map (map_of finished) (map fst finished) = map (Some \<circ> snd) finished"
    using d by (auto simp: map_of_eq_Some_iff)
  finally show ?thesis .
qed

lemma one_result:
  assumes "distinct schedule" "set schedule = {..<n}" "map fst finished = schedule"
    and "finished = (i, Ok response) # rest" "\<forall>x \<in> set rest. \<exists>e. snd x = Err e"
  shows "None \<notin> set (map (map_of finished) [0..<n])"
    and "length (filter (\<lambda>r. is_ok (the r)) (map (map_of finished) [0..<n])) = 1"
    and "length (filter (\<lambda>r. \<not> is_ok (the r)) (map (map_of finished) [0..<n])) = n - 1"
    and "find (\<lambda>r. is_ok (the r)) (map (map_of finished) [0..<n]) = Some (Some (Ok response))"
proof -
  let ?rs = "map (map_of finished) [0..<n]"
  note m = results_mset [OF assms(1-3)]
  have flt: "length (filter P ?rs) = length (filter P (map (Some \<circ> snd) finished))" for P
    by (metis m mset_filter size_mset)
  have st: "set ?rs = set (map (Some \<circ> snd) finished)" by (rule mset_eq_setD [OF m])
  have none: "filter (\<lambda>r. is_ok (the r)) (map (Some \<circ> snd) rest) = []"
    and all: "filter (\<lambda>r. \<not> is_ok (the r)) (map (Some \<circ> snd) rest) = map (Some \<circ> snd) rest"
    using assms(5) by (auto simp: filter_empty_conv filter_id_conv)
  show "None \<notin> set ?rs" unfolding st by auto
  show "length (filter (\<lambda>r. is_ok (the r)) ?rs) = 1"
    unfolding flt using none by (simp add: assms(4))
  have "length finished = n" using assms(1-3) by (metis card_lessThan distinct_card length_map)
  then show "length (filter (\<lambda>r. \<not> is_ok (the r)) ?rs) = n - 1"
    unfolding flt using all by (simp add: assms(4))
  have win: "x = Some (Ok response)" if "x \<in> set ?rs" "is_ok (the x)" for x
    using that assms(5) unfolding st by (auto simp: assms(4))
  have "Some (Ok response) \<in> set ?rs" unfolding st by (simp add: assms(4))
  moreover have "is_ok (the (Some (Ok response)))" by simp
  ultimately have "find (\<lambda>r. is_ok (the r)) ?rs \<noteq> None" unfolding find_None_iff by blast
  then obtain x where x: "find (\<lambda>r. is_ok (the r)) ?rs = Some x" by blast
  then have "x \<in> set ?rs" "is_ok (the x)" by (auto simp: find_Some_iff)
  with win x show "find (\<lambda>r. is_ok (the r)) ?rs = Some (Some (Ok response))" by simp
qed

subsection \<open>Reasons of invalid finishes\<close>

context musig_lab
begin

text \<open>Every change of the list makes the finish of an honest native session fail.\<close>

lemma malformed_finish_fails:
  assumes "honest root fx intn inst pd p" "in_server intn \<noteq> None" "mutate \<in> set (malformed_finishes env)"
    and "SIGNING_PROTOCOL (env_deploy env) \<noteq> ''unsupported''"
  shows "\<exists>e. finish_pending env root now (mutate (pp_finish pd)) p = Err e"
proof -
  obtain a b n n' nonces where h: "nonce_new (env_ark env) a intn (fst (in_members intn)) = Ok n"
      "nonce_new (env_ark env) b intn (snd (in_members intn)) = Ok n'"
      "pd_program_id p = instance_id (env_ark env) inst" "pd_intent p = intn"
      "pd_user_nonce p = nonce_public (env_ark env) n" "pd_nonce p = n'" "pp_user_nonce pd = n"
      "session_new (env_ark env) intn (nonce_public (env_ark env) n, nonce_public (env_ark env) n')
        (map_option snd nonces) = Ok (pp_session pd)"
      "nonces = None \<longleftrightarrow> in_server intn = None"
      "\<forall>q. nonces = Some q \<longrightarrow> (\<exists>seed kp. q = sf_nonce_pair_with_msg sl seed kp (in_message intn))"
      "pp_server_partial pd = None \<longleftrightarrow> in_server intn = None"
      "\<forall>sp. pp_server_partial pd = Some sp \<longrightarrow> verify_server (env_ark env) (pp_session pd) sp = Ok ()"
      "fq_protocol (pp_finish pd) = SIGNING_PROTOCOL (env_deploy env)"
      "fq_server_nonce (pp_finish pd) = map_option (\<lambda>q. hex_encode (env_ark env) (sf_nonce_serialize sl (snd q))) nonces"
      "fq_server_partial (pp_finish pd) =
        map_option (\<lambda>q. hex_encode (env_ark env) (sf_partial_serialize sl q)) (pp_server_partial pd)"
    by (rule honestE [OF assms(1)])
  from assms(2) h(9,11) obtain q sp where q: "nonces = Some q" "pp_server_partial pd = Some sp" by auto
  from q(1) h(10) have pn: "parse_nonce (env_ark env) (hex_encode (env_ark env) (sf_nonce_serialize sl (snd q))) = Ok (snd q)"
    using server_nonce_codec by auto
  obtain e where mm: "session_new (env_ark env) intn (nonce_public (env_ark env) n, nonce_public (env_ark env) n') None = Err e"
    using session_mismatch [of None intn] assms(2) by auto
  obtain e1 e2 e3 where bad: "parse_nonce (env_ark env) ''not-hex'' = Err e1" "parse_partial (env_ark env) ''not-hex'' = Err e2"
      "parse_nonce (env_ark env) (hex_encode (env_ark env) (replicate 66 0)) = Err e3"
    using not_hex zero_nonce by blast
  have zero: "\<exists>e. bind_res (parse_partial (env_ark env) (hex_encode (env_ark env) (replicate 32 0)))
      (\<lambda>z. verify_server (env_ark env) (pp_session pd) z) = Err e"
    using zero_share no_panic(1) by (cases "parse_partial (env_ark env) (hex_encode (env_ark env) (replicate 32 0))") auto
  show ?thesis
    using assms(2-4) h(4-6,8,13-15) q pn mm bad zero partial_codec
    by (auto simp: malformed_finishes_def finish_pending_def Let_def bind_res_eq_Err)
qed

lemma honest_session:
  assumes "honest root fx intn inst pd p"
  obtains sn where "pd_intent p = intn"
    "session_new (env_ark env) intn (pd_user_nonce p, nonce_public (env_ark env) (pd_nonce p)) sn = Ok (pp_session pd)"
    "fq_protocol (pp_finish pd) = SIGNING_PROTOCOL (env_deploy env)"
    "transpose_res (parse_nonce (env_ark env)) (fq_server_nonce (pp_finish pd)) = Ok sn"
    "sn = None \<longleftrightarrow> in_server intn = None"
  using assms
proof (cases rule: honestE)
  case (honest a b n n' nonces)
  then have "transpose_res (parse_nonce (env_ark env)) (fq_server_nonce (pp_finish pd)) = Ok (map_option snd nonces)"
    by (cases nonces) (auto simp: server_nonce_codec)
  with honest show ?thesis by (intro that [of "map_option snd nonces"]) simp_all
qed

text \<open>A share that is not one of the session, a share where the server has no part, and a nonce that
  cancels the nonces of the members.\<close>

lemma bad_share_fails:
  assumes "honest root fx intn inst pd p"
    and "\<exists>e. bind_res (parse_partial (env_ark env) str) (verify_server (env_ark env) (pp_session pd)) = Err e"
  shows "\<exists>e. finish_pending env root now ((pp_finish pd)\<lparr>fq_server_partial := Some str\<rparr>) p = Err e"
proof -
  obtain sn where h: "pd_intent p = intn"
    "session_new (env_ark env) intn (pd_user_nonce p, nonce_public (env_ark env) (pd_nonce p)) sn = Ok (pp_session pd)"
    "fq_protocol (pp_finish pd) = SIGNING_PROTOCOL (env_deploy env)"
    "transpose_res (parse_nonce (env_ark env)) (fq_server_nonce (pp_finish pd)) = Ok sn"
    by (rule honest_session [OF assms(1)])
  with assms(2) show ?thesis by (cases "parse_partial (env_ark env) str") (auto simp: finish_pending_def Let_def)
qed

lemma crossed_share_fails:
  assumes "honest root fx intn inst pd p" "honest root fx intn inst pd' p'" "in_server intn \<noteq> None"
    and "nonce_public (env_ark env) (pd_nonce p) \<noteq> nonce_public (env_ark env) (pd_nonce p')"
  shows "\<exists>e. finish_pending env root now
    ((pp_finish pd)\<lparr>fq_server_partial := fq_server_partial (pp_finish pd')\<rparr>) p = Err e"
proof -
  have "fq_server_partial (pp_finish pd') =
      map_option (\<lambda>q. hex_encode (env_ark env) (sf_partial_serialize sl q)) (pp_server_partial pd')"
    by (rule honestE [OF assms(2)])
  then obtain q where q: "verify_server (env_ark env) (pp_session pd') q = Ok ()"
      "fq_server_partial (pp_finish pd') = Some (hex_encode (env_ark env) (sf_partial_serialize sl q))"
    using assms(3) honest_open(2,3) [OF assms(2)] by auto
  obtain sn where s: "session_new (env_ark env) intn (pd_user_nonce p, nonce_public (env_ark env) (pd_nonce p)) sn = Ok (pp_session pd)"
    by (rule honest_session [OF assms(1)])
  obtain sn' where s': "session_new (env_ark env) intn (pd_user_nonce p', nonce_public (env_ark env) (pd_nonce p')) sn' = Ok (pp_session pd')"
    by (rule honest_session [OF assms(2)])
  have "verify_server (env_ark env) (pp_session pd) q \<noteq> Ok ()"
    using server_share_binds [OF s s' _ q(1)] session_eq_nonces [OF s] s' assms(4) by metis
  then have "\<exists>e. verify_server (env_ark env) (pp_session pd) q = Err e"
    using no_panic(3) by (cases "verify_server (env_ark env) (pp_session pd) q") auto
  then show ?thesis
    unfolding q(2) by (intro bad_share_fails [OF assms(1)]) (simp add: partial_codec)
qed

lemma extraneous_share_fails:
  assumes "honest root fx intn inst pd p" "in_server intn = None"
  shows "\<exists>e. finish_pending env root now ((pp_finish pd)\<lparr>fq_server_partial := Some str\<rparr>) p = Err e"
proof -
  obtain sn where "pd_intent p = intn" "fq_protocol (pp_finish pd) = SIGNING_PROTOCOL (env_deploy env)"
    "transpose_res (parse_nonce (env_ark env)) (fq_server_nonce (pp_finish pd)) = Ok sn"
    by (rule honest_session [OF assms(1)])
  with assms(2) no_panic(1) [of str] show ?thesis
    by (cases "parse_partial (env_ark env) str") (auto simp: finish_pending_def Let_def)
qed

lemma cancelling_nonce_fails:
  assumes "honest root fx intn inst pd p" "in_server intn \<noteq> None"
  shows "\<exists>nonce. bind_res (negate_points (sf_negate_point sl) 2
      (sf_nonce_serialize sl (sf_group_nonce sl (pp_session pd)))) (sf_nonce_from_byte_array sl) = Ok nonce \<and>
    (\<forall>now. \<exists>e. finish_pending env root now ((pp_finish pd)\<lparr>fq_server_nonce :=
       Some (hex_encode (env_ark env) (sf_nonce_serialize sl nonce)), fq_server_partial := None\<rparr>) p = Err e)"
proof -
  obtain sn where h: "pd_intent p = intn"
    "session_new (env_ark env) intn (pd_user_nonce p, nonce_public (env_ark env) (pd_nonce p)) sn = Ok (pp_session pd)"
    "fq_protocol (pp_finish pd) = SIGNING_PROTOCOL (env_deploy env)"
    by (rule honest_session [OF assms(1)])
  from cancelling [OF h(2) assms(2)] obtain inv nonce e where
    n: "negate_points (sf_negate_point sl) 2 (sf_nonce_serialize sl (sf_group_nonce sl (pp_session pd))) = Ok inv"
      "sf_nonce_from_byte_array sl inv = Ok nonce"
      "parse_nonce (env_ark env) (hex_encode (env_ark env) (sf_nonce_serialize sl nonce)) = Ok nonce"
      "session_new (env_ark env) intn (pd_user_nonce p, nonce_public (env_ark env) (pd_nonce p)) (Some nonce) = Err e"
    by blast
  then show ?thesis using h by (intro exI [of _ nonce]) (auto simp: finish_pending_def Let_def)
qed

subsection \<open>Sessions on an empty table\<close>

text \<open>Between two rounds of a test the table is empty; a prepare adds one honest session.\<close>

abbreviation only :: "ark_signer \<Rightarrow> (hash, pending) table \<Rightarrow> test_state \<Rightarrow> bool" where
  "only sg t0 \<equiv> holding sg (\<lambda>t. t = t0)"

lemma triple_prepare_then:
  assumes "ready env fl sl sg fx intn inst" "lab_signer root sg"
    and "\<And>pd p. honest root fx intn inst pd p \<Longrightarrow> triple (only sg [(session_of pd, p)]) (f pd) Q"
  shows "triple (only sg []) (test_bind (fixture_prepare env fl sl orc fx) f) Q"
proof (rule triple_bind)
  show "triple (only sg []) (fixture_prepare env fl sl orc fx)
      (\<lambda>pd. holding sg (\<lambda>t. \<exists>p. honest root fx intn inst pd p \<and> t = [(session_of pd, p)]))"
    by (rule triple_pre [OF triple_prepare [OF assms(1,2)]])
      (auto elim!: holding_mono simp: MAX_PENDING_SESSIONS_def MAX_SESSIONS_PER_USER_def tbl_count_def)
  fix pd
  show "triple (holding sg (\<lambda>t. \<exists>p. honest root fx intn inst pd p \<and> t = [(session_of pd, p)])) (f pd) Q"
    using assms(3) [of pd] by (fastforce simp: triple_def elim!: holdingE)
qed

lemma triple_consumed_then:
  assumes "\<And>now. \<exists>e. finish_pending env (as_root sg) now rq p = Err e" "fq_session rq = session_of pd"
  shows "triple (only sg [(session_of pd, p)]) (consumed env orc pd rq) (\<lambda>_. only sg [])"
  by (rule triple_pre [OF triple_consumed [OF assms]])
    (auto elim!: holding_mono simp: tbl_remove_def)

lemma triple_two_prepares_then:
  assumes "ready env fl sl sg fx intn inst" "lab_signer root sg"
    and "\<And>pd p pd' p'. honest root fx intn inst pd p \<Longrightarrow> honest root fx intn inst pd' p' \<Longrightarrow>
      nonce_public (env_ark env) (pd_nonce p) \<noteq> nonce_public (env_ark env) (pd_nonce p') \<Longrightarrow> session_of pd \<noteq> session_of pd' \<Longrightarrow>
      triple (only sg [(session_of pd, p), (session_of pd', p')]) (f pd pd') Q"
  shows "triple (only sg []) (test_bind (fixture_prepare env fl sl orc fx) (\<lambda>pd.
    test_bind (fixture_prepare env fl sl orc fx) (f pd))) Q"
  unfolding triple_def
proof (intro allI impI, elim holdingE)
  fix s t k
  assume s: "s = at sg t k" and t: "\<not> as_poisoned sg" "t = []"
  from assms(2) have root: "test_root fl = Ok root" by (simp add: lab_signer_def)
  obtain pd p k1 where run: "fixture_prepare env fl sl orc fx s = Returned pd (at sg [(session_of pd, p)] k1)"
      "honest root fx intn inst pd p" "session_of pd = or_session orc (Suc k) 0"
      "wallet p = pk_user_pubkey (fx_key fx)" "\<forall>j. or_now orc j < pd_expires p" "Suc (Suc k) \<le> k1"
      "nonce_new (env_ark env) (or_seed orc (Suc k)) intn (snd (in_members intn)) = Ok (pd_nonce p)"
    using fixture_prepare_run [OF assms(1) root t(1), of k "[]" "[]"] unfolding s t(2)
    by (auto simp: MAX_PENDING_SESSIONS_def MAX_SESSIONS_PER_USER_def tbl_count_def tbl_retain_def)
  have yk: "young [(session_of pd, p)]" "known [(session_of pd, p)] k1"
    using run(3,5,6) by (auto simp: young_def known_def session_eq)
  obtain pd' p' k2 where run': "fixture_prepare env fl sl orc fx (at sg [(session_of pd, p)] k1) =
        Returned pd' (at sg [(session_of pd, p), (session_of pd', p')] k2)"
      "honest root fx intn inst pd' p'" "session_of pd' = or_session orc (Suc k1) 0"
      "\<forall>j. or_now orc j < pd_expires p'" "Suc (Suc k1) \<le> k2"
      "nonce_new (env_ark env) (or_seed orc (Suc k1)) intn (snd (in_members intn)) = Ok (pd_nonce p')"
    using fixture_prepare_run [OF assms(1) root t(1) retain_young [OF yk(1)] yk(2)] run(4)
    by (auto simp: MAX_PENDING_SESSIONS_def MAX_SESSIONS_PER_USER_def tbl_count_def)
  have ne: "nonce_public (env_ark env) (pd_nonce p) \<noteq> nonce_public (env_ark env) (pd_nonce p')"
    using nonce_eq [OF run(7) run'(6)] run(6) seed_eq [of "Suc k" "Suc k1"] by auto
  have sid: "session_of pd \<noteq> session_of pd'" using run(3,6) run'(3) by (simp add: session_eq)
  have "only sg [(session_of pd, p), (session_of pd', p')] (at sg [(session_of pd, p), (session_of pd', p')] k2)"
    using t(1) yk run'(3-5) by (auto simp: young_def known_def session_eq)
  from tripleD [OF assms(3) [OF run(2) run'(2) ne sid] this] run(1) run'(1)
  show "\<exists>x s'. test_bind (fixture_prepare env fl sl orc fx) (\<lambda>pd. test_bind (fixture_prepare env fl sl orc fx) (f pd)) s =
      Returned x s' \<and> Q x s'"
    by simp
qed

lemma triple_finish_only:
  assumes "honest root fx intn inst pd p" "ready env fl sl sg fx intn inst" "lab_signer root sg"
    and "rq = pp_finish pd \<or> rq = (pp_finish pd)\<lparr>fq_server_partial := None\<rparr>"
  shows "triple (only sg [(session_of pd, p)]) (test_bind (call_finish env orc rq) unwrap)
    (\<lambda>response s. only sg [] s \<and> completes fx intn pd response)"
  by (rule triple_pre [OF triple_finish [OF assms]]) (auto elim!: holding_mono simp: tbl_remove_def)

lemma triple_gone:
  assumes "map_of t0 (fq_session rq) = None"
  shows "triple (only sg t0) (test_bind (call_finish env orc rq) unwrap_err) (\<lambda>_. only sg t0)"
  by (rule triple_pre [OF triple_finish_unknown]) (use assms in \<open>auto elim!: holding_mono\<close>)

lemma triple_cancel_gone:
  assumes "map_of t0 (cq_session rq) = None"
  shows "triple (only sg t0) (test_bind (call_cancel env rq) unwrap_err) (\<lambda>_. only sg t0)"
  by (rule triple_pre [OF triple_cancel_fails]) (use assms in \<open>auto elim!: holding_mono simp: tbl_remove_absent\<close>)

lemma triple_complete:
  "completes fx intn pd response \<Longrightarrow> triple P (prepared_complete env fl sl pd fx response) (\<lambda>_. P)"
  unfolding completes_def triple_def by metis

lemma triple_completed: "triple (\<lambda>s. only sg [] s \<and> completes fx intn pd response)
    (test_bind (prepared_complete env fl sl pd fx response) (\<lambda>_. test_return ())) (\<lambda>_ _. True)"
  by (rule triple_pure, rule triple_bind [OF triple_complete triple_trivial])

text \<open>A test over a signer of its own starts with an empty table.\<close>

lemma lab_test_passes:
  assumes "\<And>root sg. test_signer env fl = Ok sg \<Longrightarrow> lab_signer root sg \<Longrightarrow> triple (only sg []) body (\<lambda>_ _. True)"
  shows "test_passes (with_signer (test_signer env fl) body)"
proof -
  obtain root sg where sg: "test_signer env fl = Ok sg" "lab_signer root sg" "as_pending sg = []"
    by (rule lab_signer_Ok)
  then have start: "only sg [] \<lparr>ts_signer = sg, ts_calls = 0\<rparr>" by (simp add: holding_start lab_signer_def)
  show ?thesis
    by (rule with_signer_passes [OF sg(1)], rule triple_pre [OF assms [OF sg(1,2)]]) (simp only: start)
qed

text \<open>A template fixture that the signers of the tests admit.\<close>

definition test_fixture :: "bool \<Rightarrow> fixture \<Rightarrow> intent \<Rightarrow> program_instance \<Rightarrow> bool" where
  "test_fixture claim fx intn inst \<longleftrightarrow> fixture_template env fl sl claim = Ok fx \<and> (in_server intn = None \<longleftrightarrow> claim) \<and>
     (\<forall>sg. test_signer env fl = Ok sg \<longrightarrow> ready env fl sl sg fx intn inst)"

lemma test_fixtureD:
  assumes "test_fixture claim fx intn inst"
  shows "fixture_template env fl sl claim = Ok fx" "in_server intn = None \<longleftrightarrow> claim"
    and "test_signer env fl = Ok sg \<Longrightarrow> ready env fl sl sg fx intn inst"
  using assms by (auto simp: test_fixture_def)

lemma lab_root: "lab_signer root sg \<Longrightarrow> as_root sg = root"
  by (simp add: lab_signer_def)

subsection \<open>The tests pass\<close>

lemma malformed_finishes_session: "mutate \<in> set (malformed_finishes env) \<Longrightarrow> fq_session (mutate rq) = fq_session rq"
  by (auto simp: malformed_finishes_def)

lemma malformed_finish_test_passes:
  assumes "test_fixture False fx intn inst" "test_fixture True fx' intn' inst'"
    and "SIGNING_PROTOCOL (env_deploy env) \<noteq> ''unsupported''"
  shows "test_passes (malformed_finish_test env fl sl orc)"
  unfolding malformed_finish_test_def
proof (rule lab_test_passes, rule triple_unwrap_then [OF test_fixtureD(1) [OF assms(1)]], goal_cases)
  case (1 root sg)
  note sg = 1
  note rd = test_fixtureD(3) [OF assms(1) sg(1)] and rd' = test_fixtureD(3) [OF assms(2) sg(1)]
  have native: "in_server intn \<noteq> None" "in_server intn' = None"
    using assms(1,2) by (auto simp: test_fixture_def)
  have loop: "triple (only sg []) (for_each (malformed_finishes env) (\<lambda>mutate.
      test_bind (fixture_prepare env fl sl orc fx) (\<lambda>prepared.
      consumed env orc prepared (mutate (pp_finish prepared))))) (\<lambda>_. only sg [])"
    by (rule triple_for_each [of _ "\<lambda>_. only sg []"], rule triple_prepare_then [OF rd sg(2)], rule triple_consumed_then)
      (use malformed_finish_fails [OF _ native(1) nth_mem assms(3)] lab_root [OF sg(2)]
        malformed_finishes_session [OF nth_mem] in simp_all)
  show ?case
  proof (rule triple_bind [OF loop], rule triple_two_prepares_then [OF rd sg(2)], goal_cases)
    case (1 u first p second q)
    note h = 1
    have crossed: "triple (only sg [(session_of first, p), (session_of second, q)]) (consumed env orc first
        ((pp_finish first)\<lparr>fq_server_partial := fq_server_partial (pp_finish second)\<rparr>)) (\<lambda>_. only sg [(session_of second, q)])"
      by (rule triple_pre [OF triple_consumed], use crossed_share_fails [OF h(1,2) native(1) h(3)] lab_root [OF sg(2)] in simp_all)
        (use h(4) in \<open>auto elim!: holding_mono simp: tbl_remove_def\<close>)
    show ?case
      by (rule triple_bind [OF crossed], rule triple_bind [OF triple_finish_only [OF h(2) rd sg(2) disjI1 [OF refl]]],
          rule triple_pure, rule triple_bind [OF triple_complete], assumption,
          rule triple_unwrap_then [OF test_fixtureD(1) [OF assms(2)]], rule triple_prepare_then [OF rd' sg(2)],
          rule triple_conseq [OF triple_consumed_then])
        (use extraneous_share_fails [OF _ native(2)] lab_root [OF sg(2)] in simp_all)
  qed
qed

lemma cancelling_nonce_test_passes:
  assumes "test_fixture False fx intn inst"
  shows "test_passes (cancelling_nonce_test env fl sl orc)"
  unfolding cancelling_nonce_test_def
proof (rule lab_test_passes, rule triple_unwrap_then [OF test_fixtureD(1) [OF assms]], goal_cases)
  case (1 root sg)
  note sg = 1
  note rd = test_fixtureD(3) [OF assms sg(1)]
  have native: "in_server intn \<noteq> None" using assms by (simp add: test_fixture_def)
  show ?case
  proof (rule triple_prepare_then [OF rd sg(2)], goal_cases)
    case (1 pd p)
    obtain nonce where n:
      "bind_res (negate_points (sf_negate_point sl) 2 (sf_nonce_serialize sl (sf_group_nonce sl (pp_session pd))))
         (sf_nonce_from_byte_array sl) = Ok nonce"
      "\<forall>now. \<exists>e. finish_pending env root now ((pp_finish pd)\<lparr>fq_server_nonce :=
         Some (hex_encode (env_ark env) (sf_nonce_serialize sl nonce)), fq_server_partial := None\<rparr>) p = Err e"
      using cancelling_nonce_fails [OF 1 native] by (elim exE conjE)
    show ?case
      by (rule triple_unwrap_then [OF n(1)], rule triple_conseq [OF triple_consumed_then])
        (use n(2) lab_root [OF sg(2)] in simp_all)
  qed
qed

text \<open>Expiry: the session set back is refused and consumed, or pruned by the next prepare.\<close>

lemma expire_run:
  "expire_session orc sid (at sg [(sid, p)] k) =
    Returned () (at sg [(sid, p\<lparr>pd_expires := or_now orc k - duration_from_secs 1\<rparr>)] (Suc k))"
  using now_started now_mono [of 0 k] by (simp add: expire_session_def tbl_insert_def)

lemma expired_finish_fails: "pd_expires p \<le> now \<Longrightarrow> \<exists>e. finish_pending env root now rq p = Err e"
  by (simp add: finish_pending_def Let_def)

lemma triple_expired_consumed:
  assumes "triple (only sg []) (f ()) Q"
  shows "triple (only sg [(session_of pd, p)]) (test_bind (expire_session orc (session_of pd)) (\<lambda>_.
    test_bind (consumed env orc pd (pp_finish pd)) f)) Q"
  unfolding triple_def
proof (intro allI impI, elim holdingE)
  fix s t k
  assume s: "s = at sg t k" "\<not> as_poisoned sg" "t = [(session_of pd, p)]"
  let ?p = "p\<lparr>pd_expires := or_now orc k - duration_from_secs 1\<rparr>"
  have "pd_expires ?p \<le> or_now orc (Suc k)" using now_mono [of k "Suc k"] by simp
  from expired_finish_fails [OF this]
  obtain e where "finish_pending env (as_root sg) (or_now orc (Suc k)) (pp_finish pd) ?p = Err e" by blast
  from call_finish_known [OF s(2) _ this, of "[(session_of pd, ?p)]"] have
    "call_finish env orc (pp_finish pd) (at sg [(session_of pd, ?p)] (Suc k)) = Returned (Err e) (at sg [] (Suc (Suc k)))"
    by (simp add: tbl_remove_def)
  moreover have "call_finish env orc (pp_finish pd) (at sg [] j) = Returned (Err (Msg ''unknown, expired or consumed signing session'')) (at sg [] (Suc j))" for j
    using s(2) by (simp add: call_finish_def finish_def tbl_remove_def)
  ultimately have "consumed env orc pd (pp_finish pd) (at sg [(session_of pd, ?p)] (Suc k)) = Returned () (at sg [] (Suc (Suc (Suc k))))"
    by (simp add: consumed_def observe_def assert_that_def test_return_def)
  then show "\<exists>x s'. test_bind (expire_session orc (session_of pd)) (\<lambda>_. test_bind (consumed env orc pd (pp_finish pd)) f) s =
      Returned x s' \<and> Q x s'"
    using tripleD [OF assms, of "at sg [] (Suc (Suc (Suc k)))"] s by (simp add: expire_run)
qed

lemma triple_expired_pruned:
  assumes "ready env fl sl sg fx intn inst" "lab_signer root sg"
    and "\<And>pd' p'. honest root fx intn inst pd' p' \<Longrightarrow> session_of pd' \<noteq> sid \<Longrightarrow>
      triple (only sg [(session_of pd', p')]) (f pd') Q"
  shows "triple (only sg [(sid, p)]) (test_bind (expire_session orc sid) (\<lambda>_.
    test_bind (fixture_prepare env fl sl orc fx) f)) Q"
  unfolding triple_def
proof (intro allI impI, elim holdingE)
  fix s t k
  assume s: "s = at sg t k" "\<not> as_poisoned sg" "known t k" "t = [(sid, p)]"
  let ?t = "[(sid, p\<lparr>pd_expires := or_now orc k - duration_from_secs 1\<rparr>)]"
  from assms(2) have root: "test_root fl = Ok root" by (simp add: lab_signer_def)
  have "or_now orc k - duration_from_secs 1 \<le> or_now orc (Suc (Suc k))" using now_mono [of k "Suc (Suc k)"] by simp
  then have "tbl_retain (\<lambda>p. or_now orc (Suc (Suc k)) < pd_expires p) ?t = []" by (simp add: tbl_retain_def)
  from fixture_prepare_run [OF assms(1) root s(2) this] obtain pd p' k' where
    run: "fixture_prepare env fl sl orc fx (at sg ?t (Suc k)) = Returned pd (at sg [(session_of pd, p')] k')"
      "honest root fx intn inst pd p'" "session_of pd = or_session orc (Suc (Suc k)) 0"
      "\<forall>j. or_now orc j < pd_expires p'" "Suc (Suc (Suc k)) \<le> k'"
    by (auto simp: MAX_PENDING_SESSIONS_def MAX_SESSIONS_PER_USER_def tbl_count_def)
  have "session_of pd \<noteq> sid" using s(3,4) run(3) by (auto simp: known_def session_eq)
  moreover have "only sg [(session_of pd, p')] (at sg [(session_of pd, p')] k')"
    using s(2) run(3-5) by (auto simp: young_def known_def session_eq)
  ultimately show "\<exists>x s'. test_bind (expire_session orc sid) (\<lambda>_. test_bind (fixture_prepare env fl sl orc fx) f) s =
      Returned x s' \<and> Q x s'"
    using tripleD [OF assms(3) [OF run(2)]] run(1) s(1,4) by (simp add: expire_run)
qed

lemma triple_cancel_attempt:
  "triple (only sg [(sid, p)]) (call_cancel env \<lparr>cq_protocol = protocol, cq_session = sid\<rparr>)
    (\<lambda>r s. only sg [] s \<and> is_ok r = (protocol = SIGNING_PROTOCOL (env_deploy env)))"
proof (cases "protocol = SIGNING_PROTOCOL (env_deploy env)")
  case True
  show ?thesis
    by (rule triple_conseq [OF triple_call_cancel [of _ sg "\<lambda>t. t = []"]]) (use True in \<open>auto elim!: holding_mono simp: tbl_remove_def\<close>)
next
  case False
  show ?thesis
    by (rule triple_conseq [OF triple_call_cancel_fails [of sg _ "\<lambda>t. t = []"]]) (use False in \<open>auto elim!: holding_mono simp: tbl_remove_def\<close>)
qed

lemma cancellation_and_expiry_test_passes:
  assumes "test_fixture True fx intn inst"
  shows "test_passes (cancellation_and_expiry_test env fl sl orc)"
  unfolding cancellation_and_expiry_test_def
proof (rule lab_test_passes, rule triple_unwrap_then [OF test_fixtureD(1) [OF assms]], goal_cases)
  case (1 root sg)
  note sg = 1
  note rd = test_fixtureD(3) [OF assms sg(1)]
  have round: "triple (only sg []) (test_bind (fixture_prepare env fl sl orc fx) (\<lambda>prepared.
           let request = \<lparr>cq_protocol = protocol, cq_session = session_of prepared\<rparr> in
           test_bind (call_cancel env request) (\<lambda>r.
           test_bind (assert_that (is_ok r = (protocol = SIGNING_PROTOCOL (env_deploy env)))) (\<lambda>_.
           test_bind (test_bind (call_cancel env request) unwrap_err) (\<lambda>_.
           test_bind (test_bind (call_finish env orc (pp_finish prepared)) unwrap_err) (\<lambda>_.
           test_return ())))))) (\<lambda>_. only sg [])" for protocol
    unfolding Let_def
    by (rule triple_prepare_then [OF rd sg(2)], rule triple_bind [OF triple_cancel_attempt], rule triple_pure,
        rule triple_assert_then, assumption, rule triple_bind [OF triple_cancel_gone], simp,
        rule triple_discard [OF triple_gone], simp)
  show ?case
  proof (rule triple_bind [OF triple_for_each [of _ "\<lambda>_. only sg []", OF round]], rule triple_prepare_then [OF rd sg(2)],
      rule triple_expired_consumed, rule triple_prepare_then [OF rd sg(2)], rule triple_expired_pruned [OF rd sg(2)], goal_cases)
    case (1 u pd p pd' p' pd'' p'')
    have look: "triple (only sg [(session_of pd'', p'')]) (observe (\<lambda>s. map_of (as_pending (ts_signer s)) (session_of pd')))
        (\<lambda>entry s. only sg [(session_of pd'', p'')] s \<and> entry = None)"
      using 1(4) by (auto simp: triple_def observe_def elim!: holdingE)
    show ?case
      by (rule triple_bind [OF look], rule triple_pure, rule triple_assert_then, assumption,
          rule triple_bind [OF triple_gone], use 1(4) in simp,
          rule triple_bind [OF triple_finish_only [OF 1(3) rd sg(2) disjI1 [OF refl]]], rule triple_completed)
  qed
qed

text \<open>A race of a finish against a cancel: whichever comes first wins.\<close>

lemma triple_race:
  assumes "honest root fx intn inst pd p" "ready env fl sl sg fx intn inst" "lab_signer root sg"
    and "crq = \<lparr>cq_protocol = SIGNING_PROTOCOL (env_deploy env), cq_session = session_of pd\<rparr>"
  shows "triple (only sg [(session_of pd, p)])
    (if finish_first
     then test_bind (call_finish env orc (pp_finish pd)) (\<lambda>f. test_bind (call_cancel env crq) (\<lambda>c. test_return (f, c)))
     else test_bind (call_cancel env crq) (\<lambda>c. test_bind (call_finish env orc (pp_finish pd)) (\<lambda>f. test_return (f, c))))
    (\<lambda>(f, c) s. only sg [] s \<and> ((\<exists>response e. f = Ok response \<and> c = Err e \<and> completes fx intn pd response) \<or>
       (\<exists>e. f = Err e \<and> c = Ok ())))"
proof (cases finish_first)
  case True
  have f: "triple (only sg [(session_of pd, p)]) (call_finish env orc (pp_finish pd))
      (\<lambda>r s. only sg [] s \<and> (\<exists>response. r = Ok response \<and> completes fx intn pd response))"
    by (rule triple_pre [OF triple_call_finish [OF assms(1-3) disjI1 [OF refl]]])
      (auto elim!: holding_mono simp: tbl_remove_def)
  have c: "triple (only sg []) (call_cancel env crq) (\<lambda>r s. only sg [] s \<and> (\<exists>e. r = Err e))"
    by (rule triple_pre [OF triple_call_cancel_fails]) (auto elim!: holding_mono simp: tbl_remove_def)
  show ?thesis
    unfolding if_P [OF True]
    by (rule triple_bind [OF f], rule triple_pure, rule triple_bind [OF c])
      (auto simp: triple_def test_return_def)
next
  case False
  have c: "triple (only sg [(session_of pd, p)]) (call_cancel env crq) (\<lambda>r s. only sg [] s \<and> r = Ok ())"
    by (rule triple_pre [OF triple_call_cancel]) (auto elim!: holding_mono simp: assms(4) tbl_remove_def)
  have f: "triple (only sg []) (call_finish env orc (pp_finish pd)) (\<lambda>r s. only sg [] s \<and> (\<exists>e. r = Err e))"
    by (rule triple_pre [OF triple_call_finish_unknown]) (auto elim!: holding_mono)
  show ?thesis
    unfolding if_not_P [OF False]
    by (rule triple_bind [OF c], rule triple_pure, rule triple_bind [OF f])
      (auto simp: triple_def test_return_def)
qed

lemma concurrent_finish_cancel_test_passes:
  assumes "test_fixture False fx intn inst"
  shows "test_passes (concurrent_finish_cancel_test env fl sl orc finish_first)"
  unfolding concurrent_finish_cancel_test_def Let_def
proof (rule lab_test_passes, rule triple_unwrap_then [OF test_fixtureD(1) [OF assms]], goal_cases)
  case (1 root sg)
  note sg = 1
  note rd = test_fixtureD(3) [OF assms sg(1)]
  show ?case
  proof (rule triple_prepare_then [OF rd sg(2)], rule triple_bind [OF triple_race [OF _ rd sg(2) refl]], assumption, goal_cases)
    case (1 pd p x)
    have last: "triple (only sg []) (test_bind (test_bind (call_finish env orc (pp_finish pd)) unwrap_err) (\<lambda>_.
       test_bind (test_bind (call_cancel env
         \<lparr>cq_protocol = SIGNING_PROTOCOL (env_deploy env), cq_session = session_of pd\<rparr>) unwrap_err) (\<lambda>_.
       test_return ()))) (\<lambda>_ _. True)"
      by (rule triple_bind [OF triple_gone triple_bind [OF triple_cancel_gone triple_trivial]]) simp_all
    show ?case
    proof (cases x, simp only: split_conv, rule triple_pure, elim disjE exE conjE, goal_cases)
      case (1 f c response e)
      show ?case
        by (rule triple_assert_then, simp add: 1, unfold 1, simp only: res.case,
            rule triple_bind [OF triple_bind [OF triple_complete [OF 1(4)] triple_return] last])
    next
      case (2 f c e)
      show ?case
        by (rule triple_assert_then, simp add: 2, unfold 2, simp only: res.case, rule triple_bind [OF triple_return last])
    qed
  qed
qed

text \<open>Eight finishes in any order: the first releases the share, the others find nothing.\<close>

lemma triple_threads:
  assumes "honest root fx intn inst pd p" "ready env fl sl sg fx intn inst" "lab_signer root sg" "schedule \<noteq> []"
  shows "triple (only sg [(session_of pd, p)]) (run_threads (\<lambda>_. call_finish env orc (pp_finish pd)) schedule)
    (\<lambda>finished s. only sg [] s \<and> map fst finished = schedule \<and>
      (\<exists>response rest. finished = (hd schedule, Ok response) # rest \<and> completes fx intn pd response \<and>
        (\<forall>x \<in> set rest. \<exists>e. snd x = Err e)))"
proof -
  obtain i js where sch: "schedule = i # js" using assms(4) by (cases schedule) auto
  have f: "triple (only sg [(session_of pd, p)]) (call_finish env orc (pp_finish pd))
      (\<lambda>r s. only sg [] s \<and> (\<exists>response. r = Ok response \<and> completes fx intn pd response))"
    by (rule triple_pre [OF triple_call_finish [OF assms(1-3) disjI1 [OF refl]]])
      (auto elim!: holding_mono simp: tbl_remove_def)
  have g: "triple (only sg []) (call_finish env orc (pp_finish pd)) (\<lambda>r s. only sg [] s \<and> (\<exists>e. r = Err e))"
    by (rule triple_pre [OF triple_call_finish_unknown]) (auto elim!: holding_mono)
  let ?I = "\<lambda>ys s. only sg [] s \<and> map fst ys = take (length ys) js \<and> (\<forall>x \<in> set ys. \<exists>e. snd x = Err e)"
  have losers: "triple (only sg []) (collect_each js (\<lambda>i. test_bind (call_finish env orc (pp_finish pd)) (\<lambda>r. test_return (i, r))))
      (\<lambda>ys s. length ys = length js \<and> ?I ys s)"
    by (rule triple_pre [OF triple_collect_each [of _ ?I]])
      (use g in \<open>fastforce simp: triple_def test_return_def take_Suc_conv_app_nth\<close>, simp)
  show ?thesis
    unfolding run_threads_def sch collect_each.simps
    by (rule triple_bind [OF triple_bind [OF f, of "\<lambda>r. test_return (i, r)" "\<lambda>y s. only sg [] s \<and>
          (\<exists>response. y = (i, Ok response) \<and> completes fx intn pd response)"]])
      (fastforce simp: triple_def test_return_def, rule triple_pure, rule triple_bind [OF losers], auto simp: triple_def test_return_def)
qed

lemma concurrent_finish_test_passes:
  assumes "test_fixture False fx intn inst" "distinct schedule" "set schedule = {..<8}"
  shows "test_passes (concurrent_finish_test env fl sl orc schedule)"
  unfolding concurrent_finish_test_def Let_def
proof (rule lab_test_passes, rule triple_unwrap_then [OF test_fixtureD(1) [OF assms(1)]], goal_cases)
  case (1 root sg)
  note sg = 1
  note rd = test_fixtureD(3) [OF assms(1) sg(1)]
  have "0 \<in> set schedule" unfolding assms(3) by simp
  then have ne: "schedule \<noteq> []" by force
  show ?case
  proof (rule triple_prepare_then [OF rd sg(2)], rule triple_bind [OF triple_threads [OF _ rd sg(2) ne]], assumption,
      rule triple_pure, goal_cases)
    case (1 pd p finished)
    then obtain response rest where r: "map fst finished = schedule" "finished = (hd schedule, Ok response) # rest"
        "completes fx intn pd response" "\<forall>x \<in> set rest. \<exists>e. snd x = Err e"
      by (elim exE conjE)
    note one = one_result [OF assms(2,3) r(1,2,4)]
    have look: "triple (only sg []) (observe (\<lambda>s. as_pending (ts_signer s))) (\<lambda>pending s. only sg [] s \<and> pending = [])"
      by (auto simp: triple_def observe_def elim!: holdingE)
    have n: "length (filter (\<lambda>r. \<not> is_ok (the r)) (map (map_of finished) [0..<8])) = 7" unfolding one(3) by simp
    show ?case
      by (rule triple_assert_then [OF one(1)], rule triple_assert_then [OF one(2)], rule triple_assert_then [OF n],
          rule triple_bind [OF look], rule triple_pure, rule triple_assert_then, assumption,
          rule triple_bind [OF triple_gone], simp, unfold one(4), simp only: option.case res.case,
          rule triple_bind [OF triple_complete [OF r(3)] triple_trivial])
  qed
qed

text \<open>A restarted signer has the same root and no sessions.\<close>

lemma triple_restarted:
  assumes "ready env fl sl sg fx intn inst" "lab_signer root sg" "test_signer env fl = Ok sg"
    and "\<And>pd' p'. honest root fx intn inst pd' p' \<Longrightarrow> session_of pd' \<noteq> session_of pd \<Longrightarrow>
      triple (only sg [(session_of pd', p')]) (f pd') Q"
  shows "triple (only sg [(session_of pd, p)]) (test_bind (restart (test_signer env fl)) (\<lambda>_.
    test_bind (observe (\<lambda>s. as_public_root (ts_signer s))) (\<lambda>root.
    test_bind (assert_that (root = as_public_root sg)) (\<lambda>_.
    test_bind (test_bind (call_finish env orc (pp_finish pd)) unwrap_err) (\<lambda>_.
    test_bind (test_bind (call_cancel env
      \<lparr>cq_protocol = SIGNING_PROTOCOL (env_deploy env), cq_session = session_of pd\<rparr>) unwrap_err) (\<lambda>_.
    test_bind (fixture_prepare env fl sl orc fx) f)))))) Q" (is "triple _ ?m Q")
  unfolding triple_def
proof (intro allI impI, elim holdingE)
  fix s t k
  assume s: "s = at sg t k" "\<not> as_poisoned sg" "known t k" "t = [(session_of pd, p)]"
  from assms(2) have root: "test_root fl = Ok root" by (simp add: lab_signer_def)
  have "as_pending sg = []" by (rule lab_signer_Ok) (use assms(3) in simp)
  then have sg: "sg\<lparr>as_pending := []\<rparr> = sg" by (cases sg) simp
  have "restart (test_signer env fl) s = Returned () (at sg [] k)" by (simp add: restart_def assms(3) s(1) sg)
  moreover have "\<exists>e. call_finish env orc (pp_finish pd) (at sg [] k) = Returned (Err e) (at sg [] (Suc k))"
    using s(2) by (simp add: call_finish_def finish_def tbl_remove_def)
  moreover have "\<exists>e. call_cancel env \<lparr>cq_protocol = SIGNING_PROTOCOL (env_deploy env), cq_session = session_of pd\<rparr>
      (at sg [] (Suc k)) = Returned (Err e) (at sg [] (Suc (Suc k)))"
    using s(2) by (simp add: call_cancel_def cancel_def tbl_remove_def)
  ultimately have steps: "?m s = test_bind (fixture_prepare env fl sl orc fx) f (at sg [] (Suc (Suc k)))"
    by (auto simp: observe_def assert_that_def)
  from fixture_prepare_run [OF assms(1) root s(2), of "Suc (Suc k)" "[]" "[]"] obtain pd' p' k' where
    run: "fixture_prepare env fl sl orc fx (at sg [] (Suc (Suc k))) = Returned pd' (at sg [(session_of pd', p')] k')"
      "honest root fx intn inst pd' p'" "session_of pd' = or_session orc (Suc (Suc (Suc k))) 0"
      "\<forall>j. or_now orc j < pd_expires p'" "Suc (Suc (Suc (Suc k))) \<le> k'"
    by (auto simp: MAX_PENDING_SESSIONS_def MAX_SESSIONS_PER_USER_def tbl_count_def tbl_retain_def)
  have "session_of pd' \<noteq> session_of pd" using s(3,4) run(3) by (auto simp: known_def session_eq)
  moreover have "only sg [(session_of pd', p')] (at sg [(session_of pd', p')] k')"
    using s(2) run(3-5) by (auto simp: young_def known_def session_eq)
  ultimately show "\<exists>x s'. ?m s = Returned x s' \<and> Q x s'"
    unfolding steps using tripleD [OF assms(4) [OF run(2)]] run(1) by simp
qed

lemma fresh_signer_test_passes:
  assumes "test_fixture False fx intn inst"
  shows "test_passes (fresh_signer_test env fl sl orc)"
  unfolding fresh_signer_test_def
proof (rule lab_test_passes, rule triple_unwrap_then [OF test_fixtureD(1) [OF assms]], goal_cases)
  case (1 root sg)
  note sg = 1
  note rd = test_fixtureD(3) [OF assms sg(1)]
  have look: "triple (only sg t0) (observe (\<lambda>s. as_public_root (ts_signer s)))
      (\<lambda>root s. only sg t0 s \<and> root = as_public_root sg)" for t0
    by (auto simp: triple_def observe_def elim!: holdingE)
  show ?case
    by (rule triple_prepare_then [OF rd sg(2)], rule triple_bind [OF look], rule triple_pure, hypsubst,
        rule triple_restarted [OF rd sg(2,1)], rule triple_assert_then, assumption, rule triple_bind [OF triple_gone], simp,
        rule triple_bind [OF triple_finish_only [OF _ rd sg(2) disjI1 [OF refl]]], assumption, rule triple_completed)
qed

lemma native_forfeit_test_passes:
  assumes "test_fixture False fx intn inst"
  shows "test_passes (native_forfeit_test env fl sl orc)"
  unfolding native_forfeit_test_def
proof (rule lab_test_passes, rule triple_unwrap_then [OF test_fixtureD(1) [OF assms]], goal_cases)
  case (1 root sg)
  note rd = test_fixtureD(3) [OF assms 1(1)]
  show ?case
    by (rule triple_prepare_then [OF rd 1(2)], rule triple_bind [OF triple_finish_only [OF _ rd 1(2) disjI2 [OF refl]]],
        assumption, rule triple_pure, rule triple_bind [OF triple_gone], simp,
        rule triple_bind [OF triple_complete triple_trivial])
qed

text \<open>Signing in one go, and verifying again once the signer is gone.\<close>

lemma triple_sign:
  assumes "ready env fl sl sg fx intn inst" "lab_signer root sg"
  shows "triple (only sg []) (fixture_sign env fl sl orc fx)
    (\<lambda>sig s. only sg [] s \<and> sf_verify_schnorr sl sig (in_message intn) (intent_key intn) = Ok ())"
  unfolding fixture_sign_def
proof (rule triple_prepare_then [OF assms], rule triple_bind [OF triple_finish_only [OF _ assms disjI1 [OF refl]]],
    assumption, rule triple_pure, rule triple_bind [OF triple_gone], simp, goal_cases)
  case (1 pd p response)
  then show ?case unfolding completes_def triple_def by metis
qed

lemma delayed_claim_test_passes:
  assumes "test_fixture True fx intn inst"
  shows "test_passes (delayed_claim_test env fl sl orc)"
  unfolding delayed_claim_test_def
proof (rule lab_test_passes, rule triple_unwrap_then [OF test_fixtureD(1) [OF assms]], goal_cases)
  case (1 root sg)
  note rd = test_fixtureD(3) [OF assms 1(1)]
  show ?case
    by (rule triple_bind [OF triple_sign [OF rd 1(2)]], rule triple_pure)
      (simp add: triple_def fixture_verify_run [OF rd])
qed

end

end
