(* ===== verification/Capacity_Tests.thy ===== *)
theory Capacity_Tests
  imports Session_Tests
begin

text \<open>
  The capacity test of \<open>src/src/ark_signer.rs\<close>: with three live sessions of one wallet the pool is filled by the
  reservations of others; a full pool refuses; a cancelled and an expired session each free one slot; and neither
  refusals nor the reuse of a slot evict a live session, which are all completed at the end.

  \<open>held pds ss t\<close> relates the table to what the wallets hold: the prepared sessions \<open>pds\<close> of the fixture, each with its
  own record, and the reservations \<open>ss\<close>.
\<close>

section \<open>Operations\<close>

text \<open>\<open>u8::checked_add (1)\<close> and \<open>Vec::pop\<close>, unwrapped.\<close>

definition checked_succ :: "byte \<Rightarrow> byte option" where
  "checked_succ b = (if b = 255 then None else Some (b + 1))"

lemma checked_succ_less: "checked_succ b = Some b' \<Longrightarrow> 256 - unat b' < 256 - unat b"
proof -
  assume "checked_succ b = Some b'"
  then have b: "b \<noteq> 255" "b' = b + 1" by (auto simp: checked_succ_def split: if_splits)
  then have "unat b \<noteq> 255" using word_unat_eq_iff [of b 255] by simp
  moreover have "unat b < 256" using unsigned_less [of b] by simp
  ultimately have "unat b' = Suc (unat b)" by (simp add: b(2) unat_word_ariths)
  with \<open>unat b < 256\<close> show ?thesis by simp
qed

definition vec_pop :: "'a list \<Rightarrow> ('s, 'a \<times> 'a list) test" where
  "vec_pop xs = (if xs = [] then (\<lambda>_. Panicked) else test_return (last xs, butlast xs))"

text \<open>The reservations of one wallet, as long as the pool has room.\<close>

fun reserve_each ::
  "('m, 'i) signer_env \<Rightarrow> test_oracle \<Rightarrow> nat \<Rightarrow> prepare_request \<Rightarrow> nat \<Rightarrow> hash list \<Rightarrow> (test_state, hash list) test" where
  "reserve_each env orc kept request 0 sessions = test_return sessions"
| "reserve_each env orc kept request (Suc n) sessions =
     (if length sessions + kept < MAX_PENDING_SESSIONS
      then test_bind (test_bind (call_prepare env orc request) unwrap) (\<lambda>r.
        reserve_each env orc kept request n (sessions @ [ps_session r]))
      else reserve_each env orc kept request n sessions)"

text \<open>Every round takes the next byte, so the loop ends.\<close>

function fill_pool ::
  "('m, 'i) signer_env \<Rightarrow> fixture_lib \<Rightarrow> test_oracle \<Rightarrow> nat \<Rightarrow> byte \<Rightarrow> hash list \<Rightarrow> (test_state, hash list \<times> byte) test" where
  "fill_pool env fl orc kept byte sessions =
     (if length sessions + kept < MAX_PENDING_SESSIONS
      then test_bind (ownership_request_for env fl orc byte) (\<lambda>request.
        case checked_succ byte of
          None \<Rightarrow> (\<lambda>_. Panicked)
        | Some byte' \<Rightarrow> test_bind (reserve_each env orc kept request MAX_SESSIONS_PER_USER sessions) (\<lambda>sessions'.
            fill_pool env fl orc kept byte' sessions'))
      else test_return (sessions, byte))"
  by pat_completeness auto

termination
  by (relation "measure (\<lambda>(env, fl, orc, kept, byte, sessions). 256 - unat byte)") (use checked_succ_less in auto)

declare fill_pool.simps [simp del]

definition refused_request ::
  "('m, 'i) signer_env \<Rightarrow> fixture_lib \<Rightarrow> spend_fixture_lib \<Rightarrow> test_oracle \<Rightarrow> fixture \<Rightarrow> (test_state, error) test" where
  "refused_request env fl sl orc fixture =
     test_bind (fixture_request env fl sl orc fixture) (\<lambda>(request, _). test_bind (call_prepare env orc request) unwrap_err)"

definition session_capacity_test ::
  "('m, 'i) signer_env \<Rightarrow> fixture_lib \<Rightarrow> spend_fixture_lib \<Rightarrow> test_oracle \<Rightarrow> (unit, unit) test" where
  "session_capacity_test env fl sl orc =
     with_signer (test_signer env fl)
      (test_bind (unwrap (fixture_template env fl sl True)) (\<lambda>fixture.
       test_bind (collect_each [0..<3] (\<lambda>_. fixture_prepare env fl sl orc fixture)) (\<lambda>kept.
       test_bind (fill_pool env fl orc (length kept) 0x10 []) (\<lambda>(sessions, byte).
       test_bind (refused_request env fl sl orc fixture) (\<lambda>_.
       test_bind (vec_pop kept) (\<lambda>(cancelled, kept).
       test_bind (test_bind (call_cancel env
           \<lparr>cq_protocol = SIGNING_PROTOCOL (env_deploy env), cq_session = fq_session (pp_finish cancelled)\<rparr>) unwrap) (\<lambda>_.
       test_bind (fixture_prepare env fl sl orc fixture) (\<lambda>replacement.
       test_bind (test_bind (call_finish env orc (pp_finish cancelled)) unwrap_err) (\<lambda>_.
       test_bind (refused_request env fl sl orc fixture) (\<lambda>_.
       test_bind (vec_pop sessions) (\<lambda>(expired, sessions).
       test_bind (expire_session orc expired) (\<lambda>_.
       test_bind (ownership_request_for env fl orc byte) (\<lambda>request.
       test_bind (test_bind (call_prepare env orc request) unwrap) (\<lambda>recovered.
       test_bind (refused_request env fl sl orc fixture) (\<lambda>_.
       test_bind (test_bind (call_cancel env
           \<lparr>cq_protocol = SIGNING_PROTOCOL (env_deploy env), cq_session = ps_session recovered\<rparr>) unwrap) (\<lambda>_.
       for_each (kept @ [replacement]) (\<lambda>prepared.
         test_bind (test_bind (call_finish env orc (pp_finish prepared)) unwrap) (\<lambda>response.
         test_bind (prepared_complete env fl sl prepared fixture response) (\<lambda>_. test_return ())))))))))))))))))))"

section \<open>Lemmas\<close>

lemma vec_pop_snoc: "test_bind (vec_pop (xs @ [x])) f = f (x, xs)"
  by (rule ext) (simp add: vec_pop_def test_return_def)

lemma map_of_remove: "map_of (tbl_remove sid t) x = (if x = sid then None else map_of t x)"
  by (simp add: tbl_remove_def delete_conv)

lemma remove_keys: "fst ` set (tbl_remove sid t) = fst ` set t - {sid}"
  by (auto simp: tbl_remove_def AList.delete_eq image_iff)

lemma remove_distinct: "distinct (map fst t) \<Longrightarrow> distinct (map fst (tbl_remove sid t))"
  by (simp add: tbl_remove_def distinct_delete)

lemma remove_count: "tbl_count P (tbl_remove sid t) \<le> tbl_count P t"
  by (induction t) (auto simp: tbl_remove_def tbl_count_def)

lemma remove_all: "list_all P t \<Longrightarrow> list_all P (tbl_remove sid t)"
  by (auto simp: list_all_iff dest: subsetD [OF tbl_remove_subset])

lemma map_of_snoc: "map_of (t @ [(k, v)]) x = (case map_of t x of None \<Rightarrow> if x = k then Some v else None | Some y \<Rightarrow> Some y)"
  by (simp add: map_add_def split: option.splits)

lemma tbl_count_append: "tbl_count P (t @ [(sid, p)]) = tbl_count P t + (if P p then 1 else 0)"
  by (simp add: tbl_count_def)

text \<open>A record set back to the past is the one a prune drops.\<close>

lemma retain_expired:
  assumes "list_all (\<lambda>e. P (snd e)) t" "\<not> P p'" "distinct (map fst t)" "map_of t sid \<noteq> None"
  shows "tbl_retain P (tbl_insert sid p' t) = tbl_remove sid t"
  using assms
proof (induction t)
  case (Cons e t)
  show ?case
  proof (cases "fst e = sid")
    case True
    with Cons.prems(3) have "AList.delete sid t = t" by (intro delete_id) auto
    with True Cons.prems show ?thesis
      by (cases e) (auto simp: tbl_retain_def tbl_insert_def tbl_remove_def list_all_iff filter_id_conv)
  next
    case False
    with Cons.prems have "map_of t sid \<noteq> None" by (cases e) auto
    with Cons False show ?thesis by (cases e) (auto simp: tbl_retain_def tbl_insert_def tbl_remove_def)
  qed
qed simp

text \<open>The wallets that fill the pool.\<close>

definition filler :: "nat \<Rightarrow> byte" where
  "filler i = word_of_nat (0x10 + i)"

lemma filler:
  assumes "i \<le> 0x20"
  shows "0 < filler i" "filler i < 255" "unat (filler i) = 0x10 + i"
proof -
  have "(0x10 + i) mod 256 = 0x10 + i" using assms by simp
  then show u: "unat (filler i) = 0x10 + i" unfolding filler_def by (simp only: unat_of_nat) simp
  show "0 < filler i" "filler i < 255" using assms by (simp_all add: word_less_nat_alt u)
qed

lemma filler_zero: "filler 0 = 0x10"
  by (simp add: filler_def)

lemma filler_succ: "i < 0x20 \<Longrightarrow> checked_succ (filler i) = Some (filler (Suc i))"
  using filler(3) [of i] by (auto simp: checked_succ_def filler_def word_eq_iff_unsigned)

context musig_lab
begin

definition held ::
  "xpriv \<Rightarrow> fixture \<Rightarrow> intent \<Rightarrow> program_instance \<Rightarrow> prepared_session list \<Rightarrow> hash list \<Rightarrow> (hash, pending) table \<Rightarrow> bool" where
  "held root fx intn inst pds ss t \<longleftrightarrow> distinct (map session_of pds @ ss) \<and> distinct (map fst t) \<and>
     fst ` set t = session_of ` set pds \<union> set ss \<and>
     (\<forall>pd \<in> set pds. \<exists>p. map_of t (session_of pd) = Some p \<and> honest root fx intn inst pd p)"

lemma held_length:
  assumes "held root fx intn inst pds ss t"
  shows "length t = length pds + length ss"
proof -
  have "set (map fst t) = set (map session_of pds @ ss)" using assms by (auto simp: held_def)
  then show ?thesis
    using assms distinct_card [of "map fst t"] distinct_card [of "map session_of pds @ ss"] by (simp add: held_def)
qed

lemma held_prepared:
  assumes "held root fx intn inst pds ss t" "map_of t (session_of pd) = None" "honest root fx intn inst pd p"
  shows "held root fx intn inst (pds @ [pd]) ss (t @ [(session_of pd, p)])"
proof -
  have "session_of pd \<notin> fst ` set t" using assms(2) by (simp add: map_of_eq_None_iff)
  with assms show ?thesis by (auto simp: held_def map_of_snoc simp del: map_of_append)
qed

lemma held_reserved:
  assumes "held root fx intn inst pds ss t" "map_of t sid = None"
  shows "held root fx intn inst pds (ss @ [sid]) (t @ [(sid, p)])"
proof -
  have "sid \<notin> fst ` set t" using assms(2) by (simp add: map_of_eq_None_iff)
  with assms(1) show ?thesis by (auto simp: held_def map_of_snoc simp del: map_of_append)
qed

lemma held_removed:
  assumes "held root fx intn inst pds ss t" "set pds' \<subseteq> set pds" "distinct (map session_of pds' @ ss')"
    and "session_of ` set pds' \<union> set ss' = (session_of ` set pds \<union> set ss) - {sid}"
  shows "held root fx intn inst pds' ss' (tbl_remove sid t)"
  unfolding held_def
proof (intro conjI ballI)
  show "fst ` set (tbl_remove sid t) = session_of ` set pds' \<union> set ss'"
    using assms(1,4) by (simp add: held_def remove_keys)
  fix pd assume "pd \<in> set pds'"
  with assms(4) have "session_of pd \<noteq> sid" by blast
  with assms(1,2) \<open>pd \<in> set pds'\<close> show "\<exists>p. map_of (tbl_remove sid t) (session_of pd) = Some p \<and> honest root fx intn inst pd p"
    by (auto simp: held_def map_of_remove)
qed (use assms in \<open>auto simp: held_def remove_distinct\<close>)

lemma held_known: "held root fx intn inst pds ss t \<Longrightarrow> sid \<in> session_of ` set pds \<union> set ss \<Longrightarrow> map_of t sid \<noteq> None"
  by (auto simp: held_def map_of_eq_None_iff)

text \<open>The wallets of the table: \<open>F\<close> with at most \<open>c\<close> sessions, and those of \<open>us\<close>.\<close>

definition served :: "nat \<Rightarrow> pubkey \<Rightarrow> pubkey set \<Rightarrow> (hash, pending) table \<Rightarrow> bool" where
  "served c F us t \<longleftrightarrow> tbl_count (\<lambda>p. wallet p = F) t \<le> c \<and> list_all (\<lambda>e. wallet (snd e) \<in> insert F us) t"

lemma served_other: "served c F us t \<Longrightarrow> u \<notin> insert F us \<Longrightarrow> tbl_count (\<lambda>p. wallet p = u) t = 0"
  by (auto simp: served_def tbl_count_def list_all_iff filter_empty_conv)

lemma served_removed: "served c F us t \<Longrightarrow> served c F us (tbl_remove sid t)"
  using remove_count [of "\<lambda>p. wallet p = F" sid t] by (auto simp: served_def remove_all)

lemma served_added: "served c F us t \<Longrightarrow> wallet p = u \<Longrightarrow> u \<noteq> F \<Longrightarrow> us \<union> {u} \<subseteq> us' \<Longrightarrow> served c F us' (t @ [(sid, p)])"
  by (auto simp: served_def tbl_count_append list_all_iff)

subsection \<open>Triples\<close>

lemma triple_fixture_request:
  assumes "ready env fl sl sg fx intn inst"
  shows "triple (holding sg \<Phi>) (fixture_request env fl sl orc fx)
    (\<lambda>r s. holding sg \<Phi> s \<and> admissible env sg (fst r) (pk_user_pubkey (fx_key fx)))"
  unfolding triple_def
proof (intro allI impI)
  fix s
  assume "holding sg \<Phi> s"
  then obtain t k where s: "s = at sg t k" and h: "holding sg \<Phi> (at sg t (Suc k))" using holding_later by blast
  from assms obtain action x where r: "fixture_action fl sl fx = Ok action" "action_intent (env_ark env) action (fx_key fx) = Ok intn"
      "in_members intn = (pk_user_pubkey (fx_key fx), even_public_key (env_ark env) x)"
    and chk: "\<And>seed nonce. nonce_new (env_ark env) seed intn (pk_user_pubkey (fx_key fx)) = Ok nonce \<Longrightarrow>
       check_prepare env sg (request_with env fx action nonce) = Ok (intn, nonce_public (env_ark env) nonce, inst)"
    unfolding ready_def by blast
  obtain n where n: "nonce_new (env_ark env) (or_seed orc k) intn (pk_user_pubkey (fx_key fx)) = Ok n"
    using member_nonce [of "pk_user_pubkey (fx_key fx)" intn] r(3) by auto
  have "fixture_request env fl sl orc fx s = Returned (request_with env fx action n, n) (at sg t (Suc k))"
    by (simp add: s fixture_request_def r(1,2) new_nonce_def n test_return_def request_with_def)
  moreover have "admissible env sg (request_with env fx action n) (pk_user_pubkey (fx_key fx))"
    using chk [OF n] r(3) member_nonce [of "snd (in_members intn)" intn] by (simp add: admissible_def)
  ultimately show "\<exists>r s'. fixture_request env fl sl orc fx s = Returned r s' \<and> holding sg \<Phi> s' \<and>
      admissible env sg (fst r) (pk_user_pubkey (fx_key fx))"
    using h by simp
qed

lemma triple_refused_request:
  assumes "ready env fl sl sg fx intn inst"
  shows "triple (holding sg (\<lambda>t. MAX_PENDING_SESSIONS \<le> length t \<and> \<Phi> t)) (refused_request env fl sl orc fx) (\<lambda>_. holding sg \<Phi>)"
  unfolding refused_request_def
proof (rule triple_bind [OF triple_fixture_request [OF assms]], rule triple_pure, goal_cases)
  case (1 r)
  from triple_conseq [OF triple_full [OF 1]] show ?case by (cases r) simp
qed

lemma triple_keep:
  assumes "ready env fl sl sg fx intn inst" "lab_signer root sg" "n \<le> MAX_SESSIONS_PER_USER"
  shows "triple (only sg []) (collect_each [0..<n] (\<lambda>_. fixture_prepare env fl sl orc fx))
    (\<lambda>pds s. holding sg (\<lambda>t. held root fx intn inst pds [] t \<and> served n (pk_user_pubkey (fx_key fx)) {} t) s \<and> length pds = n)"
proof -
  let ?F = "pk_user_pubkey (fx_key fx)"
  let ?I = "\<lambda>pds. holding sg (\<lambda>t. held root fx intn inst pds [] t \<and> served (length pds) ?F {} t)"
  have "triple (?I pds) (fixture_prepare env fl sl orc fx) (\<lambda>pd. ?I (pds @ [pd]))" if "length pds < n" for pds
  proof (rule triple_pre [OF triple_prepare [OF assms(1,2)]], erule holding_mono)
    fix t
    assume "held root fx intn inst pds [] t \<and> served (length pds) ?F {} t"
    then have t: "held root fx intn inst pds [] t" "served (length pds) ?F {} t" by auto
    then show "length t < MAX_PENDING_SESSIONS \<and> tbl_count (\<lambda>p. wallet p = ?F) t < MAX_SESSIONS_PER_USER \<and>
        (\<forall>pd p. honest root fx intn inst pd p \<longrightarrow> map_of t (session_of pd) = None \<longrightarrow> wallet p = ?F \<longrightarrow>
          held root fx intn inst (pds @ [pd]) [] (t @ [(session_of pd, p)]) \<and>
          served (length (pds @ [pd])) ?F {} (t @ [(session_of pd, p)]))"
      using that assms(3) held_length [OF t(1)] held_prepared [OF t(1)]
      by (auto simp: cap_numbers served_def tbl_count_append)
  qed
  then have "triple (?I []) (collect_each [0..<n] (\<lambda>_. fixture_prepare env fl sl orc fx)) (\<lambda>pds s. length pds = length [0..<n] \<and> ?I pds s)"
    by (intro triple_collect_each) auto
  then show ?thesis
    by (rule triple_conseq) (auto elim!: holding_mono simp: held_def served_def tbl_count_def)
qed

text \<open>A round of the loop: the wallet \<open>u\<close> has taken \<open>j\<close> slots, or the pool is full.\<close>

definition filling ::
  "xpriv \<Rightarrow> fixture \<Rightarrow> intent \<Rightarrow> program_instance \<Rightarrow> prepared_session list \<Rightarrow> nat \<Rightarrow> pubkey set \<Rightarrow> hash list \<Rightarrow>
     (hash, pending) table \<Rightarrow> bool" where
  "filling root fx intn inst pds n us ss t \<longleftrightarrow> held root fx intn inst pds ss t \<and> served 3 (pk_user_pubkey (fx_key fx)) us t \<and>
     length ss = min n (MAX_PENDING_SESSIONS - length pds)"

lemma triple_reserve_each:
  assumes "admissible env sg rq u" "u \<noteq> pk_user_pubkey (fx_key fx)" "u \<in> us" "j + n \<le> MAX_SESSIONS_PER_USER" "length pds \<le> MAX_PENDING_SESSIONS"
  shows "triple (holding sg (\<lambda>t. filling root fx intn inst pds (m + j) us ss t \<and> tbl_count (\<lambda>p. wallet p = u) t \<le> j))
    (reserve_each env orc (length pds) rq n ss) (\<lambda>ss. holding sg (filling root fx intn inst pds (m + j + n) us ss))"
  using assms(4)
proof (induction n arbitrary: ss j)
  case 0
  show ?case by (auto simp: triple_def test_return_def elim!: holding_mono)
next
  case (Suc n)
  note IH = Suc.IH [of "Suc j", simplified] Suc.prems
  show ?case
  proof (cases "length ss + length pds < MAX_PENDING_SESSIONS")
    case True
    have "triple (holding sg (\<lambda>t. filling root fx intn inst pds (m + j) us ss t \<and> tbl_count (\<lambda>p. wallet p = u) t \<le> j))
        (test_bind (call_prepare env orc rq) unwrap) (\<lambda>r. holding sg (\<lambda>t. filling root fx intn inst pds (Suc (m + j)) us (ss @ [ps_session r]) t \<and>
           tbl_count (\<lambda>p. wallet p = u) t \<le> Suc j))"
    proof (rule triple_pre [OF triple_admitted [OF assms(1)]], erule holding_mono, elim conjE, goal_cases)
      case (1 s t)
      then have t: "held root fx intn inst pds ss t" "served 3 (pk_user_pubkey (fx_key fx)) us t"
        "length ss = min (m + j) (MAX_PENDING_SESSIONS - length pds)" by (auto simp: filling_def)
      from True held_length [OF t(1)] have "length t < MAX_PENDING_SESSIONS" by simp
      moreover have "filling root fx intn inst pds (Suc (m + j)) us (ss @ [sid]) (t @ [(sid, p)])"
        if "map_of t sid = None" "wallet p = u" for sid p
        using held_reserved [OF t(1) that(1)] served_added [OF t(2) that(2) assms(2), of us sid] assms(3) t(3) True
        by (auto simp: filling_def)
      ultimately show ?case using 1(2) Suc.prems by (simp add: tbl_count_append)
    qed
    from triple_bind [OF this IH(1)] Suc.prems True show ?thesis by simp
  next
    case False
    have "triple (holding sg (\<lambda>t. filling root fx intn inst pds (m + j) us ss t \<and> tbl_count (\<lambda>p. wallet p = u) t \<le> j))
        (reserve_each env orc (length pds) rq n ss) (\<lambda>ss. holding sg (filling root fx intn inst pds (Suc (m + j + n)) us ss))"
      by (rule triple_pre [OF IH(1)]) (use Suc.prems False assms(5) in \<open>auto elim!: holding_mono simp: filling_def\<close>)
    with False show ?thesis by simp
  qed
qed

lemma triple_fill_pool:
  assumes "lab_signer root sg" "length pds = 3" "i \<le> 0x20"
    and key: "\<And>i. i \<le> 0x20 \<Longrightarrow> test_key fl (filler i) = Ok (key i)" "test_key fl 0x42 = Ok kf" "pk_user_pubkey (fx_key fx) = fl_public_key fl kf"
  shows "triple (holding sg (filling root fx intn inst pds (i * MAX_SESSIONS_PER_USER) ((\<lambda>i. fl_public_key fl (key i)) ` {..<i}) ss))
    (fill_pool env fl orc (length pds) (filler i) ss)
    (\<lambda>r s. holding sg (filling root fx intn inst pds 256 ((\<lambda>i. fl_public_key fl (key i)) ` {..<0x20}) (fst r)) s \<and> snd r = filler 0x20)"
  using assms(3)
proof (induction "0x20 - i" arbitrary: i ss)
  case 0
  then have "i = 0x20" by simp
  then show ?case
    by (auto simp: triple_def fill_pool.simps [of env fl orc 3] filling_def assms(2) cap_numbers test_return_def elim!: holdingE)
next
  case (Suc n)
  let ?u = "\<lambda>i. fl_public_key fl (key i)" and ?F = "pk_user_pubkey (fx_key fx)"
  let ?us = "\<lambda>i. ?u ` {..<i}"
  have i: "i < 0x20" using Suc.hyps(2) by simp
  note sg = assms(1) [unfolded lab_signer_def]
  have distinct_keys: "?u i \<noteq> ?u j" if "j < i" for j
    using public_eq [OF key(1) key(1), of i j] filler(3) [of i] filler(3) [of j] that i by auto
  have uF: "?u i \<noteq> ?F"
  proof
    assume "?u i = ?F"
    then have "filler i = 0x42" using public_eq [OF key(1,2), of i] i by (simp add: key(3))
    with filler(3) [of i] i show False by simp
  qed
  show ?case
  proof (cases "length ss = i * MAX_SESSIONS_PER_USER")
    case True
    then have room: "length ss + length pds < MAX_PENDING_SESSIONS" using i assms(2) by (simp add: cap_numbers)
    have round: "triple (holding sg (filling root fx intn inst pds (i * MAX_SESSIONS_PER_USER) (?us i) ss))
        (reserve_each env orc (length pds) rq MAX_SESSIONS_PER_USER ss)
        (\<lambda>ss. holding sg (filling root fx intn inst pds (Suc i * MAX_SESSIONS_PER_USER) (?us (Suc i)) ss))"
      if "admissible env sg rq (?u i)" for rq
    proof -
      have pre: "holding sg (\<lambda>t. filling root fx intn inst pds (i * MAX_SESSIONS_PER_USER + 0) (?us (Suc i)) ss t \<and>
          tbl_count (\<lambda>p. wallet p = ?u i) t \<le> 0) s"
        if "holding sg (filling root fx intn inst pds (i * MAX_SESSIONS_PER_USER) (?us i) ss) s" for s
        using that
      proof (rule holding_mono)
        fix t
        assume t: "filling root fx intn inst pds (i * MAX_SESSIONS_PER_USER) (?us i) ss t"
        then have "tbl_count (\<lambda>p. wallet p = ?u i) t = 0"
          using distinct_keys uF by (intro served_other [of 3 ?F "?us i"]) (auto simp: filling_def)
        with t show "filling root fx intn inst pds (i * MAX_SESSIONS_PER_USER + 0) (?us (Suc i)) ss t \<and>
            tbl_count (\<lambda>p. wallet p = ?u i) t \<le> 0"
          by (auto simp: filling_def served_def list_all_iff less_Suc_eq)
      qed
      have "triple (holding sg (\<lambda>t. filling root fx intn inst pds (i * MAX_SESSIONS_PER_USER + 0) (?us (Suc i)) ss t \<and>
            tbl_count (\<lambda>p. wallet p = ?u i) t \<le> 0)) (reserve_each env orc (length pds) rq MAX_SESSIONS_PER_USER ss)
          (\<lambda>ss. holding sg (filling root fx intn inst pds (i * MAX_SESSIONS_PER_USER + 0 + MAX_SESSIONS_PER_USER) (?us (Suc i)) ss))"
        by (rule triple_reserve_each [OF that uF]) (use assms(2) in \<open>simp_all add: cap_numbers\<close>)
      from triple_pre [OF this pre] show ?thesis by (simp add: add.commute)
    qed
    have next_round: "triple (holding sg (filling root fx intn inst pds (i * MAX_SESSIONS_PER_USER) (?us i) ss))
        (case checked_succ (filler i) of None \<Rightarrow> (\<lambda>_. Panicked) | Some byte' \<Rightarrow>
          test_bind (reserve_each env orc (length pds) rq MAX_SESSIONS_PER_USER ss) (fill_pool env fl orc (length pds) byte'))
        (\<lambda>r s. holding sg (filling root fx intn inst pds 256 (?us 0x20) (fst r)) s \<and> snd r = filler 0x20)"
      if "admissible env sg rq (?u i)" for rq
      unfolding filler_succ [OF i] option.case by (rule triple_bind [OF round [OF that] Suc.hyps(1)]) (use Suc.hyps(2) in simp_all)
    show ?thesis
      unfolding fill_pool.simps [of env fl orc "length pds" "filler i"] if_P [OF room]
    proof (rule triple_bind [OF triple_request_for [OF filler(1,2) _ _ key(1), where root = root]])
      fix rq
      show "triple (\<lambda>s. holding sg (filling root fx intn inst pds (i * MAX_SESSIONS_PER_USER) (?us i) ss) s \<and>
          pk_user_pubkey (pq_key rq) = ?u i \<and> admissible env sg rq (?u i)) (case checked_succ (filler i) of None \<Rightarrow> (\<lambda>_. Panicked)
          | Some byte' \<Rightarrow> test_bind (reserve_each env orc (length pds) rq MAX_SESSIONS_PER_USER ss) (fill_pool env fl orc (length pds) byte'))
        (\<lambda>r s. holding sg (filling root fx intn inst pds 256 (?us 0x20) (fst r)) s \<and> snd r = filler 0x20)"
        by (rule triple_pure) (rule next_round, simp)
    qed (use i sg in simp_all)
  next
    case False
    then show ?thesis
      using i assms(2) by (auto simp: triple_def filling_def cap_numbers elim!: holdingE)
  qed
qed

text \<open>A cancelled session leaves its slot to a new one, with a fresh identifier.\<close>

lemma triple_replaced:
  assumes "ready env fl sl sg fx intn inst" "lab_signer root sg" "\<And>pd. triple (holding sg (\<Phi> pd)) (f pd) Q"
  shows "triple (holding sg (\<lambda>t. map_of t sid \<noteq> None \<and> length (tbl_remove sid t) < MAX_PENDING_SESSIONS \<and>
      tbl_count (\<lambda>p. wallet p = pk_user_pubkey (fx_key fx)) (tbl_remove sid t) < MAX_SESSIONS_PER_USER \<and>
      (\<forall>pd p. honest root fx intn inst pd p \<longrightarrow> map_of t (session_of pd) = None \<longrightarrow>
         wallet p = pk_user_pubkey (fx_key fx) \<longrightarrow> \<Phi> pd (tbl_remove sid t @ [(session_of pd, p)]))))
    (test_bind (test_bind (call_cancel env \<lparr>cq_protocol = SIGNING_PROTOCOL (env_deploy env), cq_session = sid\<rparr>) unwrap) (\<lambda>_.
      test_bind (fixture_prepare env fl sl orc fx) f)) Q"
  unfolding triple_def
proof (intro allI impI, elim holdingE conjE)
  fix s t k
  assume s: "s = at sg t k" and t: "\<not> as_poisoned sg" "young t" "known t k" "map_of t sid \<noteq> None"
      "length (tbl_remove sid t) < MAX_PENDING_SESSIONS"
      "tbl_count (\<lambda>p. wallet p = pk_user_pubkey (fx_key fx)) (tbl_remove sid t) < MAX_SESSIONS_PER_USER"
    and \<Phi>: "\<forall>pd p. honest root fx intn inst pd p \<longrightarrow> map_of t (session_of pd) = None \<longrightarrow>
         wallet p = pk_user_pubkey (fx_key fx) \<longrightarrow> \<Phi> pd (tbl_remove sid t @ [(session_of pd, p)])"
  let ?t = "tbl_remove sid t"
  from assms(2) have root: "test_root fl = Ok root" by (simp add: lab_signer_def)
  have y: "young ?t" "known ?t (Suc k)" "known t (Suc (Suc k))" using t(2,3) by (auto intro: young_remove known_remove known_later)
  from fixture_prepare_run [OF assms(1) root t(1) retain_young [OF y(1)] y(2) t(5,6)] obtain pd p k' where
    run: "fixture_prepare env fl sl orc fx (at sg ?t (Suc k)) = Returned pd (at sg (?t @ [(session_of pd, p)]) k')"
      "honest root fx intn inst pd p" "session_of pd = or_session orc (Suc (Suc k)) 0"
      "wallet p = pk_user_pubkey (fx_key fx)" "\<forall>j. or_now orc j < pd_expires p" "Suc (Suc (Suc k)) \<le> k'"
    by metis
  have "map_of t (session_of pd) = None" unfolding run(3) by (rule known_fresh [OF y(3)])
  with \<Phi> run(2,4) have "\<Phi> pd (?t @ [(session_of pd, p)])" by blast
  moreover have "known (?t @ [(session_of pd, p)]) k'"
    by (rule known_later [OF _ run(6)]) (simp add: run(3) known_later [OF y(2)])
  ultimately have "holding sg (\<Phi> pd) (at sg (?t @ [(session_of pd, p)]) k')" using t(1) y(1) run(5) by simp
  from tripleD [OF assms(3) this] run(1) call_cancel_known [OF t(1,4), of env k]
  show "\<exists>x s'. test_bind (test_bind (call_cancel env \<lparr>cq_protocol = SIGNING_PROTOCOL (env_deploy env), cq_session = sid\<rparr>) unwrap) (\<lambda>_.
      test_bind (fixture_prepare env fl sl orc fx) f) s = Returned x s' \<and> Q x s'"
    by (simp add: s)
qed

text \<open>An expired session leaves its slot to a reservation of a wallet with room.\<close>

lemma request_for_run:
  assumes "0 < b" "b < 255" "lab_signer root sg" "test_key fl b = Ok kp"
  obtains rq where "ownership_request_for env fl orc b (at sg t k) = Returned rq (at sg t (Suc k))"
    "admissible env sg rq (fl_public_key fl kp)"
proof -
  note sg = assms(3) [unfolded lab_signer_def]
  have "only sg [] (at sg [] k)" using sg by simp
  with tripleD [OF triple_request_for [OF assms(1,2) _ _ assms(4), of root sg "\<lambda>t. t = []"], of "at sg [] k"] sg
  obtain rq s' where "ownership_request_for env fl orc b (at sg [] k) = Returned rq s'" "admissible env sg rq (fl_public_key fl kp)"
    by blast
  moreover from this(1) have "ownership_request_for env fl orc b (at sg t k) = Returned rq (at sg t (Suc k))"
    unfolding ownership_request_for_def ownership_prepare_def Let_def
    by (cases "bind_res (payment_program env fl) (\<lambda>program. ownership_fixture env fl program b)")
      (auto simp: test_bind_def new_nonce_def test_return_def split: run.splits res.splits prod.splits elim!: unwrap.elims)
  ultimately show thesis by (blast intro: that)
qed

lemma triple_recovered:
  assumes "lab_signer root sg" "0 < b" "b < 255" "test_key fl b = Ok kp"
    and f: "\<And>r. triple (holding sg (\<Phi> (ps_session r))) (f r) Q"
  shows "triple (holding sg (\<lambda>t. distinct (map fst t) \<and> map_of t sid \<noteq> None \<and> length (tbl_remove sid t) < MAX_PENDING_SESSIONS \<and>
      tbl_count (\<lambda>p. wallet p = fl_public_key fl kp) (tbl_remove sid t) < MAX_SESSIONS_PER_USER \<and>
      (\<forall>sid' p. map_of t sid' = None \<longrightarrow> wallet p = fl_public_key fl kp \<longrightarrow> \<Phi> sid' (tbl_remove sid t @ [(sid', p)]))))
    (test_bind (expire_session orc sid) (\<lambda>_. test_bind (ownership_request_for env fl orc b) (\<lambda>rq.
      test_bind (test_bind (call_prepare env orc rq) unwrap) f))) Q"
  unfolding triple_def
proof (intro allI impI, elim holdingE conjE)
  fix s k and t :: "(hash, pending) table"
  let ?u = "fl_public_key fl kp" and ?t = "tbl_remove sid t"
  assume s: "s = at sg t k" and t: "\<not> as_poisoned sg" "young t" "known t k" "distinct (map fst t)" "map_of t sid \<noteq> None"
      "length ?t < MAX_PENDING_SESSIONS" "tbl_count (\<lambda>p. wallet p = ?u) ?t < MAX_SESSIONS_PER_USER"
    and \<Phi>: "\<forall>sid' p. map_of t sid' = None \<longrightarrow> wallet p = ?u \<longrightarrow> \<Phi> sid' (?t @ [(sid', p)])"
  from t(5) obtain p where p: "map_of t sid = Some p" by blast
  let ?p = "p\<lparr>pd_expires := or_now orc k - duration_from_secs 1\<rparr>" and ?k = "Suc (Suc k)"
  let ?old = "tbl_insert sid ?p t"
  have expire: "expire_session orc sid s = Returned () (at sg ?old (Suc k))"
    using now_started now_mono [of 0 k] by (simp add: s expire_session_def p)
  obtain rq where rq: "ownership_request_for env fl orc b (at sg ?old (Suc k)) = Returned rq (at sg ?old ?k)"
    "admissible env sg rq ?u" by (rule request_for_run [OF assms(2,3,1,4)])
  have "or_now orc k - duration_from_secs 1 \<le> or_now orc ?k" using now_mono [of k ?k] by simp
  then have prune: "tbl_retain (\<lambda>p. or_now orc ?k < pd_expires p) ?old = ?t"
    using t(2,4,5) by (intro retain_expired) (auto simp: young_def list_all_iff)
  from rq(2) obtain checked nonce where c: "check_prepare env sg rq = Ok checked" "fst (in_members (fst checked)) = ?u"
      "nonce_new (env_ark env) (or_seed orc ?k) (fst checked) (snd (in_members (fst checked))) = Ok nonce"
    unfolding admissible_def by blast
  let ?new = "?t @ [(or_session orc ?k 0, new_pending env orc ?k checked nonce)]"
  have known: "known t ?k" "known ?t ?k" using t(3) by (auto intro: known_later known_remove)
  have prep: "call_prepare env orc rq (at sg ?old ?k) = Returned (Ok (reserved env orc ?k nonce)) (at sg ?new (Suc ?k))"
    by (rule prepare_admitted_pruning [OF c(1) t(1) prune known(2)]) (use t(6,7) c in simp_all)
  have "\<Phi> (or_session orc ?k 0) ?new"
    using \<Phi> known_fresh [OF known(1), of 0] c(2) by (simp add: wallet_def)
  then have "holding sg (\<Phi> (ps_session (reserved env orc ?k nonce))) (at sg ?new (Suc ?k))"
    using t(1,2) known(2) new_pending_young by (auto intro: young_remove known_later)
  from tripleD [OF f this] expire rq(1) prep
  show "\<exists>x s'. test_bind (expire_session orc sid) (\<lambda>_. test_bind (ownership_request_for env fl orc b) (\<lambda>rq.
      test_bind (test_bind (call_prepare env orc rq) unwrap) f)) s = Returned x s' \<and> Q x s'"
    by simp
qed

text \<open>Every session that is held is finished and completed.\<close>

lemma triple_complete_all:
  assumes "ready env fl sl sg fx intn inst" "lab_signer root sg"
  shows "triple (holding sg (held root fx intn inst pds ss)) (for_each pds (\<lambda>prepared.
      test_bind (test_bind (call_finish env orc (pp_finish prepared)) unwrap) (\<lambda>response.
      test_bind (prepared_complete env fl sl prepared fx response) (\<lambda>_. test_return ())))) (\<lambda>_. holding sg (held root fx intn inst [] ss))"
proof (induction pds)
  case Nil
  show ?case by (simp add: triple_def test_return_def)
next
  case (Cons pd pds)
  have finish: "triple (holding sg (held root fx intn inst (pd # pds) ss)) (test_bind (call_finish env orc (pp_finish pd)) unwrap)
      (\<lambda>response s. holding sg (held root fx intn inst pds ss) s \<and> completes fx intn pd response)"
    unfolding triple_def
  proof (intro allI impI)
    fix s
    assume s: "holding sg (held root fx intn inst (pd # pds) ss) s"
    then obtain t k where t: "s = at sg t k" "held root fx intn inst (pd # pds) ss t" by (auto elim: holdingE)
    then obtain p where p: "map_of t (session_of pd) = Some p" "honest root fx intn inst pd p" by (auto simp: held_def)
    have "held root fx intn inst pds ss (tbl_remove (session_of pd) t)"
      by (rule held_removed [OF t(2)]) (use t(2) in \<open>auto simp: held_def\<close>)
    with s p have "holding sg (\<lambda>t. map_of t (session_of pd) = Some p \<and> held root fx intn inst pds ss (tbl_remove (session_of pd) t)) s"
      by (simp add: t(1))
    from tripleD [OF triple_finish [OF p(2) assms disjI1 [OF refl]] this]
    show "\<exists>x s'. test_bind (call_finish env orc (pp_finish pd)) unwrap s = Returned x s' \<and>
        holding sg (held root fx intn inst pds ss) s' \<and> completes fx intn pd x" .
  qed
  show ?case
    unfolding for_each.simps
    by (rule triple_bind [OF _ Cons.IH], rule triple_bind [OF finish], rule triple_pure, rule triple_bind [OF triple_complete triple_return])
qed

subsection \<open>The test passes\<close>

lemma triple_holding_fact: "(\<And>t. \<Phi> t \<Longrightarrow> b) \<Longrightarrow> (b \<Longrightarrow> triple (holding sg \<Phi>) m Q) \<Longrightarrow> triple (holding sg \<Phi>) m Q"
  by (auto simp: triple_def elim!: holdingE)

text \<open>The second half: the pool is full, with \<open>kept\<close> and \<open>ss\<close> held.\<close>

lemma triple_after_replacement:
  assumes rd: "ready env fl sl sg fx intn inst" "lab_signer root sg"
    and b: "0 < b" "b < 255" "test_key fl b = Ok kp" "fl_public_key fl kp \<notin> insert (pk_user_pubkey (fx_key fx)) us"
    and n: "length pds + length ss = MAX_PENDING_SESSIONS" "ss \<noteq> []"
  shows "triple (holding sg (\<lambda>t. held root fx intn inst pds ss t \<and> served c (pk_user_pubkey (fx_key fx)) us t))
    (test_bind (refused_request env fl sl orc fx) (\<lambda>_.
     test_bind (vec_pop ss) (\<lambda>(expired, sessions).
     test_bind (expire_session orc expired) (\<lambda>_.
     test_bind (ownership_request_for env fl orc b) (\<lambda>request.
     test_bind (test_bind (call_prepare env orc request) unwrap) (\<lambda>recovered.
     test_bind (refused_request env fl sl orc fx) (\<lambda>_.
     test_bind (test_bind (call_cancel env
         \<lparr>cq_protocol = SIGNING_PROTOCOL (env_deploy env), cq_session = ps_session recovered\<rparr>) unwrap) (\<lambda>_.
     for_each pds (\<lambda>prepared.
       test_bind (test_bind (call_finish env orc (pp_finish prepared)) unwrap) (\<lambda>response.
       test_bind (prepared_complete env fl sl prepared fx response) (\<lambda>_. test_return ())))))))))))
    (\<lambda>_ _. True)"
proof -
  let ?I = "\<lambda>t. held root fx intn inst pds ss t \<and> served c (pk_user_pubkey (fx_key fx)) us t"
  let ?H = "held root fx intn inst pds" and ?u = "fl_public_key fl kp"
  obtain ss' sid where ss: "ss = ss' @ [sid]" using n(2) by (cases ss rule: rev_cases) auto
  have refuse: "triple (holding sg ?I) (refused_request env fl sl orc fx) (\<lambda>_. holding sg ?I)"
    by (rule triple_pre [OF triple_refused_request [OF rd(1)]], erule holding_mono) (use n(1) held_length in auto)
  have refuse': "triple (holding sg (?H (ss' @ [x]))) (refused_request env fl sl orc fx) (\<lambda>_. holding sg (?H (ss' @ [x])))" for x
    by (rule triple_pre [OF triple_refused_request [OF rd(1)]], erule holding_mono) (use n(1) ss held_length in fastforce)
  have release: "triple (holding sg (?H (ss' @ [x]))) (test_bind (call_cancel env
      \<lparr>cq_protocol = SIGNING_PROTOCOL (env_deploy env), cq_session = x\<rparr>) unwrap) (\<lambda>_. holding sg (?H ss'))" for x
  proof (rule triple_pre [OF triple_cancel], erule holding_mono, goal_cases)
    case (1 s t)
    have "?H ss' (tbl_remove x t)" by (rule held_removed [OF 1]) (use 1 in \<open>auto simp: held_def\<close>)
    with held_known [OF 1, of x] show ?case by simp
  qed
  have slot: "distinct (map fst t) \<and> map_of t sid \<noteq> None \<and> length (tbl_remove sid t) < MAX_PENDING_SESSIONS \<and>
      tbl_count (\<lambda>p. wallet p = ?u) (tbl_remove sid t) < MAX_SESSIONS_PER_USER \<and>
      (\<forall>sid' p. map_of t sid' = None \<longrightarrow> wallet p = ?u \<longrightarrow> ?H (ss' @ [sid']) (tbl_remove sid t @ [(sid', p)]))" if "?I t" for t
  proof -
    from that have t: "?H ss t" "served c (pk_user_pubkey (fx_key fx)) us t" by auto
    have h: "?H ss' (tbl_remove sid t)" by (rule held_removed [OF t(1)]) (use t(1) in \<open>auto simp: held_def ss\<close>)
    have "tbl_count (\<lambda>p. wallet p = ?u) (tbl_remove sid t) = 0"
      by (rule served_other [OF served_removed [OF t(2)] b(4)])
    moreover have "length (tbl_remove sid t) < MAX_PENDING_SESSIONS" using held_length [OF h] n(1) by (simp add: ss)
    moreover have "?H (ss' @ [sid']) (tbl_remove sid t @ [(sid', p)])" if "map_of t sid' = None" for sid' p
      by (rule held_reserved [OF h]) (simp add: map_of_remove that)
    moreover have "distinct (map fst t)" using t(1) by (simp add: held_def)
    moreover have "map_of t sid \<noteq> None" by (rule held_known [OF t(1)]) (simp add: ss)
    ultimately show ?thesis by (simp add: MAX_SESSIONS_PER_USER_def)
  qed
  have rest: "triple (holding sg (?H (ss' @ [ps_session r]))) (test_bind (refused_request env fl sl orc fx) (\<lambda>_.
     test_bind (test_bind (call_cancel env
         \<lparr>cq_protocol = SIGNING_PROTOCOL (env_deploy env), cq_session = ps_session r\<rparr>) unwrap) (\<lambda>_.
     for_each pds (\<lambda>prepared.
       test_bind (test_bind (call_finish env orc (pp_finish prepared)) unwrap) (\<lambda>response.
       test_bind (prepared_complete env fl sl prepared fx response) (\<lambda>_. test_return ())))))) (\<lambda>_ _. True)" for r
    by (rule triple_bind [OF refuse'], rule triple_bind [OF release], rule triple_conseq [OF triple_complete_all [OF rd]]) simp_all
  show ?thesis
    unfolding ss vec_pop_snoc prod.case
    by (rule triple_bind [OF refuse [unfolded ss]],
      rule triple_pre [OF triple_recovered [OF rd(2) b(1-3), where \<Phi> = "\<lambda>x. ?H (ss' @ [x])", OF rest]], erule holding_mono)
      (rule slot [unfolded ss])
qed

lemma replacement_slot:
  assumes t: "held root fx intn inst (ks @ [c]) ss t" "served 3 (pk_user_pubkey (fx_key fx)) us t"
    and n: "length ks + length ss < MAX_PENDING_SESSIONS"
  shows "map_of t (session_of c) \<noteq> None \<and> length (tbl_remove (session_of c) t) < MAX_PENDING_SESSIONS \<and>
    tbl_count (\<lambda>p. wallet p = pk_user_pubkey (fx_key fx)) (tbl_remove (session_of c) t) < MAX_SESSIONS_PER_USER \<and>
    (\<forall>pd p. honest root fx intn inst pd p \<longrightarrow> map_of t (session_of pd) = None \<longrightarrow> wallet p = pk_user_pubkey (fx_key fx) \<longrightarrow>
      map_of (tbl_remove (session_of c) t @ [(session_of pd, p)]) (session_of c) = None \<and>
      held root fx intn inst (ks @ [pd]) ss (tbl_remove (session_of c) t @ [(session_of pd, p)]) \<and>
      served 4 (pk_user_pubkey (fx_key fx)) us (tbl_remove (session_of c) t @ [(session_of pd, p)]))"
proof -
  let ?t = "tbl_remove (session_of c) t" and ?F = "pk_user_pubkey (fx_key fx)"
  have h: "held root fx intn inst ks ss ?t"
    by (rule held_removed [OF t(1)]) (use t(1) in \<open>auto simp: held_def\<close>)
  have known: "map_of t (session_of c) \<noteq> None" by (rule held_known [OF t(1)]) simp
  note s = served_removed [OF t(2), of "session_of c"]
  have "map_of (?t @ [(session_of pd, p)]) (session_of c) = None \<and> held root fx intn inst (ks @ [pd]) ss (?t @ [(session_of pd, p)]) \<and>
      served 4 ?F us (?t @ [(session_of pd, p)])"
    if "honest root fx intn inst pd p" "map_of t (session_of pd) = None" "wallet p = ?F" for pd p
  proof (intro conjI)
    show "map_of (?t @ [(session_of pd, p)]) (session_of c) = None"
      using known that(2) by (auto simp: map_of_snoc map_of_remove simp del: map_of_append)
    show "held root fx intn inst (ks @ [pd]) ss (?t @ [(session_of pd, p)])"
      by (rule held_prepared [OF h _ that(1)]) (simp add: map_of_remove that(2))
    show "served 4 ?F us (?t @ [(session_of pd, p)])"
      using s that(3) by (auto simp: served_def tbl_count_append)
  qed
  with known s held_length [OF h] n show ?thesis by (simp add: served_def MAX_SESSIONS_PER_USER_def)
qed

lemma session_capacity_test_passes:
  assumes "test_fixture True fx intn inst"
  shows "test_passes (session_capacity_test env fl sl orc)"
  unfolding session_capacity_test_def
proof (rule lab_test_passes, rule triple_unwrap_then [OF test_fixtureD(1) [OF assms]], goal_cases)
  case (1 root sg)
  note sg = 1
  note rd = test_fixtureD(3) [OF assms sg(1)]
  let ?F = "pk_user_pubkey (fx_key fx)"
  from rd obtain kf where kf: "test_key fl 0x42 = Ok kf" "?F = fl_public_key fl kf" unfolding ready_def by blast
  have "\<forall>i. \<exists>kp. i \<le> 0x20 \<longrightarrow> test_key fl (filler i) = Ok kp" using keypair filler by blast
  then obtain key where key: "i \<le> 0x20 \<Longrightarrow> test_key fl (filler i) = Ok (key i)" for i by metis
  let ?us = "(\<lambda>i. fl_public_key fl (key i)) ` {..<0x20}"
  have fresh: "fl_public_key fl (key 0x20) \<notin> insert ?F ?us"
  proof -
    have "fl_public_key fl (key 0x20) \<noteq> fl_public_key fl (key i)" if "i < 0x20" for i
      using public_eq [OF key key, of "0x20" i] filler(3) [of "0x20"] filler(3) [of i] that by auto
    moreover have "fl_public_key fl (key 0x20) \<noteq> ?F"
      using public_eq [OF key kf(1), of "0x20"] filler(3) [of "0x20"] by (auto simp: kf(2))
    ultimately show ?thesis by auto
  qed
  have refuse: "triple (holding sg (filling root fx intn inst pds 256 ?us ss)) (refused_request env fl sl orc fx)
      (\<lambda>_. holding sg (filling root fx intn inst pds 256 ?us ss))" if "length pds = 3" for pds ss
    by (rule triple_pre [OF triple_refused_request [OF rd]], erule holding_mono)
      (use held_length that in \<open>fastforce simp: filling_def cap_numbers\<close>)
  have fill: "triple (holding sg (\<lambda>t. held root fx intn inst pds [] t \<and> served 3 ?F {} t)) (fill_pool env fl orc (length pds) 0x10 [])
      (\<lambda>r s. holding sg (filling root fx intn inst pds 256 ?us (fst r)) s \<and> snd r = filler 0x20)" if "length pds = 3" for pds
    proof -
      have "triple (holding sg (filling root fx intn inst pds (0 * MAX_SESSIONS_PER_USER) ((\<lambda>i. fl_public_key fl (key i)) ` {..<0}) []))
          (fill_pool env fl orc (length pds) (filler 0) [])
          (\<lambda>r s. holding sg (filling root fx intn inst pds 256 ?us (fst r)) s \<and> snd r = filler 0x20)"
        by (rule triple_fill_pool [OF sg(2) that _ key kf]) simp_all
      then show ?thesis unfolding filler_zero by (rule triple_pre) (auto elim!: holding_mono simp: filling_def)
    qed
  show ?case
  proof (rule triple_bind [OF triple_keep [OF rd sg(2)]], simp add: cap_numbers, rule triple_pure, rule triple_bind [OF fill], assumption,
      simp only: prod.case_eq_if, rule triple_pure, rule triple_bind [OF refuse], assumption, goal_cases)
    case (1 kept r)
    then obtain ks c where kept: "kept = ks @ [c]" "length ks = 2" by (cases kept rule: rev_cases) auto
    let ?held = "\<lambda>pd t. held root fx intn inst (ks @ [pd]) (fst r) t \<and> served 4 ?F ?us t"
    show ?case (is "triple _ ?m _")
    proof (rule triple_holding_fact [where b = "length (fst r) = 253"])
      fix t
      assume "filling root fx intn inst kept 256 ?us (fst r) t"
      then show "length (fst r) = 253" using 1(1) by (simp add: filling_def cap_numbers)
    next
      assume n: "length (fst r) = 253"
      then have n_ne: "fst r \<noteq> []" by auto
      show "triple (holding sg (filling root fx intn inst kept 256 ?us (fst r))) ?m (\<lambda>_ _. True)"
        unfolding kept(1) vec_pop_snoc prod.case 1(2)
        apply (rule triple_pre [OF triple_replaced [OF rd sg(2), where \<Phi> = "\<lambda>pd t. map_of t (session_of c) = None \<and> ?held pd t"]])
         apply (rule triple_bind [OF triple_finish_unknown])
         apply (rule triple_after_replacement [OF rd sg(2) filler(1,2) key fresh])
             apply (simp_all add: cap_numbers n n_ne kept(2)) [5]
        apply (erule holding_mono, rule replacement_slot)
          apply (simp_all add: filling_def cap_numbers n kept(2))
        done
    qed
  qed
qed

end

end
