(* ===== verification/Spend_Lab.thy ===== *)
theory Spend_Lab
  imports Session_Tests
begin

text \<open>
  What the predicate tests of \<open>src/src/ark_signer.rs\<close> rely on of the Ark and Bitcoin crates, and the gate of the
  signer on a spend with a valid funding proof.

  A signing context is \<open>proven\<close> when the selected input names an output of the funding transaction it carries,
  and it is on the path of a program key when its Taproot metadata, participants and tweak are those of the
  key's tree. The locale \<open>spend_lab\<close> states the documented behaviour: such a context survives the round trip
  through a request, its intent is its signature hash, and a context without proof is refused. Under it a
  prepare of the signer is decided by the evaluator alone.
\<close>

section \<open>Specification\<close>

definition instance_of :: "ark_program \<Rightarrow> program_instance" where
  "instance_of program = \<lparr>pr_evaluator = ap_evaluator program, pr_program = ap_program program,
     pr_parameters = ap_parameters program\<rparr>"

lemma instance_of_sel [simp]:
  "pr_evaluator (instance_of program) = ap_evaluator program" "pr_program (instance_of program) = ap_program program"
  "pr_parameters (instance_of program) = ap_parameters program"
  by (simp_all add: instance_of_def)

text \<open>The proof of an input: the transaction it spends from, and the output.\<close>

definition proven_input :: "spend_fixture_lib \<Rightarrow> tx_in \<Rightarrow> psbt_input \<Rightarrow> bool" where
  "proven_input sl i m =
     (case (pi_witness_utxo m, pi_non_witness_utxo m) of
        (Some out, Some funding) \<Rightarrow>
          op_txid (ti_previous_output i) = sf_compute_txid sl funding \<and>
          unat (op_vout (ti_previous_output i)) < length (tx_output funding) \<and>
          tx_output funding ! unat (op_vout (ti_previous_output i)) = out
      | _ \<Rightarrow> False)"

definition proven :: "spend_fixture_lib \<Rightarrow> signing_input \<Rightarrow> bool" where
  "proven sl inp \<longleftrightarrow>
     (let tx = psbt_unsigned_tx (si_psbt inp); ms = psbt_inputs (si_psbt inp); i = si_input_index inp in
      length ms = length (tx_input tx) \<and> i < length ms \<and> list_all (\<lambda>m. pi_witness_utxo m \<noteq> None) ms \<and>
      proven_input sl (tx_input tx ! i) (ms ! i))"

text \<open>The verdict of the gate on an evaluated spend.\<close>

definition verdict :: "('m, 'i) signer_env \<Rightarrow> wasm_evaluator list \<Rightarrow> fixture \<Rightarrow> bool result" where
  "verdict env registry fx =
     bind_res (select_module (env_spend env) registry (instance_of (pk_program (fx_key fx)))) (\<lambda>(m, selector, version).
     map_err (\<lambda>e. Program (EvaluationFailed e))
       (evaluate (env_rt env) (outpoint_encode (env_spend env)) version m selector
          (ap_parameters (pk_program (fx_key fx))) (fx_input fx) (fx_witness fx)))"

locale spend_lab = musig_lab orc env fl sl intent_key
  for orc :: test_oracle and env :: "('m, 'i) signer_env" and fl :: fixture_lib and sl :: spend_fixture_lib
    and intent_key :: "intent \<Rightarrow> bytes" +
  fixes tree_meta :: "bytes \<Rightarrow> psbt_input" and plain_meta :: psbt_input and tree_tweak :: "bytes \<Rightarrow> bytes option"
    and output_maps :: "nat \<Rightarrow> bytes \<Rightarrow> bool"
  assumes tree_meta: "pi_witness_utxo (tree_meta tree) = None" "pi_non_witness_utxo (tree_meta tree) = None"
      "pi_final_script_sig (tree_meta tree) = None" "pi_final_script_witness (tree_meta tree) = None"
      "\<exists>k. pi_tap_internal_key (tree_meta tree) = Some k \<and> length k = 32" "pi_tap_scripts (tree_meta tree) \<noteq> []"
    and plain_meta: "pi_tap_internal_key plain_meta = None"
    and txid_length: "length (sf_compute_txid sl tx) = 32"
    and tree_script: "length (sf_tree_script sl tree) = 34"
    and program_pubkey: "test_root fl = Ok root \<Longrightarrow> pk_root key = xpub_from_priv (env_ark env) root \<Longrightarrow>
      derive_public_key (env_ark env) (instance_of (pk_program key)) (pk_root key) = Ok x \<Longrightarrow>
      sf_program_pubkey sl key = Ok (even_public_key (env_ark env) x)"
    and key_spend: "length outs = length (tx_input tx) \<Longrightarrow> i < length outs \<Longrightarrow>
      txo_script_pubkey (outs ! i) = sf_tree_script sl tree \<Longrightarrow>
      \<exists>inp. sf_key_spend sl tx i outs tree parts = Ok inp \<and> psbt_unsigned_tx (si_psbt inp) = tx \<and>
        psbt_inputs (si_psbt inp) = (map (\<lambda>out. plain_meta\<lparr>pi_witness_utxo := Some out\<rparr>) outs)
          [i := (tree_meta tree)\<lparr>pi_witness_utxo := Some (outs ! i)\<rparr>] \<and>
        output_maps (length (tx_output tx)) (psbt_other (si_psbt inp)) \<and>
        si_input_index inp = i \<and> si_script_leaf inp = None \<and> si_participants inp = parts \<and> si_tweak inp = tree_tweak tree"
    and resize_outputs: "psbt_unsigned_tx (sf_resize_outputs sl n psbt) = psbt_unsigned_tx psbt"
      "psbt_inputs (sf_resize_outputs sl n psbt) = psbt_inputs psbt"
      "output_maps n (psbt_other (sf_resize_outputs sl n psbt))"
    and from_input: "\<exists>rq. sf_from_input sl inp server w = Ok rq \<and> sr_witness rq = w"
    and unproven: "sf_from_input sl inp server w = Ok rq \<Longrightarrow> \<not> proven sl inp \<Longrightarrow>
      \<exists>e. action_intent (env_ark env) (Spend rq) key = Err e"
begin

text \<open>The selected input is on the path of the key: the server's, or the claim of the wallet and the program.\<close>

definition on_path :: "program_key \<Rightarrow> signing_input \<Rightarrow> pubkey option \<Rightarrow> bool" where
  "on_path key inp server \<longleftrightarrow> (\<exists>grp sk delta tree m out.
     fl_group_key fl key = Ok grp \<and> test_key fl 0x43 = Ok sk \<and> fl_check_block_delta fl EXIT_DELAY = Ok delta \<and>
     tree = sf_taproot sl grp (fl_public_key fl sk) delta \<and> m = psbt_inputs (si_psbt inp) ! si_input_index inp \<and>
     m\<lparr>pi_witness_utxo := None, pi_non_witness_utxo := None\<rparr> = tree_meta tree \<and>
     pi_witness_utxo m = Some out \<and> txo_script_pubkey out = sf_tree_script sl tree \<and>
     (server = Some (fl_public_key fl sk) \<and> si_script_leaf inp = None \<and>
        si_participants inp = [grp, fl_public_key fl sk] \<and> si_tweak inp = tree_tweak tree \<or>
      server = None \<and> si_script_leaf inp = Some (sf_leaf_hash sl (sf_claim_tapscript sl grp delta)) \<and>
        (\<exists>program. sf_program_pubkey sl key = Ok program \<and> si_participants inp = [pk_user_pubkey key, program]) \<and>
        si_tweak inp = None))"

definition spendable :: "fixture \<Rightarrow> bool" where
  "spendable fx \<longleftrightarrow> proven sl (fx_input fx) \<and> on_path (fx_key fx) (fx_input fx) (map_option (fl_public_key fl) (fx_server fx)) \<and>
     output_maps (length (tx_output (psbt_unsigned_tx (si_psbt (fx_input fx))))) (psbt_other (si_psbt (fx_input fx)))"

end

text \<open>Contexts that are proven and on the path of their key are accepted.\<close>

locale spend_path_lab = spend_lab orc env fl sl intent_key tree_meta plain_meta tree_tweak output_maps
  for orc :: test_oracle and env :: "('m, 'i) signer_env" and fl :: fixture_lib and sl :: spend_fixture_lib
    and intent_key :: "intent \<Rightarrow> bytes" and tree_meta :: "bytes \<Rightarrow> psbt_input" and plain_meta :: psbt_input
    and tree_tweak :: "bytes \<Rightarrow> bytes option" and output_maps :: "nat \<Rightarrow> bytes \<Rightarrow> bool" +
  assumes spend_intent_of: "spendable fx \<Longrightarrow> sf_from_input sl (fx_input fx) (map_option (fl_public_key fl) (fx_server fx)) w = Ok rq \<Longrightarrow>
      derive_public_key (env_ark env) (instance_of (pk_program (fx_key fx))) (pk_root (fx_key fx)) = Ok x \<Longrightarrow>
      \<exists>intn. action_intent (env_ark env) (Spend rq) (fx_key fx) = Ok intn \<and>
        in_members intn = (pk_user_pubkey (fx_key fx), even_public_key (env_ark env) x) \<and>
        in_server intn = map_option (fl_public_key fl) (fx_server fx) \<and>
        spend_signing_input (env_ark env) rq (fx_key fx) = Ok (fx_input fx) \<and>
        sighash (env_spend env) (fx_input fx) = Ok (in_message intn)"
    and valid_context: "spendable fx \<Longrightarrow> validate_psbt (env_spend env) (si_psbt (fx_input fx)) = Ok ()"
    and no_annex: "spendable fx \<Longrightarrow>
      annex_get (env_spend env) (psbt_inputs (si_psbt (fx_input fx)) ! si_input_index (fx_input fx)) = Ok None"
    and sighash_binds: "sighash (env_spend env) inp = Ok h \<Longrightarrow> sighash (env_spend env) inp' = Ok h \<Longrightarrow>
      psbt_unsigned_tx (si_psbt inp) = psbt_unsigned_tx (si_psbt inp') \<and>
      map pi_witness_utxo (psbt_inputs (si_psbt inp)) = map pi_witness_utxo (psbt_inputs (si_psbt inp'))"
    and signature_binds: "sf_verify_schnorr sl sig m k = Ok () \<Longrightarrow> sf_verify_schnorr sl sig m' k' = Ok () \<Longrightarrow> m = m'"
begin

text \<open>The key of a fixture belongs to the signers of the tests.\<close>

definition keyed :: "fixture \<Rightarrow> bool" where
  "keyed fx \<longleftrightarrow> small (pk_program (fx_key fx)) \<and>
     (\<exists>root user. test_root fl = Ok root \<and> pk_root (fx_key fx) = xpub_from_priv (env_ark env) root \<and>
        test_key fl 0x42 = Ok user \<and> pk_user_pubkey (fx_key fx) = fl_public_key fl user) \<and>
     (\<exists>policy. parse (env_codec env) (ap_parameters (pk_program (fx_key fx))) = Ok policy \<and>
        (policy \<noteq> None \<longrightarrow> inline_wasm_version (env_spend env) (ap_evaluator (pk_program (fx_key fx))) \<noteq> None))"

lemma keyed_update [simp]: "keyed (fx\<lparr>fx_input := inp\<rparr>) = keyed fx" "keyed (fx\<lparr>fx_witness := w\<rparr>) = keyed fx"
  by (simp_all add: keyed_def)

lemma spendable_index:
  assumes "spendable fx"
  shows "si_input_index (fx_input fx) < length (psbt_inputs (si_psbt (fx_input fx)))"
    and "list_all (\<lambda>m. pi_witness_utxo m \<noteq> None) (psbt_inputs (si_psbt (fx_input fx)))"
    and "pi_final_script_sig (psbt_inputs (si_psbt (fx_input fx)) ! si_input_index (fx_input fx)) = None"
    and "pi_final_script_witness (psbt_inputs (si_psbt (fx_input fx)) ! si_input_index (fx_input fx)) = None"
proof -
  let ?m = "psbt_inputs (si_psbt (fx_input fx)) ! si_input_index (fx_input fx)"
  show "si_input_index (fx_input fx) < length (psbt_inputs (si_psbt (fx_input fx)))"
    "list_all (\<lambda>m. pi_witness_utxo m \<noteq> None) (psbt_inputs (si_psbt (fx_input fx)))"
    using assms by (simp_all add: spendable_def proven_def Let_def)
  from assms obtain tree where t: "?m\<lparr>pi_witness_utxo := None, pi_non_witness_utxo := None\<rparr> = tree_meta tree"
    unfolding spendable_def on_path_def by blast
  have "pi_final_script_sig (?m\<lparr>pi_witness_utxo := None, pi_non_witness_utxo := None\<rparr>) = None"
    "pi_final_script_witness (?m\<lparr>pi_witness_utxo := None, pi_non_witness_utxo := None\<rparr>) = None"
    unfolding t by (rule tree_meta)+
  then show "pi_final_script_sig ?m = None" "pi_final_script_witness ?m = None" by simp_all
qed

lemma keyed_instance:
  assumes "keyed fx"
  obtains root user x where "test_root fl = Ok root" "pk_root (fx_key fx) = xpub_from_priv (env_ark env) root"
    "test_key fl 0x42 = Ok user" "pk_user_pubkey (fx_key fx) = fl_public_key fl user"
    "derive_public_key (env_ark env) (instance_of (pk_program (fx_key fx))) (pk_root (fx_key fx)) = Ok x"
    "program_instance_new (env_ark env) (ap_evaluator (pk_program (fx_key fx))) (ap_program (pk_program (fx_key fx)))
       (ap_parameters (pk_program (fx_key fx))) = Ok (instance_of (pk_program (fx_key fx)))"
    "instance_id (env_ark env) (instance_of (pk_program (fx_key fx))) = ark_program_id (env_ark env) (pk_program (fx_key fx))"
proof -
  from assms obtain root user where r: "test_root fl = Ok root" "pk_root (fx_key fx) = xpub_from_priv (env_ark env) root"
    "test_key fl 0x42 = Ok user" "pk_user_pubkey (fx_key fx) = fl_public_key fl user" "small (pk_program (fx_key fx))"
    unfolding keyed_def by blast
  from group_key [OF r(1,3,2,4)] obtain x where
    "derive_public_key (env_ark env) (instance_of (pk_program (fx_key fx))) (pk_root (fx_key fx)) = Ok x"
    by (auto simp: instance_of_def)
  moreover have "program_instance_new (env_ark env) (ap_evaluator (pk_program (fx_key fx))) (ap_program (pk_program (fx_key fx)))
       (ap_parameters (pk_program (fx_key fx))) = Ok (instance_of (pk_program (fx_key fx)))"
    unfolding instance_of_def using r(5) by (intro instance_new) (simp_all add: small_def)
  moreover have "instance_id (env_ark env) (instance_of (pk_program (fx_key fx))) = ark_program_id (env_ark env) (pk_program (fx_key fx))"
    unfolding instance_of_def same_id by (cases "pk_program (fx_key fx)") simp
  ultimately show ?thesis using that r(1-4) by blast
qed

text \<open>The gate on a spendable fixture is the verdict of its evaluator.\<close>

lemma fixture_action_Ok:
  assumes "spendable fx" "keyed fx"
  obtains rq intn x where "fixture_action fl sl fx = Ok (Spend rq)" "sr_witness rq = fx_witness fx"
    "action_intent (env_ark env) (Spend rq) (fx_key fx) = Ok intn"
    "derive_public_key (env_ark env) (instance_of (pk_program (fx_key fx))) (pk_root (fx_key fx)) = Ok x"
    "in_members intn = (pk_user_pubkey (fx_key fx), even_public_key (env_ark env) x)"
    "in_server intn = map_option (fl_public_key fl) (fx_server fx)"
    "spend_signing_input (env_ark env) rq (fx_key fx) = Ok (fx_input fx)"
    "sighash (env_spend env) (fx_input fx) = Ok (in_message intn)"
proof -
  obtain x where x: "derive_public_key (env_ark env) (instance_of (pk_program (fx_key fx))) (pk_root (fx_key fx)) = Ok x"
    by (rule keyed_instance [OF assms(2)])
  from from_input obtain rq where rq: "sr_witness rq = fx_witness fx"
    "sf_from_input sl (fx_input fx) (map_option (fl_public_key fl) (fx_server fx)) (fx_witness fx) = Ok rq"
    by blast
  with spend_intent_of [OF assms(1) rq(2) x] that x show ?thesis
    by (auto simp: fixture_action_def)
qed

lemma check_gate:
  assumes "keyed fx" "lab_signer root sg" "action_intent (env_ark env) (Spend rq) (fx_key fx) = Ok intn"
    and "derive_public_key (env_ark env) (instance_of (pk_program (fx_key fx))) (pk_root (fx_key fx)) = Ok x"
    and "in_members intn = (pk_user_pubkey (fx_key fx), even_public_key (env_ark env) x)"
    and "spend_signing_input (env_ark env) rq (fx_key fx) = Ok inp"
    and "nonce_new (env_ark env) seed intn (pk_user_pubkey (fx_key fx)) = Ok nonce"
  shows "check_prepare env sg (request_with env fx (Spend rq) nonce) =
    bind_res (authorize (env_rt env) (env_spend env) (as_evaluators sg) (instance_of (pk_program (fx_key fx))) inp (sr_witness rq)
        (in_message intn)) (\<lambda>_. Ok (intn, nonce_public (env_ark env) nonce, instance_of (pk_program (fx_key fx))))"
proof -
  let ?i = "instance_of (pk_program (fx_key fx))"
  obtain root' where k: "test_root fl = Ok root'" "pk_root (fx_key fx) = xpub_from_priv (env_ark env) root'"
    "program_instance_new (env_ark env) (ap_evaluator (pk_program (fx_key fx))) (ap_program (pk_program (fx_key fx)))
       (ap_parameters (pk_program (fx_key fx))) = Ok ?i"
    "instance_id (env_ark env) ?i = ark_program_id (env_ark env) (pk_program (fx_key fx))"
    by (rule keyed_instance [OF assms(1)])
  from assms(1) obtain policy where policy: "parse (env_codec env) (pr_parameters ?i) = Ok policy"
    "policy \<noteq> None \<longrightarrow> inline_wasm_version (env_spend env) (pr_evaluator ?i) \<noteq> None"
    unfolding keyed_def by (auto simp: instance_of_def)
  have root: "pk_root (fx_key fx) = as_public_root sg" using k(1,2) assms(2) by (auto simp: lab_signer_def)
  show ?thesis
    using nonce_codec [OF assms(7)] policy root k(3,4) assms(3-6)
    by (auto simp: check_prepare_def check_action_def request_with_def Let_def)
qed

lemma check_spendable:
  assumes "spendable fx" "keyed fx" "lab_signer root sg" "fixture_action fl sl fx = Ok action"
    and "action_intent (env_ark env) action (fx_key fx) = Ok intn"
    and "nonce_new (env_ark env) seed intn (pk_user_pubkey (fx_key fx)) = Ok nonce"
  shows "check_prepare env sg (request_with env fx action nonce) =
    bind_res (verdict env (as_evaluators sg) fx) (\<lambda>accepted.
      if accepted then Ok (intn, nonce_public (env_ark env) nonce, instance_of (pk_program (fx_key fx)))
      else Err (Program Rejected))"
proof -
  let ?i = "instance_of (pk_program (fx_key fx))"
  obtain rq x where a: "action = Spend rq" "sr_witness rq = fx_witness fx"
    "derive_public_key (env_ark env) ?i (pk_root (fx_key fx)) = Ok x"
    "in_members intn = (pk_user_pubkey (fx_key fx), even_public_key (env_ark env) x)"
    "spend_signing_input (env_ark env) rq (fx_key fx) = Ok (fx_input fx)"
    "sighash (env_spend env) (fx_input fx) = Ok (in_message intn)"
    by (rule fixture_action_Ok [OF assms(1,2)]) (use assms(4,5) in auto)
  have auth: "authorize (env_rt env) (env_spend env) (as_evaluators sg) ?i (fx_input fx) (fx_witness fx) (in_message intn) =
      bind_res (verdict env (as_evaluators sg) fx) (\<lambda>accepted. if accepted then Ok () else Err (Program Rejected))"
    using valid_context [OF assms(1)] no_annex [OF assms(1)] a(6) spendable_index [OF assms(1)]
    by (cases "select_module (env_spend env) (as_evaluators sg) ?i") (auto simp: authorize_def list_get_def verdict_def)
  show ?thesis
    using check_gate [OF assms(2,3) assms(5) [unfolded a(1)] a(3-5) assms(6)] a(1,2)
    by (cases "verdict env (as_evaluators sg) fx") (auto simp: auth)
qed

lemma spendable_intent:
  assumes "spendable fx" "keyed fx"
  obtains intn where "spend_intent env fl sl fx intn"
  by (rule fixture_action_Ok [OF assms]) (use that in \<open>auto simp: spend_intent_def\<close>)

lemma spendable_ready:
  assumes "spendable fx" "keyed fx" "spend_intent env fl sl fx intn" "lab_signer root sg"
    and "verdict env (as_evaluators sg) fx = Ok True"
  shows "ready env fl sl sg fx intn (instance_of (pk_program (fx_key fx)))"
    and "in_server intn = map_option (fl_public_key fl) (fx_server fx)"
proof -
  let ?i = "instance_of (pk_program (fx_key fx))"
  obtain rq x where a: "fixture_action fl sl fx = Ok (Spend rq)"
    "action_intent (env_ark env) (Spend rq) (fx_key fx) = Ok intn"
    "derive_public_key (env_ark env) ?i (pk_root (fx_key fx)) = Ok x"
    "in_members intn = (pk_user_pubkey (fx_key fx), even_public_key (env_ark env) x)"
    "in_server intn = map_option (fl_public_key fl) (fx_server fx)"
    "sighash (env_spend env) (fx_input fx) = Ok (in_message intn)"
    by (rule fixture_action_Ok [OF assms(1,2)]) (use assms(3) in \<open>auto simp: spend_intent_def\<close>)
  obtain root' user where k: "test_root fl = Ok root'" "pk_root (fx_key fx) = xpub_from_priv (env_ark env) root'"
    "test_key fl 0x42 = Ok user" "pk_user_pubkey (fx_key fx) = fl_public_key fl user"
    by (rule keyed_instance [OF assms(2)])
  have root: "pk_root (fx_key fx) = as_public_root sg" using k(1,2) assms(4) by (auto simp: lab_signer_def)
  note program = program_pubkey [OF k(1,2) a(3)]
  show "ready env fl sl sg fx intn ?i"
    unfolding ready_def
    by (intro exI [of _ "Spend rq"] exI [of _ user] exI [of _ x] conjI allI impI)
      (use a k program root spendable_index [OF assms(1)] in \<open>simp_all add: check_spendable [OF assms(1,2,4) a(1,2)] assms(5)\<close>)
  show "in_server intn = map_option (fl_public_key fl) (fx_server fx)" by (rule a(5))
qed

lemma request_run:
  assumes "fixture_action fl sl fx = Ok action" "action_intent (env_ark env) action (fx_key fx) = Ok intn"
    and "in_members intn = (pk_user_pubkey (fx_key fx), y)"
  obtains n where "fixture_request env fl sl orc fx (at sg t k) = Returned (request_with env fx action n, n) (at sg t (Suc k))"
    "nonce_new (env_ark env) (or_seed orc k) intn (pk_user_pubkey (fx_key fx)) = Ok n"
proof -
  from member_nonce [of "pk_user_pubkey (fx_key fx)" intn "or_seed orc k"] assms(3) obtain n where
    n: "nonce_new (env_ark env) (or_seed orc k) intn (pk_user_pubkey (fx_key fx)) = Ok n" by auto
  have "fixture_request env fl sl orc fx (at sg t k) = Returned (request_with env fx action n, n) (at sg t (Suc k))"
    by (simp add: fixture_request_def assms(1,2) new_nonce_def n test_return_def request_with_def)
  from that [OF this n] show ?thesis .
qed

lemma fixture_request_run:
  assumes "spendable fx" "keyed fx"
  obtains action intn n where
    "fixture_request env fl sl orc fx (at sg t k) = Returned (request_with env fx action n, n) (at sg t (Suc k))"
    "fixture_action fl sl fx = Ok action" "action_intent (env_ark env) action (fx_key fx) = Ok intn"
    "nonce_new (env_ark env) (or_seed orc k) intn (pk_user_pubkey (fx_key fx)) = Ok n"
proof -
  obtain rq intn x where a: "fixture_action fl sl fx = Ok (Spend rq)"
    "action_intent (env_ark env) (Spend rq) (fx_key fx) = Ok intn"
    "in_members intn = (pk_user_pubkey (fx_key fx), even_public_key (env_ark env) x)"
    by (rule fixture_action_Ok [OF assms])
  show ?thesis by (rule request_run [OF a, where sg = sg and t = t and k = k]) (rule that [OF _ a(1,2)])
qed

text \<open>A refused prepare leaves the table as it was.\<close>

lemma triple_refusal:
  assumes "check_prepare env sg rq = Err e"
  shows "triple (holding sg \<Phi>) (refused env orc rq) (\<lambda>e' s. holding sg \<Phi> s \<and> e' = e)"
  unfolding triple_def
proof (intro allI impI, elim holdingE)
  fix s t k
  assume s: "s = at sg t k" and t: "\<not> as_poisoned sg" "young t" "known t k" "\<Phi> t"
  have "refused env orc rq s = Returned e (at sg t (Suc k))"
    by (simp add: refused_def s observe_def prepare_refused [OF assms] assert_that_def test_return_def)
  then show "\<exists>x s'. refused env orc rq s = Returned x s' \<and> holding sg \<Phi> s' \<and> x = e"
    using t by (simp add: known_later)
qed

lemma triple_checked_refused:
  assumes "fixture_action fl sl fx = Ok action" "action_intent (env_ark env) action (fx_key fx) = Ok intn"
    and "in_members intn = (pk_user_pubkey (fx_key fx), y)"
    and "\<And>seed n. nonce_new (env_ark env) seed intn (pk_user_pubkey (fx_key fx)) = Ok n \<Longrightarrow>
      check_prepare env sg (request_with env fx action n) = Err e"
  shows "triple (holding sg \<Phi>) (test_bind (fixture_request env fl sl orc fx) (\<lambda>(request, _). refused env orc request))
    (\<lambda>e' s. holding sg \<Phi> s \<and> e' = e)"
  unfolding triple_def
proof (intro allI impI, elim holdingE)
  fix s t k
  assume s: "s = at sg t k" and t: "\<not> as_poisoned sg" "young t" "known t k" "\<Phi> t"
  obtain n where a: "fixture_request env fl sl orc fx (at sg t k) = Returned (request_with env fx action n, n) (at sg t (Suc k))"
    "nonce_new (env_ark env) (or_seed orc k) intn (pk_user_pubkey (fx_key fx)) = Ok n"
    by (rule request_run [OF assms(1-3)])
  from tripleD [OF triple_refusal [OF assms(4) [OF a(2)]], of \<Phi> "at sg t (Suc k)"] t known_later [OF t(3), of "Suc k"]
  show "\<exists>x s'. test_bind (fixture_request env fl sl orc fx) (\<lambda>(request, _). refused env orc request) s = Returned x s' \<and>
      holding sg \<Phi> s' \<and> x = e"
    by (simp add: s a(1))
qed

lemma triple_request_refused:
  assumes "spendable fx" "keyed fx" "lab_signer root sg"
    and "bind_res (verdict env (as_evaluators sg) fx) (\<lambda>accepted. if accepted then Ok () else Err (Program Rejected)) = Err e"
  shows "triple (holding sg \<Phi>) (test_bind (fixture_request env fl sl orc fx) (\<lambda>(request, _). refused env orc request))
    (\<lambda>e' s. holding sg \<Phi> s \<and> e' = e)"
proof -
  obtain rq intn x where a: "fixture_action fl sl fx = Ok (Spend rq)"
    "action_intent (env_ark env) (Spend rq) (fx_key fx) = Ok intn"
    "in_members intn = (pk_user_pubkey (fx_key fx), even_public_key (env_ark env) x)"
    by (rule fixture_action_Ok [OF assms(1,2)])
  show ?thesis
  proof (rule triple_checked_refused [OF a])
    fix seed n
    assume n: "nonce_new (env_ark env) seed intn (pk_user_pubkey (fx_key fx)) = Ok n"
    show "check_prepare env sg (request_with env fx (Spend rq) n) = Err e"
      unfolding check_spendable [OF assms(1-3) a(1,2) n] using assms(4)
      by (cases "verdict env (as_evaluators sg) fx") (auto split: if_splits)
  qed
qed

text \<open>A request whose action has no intent is refused.\<close>

lemma triple_intentless:
  assumes "spendable fx" "keyed fx" "lab_signer root sg" "mutate fx = Ok fx'" "fixture_action fl sl fx' = Ok action'"
    and "action_intent (env_ark env) action' (fx_key fx) = Err e"
  shows "triple (holding sg \<Phi>) (test_bind (fixture_request env fl sl orc fx) (\<lambda>(request, _).
         test_bind (unwrap (bind_res (mutate fx) (fixture_action fl sl))) (\<lambda>action.
         test_bind (refused env orc (request\<lparr>pq_action := action\<rparr>)) (\<lambda>_. test_return ())))) (\<lambda>_. holding sg \<Phi>)"
  unfolding triple_def
proof (intro allI impI, elim holdingE)
  fix s t k
  assume s: "s = at sg t k" and t: "\<not> as_poisoned sg" "young t" "known t k" "\<Phi> t"
  obtain action intn n where a:
    "fixture_request env fl sl orc fx (at sg t k) = Returned (request_with env fx action n, n) (at sg t (Suc k))"
    by (rule fixture_request_run [OF assms(1,2)])
  have "pk_root (fx_key fx) = as_public_root sg"
    by (rule keyed_instance [OF assms(2)]) (use assms(3) in \<open>auto simp: lab_signer_def\<close>)
  with assms(6) have "check_prepare env sg ((request_with env fx action n)\<lparr>pq_action := action'\<rparr>) = Err e"
    by (simp add: check_prepare_def request_with_def Let_def)
  from tripleD [OF triple_refusal [OF this], of \<Phi> "at sg t (Suc k)"] t known_later [OF t(3), of "Suc k"] assms(4,5)
  show "\<exists>x s'. test_bind (fixture_request env fl sl orc fx) (\<lambda>(request, _).
         test_bind (unwrap (bind_res (mutate fx) (fixture_action fl sl))) (\<lambda>action.
         test_bind (refused env orc (request\<lparr>pq_action := action\<rparr>)) (\<lambda>_. test_return ()))) s = Returned x s' \<and> holding sg \<Phi> s'"
    by (auto simp: s a test_return_def)
qed

lemma bind_pair_assoc: "test_bind m (\<lambda>(x, y). test_bind (f x) h) = test_bind (test_bind m (\<lambda>(x, y). f x)) h"
  by (rule ext) (simp add: test_bind_def split: run.splits prod.splits)

lemma triple_predicate_refused:
  assumes "spendable fx" "keyed fx" "lab_signer root sg" "verdict env (as_evaluators sg) fx = Ok False"
  shows "triple (holding sg \<Phi>) (predicate_refused env fl sl orc fx) (\<lambda>_. holding sg \<Phi>)"
proof -
  have "predicate_refused env fl sl orc fx = test_bind (test_bind (fixture_request env fl sl orc fx)
      (\<lambda>(request, _). refused env orc request)) (\<lambda>e. assert_that (e = Program Rejected))"
    unfolding predicate_refused_def by (rule bind_pair_assoc)
  with triple_request_refused [OF assms(1-3), of "Program Rejected" \<Phi>] assms(4) show ?thesis
    by (auto intro!: triple_bind simp: triple_def assert_that_def)
qed

lemma triple_invalid_evaluation:
  assumes "spendable fx" "keyed fx" "lab_signer root sg"
    and "verdict env (as_evaluators sg) fx = Err (Program (EvaluationFailed e))"
  shows "triple (holding sg \<Phi>) (invalid_evaluation env fl sl orc fx) (\<lambda>_. holding sg \<Phi>)"
proof -
  have "invalid_evaluation env fl sl orc fx = test_bind (test_bind (fixture_request env fl sl orc fx)
      (\<lambda>(request, _). refused env orc request))
      (\<lambda>e. assert_that (case e of Program (EvaluationFailed _) \<Rightarrow> True | _ \<Rightarrow> False))"
    unfolding invalid_evaluation_def by (rule bind_pair_assoc)
  with triple_request_refused [OF assms(1-3), of "Program (EvaluationFailed e)" \<Phi>] assms(4) show ?thesis
    by (auto intro!: triple_bind simp: triple_def assert_that_def)
qed

subsection \<open>New fixtures\<close>

text \<open>The transaction with its first input bound to the funding.\<close>

definition bound_to :: "outpoint \<Rightarrow> transaction \<Rightarrow> transaction" where
  "bound_to point tx = tx\<lparr>tx_input := (tx_input tx)[0 := (tx_input tx ! 0)\<lparr>ti_previous_output := point\<rparr>]\<rparr>"

text \<open>The funding of a tree and the metadata of a new fixture's inputs.\<close>

definition funding_out :: "bytes \<Rightarrow> tx_out" where
  "funding_out tree = \<lparr>txo_value = TEST_FUNDING, txo_script_pubkey = sf_tree_script sl tree\<rparr>"

definition funding_of :: "bytes \<Rightarrow> transaction" where
  "funding_of tree = \<lparr>tx_version = 2, tx_lock_time = 0, tx_input = [sf_tx_in_default sl], tx_output = [funding_out tree]\<rparr>"

definition funding_point :: "bytes \<Rightarrow> outpoint" where
  "funding_point tree = \<lparr>op_txid = sf_compute_txid sl (funding_of tree), op_vout = 0\<rparr>"

definition input_maps :: "bytes \<Rightarrow> script \<Rightarrow> nat \<Rightarrow> psbt_input list" where
  "input_maps tree other n = ((tree_meta tree)\<lparr>pi_witness_utxo := Some (funding_out tree),
     pi_non_witness_utxo := Some (funding_of tree)\<rparr>) #
     map (\<lambda>_. plain_meta\<lparr>pi_witness_utxo := Some \<lparr>txo_value = 5000, txo_script_pubkey = other\<rparr>\<rparr>) [1..<n]"

lemma tree_meta_reset: "(tree_meta tree)\<lparr>pi_witness_utxo := None, pi_non_witness_utxo := None\<rparr> = tree_meta tree"
  using tree_meta(1,2) [of tree] by (cases "tree_meta tree") simp

lemma input_maps_nth [simp]: "length (input_maps tree other n) = (if n = 0 then 1 else n)"
  "input_maps tree other n ! 0 = (tree_meta tree)\<lparr>pi_witness_utxo := Some (funding_out tree),
     pi_non_witness_utxo := Some (funding_of tree)\<rparr>"
  by (simp_all add: input_maps_def)

lemma input_maps_proven:
  assumes "tx_input tx \<noteq> []" "psbt_unsigned_tx (si_psbt inp) = bound_to (funding_point tree) tx" "si_input_index inp = 0"
    and "psbt_inputs (si_psbt inp) = input_maps tree other (length (tx_input tx))"
  shows "proven sl inp"
  using assms
  by (auto simp: proven_def Let_def bound_to_def proven_input_def funding_point_def funding_of_def list_all_iff
      input_maps_def)

lemma fixture_parts:
  obtains server user other root delta grp x where "test_key fl 0x43 = Ok server" "test_key fl 0x42 = Ok user"
    "test_recipient fl 0x46 = Ok other" "test_root fl = Ok root" "fl_check_block_delta fl EXIT_DELAY = Ok delta"
    "fl_group_key fl \<lparr>pk_program = program, pk_root = xpub_from_priv (env_ark env) root, pk_user_pubkey = fl_public_key fl user\<rparr> = Ok grp"
    "derive_public_key (env_ark env) (instance_of program) (xpub_from_priv (env_ark env) root) = Ok x"
proof -
  obtain server where "test_key fl 0x43 = Ok server" using keypair [of "0x43"] by auto
  moreover obtain user where user: "test_key fl 0x42 = Ok user" using keypair [of "0x42"] by auto
  moreover obtain other where "test_recipient fl 0x46 = Ok other" using recipient_Ok [of "0x46"] by auto
  moreover obtain root where root: "test_root fl = Ok root" using master by blast
  moreover obtain delta where "fl_check_block_delta fl EXIT_DELAY = Ok delta" using block_delta by blast
  moreover from group_key [OF root user,
      of "\<lparr>pk_program = program, pk_root = xpub_from_priv (env_ark env) root, pk_user_pubkey = fl_public_key fl user\<rparr>"]
  obtain grp x where
    "fl_group_key fl \<lparr>pk_program = program, pk_root = xpub_from_priv (env_ark env) root, pk_user_pubkey = fl_public_key fl user\<rparr> = Ok grp"
    "derive_public_key (env_ark env) (instance_of program) (xpub_from_priv (env_ark env) root) = Ok x"
    by (auto simp: instance_of_def)
  ultimately show ?thesis by (rule that)
qed

lemma fixture_new_Ok:
  assumes "small program" "tx_input tx \<noteq> []"
    and "\<exists>policy. parse (env_codec env) (ap_parameters program) = Ok policy \<and>
      (policy \<noteq> None \<longrightarrow> inline_wasm_version (env_spend env) (ap_evaluator program) \<noteq> None)"
  obtains fx tree other where "fixture_new env fl sl program tx claim = Ok fx" "spendable fx" "keyed fx"
    "pk_program (fx_key fx) = program" "fx_witness fx = []" "fx_server fx = None \<longleftrightarrow> claim"
    "psbt_unsigned_tx (si_psbt (fx_input fx)) = bound_to (funding_point tree) tx" "si_input_index (fx_input fx) = 0"
    "psbt_inputs (si_psbt (fx_input fx)) = input_maps tree other (length (tx_input tx))"
    "test_recipient fl 0x46 = Ok other"
proof -
  obtain server user other root delta grp x where server: "test_key fl 0x43 = Ok server" and user: "test_key fl 0x42 = Ok user"
    and other: "test_recipient fl 0x46 = Ok other" and root: "test_root fl = Ok root"
    and delta: "fl_check_block_delta fl EXIT_DELAY = Ok delta"
    and g: "fl_group_key fl \<lparr>pk_program = program, pk_root = xpub_from_priv (env_ark env) root, pk_user_pubkey = fl_public_key fl user\<rparr> = Ok grp"
      "derive_public_key (env_ark env) (instance_of program) (xpub_from_priv (env_ark env) root) = Ok x"
    by (rule fixture_parts)
  let ?key = "\<lparr>pk_program = program, pk_root = xpub_from_priv (env_ark env) root, pk_user_pubkey = fl_public_key fl user\<rparr>"
  define tree where "tree = sf_taproot sl grp (fl_public_key fl server) delta"
  let ?tx = "bound_to (funding_point tree) tx" and ?n = "length (tx_input tx)"
  let ?outs = "funding_out tree # map (\<lambda>_. \<lparr>txo_value = 5000, txo_script_pubkey = other\<rparr>) [1..<?n]"
  have "0 < ?n" using assms(2) by simp
  then have n: "length ?outs = length (tx_input ?tx)" "0 < length ?outs" by (simp_all add: bound_to_def)
  from key_spend [OF n, of tree "[grp, fl_public_key fl server]"] obtain inp where
    inp: "sf_key_spend sl ?tx 0 ?outs tree [grp, fl_public_key fl server] = Ok inp" "psbt_unsigned_tx (si_psbt inp) = ?tx"
      "psbt_inputs (si_psbt inp) = (map (\<lambda>out. plain_meta\<lparr>pi_witness_utxo := Some out\<rparr>) ?outs)
          [0 := (tree_meta tree)\<lparr>pi_witness_utxo := Some (?outs ! 0)\<rparr>]"
      "output_maps (length (tx_output ?tx)) (psbt_other (si_psbt inp))"
      "si_input_index inp = 0" "si_script_leaf inp = None" "si_participants inp = [grp, fl_public_key fl server]"
      "si_tweak inp = tree_tweak tree"
    by (auto simp: funding_out_def)
  define inp1 where "inp1 = inp\<lparr>si_psbt := (si_psbt inp)\<lparr>psbt_inputs := input_maps tree other ?n\<rparr>\<rparr>"
  note program = program_pubkey [OF root, of ?key x, unfolded program_key.select_convs, OF refl g(2)]
  define inp2 where "inp2 = (if claim then inp1\<lparr>si_script_leaf := Some (sf_leaf_hash sl (sf_claim_tapscript sl grp delta)),
    si_participants := [fl_public_key fl user, even_public_key (env_ark env) x], si_tweak := None\<rparr> else inp1)"
  have path: "fixture_path sl ?key grp delta claim inp1 = Ok inp2" by (simp add: fixture_path_def program inp2_def)
  have inp2: "si_psbt inp2 = si_psbt inp1" "si_input_index inp2 = 0" using inp(5) by (simp_all add: inp2_def inp1_def)
  let ?fx = "\<lparr>fx_key = ?key, fx_input = inp2, fx_server = (if claim then None else Some server), fx_witness = []\<rparr>"
  have maps: "(psbt_inputs (si_psbt inp))[0 := (psbt_inputs (si_psbt inp) ! 0)\<lparr>pi_non_witness_utxo := Some (funding_of tree)\<rparr>] =
      input_maps tree other ?n"
    unfolding inp(3) by (simp add: input_maps_def)
  have "proven sl inp2"
    by (rule input_maps_proven [OF assms(2)]) (use inp(2) inp2 in \<open>simp_all add: inp1_def\<close>)
  moreover have "on_path ?key inp2 (map_option (fl_public_key fl) (if claim then None else Some server))"
    unfolding on_path_def
    by (intro exI [of _ grp] exI [of _ server] exI [of _ delta] exI [of _ tree] exI [of _ "input_maps tree other ?n ! 0"]
        exI [of _ "funding_out tree"] conjI)
      (use g server delta program inp inp2 in \<open>simp_all add: tree_def [symmetric] inp1_def inp2_def tree_meta_reset funding_out_def\<close>)
  ultimately have sp: "spendable ?fx"
    using inp(2,4) inp2 by (simp add: spendable_def inp1_def)
  have k: "keyed ?fx" using assms(1,3) root user by (auto simp: keyed_def)
  obtain h where h: "sighash (env_spend env) inp2 = Ok h"
    by (rule fixture_action_Ok [OF sp k]) simp
  have "psbt_inputs (si_psbt inp) \<noteq> []" by (simp add: inp(3))
  then have "fixture_new env fl sl program tx claim = Ok ?fx"
    using server root user g delta other assms(2) inp(1) maps path h
    by (simp add: fixture_new_def Let_def tree_def [symmetric] funding_out_def [symmetric] funding_of_def [symmetric]
        funding_point_def [symmetric] bound_to_def [symmetric] inp1_def [symmetric])
  then show ?thesis
    using inp(2) inp2 other sp k by (intro that [of ?fx tree other]) (simp_all add: inp1_def)
qed

end

end
