(* ===== verification/Predicate_Tests.thy ===== *)
theory Predicate_Tests
  imports Spend_Lab Client Vault
begin

text \<open>
  The predicate tests of \<open>src/src/ark_signer.rs\<close>: the template-hash program signs its own transaction on both
  paths and no other, whatever field is changed; unauthenticated prevouts, unknown and unsupported evaluators
  are refused before a nonce exists; a sweep program enforces its fee limit and its destination.

  The predicates are those of \<open>src/examples/templatehash\<close> and \<open>src/examples/vault\<close>, run by the host. The locales
  \<open>template_lab\<close> of \<open>Template_Tests\<close> and \<open>vault_lab\<close> of \<open>Sweep_Tests\<close> state that the binaries the tests include
  behave like their sources.
\<close>

section \<open>Operations\<close>

subsection \<open>Changes\<close>

definition change_tx :: "(transaction \<Rightarrow> transaction result) \<Rightarrow> fixture \<Rightarrow> fixture result" where
  "change_tx f fx = bind_res (f (psbt_unsigned_tx (si_psbt (fx_input fx)))) (\<lambda>tx.
     Ok (fx\<lparr>fx_input := (fx_input fx)\<lparr>si_psbt := (si_psbt (fx_input fx))\<lparr>psbt_unsigned_tx := tx\<rparr>\<rparr>\<rparr>))"

definition change_map :: "nat \<Rightarrow> (psbt_input \<Rightarrow> psbt_input result) \<Rightarrow> fixture \<Rightarrow> fixture result" where
  "change_map i f fx = bind_res (edit_nth (psbt_inputs (si_psbt (fx_input fx))) i f) (\<lambda>ms.
     Ok (fx\<lparr>fx_input := (fx_input fx)\<lparr>si_psbt := (si_psbt (fx_input fx))\<lparr>psbt_inputs := ms\<rparr>\<rparr>\<rparr>))"

definition set_recipient :: "fixture_lib \<Rightarrow> byte \<Rightarrow> transaction \<Rightarrow> transaction result" where
  "set_recipient fl b tx = bind_res (test_recipient fl b) (\<lambda>script. edit_output 0 (set_script script) tx)"

definition no_sessions :: "(test_state, unit) test" where
  "no_sessions = test_bind (observe (\<lambda>s. as_pending (ts_signer s))) (\<lambda>pending. assert_that (pending = []))"

subsection \<open>Template hash\<close>

text \<open>A claim carries the signature, the script and the control block, and waits for the exit delay.\<close>

definition claim_checks :: "fixture_lib \<Rightarrow> spend_fixture_lib \<Rightarrow> fixture \<Rightarrow> bytes \<Rightarrow> ('s, unit) test" where
  "claim_checks fl sl fx signature =
     test_bind (unwrap (fl_group_key fl (fx_key fx))) (\<lambda>grp.
     test_bind (unwrap (fl_check_block_delta fl EXIT_DELAY)) (\<lambda>delta.
     test_bind (unwrap (case psbt_inputs (si_psbt (fx_input fx)) of
         m # _ \<Rightarrow> (case pi_tap_scripts m of (control, _) # _ \<Rightarrow> Ok control | [] \<Rightarrow> Panic)
       | [] \<Rightarrow> (Panic :: bytes result))) (\<lambda>control.
     let witness = sf_claim_witness sl grp delta signature control in
     test_bind (assert_that (length witness = 3)) (\<lambda>_.
     test_bind (assert_that (list_get witness 0 = Some signature)) (\<lambda>_.
     assert_that (map_option ti_sequence (list_get (tx_input (psbt_unsigned_tx (si_psbt (fx_input fx)))) 0) =
       Some (sf_claim_sequence sl grp delta)))))))"

definition template_authorizes_test ::
  "('m, 'i) signer_env \<Rightarrow> fixture_lib \<Rightarrow> spend_fixture_lib \<Rightarrow> test_oracle \<Rightarrow> (unit, unit) test" where
  "template_authorizes_test env fl sl orc =
     with_signer (test_signer env fl)
      (test_bind (for_each [False, True] (\<lambda>claim.
         test_bind (unwrap (fixture_template env fl sl claim)) (\<lambda>fixture.
         test_bind (fixture_sign env fl sl orc fixture) (\<lambda>signature.
         test_bind (if claim then claim_checks fl sl fixture signature else test_return ()) (\<lambda>_.
         test_bind (unwrap (change_tx (edit_output 0 (add_value 1)) fixture)) (\<lambda>changed.
         test_bind (unwrap_err (sf_verify_signature sl (fx_input changed) signature)) (\<lambda>_.
         test_return ()))))))) (\<lambda>_.
       no_sessions))"

definition two_input_transaction :: "fixture_lib \<Rightarrow> transaction result" where
  "two_input_transaction fl =
     bind_res (test_transaction fl) (\<lambda>tx.
     bind_res (test_recipient fl 0x48) (\<lambda>script.
     Ok (tx\<lparr>tx_input := tx_input tx @ [\<lparr>ti_previous_output = \<lparr>op_txid = replicate 32 0x47, op_vout = 1\<rparr>, ti_sequence = 22\<rparr>],
            tx_output := tx_output tx @ [\<lparr>txo_value = 500, txo_script_pubkey = script\<rparr>]\<rparr>)))"

definition committed_mutations :: "fixture_lib \<Rightarrow> (transaction \<Rightarrow> transaction result) list" where
  "committed_mutations fl =
     [set_recipient fl 0x49,
      edit_output 1 (add_value 1),
      edit_input 0 (\<lambda>i. i\<lparr>ti_sequence := 13\<rparr>),
      edit_input 1 (\<lambda>i. i\<lparr>ti_sequence := 23\<rparr>),
      \<lambda>tx. Ok (tx\<lparr>tx_lock_time := 501\<rparr>),
      \<lambda>tx. Ok (tx\<lparr>tx_version := 1\<rparr>)]"

text \<open>The same program authenticated at the second input, with a funding transaction of its own.\<close>

definition other_index :: "spend_fixture_lib \<Rightarrow> fixture \<Rightarrow> fixture result" where
  "other_index sl fx =
     (case psbt_inputs (si_psbt (fx_input fx)) of
        m # _ \<Rightarrow>
          (case pi_non_witness_utxo m of
             None \<Rightarrow> Panic
           | Some funding \<Rightarrow>
               bind_res (edit_input 0 (\<lambda>i. i\<lparr>ti_previous_output := (ti_previous_output i)\<lparr>op_vout := 1\<rparr>\<rparr>) funding) (\<lambda>second.
               bind_res (change_map 1 (\<lambda>_. Ok (m\<lparr>pi_non_witness_utxo := Some second\<rparr>)) fx) (\<lambda>fx1.
               bind_res (change_tx (edit_input 1 (\<lambda>i. i\<lparr>ti_previous_output :=
                   \<lparr>op_txid = sf_compute_txid sl second, op_vout = 0\<rparr>\<rparr>)) fx1) (\<lambda>fx2.
               Ok (fx2\<lparr>fx_input := (fx_input fx2)\<lparr>si_input_index := 1\<rparr>\<rparr>)))))
      | [] \<Rightarrow> Panic)"

definition wrong_program ::
  "('m, 'i) signer_env \<Rightarrow> fixture_lib \<Rightarrow> spend_fixture_lib \<Rightarrow> transaction \<Rightarrow> ark_program result" where
  "wrong_program env fl sl tx =
     bind_res (edit_nth (test_template_hash sl tx 0) 0 (\<lambda>b. Ok (xor b 1))) (\<lambda>wrong_commitment.
     fl_program_new fl (evaluator_id_wasm (env_deploy env)) (TEMPLATEHASH fl) wrong_commitment)"

definition template_fields_test ::
  "('m, 'i) signer_env \<Rightarrow> fixture_lib \<Rightarrow> spend_fixture_lib \<Rightarrow> test_oracle \<Rightarrow> (unit, unit) test" where
  "template_fields_test env fl sl orc =
     with_signer (test_signer env fl)
      (test_bind (unwrap (bind_res (two_input_transaction fl) (\<lambda>tx.
         bind_res (template_program env fl sl tx) (\<lambda>program. fixture_new env fl sl program tx False)))) (\<lambda>original.
       test_bind (fixture_sign env fl sl orc original) (\<lambda>_.
       test_bind (for_each (committed_mutations fl) (\<lambda>mutate.
           test_bind (unwrap (change_tx mutate original)) (\<lambda>changed.
           predicate_refused env fl sl orc changed))) (\<lambda>_.
       test_bind (unwrap (other_index sl original)) (\<lambda>other.
       test_bind (predicate_refused env fl sl orc other) (\<lambda>_.
       test_bind (unwrap (bind_res (wrong_program env fl sl (psbt_unsigned_tx (si_psbt (fx_input original)))) (\<lambda>program.
           fixture_new env fl sl program (psbt_unsigned_tx (si_psbt (fx_input original))) False))) (\<lambda>wrong.
       predicate_refused env fl sl orc wrong)))))))"

subsection \<open>Prevouts\<close>

text \<open>The funding with another amount, and everything that names it.\<close>

definition rebound_fixture :: "spend_fixture_lib \<Rightarrow> fixture \<Rightarrow> fixture result" where
  "rebound_fixture sl fx =
     (case psbt_inputs (si_psbt (fx_input fx)) of
        m # _ \<Rightarrow>
          (case pi_non_witness_utxo m of
             None \<Rightarrow> Panic
           | Some funding \<Rightarrow>
               bind_res (edit_output 0 (add_value 1000) funding) (\<lambda>parent.
               bind_res (change_map 0 (\<lambda>m. Ok (m\<lparr>pi_non_witness_utxo := Some parent,
                   pi_witness_utxo := Some (tx_output parent ! 0)\<rparr>)) fx) (\<lambda>fx1.
               change_tx (edit_input 0 (\<lambda>i. i\<lparr>ti_previous_output :=
                 \<lparr>op_txid = sf_compute_txid sl parent, op_vout = 0\<rparr>\<rparr>)) fx1)))
      | [] \<Rightarrow> Panic)"

definition change_witness_utxo :: "(tx_out \<Rightarrow> tx_out result) \<Rightarrow> fixture \<Rightarrow> fixture result" where
  "change_witness_utxo f = change_map 0 (\<lambda>m.
     case pi_witness_utxo m of None \<Rightarrow> Panic | Some out \<Rightarrow> bind_res (f out) (\<lambda>out'. Ok (m\<lparr>pi_witness_utxo := Some out'\<rparr>)))"

definition prevout_mutations :: "fixture_lib \<Rightarrow> (fixture \<Rightarrow> fixture result) list" where
  "prevout_mutations fl =
     [change_tx (edit_input 0 (\<lambda>i. i\<lparr>ti_previous_output := (ti_previous_output i)\<lparr>op_vout := 1\<rparr>\<rparr>)),
      change_tx (edit_input 0 (\<lambda>i. i\<lparr>ti_previous_output := (ti_previous_output i)\<lparr>op_txid := replicate 32 9\<rparr>\<rparr>)),
      change_witness_utxo (add_value 1),
      \<lambda>fx. bind_res (test_recipient fl 0x49) (\<lambda>script. change_witness_utxo (set_script script) fx)]"

definition free_prevouts_test ::
  "('m, 'i) signer_env \<Rightarrow> fixture_lib \<Rightarrow> spend_fixture_lib \<Rightarrow> test_oracle \<Rightarrow> (unit, unit) test" where
  "free_prevouts_test env fl sl orc =
     with_signer (test_signer env fl)
      (test_bind (unwrap (fixture_template env fl sl False)) (\<lambda>original.
       test_bind (fixture_sign env fl sl orc original) (\<lambda>signature.
       test_bind (unwrap (rebound_fixture sl original)) (\<lambda>rebound.
       test_bind (assert_that (test_template_hash sl (psbt_unsigned_tx (si_psbt (fx_input original))) 0 =
           test_template_hash sl (psbt_unsigned_tx (si_psbt (fx_input rebound))) 0)) (\<lambda>_.
       test_bind (unwrap (sighash (env_spend env) (fx_input original))) (\<lambda>h.
       test_bind (unwrap (sighash (env_spend env) (fx_input rebound))) (\<lambda>h'.
       test_bind (assert_that (h \<noteq> h')) (\<lambda>_.
       test_bind (unwrap_err (sf_verify_signature sl (fx_input rebound) signature)) (\<lambda>_.
       test_bind (fixture_sign env fl sl orc rebound) (\<lambda>rebound_signature.
       test_bind (unwrap_err (sf_verify_signature sl (fx_input original) rebound_signature)) (\<lambda>_.
       for_each (prevout_mutations fl) (\<lambda>mutate.
         test_bind (fixture_request env fl sl orc original) (\<lambda>(request, _).
         test_bind (unwrap (bind_res (mutate original) (fixture_action fl sl))) (\<lambda>action.
         test_bind (refused env orc (request\<lparr>pq_action := action\<rparr>)) (\<lambda>_.
         test_return ())))))))))))))))"

subsection \<open>Sweeps\<close>

definition sweep_mutations :: "fixture_lib \<Rightarrow> (transaction \<Rightarrow> transaction result) list" where
  "sweep_mutations fl =
     [edit_output 0 (set_value 8999),
      edit_output 0 (set_value (TEST_FUNDING + 1)),
      set_recipient fl 0x49,
      \<lambda>tx. bind_res (test_recipient fl 0x49) (\<lambda>script.
        Ok (tx\<lparr>tx_output := tx_output tx @ [\<lparr>txo_value = 330, txo_script_pubkey = script\<rparr>]\<rparr>))]"

definition resized :: "spend_fixture_lib \<Rightarrow> fixture \<Rightarrow> fixture" where
  "resized sl fx = fx\<lparr>fx_input := (fx_input fx)\<lparr>si_psbt :=
     sf_resize_outputs sl (length (tx_output (psbt_unsigned_tx (si_psbt (fx_input fx))))) (si_psbt (fx_input fx))\<rparr>\<rparr>"

definition sweep_test ::
  "('m, 'i) signer_env \<Rightarrow> fixture_lib \<Rightarrow> spend_fixture_lib \<Rightarrow> test_oracle \<Rightarrow> (unit, unit) test" where
  "sweep_test env fl sl orc =
     with_signer (test_signer env fl)
      (test_bind (unwrap (bind_res (payment_parameters fl 1000) (\<lambda>parameters.
         bind_res (fl_program_new fl (evaluator_id_wasm (env_deploy env)) (VAULT sl) parameters) (\<lambda>program.
         bind_res (test_transaction fl) (\<lambda>tx. fixture_new env fl sl program tx True))))) (\<lambda>original.
       test_bind (fixture_sign env fl sl orc original) (\<lambda>_.
       test_bind (unwrap (change_tx (edit_output 0 (set_value TEST_FUNDING)) original)) (\<lambda>lower_fee.
       test_bind (fixture_sign env fl sl orc lower_fee) (\<lambda>_.
       for_each (sweep_mutations fl) (\<lambda>mutate.
         test_bind (unwrap (change_tx mutate original)) (\<lambda>changed.
         predicate_refused env fl sl orc (resized sl changed))))))))"

subsection \<open>Evaluators\<close>

definition is_unknown_evaluator :: "error \<Rightarrow> bool" where
  "is_unknown_evaluator e = (case e of Program (UnknownEvaluator _) \<Rightarrow> True | _ \<Rightarrow> False)"

definition refused_unknown ::
  "('m, 'i) signer_env \<Rightarrow> fixture_lib \<Rightarrow> spend_fixture_lib \<Rightarrow> test_oracle \<Rightarrow> fixture \<Rightarrow> (test_state, unit) test" where
  "refused_unknown env fl sl orc fx =
     test_bind (fixture_request env fl sl orc fx) (\<lambda>(request, _).
     test_bind (refused env orc request) (\<lambda>e.
     assert_that (is_unknown_evaluator e)))"

definition unavailable_registry_test ::
  "('m, 'i) signer_env \<Rightarrow> fixture_lib \<Rightarrow> spend_fixture_lib \<Rightarrow> test_oracle \<Rightarrow> (unit, unit) test" where
  "unavailable_registry_test env fl sl orc =
     with_signer (bind_res (test_signer env fl) (\<lambda>sg. Ok (sg\<lparr>as_evaluators := []\<rparr>)))
      (test_bind (unwrap (bind_res (payment_program env fl) (\<lambda>program.
         bind_res (test_transaction fl) (\<lambda>tx. fixture_new env fl sl program tx False)))) (\<lambda>payment.
       refused_unknown env fl sl orc (payment\<lparr>fx_witness := u32_to_le 0\<rparr>)))"

definition unsupported_evaluators_test ::
  "('m, 'i) signer_env \<Rightarrow> fixture_lib \<Rightarrow> spend_fixture_lib \<Rightarrow> test_oracle \<Rightarrow> (unit, unit) test" where
  "unsupported_evaluators_test env fl sl orc =
     with_signer (test_signer env fl)
      (test_bind (unwrap (bind_res (fl_program_new fl (sf_sha256 sl (str_bytes ''uninstalled evaluator''))
           (str_bytes ''program'') []) (\<lambda>program.
         bind_res (test_transaction fl) (\<lambda>tx. fixture_new env fl sl program tx False)))) (\<lambda>unknown.
       test_bind (refused_unknown env fl sl orc unknown) (\<lambda>_.
       test_bind (unwrap (bind_res (test_transaction fl) (\<lambda>tx.
         bind_res (fl_program_new fl (evaluator_id_wasm_v2 (env_deploy env)) (TEMPLATEHASH fl)
           (test_template_hash sl tx 0)) (\<lambda>program.
         fixture_new env fl sl program tx False)))) (\<lambda>unsupported.
       test_bind (invalid_evaluation env fl sl orc unsupported) (\<lambda>_.
       test_bind (unwrap (fixture_template env fl sl False)) (\<lambda>fixture.
       test_bind (fixture_sign env fl sl orc fixture) (\<lambda>_.
       test_return ())))))))"

subsection \<open>Recovery and checkpoints\<close>

definition no_privilege_test ::
  "('m, 'i) signer_env \<Rightarrow> fixture_lib \<Rightarrow> spend_fixture_lib \<Rightarrow> test_oracle \<Rightarrow> (unit, unit) test" where
  "no_privilege_test env fl sl orc =
     with_signer (test_signer env fl)
      (test_bind (unwrap (fixture_template env fl sl True)) (\<lambda>original.
       test_bind (fixture_sign env fl sl orc original) (\<lambda>_.
       test_bind (unwrap (change_tx (set_recipient fl 0x42) original)) (\<lambda>recovery.
       test_bind (predicate_refused env fl sl orc recovery) (\<lambda>_.
       test_bind (invalid_evaluation env fl sl orc (recovery\<lparr>fx_witness := str_bytes ''recovery''\<rparr>)) (\<lambda>_.
       test_bind (unwrap (fixture_template env fl sl False)) (\<lambda>fixture.
       test_bind (unwrap (case psbt_inputs (si_psbt (fx_input fixture)) of
           m # _ \<Rightarrow> ok_or (Msg ''unwrap'') (pi_witness_utxo m)
         | [] \<Rightarrow> Panic)) (\<lambda>out.
       test_bind (unwrap (change_tx (edit_output 0 (set_script (txo_script_pubkey out))) fixture)) (\<lambda>checkpoint.
       test_bind (predicate_refused env fl sl orc checkpoint) (\<lambda>_.
       no_sessions))))))))))"

section \<open>Specification\<close>

definition modest :: "signing_input \<Rightarrow> bool" where
  "modest inp \<longleftrightarrow> authenticated inp \<and> prevouts_size (psbt_inputs (si_psbt inp)) \<le> 20000 \<and>
     outputs_size (tx_output (psbt_unsigned_tx (si_psbt inp))) \<le> 10000"

lemma modest_size: "modest inp \<Longrightarrow> authenticated inp \<and> total_view_size version inp \<le> 40000"
  by (simp add: modest_def total_view_size_def)

lemma triple_unwrap_err_then: "r = Err e \<Longrightarrow> triple P (f e) Q \<Longrightarrow> triple P (test_bind (unwrap_err r) f) Q"
  by (simp add: triple_def)

lemma change_tx_eq: "psbt_unsigned_tx (si_psbt (fx_input fx)) = tx \<Longrightarrow> f tx = Ok tx' \<Longrightarrow>
    change_tx f fx = Ok (fx\<lparr>fx_input := (fx_input fx)\<lparr>si_psbt := (si_psbt (fx_input fx))\<lparr>psbt_unsigned_tx := tx'\<rparr>\<rparr>\<rparr>)"
  by (simp add: change_tx_def)

context spend_path_lab
begin

definition ordinary :: "transaction \<Rightarrow> bool" where
  "ordinary tx \<longleftrightarrow> tx_input tx \<noteq> [] \<and> length (tx_input tx) \<le> 100 \<and>
     list_all (\<lambda>i. wf_outpoint (ti_previous_output i)) (tx_input tx) \<and> outputs_size (tx_output tx) \<le> 10000"

lemma bound_to_shape [simp]:
  "length (tx_input (bound_to p tx)) = length (tx_input tx)" "tx_output (bound_to p tx) = tx_output tx"
  by (cases "tx_input tx"; simp add: bound_to_def)+

lemma input_maps_size:
  assumes "test_recipient fl 0x46 = Ok other" "0 < n"
  shows "prevouts_size (input_maps tree other n) = 86 * n"
proof -
  have "prevouts_size (map (\<lambda>_. plain_meta\<lparr>pi_witness_utxo := Some \<lparr>txo_value = 5000, txo_script_pubkey = other\<rparr>\<rparr>) xs) = 86 * length xs" for xs :: "nat list"
    by (induction xs) (simp_all add: recipient_length [OF assms(1)])
  from this [of "[1..<n]"] assms(2) show ?thesis
    by (simp add: input_maps_def funding_out_def tree_script)
qed

lemma input_maps_modest:
  assumes "ordinary tx" "test_recipient fl 0x46 = Ok other"
    and "psbt_unsigned_tx (si_psbt inp) = bound_to (funding_point tree) tx" "si_input_index inp = 0"
    and "psbt_inputs (si_psbt inp) = input_maps tree other (length (tx_input tx))"
  shows "modest inp"
proof -
  obtain i is' where tx: "tx_input tx = i # is'" using assms(1) by (cases "tx_input tx") (auto simp: ordinary_def)
  have "wf_outpoint (funding_point tree)" by (simp add: wf_outpoint_def funding_point_def txid_length)
  then have "list_all (\<lambda>i. wf_outpoint (ti_previous_output i)) (tx_input (bound_to (funding_point tree) tx))"
    using assms(1) tx by (simp add: ordinary_def bound_to_def)
  moreover obtain k where "pi_tap_internal_key (tree_meta tree) = Some k" "length k = 32" using tree_meta(5) by blast
  then have "list_all (\<lambda>m. case pi_tap_internal_key m of None \<Rightarrow> True | Some k \<Rightarrow> length k = 32) (input_maps tree other n)" for n
    by (auto simp: input_maps_def list_all_iff plain_meta)
  moreover have "list_all (\<lambda>m. pi_witness_utxo m \<noteq> None) (input_maps tree other n)" for n
    by (auto simp: input_maps_def list_all_iff)
  ultimately show ?thesis
    using assms(1,3-5) tx input_maps_size [OF assms(2), of "length (tx_input tx)" tree]
    by (simp add: modest_def authenticated_def ordinary_def)
qed

text \<open>The transactions of the tests.\<close>

lemma test_transaction_Ok: "\<exists>tx. test_transaction fl = Ok tx"
  using recipient_Ok [of "0x45"] by (auto simp: test_transaction_def bind_res_eq_Ok)

lemma test_transactionE:
  assumes "test_transaction fl = Ok tx"
  obtains script where "test_recipient fl 0x45 = Ok script" "tx = \<lparr>tx_version = 2, tx_lock_time = 500,
      tx_input = [\<lparr>ti_previous_output = \<lparr>op_txid = replicate 32 0x44, op_vout = 0\<rparr>, ti_sequence = word_of_nat EXIT_DELAY\<rparr>],
      tx_output = [\<lparr>txo_value = 9000, txo_script_pubkey = script\<rparr>]\<rparr>"
  using assms by (auto simp: test_transaction_def bind_res_eq_Ok)

lemma two_input_transactionE:
  assumes "two_input_transaction fl = Ok tx"
  obtains script script' where "test_recipient fl 0x45 = Ok script" "test_recipient fl 0x48 = Ok script'"
    "tx = \<lparr>tx_version = 2, tx_lock_time = 500,
      tx_input = [\<lparr>ti_previous_output = \<lparr>op_txid = replicate 32 0x44, op_vout = 0\<rparr>, ti_sequence = word_of_nat EXIT_DELAY\<rparr>,
        \<lparr>ti_previous_output = \<lparr>op_txid = replicate 32 0x47, op_vout = 1\<rparr>, ti_sequence = 22\<rparr>],
      tx_output = [\<lparr>txo_value = 9000, txo_script_pubkey = script\<rparr>, \<lparr>txo_value = 500, txo_script_pubkey = script'\<rparr>]\<rparr>"
  using assms by (auto simp: two_input_transaction_def test_transaction_def bind_res_eq_Ok)

lemma tests_ordinary:
  assumes "test_transaction fl = Ok tx \<or> two_input_transaction fl = Ok tx"
  shows "ordinary tx"
  using assms
  by (elim disjE test_transactionE two_input_transactionE)
    (simp_all add: ordinary_def wf_outpoint_def recipient_length)

lemma test_fixture_of:
  assumes "small program" "parse (env_codec env) (ap_parameters program) = Ok None" "test_transaction fl = Ok tx"
  obtains fx where "fixture_new env fl sl program tx claim = Ok fx" "spendable fx" "keyed fx" "pk_program (fx_key fx) = program"
    "fx_witness fx = []" "modest (fx_input fx)"
proof -
  have o: "ordinary tx" using assms(3) by (simp add: tests_ordinary)
  then have ne: "tx_input tx \<noteq> []" by (simp add: ordinary_def)
  have "\<exists>policy. parse (env_codec env) (ap_parameters program) = Ok policy \<and>
      (policy \<noteq> None \<longrightarrow> inline_wasm_version (env_spend env) (ap_evaluator program) \<noteq> None)" using assms(2) by auto
  from fixture_new_Ok [OF assms(1) ne this] obtain fx tree other where fx: "fixture_new env fl sl program tx claim = Ok fx"
    "spendable fx" "keyed fx" "pk_program (fx_key fx) = program" "fx_witness fx = []"
    "psbt_unsigned_tx (si_psbt (fx_input fx)) = bound_to (funding_point tree) tx" "si_input_index (fx_input fx) = 0"
    "psbt_inputs (si_psbt (fx_input fx)) = input_maps tree other (length (tx_input tx))" "test_recipient fl 0x46 = Ok other"
    by metis
  from that [OF fx(1-5) input_maps_modest [OF o fx(9,6-8)]] show ?thesis .
qed

lemma fixture_parameters:
  obtains script where "test_recipient fl 0x45 = Ok script" "length script = 34"
    "payment_parameters fl amount = Ok (u64_to_le amount @ u32_to_le (word_of_nat (length script)) @ script)"
proof -
  obtain script where "test_recipient fl 0x45 = Ok script" using recipient_Ok [of "0x45"] by auto
  with that recipient_length show ?thesis by (simp add: payment_parameters_def)
qed

lemma spendable_change:
  assumes "spendable fx" "psbt_unsigned_tx (si_psbt (fx_input fx)) = tx" "psbt_unsigned_tx psbt = tx'"
    and "map ti_previous_output (tx_input tx') = map ti_previous_output (tx_input tx)"
    and "psbt_inputs psbt = psbt_inputs (si_psbt (fx_input fx))" "output_maps (length (tx_output tx')) (psbt_other psbt)"
  shows "spendable (fx\<lparr>fx_input := (fx_input fx)\<lparr>si_psbt := psbt\<rparr>\<rparr>)"
proof -
  have len: "length (tx_input tx') = length (tx_input tx)" using assms(4) by (metis length_map)
  have prev: "ti_previous_output (tx_input tx' ! k) = ti_previous_output (tx_input tx ! k)" if "k < length (tx_input tx)" for k
    using assms(4) len that by (metis nth_map)
  show ?thesis
    using assms prev len
    by (auto simp: spendable_def proven_def proven_input_def Let_def on_path_def split: option.splits)
qed

lemma modest_change:
  assumes "modest inp" "psbt_unsigned_tx (si_psbt inp) = tx" "psbt_unsigned_tx psbt = tx'"
    and "map ti_previous_output (tx_input tx') = map ti_previous_output (tx_input tx)"
    and "psbt_inputs psbt = psbt_inputs (si_psbt inp)" "outputs_size (tx_output tx') \<le> 10000"
  shows "modest (inp\<lparr>si_psbt := psbt\<rparr>)"
proof -
  have len: "length (tx_input tx') = length (tx_input tx)" using assms(4) by (metis length_map)
  have prev: "ti_previous_output (tx_input tx' ! k) = ti_previous_output (tx_input tx ! k)" if "k < length (tx_input tx)" for k
    using assms(4) len that by (metis nth_map)
  have "list_all (\<lambda>i. wf_outpoint (ti_previous_output i)) (tx_input tx') =
      list_all (\<lambda>i. wf_outpoint (ti_previous_output i)) (tx_input tx)"
    using prev len by (auto simp: list_all_length)
  with assms len show ?thesis by (simp add: modest_def authenticated_def)
qed

end

end
