(* ===== verification/Template_Tests.thy ===== *)
theory Template_Tests
  imports Predicate_Tests
begin

text \<open>
  The template-hash tests of \<open>src/src/ark_signer.rs\<close> pass. The locale \<open>template_lab\<close> assumes that the included binary
  behaves like \<open>src/examples/templatehash/predicate.rs\<close> on the host, and that the hash function separates the
  transactions of the tests.
\<close>

section \<open>Specification\<close>

text \<open>The transactions whose template hashes the tests compare, and the byte strings hashed for them.\<close>

definition template_cases :: "fixture_lib \<Rightarrow> spend_fixture_lib \<Rightarrow> transaction set" where
  "template_cases fl sl =
     {tx. Ok tx \<in> {test_transaction fl, bind_res (test_transaction fl) (set_recipient fl 0x42), two_input_transaction fl} \<union>
        (\<lambda>tree. bind_res (test_transaction fl) (edit_output 0 (set_script (sf_tree_script sl tree)))) ` UNIV \<union>
        (\<lambda>f. bind_res (two_input_transaction fl) f) ` set (committed_mutations fl)}"

text \<open>The template hash of the tests is the one of the example's client.\<close>

lemma test_template_hash_eq:
  assumes "\<And>out. sf_serialize_output sl out = ser_output out"
  shows "test_template_hash sl tx idx = template_hash (sf_sha256 sl) tx idx"
proof -
  have fold: "foldl (\<lambda>acc x. acc @ f x) xs ys = xs @ concat (map f ys)" for f :: "'a \<Rightarrow> bytes" and xs ys
    by (induction ys arbitrary: xs) simp_all
  show ?thesis
    by (simp add: test_template_hash_def template_hash_def tagged_hash_def sha_sequences_def sha_outputs_def Let_def
        fold foldl_push_output assms)
qed

locale template_lab = spend_path_lab orc env fl sl intent_key tree_meta plain_meta tree_tweak output_maps
  for orc :: test_oracle and env :: "('m, 'i) signer_env" and fl :: fixture_lib and sl :: spend_fixture_lib
    and intent_key :: "intent \<Rightarrow> bytes" and tree_meta :: "bytes \<Rightarrow> psbt_input" and plain_meta :: psbt_input
    and tree_tweak :: "bytes \<Rightarrow> bytes option" and output_maps :: "nat \<Rightarrow> bytes \<Rightarrow> bool" +
  fixes parser :: "bytes \<Rightarrow> (string, payload) res list" and imp :: "bytes \<Rightarrow> bytes option" and g :: guest
  assumes template_module: "evaluate (env_rt env) enc version (TEMPLATEHASH fl) p q inp w =
      evaluate (guest_runtime parser (template_evaluate imp) g) enc version (TEMPLATEHASH fl) p q inp w"
    and template_guest: "fresh_guest g" "outpoint_codec (outpoint_encode (env_spend env))" "sha_import (sf_sha256 sl) imp"
      "check_module_bytes (TEMPLATEHASH fl) = Ok ()"
      "check_compilation_budget (guest_runtime parser (template_evaluate imp) g) version (TEMPLATEHASH fl) = Ok ()"
    and sha_length: "length (sf_sha256 sl bs) = 32"
    and serialize_output: "sf_serialize_output sl out = ser_output out"
    and no_collision: "tx \<in> template_cases fl sl \<Longrightarrow> tx' \<in> template_cases fl sl \<Longrightarrow> {i, j} \<subseteq> {0, 1} \<Longrightarrow>
      x \<in> template_preimages (sf_sha256 sl) tx i \<Longrightarrow> y \<in> template_preimages (sf_sha256 sl) tx' j \<Longrightarrow>
      sf_sha256 sl x = sf_sha256 sl y \<Longrightarrow> x = y"
    and not_magic: "tx \<in> template_cases fl sl \<Longrightarrow> template_program env fl sl tx = Ok program \<or> wrong_program env fl sl tx = Ok program \<Longrightarrow>
      \<not> prefix MAGIC (ap_parameters program)"
    and tree_recipient: "test_recipient fl b = Ok script \<Longrightarrow> sf_tree_script sl tree \<noteq> script"
    and funding_txid: "fixture_template env fl sl False = Ok fx \<Longrightarrow>
      op_txid (ti_previous_output (tx_input (psbt_unsigned_tx (si_psbt (fx_input fx))) ! 0)) \<noteq> replicate 32 9"
    and inline_v2: "inline_wasm_version (env_spend env) (evaluator_id_wasm_v2 (env_deploy env)) = Some V2"
    and uninstalled: "inline_wasm_version (env_spend env) (sf_sha256 sl (str_bytes ''uninstalled evaluator'')) = None"
      "evaluators (env_deploy env) = Ok es \<Longrightarrow> e \<in> set es \<Longrightarrow> we_id e \<noteq> sf_sha256 sl (str_bytes ''uninstalled evaluator'')"
    and verify_signature_total: "sf_verify_signature sl inp sig \<noteq> Panic"
    and claim_witness: "length (sf_claim_witness sl grp delta sig control) = 3" "sf_claim_witness sl grp delta sig control ! 0 = sig"
    and claim_sequence: "fl_check_block_delta fl EXIT_DELAY = Ok delta \<Longrightarrow> sf_claim_sequence sl grp delta = word_of_nat EXIT_DELAY"
begin

abbreviation thash :: "transaction \<Rightarrow> u32 \<Rightarrow> bytes" where
  "thash \<equiv> template_hash (sf_sha256 sl)"

lemmas thash_eq = test_template_hash_eq [OF serialize_output]

lemma thash_length [simp]: "length (thash tx idx) = 32"
  by (simp add: template_hash_def tagged_hash_def Let_def sha_length)

text \<open>A fixture under the template program with commitment \<open>params\<close>.\<close>

definition templated :: "bytes \<Rightarrow> fixture \<Rightarrow> bool" where
  "templated params fx \<longleftrightarrow> pk_program (fx_key fx) =
     \<lparr>ap_evaluator = evaluator_id_wasm (env_deploy env), ap_program = TEMPLATEHASH fl, ap_parameters = params\<rparr> \<and>
     length params = 32 \<and> spendable fx \<and> keyed fx \<and> modest (fx_input fx)"

lemma templatedD:
  assumes "templated params fx"
  shows "spendable fx" "keyed fx" "modest (fx_input fx)" "length params = 32"
  using assms unfolding templated_def by blast+

lemma templated_intent:
  assumes "templated params fx"
  obtains intn where "spend_intent env fl sl fx intn"
  by (rule spendable_intent [OF templatedD(1,2) [OF assms]])

text \<open>The host's verdict on it: the transaction has the committed hash, and there is no witness.\<close>

lemma template_evaluation:
  assumes "modest inp" "length params = 32" "length w \<le> MAX_WITNESS_BYTES"
  shows "evaluate (env_rt env) (outpoint_encode (env_spend env)) V1 (TEMPLATEHASH fl) [] params inp w =
    (if w = [] then Ok (thash (psbt_unsigned_tx (si_psbt inp)) (word_of_nat (si_input_index inp)) = params)
     else Err ''WASM evaluator must return exactly zero or one'')"
proof -
  let ?enc = "outpoint_encode (env_spend env)" and ?n = "length (tx_input (psbt_unsigned_tx (si_psbt inp)))"
  have inp: "authenticated inp" "total_view_size V1 inp \<le> 40000" using modest_size [OF assms(1)] by simp_all
  obtain view where v: "encode_view ?enc V1 inp = Ok view"
    using encode_view_fits [OF inp(1), of V1] inp(2) by (auto simp: MAX_SIGNED_VIEW_BYTES_def)
  have len: "length view \<le> 40000" using encode_view_length(1) [OF template_guest(2) inp(1) v] inp(2) by simp
  obtain g' where g': "g_used g' = 32 + length view + length w" "g_input g' = g_input g"
    and ev: "evaluate (guest_runtime parser (template_evaluate imp) g) ?enc V1 (TEMPLATEHASH fl) [] params inp w =
      (case template_evaluate imp g' \<lparr>ar_program = [], ar_parameters = params, ar_view = view, ar_witness = w\<rparr> of
         Some b \<Rightarrow> Ok b | None \<Rightarrow> Err ''WASM evaluator must return exactly zero or one'')"
    using evaluate_guest_runtime [OF template_guest(1,4,5) _ _ assms(3) template_guest(2) inp(1) v, of "[]" params]
      assms(2) by (auto simp: MAX_PARAMETER_BYTES_def)
  show ?thesis
  proof (cases "w = []")
    case True
    have "?n \<le> 40000"
      using inp length_le_view_size(1) [of "psbt_inputs (si_psbt inp)"]
      by (simp add: authenticated_def total_view_size_def)
    then have room: "g_used g' + 4 * ?n + length view \<le> INPUT_CAPACITY"
      using g' len True by (simp add: INPUT_CAPACITY_def MAX_VIEW_def MAX_ARGUMENT_def)
    have mem: "0 < g_input g'" "g_input g' + INPUT_CAPACITY \<le> 2 ^ 32"
      using template_guest(1) g'(2) by (simp_all add: fresh_guest_def)
    from template_evaluate_view [OF template_guest(2) inp(1) v template_guest(3) assms(2) mem room] ev True
    show ?thesis by (simp add: template_module)
  next
    case False
    then show ?thesis using ev by (simp add: template_module template_evaluate_def)
  qed
qed

lemma hosted_template_verdict:
  assumes "templated params fx" "length (fx_witness fx) \<le> MAX_WITNESS_BYTES"
  shows "verdict env registry fx =
    (if fx_witness fx = []
     then Ok (thash (psbt_unsigned_tx (si_psbt (fx_input fx))) (word_of_nat (si_input_index (fx_input fx))) = params)
     else Err (Program (EvaluationFailed ''WASM evaluator must return exactly zero or one'')))"
  using assms inline(1) template_evaluation [of "fx_input fx" params "fx_witness fx"]
  by (simp add: templated_def verdict_def select_module_def)

subsection \<open>Template fixtures\<close>

lemma bound_to_free [simp]:
  assumes "tx_input tx \<noteq> []"
  shows "thash (bound_to point tx) idx = thash tx idx"
    and "template_preimages sha (bound_to point tx) idx = template_preimages sha tx idx"
    and "map ti_sequence (tx_input (bound_to point tx)) = map ti_sequence (tx_input tx)"
    and "tx_version (bound_to point tx) = tx_version tx" "tx_lock_time (bound_to point tx) = tx_lock_time tx"
proof -
  have m: "map f (tx_input (bound_to point tx)) = map f (tx_input tx)" if "\<And>i q. f (i\<lparr>ti_previous_output := q\<rparr>) = f i" for f :: "tx_in \<Rightarrow> 'b"
    using assms that by (cases "tx_input tx") (simp_all add: bound_to_def)
  note q = m [of "\<lambda>i. u32_to_le (ti_sequence i)", simplified]
  show "thash (bound_to point tx) idx = thash tx idx"
    by (simp add: template_hash_def sha_sequences_def sha_outputs_def q) (simp add: bound_to_def)
  show "template_preimages sha (bound_to point tx) idx = template_preimages sha tx idx"
    by (simp add: template_preimages_def template_message_def sha_sequences_def sha_outputs_def q) (simp add: bound_to_def)
  show "map ti_sequence (tx_input (bound_to point tx)) = map ti_sequence (tx_input tx)" by (rule m) simp
qed (simp_all add: bound_to_def)

text \<open>Templates that differ in a committed field have different hashes.\<close>

lemma thash_differs:
  assumes "tx \<in> template_cases fl sl" "tx' \<in> template_cases fl sl" "{i, j} \<subseteq> {0, 1}"
    and "\<forall>out \<in> set (tx_output tx) \<union> set (tx_output tx'). length (txo_script_pubkey out) < 2 ^ 64"
    and "\<not> (tx_version tx = tx_version tx' \<and> tx_lock_time tx = tx_lock_time tx' \<and> i = j \<and>
      map ti_sequence (tx_input tx) = map ti_sequence (tx_input tx') \<and> tx_output tx = tx_output tx')"
  shows "thash tx i \<noteq> thash tx' j"
  using template_hash_inj [of "sf_sha256 sl" tx tx' i j] no_collision [OF assms(1-3)] assms(4,5) sha_length by blast

lemma templated_change:
  assumes "templated params fx" "psbt_unsigned_tx (si_psbt (fx_input fx)) = tx"
    and "map ti_previous_output (tx_input tx') = map ti_previous_output (tx_input tx)"
    and "length (tx_output tx') = length (tx_output tx)" "outputs_size (tx_output tx') \<le> 10000"
  shows "templated params (fx\<lparr>fx_input := (fx_input fx)\<lparr>si_psbt := (si_psbt (fx_input fx))\<lparr>psbt_unsigned_tx := tx'\<rparr>\<rparr>\<rparr>)"
proof -
  let ?psbt = "(si_psbt (fx_input fx))\<lparr>psbt_unsigned_tx := tx'\<rparr>"
  note old = templatedD [OF assms(1)]
  have "spendable (fx\<lparr>fx_input := (fx_input fx)\<lparr>si_psbt := ?psbt\<rparr>\<rparr>)"
    by (rule spendable_change [OF old(1) assms(2) _ assms(3)]) (use old(1) assms(2,4) in \<open>simp_all add: spendable_def\<close>)
  moreover have "modest ((fx_input fx)\<lparr>si_psbt := ?psbt\<rparr>)"
    by (rule modest_change [OF old(3) assms(2) _ assms(3) _ assms(5)]) simp_all
  ultimately show ?thesis using assms(1) unfolding templated_def by (intro conjI) simp_all
qed

lemma templated_fixture:
  assumes "ordinary tx" "length params = 32" "\<not> prefix MAGIC params"
  obtains fx tree other where
    "fixture_new env fl sl \<lparr>ap_evaluator = evaluator_id_wasm (env_deploy env), ap_program = TEMPLATEHASH fl, ap_parameters = params\<rparr>
       tx claim = Ok fx"
    "templated params fx" "fx_witness fx = []" "fx_server fx = None \<longleftrightarrow> claim"
    "psbt_unsigned_tx (si_psbt (fx_input fx)) = bound_to (funding_point tree) tx" "si_input_index (fx_input fx) = 0"
    "psbt_inputs (si_psbt (fx_input fx)) = input_maps tree other (length (tx_input tx))"
    "test_recipient fl 0x46 = Ok other"
proof -
  let ?p = "\<lparr>ap_evaluator = evaluator_id_wasm (env_deploy env), ap_program = TEMPLATEHASH fl, ap_parameters = params\<rparr>"
  have "small ?p" using template_size assms(2) by (simp add: small_def MAX_PARAMETER_BYTES_def)
  moreover have "tx_input tx \<noteq> []" using assms(1) by (simp add: ordinary_def)
  moreover have "\<exists>policy. parse (env_codec env) (ap_parameters ?p) = Ok policy \<and>
      (policy \<noteq> None \<longrightarrow> inline_wasm_version (env_spend env) (ap_evaluator ?p) \<noteq> None)"
    using parse_None [of "env_codec env" params] assms(3) by (intro exI [of _ None]) simp
  ultimately obtain fx tree other where fx: "fixture_new env fl sl ?p tx claim = Ok fx" "spendable fx" "keyed fx"
    "pk_program (fx_key fx) = ?p" "fx_witness fx = []" "fx_server fx = None \<longleftrightarrow> claim"
    "psbt_unsigned_tx (si_psbt (fx_input fx)) = bound_to (funding_point tree) tx" "si_input_index (fx_input fx) = 0"
    "psbt_inputs (si_psbt (fx_input fx)) = input_maps tree other (length (tx_input tx))"
    "test_recipient fl 0x46 = Ok other"
    by (rule fixture_new_Ok)
  moreover have "templated params fx"
    using fx(2-4) assms(2) input_maps_modest [OF assms(1) fx(10,7,8,9)] by (simp add: templated_def)
  ultimately show ?thesis by (intro that) 
qed

lemma template_program_eq: "template_program env fl sl tx =
    Ok \<lparr>ap_evaluator = evaluator_id_wasm (env_deploy env), ap_program = TEMPLATEHASH fl, ap_parameters = thash tx 0\<rparr>"
  unfolding template_program_def thash_eq by (rule program_new) (simp_all add: template_size MAX_PARAMETER_BYTES_def)

lemma test_transactions_ordinary:
  assumes "test_transaction fl = Ok tx \<or> two_input_transaction fl = Ok tx"
  shows "ordinary tx" "tx \<in> template_cases fl sl"
  using assms by (auto simp: template_cases_def tests_ordinary)

lemma template_fixture:
  obtains fx tree other tx where "fixture_template env fl sl claim = Ok fx" "templated (thash tx 0) fx" "test_transaction fl = Ok tx"
    "fx_witness fx = []" "fx_server fx = None \<longleftrightarrow> claim"
    "psbt_unsigned_tx (si_psbt (fx_input fx)) = bound_to (funding_point tree) tx" "si_input_index (fx_input fx) = 0"
    "psbt_inputs (si_psbt (fx_input fx)) = input_maps tree other (length (tx_input tx))"
    "test_recipient fl 0x46 = Ok other"
proof -
  obtain tx where tx: "test_transaction fl = Ok tx" using test_transaction_Ok by blast
  note o = test_transactions_ordinary [OF disjI1 [OF tx]]
  have "\<not> prefix MAGIC (thash tx 0)" using not_magic [OF o(2)] template_program_eq by fastforce
  then obtain fx tree other where fx: "fixture_new env fl sl \<lparr>ap_evaluator = evaluator_id_wasm (env_deploy env),
       ap_program = TEMPLATEHASH fl, ap_parameters = thash tx 0\<rparr> tx claim = Ok fx"
    "templated (thash tx 0) fx" "fx_witness fx = []" "fx_server fx = None \<longleftrightarrow> claim"
    "psbt_unsigned_tx (si_psbt (fx_input fx)) = bound_to (funding_point tree) tx" "si_input_index (fx_input fx) = 0"
    "psbt_inputs (si_psbt (fx_input fx)) = input_maps tree other (length (tx_input tx))"
    "test_recipient fl 0x46 = Ok other"
    by (rule templated_fixture [OF o(1) thash_length])
  from fx(1) have "fixture_template env fl sl claim = Ok fx"
    by (simp add: fixture_template_def tx template_program_eq)
  from that [OF this fx(2) tx fx(3-8)] show ?thesis .
qed

lemma templated_ready:
  assumes "templated params fx" "fx_witness fx = []" "spend_intent env fl sl fx intn" "lab_signer root sg"
    and "thash (psbt_unsigned_tx (si_psbt (fx_input fx))) (word_of_nat (si_input_index (fx_input fx))) = params"
  shows "ready env fl sl sg fx intn (instance_of (pk_program (fx_key fx)))"
    and "in_server intn = map_option (fl_public_key fl) (fx_server fx)"
proof -
  have "verdict env (as_evaluators sg) fx = Ok True"
    using hosted_template_verdict [OF assms(1)] assms(2,5) by (simp add: MAX_WITNESS_BYTES_def)
  with spendable_ready [OF _ _ assms(3,4)] assms(1) show
    "ready env fl sl sg fx intn (instance_of (pk_program (fx_key fx)))"
    "in_server intn = map_option (fl_public_key fl) (fx_server fx)"
    by (auto simp: templated_def)
qed

lemma triple_template_sign:
  assumes "templated params fx" "fx_witness fx = []" "spend_intent env fl sl fx intn" "lab_signer root sg"
    and "thash (psbt_unsigned_tx (si_psbt (fx_input fx))) (word_of_nat (si_input_index (fx_input fx))) = params"
  shows "triple (only sg []) (fixture_sign env fl sl orc fx)
    (\<lambda>sig s. only sg [] s \<and> sf_verify_schnorr sl sig (in_message intn) (intent_key intn) = Ok ())"
  by (rule triple_sign [OF templated_ready(1) [OF assms] assms(4)])

lemma triple_template_refused:
  assumes "templated params fx" "fx_witness fx = []" "lab_signer root sg"
    and "thash (psbt_unsigned_tx (si_psbt (fx_input fx))) (word_of_nat (si_input_index (fx_input fx))) \<noteq> params"
  shows "triple (holding sg \<Phi>) (predicate_refused env fl sl orc fx) (\<lambda>_. holding sg \<Phi>)"
proof -
  have "verdict env (as_evaluators sg) fx = Ok False"
    using hosted_template_verdict [OF assms(1)] assms(2,4) by (simp add: MAX_WITNESS_BYTES_def)
  with triple_predicate_refused [OF _ _ assms(3)] assms(1) show ?thesis by (simp add: templated_def)
qed

text \<open>The fixtures of the session tests are admitted.\<close>

lemma template_test_fixture:
  obtains fx intn inst where "test_fixture claim fx intn inst"
proof -
  obtain fx tree other tx where fx: "fixture_template env fl sl claim = Ok fx" "templated (thash tx 0) fx" "test_transaction fl = Ok tx"
    "fx_witness fx = []" "fx_server fx = None \<longleftrightarrow> claim"
    "psbt_unsigned_tx (si_psbt (fx_input fx)) = bound_to (funding_point tree) tx" "si_input_index (fx_input fx) = 0"
    by (rule template_fixture)
  have "tx_input tx \<noteq> []" using test_transactions_ordinary(1) [OF disjI1 [OF fx(3)]] by (simp add: ordinary_def)
  then have t: "thash (psbt_unsigned_tx (si_psbt (fx_input fx))) (word_of_nat (si_input_index (fx_input fx))) = thash tx 0"
    using fx(6,7) by simp
  obtain intn where i: "spend_intent env fl sl fx intn"
    by (rule templated_intent [OF fx(2)])
  obtain root sg where sg: "test_signer env fl = Ok sg" "lab_signer root sg" by (rule lab_signer_Ok)
  note rd = templated_ready [OF fx(2,4) i sg(2) t]
  have "test_fixture claim fx intn (instance_of (pk_program (fx_key fx)))"
    using rd sg(1) fx(1,5) by (auto simp: test_fixture_def)
  from that [OF this] show ?thesis .
qed

subsection \<open>The tests pass\<close>

lemma no_sessions_triple: "triple (only sg []) no_sessions (\<lambda>_ _. True)"
  by (auto simp: triple_def no_sessions_def observe_def assert_that_def elim!: holdingE)

text \<open>A signature is not one of another transaction.\<close>

lemma verify_other_fails:
  assumes "sf_verify_schnorr sl sig (in_message intn) (intent_key intn) = Ok ()"
    and "spend_intent env fl sl fx intn" "spend_intent env fl sl fx' intn'"
    and "sighash (env_spend env) (fx_input fx) = Ok (in_message intn)" "sighash (env_spend env) (fx_input fx') = Ok (in_message intn')"
    and "psbt_unsigned_tx (si_psbt (fx_input fx)) \<noteq> psbt_unsigned_tx (si_psbt (fx_input fx')) \<or>
      map pi_witness_utxo (psbt_inputs (si_psbt (fx_input fx))) \<noteq> map pi_witness_utxo (psbt_inputs (si_psbt (fx_input fx')))"
  shows "\<exists>e. sf_verify_signature sl (fx_input fx') sig = Err e" "in_message intn \<noteq> in_message intn'"
proof -
  show ne: "in_message intn \<noteq> in_message intn'" using sighash_binds assms(4-6) by metis
  then have "sf_verify_schnorr sl sig (in_message intn') (intent_key intn') \<noteq> Ok ()"
    using signature_binds [OF assms(1)] by blast
  then have "sf_verify_signature sl (fx_input fx') sig \<noteq> Ok ()" using verify_signature_iff [OF assms(3)] by blast
  with verify_signature_total show "\<exists>e. sf_verify_signature sl (fx_input fx') sig = Err e"
    by (cases "sf_verify_signature sl (fx_input fx') sig") auto
qed

lemma templated_sighash:
  assumes "templated params fx" "spend_intent env fl sl fx intn"
  shows "sighash (env_spend env) (fx_input fx) = Ok (in_message intn)"
  by (rule fixture_action_Ok [OF templatedD(1,2) [OF assms(1)]]) (use assms(2) in \<open>auto simp: spend_intent_def\<close>)

lemma claim_checks_pass:
  fixes P :: "'s \<Rightarrow> bool"
  assumes "psbt_inputs (si_psbt (fx_input fx)) = input_maps tree other n" "keyed fx"
    and "psbt_unsigned_tx (si_psbt (fx_input fx)) = bound_to point tx" "test_transaction fl = Ok tx"
  shows "triple P (claim_checks fl sl fx sig) (\<lambda>_. P)"
proof -
  obtain root user where k: "test_root fl = Ok root" "pk_root (fx_key fx) = xpub_from_priv (env_ark env) root"
    "test_key fl 0x42 = Ok user" "pk_user_pubkey (fx_key fx) = fl_public_key fl user"
    by (rule keyed_instance [OF assms(2)])
  obtain grp where g: "fl_group_key fl (fx_key fx) = Ok grp" using group_key [OF k(1,3,2,4)] by blast
  obtain delta where d: "fl_check_block_delta fl EXIT_DELAY = Ok delta" using block_delta by blast
  obtain control leaf rest where c: "pi_tap_scripts (tree_meta tree) = (control, leaf) # rest"
    using tree_meta(6) by (cases "pi_tap_scripts (tree_meta tree)") auto
  have seq: "map_option ti_sequence (list_get (tx_input (bound_to point tx)) 0) = Some (word_of_nat EXIT_DELAY)"
    using assms(4) by (rule test_transactionE) (simp add: bound_to_def list_get_def)
  have "sf_claim_witness sl grp delta sig control \<noteq> []" using claim_witness(1) [of grp delta sig control] by auto
  then have sig: "list_get (sf_claim_witness sl grp delta sig control) 0 = Some sig"
    by (simp add: list_get_def claim_witness)
  have "claim_checks fl sl fx sig s = Returned () s" for s :: 's
    unfolding claim_checks_def assms(1,3) input_maps_def
    by (simp add: g d c Let_def sig [simplified] seq [simplified] sig seq claim_witness(1) claim_sequence [OF d] assert_that_def
        del: bound_to_free)
  then show ?thesis by (simp add: triple_def)
qed

text \<open>One satoshi more in the first output is another transaction of the same program.\<close>

lemma template_one_more:
  assumes "templated params fx" "test_transaction fl = Ok tx" "psbt_unsigned_tx (si_psbt (fx_input fx)) = bound_to point tx"
  obtains fx' where "change_tx (edit_output 0 (add_value 1)) fx = Ok fx'" "templated params fx'"
    "psbt_unsigned_tx (si_psbt (fx_input fx')) \<noteq> psbt_unsigned_tx (si_psbt (fx_input fx))"
proof -
  obtain script where script: "test_recipient fl 0x45 = Ok script" "tx = \<lparr>tx_version = 2, tx_lock_time = 500,
      tx_input = [\<lparr>ti_previous_output = \<lparr>op_txid = replicate 32 0x44, op_vout = 0\<rparr>, ti_sequence = word_of_nat EXIT_DELAY\<rparr>],
      tx_output = [\<lparr>txo_value = 9000, txo_script_pubkey = script\<rparr>]\<rparr>"
    by (rule test_transactionE [OF assms(2)])
  let ?tx = "(bound_to point tx)\<lparr>tx_output := [\<lparr>txo_value = 9001, txo_script_pubkey = script\<rparr>]\<rparr>"
  have outs: "tx_output (bound_to point tx) = [\<lparr>txo_value = 9000, txo_script_pubkey = script\<rparr>]"
    using script(2) by (simp add: bound_to_def)
  then have "edit_output 0 (add_value 1) (bound_to point tx) = Ok ?tx"
    by (simp add: edit_output_def edit_nth_def add_value_def)
  note changed = change_tx_eq [where f = "edit_output 0 (add_value 1)", OF assms(3) this]
  have "tx_output (bound_to point tx) \<noteq> tx_output ?tx" unfolding outs by simp
  then have "?tx \<noteq> bound_to point tx" by metis
  with that [OF changed templated_change [OF assms(1,3)]] recipient_length [OF script(1)] outs assms(3) show ?thesis
    by simp
qed

lemma template_authorizes_test_passes: "test_passes (template_authorizes_test env fl sl orc)"
  unfolding template_authorizes_test_def
proof (rule lab_test_passes, goal_cases)
  case (1 root sg)
  note sg = 1
  have round: "triple (only sg []) (test_bind (unwrap (fixture_template env fl sl claim)) (\<lambda>fixture.
         test_bind (fixture_sign env fl sl orc fixture) (\<lambda>signature.
         test_bind (if claim then claim_checks fl sl fixture signature else test_return ()) (\<lambda>_.
         test_bind (unwrap (change_tx (edit_output 0 (add_value 1)) fixture)) (\<lambda>changed.
         test_bind (unwrap_err (sf_verify_signature sl (fx_input changed) signature)) (\<lambda>_.
         test_return ())))))) (\<lambda>_. only sg [])" for claim
  proof -
    obtain fx tree other tx where fx: "fixture_template env fl sl claim = Ok fx" "templated (thash tx 0) fx" "test_transaction fl = Ok tx"
      "fx_witness fx = []" "fx_server fx = None \<longleftrightarrow> claim"
      "psbt_unsigned_tx (si_psbt (fx_input fx)) = bound_to (funding_point tree) tx" "si_input_index (fx_input fx) = 0"
      "psbt_inputs (si_psbt (fx_input fx)) = input_maps tree other (length (tx_input tx))"
      by (rule template_fixture)
    have "tx_input tx \<noteq> []" using test_transactions_ordinary(1) [OF disjI1 [OF fx(3)]] by (simp add: ordinary_def)
    then have t: "thash (psbt_unsigned_tx (si_psbt (fx_input fx))) (word_of_nat (si_input_index (fx_input fx))) = thash tx 0"
      using fx(6,7) by simp
    obtain intn where i: "spend_intent env fl sl fx intn" by (rule templated_intent [OF fx(2)])
    obtain fx' where c: "change_tx (edit_output 0 (add_value 1)) fx = Ok fx'" "templated (thash tx 0) fx'"
      "psbt_unsigned_tx (si_psbt (fx_input fx')) \<noteq> psbt_unsigned_tx (si_psbt (fx_input fx))"
      by (rule template_one_more [OF fx(2,3,6)])
    obtain intn' where i': "spend_intent env fl sl fx' intn'" by (rule templated_intent [OF c(2)])
    have fails: "\<exists>e. sf_verify_signature sl (fx_input fx') sig = Err e"
      if "sf_verify_schnorr sl sig (in_message intn) (intent_key intn) = Ok ()" for sig
      by (rule verify_other_fails(1) [OF that i i' templated_sighash [OF fx(2) i] templated_sighash [OF c(2) i']])
        (use c(3) in simp)
    have checks: "triple (only sg []) (if claim then claim_checks fl sl fx sig else test_return ()) (\<lambda>_. only sg [])" for sig
      by (cases claim) (simp_all add: claim_checks_pass [OF fx(8) templatedD(2) [OF fx(2)] fx(6,3)] triple_return [of "\<lambda>_. only sg []"])
    show ?thesis
      by (rule triple_unwrap_then [OF fx(1)], rule triple_bind [OF triple_template_sign [OF fx(2,4) i sg(2) t]], rule triple_pure,
          rule triple_bind [OF checks], rule triple_unwrap_then [OF c(1)])
        (use fails in \<open>fastforce simp: triple_def test_return_def\<close>)
  qed
  show ?case
    by (rule triple_bind [OF triple_for_each [of _ "\<lambda>_. only sg []", OF round]], rule no_sessions_triple)
qed

subsection \<open>Committed fields\<close>

text \<open>A change that keeps prevouts and the number of outputs, and changes a committed field.\<close>

definition committed_change :: "transaction \<Rightarrow> transaction \<Rightarrow> bool" where
  "committed_change tx tx' \<longleftrightarrow> tx_input tx' \<noteq> [] \<and>
     map ti_previous_output (tx_input tx') = map ti_previous_output (tx_input tx) \<and>
     length (tx_output tx') = length (tx_output tx) \<and> outputs_size (tx_output tx') \<le> 10000 \<and>
     \<not> (tx_version tx' = tx_version tx \<and> tx_lock_time tx' = tx_lock_time tx \<and>
        map ti_sequence (tx_input tx') = map ti_sequence (tx_input tx) \<and> tx_output tx' = tx_output tx)"

lemma committed_mutation:
  assumes "two_input_transaction fl = Ok tx" "mutate \<in> set (committed_mutations fl)"
  shows "\<exists>tx'. mutate tx = Ok tx' \<and> mutate (bound_to p tx) = Ok (bound_to p tx') \<and> committed_change tx tx'"
proof -
  obtain script script' where s: "test_recipient fl 0x45 = Ok script" "test_recipient fl 0x48 = Ok script'"
    "tx = \<lparr>tx_version = 2, tx_lock_time = 500,
      tx_input = [\<lparr>ti_previous_output = \<lparr>op_txid = replicate 32 0x44, op_vout = 0\<rparr>, ti_sequence = word_of_nat EXIT_DELAY\<rparr>,
        \<lparr>ti_previous_output = \<lparr>op_txid = replicate 32 0x47, op_vout = 1\<rparr>, ti_sequence = 22\<rparr>],
      tx_output = [\<lparr>txo_value = 9000, txo_script_pubkey = script\<rparr>, \<lparr>txo_value = 500, txo_script_pubkey = script'\<rparr>]\<rparr>"
    by (rule two_input_transactionE [OF assms(1)])
  obtain other where other: "test_recipient fl 0x49 = Ok other" using recipient_Ok [of "0x49"] by auto
  have "other \<noteq> script" using recipient_eq [OF other s(1)] by simp
  with assms(2) other s(3) recipient_length [OF s(1)] recipient_length [OF s(2)] recipient_length [OF other] show ?thesis
    unfolding committed_mutations_def set_recipient_def
    by (auto simp: edit_output_def edit_input_def edit_nth_def set_script_def add_value_def bound_to_def committed_change_def EXIT_DELAY_def)
qed

lemma small_scripts: "out \<in> set outs \<Longrightarrow> outputs_size outs \<le> 10000 \<Longrightarrow> length (txo_script_pubkey out) < 2 ^ 64"
  by (induction outs) auto

lemma committed_change_hash:
  assumes "committed_change tx tx'" "tx \<in> template_cases fl sl" "tx' \<in> template_cases fl sl" "outputs_size (tx_output tx) \<le> 10000"
  shows "thash tx' 0 \<noteq> thash tx 0"
proof (rule thash_differs [OF assms(3,2)])
  show "\<forall>out \<in> set (tx_output tx') \<union> set (tx_output tx). length (txo_script_pubkey out) < 2 ^ 64"
    using small_scripts assms(1,4) unfolding committed_change_def by blast
qed (use assms(1) in \<open>auto simp: committed_change_def\<close>)

text \<open>Such a change of a template fixture is refused.\<close>

lemma triple_change_refused:
  assumes "templated (thash tx 0) fx" "fx_witness fx = []" "si_input_index (fx_input fx) = 0" "lab_signer root sg"
    and "psbt_unsigned_tx (si_psbt (fx_input fx)) = bound_to p tx" "ordinary tx" "tx \<in> template_cases fl sl"
    and "committed_change tx tx'" "tx' \<in> template_cases fl sl" "f (bound_to p tx) = Ok (bound_to p tx')"
  shows "\<exists>fx'. change_tx f fx = Ok fx' \<and> templated (thash tx 0) fx' \<and> fx_witness fx' = [] \<and>
    (\<forall>\<Phi>. triple (holding sg \<Phi>) (predicate_refused env fl sl orc fx') (\<lambda>_. holding sg \<Phi>))"
proof -
  let ?fx = "fx\<lparr>fx_input := (fx_input fx)\<lparr>si_psbt := (si_psbt (fx_input fx))\<lparr>psbt_unsigned_tx := bound_to p tx'\<rparr>\<rparr>\<rparr>"
  have ne: "tx_input tx \<noteq> []" "tx_input tx' \<noteq> []" using assms(6,8) by (simp_all add: ordinary_def committed_change_def)
  have "map ti_previous_output (tx_input (bound_to p tx')) = map ti_previous_output (tx_input (bound_to p tx))"
    using assms(8) ne by (simp add: committed_change_def bound_to_def map_update)
  then have t: "templated (thash tx 0) ?fx"
    by (intro templated_change [OF assms(1,5)]) (use assms(8) ne in \<open>simp_all add: committed_change_def\<close>)
  have "thash tx' 0 \<noteq> thash tx 0"
    by (rule committed_change_hash [OF assms(8,7,9)]) (use assms(6) in \<open>simp add: ordinary_def\<close>)
  then have "triple (holding sg \<Phi>) (predicate_refused env fl sl orc ?fx) (\<lambda>_. holding sg \<Phi>)" for \<Phi>
    by (intro triple_template_refused [OF t _ assms(4)]) (use assms(2,3) ne in simp_all)
  with change_tx_eq [where f = f, OF assms(5,10)] t assms(2) show ?thesis by (intro exI [of _ ?fx]) simp
qed

lemma thash_cong:
  assumes "tx_version tx = tx_version tx'" "tx_lock_time tx = tx_lock_time tx'" "tx_output tx = tx_output tx'"
    and "map ti_sequence (tx_input tx) = map ti_sequence (tx_input tx')"
  shows "thash tx idx = thash tx' idx"
proof -
  have "map (\<lambda>i. u32_to_le (ti_sequence i)) (tx_input tx) = map (\<lambda>i. u32_to_le (ti_sequence i)) (tx_input tx')"
    using arg_cong [OF assms(4), of "map u32_to_le"] by (simp add: comp_def)
  with assms(1-3) show ?thesis by (simp add: template_hash_def sha_sequences_def sha_outputs_def)
qed

text \<open>The path of an input depends on its metadata only.\<close>

lemma on_path_cong:
  assumes "on_path key inp server" "psbt_inputs (si_psbt inp) ! si_input_index inp = m"
    and "psbt_inputs (si_psbt inp') ! si_input_index inp' = m'"
    and "m'\<lparr>pi_witness_utxo := None, pi_non_witness_utxo := None\<rparr> = m\<lparr>pi_witness_utxo := None, pi_non_witness_utxo := None\<rparr>"
    and "pi_witness_utxo m' = Some out'" "\<And>out. pi_witness_utxo m = Some out \<Longrightarrow> txo_script_pubkey out' = txo_script_pubkey out"
    and "si_script_leaf inp' = si_script_leaf inp" "si_participants inp' = si_participants inp" "si_tweak inp' = si_tweak inp"
  shows "on_path key inp' server"
  using assms unfolding on_path_def
  by (elim exE conjE) (intro exI conjI; (assumption | simp))

lemma other_index_template:
  assumes "templated (thash tx 0) fx" "two_input_transaction fl = Ok tx" "fx_witness fx = []" "si_input_index (fx_input fx) = 0"
    and "psbt_unsigned_tx (si_psbt (fx_input fx)) = bound_to (funding_point tree) tx"
    and "psbt_inputs (si_psbt (fx_input fx)) = input_maps tree other 2" "test_recipient fl 0x46 = Ok other"
  obtains fx' where "other_index sl fx = Ok fx'" "templated (thash tx 0) fx'" "fx_witness fx' = []"
    "thash (psbt_unsigned_tx (si_psbt (fx_input fx'))) (word_of_nat (si_input_index (fx_input fx'))) = thash tx 1"
proof -
  define m where "m = (tree_meta tree)\<lparr>pi_witness_utxo := Some (funding_out tree), pi_non_witness_utxo := Some (funding_of tree)\<rparr>"
  define second where "second = (funding_of tree)\<lparr>tx_input := [(sf_tx_in_default sl)\<lparr>ti_previous_output :=
    (ti_previous_output (sf_tx_in_default sl))\<lparr>op_vout := 1\<rparr>\<rparr>]\<rparr>"
  define tx' where "tx' = (bound_to (funding_point tree) tx)\<lparr>tx_input := (tx_input (bound_to (funding_point tree) tx))
    [1 := (tx_input (bound_to (funding_point tree) tx) ! 1)\<lparr>ti_previous_output := \<lparr>op_txid = sf_compute_txid sl second, op_vout = 0\<rparr>\<rparr>]\<rparr>"
  let ?fx = "fx\<lparr>fx_input := (fx_input fx)\<lparr>si_psbt := (si_psbt (fx_input fx))\<lparr>psbt_unsigned_tx := tx',
    psbt_inputs := [m, m\<lparr>pi_non_witness_utxo := Some second\<rparr>]\<rparr>, si_input_index := 1\<rparr>\<rparr>"
  have maps: "\<exists>m'. psbt_inputs (si_psbt (fx_input fx)) = [m, m']" unfolding assms(6) by (simp add: input_maps_def m_def numeral_2_eq_2)
  obtain i j outs where tx: "tx = \<lparr>tx_version = 2, tx_lock_time = 500, tx_input = [i, j], tx_output = outs\<rparr>"
    by (rule two_input_transactionE [OF assms(2)])
  have e: "other_index sl fx = Ok ?fx"
    using maps
    by (auto simp: other_index_def change_map_def change_tx_def edit_nth_def edit_input_def assms(5) tx'_def second_def m_def
        funding_of_def tx bound_to_def)
  note old = templatedD [OF assms(1)]
  have "on_path (fx_key fx) (fx_input ?fx) (map_option (fl_public_key fl) (fx_server fx))"
    by (rule on_path_cong [of _ "fx_input fx" _ m _ "m\<lparr>pi_non_witness_utxo := Some second\<rparr>" "funding_out tree"])
      (use old(1) assms(4) maps in \<open>auto simp: spendable_def m_def\<close>)
  moreover have "proven sl (fx_input ?fx)"
    by (simp add: proven_def Let_def proven_input_def tx'_def tx bound_to_def m_def second_def funding_of_def)
  moreover have "output_maps (length (tx_output tx')) (psbt_other (si_psbt (fx_input fx)))"
    using old(1) assms(5) by (simp add: spendable_def tx'_def)
  ultimately have sp: "spendable ?fx" by (simp add: spendable_def)
  have "modest (fx_input ?fx)"
    using old(3) assms(4,5) maps
    by (auto simp: modest_def authenticated_def tx'_def tx bound_to_def m_def funding_out_def tree_script wf_outpoint_def txid_length)
  with sp have "templated (thash tx 0) ?fx"
    using assms(1) unfolding templated_def by (intro conjI) simp_all
  moreover have "thash tx' 1 = thash tx 1"
    by (rule thash_cong) (simp_all add: tx'_def tx bound_to_def)
  ultimately show ?thesis
    by (intro that [OF e]) (use assms(3) in simp_all)
qed

lemma wrong_program_template:
  assumes "two_input_transaction fl = Ok tx"
  obtains wrong where "wrong \<noteq> thash tx 0" "length wrong = 32" "\<not> prefix MAGIC wrong"
    "wrong_program env fl sl (bound_to p tx) =
       Ok \<lparr>ap_evaluator = evaluator_id_wasm (env_deploy env), ap_program = TEMPLATEHASH fl, ap_parameters = wrong\<rparr>"
proof -
  let ?h = "thash tx 0"
  let ?w = "?h[0 := xor (?h ! 0) 1]"
  note o = test_transactions_ordinary [OF disjI2 [OF assms]]
  have free: "thash (bound_to p tx) 0 = ?h" using o(1) by (simp add: ordinary_def)
  have w: "edit_nth ?h 0 (\<lambda>b. Ok (xor b 1)) = Ok ?w" by (simp add: edit_nth_def)
  have prog: "fl_program_new fl e (TEMPLATEHASH fl) ?w = Ok \<lparr>ap_evaluator = e, ap_program = TEMPLATEHASH fl, ap_parameters = ?w\<rparr>" for e
    by (rule program_new) (simp_all add: template_size MAX_PARAMETER_BYTES_def)
  have "xor b 1 \<noteq> b" for b :: byte
    by (metis bit.xor_self bit.xor_left_self zero_neq_one xor.right_neutral)
  moreover have "?w ! 0 = xor (?h ! 0) 1" by simp
  ultimately have "?w \<noteq> ?h" by metis
  moreover have "\<not> prefix MAGIC ?w"
    using not_magic [OF o(2)] w prog by (fastforce simp: wrong_program_def thash_eq)
  moreover have "wrong_program env fl sl (bound_to p tx) =
       Ok \<lparr>ap_evaluator = evaluator_id_wasm (env_deploy env), ap_program = TEMPLATEHASH fl, ap_parameters = ?w\<rparr>"
    by (simp add: wrong_program_def thash_eq free w prog)
  ultimately show ?thesis using that [of ?w] by simp
qed

text \<open>Every change of the list is refused, and so is the wrong commitment.\<close>

lemma triple_committed_mutations:
  assumes "two_input_transaction fl = Ok tx" "templated (thash tx 0) fx" "fx_witness fx = []" "si_input_index (fx_input fx) = 0"
    and "psbt_unsigned_tx (si_psbt (fx_input fx)) = bound_to p tx" "lab_signer root sg"
  shows "triple (only sg []) (for_each (committed_mutations fl) (\<lambda>mutate.
      test_bind (unwrap (change_tx mutate fx)) (\<lambda>changed. predicate_refused env fl sl orc changed))) (\<lambda>_. only sg [])"
proof (rule triple_for_each [of _ "\<lambda>_. only sg []"], goal_cases)
  case (1 k)
  let ?f = "committed_mutations fl ! k"
  note o = test_transactions_ordinary [OF disjI2 [OF assms(1)]]
  obtain tx' where m: "?f tx = Ok tx'" "?f (bound_to p tx) = Ok (bound_to p tx')" "committed_change tx tx'"
    using committed_mutation [OF assms(1) nth_mem [OF 1]] by blast
  have "tx' \<in> template_cases fl sl"
    using assms(1) m(1) nth_mem [OF 1] by (force simp: template_cases_def image_iff)
  from triple_change_refused [where f = ?f, OF assms(2-4,6,5) o m(3) this m(2)]
  obtain fx' where c: "change_tx ?f fx = Ok fx'"
    "triple (only sg []) (predicate_refused env fl sl orc fx') (\<lambda>_. only sg [])"
    by blast
  show ?case by (rule triple_unwrap_then [OF c(1)], rule c(2))
qed

lemma triple_wrong_commitment:
  assumes "two_input_transaction fl = Ok tx" "psbt_unsigned_tx (si_psbt (fx_input fx)) = bound_to (funding_point tree) tx"
    and "lab_signer root sg"
  shows "triple (holding sg \<Phi>) (test_bind (unwrap (bind_res (wrong_program env fl sl (psbt_unsigned_tx (si_psbt (fx_input fx)))) (\<lambda>program.
      fixture_new env fl sl program (psbt_unsigned_tx (si_psbt (fx_input fx))) False))) (\<lambda>wrong.
      predicate_refused env fl sl orc wrong)) (\<lambda>_. holding sg \<Phi>)"
proof -
  let ?tx = "bound_to (funding_point tree) tx"
  obtain wrong where w: "wrong \<noteq> thash tx 0" "length wrong = 32" "\<not> prefix MAGIC wrong"
    "wrong_program env fl sl ?tx =
       Ok \<lparr>ap_evaluator = evaluator_id_wasm (env_deploy env), ap_program = TEMPLATEHASH fl, ap_parameters = wrong\<rparr>"
    by (rule wrong_program_template [OF assms(1)])
  have o: "ordinary tx" by (rule test_transactions_ordinary(1) [OF disjI2 [OF assms(1)]])
  have ot: "ordinary ?tx"
    using o by (cases "tx_input tx") (simp_all add: ordinary_def bound_to_def funding_point_def wf_outpoint_def txid_length)
  obtain fx' tree' where fx': "fixture_new env fl sl \<lparr>ap_evaluator = evaluator_id_wasm (env_deploy env),
       ap_program = TEMPLATEHASH fl, ap_parameters = wrong\<rparr> ?tx False = Ok fx'"
    "templated wrong fx'" "fx_witness fx' = []" "psbt_unsigned_tx (si_psbt (fx_input fx')) = bound_to (funding_point tree') ?tx"
    "si_input_index (fx_input fx') = 0"
    by (rule templated_fixture [OF ot w(2,3)])
  have "thash (psbt_unsigned_tx (si_psbt (fx_input fx'))) (word_of_nat (si_input_index (fx_input fx'))) \<noteq> wrong"
    using fx'(4,5) w(1) o ot by (simp add: ordinary_def)
  from triple_template_refused [OF fx'(2,3) assms(3) this] show ?thesis
    by (intro triple_unwrap_then [of _ fx']) (simp_all add: assms(2) w(4) fx'(1))
qed

lemma two_input_fixture:
  obtains tx fx tree other where "two_input_transaction fl = Ok tx" "bind_res (two_input_transaction fl) (\<lambda>tx.
      bind_res (template_program env fl sl tx) (\<lambda>program. fixture_new env fl sl program tx False)) = Ok fx"
    "templated (thash tx 0) fx" "fx_witness fx = []" "si_input_index (fx_input fx) = 0"
    "psbt_unsigned_tx (si_psbt (fx_input fx)) = bound_to (funding_point tree) tx"
    "psbt_inputs (si_psbt (fx_input fx)) = input_maps tree other 2" "test_recipient fl 0x46 = Ok other"
    "thash (psbt_unsigned_tx (si_psbt (fx_input fx))) (word_of_nat (si_input_index (fx_input fx))) = thash tx 0"
proof -
  obtain tx where tx: "two_input_transaction fl = Ok tx"
    using test_transaction_Ok recipient_Ok [of "0x48"] by (auto simp: two_input_transaction_def bind_res_eq_Ok)
  note o = test_transactions_ordinary [OF disjI2 [OF tx]]
  have two: "length (tx_input tx) = 2" by (rule two_input_transactionE [OF tx]) simp
  have "\<not> prefix MAGIC (thash tx 0)" using not_magic [OF o(2)] template_program_eq by fastforce
  then obtain fx tree other where fx: "fixture_new env fl sl \<lparr>ap_evaluator = evaluator_id_wasm (env_deploy env),
       ap_program = TEMPLATEHASH fl, ap_parameters = thash tx 0\<rparr> tx False = Ok fx"
    "templated (thash tx 0) fx" "fx_witness fx = []" "fx_server fx = None \<longleftrightarrow> False"
    "psbt_unsigned_tx (si_psbt (fx_input fx)) = bound_to (funding_point tree) tx" "si_input_index (fx_input fx) = 0"
    "psbt_inputs (si_psbt (fx_input fx)) = input_maps tree other (length (tx_input tx))" "test_recipient fl 0x46 = Ok other"
    by (rule templated_fixture [OF o(1) thash_length])
  show ?thesis
    by (rule that [OF tx _ fx(2,3,6,5) _ fx(8)])
      (use fx(5-7) o(1) two in \<open>simp_all add: tx template_program_eq fx(1) ordinary_def\<close>)
qed

lemma template_fields_test_passes: "test_passes (template_fields_test env fl sl orc)"
  unfolding template_fields_test_def
proof (rule lab_test_passes, goal_cases)
  case (1 root sg)
  obtain tx fx tree other where tx: "two_input_transaction fl = Ok tx" and original: "bind_res (two_input_transaction fl) (\<lambda>tx.
      bind_res (template_program env fl sl tx) (\<lambda>program. fixture_new env fl sl program tx False)) = Ok fx"
    and fx: "templated (thash tx 0) fx" "fx_witness fx = []" "si_input_index (fx_input fx) = 0"
      "psbt_unsigned_tx (si_psbt (fx_input fx)) = bound_to (funding_point tree) tx"
      "psbt_inputs (si_psbt (fx_input fx)) = input_maps tree other 2" "test_recipient fl 0x46 = Ok other"
    and t: "thash (psbt_unsigned_tx (si_psbt (fx_input fx))) (word_of_nat (si_input_index (fx_input fx))) = thash tx 0"
    by (rule two_input_fixture)
  obtain intn where i: "spend_intent env fl sl fx intn" by (rule templated_intent [OF fx(1)])
  obtain fx' where other: "other_index sl fx = Ok fx'" "templated (thash tx 0) fx'" "fx_witness fx' = []"
    "thash (psbt_unsigned_tx (si_psbt (fx_input fx'))) (word_of_nat (si_input_index (fx_input fx'))) = thash tx 1"
    by (rule other_index_template [OF fx(1) tx fx(2-6)])
  note o = test_transactions_ordinary [OF disjI2 [OF tx]]
  have "thash tx 1 \<noteq> thash tx 0"
    by (rule thash_differs [OF o(2,2)]) (use o(1) small_scripts in \<open>auto simp: ordinary_def\<close>)
  then have refused: "triple (only sg []) (predicate_refused env fl sl orc fx') (\<lambda>_. only sg [])"
    by (intro triple_template_refused [OF other(2,3) 1(2)]) (simp add: other(4))
  show ?case
    by (rule triple_unwrap_then [OF original], rule triple_bind [OF triple_template_sign [OF fx(1,2) i 1(2) t]], rule triple_pure,
        rule triple_bind [OF triple_committed_mutations [OF tx fx(1-4) 1(2)]], rule triple_unwrap_then [OF other(1)],
        rule triple_bind [OF refused], rule triple_conseq [OF triple_wrong_commitment [OF tx fx(4) 1(2)]]) simp_all
qed

subsection \<open>Prevouts\<close>

lemma rebound_template:
  assumes "templated (thash tx 0) fx" "test_transaction fl = Ok tx" "fx_witness fx = []" "si_input_index (fx_input fx) = 0"
    and "psbt_unsigned_tx (si_psbt (fx_input fx)) = bound_to p tx"
    and "psbt_inputs (si_psbt (fx_input fx)) = input_maps tree other 1"
  obtains fx' p' where "rebound_fixture sl fx = Ok fx'" "templated (thash tx 0) fx'" "fx_witness fx' = []"
    "psbt_unsigned_tx (si_psbt (fx_input fx')) = bound_to p' tx" "si_input_index (fx_input fx') = 0"
    "map pi_witness_utxo (psbt_inputs (si_psbt (fx_input fx'))) \<noteq> map pi_witness_utxo (psbt_inputs (si_psbt (fx_input fx)))"
proof -
  define m where "m = (tree_meta tree)\<lparr>pi_witness_utxo := Some (funding_out tree), pi_non_witness_utxo := Some (funding_of tree)\<rparr>"
  define out where "out = (funding_out tree)\<lparr>txo_value := TEST_FUNDING + 1000\<rparr>"
  define parent where "parent = (funding_of tree)\<lparr>tx_output := [out]\<rparr>"
  define p' where "p' = \<lparr>op_txid = sf_compute_txid sl parent, op_vout = 0\<rparr>"
  let ?m = "m\<lparr>pi_non_witness_utxo := Some parent, pi_witness_utxo := Some out\<rparr>"
  let ?fx = "fx\<lparr>fx_input := (fx_input fx)\<lparr>si_psbt := (si_psbt (fx_input fx))\<lparr>psbt_unsigned_tx := bound_to p' tx, psbt_inputs := [?m]\<rparr>\<rparr>\<rparr>"
  have maps: "psbt_inputs (si_psbt (fx_input fx)) = [m]" unfolding assms(6) by (simp add: input_maps_def m_def)
  obtain i outs where tx: "tx = \<lparr>tx_version = 2, tx_lock_time = 500, tx_input = [i], tx_output = outs\<rparr>"
    by (rule test_transactionE [OF assms(2)])
  have parent: "edit_output 0 (add_value 1000) (funding_of tree) = Ok parent"
    by (simp add: edit_output_def edit_nth_def add_value_def funding_of_def parent_def out_def funding_out_def TEST_FUNDING_def)
  have out0: "tx_output parent ! 0 = out" by (simp add: parent_def)
  have e: "rebound_fixture sl fx = Ok ?fx"
    using maps parent out0
    by (simp add: rebound_fixture_def change_map_def change_tx_def edit_nth_def edit_input_def assms(5) m_def tx bound_to_def p'_def)
  note old = templatedD [OF assms(1)]
  have "on_path (fx_key fx) (fx_input ?fx) (map_option (fl_public_key fl) (fx_server fx))"
    by (rule on_path_cong [of _ "fx_input fx" _ m _ ?m out])
      (use old(1) assms(4) maps in \<open>auto simp: spendable_def m_def out_def\<close>)
  moreover have "proven sl (fx_input ?fx)"
    using assms(4) by (simp add: proven_def Let_def proven_input_def tx bound_to_def p'_def parent_def)
  moreover have "output_maps (length (tx_output (bound_to p' tx))) (psbt_other (si_psbt (fx_input fx)))"
    using old(1) assms(5) by (simp add: spendable_def tx bound_to_def)
  ultimately have sp: "spendable ?fx" by (simp add: spendable_def)
  have "modest (fx_input ?fx)"
    using old(3) assms(4,5) maps
    by (auto simp: modest_def authenticated_def tx bound_to_def m_def out_def funding_out_def tree_script wf_outpoint_def txid_length p'_def)
  with sp have "templated (thash tx 0) ?fx"
    using assms(1) unfolding templated_def by (intro conjI) simp_all
  moreover have "out \<noteq> funding_out tree" by (simp add: out_def funding_out_def TEST_FUNDING_def)
  ultimately show ?thesis
    by (intro that [OF e]) (use assms(3,4) maps in \<open>simp_all add: m_def\<close>)
qed

text \<open>A request whose action carries an unproven context is refused.\<close>

lemma triple_unproven:
  assumes "templated params fx" "lab_signer root sg" "\<not> proven sl (fx_input fx')" "mutate fx = Ok fx'"
  shows "triple (holding sg \<Phi>) (test_bind (fixture_request env fl sl orc fx) (\<lambda>(request, _).
         test_bind (unwrap (bind_res (mutate fx) (fixture_action fl sl))) (\<lambda>action.
         test_bind (refused env orc (request\<lparr>pq_action := action\<rparr>)) (\<lambda>_. test_return ())))) (\<lambda>_. holding sg \<Phi>)"
proof -
  from from_input obtain rq where rq: "sf_from_input sl (fx_input fx') (map_option (fl_public_key fl) (fx_server fx')) (fx_witness fx') = Ok rq"
    by blast
  then have "fixture_action fl sl fx' = Ok (Spend rq)" by (simp add: fixture_action_def)
  moreover from unproven [OF rq assms(3), of "fx_key fx"] obtain e where "action_intent (env_ark env) (Spend rq) (fx_key fx) = Err e" by blast
  ultimately show ?thesis by (rule triple_intentless [where mutate = mutate, OF templatedD(1,2) [OF assms(1)] assms(2,4)])
qed

lemma prevout_mutation_unproven:
  assumes "fixture_template env fl sl False = Ok fx" "test_transaction fl = Ok tx" "si_input_index (fx_input fx) = 0"
    and "psbt_unsigned_tx (si_psbt (fx_input fx)) = bound_to (funding_point tree) tx"
    and "psbt_inputs (si_psbt (fx_input fx)) = input_maps tree other 1" "mutate \<in> set (prevout_mutations fl)"
  shows "\<exists>fx'. mutate fx = Ok fx' \<and> \<not> proven sl (fx_input fx')"
proof -
  obtain m where m: "psbt_inputs (si_psbt (fx_input fx)) = [m]" "pi_witness_utxo m = Some (funding_out tree)"
      "pi_non_witness_utxo m = Some (funding_of tree)"
    unfolding assms(5) by (simp add: input_maps_def)
  obtain i outs where tx: "tx = \<lparr>tx_version = 2, tx_lock_time = 500, tx_input = [i], tx_output = outs\<rparr>"
    by (rule test_transactionE [OF assms(2)])
  obtain script where script: "test_recipient fl 0x49 = Ok script" using recipient_Ok [of "0x49"] by auto
  have "sf_compute_txid sl (funding_of tree) \<noteq> replicate 32 9"
    using funding_txid [OF assms(1)] assms(4) by (simp add: tx bound_to_def funding_point_def)
  moreover note tree_recipient [OF script, of tree]
  ultimately show ?thesis
    using assms(6) m assms(3,4) script
    unfolding prevout_mutations_def
    by (auto simp: change_tx_def change_witness_utxo_def change_map_def edit_input_def edit_nth_def set_script_def add_value_def
        tx bound_to_def proven_def proven_input_def Let_def funding_point_def funding_of_def funding_out_def TEST_FUNDING_def)
qed

lemma triple_prevout_mutations:
  assumes "fixture_template env fl sl False = Ok fx" "templated params fx" "test_transaction fl = Ok tx" "si_input_index (fx_input fx) = 0"
    and "psbt_unsigned_tx (si_psbt (fx_input fx)) = bound_to (funding_point tree) tx"
    and "psbt_inputs (si_psbt (fx_input fx)) = input_maps tree other 1" "lab_signer root sg"
  shows "triple (only sg []) (for_each (prevout_mutations fl) (\<lambda>mutate.
         test_bind (fixture_request env fl sl orc fx) (\<lambda>(request, _).
         test_bind (unwrap (bind_res (mutate fx) (fixture_action fl sl))) (\<lambda>action.
         test_bind (refused env orc (request\<lparr>pq_action := action\<rparr>)) (\<lambda>_. test_return ()))))) (\<lambda>_. only sg [])"
proof (rule triple_for_each [of _ "\<lambda>_. only sg []"], goal_cases)
  case (1 k)
  from prevout_mutation_unproven [OF assms(1,3-6) nth_mem [OF 1]] obtain fx' where
    "(prevout_mutations fl ! k) fx = Ok fx'" "\<not> proven sl (fx_input fx')" by blast
  then show ?case by (intro triple_unproven [where mutate = "prevout_mutations fl ! k", OF assms(2,7)])
qed

lemma free_prevouts_test_passes: "test_passes (free_prevouts_test env fl sl orc)"
  unfolding free_prevouts_test_def
proof (rule lab_test_passes, goal_cases)
  case (1 root sg)
  obtain fx tree other tx where fx: "fixture_template env fl sl False = Ok fx" "templated (thash tx 0) fx" "test_transaction fl = Ok tx"
    "fx_witness fx = []" "fx_server fx = None \<longleftrightarrow> False"
    "psbt_unsigned_tx (si_psbt (fx_input fx)) = bound_to (funding_point tree) tx" "si_input_index (fx_input fx) = 0"
    "psbt_inputs (si_psbt (fx_input fx)) = input_maps tree other (length (tx_input tx))"
    by (rule template_fixture)
  have "length (tx_input tx) = 1" by (rule test_transactionE [OF fx(3)]) simp
  note maps = fx(8) [unfolded this]
  have ne: "tx_input tx \<noteq> []" using test_transactions_ordinary(1) [OF disjI1 [OF fx(3)]] by (simp add: ordinary_def)
  obtain fx' p' where r: "rebound_fixture sl fx = Ok fx'" "templated (thash tx 0) fx'" "fx_witness fx' = []"
    "psbt_unsigned_tx (si_psbt (fx_input fx')) = bound_to p' tx" "si_input_index (fx_input fx') = 0"
    "map pi_witness_utxo (psbt_inputs (si_psbt (fx_input fx'))) \<noteq> map pi_witness_utxo (psbt_inputs (si_psbt (fx_input fx)))"
    by (rule rebound_template [OF fx(2,3,4,7,6) maps])
  obtain intn where i: "spend_intent env fl sl fx intn" by (rule templated_intent [OF fx(2)])
  obtain intn' where i': "spend_intent env fl sl fx' intn'" by (rule templated_intent [OF r(2)])
  note h = templated_sighash [OF fx(2) i] and h' = templated_sighash [OF r(2) i']
  have t: "thash (psbt_unsigned_tx (si_psbt (fx_input fx))) (word_of_nat (si_input_index (fx_input fx))) = thash tx 0"
    "thash (psbt_unsigned_tx (si_psbt (fx_input fx'))) (word_of_nat (si_input_index (fx_input fx'))) = thash tx 0"
    using fx(6,7) r(4,5) ne by simp_all
  have same: "test_template_hash sl (psbt_unsigned_tx (si_psbt (fx_input fx))) 0 =
      test_template_hash sl (psbt_unsigned_tx (si_psbt (fx_input fx'))) 0"
    using fx(6) r(4) ne by (simp add: thash_eq)
  note other = verify_other_fails [OF _ i i' h h' disjI2 [OF r(6) [symmetric]]]
    and other' = verify_other_fails [OF _ i' i h' h disjI2 [OF r(6)]]
  note sg = 1(2)
  show ?case
  proof (rule triple_unwrap_then [OF fx(1)], rule triple_bind [OF triple_template_sign [OF fx(2,4) i sg t(1)]], rule triple_pure,
      rule triple_unwrap_then [OF r(1)], rule triple_assert_then [OF same], rule triple_unwrap_then [OF h],
      rule triple_unwrap_then [OF h'], goal_cases)
    case (1 sig)
    from other(1) [OF 1] obtain e where e: "sf_verify_signature sl (fx_input fx') sig = Err e" by blast
    show ?case
    proof (rule triple_assert_then [OF other(2) [OF 1]], rule triple_unwrap_err_then [OF e],
        rule triple_bind [OF triple_template_sign [OF r(2,3) i' sg t(2)]], rule triple_pure, goal_cases)
      case (1 sig')
      from other'(1) [OF 1] obtain e' where e': "sf_verify_signature sl (fx_input fx) sig' = Err e'" by blast
      show ?case
        by (rule triple_unwrap_err_then [OF e'], rule triple_conseq [OF triple_prevout_mutations [OF fx(1,2,3,7,6) maps sg]]) simp_all
    qed
  qed
qed

subsection \<open>Recovery and checkpoints\<close>

text \<open>Another script in the only output.\<close>

lemma script_change_refused:
  assumes "templated (thash tx 0) fx" "test_transaction fl = Ok tx" "fx_witness fx = []"
    and "psbt_unsigned_tx (si_psbt (fx_input fx)) = bound_to p tx" "si_input_index (fx_input fx) = 0" "lab_signer root sg"
    and "test_recipient fl 0x45 = Ok script" "script' \<noteq> script" "length script' = 34"
    and "\<And>tx'. edit_output 0 (set_script script') tx = Ok tx' \<Longrightarrow> tx' \<in> template_cases fl sl"
  shows "\<exists>fx'. change_tx (edit_output 0 (set_script script')) fx = Ok fx' \<and> templated (thash tx 0) fx' \<and> fx_witness fx' = [] \<and>
    (\<forall>\<Phi>. triple (holding sg \<Phi>) (predicate_refused env fl sl orc fx') (\<lambda>_. holding sg \<Phi>))"
proof -
  obtain script0 where s: "test_recipient fl 0x45 = Ok script0" "tx = \<lparr>tx_version = 2, tx_lock_time = 500,
      tx_input = [\<lparr>ti_previous_output = \<lparr>op_txid = replicate 32 0x44, op_vout = 0\<rparr>, ti_sequence = word_of_nat EXIT_DELAY\<rparr>],
      tx_output = [\<lparr>txo_value = 9000, txo_script_pubkey = script0\<rparr>]\<rparr>"
    by (rule test_transactionE [OF assms(2)])
  let ?tx = "tx\<lparr>tx_output := [\<lparr>txo_value = 9000, txo_script_pubkey = script'\<rparr>]\<rparr>"
  have ed: "edit_output 0 (set_script script') tx = Ok ?tx"
    and bd: "edit_output 0 (set_script script') (bound_to p tx) = Ok (bound_to p ?tx)"
    by (simp_all add: s(2) edit_output_def edit_nth_def set_script_def bound_to_def)
  have ch: "committed_change tx ?tx" using s assms(7-9) by (simp add: committed_change_def)
  note o = test_transactions_ordinary [OF disjI1 [OF assms(2)]]
  show ?thesis
    by (rule triple_change_refused [where f = "edit_output 0 (set_script script')",
          OF assms(1,3,5,6,4) o ch assms(10) [OF ed] bd])
qed

lemma triple_template_witness:
  assumes "templated params fx" "lab_signer root sg" "w \<noteq> []" "length w \<le> MAX_WITNESS_BYTES"
  shows "triple (holding sg \<Phi>) (invalid_evaluation env fl sl orc (fx\<lparr>fx_witness := w\<rparr>)) (\<lambda>_. holding sg \<Phi>)"
proof -
  have sp: "spendable (fx\<lparr>fx_witness := w\<rparr>)" using templatedD(1) [OF assms(1)] by (simp add: spendable_def)
  then have t: "templated params (fx\<lparr>fx_witness := w\<rparr>)"
    using assms(1) unfolding templated_def by (intro conjI) simp_all
  show ?thesis
    by (rule triple_invalid_evaluation [OF templatedD(1,2) [OF t] assms(2)]) (simp add: hosted_template_verdict [OF t] assms(3,4))
qed

lemma no_privilege_test_passes: "test_passes (no_privilege_test env fl sl orc)"
  unfolding no_privilege_test_def
proof (rule lab_test_passes, goal_cases)
  case (1 root sg)
  obtain fx tree other tx where fx: "fixture_template env fl sl True = Ok fx" "templated (thash tx 0) fx" "test_transaction fl = Ok tx"
    "fx_witness fx = []" "fx_server fx = None \<longleftrightarrow> True"
    "psbt_unsigned_tx (si_psbt (fx_input fx)) = bound_to (funding_point tree) tx" "si_input_index (fx_input fx) = 0"
    by (rule template_fixture)
  obtain gx tree' other' tx' where gx: "fixture_template env fl sl False = Ok gx" "templated (thash tx' 0) gx" "test_transaction fl = Ok tx'"
    "fx_witness gx = []" "fx_server gx = None \<longleftrightarrow> False"
    "psbt_unsigned_tx (si_psbt (fx_input gx)) = bound_to (funding_point tree') tx'" "si_input_index (fx_input gx) = 0"
    "psbt_inputs (si_psbt (fx_input gx)) = input_maps tree' other' (length (tx_input tx'))"
    by (rule template_fixture)
  obtain intn where i: "spend_intent env fl sl fx intn" by (rule templated_intent [OF fx(2)])
  have t: "thash (psbt_unsigned_tx (si_psbt (fx_input fx))) (word_of_nat (si_input_index (fx_input fx))) = thash tx 0"
    using fx(6,7) test_transactions_ordinary(1) [OF disjI1 [OF fx(3)]] by (simp add: ordinary_def)
  obtain script where script: "test_recipient fl 0x45 = Ok script" by (rule test_transactionE [OF fx(3)])
  obtain user where user: "test_recipient fl 0x42 = Ok user" using recipient_Ok [of "0x42"] by auto
  have "user \<noteq> script" using recipient_eq [OF user script] by simp
  have case1: "tx' \<in> template_cases fl sl" if "edit_output 0 (set_script user) tx = Ok tx'" for tx'
    using fx(3) user that by (simp add: template_cases_def set_recipient_def)
  have case2: "cx \<in> template_cases fl sl" if "edit_output 0 (set_script (sf_tree_script sl tree')) tx' = Ok cx" for cx
    unfolding template_cases_def using gx(3) that [symmetric] by (intro CollectI UnI1 UnI2 rev_image_eqI [of tree']) simp_all
  from script_change_refused [OF fx(2-4,6,7) 1(2) script \<open>user \<noteq> script\<close> recipient_length [OF user] case1] obtain rx where
    r: "change_tx (edit_output 0 (set_script user)) fx = Ok rx" "templated (thash tx 0) rx"
      "triple (only sg []) (predicate_refused env fl sl orc rx) (\<lambda>_. only sg [])"
    by blast
  from script_change_refused [OF gx(2-4,6,7) 1(2) script tree_recipient [OF script] tree_script case2] obtain kx where
    k: "change_tx (edit_output 0 (set_script (sf_tree_script sl tree'))) gx = Ok kx"
      "triple (only sg []) (predicate_refused env fl sl orc kx) (\<lambda>_. only sg [])"
    by blast
  have r1: "change_tx (set_recipient fl 0x42) fx = Ok rx" using r(1) by (simp add: change_tx_def set_recipient_def user)
  have out: "(case psbt_inputs (si_psbt (fx_input gx)) of m # _ \<Rightarrow> ok_or (Msg ''unwrap'') (pi_witness_utxo m) | [] \<Rightarrow> Panic) =
      Ok (funding_out tree')"
    unfolding gx(8) by (simp add: input_maps_def)
  have k': "change_tx (edit_output 0 (set_script (txo_script_pubkey (funding_out tree')))) gx = Ok kx"
    using k(1) by (simp add: funding_out_def)
  show ?case
    by (rule triple_unwrap_then [OF fx(1)], rule triple_bind [OF triple_template_sign [OF fx(2,4) i 1(2) t]], rule triple_pure,
        rule triple_unwrap_then [OF r1], rule triple_bind [OF r(3)],
        rule triple_bind [OF triple_template_witness [OF r(2) 1(2)]], simp add: str_bytes_def,
        simp add: str_bytes_def MAX_WITNESS_BYTES_def, rule triple_unwrap_then [OF gx(1)], rule triple_unwrap_then [OF out],
        rule triple_unwrap_then [OF k'], rule triple_bind [OF k(2)], rule no_sessions_triple)
qed

subsection \<open>Evaluators\<close>

lemma triple_refused_unknown:
  assumes "spendable fx" "keyed fx" "lab_signer root sg"
    and "inline_wasm_version (env_spend env) (ap_evaluator (pk_program (fx_key fx))) = None"
    and "\<forall>e \<in> set (as_evaluators sg). we_id e \<noteq> ap_evaluator (pk_program (fx_key fx))"
  shows "triple (holding sg \<Phi>) (refused_unknown env fl sl orc fx) (\<lambda>_. holding sg \<Phi>)"
proof -
  have "find (\<lambda>e. we_id e = ap_evaluator (pk_program (fx_key fx))) (as_evaluators sg) = None"
    using assms(5) by (auto simp: find_None_iff)
  then have "verdict env (as_evaluators sg) fx = Err (Program (UnknownEvaluator (ap_evaluator (pk_program (fx_key fx)))))"
    by (simp add: verdict_def select_module_def assms(4))
  then have "triple (holding sg \<Phi>) (test_bind (fixture_request env fl sl orc fx) (\<lambda>(request, _). refused env orc request))
      (\<lambda>e' s. holding sg \<Phi> s \<and> e' = Program (UnknownEvaluator (ap_evaluator (pk_program (fx_key fx)))))"
    by (intro triple_request_refused [OF assms(1-3)]) simp
  moreover have "refused_unknown env fl sl orc fx = test_bind (test_bind (fixture_request env fl sl orc fx)
      (\<lambda>(request, _). refused env orc request)) (\<lambda>e. assert_that (is_unknown_evaluator e))"
    unfolding refused_unknown_def by (rule bind_pair_assoc)
  ultimately show ?thesis
    by (auto intro!: triple_bind simp: triple_def assert_that_def is_unknown_evaluator_def)
qed

lemma payment_program_parts:
  obtains params where "payment_program env fl = Ok \<lparr>ap_evaluator = fl_for_wasm fl (PAY_AT_LEAST_WASM (env_deploy env)),
      ap_program = PAY_AT_LEAST_SELECTOR, ap_parameters = params\<rparr>"
    "length params \<le> MAX_PARAMETER_BYTES" "parse (env_codec env) params = Ok None" "length PAY_AT_LEAST_SELECTOR \<le> MAX_PROGRAM_BYTES"
proof -
  obtain script where s: "test_recipient fl 0x45 = Ok script" using recipient_Ok [of "0x45"] by auto
  let ?p = "u64_to_le 9000 @ u32_to_le (word_of_nat (length script)) @ script"
  have "length ?p \<le> MAX_PARAMETER_BYTES" by (simp add: recipient_length [OF s] MAX_PARAMETER_BYTES_def byte_simps)
  moreover have "parse (env_codec env) ?p = Ok None"
    by (simp add: parse_None MAGIC_def str_bytes_def payment_minimum)
  moreover have "length PAY_AT_LEAST_SELECTOR \<le> MAX_PROGRAM_BYTES"
    by (simp add: PAY_AT_LEAST_SELECTOR_def str_bytes_def MAX_PROGRAM_BYTES_def)
  ultimately show ?thesis
    by (intro that [of ?p]) (simp_all add: payment_program_def payment_parameters_def s program_new)
qed

lemma unavailable_registry_test_passes: "test_passes (unavailable_registry_test env fl sl orc)"
proof -
  obtain root sg where sg: "test_signer env fl = Ok sg" "lab_signer root sg" "as_pending sg = []" by (rule lab_signer_Ok)
  let ?sg = "sg\<lparr>as_evaluators := []\<rparr>"
  have lab: "lab_signer root ?sg" and start: "only ?sg [] \<lparr>ts_signer = ?sg, ts_calls = 0\<rparr>"
    using sg by (simp_all add: holding_start lab_signer_def)
  obtain tx where tx: "test_transaction fl = Ok tx" using test_transaction_Ok by blast
  obtain params where p: "payment_program env fl = Ok \<lparr>ap_evaluator = fl_for_wasm fl (PAY_AT_LEAST_WASM (env_deploy env)),
      ap_program = PAY_AT_LEAST_SELECTOR, ap_parameters = params\<rparr>"
    "length params \<le> MAX_PARAMETER_BYTES" "parse (env_codec env) params = Ok None" "length PAY_AT_LEAST_SELECTOR \<le> MAX_PROGRAM_BYTES"
    by (rule payment_program_parts)
  let ?p = "\<lparr>ap_evaluator = fl_for_wasm fl (PAY_AT_LEAST_WASM (env_deploy env)), ap_program = PAY_AT_LEAST_SELECTOR, ap_parameters = params\<rparr>"
  have "tx_input tx \<noteq> []" using test_transactions_ordinary(1) [OF disjI1 [OF tx]] by (simp add: ordinary_def)
  moreover have "small ?p" using p by (simp add: small_def)
  ultimately obtain fx where fx: "fixture_new env fl sl ?p tx False = Ok fx" "spendable fx" "keyed fx" "pk_program (fx_key fx) = ?p"
    using p(3) by (auto elim: fixture_new_Ok [of ?p tx False])
  let ?fx = "fx\<lparr>fx_witness := u32_to_le 0\<rparr>"
  have sp: "spendable ?fx" "keyed ?fx" using fx(2,3) by (simp_all add: spendable_def)
  have refused: "triple (only ?sg []) (refused_unknown env fl sl orc ?fx) (\<lambda>_. only ?sg [])"
    by (rule triple_refused_unknown [OF sp lab]) (simp_all add: fx(4) for_wasm inline(2))
  show ?thesis
    unfolding unavailable_registry_test_def sg(1)
    by (rule with_signer_passes [OF _ triple_pre [of "only ?sg []"]], simp, rule triple_unwrap_then [where x = fx])
      (use p(1) tx fx(1) refused start in \<open>simp_all\<close>)
qed

text \<open>A guest of version 1 has no entry point of version 2.\<close>

lemma template_unsupported:
  assumes "spendable fx" "modest (fx_input fx)" "length (fx_witness fx) \<le> MAX_WITNESS_BYTES" "length params \<le> MAX_PARAMETER_BYTES"
    and "pk_program (fx_key fx) = \<lparr>ap_evaluator = evaluator_id_wasm_v2 (env_deploy env), ap_program = TEMPLATEHASH fl, ap_parameters = params\<rparr>"
  shows "verdict env registry fx = Err (Program (EvaluationFailed ''missing export''))"
proof -
  let ?inp = "fx_input fx"
  obtain tree where "(psbt_inputs (si_psbt ?inp) ! si_input_index ?inp)\<lparr>pi_witness_utxo := None, pi_non_witness_utxo := None\<rparr> = tree_meta tree"
    using assms(1) unfolding spendable_def on_path_def by blast
  from arg_cong [OF this, of pi_tap_internal_key] tree_meta(5) [of tree]
  have "pi_tap_internal_key (psbt_inputs (si_psbt ?inp) ! si_input_index ?inp) \<noteq> None" by auto
  then obtain view where v: "encode_view (outpoint_encode (env_spend env)) V2 ?inp = Ok view"
    using encode_view_fits [of ?inp V2] modest_size [OF assms(2), of V2] by (auto simp: MAX_SIGNED_VIEW_BYTES_def)
  have "evaluate (env_rt env) (outpoint_encode (env_spend env)) V2 (TEMPLATEHASH fl) [] params ?inp (fx_witness fx) = Err ''missing export''"
    unfolding template_module using v assms(3,4)
    by (simp add: evaluate_def template_guest(4,5) guest_runtime_def alloc_name_def) (simp add: template_guest(5) [unfolded guest_runtime_def])
  then show ?thesis by (simp add: verdict_def select_module_def assms(5) inline_v2)
qed

lemma unsupported_evaluators_test_passes: "test_passes (unsupported_evaluators_test env fl sl orc)"
  unfolding unsupported_evaluators_test_def
proof (rule lab_test_passes, goal_cases)
  case (1 root sg)
  obtain tx where tx: "test_transaction fl = Ok tx" using test_transaction_Ok by blast
  let ?unknown = "\<lparr>ap_evaluator = sf_sha256 sl (str_bytes ''uninstalled evaluator''), ap_program = str_bytes ''program'', ap_parameters = []\<rparr>"
  have u: "small ?unknown" "parse (env_codec env) (ap_parameters ?unknown) = Ok None"
    by (simp_all add: small_def str_bytes_def MAX_PROGRAM_BYTES_def parse_None MAGIC_def)
  obtain ux where ux: "fixture_new env fl sl ?unknown tx False = Ok ux" "spendable ux" "keyed ux" "pk_program (fx_key ux) = ?unknown"
    by (rule test_fixture_of [OF u tx])
  have prog: "fl_program_new fl (ap_evaluator ?unknown) (str_bytes ''program'') [] = Ok ?unknown"
    using program_new [of "str_bytes ''program''" "[]"] by (simp add: str_bytes_def MAX_PROGRAM_BYTES_def)
  have reg: "\<forall>e \<in> set (as_evaluators sg). we_id e \<noteq> ap_evaluator (pk_program (fx_key ux))"
    using 1(1) uninstalled(2) by (auto simp: ux(4) test_signer_def ark_signer_new_def bind_res_eq_Ok split: if_splits)
  have refused: "triple (only sg []) (refused_unknown env fl sl orc ux) (\<lambda>_. only sg [])"
    by (rule triple_refused_unknown [OF ux(2,3) 1(2) _ reg]) (simp add: ux(4) uninstalled(1))
  let ?v2 = "\<lparr>ap_evaluator = evaluator_id_wasm_v2 (env_deploy env), ap_program = TEMPLATEHASH fl, ap_parameters = thash tx 0\<rparr>"
  have "\<not> prefix MAGIC (thash tx 0)"
    using not_magic [OF test_transactions_ordinary(2) [OF disjI1 [OF tx]]] template_program_eq by fastforce
  then have v: "small ?v2" "parse (env_codec env) (ap_parameters ?v2) = Ok None"
    using template_size by (simp_all add: small_def MAX_PARAMETER_BYTES_def parse_None)
  obtain vx where vx: "fixture_new env fl sl ?v2 tx False = Ok vx" "spendable vx" "keyed vx" "pk_program (fx_key vx) = ?v2"
    "fx_witness vx = []" "modest (fx_input vx)"
    by (rule test_fixture_of [OF v tx])
  have prog2: "fl_program_new fl (evaluator_id_wasm_v2 (env_deploy env)) (TEMPLATEHASH fl) (thash tx 0) = Ok ?v2"
    by (rule program_new) (simp_all add: template_size MAX_PARAMETER_BYTES_def)
  have invalid: "triple (only sg []) (invalid_evaluation env fl sl orc vx) (\<lambda>_. only sg [])"
    by (rule triple_invalid_evaluation [OF vx(2,3) 1(2) template_unsupported [OF vx(2,6) _ _ vx(4)]])
      (simp_all add: vx(5) MAX_WITNESS_BYTES_def MAX_PARAMETER_BYTES_def)
  obtain fx intn inst where fx: "test_fixture False fx intn inst" by (rule template_test_fixture)
  show ?case
    by (rule triple_unwrap_then [where x = ux], use prog tx ux(1) in simp, rule triple_bind [OF refused],
        rule triple_unwrap_then [where x = vx], use tx prog2 vx(1) in \<open>simp add: thash_eq\<close>, rule triple_bind [OF invalid],
        rule triple_unwrap_then [OF test_fixtureD(1) [OF fx]], rule triple_bind [OF triple_sign [OF test_fixtureD(3) [OF fx 1(1)] 1(2)]],
        rule triple_trivial)
qed

end

end
