(* ===== verification/Sweep_Tests.thy ===== *)
theory Sweep_Tests
  imports Predicate_Tests
begin

text \<open>
  The sweep test of \<open>src/src/ark_signer.rs\<close> passes. The locale \<open>vault_lab\<close> assumes that the included binary behaves
  like \<open>src/examples/vault/predicate.rs\<close> on the host.
\<close>

section \<open>Specification\<close>

locale vault_lab = spend_path_lab orc env fl sl intent_key tree_meta plain_meta tree_tweak output_maps
  for orc :: test_oracle and env :: "('m, 'i) signer_env" and fl :: fixture_lib and sl :: spend_fixture_lib
    and intent_key :: "intent \<Rightarrow> bytes" and tree_meta :: "bytes \<Rightarrow> psbt_input" and plain_meta :: psbt_input
    and tree_tweak :: "bytes \<Rightarrow> bytes option" and output_maps :: "nat \<Rightarrow> bytes \<Rightarrow> bool" +
  fixes parser :: "bytes \<Rightarrow> (string, payload) res list" and g :: guest
  assumes vault_module: "evaluate (env_rt env) enc V1 (VAULT sl) p q inp w =
      evaluate (guest_runtime parser (\<lambda>_. vault_evaluate) g) enc V1 (VAULT sl) p q inp w"
    and vault_guest: "fresh_guest g" "outpoint_codec (outpoint_encode (env_spend env))" "check_module_bytes (VAULT sl) = Ok ()"
      "check_compilation_budget (guest_runtime parser (\<lambda>_. vault_evaluate) g) V1 (VAULT sl) = Ok ()"
    and vault_size: "length (VAULT sl) \<le> MAX_PROGRAM_BYTES"
begin

text \<open>A fixture under the vault program with a fee limit and a destination.\<close>

definition vaulted :: "u64 \<Rightarrow> script \<Rightarrow> fixture \<Rightarrow> bool" where
  "vaulted limit destination fx \<longleftrightarrow> ap_evaluator (pk_program (fx_key fx)) = evaluator_id_wasm (env_deploy env) \<and>
     ap_program (pk_program (fx_key fx)) = VAULT sl \<and>
     vault_parameters limit destination = Ok (ap_parameters (pk_program (fx_key fx))) \<and>
     length (ap_parameters (pk_program (fx_key fx))) \<le> MAX_PARAMETER_BYTES \<and>
     fx_witness fx = [] \<and> spendable fx \<and> keyed fx \<and> modest (fx_input fx)"

lemma vaultedD:
  assumes "vaulted limit destination fx"
  shows "spendable fx" "keyed fx" "modest (fx_input fx)"
  using assms unfolding vaulted_def by blast+

text \<open>The host's verdict on it is the sweep policy.\<close>

lemma hosted_vault_verdict:
  assumes "vaulted limit destination fx"
  shows "verdict env registry fx = Ok (complete_sweep limit destination (fx_input fx))"
proof -
  let ?enc = "outpoint_encode (env_spend env)" and ?inp = "fx_input fx"
  have v: "ap_evaluator (pk_program (fx_key fx)) = evaluator_id_wasm (env_deploy env)" "ap_program (pk_program (fx_key fx)) = VAULT sl"
    "vault_parameters limit destination = Ok (ap_parameters (pk_program (fx_key fx)))"
    "length (ap_parameters (pk_program (fx_key fx))) \<le> MAX_PARAMETER_BYTES" "fx_witness fx = []"
    using assms unfolding vaulted_def by blast+
  have inp: "authenticated ?inp" "total_view_size V1 ?inp \<le> 40000" using modest_size [OF vaultedD(3) [OF assms]] by simp_all
  obtain view where view: "encode_view ?enc V1 ?inp = Ok view"
    using encode_view_fits [OF inp(1), of V1] inp(2) by (auto simp: MAX_SIGNED_VIEW_BYTES_def)
  have "evaluate (env_rt env) ?enc V1 (VAULT sl) [] (ap_parameters (pk_program (fx_key fx))) ?inp [] =
      Ok (complete_sweep limit destination ?inp)"
    unfolding vault_module
    using evaluate_pure_guest [OF vault_guest(1,3,4) _ v(4) _ vault_guest(2) inp(1) view, of "[]" "[]"]
      vault_evaluate_view [OF vault_guest(2) inp(1) view v(3,4)] by simp
  then show ?thesis using inline(1) v by (simp add: verdict_def select_module_def)
qed

text \<open>Another transaction over the same prevouts, with output maps to match.\<close>

lemma vaulted_change:
  assumes "vaulted limit destination fx" "psbt_unsigned_tx (si_psbt (fx_input fx)) = tx" "psbt_unsigned_tx psbt = tx'"
    and "tx_input tx' = tx_input tx" "outputs_size (tx_output tx') \<le> 10000"
    and "psbt_inputs psbt = psbt_inputs (si_psbt (fx_input fx))" "output_maps (length (tx_output tx')) (psbt_other psbt)"
  shows "vaulted limit destination (fx\<lparr>fx_input := (fx_input fx)\<lparr>si_psbt := psbt\<rparr>\<rparr>)"
proof -
  note old = vaultedD [OF assms(1)]
  have prev: "map ti_previous_output (tx_input tx') = map ti_previous_output (tx_input tx)" by (simp add: assms(4))
  note new = spendable_change [OF old(1) assms(2,3) prev assms(6,7)] modest_change [OF old(3) assms(2,3) prev assms(6,5)]
  show ?thesis using assms(1) new unfolding vaulted_def by (intro conjI) simp_all
qed

lemma sweep_fixture:
  obtains program tx fx tree script where
    "bind_res (payment_parameters fl 1000) (\<lambda>parameters.
       fl_program_new fl (evaluator_id_wasm (env_deploy env)) (VAULT sl) parameters) = Ok program"
    "test_transaction fl = Ok tx" "fixture_new env fl sl program tx True = Ok fx" "test_recipient fl 0x45 = Ok script"
    "vaulted 1000 script fx" "psbt_unsigned_tx (si_psbt (fx_input fx)) = bound_to (funding_point tree) tx"
    "si_input_index (fx_input fx) = 0" "map pi_witness_utxo (psbt_inputs (si_psbt (fx_input fx))) = [Some (funding_out tree)]"
proof -
  obtain tx where tx: "test_transaction fl = Ok tx" using test_transaction_Ok by blast
  obtain script where s: "test_recipient fl 0x45 = Ok script" "length script = 34"
    "payment_parameters fl 1000 = Ok (u64_to_le 1000 @ u32_to_le (word_of_nat (length script)) @ script)"
    by (rule fixture_parameters)
  define ps where "ps = u64_to_le 1000 @ u32_to_le (word_of_nat (length script)) @ script"
  have len: "length ps = 46" by (simp add: ps_def s(2))
  let ?program = "\<lparr>ap_evaluator = evaluator_id_wasm (env_deploy env), ap_program = VAULT sl, ap_parameters = ps\<rparr>"
  have new: "fl_program_new fl (evaluator_id_wasm (env_deploy env)) (VAULT sl) ps = Ok ?program"
    by (rule program_new) (simp_all add: vault_size len MAX_PARAMETER_BYTES_def)
  have "\<not> prefix MAGIC ps" by (simp add: ps_def u64_to_le_def MAGIC_def str_bytes_def)
  then have p: "parse (env_codec env) ps = Ok None" by (simp add: parse_None)
  have o: "ordinary tx" using tx by (simp add: tests_ordinary)
  have one: "length (tx_input tx) = 1" by (rule test_transactionE [OF tx]) simp
  have sm: "small ?program" using vault_size len by (simp add: small_def MAX_PARAMETER_BYTES_def)
  have ne: "tx_input tx \<noteq> []" using o by (simp add: ordinary_def)
  have policy: "\<exists>policy. parse (env_codec env) (ap_parameters ?program) = Ok policy \<and>
      (policy \<noteq> None \<longrightarrow> inline_wasm_version (env_spend env) (ap_evaluator ?program) \<noteq> None)" using p by simp
  obtain fx tree other where fx: "fixture_new env fl sl ?program tx True = Ok fx" "spendable fx" "keyed fx"
    "pk_program (fx_key fx) = ?program" "fx_witness fx = []"
    "psbt_unsigned_tx (si_psbt (fx_input fx)) = bound_to (funding_point tree) tx" "si_input_index (fx_input fx) = 0"
    "psbt_inputs (si_psbt (fx_input fx)) = input_maps tree other (length (tx_input tx))" "test_recipient fl 0x46 = Ok other"
    by (rule fixture_new_Ok [OF sm ne policy])
  note modest = input_maps_modest [OF o fx(9,6-8)]
  have "vaulted 1000 script fx"
    unfolding vaulted_def using fx(2-5) modest len s(2)
    by (intro conjI) (simp_all add: vault_parameters_eq_Ok ps_def MAX_PARAMETER_BYTES_def)
  with fx tx s(1,3) new one show ?thesis
    by (intro that [of ?program tx fx script tree]) (simp_all add: ps_def [symmetric] input_maps_def)
qed

text \<open>The test's transactions: only the first two are complete sweeps within the limit.\<close>

lemma complete_sweep_outputs:
  assumes "psbt_unsigned_tx (si_psbt inp) = tx" "length (tx_input tx) = 1" "si_input_index inp = 0"
    and "map pi_witness_utxo (psbt_inputs (si_psbt inp)) = [Some out]"
  shows "complete_sweep limit destination inp \<longleftrightarrow>
    (case tx_output tx of
       [o'] \<Rightarrow> txo_script_pubkey o' = destination \<and> 330 \<le> unat (txo_value o') \<and> unat (txo_value o') \<le> unat (txo_value out) \<and>
         unat (txo_value out) \<le> unat (txo_value o') + unat limit
     | _ \<Rightarrow> False)"
proof -
  obtain m where "psbt_inputs (si_psbt inp) = [m]" "pi_witness_utxo m = Some out" using assms(4) by auto
  with assms(1-3) show ?thesis
    by (auto simp: complete_sweep_def prevouts_def Let_def length_Suc_conv split: list.splits)
qed

lemma sweep_mutation:
  assumes "test_transaction fl = Ok tx" "test_recipient fl 0x45 = Ok script" "mutate \<in> set (sweep_mutations fl)"
  shows "\<exists>outs. mutate (bound_to p tx) = Ok ((bound_to p tx)\<lparr>tx_output := outs\<rparr>) \<and> outputs_size outs \<le> 10000 \<and>
    \<not> (\<exists>o'. outs = [o'] \<and> txo_script_pubkey o' = script \<and> 9000 \<le> unat (txo_value o') \<and> unat (txo_value o') \<le> 10000)"
proof -
  obtain other where other: "test_recipient fl 0x49 = Ok other" using recipient_Ok [of "0x49"] by auto
  have "other \<noteq> script" using recipient_eq [OF other assms(2)] by simp
  moreover have "tx_output (bound_to p tx) = [\<lparr>txo_value = 9000, txo_script_pubkey = script\<rparr>]"
    by (rule test_transactionE [OF assms(1)]) (use assms(2) in simp)
  ultimately have "\<exists>outs \<in> {[\<lparr>txo_value = 8999, txo_script_pubkey = script\<rparr>], [\<lparr>txo_value = 10001, txo_script_pubkey = script\<rparr>],
      [\<lparr>txo_value = 9000, txo_script_pubkey = other\<rparr>],
      [\<lparr>txo_value = 9000, txo_script_pubkey = script\<rparr>, \<lparr>txo_value = 330, txo_script_pubkey = other\<rparr>]}.
      mutate (bound_to p tx) = Ok ((bound_to p tx)\<lparr>tx_output := outs\<rparr>)"
    using assms(3) other unfolding sweep_mutations_def set_recipient_def
    by (auto simp: edit_output_def edit_nth_def set_script_def set_value_def TEST_FUNDING_def)
  then obtain outs where outs: "outs \<in> {[\<lparr>txo_value = 8999, txo_script_pubkey = script\<rparr>], [\<lparr>txo_value = 10001, txo_script_pubkey = script\<rparr>],
      [\<lparr>txo_value = 9000, txo_script_pubkey = other\<rparr>],
      [\<lparr>txo_value = 9000, txo_script_pubkey = script\<rparr>, \<lparr>txo_value = 330, txo_script_pubkey = other\<rparr>]}"
      "mutate (bound_to p tx) = Ok ((bound_to p tx)\<lparr>tx_output := outs\<rparr>)"
    by (rule bexE)
  have "outputs_size outs \<le> 10000"
    using outs(1) recipient_length [OF assms(2)] recipient_length [OF other] by auto
  moreover have "\<not> (\<exists>o'. outs = [o'] \<and> txo_script_pubkey o' = script \<and> 9000 \<le> unat (txo_value o') \<and> unat (txo_value o') \<le> 10000)"
    using outs(1) \<open>other \<noteq> script\<close> by (elim insertE emptyE) auto
  ultimately show ?thesis using outs(2) by (intro exI [of _ outs] conjI)
qed

lemma triple_vault_sign:
  assumes v: "vaulted limit destination fx" "complete_sweep limit destination (fx_input fx)" "lab_signer root sg"
  shows "triple (only sg []) (fixture_sign env fl sl orc fx) (\<lambda>_. only sg [])"
proof -
  obtain intn where i: "spend_intent env fl sl fx intn" by (rule spendable_intent [OF vaultedD(1,2) [OF v(1)]])
  have "verdict env (as_evaluators sg) fx = Ok True" using hosted_vault_verdict [OF v(1)] v(2) by simp
  from triple_sign [OF spendable_ready(1) [OF vaultedD(1,2) [OF v(1)] i v(3) this] v(3)]
  show ?thesis by (rule triple_conseq) simp_all
qed

lemma triple_vault_refused:
  assumes v: "vaulted limit destination fx" "\<not> complete_sweep limit destination (fx_input fx)" "lab_signer root sg"
  shows "triple (holding sg \<Phi>) (predicate_refused env fl sl orc fx) (\<lambda>_. holding sg \<Phi>)"
  by (rule triple_predicate_refused [OF vaultedD(1,2) [OF v(1)] v(3)]) (simp add: hosted_vault_verdict [OF v(1)] v(2))

lemma sweep_test_passed: "test_passes (sweep_test env fl sl orc)"
  unfolding sweep_test_def
proof (rule lab_test_passes, goal_cases)
  case (1 root sg)
  obtain program tx fx tree script where fx: "bind_res (payment_parameters fl 1000) (\<lambda>parameters.
       fl_program_new fl (evaluator_id_wasm (env_deploy env)) (VAULT sl) parameters) = Ok program"
    "test_transaction fl = Ok tx" "fixture_new env fl sl program tx True = Ok fx" "test_recipient fl 0x45 = Ok script"
    "vaulted 1000 script fx" "psbt_unsigned_tx (si_psbt (fx_input fx)) = bound_to (funding_point tree) tx"
    "si_input_index (fx_input fx) = 0" "map pi_witness_utxo (psbt_inputs (si_psbt (fx_input fx))) = [Some (funding_out tree)]"
    by (rule sweep_fixture)
  let ?tx = "bound_to (funding_point tree) tx"
  have tx: "length (tx_input ?tx) = 1" "tx_output ?tx = [\<lparr>txo_value = 9000, txo_script_pubkey = script\<rparr>]"
    by (rule test_transactionE [OF fx(2)], use fx(4) in simp)+
  have sweeps: "complete_sweep 1000 script ((fx_input fx)\<lparr>si_psbt := psbt\<rparr>) \<longleftrightarrow>
      (\<exists>o'. outs = [o'] \<and> txo_script_pubkey o' = script \<and> 9000 \<le> unat (txo_value o') \<and> unat (txo_value o') \<le> 10000)"
    if "psbt_unsigned_tx psbt = ?tx\<lparr>tx_output := outs\<rparr>" "psbt_inputs psbt = psbt_inputs (si_psbt (fx_input fx))" for outs psbt
    using complete_sweep_outputs [of "(fx_input fx)\<lparr>si_psbt := psbt\<rparr>" "?tx\<lparr>tx_output := outs\<rparr>" "funding_out tree" 1000 script]
      that tx(1) fx(7,8) by (auto simp: funding_out_def TEST_FUNDING_def split: list.splits)
  have maps: "output_maps 1 (psbt_other (si_psbt (fx_input fx)))"
    using vaultedD(1) [OF fx(5)] fx(6) tx(2) by (simp add: spendable_def)
  let ?lower = "?tx\<lparr>tx_output := [\<lparr>txo_value = 10000, txo_script_pubkey = script\<rparr>]\<rparr>"
  let ?psbt = "(si_psbt (fx_input fx))\<lparr>psbt_unsigned_tx := ?lower\<rparr>"
  let ?fx = "fx\<lparr>fx_input := (fx_input fx)\<lparr>si_psbt := ?psbt\<rparr>\<rparr>"
  have "edit_output 0 (set_value TEST_FUNDING) ?tx = Ok ?lower"
    using tx(2) by (simp add: edit_output_def edit_nth_def set_value_def TEST_FUNDING_def)
  note lower = change_tx_eq [where f = "edit_output 0 (set_value TEST_FUNDING)", OF fx(6) this]
  have v: "vaulted 1000 script ?fx"
    by (rule vaulted_change [OF fx(5,6), of _ ?lower]) (use maps recipient_length [OF fx(4)] in simp_all)
  have mutations: "triple (only sg []) (test_bind (unwrap (change_tx mutate fx)) (\<lambda>changed.
      predicate_refused env fl sl orc (resized sl changed))) (\<lambda>_. only sg [])" if m: "mutate \<in> set (sweep_mutations fl)" for mutate
  proof -
    obtain outs where o: "mutate ?tx = Ok (?tx\<lparr>tx_output := outs\<rparr>)" "outputs_size outs \<le> 10000"
      "\<not> (\<exists>o'. outs = [o'] \<and> txo_script_pubkey o' = script \<and> 9000 \<le> unat (txo_value o') \<and> unat (txo_value o') \<le> 10000)"
      using sweep_mutation [OF fx(2,4) m] by blast
    let ?c = "(si_psbt (fx_input fx))\<lparr>psbt_unsigned_tx := ?tx\<lparr>tx_output := outs\<rparr>\<rparr>"
    let ?p = "sf_resize_outputs sl (length outs) ?c"
    let ?r = "fx\<lparr>fx_input := (fx_input fx)\<lparr>si_psbt := ?p\<rparr>\<rparr>"
    note c = change_tx_eq [where f = mutate, OF fx(6) o(1)]
    have r: "resized sl (fx\<lparr>fx_input := (fx_input fx)\<lparr>si_psbt := ?c\<rparr>\<rparr>) = ?r" by (simp add: resized_def)
    have w: "vaulted 1000 script ?r"
      by (rule vaulted_change [OF fx(5,6), of _ "?tx\<lparr>tx_output := outs\<rparr>"]) (simp_all add: resize_outputs o(2))
    have "\<not> complete_sweep 1000 script (fx_input ?r)" using o(3) sweeps [of ?p outs] by (simp add: resize_outputs)
    from triple_vault_refused [OF w this 1(2)] show ?thesis
      by (intro triple_unwrap_then [OF c]) (simp add: r)
  qed
  have original: "bind_res (payment_parameters fl 1000) (\<lambda>parameters.
      bind_res (fl_program_new fl (evaluator_id_wasm (env_deploy env)) (VAULT sl) parameters) (\<lambda>program.
      bind_res (test_transaction fl) (\<lambda>tx. fixture_new env fl sl program tx True))) = Ok fx"
    using fx(1-3) by (auto simp: bind_res_eq_Ok)
  have "complete_sweep 1000 script (fx_input fx)"
    using sweeps [of "si_psbt (fx_input fx)" "tx_output ?tx"] fx(6) tx(2) by simp
  note sign_original = triple_vault_sign [OF fx(5) this 1(2)]
  have "complete_sweep 1000 script (fx_input ?fx)" using sweeps [of ?psbt] by simp
  note sign_lower = triple_vault_sign [OF v this 1(2)]
  show ?case
    by (rule triple_unwrap_then [OF original], rule triple_bind [OF sign_original], rule triple_unwrap_then [OF lower],
        rule triple_bind [OF sign_lower], rule triple_conseq [OF triple_for_each [where I = "\<lambda>_. only sg []"]])
      (use mutations in simp_all)
qed

end

end
