(* ===== verification/Sample_Lab.thy ===== *)
theory Sample_Lab
  imports Template_Tests Sweep_Tests
begin

text \<open>
  An environment with the documented behaviour the spend tests rely on: the locales of the tests are interpreted
  on it. Its cryptography is symbolic: a signature hash, a session and a signature are injective encodings of
  what they commit to, and a share is valid for exactly the session it was made in.
\<close>

section \<open>Encodings\<close>

text \<open>A byte string and a rest, so that both can be read back.\<close>

definition pack :: "bytes \<Rightarrow> bytes \<Rightarrow> bytes" where
  "pack xs ys = concat (map (\<lambda>b. [1, b]) xs) @ 0 # ys"

fun unpack :: "bytes \<Rightarrow> bytes \<times> bytes" where
  "unpack (t # b # r) = (if t = 1 then apfst ((#) b) (unpack r) else ([], b # r))"
| "unpack _ = ([], [])"

lemma unpack_pack [simp]: "unpack (pack xs ys) = (xs, ys)"
proof (induction xs)
  case Nil
  then show ?case by (cases ys) (simp_all add: pack_def)
qed (simp add: pack_def)

lemma pack_inj [simp]: "pack xs ys = pack xs' ys' \<longleftrightarrow> xs = xs' \<and> ys = ys'"
  by (metis Pair_inject unpack_pack)

fun pack_list :: "bytes list \<Rightarrow> bytes" where
  "pack_list [] = [0]"
| "pack_list (x # xs) = 1 # pack x (pack_list xs)"

lemma pack_list_inj [simp]: "pack_list xs = pack_list ys \<longleftrightarrow> xs = ys"
  by (induction xs arbitrary: ys; case_tac ys; auto)

definition pack_in :: "tx_in \<Rightarrow> bytes" where
  "pack_in i = pack (op_txid (ti_previous_output i)) (u32_to_le (op_vout (ti_previous_output i)) @ u32_to_le (ti_sequence i))"

definition pack_out :: "tx_out \<Rightarrow> bytes" where
  "pack_out out = pack (txo_script_pubkey out) (u64_to_le (txo_value out))"

lemma pack_tx_inj: "inj pack_in" "inj pack_out"
  by (auto intro!: injI simp: pack_in_def pack_out_def)

definition pack_spend :: "transaction \<Rightarrow> tx_out list \<Rightarrow> hash" where
  "pack_spend tx outs = u32_to_le (tx_version tx) @ u32_to_le (tx_lock_time tx) @
     pack (pack_list (map pack_in (tx_input tx))) (pack (pack_list (map pack_out (tx_output tx))) (pack_list (map pack_out outs)))"

lemma pack_spend_inj: "pack_spend tx outs = pack_spend tx' outs' \<longleftrightarrow> tx = tx' \<and> outs = outs'"
  by (auto simp: pack_spend_def inj_map_eq_map pack_tx_inj)

section \<open>A spend environment\<close>

definition spent_outputs :: "signing_input \<Rightarrow> tx_out list option" where
  "spent_outputs inp = those (map pi_witness_utxo (psbt_inputs (si_psbt inp)))"

definition sample_sighash :: "signing_input \<Rightarrow> hash result" where
  "sample_sighash inp = (case spent_outputs inp of
     None \<Rightarrow> Err (Msg ''prevout'') | Some outs \<Rightarrow> Ok (pack_spend (psbt_unsigned_tx (si_psbt inp)) outs))"

text \<open>The key a signature verifies under: the wallet's group, or the key of the spent output.\<close>

definition sample_signing_key :: "signing_input \<Rightarrow> bytes option" where
  "sample_signing_key inp = (if si_script_leaf inp \<noteq> None then Some (replicate 32 3)
     else Option.bind (list_get (psbt_inputs (si_psbt inp)) (si_input_index inp)) (\<lambda>m.
       Option.bind (pi_witness_utxo m) (\<lambda>out.
       if 2 \<le> length (txo_script_pubkey out) then Some (drop 2 (txo_script_pubkey out)) else None)))"

definition session_signature :: "bytes \<Rightarrow> bytes" where
  "session_signature s = (case unpack s of (m, r) \<Rightarrow> pack m (fst (unpack r)))"

text \<open>A digest of the length and a few positions, which tells the templates of the tests apart.\<close>

definition digest_positions :: "nat list" where
  "digest_positions = [0, 4, 42, 43, 64, 68, 72, 73, 74, 104, 107, 108, 137]"

definition position_sha :: "bytes \<Rightarrow> bytes" where
  "position_sha bs = word_of_nat (length bs) # map (\<lambda>i. if i < length bs then bs ! i else 0) digest_positions @ replicate 18 0"

definition sample_tree_meta :: psbt_input where
  "sample_tree_meta = \<lparr>pi_witness_utxo = None, pi_tap_internal_key = Some (replicate 32 1), pi_final_script_sig = None,
     pi_final_script_witness = None, pi_tap_merkle_root = None, pi_non_witness_utxo = None, pi_sighash_type = None,
     pi_tap_scripts = [([192], [81], 192)], pi_other = []\<rparr>"

definition sample_plain_meta :: psbt_input where
  "sample_plain_meta = sample_tree_meta\<lparr>pi_tap_internal_key := None, pi_tap_scripts := []\<rparr>"

definition sample_key_spend :: "transaction \<Rightarrow> nat \<Rightarrow> tx_out list \<Rightarrow> bytes \<Rightarrow> pubkey list \<Rightarrow> signing_input result" where
  "sample_key_spend tx i outs tree parts =
     (if length outs \<noteq> length (tx_input tx) \<or> length outs \<le> i then Err (Msg ''prevouts'')
      else Ok \<lparr>si_psbt = \<lparr>psbt_unsigned_tx = tx,
          psbt_inputs = (map (\<lambda>out. sample_plain_meta\<lparr>pi_witness_utxo := Some out\<rparr>) outs)
            [i := sample_tree_meta\<lparr>pi_witness_utxo := Some (outs ! i)\<rparr>],
          psbt_other = replicate (length (tx_output tx)) 0\<rparr>,
        si_input_index = i, si_script_leaf = None, si_participants = parts, si_tweak = None, si_other = []\<rparr>)"

definition check_res :: "bool \<Rightarrow> unit result" where
  "check_res b = (if b then Ok () else Err (Msg ''invalid''))"

definition sample_spend_fixture_lib :: spend_fixture_lib where
  "sample_spend_fixture_lib =
     \<lparr>sf_sha256 = position_sha, sf_serialize_output = ser_output, sf_taproot = (\<lambda>_ _ _. []),
      sf_tree_script = (\<lambda>_. [81, 32] @ replicate 32 3), sf_compute_txid = (\<lambda>_. replicate 32 8),
      sf_tx_in_default = \<lparr>ti_previous_output = sample_outpoint, ti_sequence = 0\<rparr>,
      sf_key_spend = sample_key_spend, sf_claim_tapscript = (\<lambda>_ _. [81]), sf_leaf_hash = (\<lambda>s. s),
      sf_program_pubkey = (\<lambda>_. Ok [9]),
      sf_from_input = (\<lambda>inp server w. Ok \<lparr>sr_witness = w, sr_input = inp, sr_server = server, sr_other = []\<rparr>),
      sf_nonce_pair_with_msg = (\<lambda>seed kp _. (seed, 3 # seed)), sf_nonce_serialize = (\<lambda>n. n),
      sf_aggregate_nonce = (\<lambda>s. s), sf_group_nonce = (\<lambda>_. replicate 66 4),
      sf_negate_point = (\<lambda>p. Ok (map (\<lambda>_. 5) p)), sf_nonce_from_byte_array = Ok, sf_intent_tweak = (\<lambda>_. None),
      sf_session_message = (\<lambda>s. fst (unpack s)), sf_session_tweak = (\<lambda>_. None),
      sf_partial_sign = (\<lambda>_ agg _ _ _ _. 9 # agg), sf_partial_serialize = (\<lambda>p. p),
      sf_verify_member = (\<lambda>s _ p. check_res (p = 7 # s)), sf_aggregate = (\<lambda>s _ _. Ok (session_signature s)),
      sf_combine_members = (\<lambda>s _. Ok s), sf_combine_partial_signatures = (\<lambda>_ agg _ _ _. session_signature agg),
      sf_verify_signature = (\<lambda>inp sig. bind_res (sample_sighash inp) (\<lambda>m.
        check_res (case sample_signing_key inp of None \<Rightarrow> False | Some k \<Rightarrow> sig = pack m k))),
      sf_script_spend_sighash = (\<lambda>tx _ outs _. Ok (pack_spend tx outs)),
      sf_key_spend_sighash = (\<lambda>tx _ outs. Ok (pack_spend tx outs)), sf_xonly_from_slice = Ok,
      sf_pubkey_x_only = (\<lambda>_. replicate 32 3), sf_verify_schnorr = (\<lambda>sig m k. check_res (sig = pack m k)),
      sf_claim_witness = (\<lambda>_ _ sig control. [sig, [81], control]), sf_claim_sequence = (\<lambda>_ _. word_of_nat EXIT_DELAY),
      sf_resize_outputs = (\<lambda>n psbt. psbt\<lparr>psbt_other := replicate n 0\<rparr>), VAULT = WASM_HEADER @ [10]\<rparr>"

text \<open>The Ark library: texts of nonces and shares start with an x, a spend without proof is refused, and a
  session is what it signs, under which key, with which nonce of the program.\<close>

definition x_encode :: "bytes \<Rightarrow> string" where
  "x_encode bs = CHR ''x'' # map (\<lambda>b. char_of (unat b)) bs"

definition x_decode :: "string \<Rightarrow> bytes result" where
  "x_decode s = (case s of c # r \<Rightarrow> if c = CHR ''x'' then Ok (str_bytes r) else Err (Msg ''hex'') | [] \<Rightarrow> Err (Msg ''hex''))"

definition sample_spend_intent :: "spend_request \<Rightarrow> program_key \<Rightarrow> intent result" where
  "sample_spend_intent rq key =
     (if \<not> proven sample_spend_fixture_lib (sr_input rq) then Err (Msg ''unproven'')
      else if pi_sighash_type (psbt_inputs (si_psbt (sr_input rq)) ! si_input_index (sr_input rq)) \<noteq> None then Err (Msg ''sighash'')
      else bind_res (sample_sighash (sr_input rq)) (\<lambda>m.
        bind_res (ok_or (Msg ''key'') (sample_signing_key (sr_input rq))) (\<lambda>k.
        Ok \<lparr>in_message = m, in_members = (pk_user_pubkey key, [9]), in_server = sr_server rq, in_other = k\<rparr>)))"

definition sample_session :: "intent \<Rightarrow> member_nonce \<times> member_nonce \<Rightarrow> bytes option \<Rightarrow> bytes result" where
  "sample_session intn ns sn =
     (if (sn = None) \<noteq> (in_server intn = None) then Err (Msg ''server nonce'')
      else if sn = Some (replicate 66 5) then Err (Msg ''nonce cancels'')
      else Ok (pack (in_message intn) (pack (in_other intn) (snd ns))))"

definition sample_spend_ark :: ark_lib where
  "sample_spend_ark = sample_ark\<lparr>
     action_intent := (\<lambda>action key. case action of
         Spend rq \<Rightarrow> sample_spend_intent rq key | Ownership _ \<Rightarrow> action_intent sample_ark action key),
     parse_nonce := (\<lambda>s. bind_res (x_decode s) (\<lambda>bs. if bs = replicate 66 0 then Err (Msg ''nonce'') else Ok bs)),
     parse_partial := x_decode, hex_encode := x_encode,
     spend_signing_input := (\<lambda>rq _. Ok (sr_input rq)),
     nonce_sign := (\<lambda>_ _ s. Ok (7 # s)), session_new := sample_session,
     verify_server := (\<lambda>s p. check_res (p = 9 # s))\<rparr>"

definition sample_signing_lib :: spend_lib where
  "sample_signing_lib = sample_spend_lib\<lparr>sighash := sample_sighash,
     annex_get := (\<lambda>m. Ok (if pi_other m = [] then None else Some (pi_other m))),
     inline_wasm_version := (\<lambda>h. if h = [1] then Some V1 else if h = [2] then Some V2 else None)\<rparr>"

definition sample_spend_env :: "('m, 'i) wasm_runtime \<Rightarrow> ('m, 'i) signer_env" where
  "sample_spend_env rt = \<lparr>env_rt = rt, env_spend = sample_signing_lib, env_codec = env_codec sample_lab_env,
     env_deploy = sample_deployment, env_ark = sample_spend_ark\<rparr>"

section \<open>Its behaviour\<close>

lemma sample_spend_env_sel [simp]:
  "env_rt (sample_spend_env rt) = rt" "env_spend (sample_spend_env rt) = sample_signing_lib"
  "env_codec (sample_spend_env rt) = env_codec sample_lab_env"
  "env_deploy (sample_spend_env rt) = sample_deployment" "env_ark (sample_spend_env rt) = sample_spend_ark"
  by (simp_all add: sample_spend_env_def)

lemma check_res_simps [simp]: "check_res b = Ok () \<longleftrightarrow> b" "check_res b \<noteq> Panic" "check_res b = Err e \<longleftrightarrow> \<not> b \<and> e = Msg ''invalid''"
  by (auto simp: check_res_def)

lemma x_decode_encode [simp]: "x_decode (x_encode bs) = Ok bs"
  by (simp add: x_decode_def x_encode_def str_bytes_chars)

lemma x_decode_not_Panic [simp]: "x_decode s \<noteq> Panic"
  by (simp add: x_decode_def split: list.splits)

lemmas sample_spend_defs = sample_spend_ark_def sample_ark_def sample_signing_lib_def sample_spend_lib_def
  sample_spend_fixture_lib_def

lemma sample_ownership: "ownership_lab sample_test_oracle (sample_spend_env rt) sample_fixture_lib"
proof unfold_locales
  show "\<exists>bs d. fl_json_to_vec sample_fixture_lib obj = Ok bs \<and> document_of_json obj = Some d \<and>
      document_from_slice (env_codec (sample_spend_env rt)) bs = Ok d \<and> length bs \<le> 60000"
    if "obj \<in> set (test_documents sample_fixture_lib)" for obj
    using documents_decode [OF that] by (simp add: sample_fixture_lib_def sample_json_def)
qed (auto simp: sample_keys sample_root_def sample_evaluators sample_ids sample_spend_defs
    str_bytes_chars sample_fixture_sel Cons_replicate_eq numeral_eq_Suc)

lemma sample_intentD:
  assumes "spend_intent (sample_spend_env rt) sample_fixture_lib sample_spend_fixture_lib fx intn"
  shows "sample_sighash (fx_input fx) = Ok (in_message intn)" "sample_signing_key (fx_input fx) = Some (in_other intn)"
  using assms
  by (auto simp: spend_intent_def fixture_action_def sample_spend_defs sample_spend_intent_def bind_res_eq_Ok ok_or_eq_Ok
      split: if_splits)

lemma sample_session_eq_Ok: "sample_session intn ns sn = Ok s \<longleftrightarrow> (sn = None \<longleftrightarrow> in_server intn = None) \<and>
    sn \<noteq> Some (replicate 66 5) \<and> s = pack (in_message intn) (pack (in_other intn) (snd ns))"
  by (auto simp: sample_session_def)

lemma those_Some: "those (map Some xs) = Some xs"
  by (induction xs) simp_all

lemma those_eq: "those xs = Some ys \<longleftrightarrow> xs = map Some ys"
  by (induction xs arbitrary: ys) (auto split: option.splits)

lemma sample_sighash_eq_Ok: "sample_sighash inp = Ok h \<longleftrightarrow> (\<exists>outs. map pi_witness_utxo (psbt_inputs (si_psbt inp)) = map Some outs \<and>
    h = pack_spend (psbt_unsigned_tx (si_psbt inp)) outs)"
  by (auto simp: sample_sighash_def spent_outputs_def those_eq those_Some split: option.splits)

lemma sample_spend_sel:
  "session_new sample_spend_ark = sample_session" "hex_encode sample_spend_ark = x_encode" "parse_partial sample_spend_ark = x_decode"
  "parse_nonce sample_spend_ark t = bind_res (x_decode t) (\<lambda>bs. if bs = replicate 66 0 then Err (Msg ''nonce'') else Ok bs)"
  "verify_server sample_spend_ark s p = check_res (p = 9 # s)" "nonce_sign sample_spend_ark n kp s = Ok (7 # s)"
  "nonce_new sample_spend_ark seed intn p = Ok seed" "nonce_public sample_spend_ark n = 1 # n"
  "derive_priv sample_spend_ark x path = Ok x" "add_xonly_tweak sample_spend_ark kp tweak = Ok kp"
  "derive_public_key sample_spend_ark inst xp = Ok [9]" "even_public_key sample_spend_ark k = k"
  "action_intent sample_spend_ark (Spend rq) key = sample_spend_intent rq key"
  "spend_signing_input sample_spend_ark rq key = Ok (sr_input rq)"
  "sighash sample_signing_lib = sample_sighash" "validate_psbt sample_signing_lib psbt = Ok ()"
  "annex_get sample_signing_lib m = Ok (if pi_other m = [] then None else Some (pi_other m))" "outpoint_encode sample_signing_lib = sample_enc"
  "inline_wasm_version sample_signing_lib h = (if h = [1] then Some V1 else if h = [2] then Some V2 else None)"
  by (simp_all add: sample_spend_defs)

lemma sample_cancels: "negate_points (\<lambda>p. Ok (map (\<lambda>_. 5) p)) 2 (replicate 66 4) = Ok (replicate 66 5)"
  by (simp add: numeral_eq_Suc)

lemma Cons_neq_replicate: "x \<noteq> y \<Longrightarrow> x # xs \<noteq> replicate n y" "x \<noteq> y \<Longrightarrow> replicate n y \<noteq> x # xs"
  by (cases n; simp)+

lemma sample_refusals: "x_decode ''not-hex'' = Err (Msg ''hex'')"
  "(sn = None) \<noteq> (in_server intn = None) \<Longrightarrow> sample_session intn ns sn = Err (Msg ''server nonce'')"
  by (simp_all add: x_decode_def sample_session_def)

lemmas sample_nonces_differ = Cons_neq_replicate replicate_eq_replicate

interpretation sample_musig: musig_lab sample_test_oracle "sample_spend_env rt" sample_fixture_lib
    sample_spend_fixture_lib in_other for rt
proof (rule musig_lab.intro [OF sample_ownership], unfold_locales, goal_cases)
  case (4 a intn n b n' sn)
  then show ?case
    by (cases "in_server intn") (force simp: sample_spend_sel sample_session_eq_Ok sample_spend_fixture_lib_def sample_nonces_differ)+
next
  case (13 fx intn n pn sn s user us ps sp)
  then show ?case
    by (auto simp: sample_spend_sel sample_session_eq_Ok sample_spend_fixture_lib_def session_signature_def)
next
  case (14 fx intn sig)
  note i = sample_intentD [OF this]
  show ?case by (simp add: sample_spend_fixture_lib_def i)
next
  case (15 inp h outs)
  then show ?case
    by (auto simp: sample_spend_sel sample_sighash_eq_Ok sample_spend_fixture_lib_def inj_map_eq_map split: option.splits)
next
  case (16 fx intn)
  note i = sample_intentD(2) [OF 16(1)]
  from i 16(2) show ?case by (simp add: sample_fixture_sel sample_spend_fixture_lib_def sample_signing_key_def)
next
  case (17 fx intn out)
  note i = sample_intentD(2) [OF 17(1)]
  from i 17(2,3) show ?case
    by (auto simp: sample_spend_fixture_lib_def sample_signing_key_def bind_eq_Some_conv list_get_eq_Some split: if_splits)
next
  case (25 intn ns sn s)
  then show ?case
    by (auto simp: sample_spend_sel sample_spend_fixture_lib_def sample_cancels sample_session_def sample_nonces_differ)
qed (auto simp: sample_spend_sel sample_session_eq_Ok sample_spend_fixture_lib_def sample_refusals sample_nonces_differ
    sample_test_oracle_def bind_res_eq_Panic split: if_splits)

interpretation sample_spends: spend_lab sample_test_oracle "sample_spend_env rt" sample_fixture_lib sample_spend_fixture_lib
    in_other "\<lambda>_. sample_tree_meta" sample_plain_meta "\<lambda>_. None" "\<lambda>n bs. length bs = n" for rt
  by unfold_locales (auto simp: sample_tree_meta_def sample_plain_meta_def sample_spend_fixture_lib_def sample_spend_sel
      sample_key_spend_def sample_spend_intent_def)

lemma sample_spendable:
  assumes "sample_spends.spendable fx"
  shows "proven sample_spend_fixture_lib (fx_input fx)" "\<exists>k. sample_signing_key (fx_input fx) = Some k"
    "\<exists>h. sample_sighash (fx_input fx) = Ok h"
    "pi_sighash_type (psbt_inputs (si_psbt (fx_input fx)) ! si_input_index (fx_input fx)) = None"
    "pi_other (psbt_inputs (si_psbt (fx_input fx)) ! si_input_index (fx_input fx)) = []"
proof -
  let ?inp = "fx_input fx" and ?m = "psbt_inputs (si_psbt (fx_input fx)) ! si_input_index (fx_input fx)"
  have "?m\<lparr>pi_witness_utxo := None, pi_non_witness_utxo := None\<rparr> = sample_tree_meta"
    using assms unfolding sample_spends.spendable_def sample_spends.on_path_def by blast
  then have "pi_sighash_type (?m\<lparr>pi_witness_utxo := None, pi_non_witness_utxo := None\<rparr>) = None"
    "pi_other (?m\<lparr>pi_witness_utxo := None, pi_non_witness_utxo := None\<rparr>) = []" by (simp_all only: sample_tree_meta_def psbt_input.simps)
  then show "pi_sighash_type ?m = None" "pi_other ?m = []" by simp_all
  show p: "proven sample_spend_fixture_lib ?inp" using assms by (simp add: sample_spends.spendable_def)
  obtain out where out: "pi_witness_utxo (psbt_inputs (si_psbt ?inp) ! si_input_index ?inp) = Some out" "2 \<le> length (txo_script_pubkey out)"
    using assms unfolding sample_spends.spendable_def sample_spends.on_path_def by (auto simp: sample_spend_fixture_lib_def)
  show "\<exists>k. sample_signing_key ?inp = Some k"
    using p out by (simp add: sample_signing_key_def list_get_def proven_def Let_def)
  have all: "list_all (\<lambda>m. pi_witness_utxo m \<noteq> None) ms \<Longrightarrow> \<exists>outs. map pi_witness_utxo ms = map Some outs" for ms
    by (induction ms) (force intro: exI [of _ "_ # _"])+
  have "list_all (\<lambda>m. pi_witness_utxo m \<noteq> None) (psbt_inputs (si_psbt ?inp))" using p unfolding proven_def Let_def by blast
  from all [OF this] show "\<exists>h. sample_sighash ?inp = Ok h" by (auto simp: sample_sighash_eq_Ok)
qed

interpretation sample_paths: spend_path_lab sample_test_oracle "sample_spend_env rt" sample_fixture_lib sample_spend_fixture_lib
    in_other "\<lambda>_. sample_tree_meta" sample_plain_meta "\<lambda>_. None" "\<lambda>n bs. length bs = n" for rt
proof (unfold_locales, goal_cases)
  case (1 fx w rq x)
  from sample_spendable [OF 1(1)] 1(2,3) show ?case
    by (auto simp: sample_spend_sel sample_spend_fixture_lib_def sample_spend_intent_def)
next
  case (3 fx)
  from sample_spendable(5) [OF 3] show ?case by (simp add: sample_spend_sel)
next
  case (4 inp h inp')
  then show ?case by (auto simp: sample_spend_sel sample_sighash_eq_Ok pack_spend_inj)
qed (auto simp: sample_spend_sel sample_spend_fixture_lib_def)

lemma sample_guest_module: "check_module_bytes (WASM_HEADER @ [b]) = Ok ()"
  "check_compilation_budget (guest_runtime (\<lambda>_. []) evaluator g) version (WASM_HEADER @ [b]) = Ok ()"
  "length (WASM_HEADER @ [b]) \<le> MAX_PROGRAM_BYTES"
  by (simp_all add: check_module_bytes_def WASM_HEADER_def MAX_PROGRAM_BYTES_def check_compilation_budget_def)

definition sample_vault_runtime :: "(unit, guest) wasm_runtime" where
  "sample_vault_runtime = guest_runtime (\<lambda>_. []) (\<lambda>_. vault_evaluate) sample_guest"

interpretation sample_vaults: vault_lab sample_test_oracle "sample_spend_env sample_vault_runtime" sample_fixture_lib
    sample_spend_fixture_lib in_other "\<lambda>_. sample_tree_meta" sample_plain_meta "\<lambda>_. None" "\<lambda>n bs. length bs = n"
    "\<lambda>_. []" sample_guest
  by unfold_locales (simp_all add: sample_vault_runtime_def sample_guest_fresh sample_spend_sel sample_enc_codec
      sample_spend_fixture_lib_def sample_guest_module sample_guest_module(3) [simplified])

text \<open>The digest can be read back on what the template-hash tests hash.\<close>

definition digest_source :: "bytes \<Rightarrow> bytes" where
  "digest_source d =
     (let script = (\<lambda>b. if b = 3 then [81, 32] @ replicate 32 3 else [81, 32] @ replicate 31 0 @ [b]) in
      if d ! 0 = 4 then [d ! 1, 0, 0, 0]
      else if d ! 0 = 8 then [d ! 1, 0, 0, 0, d ! 2, 0, 0, 0]
      else if d ! 0 = 43 then u64_to_le 9000 @ 34 # script (d ! 3)
      else if d ! 0 = 86 then u64_to_le 9000 @ 34 # script (d ! 3) @ [d ! 4, 1, 0, 0, 0, 0, 0, 0] @ 34 # script 0x48
      else position_sha (str_bytes ''TemplateHash'') @ position_sha (str_bytes ''TemplateHash'') @
        [d ! 5, 0, 0, 0] @ [d ! 6, 1, 0, 0] @ ([d ! 7, d ! 8, d ! 9, 0, 0, 0, 0, 0, 0, 0, 0, 0, 0, 0] @ replicate 18 0) @
        ([d ! 10, 0x28, 0, d ! 11, d ! 12, 0, 0, 0, 0, 0, 0, 0, 0, 0] @ replicate 18 0) @ [0] @ [d ! 13, 0, 0, 0])"

definition sample_p2tr :: "byte \<Rightarrow> script" where
  "sample_p2tr b = [81, 32] @ replicate 31 0 @ [b]"

definition template_shape :: "transaction \<Rightarrow> u32 \<times> u32 \<times> u32 list \<times> (u64 \<times> script) list" where
  "template_shape tx = (tx_version tx, tx_lock_time tx, map ti_sequence (tx_input tx),
     map (\<lambda>out. (txo_value out, txo_script_pubkey out)) (tx_output tx))"

definition test_shapes :: "(u32 \<times> u32 \<times> u32 list \<times> (u64 \<times> script) list) list" where
  "test_shapes =
     [(2, 500, [12], [(9000, sample_p2tr 0x45)]), (2, 500, [12], [(9000, sample_p2tr 0x42)]),
      (2, 500, [12], [(9000, [81, 32] @ replicate 32 3)]),
      (2, 500, [12, 22], [(9000, sample_p2tr 0x45), (500, sample_p2tr 0x48)]),
      (2, 500, [12, 22], [(9000, sample_p2tr 0x49), (500, sample_p2tr 0x48)]),
      (2, 500, [12, 22], [(9000, sample_p2tr 0x45), (501, sample_p2tr 0x48)]),
      (2, 500, [13, 22], [(9000, sample_p2tr 0x45), (500, sample_p2tr 0x48)]),
      (2, 500, [12, 23], [(9000, sample_p2tr 0x45), (500, sample_p2tr 0x48)]),
      (2, 501, [12, 22], [(9000, sample_p2tr 0x45), (500, sample_p2tr 0x48)]),
      (1, 500, [12, 22], [(9000, sample_p2tr 0x45), (500, sample_p2tr 0x48)])]"

lemma sample_transactions:
  "test_recipient sample_fixture_lib b = Ok (sample_p2tr b)"
  "\<exists>tx. test_transaction sample_fixture_lib = Ok tx \<and> template_shape tx = (2, 500, [12], [(9000, sample_p2tr 0x45)])"
  "\<exists>tx. two_input_transaction sample_fixture_lib = Ok tx \<and>
     template_shape tx = (2, 500, [12, 22], [(9000, sample_p2tr 0x45), (500, sample_p2tr 0x48)])"
  by (simp_all add: sample_keys sample_p2tr_def template_shape_def test_transaction_def two_input_transaction_def EXIT_DELAY_def)

lemma edited_shape:
  assumes "template_shape tx = (v, l, seqs, outs)"
  shows "set_recipient sample_fixture_lib b tx = Ok tx' \<Longrightarrow> template_shape tx' = (v, l, seqs, outs[0 := (fst (outs ! 0), sample_p2tr b)])"
    "edit_output k (set_script script) tx = Ok tx' \<Longrightarrow> template_shape tx' = (v, l, seqs, outs[k := (fst (outs ! k), script)])"
    "edit_output k (add_value n) tx = Ok tx' \<Longrightarrow> template_shape tx' = (v, l, seqs, outs[k := (fst (outs ! k) + n, snd (outs ! k))])"
    "edit_input k (\<lambda>i. i\<lparr>ti_sequence := n'\<rparr>) tx = Ok tx' \<Longrightarrow> template_shape tx' = (v, l, seqs[k := n'], outs)"
    "Ok (tx\<lparr>tx_lock_time := l'\<rparr>) = Ok tx' \<Longrightarrow> template_shape tx' = (v, l', seqs, outs)"
    "Ok (tx\<lparr>tx_version := l'\<rparr>) = Ok tx' \<Longrightarrow> template_shape tx' = (l', l, seqs, outs)"
  using assms
  by (auto simp: template_shape_def set_recipient_def sample_transactions edit_output_def edit_input_def edit_nth_eq_Ok bind_res_eq_Ok
      set_script_def add_value_def map_update split: if_splits)

lemma sample_template_cases:
  assumes "tx \<in> template_cases sample_fixture_lib sample_spend_fixture_lib"
  shows "template_shape tx \<in> set test_shapes"
proof -
  obtain t where t: "test_transaction sample_fixture_lib = Ok t" "template_shape t = (2, 500, [12], [(9000, sample_p2tr 0x45)])"
    using sample_transactions(2) by blast
  obtain u where u: "two_input_transaction sample_fixture_lib = Ok u"
    "template_shape u = (2, 500, [12, 22], [(9000, sample_p2tr 0x45), (500, sample_p2tr 0x48)])"
    using sample_transactions(3) by blast
  have "tx = t \<or> set_recipient sample_fixture_lib 0x42 t = Ok tx \<or> tx = u \<or>
      edit_output 0 (set_script ([81, 32] @ replicate 32 3)) t = Ok tx \<or> (\<exists>f \<in> set (committed_mutations sample_fixture_lib). f u = Ok tx)"
    using assms by (auto simp: template_cases_def t(1) u(1) sample_spend_fixture_lib_def)
  moreover have "list_all (\<lambda>f. f u = Ok tx \<longrightarrow> template_shape tx \<in> set test_shapes) (committed_mutations sample_fixture_lib)"
    unfolding committed_mutations_def list.pred_inject test_shapes_def
  proof (intro conjI impI, goal_cases)
    case 1
    from edited_shape(1) [OF u(2) this] show ?case by simp
  next
    case 2
    from edited_shape(3) [OF u(2) this] show ?case by simp
  next
    case 3
    from edited_shape(4) [OF u(2) this] show ?case by simp
  next
    case 4
    from edited_shape(4) [OF u(2) this] show ?case by simp
  next
    case 5
    from edited_shape(5) [OF u(2) this] show ?case by simp
  next
    case 6
    from edited_shape(6) [OF u(2) this] show ?case by simp
  qed simp
  moreover have "template_shape t \<in> set test_shapes" "template_shape u \<in> set test_shapes"
    by (simp_all add: t(2) u(2) test_shapes_def)
  moreover have "template_shape tx \<in> set test_shapes" if "set_recipient sample_fixture_lib 0x42 t = Ok tx"
    unfolding edited_shape(1) [OF t(2) that] by (simp add: test_shapes_def)
  moreover have "template_shape tx \<in> set test_shapes" if "edit_output 0 (set_script ([81, 32] @ replicate 32 3)) t = Ok tx"
    unfolding edited_shape(2) [OF t(2) that] by (simp add: test_shapes_def)
  ultimately show ?thesis unfolding list_all_iff by blast
qed

text \<open>The byte strings hashed for a template depend on its shape.\<close>

definition shape_sequences :: "u32 \<times> u32 \<times> u32 list \<times> (u64 \<times> script) list \<Rightarrow> bytes" where
  "shape_sequences = (\<lambda>(v, l, seqs, outs). concat (map u32_to_le seqs))"

definition shape_outputs :: "u32 \<times> u32 \<times> u32 list \<times> (u64 \<times> script) list \<Rightarrow> bytes" where
  "shape_outputs = (\<lambda>(v, l, seqs, outs). concat (map (\<lambda>(value, script). ser_output \<lparr>txo_value = value, txo_script_pubkey = script\<rparr>) outs))"

definition shape_message :: "u32 \<times> u32 \<times> u32 list \<times> (u64 \<times> script) list \<Rightarrow> u32 \<Rightarrow> bytes" where
  "shape_message = (\<lambda>(v, l, seqs, outs) idx. let tag = position_sha (str_bytes ''TemplateHash'') in
     tag @ tag @ u32_to_le v @ u32_to_le l @ position_sha (shape_sequences (v, l, seqs, outs)) @
     position_sha (shape_outputs (v, l, seqs, outs)) @ [0] @ u32_to_le idx)"

lemma template_preimages_shape: "template_preimages position_sha tx idx =
    {shape_sequences (template_shape tx), shape_outputs (template_shape tx), shape_message (template_shape tx) idx}"
proof -
  have ser: "ser_output \<lparr>txo_value = txo_value out, txo_script_pubkey = txo_script_pubkey out\<rparr> = ser_output out" for out
    by (cases out) simp
  show ?thesis
    by (simp add: template_preimages_def template_message_def shape_sequences_def shape_outputs_def shape_message_def template_shape_def
        sha_sequences_def sha_outputs_def Let_def comp_def foldl_push_output ser)
qed

lemmas digest_defs = position_sha_def digest_positions_def shape_sequences_def shape_outputs_def
  sample_p2tr_def ser_output_def push_output_def push_compact_size_def u32_to_le_def u64_to_le_def Let_def

lemma digest_sequences:
  "list_all (\<lambda>shape. (\<exists>a b c. position_sha (shape_sequences shape) = [a, b, c, 0, 0, 0, 0, 0, 0, 0, 0, 0, 0, 0] @ replicate 18 0) \<and>
     digest_source (position_sha (shape_sequences shape)) = shape_sequences shape) test_shapes"
  unfolding test_shapes_def list.pred_inject by (intro conjI; simp add: digest_source_def digest_defs)

lemma digest_outputs:
  "list_all (\<lambda>shape. (\<exists>a b c. position_sha (shape_outputs shape) = [a, 0x28, 0, b, c, 0, 0, 0, 0, 0, 0, 0, 0, 0] @ replicate 18 0) \<and>
     digest_source (position_sha (shape_outputs shape)) = shape_outputs shape) test_shapes"
  unfolding test_shapes_def list.pred_inject by (intro conjI; simp add: digest_source_def digest_defs nth_append)

lemma digest_message:
  assumes "t = position_sha (str_bytes ''TemplateHash'')"
    and "m = t @ t @ [v, 0, 0, 0] @ [l, 1, 0, 0] @ ([a, b, c, 0, 0, 0, 0, 0, 0, 0, 0, 0, 0, 0] @ replicate 18 0) @
      ([d, 0x28, 0, e, f, 0, 0, 0, 0, 0, 0, 0, 0, 0] @ replicate 18 0) @ [0] @ [i, 0, 0, 0]"
  shows "digest_source (position_sha m) = m"
proof -
  have len: "length t = 32" by (simp add: assms(1) position_sha_def digest_positions_def)
  then have "length m = 141" by (simp add: assms(2))
  then have "position_sha m = [141, m ! 0, m ! 4, m ! 42, m ! 43, m ! 64, m ! 68, m ! 72, m ! 73, m ! 74, m ! 104, m ! 107, m ! 108, m ! 137] @ replicate 18 0"
    by (simp add: position_sha_def digest_positions_def)
  moreover have "m ! 64 = v" "m ! 68 = l" "m ! 72 = a" "m ! 73 = b" "m ! 74 = c" "m ! 104 = d" "m ! 107 = e" "m ! 108 = f" "m ! 137 = i"
    by (simp_all add: assms(2) len nth_append)
  ultimately show ?thesis unfolding digest_source_def assms(1) [symmetric] by (simp add: assms(2))
qed

lemma digest_messages:
  assumes "shape \<in> set test_shapes" "idx = 0 \<or> idx = 1"
  shows "digest_source (position_sha (shape_message shape idx)) = shape_message shape idx"
proof -
  obtain v l seqs outs where shape: "shape = (v, l, seqs, outs)" by (cases shape)
  have "v = 1 \<or> v = 2" "l = 500 \<or> l = 501" using assms(1) shape by (auto simp: test_shapes_def)
  then have "\<exists>v0 l0 i0. u32_to_le v = [v0, 0, 0, 0] \<and> u32_to_le l = [l0, 1, 0, 0] \<and> u32_to_le idx = [i0, 0, 0, 0]"
    using assms(2) by (auto simp: u32_to_le_def)
  then obtain v0 l0 i0 where w: "u32_to_le v = [v0, 0, 0, 0]" "u32_to_le l = [l0, 1, 0, 0]" "u32_to_le idx = [i0, 0, 0, 0]" by blast
  obtain a b c where "position_sha (shape_sequences shape) = [a, b, c, 0, 0, 0, 0, 0, 0, 0, 0, 0, 0, 0] @ replicate 18 0"
    using digest_sequences assms(1) unfolding list_all_iff by blast
  moreover obtain d e f where "position_sha (shape_outputs shape) = [d, 0x28, 0, e, f, 0, 0, 0, 0, 0, 0, 0, 0, 0] @ replicate 18 0"
    using digest_outputs assms(1) unfolding list_all_iff by blast
  ultimately show ?thesis
    by (intro digest_message [OF refl, of _ v0 l0 a b c d e f i0]) (simp add: shape shape_message_def w Let_def)
qed

lemma sample_digest_back:
  assumes "tx \<in> template_cases sample_fixture_lib sample_spend_fixture_lib" "i = 0 \<or> i = 1"
    and "x \<in> template_preimages position_sha tx i"
  shows "digest_source (position_sha x) = x"
  using assms(3) digest_messages [OF sample_template_cases [OF assms(1)] assms(2)] sample_template_cases [OF assms(1)]
    digest_sequences digest_outputs
  unfolding template_preimages_shape list_all_iff by blast

definition sample_template_runtime :: "(unit, guest) wasm_runtime" where
  "sample_template_runtime = guest_runtime (\<lambda>_. []) (template_evaluate (\<lambda>bs. Some (position_sha bs))) sample_guest"

lemma position_sha_length [simp]: "length (position_sha bs) = 32" "position_sha bs ! 0 = word_of_nat (length bs)"
  by (simp_all add: position_sha_def digest_positions_def)

lemma sample_template_hash: "\<exists>r. test_template_hash sample_spend_fixture_lib tx 0 = 141 # r"
proof -
  have "test_template_hash sample_spend_fixture_lib tx 0 = template_hash position_sha tx 0"
    using test_template_hash_eq [of sample_spend_fixture_lib tx 0] by (simp add: sample_spend_fixture_lib_def)
  moreover have "template_hash position_sha tx 0 ! 0 = 141"
    by (simp add: template_hash_def tagged_hash_def sha_sequences_def sha_outputs_def Let_def)
  ultimately show ?thesis
    by (cases "template_hash position_sha tx 0") (auto simp: template_hash_def tagged_hash_def position_sha_def Let_def)
qed

lemma position_sha_short: "length xs < 32 \<Longrightarrow> position_sha bs \<noteq> xs" "length xs < 32 \<Longrightarrow> xs \<noteq> position_sha bs"
  using position_sha_length(1) [of bs] by auto

lemma sample_sighash_not_Panic: "sample_sighash inp \<noteq> Panic"
  by (simp add: sample_sighash_def split: option.splits)

lemma sample_wasm_v2: "evaluator_id_wasm_v2 sample_deployment = [2]" "length WASM_HEADER = 8"
  by (simp_all add: sample_deployment_def WASM_HEADER_def)

lemma sample_not_magic: "\<not> prefix MAGIC (141 # r)" "\<not> prefix MAGIC (140 # r)"
  by (simp_all add: MAGIC_def str_bytes_def)

lemma sample_fixture_txid:
  assumes "fixture_new (sample_spend_env rt) sample_fixture_lib sample_spend_fixture_lib program tx claim = Ok fx"
  shows "op_txid (ti_previous_output (tx_input (psbt_unsigned_tx (si_psbt (fx_input fx))) ! 0)) = replicate 32 8"
  using assms
  by (auto simp: fixture_new_def bind_res_eq_Ok Let_def sample_key_spend_def fixture_path_def sample_spend_fixture_lib_def split: if_splits)

text \<open>The template-hash environment over any runtime that runs the template-hash module like the guest runtime.\<close>

lemma sample_template_lab:
  assumes rt: "\<And>enc version p q inp w. evaluate rt enc version (TEMPLATEHASH sample_fixture_lib) p q inp w =
    evaluate sample_template_runtime enc version (TEMPLATEHASH sample_fixture_lib) p q inp w"
  shows "template_lab sample_test_oracle (sample_spend_env rt) sample_fixture_lib sample_spend_fixture_lib in_other
    (\<lambda>_. sample_tree_meta) sample_plain_meta (\<lambda>_. None) (\<lambda>n bs. length bs = n) (\<lambda>_. []) (\<lambda>bs. Some (position_sha bs)) sample_guest"
proof (unfold_locales, goal_cases)
  case (1 enc version p q inp w)
  show ?case using rt by (simp add: sample_template_runtime_def)
next
  case (9 tx tx' i j x y)
  have sha: "sf_sha256 sample_spend_fixture_lib = position_sha" by (simp add: sample_spend_fixture_lib_def)
  have "x = digest_source (position_sha x)" by (rule sample_digest_back [symmetric, OF 9(1)]) (use 9(3,4) sha in auto)
  also have "\<dots> = digest_source (position_sha y)" using 9(6) sha by simp
  also have "\<dots> = y" by (rule sample_digest_back [OF 9(2)]) (use 9(3,5) sha in auto)
  finally show ?case .
next
  case (10 tx program)
  obtain r where r: "test_template_hash sample_spend_fixture_lib tx 0 = 141 # r" using sample_template_hash by blast
  from 10(2) show ?case
    by (auto simp: template_program_def wrong_program_def r edit_nth_def sample_fixture_sel sample_not_magic)
next
  case (11 b script tree)
  have "replicate 32 3 ! 0 \<noteq> (replicate 31 0 @ [b]) ! 0" by (simp add: nth_append)
  then have "replicate 32 3 \<noteq> replicate 31 0 @ [b]" by metis
  with 11 show ?case by (auto simp: sample_transactions sample_p2tr_def sample_spend_fixture_lib_def)
next
  case (12 fx)
  then show ?case
    by (auto simp: fixture_template_def bind_res_eq_Ok sample_fixture_txid replicate_eq_replicate)
qed (auto simp: sample_template_runtime_def sample_guest_fresh sample_spend_sel sample_enc_codec sha_import_def
      sample_spend_fixture_lib_def sample_guest_module sample_fixture_lib_def sample_evaluators sample_wasm_v2
      position_sha_short sample_sighash_not_Panic bind_res_eq_Panic)

interpretation sample_templates: template_lab sample_test_oracle "sample_spend_env sample_template_runtime" sample_fixture_lib
    sample_spend_fixture_lib in_other "\<lambda>_. sample_tree_meta" sample_plain_meta "\<lambda>_. None" "\<lambda>n bs. length bs = n"
    "\<lambda>_. []" "\<lambda>bs. Some (position_sha bs)" sample_guest
  by (rule sample_template_lab) (rule refl)

end
