(* ===== verification/Payment_Tests.thy ===== *)
theory Payment_Tests
  imports Oracle_Client Sample_Lab
begin

text \<open>
  The payment test of \<open>src/src/ark_signer.rs\<close>: under the registered \<open>pay-at-least/v1\<close> interpreter the witness selects
  the output that pays, whatever its position; an index that selects another output or none, a witness that is not
  an index, an underpaid and a redirected payment are refused, and a refusal does not disturb the next session.

  The locale \<open>payment_lab\<close> states the documented rule of the interpreter the enclave embeds as a binary: the
  parameters are a minimum and a script, the witness is the little-endian index of an output.
\<close>

section \<open>Operations\<close>

definition payment_transaction :: "fixture_lib \<Rightarrow> transaction result" where
  "payment_transaction fl =
     bind_res (test_transaction fl) (\<lambda>tx.
     bind_res (test_recipient fl 0x48) (\<lambda>script.
     Ok (tx\<lparr>tx_output := tx_output tx @ [\<lparr>txo_value = 500, txo_script_pubkey = script\<rparr>]\<rparr>)))"

text \<open>One satoshi more, and the outputs exchanged.\<close>

definition reorder :: "transaction \<Rightarrow> transaction result" where
  "reorder tx = bind_res (edit_output 0 (add_value 1) tx) swap_outputs"

definition payment_test ::
  "('m, 'i) signer_env \<Rightarrow> fixture_lib \<Rightarrow> spend_fixture_lib \<Rightarrow> test_oracle \<Rightarrow> (unit, unit) test" where
  "payment_test env fl sl orc =
     with_signer (test_signer env fl)
      (test_bind (unwrap (bind_res (payment_transaction fl) (\<lambda>tx.
         bind_res (payment_program env fl) (\<lambda>program.
         bind_res (fixture_new env fl sl program tx False) (\<lambda>fx. Ok (fx\<lparr>fx_witness := u32_to_le 0\<rparr>)))))) (\<lambda>original.
       test_bind (fixture_sign env fl sl orc original) (\<lambda>_.
       test_bind (unwrap (bind_res (change_tx reorder original) (\<lambda>fx. Ok (fx\<lparr>fx_witness := u32_to_le 1\<rparr>)))) (\<lambda>reordered.
       test_bind (assert_that (fx_key original = fx_key reordered)) (\<lambda>_.
       test_bind (assert_that (psbt_inputs (si_psbt (fx_input original)) = psbt_inputs (si_psbt (fx_input reordered)))) (\<lambda>_.
       test_bind (fixture_sign env fl sl orc reordered) (\<lambda>_.
       test_bind (for_each [1, 2, 0xFFFFFFFF] (\<lambda>evidence.
         predicate_refused env fl sl orc (original\<lparr>fx_witness := u32_to_le evidence\<rparr>))) (\<lambda>_.
       test_bind (for_each [[], replicate 3 0, replicate 5 0] (\<lambda>witness.
         invalid_evaluation env fl sl orc (original\<lparr>fx_witness := witness\<rparr>))) (\<lambda>_.
       test_bind (unwrap (change_tx (edit_output 0 (sub_value 1)) original)) (\<lambda>underpaid.
       test_bind (predicate_refused env fl sl orc underpaid) (\<lambda>_.
       test_bind (unwrap (change_tx (set_recipient fl 0x49) original)) (\<lambda>redirected.
       test_bind (predicate_refused env fl sl orc redirected) (\<lambda>_.
       test_bind (fixture_sign env fl sl orc original) (\<lambda>_.
       test_return ()))))))))))))))"

section \<open>Specification\<close>

locale payment_lab = spend_path_lab orc env fl sl intent_key tree_meta plain_meta tree_tweak output_maps
  for orc :: test_oracle and env :: "('m, 'i) signer_env" and fl :: fixture_lib and sl :: spend_fixture_lib
    and intent_key :: "intent \<Rightarrow> bytes" and tree_meta :: "bytes \<Rightarrow> psbt_input" and plain_meta :: psbt_input
    and tree_tweak :: "bytes \<Rightarrow> bytes option" and output_maps :: "nat \<Rightarrow> bytes \<Rightarrow> bool" +
  assumes interpreter: "modest inp \<Longrightarrow> length p \<le> MAX_PARAMETER_BYTES \<Longrightarrow> length w = 4 \<Longrightarrow>
      evaluate (env_rt env) (outpoint_encode (env_spend env)) V1 (PAY_AT_LEAST_WASM (env_deploy env)) PAY_AT_LEAST_SELECTOR p inp w =
        Ok (pays_at_least p (psbt_unsigned_tx (si_psbt inp)) w)"
    and malformed_index: "modest inp \<Longrightarrow> length p \<le> MAX_PARAMETER_BYTES \<Longrightarrow> length w \<le> MAX_WITNESS_BYTES \<Longrightarrow> length w \<noteq> 4 \<Longrightarrow>
      \<exists>e. evaluate (env_rt env) (outpoint_encode (env_spend env)) V1 (PAY_AT_LEAST_WASM (env_deploy env)) PAY_AT_LEAST_SELECTOR p inp w =
        Err e"
    and constructor: "evaluator_lib (env_deploy env)"
begin

text \<open>A fixture under the registered interpreter.\<close>

definition paying :: "bytes \<Rightarrow> fixture \<Rightarrow> bool" where
  "paying params fx \<longleftrightarrow> pk_program (fx_key fx) = \<lparr>ap_evaluator = fl_for_wasm fl (PAY_AT_LEAST_WASM (env_deploy env)),
     ap_program = PAY_AT_LEAST_SELECTOR, ap_parameters = params\<rparr> \<and> length params \<le> MAX_PARAMETER_BYTES \<and>
     spendable fx \<and> keyed fx \<and> modest (fx_input fx)"

lemma payingD:
  assumes "paying params fx"
  shows "spendable fx" "keyed fx" "modest (fx_input fx)"
  using assms unfolding paying_def by blast+

lemma paying_witness [simp]: "paying params (fx\<lparr>fx_witness := w\<rparr>) = paying params fx"
  by (simp add: paying_def spendable_def)

lemma payment_module_selected:
  assumes "test_signer env fl = Ok sg" "paying params fx"
  shows "select_module (env_spend env) (as_evaluators sg) (instance_of (pk_program (fx_key fx))) =
    Ok (PAY_AT_LEAST_WASM (env_deploy env), PAY_AT_LEAST_SELECTOR, V1)"
proof -
  from assms(1) have "evaluators (env_deploy env) = Ok (as_evaluators sg)"
    by (auto simp: test_signer_def ark_signer_new_def bind_res_eq_Ok split: if_splits)
  then obtain e where "as_evaluators sg = [e]" "we_id e = fl_for_wasm fl (PAY_AT_LEAST_WASM (env_deploy env))"
    "we_version e = V1" "we_module e = PAY_AT_LEAST_WASM (env_deploy env)"
    using constructor by (auto simp: evaluators_eq_Ok evaluator_lib_def for_wasm)
  with assms(2) inline(2) show ?thesis by (simp add: paying_def select_module_def for_wasm)
qed

lemma hosted_payment_verdict:
  assumes "test_signer env fl = Ok sg" "paying params fx"
  shows "length (fx_witness fx) = 4 \<Longrightarrow> verdict env (as_evaluators sg) fx =
      Ok (pays_at_least params (psbt_unsigned_tx (si_psbt (fx_input fx))) (fx_witness fx))"
    and "length (fx_witness fx) \<noteq> 4 \<Longrightarrow> length (fx_witness fx) \<le> MAX_WITNESS_BYTES \<Longrightarrow>
      \<exists>e. verdict env (as_evaluators sg) fx = Err (Program (EvaluationFailed e))"
proof -
  have p: "modest (fx_input fx)" "ap_parameters (pk_program (fx_key fx)) = params" "length params \<le> MAX_PARAMETER_BYTES"
    using assms(2) by (simp_all add: paying_def)
  note sel = payment_module_selected [OF assms]
  show "verdict env (as_evaluators sg) fx = Ok (pays_at_least params (psbt_unsigned_tx (si_psbt (fx_input fx))) (fx_witness fx))"
    if "length (fx_witness fx) = 4"
    using interpreter [OF p(1,3) that] by (simp add: verdict_def sel p(2))
  show "\<exists>e. verdict env (as_evaluators sg) fx = Err (Program (EvaluationFailed e))"
    if "length (fx_witness fx) \<noteq> 4" "length (fx_witness fx) \<le> MAX_WITNESS_BYTES"
    using malformed_index [OF p(1,3) that(2,1)] by (auto simp: verdict_def sel p(2))
qed

lemma triple_payment_sign:
  assumes "test_signer env fl = Ok sg" "lab_signer root sg" "paying params fx" "length (fx_witness fx) = 4"
    and "pays_at_least params (psbt_unsigned_tx (si_psbt (fx_input fx))) (fx_witness fx)"
  shows "triple (only sg []) (fixture_sign env fl sl orc fx) (\<lambda>_. only sg [])"
proof -
  note fx = payingD(1,2) [OF assms(3)]
  obtain intn where i: "spend_intent env fl sl fx intn" by (rule spendable_intent [OF fx])
  have "verdict env (as_evaluators sg) fx = Ok True" using hosted_payment_verdict(1) [OF assms(1,3,4)] assms(5) by simp
  from triple_sign [OF spendable_ready(1) [OF fx i assms(2) this] assms(2)] show ?thesis by (rule triple_conseq) simp_all
qed

lemma triple_payment_refused:
  assumes "test_signer env fl = Ok sg" "lab_signer root sg" "paying params fx" "length (fx_witness fx) = 4"
    and "\<not> pays_at_least params (psbt_unsigned_tx (si_psbt (fx_input fx))) (fx_witness fx)"
  shows "triple (holding sg \<Phi>) (predicate_refused env fl sl orc fx) (\<lambda>_. holding sg \<Phi>)"
  by (rule triple_predicate_refused [OF payingD(1,2) [OF assms(3)] assms(2)])
    (simp add: hosted_payment_verdict(1) [OF assms(1,3,4)] assms(5))

lemma triple_payment_invalid:
  assumes "test_signer env fl = Ok sg" "lab_signer root sg" "paying params fx" "length (fx_witness fx) \<noteq> 4"
    and "length (fx_witness fx) \<le> MAX_WITNESS_BYTES"
  shows "triple (holding sg \<Phi>) (invalid_evaluation env fl sl orc fx) (\<lambda>_. holding sg \<Phi>)"
  using hosted_payment_verdict(2) [OF assms(1,3-5)] triple_invalid_evaluation [OF payingD(1,2) [OF assms(3)] assms(2)] by blast

text \<open>Another transaction with as many outputs over the same prevouts.\<close>

lemma paying_change:
  assumes "paying params fx" "psbt_unsigned_tx (si_psbt (fx_input fx)) = tx" "length outs = length (tx_output tx)" "outputs_size outs \<le> 10000"
  shows "paying params (fx\<lparr>fx_input := (fx_input fx)\<lparr>si_psbt := (si_psbt (fx_input fx))\<lparr>psbt_unsigned_tx := tx\<lparr>tx_output := outs\<rparr>\<rparr>\<rparr>\<rparr>)"
proof -
  let ?psbt = "(si_psbt (fx_input fx))\<lparr>psbt_unsigned_tx := tx\<lparr>tx_output := outs\<rparr>\<rparr>"
  note old = payingD [OF assms(1)]
  have "spendable (fx\<lparr>fx_input := (fx_input fx)\<lparr>si_psbt := ?psbt\<rparr>\<rparr>)"
    by (rule spendable_change [OF old(1) assms(2), of _ "tx\<lparr>tx_output := outs\<rparr>"])
      (use old(1) assms(2,3) in \<open>simp_all add: spendable_def\<close>)
  moreover have "modest ((fx_input fx)\<lparr>si_psbt := ?psbt\<rparr>)"
    by (rule modest_change [OF old(3) assms(2), of _ "tx\<lparr>tx_output := outs\<rparr>"]) (use assms(4) in simp_all)
  ultimately show ?thesis using assms(1) unfolding paying_def by (intro conjI) simp_all
qed

subsection \<open>The test passes\<close>

lemma pays_iff:
  "pays_at_least (u64_to_le v @ encode_script script) tx (u32_to_le i) \<longleftrightarrow>
     unat i < length (tx_output tx) \<and> v \<le> txo_value (tx_output tx ! unat i) \<and> txo_script_pubkey (tx_output tx ! unat i) = script"
  by (auto simp: pays_at_least_def Let_def encode_script_def)

lemma payment_fixture:
  obtains fx tx script other where
    "bind_res (payment_transaction fl) (\<lambda>tx. bind_res (payment_program env fl) (\<lambda>program.
       bind_res (fixture_new env fl sl program tx False) (\<lambda>fx. Ok (fx\<lparr>fx_witness := u32_to_le 0\<rparr>)))) = Ok fx"
    "paying (u64_to_le 9000 @ encode_script script) fx" "fx_witness fx = u32_to_le 0"
    "test_recipient fl 0x45 = Ok script" "test_recipient fl 0x48 = Ok other"
    "psbt_unsigned_tx (si_psbt (fx_input fx)) = tx"
    "tx_output tx = [\<lparr>txo_value = 9000, txo_script_pubkey = script\<rparr>, \<lparr>txo_value = 500, txo_script_pubkey = other\<rparr>]"
proof -
  obtain base where base: "test_transaction fl = Ok base" using test_transaction_Ok by blast
  obtain other where other: "test_recipient fl 0x48 = Ok other" using recipient_Ok [of "0x48"] by auto
  obtain script where s: "test_recipient fl 0x45 = Ok script" "length script = 34"
    "payment_parameters fl 9000 = Ok (u64_to_le 9000 @ u32_to_le (word_of_nat (length script)) @ script)"
    by (rule fixture_parameters)
  define ps where "ps = u64_to_le 9000 @ encode_script script"
  let ?p = "\<lparr>ap_evaluator = fl_for_wasm fl (PAY_AT_LEAST_WASM (env_deploy env)), ap_program = PAY_AT_LEAST_SELECTOR, ap_parameters = ps\<rparr>"
  let ?tx = "base\<lparr>tx_output := tx_output base @ [\<lparr>txo_value = 500, txo_script_pubkey = other\<rparr>]\<rparr>"
  have len: "length ps \<le> MAX_PARAMETER_BYTES" by (simp add: ps_def encode_script_def s(2) MAX_PARAMETER_BYTES_def)
  have sel: "length PAY_AT_LEAST_SELECTOR \<le> MAX_PROGRAM_BYTES"
    by (simp add: PAY_AT_LEAST_SELECTOR_def str_bytes_def MAX_PROGRAM_BYTES_def)
  have prog: "payment_program env fl = Ok ?p"
    using program_new [OF sel len] s(3) by (simp add: payment_program_def ps_def encode_script_def)
  have parse: "parse (env_codec env) ps = Ok None" by (simp add: ps_def parse_None MAGIC_def str_bytes_def payment_minimum)
  have outs: "tx_output ?tx = [\<lparr>txo_value = 9000, txo_script_pubkey = script\<rparr>, \<lparr>txo_value = 500, txo_script_pubkey = other\<rparr>]"
    by (rule test_transactionE [OF base]) (use s(1) in simp)
  have o: "ordinary ?tx"
    using tests_ordinary [OF disjI1 [OF base]] outs recipient_length [OF s(1)] recipient_length [OF other] by (simp add: ordinary_def)
  then have ne: "tx_input ?tx \<noteq> []" by (simp add: ordinary_def)
  have sm: "small ?p" using len sel by (simp add: small_def)
  have policy: "\<exists>policy. parse (env_codec env) (ap_parameters ?p) = Ok policy \<and>
      (policy \<noteq> None \<longrightarrow> inline_wasm_version (env_spend env) (ap_evaluator ?p) \<noteq> None)" using parse by simp
  obtain fx tree other' where fx: "fixture_new env fl sl ?p ?tx False = Ok fx" "spendable fx" "keyed fx"
    "pk_program (fx_key fx) = ?p" "psbt_unsigned_tx (si_psbt (fx_input fx)) = bound_to (funding_point tree) ?tx"
    "si_input_index (fx_input fx) = 0" "psbt_inputs (si_psbt (fx_input fx)) = input_maps tree other' (length (tx_input ?tx))"
    "test_recipient fl 0x46 = Ok other'"
    by (rule fixture_new_Ok [OF sm ne policy])
  have "paying ps fx" using fx(2-4) len input_maps_modest [OF o fx(8,5-7)] by (simp add: paying_def)
  with fx(1,5) s(1) other outs prog base show ?thesis
    by (intro that [of "fx\<lparr>fx_witness := u32_to_le 0\<rparr>" script other "bound_to (funding_point tree) ?tx"])
      (simp_all add: ps_def payment_transaction_def)
qed

lemma payment_test_passed: "test_passes (payment_test env fl sl orc)"
  unfolding payment_test_def
proof (rule lab_test_passes, goal_cases)
  case (1 root sg)
  note sg = 1
  obtain fx tx script other where fx:
    "bind_res (payment_transaction fl) (\<lambda>tx. bind_res (payment_program env fl) (\<lambda>program.
       bind_res (fixture_new env fl sl program tx False) (\<lambda>fx. Ok (fx\<lparr>fx_witness := u32_to_le 0\<rparr>)))) = Ok fx"
    "paying (u64_to_le 9000 @ encode_script script) fx" "fx_witness fx = u32_to_le 0"
    "test_recipient fl 0x45 = Ok script" "test_recipient fl 0x48 = Ok other"
    "psbt_unsigned_tx (si_psbt (fx_input fx)) = tx"
    "tx_output tx = [\<lparr>txo_value = 9000, txo_script_pubkey = script\<rparr>, \<lparr>txo_value = 500, txo_script_pubkey = other\<rparr>]"
    by (rule payment_fixture)
  obtain away where away: "test_recipient fl 0x49 = Ok away" using recipient_Ok [of "0x49"] by auto
  have ne: "other \<noteq> script" "away \<noteq> script" using recipient_eq [OF fx(5,4)] recipient_eq [OF away fx(4)] by simp_all
  note len = recipient_length [OF fx(4)] recipient_length [OF fx(5)] recipient_length [OF away]
  let ?with = "\<lambda>outs. fx\<lparr>fx_input := (fx_input fx)\<lparr>si_psbt := (si_psbt (fx_input fx))\<lparr>psbt_unsigned_tx := tx\<lparr>tx_output := outs\<rparr>\<rparr>\<rparr>\<rparr>"
  let ?r = "[\<lparr>txo_value = 500, txo_script_pubkey = other\<rparr>, \<lparr>txo_value = 9001, txo_script_pubkey = script\<rparr>]"
  let ?u = "[\<lparr>txo_value = 8999, txo_script_pubkey = script\<rparr>, \<lparr>txo_value = 500, txo_script_pubkey = other\<rparr>]"
  let ?d = "[\<lparr>txo_value = 9000, txo_script_pubkey = away\<rparr>, \<lparr>txo_value = 500, txo_script_pubkey = other\<rparr>]"
  have changed: "paying (u64_to_le 9000 @ encode_script script) (?with outs)" if "outs \<in> {?r, ?u, ?d}" for outs
    by (rule paying_change [OF fx(2,6)]) (use that fx(7) len in auto)
  have t: "reorder tx = Ok (tx\<lparr>tx_output := ?r\<rparr>)" "edit_output 0 (sub_value 1) tx = Ok (tx\<lparr>tx_output := ?u\<rparr>)"
    "set_recipient fl 0x49 tx = Ok (tx\<lparr>tx_output := ?d\<rparr>)"
    using fx(7) by (simp_all add: reorder_def swap_outputs_def Let_def edit_output_def edit_nth_def add_value_def sub_value_def
        set_recipient_def away set_script_def)
  have reordered: "bind_res (change_tx reorder fx) (\<lambda>fx. Ok (fx\<lparr>fx_witness := u32_to_le 1\<rparr>)) = Ok ((?with ?r)\<lparr>fx_witness := u32_to_le 1\<rparr>)"
    using change_tx_eq [where f = reorder, OF fx(6) t(1)] by simp
  note underpaid = change_tx_eq [where f = "edit_output 0 (sub_value 1)", OF fx(6) t(2)]
  note redirected = change_tx_eq [where f = "set_recipient fl 0x49", OF fx(6) t(3)]
  have sign: "triple (only sg []) (fixture_sign env fl sl orc fx) (\<lambda>_. only sg [])"
    by (rule triple_payment_sign [OF sg fx(2)]) (simp_all add: fx(3,6,7) pays_iff)
  have sign': "triple (only sg []) (fixture_sign env fl sl orc ((?with ?r)\<lparr>fx_witness := u32_to_le 1\<rparr>)) (\<lambda>_. only sg [])"
    by (rule triple_payment_sign [OF sg, where params = "u64_to_le 9000 @ encode_script script"]) (simp_all add: changed pays_iff)
  have wrong: "triple (only sg []) (predicate_refused env fl sl orc (fx\<lparr>fx_witness := u32_to_le i\<rparr>)) (\<lambda>_. only sg [])"
    if "i \<in> {1, 2, 0xFFFFFFFF}" for i
    by (rule triple_payment_refused [OF sg, where params = "u64_to_le 9000 @ encode_script script"]) (use that fx(2,6,7) ne in \<open>auto simp: pays_iff\<close>)
  have malformed: "triple (only sg []) (invalid_evaluation env fl sl orc (fx\<lparr>fx_witness := w\<rparr>)) (\<lambda>_. only sg [])"
    if "w \<in> {[], replicate 3 0, replicate 5 0}" for w
    by (rule triple_payment_invalid [OF sg, where params = "u64_to_le 9000 @ encode_script script"]) (use that fx(2) in \<open>auto simp: MAX_WITNESS_BYTES_def\<close>)
  have refuse: "triple (only sg []) (predicate_refused env fl sl orc (?with outs)) (\<lambda>_. only sg [])" if "outs \<in> {?u, ?d}" for outs
  proof (rule triple_payment_refused [OF sg changed])
    show "\<not> pays_at_least (u64_to_le 9000 @ encode_script script) (psbt_unsigned_tx (si_psbt (fx_input (?with outs)))) (fx_witness (?with outs))"
      using that ne(2) by (elim insertE emptyE) (simp_all add: fx(3) pays_iff)
  qed (use that fx(3) in auto)
  show ?case
    by (rule triple_unwrap_then [OF fx(1)], rule triple_bind [OF sign], rule triple_unwrap_then [OF reordered],
      rule triple_assert_then, simp, rule triple_assert_then, simp, rule triple_bind [OF sign'],
      rule triple_bind [OF triple_for_each [of _ "\<lambda>_. only sg []"]], rule wrong, simp add: nth_Cons split: nat.splits,
      rule triple_bind [OF triple_for_each [of _ "\<lambda>_. only sg []"]], rule malformed, simp add: nth_Cons split: nat.splits,
      rule triple_unwrap_then [OF underpaid], rule triple_bind [OF refuse], simp,
      rule triple_unwrap_then [OF redirected], rule triple_bind [OF refuse], simp, rule triple_bind [OF sign triple_trivial])
qed

end

section \<open>A sample environment\<close>

text \<open>An interpreter that decodes the view it is given.\<close>

definition sample_payment_evaluate :: "guest \<Rightarrow> arguments \<Rightarrow> bool option" where
  "sample_payment_evaluate g a =
     (if length (ar_witness a) \<noteq> 4 then None
      else map_option (\<lambda>view. pays_at_least (ar_parameters a) \<lparr>tx_version = 0, tx_lock_time = 0, tx_input = [],
        tx_output = sv_outputs view\<rparr> (ar_witness a)) (decode_view V1 (ar_view a)))"

definition sample_payment_runtime :: "(unit, guest) wasm_runtime" where
  "sample_payment_runtime = guest_runtime (\<lambda>_. []) sample_payment_evaluate sample_guest"

lemma sample_payment_run:
  assumes "modest inp" "length p \<le> MAX_PARAMETER_BYTES" "length w \<le> MAX_WITNESS_BYTES"
  shows "evaluate sample_payment_runtime sample_enc V1 (WASM_HEADER @ [7]) PAY_AT_LEAST_SELECTOR p inp w =
    (if length w = 4 then Ok (pays_at_least p (psbt_unsigned_tx (si_psbt inp)) w)
     else Err ''WASM evaluator must return exactly zero or one'')"
proof -
  have inp: "authenticated inp" "total_view_size V1 inp \<le> 40000" using modest_size [OF assms(1)] by simp_all
  obtain view where v: "encode_view sample_enc V1 inp = Ok view"
    using encode_view_fits [OF inp(1), of V1] inp(2) by (auto simp: MAX_SIGNED_VIEW_BYTES_def)
  have sel: "length PAY_AT_LEAST_SELECTOR \<le> MAX_PROGRAM_BYTES"
    by (simp add: PAY_AT_LEAST_SELECTOR_def str_bytes_def MAX_PROGRAM_BYTES_def)
  note d = decode_encode_view [OF sample_enc_codec(1) inp(1) v]
  from evaluate_guest_runtime [OF sample_guest_fresh sample_guest_module(1,2) sel assms(2,3) sample_enc_codec(1) inp(1) v,
      of sample_payment_evaluate 7] d
  show ?thesis
    by (auto simp: sample_payment_runtime_def sample_payment_evaluate_def view_of_def Let_def pays_at_least_def)
qed

interpretation sample_payments: payment_lab sample_test_oracle "sample_spend_env sample_payment_runtime" sample_fixture_lib
    sample_spend_fixture_lib in_other "\<lambda>_. sample_tree_meta" sample_plain_meta "\<lambda>_. None" "\<lambda>n bs. length bs = n"
proof (unfold_locales, goal_cases)
  case (1 inp p w)
  then show ?case using sample_payment_run [of inp p w] by (simp add: sample_spend_sel sample_deployment_def MAX_WITNESS_BYTES_def)
next
  case (2 inp p w)
  then show ?case using sample_payment_run [of inp p w] by (simp add: sample_spend_sel sample_deployment_def)
qed (simp add: sample_evaluator_lib)

end
