(* ===== verification/Adapter_Tests.thy ===== *)
theory Adapter_Tests
  imports Test_Module Sample_Lab
begin

text \<open>
  The adapter test of \<open>src/src/ark_signer.rs\<close>: guests with an unsafe allocator, a trap, a wrong result, a start function,
  a foreign import, and guests that burn their fuel in the predicate or in the allocator are refused with an
  evaluation error, and the signer still signs a good request afterwards.

  The locale \<open>adapter_lab\<close> assumes that the assembler turns the texts of the tests into modules that the enclave's engine
  runs like the machine of \<open>Test_Module\<close>, and that two thousand fills of the page cost more than the fuel there is.
\<close>

section \<open>Operations\<close>

definition test_program ::
  "('m, 'i) signer_env \<Rightarrow> fixture_lib \<Rightarrow> (module_text \<Rightarrow> bytes result) \<Rightarrow> nat \<Rightarrow> func_text \<Rightarrow> func_text \<Rightarrow> extra_text \<Rightarrow>
     ark_program result" where
  "test_program env fl wat version allocator predicate extra =
     bind_res (wat \<lparr>mt_version = version, mt_allocator = allocator, mt_predicate = predicate, mt_extra = extra\<rparr>) (\<lambda>m.
     fl_program_new fl (if version = 1 then evaluator_id_wasm (env_deploy env) else evaluator_id_wasm_v2 (env_deploy env)) m [7])"

text \<open>The body of the two loops of the test.\<close>

definition guest_refused ::
  "('m, 'i) signer_env \<Rightarrow> fixture_lib \<Rightarrow> spend_fixture_lib \<Rightarrow> test_oracle \<Rightarrow> (module_text \<Rightarrow> bytes result) \<Rightarrow>
     func_text \<Rightarrow> func_text \<Rightarrow> extra_text \<Rightarrow> (test_state, unit) test" where
  "guest_refused env fl sl orc wat allocator predicate extra =
     test_bind (unwrap (bind_res (test_program env fl wat 1 allocator predicate extra) (\<lambda>program.
       bind_res (test_transaction fl) (\<lambda>tx. fixture_new env fl sl program tx False)))) (\<lambda>fixture.
     invalid_evaluation env fl sl orc fixture)"

definition private_adapter_test ::
  "('m, 'i) signer_env \<Rightarrow> fixture_lib \<Rightarrow> spend_fixture_lib \<Rightarrow> test_oracle \<Rightarrow> (module_text \<Rightarrow> bytes result) \<Rightarrow>
     (unit, unit) test" where
  "private_adapter_test env fl sl orc wat =
     with_signer (test_signer env fl)
      (test_bind (for_each unsafe_guests (\<lambda>(allocator, predicate, extra).
         guest_refused env fl sl orc wat allocator predicate extra)) (\<lambda>_.
       test_bind (for_each burning_guests (\<lambda>(allocator, predicate).
         guest_refused env fl sl orc wat allocator predicate NoExtra)) (\<lambda>_.
       test_bind (unwrap (fixture_template env fl sl False)) (\<lambda>fixture.
       test_bind (fixture_sign env fl sl orc fixture) (\<lambda>_.
       test_return ())))))"

section \<open>Specification\<close>

text \<open>The texts of the test.\<close>

definition adapter_texts :: "(func_text \<times> func_text \<times> extra_text) set" where
  "adapter_texts = set unsafe_guests \<union> (\<lambda>(allocator, predicate). (allocator, predicate, NoExtra)) ` set burning_guests"

locale adapter_lab = template_lab orc env fl sl intent_key tree_meta plain_meta tree_tweak output_maps parser imp g
  for orc :: test_oracle and env :: "('m, 'i) signer_env" and fl :: fixture_lib and sl :: spend_fixture_lib
    and intent_key :: "intent \<Rightarrow> bytes" and tree_meta :: "bytes \<Rightarrow> psbt_input" and plain_meta :: psbt_input
    and tree_tweak :: "bytes \<Rightarrow> bytes option" and output_maps :: "nat \<Rightarrow> bytes \<Rightarrow> bool"
    and parser :: "bytes \<Rightarrow> (string, payload) res list" and imp :: "bytes \<Rightarrow> bytes option" and g :: guest +
  fixes wat :: "module_text \<Rightarrow> bytes result" and text_parser :: "bytes \<Rightarrow> (string, payload) res list"
    and decode :: "bytes \<Rightarrow> (string, module_text) res" and cost :: "nat \<Rightarrow> nat" and fuel :: nat
  assumes assembler: "(allocator, predicate, extra) \<in> adapter_texts \<Longrightarrow>
      \<exists>m. wat (guest_text allocator predicate extra) = Ok m \<and> text_assembles text_parser decode m (guest_text allocator predicate extra)"
    and engine: "text_assembles text_parser decode m tm \<Longrightarrow> evaluate (env_rt env) enc version m p q inp w =
      evaluate (test_runtime text_parser decode cost fuel) enc version m p q inp w"
    and metered: "fuel < 2000 * cost 65536"
begin

lemma text_size: "text_assembles text_parser decode m tm \<Longrightarrow> length m \<le> MAX_PROGRAM_BYTES"
  by (simp add: text_assembles_def check_module_bytes_def split: if_splits)

lemma guest_evaluation:
  assumes "(allocator, predicate, extra) \<in> adapter_texts" "text_assembles text_parser decode m (guest_text allocator predicate extra)"
    and "modest inp"
  shows "\<exists>e. evaluate (env_rt env) (outpoint_encode (env_spend env)) V1 m [] [7] inp [] = Err e"
proof -
  let ?enc = "outpoint_encode (env_spend env)"
  have inp: "authenticated inp" "total_view_size V1 inp \<le> 40000" using modest_size [OF assms(3)] by simp_all
  obtain view where v: "encode_view ?enc V1 inp = Ok view"
    using encode_view_fits [OF inp(1), of V1] inp(2) by (auto simp: MAX_SIGNED_VIEW_BYTES_def)
  have "view \<noteq> []" using encode_view_length(1) [OF template_guest(2) inp(1) v] by (auto simp: total_view_size_def)
  with assms(1) show ?thesis
    using unsafe_guest_refused [OF _ assms(2) _ v, of "[]"] burning_guest_refused [where cost = cost, OF _ _ _ v metered, of allocator predicate text_parser decode m "[]"] assms(2)
    by (auto simp: adapter_texts_def engine [OF assms(2)])
qed

lemma triple_guest_refused:
  assumes "(allocator, predicate, extra) \<in> adapter_texts" "lab_signer root sg"
  shows "triple (only sg []) (guest_refused env fl sl orc wat allocator predicate extra) (\<lambda>_. only sg [])"
proof -
  obtain m where m: "wat (guest_text allocator predicate extra) = Ok m" "text_assembles text_parser decode m (guest_text allocator predicate extra)"
    using assembler [OF assms(1)] by blast
  obtain tx where tx: "test_transaction fl = Ok tx" using test_transaction_Ok by blast
  let ?p = "\<lparr>ap_evaluator = evaluator_id_wasm (env_deploy env), ap_program = m, ap_parameters = [7]\<rparr>"
  have program: "test_program env fl wat 1 allocator predicate extra = Ok ?p"
    using program_new [OF text_size [OF m(2)], of "[7]"] m(1) by (simp add: test_program_def MAX_PARAMETER_BYTES_def)
  have "small ?p" using text_size [OF m(2)] by (simp add: small_def MAX_PARAMETER_BYTES_def)
  moreover have "parse (env_codec env) (ap_parameters ?p) = Ok None" by (simp add: parse_None MAGIC_def str_bytes_def)
  ultimately obtain fx where fx: "fixture_new env fl sl ?p tx False = Ok fx" "spendable fx" "keyed fx" "modest (fx_input fx)"
    "pk_program (fx_key fx) = ?p" "fx_witness fx = []"
    using test_fixture_of [OF _ _ tx, of ?p False] by blast
  obtain e where "evaluate (env_rt env) (outpoint_encode (env_spend env)) V1 m [] [7] (fx_input fx) [] = Err e"
    using guest_evaluation [OF assms(1) m(2) fx(4)] by blast
  then have "verdict env (as_evaluators sg) fx = Err (Program (EvaluationFailed e))"
    using inline(1) by (simp add: verdict_def select_module_def fx(5,6))
  from triple_invalid_evaluation [OF fx(2,3) assms(2) this] show ?thesis
    unfolding guest_refused_def by (rule triple_unwrap_then [rotated]) (simp add: program [simplified] tx fx(1))
qed

lemma private_adapter_test_passed: "test_passes (private_adapter_test env fl sl orc wat)"
  unfolding private_adapter_test_def
proof (rule lab_test_passes, goal_cases)
  case (1 root sg)
  obtain fx intn inst where f: "test_fixture False fx intn inst" by (rule template_test_fixture)
  then have fx: "fixture_template env fl sl False = Ok fx" "ready env fl sl sg fx intn inst"
    using 1(1) by (auto simp: test_fixture_def)
  have sign: "triple (only sg []) (fixture_sign env fl sl orc fx) (\<lambda>_. only sg [])"
    by (rule triple_conseq [OF triple_sign [OF fx(2) 1(2)]]) simp_all
  have guests: "triple (only sg []) (guest_refused env fl sl orc wat a p x) (\<lambda>_. only sg [])" if "(a, p, x) \<in> adapter_texts" for a p x
    by (rule triple_guest_refused [OF that 1(2)])
  show ?case
    by (rule triple_bind [OF triple_for_all], clarify, rule guests, simp add: adapter_texts_def,
      rule triple_bind [OF triple_for_all], clarify, rule guests, force simp: adapter_texts_def,
      rule triple_unwrap_then [OF fx(1)], rule triple_bind [OF sign triple_trivial])
qed

end

section \<open>A sample environment\<close>

text \<open>An engine that runs the modules of one engine and those of another.\<close>

definition either_guest :: "('i \<Rightarrow> (string, 'a) res \<times> 'i) \<Rightarrow> ('j \<Rightarrow> (string, 'a) res \<times> 'j) \<Rightarrow> 'i + 'j \<Rightarrow> (string, 'a) res \<times> ('i + 'j)" where
  "either_guest f h = case_sum (\<lambda>i. apsnd Inl (f i)) (\<lambda>j. apsnd Inr (h j))"

definition inject :: "('i \<Rightarrow> 'k) \<Rightarrow> (string, 'i) res \<Rightarrow> (string, 'k) res" where
  "inject c r = bind_res r (\<lambda>i. Ok (c i))"

definition either_runtime ::
  "(bytes \<Rightarrow> bool) \<Rightarrow> ('m, 'i) wasm_runtime \<Rightarrow> ('n, 'j) wasm_runtime \<Rightarrow> ('m + 'n, 'i + 'j) wasm_runtime" where
  "either_runtime here a b =
     \<lparr>rt_parse_all = (\<lambda>m. if here m then rt_parse_all a m else rt_parse_all b m),
      rt_module_new = (\<lambda>m. if here m then inject Inl (rt_module_new a m) else inject Inr (rt_module_new b m)),
      rt_instance_new = (\<lambda>version. case_sum (\<lambda>m. inject Inl (rt_instance_new a version m)) (\<lambda>m. inject Inr (rt_instance_new b version m))),
      rt_bind_crypto = case_sum (\<lambda>i. inject Inl (rt_bind_crypto a i)) (\<lambda>i. inject Inr (rt_bind_crypto b i)),
      rt_get_memory = case_sum (rt_get_memory a) (rt_get_memory b), rt_get_alloc = case_sum (rt_get_alloc a) (rt_get_alloc b),
      rt_get_evaluate = case_sum (rt_get_evaluate a) (rt_get_evaluate b),
      rt_call_alloc = (\<lambda>i nm len. either_guest (\<lambda>i. rt_call_alloc a i nm len) (\<lambda>i. rt_call_alloc b i nm len) i),
      rt_call_evaluate = (\<lambda>i nm ps. either_guest (\<lambda>i. rt_call_evaluate a i nm ps) (\<lambda>i. rt_call_evaluate b i nm ps) i),
      rt_exhausted = case_sum (rt_exhausted a) (rt_exhausted b), rt_data_size = case_sum (rt_data_size a) (rt_data_size b),
      rt_write = (\<lambda>i p bs. case_sum (\<lambda>i. inject Inl (rt_write a i p bs)) (\<lambda>i. inject Inr (rt_write b i p bs)) i)\<rparr>"

lemma bind_res_assoc: "bind_res (bind_res r f) h = bind_res r (\<lambda>x. bind_res (f x) h)"
  by (cases r) simp_all

lemma inject_simps [simp]: "inject c (Ok x) = Ok (c x)" "inject c (Err e) = Err e" "inject c Panic = Panic"
  "bind_res (inject c r) f = bind_res r (\<lambda>x. f (c x))"
  by (simp_all add: inject_def bind_res_assoc)

lemma either_simps [simp]:
  "rt_parse_all (either_runtime here a b) m = (if here m then rt_parse_all a m else rt_parse_all b m)"
  "rt_module_new (either_runtime here a b) m = (if here m then inject Inl (rt_module_new a m) else inject Inr (rt_module_new b m))"
  "rt_instance_new (either_runtime here a b) version (Inl x) = inject Inl (rt_instance_new a version x)"
  "rt_instance_new (either_runtime here a b) version (Inr y) = inject Inr (rt_instance_new b version y)"
  "rt_bind_crypto (either_runtime here a b) (Inl i) = inject Inl (rt_bind_crypto a i)"
  "rt_bind_crypto (either_runtime here a b) (Inr j) = inject Inr (rt_bind_crypto b j)"
  "rt_get_memory (either_runtime here a b) (Inl i) = rt_get_memory a i" "rt_get_memory (either_runtime here a b) (Inr j) = rt_get_memory b j"
  "rt_get_alloc (either_runtime here a b) (Inl i) = rt_get_alloc a i" "rt_get_alloc (either_runtime here a b) (Inr j) = rt_get_alloc b j"
  "rt_get_evaluate (either_runtime here a b) (Inl i) = rt_get_evaluate a i" "rt_get_evaluate (either_runtime here a b) (Inr j) = rt_get_evaluate b j"
  "rt_call_alloc (either_runtime here a b) (Inl i) nm len = apsnd Inl (rt_call_alloc a i nm len)"
  "rt_call_alloc (either_runtime here a b) (Inr j) nm len = apsnd Inr (rt_call_alloc b j nm len)"
  "rt_call_evaluate (either_runtime here a b) (Inl i) nm ps = apsnd Inl (rt_call_evaluate a i nm ps)"
  "rt_call_evaluate (either_runtime here a b) (Inr j) nm ps = apsnd Inr (rt_call_evaluate b j nm ps)"
  "rt_exhausted (either_runtime here a b) (Inl i) = rt_exhausted a i" "rt_exhausted (either_runtime here a b) (Inr j) = rt_exhausted b j"
  "rt_data_size (either_runtime here a b) (Inl i) = rt_data_size a i" "rt_data_size (either_runtime here a b) (Inr j) = rt_data_size b j"
  "rt_write (either_runtime here a b) (Inl i) p bs = inject Inl (rt_write a i p bs)"
  "rt_write (either_runtime here a b) (Inr j) p bs = inject Inr (rt_write b j p bs)"
  by (simp_all add: either_runtime_def either_guest_def)

lemma alloc_all_either:
  "alloc_all (either_runtime here a b) nm (Inl i) ranges bs = bind_res (alloc_all a nm i ranges bs) (\<lambda>(rs, i'). Ok (rs, Inl i'))"
  "alloc_all (either_runtime here a b) nm (Inr j) ranges bs = bind_res (alloc_all b nm j ranges bs) (\<lambda>(rs, j'). Ok (rs, Inr j'))"
  by (induction bs arbitrary: i j ranges) (auto simp: Let_def execution_error_def split: prod.splits res.splits)

lemma write_all_either:
  "write_all (rt_write (either_runtime here a b)) (Inl i) ws = inject Inl (write_all (rt_write a) i ws)"
  "write_all (rt_write (either_runtime here a b)) (Inr j) ws = inject Inr (write_all (rt_write b) j ws)"
  by (induction ws arbitrary: i j) (auto simp: inject_def bind_res_assoc)

lemma run_guest_either:
  "run_guest (either_runtime here a b) version (Inl i) inputs = run_guest a version i inputs"
  "run_guest (either_runtime here a b) version (Inr j) inputs = run_guest b version j inputs"
  by (cases "alloc_all a (alloc_name version) i [] inputs"; simp add: run_guest_def alloc_all_either write_all_either execution_error_def split_def cong: res.case_cong)
    (cases "alloc_all b (alloc_name version) j [] inputs"; simp add: run_guest_def alloc_all_either write_all_either execution_error_def split_def cong: res.case_cong)

lemma evaluate_either:
  "evaluate (either_runtime here a b) enc version m p q inp w = (if here m then evaluate a enc version m p q inp w else evaluate b enc version m p q inp w)"
  by (simp add: evaluate_def check_compilation_budget_def run_guest_either)

text \<open>The texts are numbered; a module is its number after the header. A fill costs a point for each byte.\<close>

definition sample_texts :: "module_text list" where
  "sample_texts = map (\<lambda>(allocator, predicate, extra). guest_text allocator predicate extra)
     (unsafe_guests @ map (\<lambda>(allocator, predicate). (allocator, predicate, NoExtra)) burning_guests)"

definition sample_wat :: "module_text \<Rightarrow> bytes result" where
  "sample_wat tm = Ok (WASM_HEADER @ [100 + word_of_nat (length (takeWhile (\<lambda>t. t \<noteq> tm) sample_texts))])"

definition sample_decode :: "bytes \<Rightarrow> (string, module_text) res" where
  "sample_decode m = (let k = unat (last m - 100) in if k < length sample_texts then Ok (sample_texts ! k) else Err ''unknown module'')"

definition sample_text_parser :: "bytes \<Rightarrow> (string, payload) res list" where
  "sample_text_parser m = (case sample_decode m of Ok tm \<Rightarrow> test_payloads tm | _ \<Rightarrow> [])"

definition sample_adapter_runtime :: "(module_text + unit, test_guest + guest) wasm_runtime" where
  "sample_adapter_runtime = either_runtime (\<lambda>m. unat (last m - 100) < length sample_texts)
     (test_runtime sample_text_parser sample_decode (\<lambda>n. n) 100000000) sample_template_runtime"

lemma first_index:
  "x \<in> set xs \<Longrightarrow> length (takeWhile (\<lambda>y. y \<noteq> x) xs) < length xs \<and> xs ! length (takeWhile (\<lambda>y. y \<noteq> x) xs) = x"
  by (induction xs) auto

lemma sample_text_assembler:
  assumes "tm \<in> set sample_texts"
  shows "\<exists>m. sample_wat tm = Ok m \<and> text_assembles sample_text_parser sample_decode m tm"
proof -
  let ?k = "length (takeWhile (\<lambda>t. t \<noteq> tm) sample_texts)"
  have k: "?k < length sample_texts" "sample_texts ! ?k = tm" using first_index [OF assms] by simp_all
  moreover have "length sample_texts = 8" by (simp add: sample_texts_def unsafe_guests_def burning_guests_def)
  ultimately have "unat (word_of_nat ?k :: byte) = ?k" by (simp add: unat_of_nat)
  with k have "sample_decode (WASM_HEADER @ [100 + word_of_nat ?k]) = Ok tm" by (simp add: sample_decode_def)
  then show ?thesis
    by (simp add: sample_wat_def text_assembles_def sample_guest_module sample_text_parser_def)
qed

interpretation sample_adapters: adapter_lab sample_test_oracle "sample_spend_env sample_adapter_runtime" sample_fixture_lib
    sample_spend_fixture_lib in_other "\<lambda>_. sample_tree_meta" sample_plain_meta "\<lambda>_. None" "\<lambda>n bs. length bs = n"
    "\<lambda>_. []" "\<lambda>bs. Some (position_sha bs)" sample_guest sample_wat sample_text_parser sample_decode "\<lambda>n. n" 100000000
proof (rule adapter_lab.intro, rule sample_template_lab, goal_cases)
  case (1 enc version p q inp w)
  have "\<not> unat (last (TEMPLATEHASH sample_fixture_lib) - 100) < length sample_texts"
    by (simp add: sample_fixture_lib_def sample_texts_def unsafe_guests_def burning_guests_def)
  then show ?case by (simp add: sample_adapter_runtime_def evaluate_either)
next
  case 2
  show ?case
  proof (unfold_locales, goal_cases)
    case (1 allocator predicate extra)
    then have "guest_text allocator predicate extra \<in> set sample_texts" by (force simp: sample_texts_def adapter_texts_def)
    then show ?case by (rule sample_text_assembler)
  next
    case (2 m tm enc version p q inp w)
    then have "unat (last m - 100) < length sample_texts" by (simp add: text_assembles_def sample_decode_def Let_def split: if_splits)
    then show ?case by (simp add: sample_adapter_runtime_def evaluate_either)
  qed simp
qed

end
