(* ===== verification/Inline_Tests.thy ===== *)
theory Inline_Tests
  imports Inline_Module Adapter_Tests
begin

text \<open>
  The inline V2 test of \<open>src/src/ark_signer.rs\<close>: on both paths the predicate of \<open>Inline_Module\<close> sees the authenticated
  internal key, another key is rejected, and an input with an annex, a finalized input and an input that asks for
  another signature hash are refused before the predicate runs or has an intent.

  The locale \<open>inline_lab\<close> assumes of the crates that an annex that is set can be read back, that the native signing
  context reads neither an annex nor a final script, and that a request for another signature hash has no intent.
\<close>

section \<open>Operations\<close>

text \<open>\<open>wrong.witness[0] ^= 1\<close>.\<close>

definition flip_first :: "bytes \<Rightarrow> bytes result" where
  "flip_first w = edit_nth w 0 (\<lambda>b. Ok (xor b 1))"

definition internal_key :: "fixture \<Rightarrow> bytes result" where
  "internal_key fx =
     (case psbt_inputs (si_psbt (fx_input fx)) of
        m # _ \<Rightarrow> (case pi_tap_internal_key m of Some k \<Rightarrow> Ok k | None \<Rightarrow> Panic)
      | [] \<Rightarrow> Panic)"

definition refused_request_of ::
  "('m, 'i) signer_env \<Rightarrow> fixture_lib \<Rightarrow> spend_fixture_lib \<Rightarrow> test_oracle \<Rightarrow> fixture \<Rightarrow> (test_state, error) test" where
  "refused_request_of env fl sl orc fx =
     test_bind (fixture_request env fl sl orc fx) (\<lambda>(request, _). refused env orc request)"

definition SIGHASH_ALL :: u32 where "SIGHASH_ALL = 1"

text \<open>The body of the loop over the two paths.\<close>

definition inline_v2_round ::
  "('m, 'i) signer_env \<Rightarrow> fixture_lib \<Rightarrow> spend_fixture_lib \<Rightarrow> test_oracle \<Rightarrow>
     (psbt_input \<Rightarrow> bytes option \<Rightarrow> psbt_input result) \<Rightarrow> ark_program \<Rightarrow> bool \<Rightarrow> (test_state, unit) test" where
  "inline_v2_round env fl sl orc annex_set program claim =
     test_bind (unwrap (bind_res (test_transaction fl) (\<lambda>tx. fixture_new env fl sl program tx claim))) (\<lambda>fresh.
     test_bind (unwrap (internal_key fresh)) (\<lambda>k.
     let fixture = fresh\<lparr>fx_witness := k\<rparr> in
     test_bind (fixture_sign env fl sl orc fixture) (\<lambda>_.
     test_bind (unwrap (flip_first (fx_witness fixture))) (\<lambda>w.
     test_bind (predicate_refused env fl sl orc (fixture\<lparr>fx_witness := w\<rparr>)) (\<lambda>_.
     test_bind (unwrap (change_map 0 (\<lambda>m. annex_set m (Some [0x50, 1])) fixture)) (\<lambda>annex.
     test_bind (refused_request_of env fl sl orc annex) (\<lambda>_.
     test_bind (unwrap (change_map 0 (\<lambda>m. Ok (m\<lparr>pi_final_script_sig := Some []\<rparr>)) fixture)) (\<lambda>finalized.
     test_bind (refused_request_of env fl sl orc finalized) (\<lambda>e.
     test_bind (assert_that (e = Program FinalizedInput)) (\<lambda>_.
     test_bind (fixture_request env fl sl orc fixture) (\<lambda>(request, _).
     test_bind (unwrap (bind_res (change_map 0 (\<lambda>m. Ok (m\<lparr>pi_sighash_type := Some SIGHASH_ALL\<rparr>)) fixture)
       (fixture_action fl sl))) (\<lambda>action.
     test_bind (refused env orc (request\<lparr>pq_action := action\<rparr>)) (\<lambda>_.
     test_return ())))))))))))))"

definition inline_v2_test ::
  "('m, 'i) signer_env \<Rightarrow> fixture_lib \<Rightarrow> spend_fixture_lib \<Rightarrow> test_oracle \<Rightarrow> (module_text \<Rightarrow> bytes result) \<Rightarrow>
     (psbt_input \<Rightarrow> bytes option \<Rightarrow> psbt_input result) \<Rightarrow> (unit, unit) test" where
  "inline_v2_test env fl sl orc wat annex_set =
     test_bind (unwrap (test_program env fl wat 2 TEST_ALLOCATOR inline_predicate NoExtra)) (\<lambda>program.
     with_signer (test_signer env fl) (for_each [False, True] (inline_v2_round env fl sl orc annex_set program)))"

section \<open>Specification\<close>

lemma xor_one_neq: "xor b 1 \<noteq> b" for b :: byte
proof
  assume "xor b 1 = b"
  then have "xor b (xor b 1) = xor b b" by simp
  then show False by (simp flip: xor.assoc)
qed

text \<open>A fixture whose selected map is replaced.\<close>

definition with_map :: "fixture \<Rightarrow> psbt_input \<Rightarrow> fixture" where
  "with_map fx m = fx\<lparr>fx_input := (fx_input fx)\<lparr>si_psbt := (si_psbt (fx_input fx))\<lparr>psbt_inputs :=
     (psbt_inputs (si_psbt (fx_input fx)))[si_input_index (fx_input fx) := m]\<rparr>\<rparr>\<rparr>"

abbreviation selected :: "fixture \<Rightarrow> psbt_input" where
  "selected fx \<equiv> psbt_inputs (si_psbt (fx_input fx)) ! si_input_index (fx_input fx)"

locale inline_lab = spend_path_lab orc env fl sl intent_key tree_meta plain_meta tree_tweak output_maps
  for orc :: test_oracle and env :: "('m, 'i) signer_env" and fl :: fixture_lib and sl :: spend_fixture_lib
    and intent_key :: "intent \<Rightarrow> bytes" and tree_meta :: "bytes \<Rightarrow> psbt_input" and plain_meta :: psbt_input
    and tree_tweak :: "bytes \<Rightarrow> bytes option" and output_maps :: "nat \<Rightarrow> bytes \<Rightarrow> bool" +
  fixes wat :: "module_text \<Rightarrow> bytes result" and text_parser :: "bytes \<Rightarrow> (string, payload) res list"
    and decode :: "bytes \<Rightarrow> (string, module_text) res" and cost :: "nat \<Rightarrow> nat" and fuel :: nat
    and annex_set :: "psbt_input \<Rightarrow> bytes option \<Rightarrow> psbt_input result"
  assumes outpoints: "outpoint_codec (outpoint_encode (env_spend env))"
    and inline_v2: "inline_wasm_version (env_spend env) (evaluator_id_wasm_v2 (env_deploy env)) = Some V2"
    and assembler: "\<exists>m. wat inline_text = Ok m \<and> text_assembles text_parser decode m inline_text"
    and engine: "text_assembles text_parser decode m inline_text \<Longrightarrow> evaluate (env_rt env) enc version m p q inp w =
      evaluate (test_runtime text_parser decode cost fuel) enc version m p q inp w"
    and fueled: "1000 \<le> fuel"
    and annex_roundtrip: "\<exists>bs. annex_set meta (Some [0x50, 1]) = Ok (meta\<lparr>pi_other := bs\<rparr>) \<and>
      annex_get (env_spend env) (meta\<lparr>pi_other := bs\<rparr>) = Ok (Some [0x50, 1])"
    and uncommitted: "spendable fx \<Longrightarrow> fx' = with_map fx ((selected fx)\<lparr>pi_final_script_sig := s, pi_other := bs\<rparr>) \<Longrightarrow>
      sf_from_input sl (fx_input fx') (map_option (fl_public_key fl) (fx_server fx')) w = Ok rq \<Longrightarrow>
      derive_public_key (env_ark env) (instance_of (pk_program (fx_key fx))) (pk_root (fx_key fx)) = Ok x \<Longrightarrow>
      (\<exists>intn. action_intent (env_ark env) (Spend rq) (fx_key fx) = Ok intn \<and>
        in_members intn = (pk_user_pubkey (fx_key fx), even_public_key (env_ark env) x) \<and>
        spend_signing_input (env_ark env) rq (fx_key fx) = Ok (fx_input fx') \<and>
        sighash (env_spend env) (fx_input fx') = Ok (in_message intn)) \<and>
      validate_psbt (env_spend env) (si_psbt (fx_input fx')) = Ok ()"
    and default_sighash: "spendable fx \<Longrightarrow> fx' = with_map fx ((selected fx)\<lparr>pi_sighash_type := Some SIGHASH_ALL\<rparr>) \<Longrightarrow>
      sf_from_input sl (fx_input fx') (map_option (fl_public_key fl) (fx_server fx')) w = Ok rq \<Longrightarrow>
      \<exists>e. action_intent (env_ark env) (Spend rq) (fx_key fx) = Err e"
begin

text \<open>A fixture under the inline program: its selected input is the first, with an internal key.\<close>

definition inlined :: "bytes \<Rightarrow> bytes \<Rightarrow> fixture \<Rightarrow> bool" where
  "inlined m k fx \<longleftrightarrow> pk_program (fx_key fx) =
       \<lparr>ap_evaluator = evaluator_id_wasm_v2 (env_deploy env), ap_program = m, ap_parameters = [7]\<rparr> \<and>
     text_assembles text_parser decode m inline_text \<and> spendable fx \<and> keyed fx \<and> modest (fx_input fx) \<and>
     si_input_index (fx_input fx) = 0 \<and> pi_tap_internal_key (selected fx) = Some k \<and>
     tx_version (psbt_unsigned_tx (si_psbt (fx_input fx))) = 2 \<and> tx_lock_time (psbt_unsigned_tx (si_psbt (fx_input fx))) = 500"

lemma inlinedD:
  assumes "inlined m k fx"
  shows "spendable fx" "keyed fx" "si_input_index (fx_input fx) = 0" "pi_tap_internal_key (selected fx) = Some k" "length k = 32"
  using assms modest_size [of "fx_input fx" V2] unfolding inlined_def
  by (auto simp: authenticated_def list_all_length)

lemma inlined_witness [simp]: "inlined m k (fx\<lparr>fx_witness := w\<rparr>) = inlined m k fx"
  by (simp add: inlined_def spendable_def)

lemma hosted_inline_verdict:
  assumes "inlined m k fx" "length (fx_witness fx) = 32"
  shows "verdict env registry fx = Ok (fx_witness fx = k)"
proof -
  have fx: "text_assembles text_parser decode m inline_text" "authenticated (fx_input fx)" "total_view_size V2 (fx_input fx) \<le> 50000"
    "pi_tap_internal_key (selected fx) = Some k"
    using assms(1) modest_size [of "fx_input fx" V2] by (auto simp: inlined_def)
  show ?thesis
    using assms evaluate_inline [OF fx(1) fueled outpoints fx(2,3) assms(2) fx(4), of cost]
    by (simp add: inlined_def verdict_def select_module_def inline_v2 engine)
qed

text \<open>A context that the native signer accepts but the gate refuses before the predicate runs.\<close>

lemma triple_marked_refused:
  assumes "inlined m k fx" "lab_signer root sg" "fx' = with_map fx ((selected fx)\<lparr>pi_final_script_sig := s, pi_other := bs\<rparr>)"
    and "s \<noteq> None \<and> e = Program FinalizedInput \<or>
      s = None \<and> annex_get (env_spend env) ((selected fx)\<lparr>pi_final_script_sig := s, pi_other := bs\<rparr>) = Ok (Some a) \<and>
      e = Msg ''native Ark signing does not support an annex''"
  shows "triple (holding sg \<Phi>) (refused_request_of env fl sl orc fx') (\<lambda>e' st. holding sg \<Phi> st \<and> e' = e)"
proof -
  note fx = inlinedD [OF assms(1)]
  note idx = spendable_index [OF fx(1)]
  have key: "fx_key fx' = fx_key fx" by (simp add: assms(3) with_map_def)
  have "keyed fx'" using fx(2) by (simp add: assms(3) with_map_def)
  obtain x where x: "derive_public_key (env_ark env) (instance_of (pk_program (fx_key fx))) (pk_root (fx_key fx)) = Ok x"
    by (rule keyed_instance [OF fx(2)])
  obtain rq where rq: "sf_from_input sl (fx_input fx') (map_option (fl_public_key fl) (fx_server fx')) (fx_witness fx') = Ok rq"
    using from_input by blast
  then have action: "fixture_action fl sl fx' = Ok (Spend rq)" by (simp add: fixture_action_def)
  obtain intn where i: "action_intent (env_ark env) (Spend rq) (fx_key fx') = Ok intn"
    "in_members intn = (pk_user_pubkey (fx_key fx'), even_public_key (env_ark env) x)"
    "spend_signing_input (env_ark env) rq (fx_key fx') = Ok (fx_input fx')" "sighash (env_spend env) (fx_input fx') = Ok (in_message intn)"
    "validate_psbt (env_spend env) (si_psbt (fx_input fx')) = Ok ()"
    using uncommitted [OF fx(1) assms(3) rq x] unfolding key by blast
  have get: "list_get (psbt_inputs (si_psbt (fx_input fx'))) (si_input_index (fx_input fx')) =
      Some ((selected fx)\<lparr>pi_final_script_sig := s, pi_other := bs\<rparr>)"
    using idx(1) by (simp add: assms(3) with_map_def list_get_def)
  have auth: "authorize (env_rt env) (env_spend env) (as_evaluators sg) program (fx_input fx') w (in_message intn) = Err e" for program w
    using assms(4) by (auto simp: authorize_def get i(4,5) idx(4))
  show ?thesis unfolding refused_request_of_def
  proof (rule triple_checked_refused [OF action i(1,2)])
    fix seed n
    assume n: "nonce_new (env_ark env) seed intn (pk_user_pubkey (fx_key fx')) = Ok n"
    show "check_prepare env sg (request_with env fx' (Spend rq) n) = Err e"
      using check_gate [OF \<open>keyed fx'\<close> assms(2) i(1) x [folded key] i(2,3) n] by (simp add: auth)
  qed
qed


lemma inline_fixture:
  assumes "text_assembles text_parser decode m inline_text"
  obtains fx k tx where "test_transaction fl = Ok tx"
    "fixture_new env fl sl \<lparr>ap_evaluator = evaluator_id_wasm_v2 (env_deploy env), ap_program = m, ap_parameters = [7]\<rparr> tx claim = Ok fx"
    "inlined m k fx" "internal_key fx = Ok k"
proof -
  let ?p = "\<lparr>ap_evaluator = evaluator_id_wasm_v2 (env_deploy env), ap_program = m, ap_parameters = [7]\<rparr>"
  obtain tx where tx: "test_transaction fl = Ok tx" using test_transaction_Ok by blast
  note o = tests_ordinary [OF disjI1 [OF tx]]
  have ne: "tx_input tx \<noteq> []" using o by (simp add: ordinary_def)
  have sm: "small ?p" using assms by (simp add: small_def text_assembles_def check_module_bytes_def MAX_PARAMETER_BYTES_def split: if_splits)
  have policy: "\<exists>policy. parse (env_codec env) (ap_parameters ?p) = Ok policy \<and>
      (policy \<noteq> None \<longrightarrow> inline_wasm_version (env_spend env) (ap_evaluator ?p) \<noteq> None)"
    using parse_None [of "env_codec env" "[7]"] by (simp add: MAGIC_def str_bytes_def)
  obtain fx tree other where fx: "fixture_new env fl sl ?p tx claim = Ok fx" "spendable fx" "keyed fx" "pk_program (fx_key fx) = ?p"
    "psbt_unsigned_tx (si_psbt (fx_input fx)) = bound_to (funding_point tree) tx" "si_input_index (fx_input fx) = 0"
    "psbt_inputs (si_psbt (fx_input fx)) = input_maps tree other (length (tx_input tx))" "test_recipient fl 0x46 = Ok other"
    by (rule fixture_new_Ok [OF sm ne policy])
  obtain k where k: "pi_tap_internal_key (tree_meta tree) = Some k" using tree_meta(5) by blast
  have "tx_version tx = 2" "tx_lock_time tx = 500" by (rule test_transactionE [OF tx]; simp)+
  then have "inlined m k fx" using fx(2-4,6) assms input_maps_modest [OF o fx(8,5-7)] k
    by (simp add: inlined_def fx(5,7) input_maps_def bound_to_def)
  moreover have "internal_key fx = Ok k" by (simp add: internal_key_def fx(7) input_maps_def k)
  ultimately show ?thesis by (rule that [OF tx fx(1)])
qed

lemma change_first_map:
  assumes "inlined m k fx" "f (selected fx) = Ok meta"
  shows "change_map 0 f fx = Ok (with_map fx meta)"
  using assms spendable_index(1) [OF inlinedD(1) [OF assms(1)]] inlinedD(3) [OF assms(1)]
  by (simp add: change_map_def edit_nth_def with_map_def)

lemma triple_round:
  assumes "text_assembles text_parser decode m inline_text" "lab_signer root sg"
    and "program = \<lparr>ap_evaluator = evaluator_id_wasm_v2 (env_deploy env), ap_program = m, ap_parameters = [7]\<rparr>"
  shows "triple (only sg []) (inline_v2_round env fl sl orc annex_set program claim) (\<lambda>_. only sg [])"
proof -
  obtain fresh k tx where fresh: "test_transaction fl = Ok tx" "fixture_new env fl sl program tx claim = Ok fresh"
    "inlined m k fresh" "internal_key fresh = Ok k" unfolding assms(3) by (rule inline_fixture [OF assms(1)])
  define fx where "fx = fresh\<lparr>fx_witness := k\<rparr>"
  have fx: "inlined m k fx" "fx_witness fx = k" using fresh(3) by (simp_all add: fx_def)
  note d = inlinedD [OF fx(1)]
  obtain b bs where kb: "k = b # bs" using d(5) by (cases k) auto
  define w where "w = xor b 1 # bs"
  have w: "flip_first (fx_witness fx) = Ok w" "length w = 32" "w \<noteq> k"
    using d(5) by (simp_all add: fx(2) flip_first_def edit_nth_def w_def kb xor_one_neq)
  obtain intn where i: "spend_intent env fl sl fx intn" by (rule spendable_intent [OF d(1,2)])
  have "verdict env (as_evaluators sg) fx = Ok True" using hosted_inline_verdict [OF fx(1)] fx(2) d(5) by simp
  from triple_sign [OF spendable_ready(1) [OF d(1,2) i assms(2) this] assms(2)]
  have sign: "triple (only sg []) (fixture_sign env fl sl orc fx) (\<lambda>_. only sg [])" by (rule triple_conseq) simp_all
  have wrong: "triple (only sg []) (predicate_refused env fl sl orc (fx\<lparr>fx_witness := w\<rparr>)) (\<lambda>_. only sg [])"
    by (rule triple_predicate_refused [OF _ _ assms(2)])
      (use inlinedD(1,2) [of m k "fx\<lparr>fx_witness := w\<rparr>"] hosted_inline_verdict [of m k "fx\<lparr>fx_witness := w\<rparr>"] fx(1) w(2,3) in simp_all)
  obtain bs' where annex: "annex_set (selected fx) (Some [0x50, 1]) = Ok ((selected fx)\<lparr>pi_other := bs'\<rparr>)"
    "annex_get (env_spend env) ((selected fx)\<lparr>pi_other := bs'\<rparr>) = Ok (Some [0x50, 1])" using annex_roundtrip by blast
  have sel: "(selected fx)\<lparr>pi_final_script_sig := None, pi_other := bs'\<rparr> = (selected fx)\<lparr>pi_other := bs'\<rparr>"
    using spendable_index(3) [OF d(1)] by (cases "selected fx") simp
  have annexed: "triple (only sg []) (refused_request_of env fl sl orc (with_map fx ((selected fx)\<lparr>pi_other := bs'\<rparr>))) (\<lambda>_. only sg [])"
    by (rule triple_conseq [OF triple_marked_refused [OF fx(1) assms(2), where s = None and bs = bs' and a = "[0x50, 1]"]])
      (use annex(2) in \<open>simp_all add: sel\<close>)
  have final: "triple (only sg []) (refused_request_of env fl sl orc (with_map fx ((selected fx)\<lparr>pi_final_script_sig := Some []\<rparr>)))
      (\<lambda>e st. only sg [] st \<and> e = Program FinalizedInput)"
    by (rule triple_marked_refused [OF fx(1) assms(2), where s = "Some []" and bs = "pi_other (selected fx)"]) simp_all
  let ?all = "with_map fx ((selected fx)\<lparr>pi_sighash_type := Some SIGHASH_ALL\<rparr>)"
  obtain rq where rq: "sf_from_input sl (fx_input ?all) (map_option (fl_public_key fl) (fx_server ?all)) (fx_witness ?all) = Ok rq"
    using from_input by blast
  obtain e where e: "action_intent (env_ark env) (Spend rq) (fx_key fx) = Err e" using default_sighash [OF d(1) refl rq] by blast
  have all: "fixture_action fl sl ?all = Ok (Spend rq)" by (simp add: fixture_action_def rq)
  note changes = change_first_map [where f = "\<lambda>m. annex_set m (Some [0x50, 1])", OF fx(1) annex(1)]
    change_first_map [where f = "\<lambda>m. Ok (m\<lparr>pi_final_script_sig := Some []\<rparr>)", OF fx(1) refl]
    change_first_map [where f = "\<lambda>m. Ok (m\<lparr>pi_sighash_type := Some SIGHASH_ALL\<rparr>)", OF fx(1) refl]
  have tx: "bind_res (test_transaction fl) (\<lambda>tx. fixture_new env fl sl program tx claim) = Ok fresh" by (simp add: fresh(1,2))
  show ?thesis
    unfolding inline_v2_round_def Let_def
    apply (rule triple_unwrap_then [OF tx], rule triple_unwrap_then [OF fresh(4)])
    unfolding fx_def [symmetric]
    by (rule triple_bind [OF sign], rule triple_unwrap_then [OF w(1)], rule triple_bind [OF wrong],
      rule triple_unwrap_then [OF changes(1)], rule triple_bind [OF annexed], rule triple_unwrap_then [OF changes(2)],
      rule triple_bind [OF final], rule triple_pure, rule triple_assert_then, simp,
      rule triple_intentless [where mutate = "change_map 0 (\<lambda>m. Ok (m\<lparr>pi_sighash_type := Some SIGHASH_ALL\<rparr>))", OF d(1,2) assms(2) changes(3) all e])
qed

lemma inline_v2_test_passed: "test_passes (inline_v2_test env fl sl orc wat annex_set)"
proof -
  obtain m where m: "wat inline_text = Ok m" "text_assembles text_parser decode m inline_text" using assembler by blast
  have "length m \<le> MAX_PROGRAM_BYTES" using m(2) by (simp add: text_assembles_def check_module_bytes_def split: if_splits)
  then have program: "test_program env fl wat 2 TEST_ALLOCATOR inline_predicate NoExtra =
      Ok \<lparr>ap_evaluator = evaluator_id_wasm_v2 (env_deploy env), ap_program = m, ap_parameters = [7]\<rparr>"
    using program_new [of m "[7]"] m(1) by (simp add: test_program_def inline_text_def MAX_PARAMETER_BYTES_def)
  have "test_passes (with_signer (test_signer env fl) (for_each [False, True] (inline_v2_round env fl sl orc annex_set
      \<lparr>ap_evaluator = evaluator_id_wasm_v2 (env_deploy env), ap_program = m, ap_parameters = [7]\<rparr>)))"
  proof (rule lab_test_passes, goal_cases)
    case (1 root sg)
    show ?case by (rule triple_conseq [OF triple_for_all [OF triple_round [OF m(2) 1(2) refl]]]) simp_all
  qed
  then show ?thesis by (simp add: inline_v2_test_def program test_passes_def test_bind_def)
qed

end

section \<open>A sample environment\<close>

definition sample_inline_runtime :: "(module_text, test_guest) wasm_runtime" where
  "sample_inline_runtime = test_runtime (\<lambda>_. test_payloads inline_text) (\<lambda>_. Ok inline_text) (\<lambda>n. n) 100000000"

definition sample_annex_set :: "psbt_input \<Rightarrow> bytes option \<Rightarrow> psbt_input result" where
  "sample_annex_set m annex = Ok (m\<lparr>pi_other := case annex of None \<Rightarrow> [] | Some bs \<Rightarrow> bs\<rparr>)"

lemma sample_with_map:
  assumes "sample_spends.spendable fx" "pi_witness_utxo m = pi_witness_utxo (selected fx)" "pi_non_witness_utxo m = pi_non_witness_utxo (selected fx)"
  shows "proven sample_spend_fixture_lib (fx_input (with_map fx m)) \<and> sample_sighash (fx_input (with_map fx m)) = sample_sighash (fx_input fx) \<and>
    sample_signing_key (fx_input (with_map fx m)) = sample_signing_key (fx_input fx) \<and> selected (with_map fx m) = m"
proof -
  let ?ms = "psbt_inputs (si_psbt (fx_input fx))" and ?i = "si_input_index (fx_input fx)"
  note p = sample_spendable(1) [OF assms(1)]
  then have i: "?i < length ?ms" by (simp add: proven_def Let_def)
  have utxos: "map pi_witness_utxo (?ms[?i := m]) = map pi_witness_utxo ?ms"
    using i assms(2) by (intro nth_equalityI) (simp_all add: nth_list_update)
  have all: "list_all (\<lambda>m. pi_witness_utxo m \<noteq> None) xs \<longleftrightarrow> list_all (\<lambda>u. u \<noteq> None) (map pi_witness_utxo xs)" for xs
    by (simp add: list.pred_map comp_def)
  have "proven sample_spend_fixture_lib (fx_input (with_map fx m))"
    using p i assms(2,3) utxos unfolding proven_def Let_def all by (simp add: proven_input_def with_map_def)
  then show ?thesis using i assms(2) utxos
    by (simp add: with_map_def sample_sighash_def spent_outputs_def sample_signing_key_def list_get_def split: option.splits)
qed

interpretation sample_inlines: inline_lab sample_test_oracle "sample_spend_env sample_inline_runtime" sample_fixture_lib
    sample_spend_fixture_lib in_other "\<lambda>_. sample_tree_meta" sample_plain_meta "\<lambda>_. None" "\<lambda>n bs. length bs = n"
    "\<lambda>_. Ok (WASM_HEADER @ [11])" "\<lambda>_. test_payloads inline_text" "\<lambda>_. Ok inline_text" "\<lambda>n. n" 100000000 sample_annex_set
proof (unfold_locales, goal_cases)
  case (7 fx fx' bs s w rq x)
  have "pi_sighash_type (selected fx) = None" using sample_spendable(4) [OF 7(1)] .
  with sample_with_map [OF 7(1), of "(selected fx)\<lparr>pi_final_script_sig := s, pi_other := bs\<rparr>"] sample_spendable(2,3) [OF 7(1)] 7(2-4) show ?case
    by (auto simp: sample_spend_sel sample_spend_fixture_lib_def sample_spend_intent_def)
next
  case (6 meta)
  show ?case by (rule exI [of _ "[0x50, 1]"]) (simp add: sample_annex_set_def sample_spend_sel)
next
  case (8 fx fx' w rq)
  with sample_with_map [OF 8(1), of "(selected fx)\<lparr>pi_sighash_type := Some SIGHASH_ALL\<rparr>"] show ?case
    by (auto simp: sample_spend_sel sample_spend_fixture_lib_def sample_spend_intent_def)
qed (simp_all add: sample_spend_sel sample_enc_codec sample_wasm_v2 text_assembles_def sample_guest_module sample_inline_runtime_def)

end
