(* ===== verification/Test_Suite.thy ===== *)
theory Test_Suite
  imports Capacity_Tests Payment_Tests Inline_Tests
begin

text \<open>
  The spend tests of \<open>src/src/ark_signer.rs\<close> pass in every environment with the documented behaviour of the Ark,
  MuSig and Bitcoin crates and of the two included predicate binaries, whatever seeds and session ids are drawn
  and however the threads of the concurrent tests are scheduled.
\<close>

section \<open>Properties\<close>

text \<open>C14: the session tests of the repository pass: a malformed finish, a wrong, missing or extraneous server share and a
  cancelling nonce consume the session; cancelling and expiry are final and free one slot of a full pool each, which
  never costs a live session its nonce; of concurrent finishes and cancels exactly
  one wins, in every order; a signer with the same root does not know old sessions; a server may add its share
  after the program's; and every completed nested signature verifies, also once the signer is gone.\<close>

theorem session_tests_pass:
  assumes "template_lab orc env fl sl intent_key tree_meta plain_meta tree_tweak output_maps parser imp g"
    and "SIGNING_PROTOCOL (env_deploy env) \<noteq> ''unsupported''" "distinct schedule" "set schedule = {..<8}"
  shows "test_passes (malformed_finish_test env fl sl orc) \<and> test_passes (cancelling_nonce_test env fl sl orc) \<and>
    test_passes (cancellation_and_expiry_test env fl sl orc) \<and> test_passes (session_capacity_test env fl sl orc) \<and>
    test_passes (concurrent_finish_cancel_test env fl sl orc finish_first) \<and>
    test_passes (concurrent_finish_test env fl sl orc schedule) \<and> test_passes (fresh_signer_test env fl sl orc) \<and>
    test_passes (native_forfeit_test env fl sl orc) \<and> test_passes (delayed_claim_test env fl sl orc)"
proof -
  have m: "musig_lab orc env fl sl intent_key"
    using assms(1) by (simp add: template_lab_def spend_path_lab_def spend_lab_def)
  obtain fx intn inst where f: "musig_lab.test_fixture env fl sl False fx intn inst"
    by (rule template_lab.template_test_fixture [OF assms(1)])
  obtain fx' intn' inst' where f': "musig_lab.test_fixture env fl sl True fx' intn' inst'"
    by (rule template_lab.template_test_fixture [OF assms(1)])
  show ?thesis
    by (intro conjI musig_lab.malformed_finish_test_passes [OF m f f' assms(2)] musig_lab.cancelling_nonce_test_passes [OF m f]
        musig_lab.cancellation_and_expiry_test_passes [OF m f'] musig_lab.session_capacity_test_passes [OF m f'] musig_lab.concurrent_finish_cancel_test_passes [OF m f]
        musig_lab.concurrent_finish_test_passes [OF m f assms(3,4)] musig_lab.fresh_signer_test_passes [OF m f]
        musig_lab.native_forfeit_test_passes [OF m f] musig_lab.delayed_claim_test_passes [OF m f'])
qed

abbreviation sample_session_env :: "(unit, guest) signer_env" where
  "sample_session_env \<equiv> sample_spend_env sample_template_runtime"

theorem session_tests_pass_witness:
  "test_passes (malformed_finish_test sample_session_env sample_fixture_lib sample_spend_fixture_lib sample_test_oracle) \<and>
   test_passes (cancellation_and_expiry_test sample_session_env sample_fixture_lib sample_spend_fixture_lib sample_test_oracle) \<and>
   test_passes (session_capacity_test sample_session_env sample_fixture_lib sample_spend_fixture_lib sample_test_oracle) \<and>
   test_passes (concurrent_finish_test sample_session_env sample_fixture_lib sample_spend_fixture_lib sample_test_oracle
     [3, 1, 4, 0, 5, 2, 6, 7])"
proof -
  have "distinct [3, 1, 4, 0, 5, 2, 6, 7 :: nat]" "set [3, 1, 4, 0, 5, 2, 6, 7 :: nat] = {..<8}" by auto
  moreover have "SIGNING_PROTOCOL (env_deploy sample_session_env) \<noteq> ''unsupported''" by (simp add: sample_deployment_def)
  ultimately show ?thesis
    using session_tests_pass [OF sample_templates.template_lab_axioms, of "[3, 1, 4, 0, 5, 2, 6, 7]"] by blast
qed

text \<open>C15: the predicate tests of the repository pass: under a template-hash program the signer signs the committed transaction
  on the server's and on the claim path, and refuses it with any committed field changed, at another input or with
  another commitment; it signs it over another funding with another signature, and never over unauthenticated
  prevouts; recovery and checkpoint transactions have no privilege; an empty registry, an unknown evaluator and a
  module without the exports of its version are refused. No refusal changes the session table.\<close>

theorem predicate_tests_pass:
  assumes "template_lab orc env fl sl intent_key tree_meta plain_meta tree_tweak output_maps parser imp g"
  shows "test_passes (template_authorizes_test env fl sl orc) \<and> test_passes (template_fields_test env fl sl orc) \<and>
    test_passes (free_prevouts_test env fl sl orc) \<and> test_passes (no_privilege_test env fl sl orc) \<and>
    test_passes (unavailable_registry_test env fl sl orc) \<and> test_passes (unsupported_evaluators_test env fl sl orc)"
  by (intro conjI template_lab.template_authorizes_test_passes [OF assms] template_lab.template_fields_test_passes [OF assms]
      template_lab.free_prevouts_test_passes [OF assms] template_lab.no_privilege_test_passes [OF assms]
      template_lab.unavailable_registry_test_passes [OF assms] template_lab.unsupported_evaluators_test_passes [OF assms])

theorem predicate_tests_pass_witness:
  "test_passes (template_authorizes_test sample_session_env sample_fixture_lib sample_spend_fixture_lib sample_test_oracle) \<and>
   test_passes (template_fields_test sample_session_env sample_fixture_lib sample_spend_fixture_lib sample_test_oracle)"
  using predicate_tests_pass [OF sample_templates.template_lab_axioms] by blast

text \<open>C16: the sweep test and the payment test of the repository pass. Under the vault program with a fee limit of 1000 the signer
  signs the sweep of the 10000 satoshi funding that pays 9000 or 10000 to the committed script, and refuses one satoshi
  less, one more, another script and a second output. Under the registered interpreter it signs the committed payment
  at the output the witness selects, also one satoshi higher at the other position, and refuses an index that selects
  another output or none, a witness that is not four bytes long, an underpaid and a redirected payment; the
  refusals leave the signer able to sign the original again.\<close>

theorem value_tests_pass:
  assumes "vault_lab orc vault_env fl sl intent_key tree_meta plain_meta tree_tweak output_maps parser g"
    and "payment_lab orc payment_env fl sl intent_key tree_meta plain_meta tree_tweak output_maps"
  shows "test_passes (sweep_test vault_env fl sl orc) \<and> test_passes (payment_test payment_env fl sl orc)"
  using vault_lab.sweep_test_passed [OF assms(1)] payment_lab.payment_test_passed [OF assms(2)] by (rule conjI)

theorem value_tests_pass_witness:
  "test_passes (sweep_test (sample_spend_env sample_vault_runtime) sample_fixture_lib sample_spend_fixture_lib sample_test_oracle) \<and>
   test_passes (payment_test (sample_spend_env sample_payment_runtime) sample_fixture_lib sample_spend_fixture_lib sample_test_oracle)"
  by (rule value_tests_pass [OF sample_vaults.vault_lab_axioms sample_payments.payment_lab_axioms])

text \<open>C17: the tests of the repository that assemble their own modules pass. A guest whose allocations overlap or leave memory,
  that traps, returns two, declares a start function or imports a foreign function, or burns its fuel while evaluating
  or while allocating is refused with an evaluation error and no session, and afterwards the signer signs a good
  request. The inline V2 guest, run by the host on the V2 view on the key path and on the claim path, accepts exactly the
  authenticated internal key as its witness; a flipped bit, an annex, a finalized input (with the typed error) and
  another signature hash are refused.\<close>

theorem module_tests_pass:
  assumes "adapter_lab orc env fl sl intent_key tree_meta plain_meta tree_tweak output_maps parser imp g wat text_parser decode cost fuel"
    and "inline_lab orc inline_env fl sl intent_key tree_meta plain_meta tree_tweak output_maps inline_wat inline_parser inline_decode
      inline_cost inline_fuel annex_set"
  shows "test_passes (private_adapter_test env fl sl orc wat) \<and> test_passes (inline_v2_test inline_env fl sl orc inline_wat annex_set)"
  using adapter_lab.private_adapter_test_passed [OF assms(1)] inline_lab.inline_v2_test_passed [OF assms(2)] by (rule conjI)

theorem module_tests_pass_witness:
  "test_passes (private_adapter_test (sample_spend_env sample_adapter_runtime) sample_fixture_lib sample_spend_fixture_lib
     sample_test_oracle sample_wat) \<and>
   test_passes (inline_v2_test (sample_spend_env sample_inline_runtime) sample_fixture_lib sample_spend_fixture_lib sample_test_oracle
     (\<lambda>_. Ok (WASM_HEADER @ [11])) sample_annex_set)"
  by (rule module_tests_pass [OF sample_adapters.adapter_lab_axioms sample_inlines.inline_lab_axioms])

end
