(* ===== verification/Spec2Isabelle.thy ===== *)
theory Spec2Isabelle
  imports Router Vault_Client Templatehash_Client Oracle_Client V2_Types Key_Tests Test_Suite
begin

text \<open>
  A verification development of \<open>sapio-tee\<close>, a signing service that runs in a Nitro enclave. The
  service derives one BIP32 root from an attested KMS exchange, publishes an identity for it, and
  releases signature shares of program keys: keys derived from the root and the hash of a program, a
  WASM predicate with parameters that judges each spend before the service signs.

  \<^bold>\<open>Parts of the program and their theories.\<close>

  \<^item> \<open>Prelude\<close>: results with errors and panics, little- and big-endian codecs, checked arithmetic, string
    splitting, and the lemmas and collections (\<open>res_inv\<close>) the components share.
  \<^item> \<open>Bitcoin_Types\<close>: the fields of the Bitcoin and Sapio crates' types that the source reads.
  \<^item> \<open>Session_Store\<close>: the pending-session hash map as a table; the locale \<open>session_store\<close> states
    what the signer relies on and is interpreted on the table operations.
  \<^item> \<open>Native_Policy\<close> (\<open>src/native_policy.rs\<close>): the policy envelope in the program parameters, its parser,
    encoder and the check of ownership proofs.
  \<^item> \<open>Signed_View\<close> (\<open>encode_view\<close> of \<open>src/evaluator.rs\<close>): the byte view of a signing context, with a
    reference decoder as its specification.
  \<^item> \<open>Evaluator\<close> (the rest of \<open>src/evaluator.rs\<close>): module checks, compilation budget, the allocate, copy and
    call protocol with the WASM instance, and \<open>authorize\<close>; the locale \<open>linear_memory\<close> states what the host
    relies on of the memory, interpreted in \<open>Guest\<close> and in \<open>V2_Module\<close>.
  \<^item> \<open>Deployment\<close> (\<open>src/deployment.rs\<close>): constants, evaluator registry and advertised profile.
  \<^item> \<open>Ark_Signer\<close> (\<open>src/ark_signer.rs\<close>): the signer state, \<open>prepare\<close>, \<open>finish\<close>, \<open>cancel\<close>, and \<open>signer_run\<close>,
    the histories of calls from a fresh signer.
  \<^item> \<open>Keys\<close> (\<open>src/keys.rs\<close>): settings, the KMS ARN grammar, the NUMS point, the KMS exchange and the root.
  \<^item> \<open>Nsm\<close> (\<open>src/nsm.rs\<close>): opening the security module and attestation.
  \<^item> \<open>App\<close> (\<open>src/app.rs\<close>): the service state, setup, installation, the signer thread and the HTTP handlers,
    interleaved by \<open>app_step\<close>; \<open>Router\<close> (\<open>build_router\<close>, the end of \<open>run\<close> and \<open>shutdown\<close>): the route table with
    body limits and browser surface, the sixteen permits of each route and the deadline, as \<open>front_step\<close> around the
    handlers.
  \<^item> \<open>Entry\<close> (\<open>src/main.rs\<close> and \<open>examples/support/mod.rs\<close>): command lines of the service and of the clients,
    and the clients' check of the identity file.
  \<^item> \<open>Guest\<close> (\<open>examples/vault/guest.rs\<close>): the arena, argument slices and reader of the example predicates.
  \<^item> \<open>Vault\<close> (\<open>examples/vault/predicate.rs\<close>, \<open>contract.rs\<close>) and \<open>Templatehash\<close>
    (\<open>examples/templatehash/predicate.rs\<close> and the hash functions of its \<open>main.rs\<close>): the two predicates.
  \<^item> \<open>Client\<close>: what the three demonstration clients share, requests, expectations and steps; the locale
    \<open>honest_signer\<close> states what a demonstration relies on of the remote oracle, interpreted on a reference
    oracle that decides by this repository's evaluator, and on one with a registry in \<open>Oracle_Client\<close>.
  \<^item> \<open>Vault_Client\<close> (\<open>examples/vault/main.rs\<close>), \<open>Templatehash_Client\<close> (the rest of \<open>examples/templatehash/main.rs\<close>)
    and \<open>Oracle_Client\<close> (\<open>examples/program_oracle.rs\<close>): the three clients, from the command line to the last step.
  \<^item> \<open>V2_Module\<close> (the WebAssembly text of \<open>examples/program_oracle.rs\<close>): its functions as instruction lists, run by
    a metered stack machine under the host; \<open>V2_Types\<close>: validation of such functions and its soundness.
  \<^item> \<open>Test_Harness\<close>: the repository's own tests as computations on a signer that return, panic or diverge, with
    total-correctness triples; the locale \<open>test_clock\<close> states what the tests rely on of time and randomness.
    \<open>Ownership_Tests\<close> (reservations and native policies), \<open>Spend_Fixture\<close> (\<open>Fixture\<close> and \<open>Prepared\<close>), \<open>Session_Lab\<close> and
    \<open>Session_Tests\<close> (malformed, cancelled, expired, concurrent sessions), \<open>Capacity_Tests\<close> (the full pool), \<open>Spend_Lab\<close> (the
    gate on a spend with a funding proof), \<open>Predicate_Tests\<close>, \<open>Template_Tests\<close> and \<open>Sweep_Tests\<close> (the two example
    predicates), \<open>Payment_Tests\<close> (the registered interpreter), \<open>Test_Module\<close> and \<open>Adapter_Tests\<close> (guests with unsafe
    allocators, traps, foreign imports and fuel-burning loops), \<open>Inline_Module\<close> and \<open>Inline_Tests\<close> (the V2 guest that reads the
    internal key), all of \<open>src/ark_signer.rs\<close>; \<open>Key_Tests\<close> (the tests of \<open>src/keys.rs\<close>). Their locales (\<open>ownership_lab\<close>,
    \<open>musig_lab\<close>, \<open>spend_lab\<close>, \<open>spend_path_lab\<close> and its extensions) state the documented behaviour of the Ark, MuSig and Bitcoin
    crates; \<open>Sample_Lab\<close> interprets them on symbolic cryptography, and \<open>Test_Suite\<close> holds the properties.
  \<^item> this theory: properties that span evaluator, signed view, guest and predicates.

  \<^bold>\<open>How the code is represented.\<close> Structs are records with the source's fields, fallible functions
  return \<open>Ok\<close>, \<open>Err\<close> with the source's message, or \<open>Panic\<close> where the source can panic. Machine integers that
  are computed on at their width are words (\<open>u32\<close>, \<open>u64\<close>, bytes); lengths are naturals, with \<open>checked_add\<close>
  written out. Code outside the repository is a field of a library record (\<open>ark_lib\<close>, \<open>spend_lib\<close>,
  \<open>wasm_runtime\<close>, \<open>keys_lib\<close>, \<open>nsm_lib\<close>, \<open>app_lib\<close>, \<open>front_lib\<close>, \<open>vault_lib\<close>, \<open>template_lib\<close>, \<open>oracle_lib\<close>): the properties hold for every such library, under
  named hypotheses where they rely on one (\<open>outpoint_codec\<close>: an outpoint is 36 bytes; \<open>authenticated\<close>: the
  native context supplies every previous output and a valid index; \<open>evaluator_lib\<close>, \<open>sha_import\<close>,
  \<open>linear_memory\<close>; for the clients \<open>vault_lib_laws\<close>, \<open>template_lib_laws\<close>, \<open>oracle_lib_laws\<close>, and that the remote
  oracle is an \<open>honest_signer\<close> for keys that commit to their programs). Time and randomness are arguments of the operations.

  \<^bold>\<open>What is shown.\<close> The signer releases a share only for a request that passed the whole gate, once per
  session, within its lifetime, and keeps the advertised limits; a spend passes the gate only when the
  instance of the committed program returned one on memory that holds the view of exactly the transaction to be
  signed; the view can be decoded and binds the transaction; the compilation checks accept exactly the modules
  that import the crypto functions of their version with their signatures and stay within the slot budget; the
  enclave starts only with locked, nonzero measurements; the policy envelope fails closed; the published identity, the TCP oracle and the HTTP signer stem from one root derived from the
  named settings; the ARN parser accepts exactly its grammar; the example predicates accept exactly complete
  sweeps and exactly the committed template; the HTTP front only reaches states of the service, bounds
  every route on its own and never leaks a permit or the setup gate. Each of the three demonstrations passes against every oracle that follows the documented
  rule, so each refusal it expects is one the predicates enforce; the inline V2 lock-time module authorizes
  exactly its committed lock time, the trapping and the endless module never, and all of them are well typed.
  The tests of the repository pass in every environment with the documented behaviour, whatever seeds and session
  identifiers are drawn and however the threads of the concurrent tests are scheduled: a released share is
  consumed once, refusals change no session, unsafe guests never become a verdict.

  \<^bold>\<open>Loops and bounds.\<close> The session-id loop of \<open>prepare\<close> is a \<open>partial_function\<close> over the sequence of samples;
  \<open>prepare_returns\<close> shows that 256 distinct samples are enough, because fewer than 256 sessions are pending.
  The NUMS search is a total function on the 32-bit counter. The stack machine consumes one point of fuel per
  instruction and per end of a block; 49 points are enough for the four allocations and the lock-time predicate
  (the service grants 100000000), and the endless module exhausts every budget; a memory fill is charged by a
  parameter, and 1000 points are enough for the inline V2 guest of the tests. Every other loop is structural.

  \<^bold>\<open>Not modelled.\<close> TCP listeners and the asynchronous runtimes as such (their effects on the state are steps of
  \<open>app_step\<close> and \<open>front_step\<close>); response headers; erasure of secrets from memory; the TCP signer of the Sapio
  crate, which the clients see as the parameter \<open>sign\<close>; the contents of the included WASM artifacts of the CTV and
  payment interpreters, which enter by their documented rule; what the clients print. Of the tests: the one of
  mismatched identities, whose refusals are all decided inside the Ark crate; the two JSON rejections of the recovery
  test; the compatibility vector of \<open>src/keys.rs\<close>, a fixed output of the cryptography crates; the stalled-body test of
  \<open>src/app.rs\<close>, which drives sockets (what it checks of the service is \<open>front_refines_app\<close>).
\<close>

section \<open>A program runtime with the vault predicate\<close>

text \<open>A concrete deployment of the vault: inline module, committed parameters, guest runtime.\<close>

definition sample_vault_rt :: "(unit, guest) wasm_runtime" where
  "sample_vault_rt = guest_runtime (\<lambda>_. []) (\<lambda>_. vault_evaluate) sample_guest"

definition sample_vault_program :: program_instance where
  "sample_vault_program = \<lparr>pr_evaluator = [1], pr_program = WASM_HEADER,
     pr_parameters = u64_to_le 1000 @ u32_to_le 2 @ [81, 7]\<rparr>"

section \<open>Lemmas\<close>

lemma sample_vault_budget: "check_compilation_budget sample_vault_rt V1 WASM_HEADER = Ok ()"
  by (simp add: sample_vault_rt_def check_compilation_budget_def)

lemma sample_vault_parameters:
  "vault_parameters 1000 [81, 7] = Ok (pr_parameters sample_vault_program)"
  by (simp add: vault_parameters_eq_Ok sample_vault_program_def)

lemma sample_vault_module: "check_module_bytes WASM_HEADER = Ok ()"
  by (simp add: check_module_bytes_def WASM_HEADER_def MAX_PROGRAM_BYTES_def)

lemma sample_vault_context:
  "validate_psbt sample_spend_lib (si_psbt sample_context) = Ok ()"
  "sighash sample_spend_lib sample_context = Ok [7]"
  "list_get (psbt_inputs (si_psbt sample_context)) (si_input_index sample_context) = Some sample_psbt_input"
  "pi_final_script_sig sample_psbt_input = None" "pi_final_script_witness sample_psbt_input = None"
  "annex_get sample_spend_lib sample_psbt_input = Ok None"
  by (simp_all add: sample_spend_lib_def sample_context_def sample_psbt_input_def)

section \<open>Properties\<close>

text \<open>C3: a spend is authorized only by a run of the committed program on the transaction that will
  be signed. Whenever the gate accepts, over any runtime with a linear memory: the PSBT is valid, its
  input is open and carries no annex, and the signature hash of the context is the message of the
  signing intent; the module is the inline program or the registered interpreter, it passed the
  module checks, and the instance that ran is the one compiled from that very module, with the
  memory, the allocator and the predicate of its ABI version exported and the four regions allocated
  and written in it; and the predicate of that instance returned exactly one when called with
  pointers at which its memory held the selector, the committed parameters, a view that decodes to
  that context, and the caller's witness.\<close>

theorem authorized_spend_evaluated:
  assumes "linear_memory (rt_write rt) rd" and "outpoint_codec (outpoint_encode lib)"
    and "authenticated inp" and "authorize rt lib registry program inp witness message = Ok ()"
  shows "\<exists>metadata m selector version view inputs compiled inst0 inst ranges inst1 inst2 ptrs inst3.
    validate_psbt lib (si_psbt inp) = Ok () \<and> sighash lib inp = Ok message \<and>
    list_get (psbt_inputs (si_psbt inp)) (si_input_index inp) = Some metadata \<and>
    pi_final_script_sig metadata = None \<and> pi_final_script_witness metadata = None \<and>
    annex_get lib metadata = Ok None \<and>
    select_module lib registry program = Ok (m, selector, version) \<and>
    check_module_bytes m = Ok () \<and> check_compilation_budget rt version m = Ok () \<and>
    decode_view version view = Some (view_of (outpoint_encode lib) version inp) \<and>
    inputs = [selector, pr_parameters program, view, witness] \<and>
    rt_module_new rt m = Ok compiled \<and> rt_instance_new rt version compiled = Ok inst0 \<and>
    rt_bind_crypto rt inst0 = Ok inst \<and> rt_get_memory rt inst ''memory'' = Ok () \<and>
    rt_get_alloc rt inst (alloc_name version) = Ok () \<and>
    rt_get_evaluate rt inst (evaluate_name version) = Ok () \<and>
    alloc_all rt (alloc_name version) inst [] inputs = Ok (ranges, inst1) \<and>
    write_all (rt_write rt) inst1 (zip inputs ranges) = Ok inst2 \<and>
    ptrs = map (\<lambda>r. word_of_nat (fst r)) ranges \<and>
    list_all2 (\<lambda>p bs. rd inst2 (unat p) (length bs) = bs) ptrs inputs \<and>
    rt_call_evaluate rt inst2 (evaluate_name version)
      (concat (map (\<lambda>(p, bs). [p, word_of_nat (length bs)]) (zip ptrs inputs))) = (Ok 1, inst3)"
proof -
  from assms(4) obtain m selector version where sel: "select_module lib registry program = Ok (m, selector, version)"
    and ev: "evaluate rt (outpoint_encode lib) version m selector (pr_parameters program) inp witness = Ok True"
    by (auto simp: authorize_eq_Ok)
  from assms(4) obtain metadata where md: "validate_psbt lib (si_psbt inp) = Ok ()" "sighash lib inp = Ok message"
    "list_get (psbt_inputs (si_psbt inp)) (si_input_index inp) = Some metadata"
    "pi_final_script_sig metadata = None" "pi_final_script_witness metadata = None"
    "annex_get lib metadata = Ok None" by (auto simp: authorize_eq_Ok)
  from ev obtain view compiled inst0 inst where v: "encode_view (outpoint_encode lib) version inp = Ok view"
    and made: "rt_module_new rt m = Ok compiled" "rt_instance_new rt version compiled = Ok inst0"
      "rt_bind_crypto rt inst0 = Ok inst" "rt_get_memory rt inst ''memory'' = Ok ()"
      "rt_get_alloc rt inst (alloc_name version) = Ok ()"
      "rt_get_evaluate rt inst (evaluate_name version) = Ok ()"
    and run: "run_guest rt version inst [selector, pr_parameters program, view, witness] = Ok True"
    by (rule evaluate_instance)
  from run_guest_delivers [OF assms(1) run] obtain ranges inst1 inst2 inst3 ptrs where
    "ptrs = map (\<lambda>r. word_of_nat (fst r)) ranges"
    "alloc_all rt (alloc_name version) inst [] [selector, pr_parameters program, view, witness] = Ok (ranges, inst1)"
    "write_all (rt_write rt) inst1 (zip [selector, pr_parameters program, view, witness] ranges) = Ok inst2"
    "rt_call_evaluate rt inst2 (evaluate_name version) (concat (map (\<lambda>(p, bs). [p, word_of_nat (length bs)])
       (zip ptrs [selector, pr_parameters program, view, witness]))) = (Ok 1, inst3)"
    "list_all2 (\<lambda>p bs. rd inst2 (unat p) (length bs) = bs) ptrs [selector, pr_parameters program, view, witness]"
    by auto
  with sel md made evaluate_eq_Ok(1,2) [OF ev] decode_encode_view [OF assms(2,3) v] show ?thesis by blast
qed

theorem authorized_spend_evaluated_witness:
  "authorize sample_vault_rt sample_spend_lib [] sample_vault_program sample_context [] [7] = Ok () \<and>
   (\<exists>m selector version view compiled inst0 inst.
     select_module sample_spend_lib [] sample_vault_program = Ok (m, selector, version) \<and>
     sighash sample_spend_lib sample_context = Ok [7] \<and>
     decode_view version view =
       Some (view_of (outpoint_encode sample_spend_lib) version sample_context) \<and>
     rt_module_new sample_vault_rt m = Ok compiled \<and>
     rt_instance_new sample_vault_rt version compiled = Ok inst0 \<and>
     rt_bind_crypto sample_vault_rt inst0 = Ok inst)"
proof -
  have ev: "evaluate sample_vault_rt sample_enc V1 WASM_HEADER [] (pr_parameters sample_vault_program)
      sample_context [] = Ok True"
  proof -
    have "length (pr_parameters sample_vault_program) \<le> MAX_PARAMETER_BYTES"
      by (simp add: sample_vault_program_def MAX_PARAMETER_BYTES_def)
    then have "vault_evaluate \<lparr>ar_program = [], ar_parameters = pr_parameters sample_vault_program,
        ar_view = sample_view, ar_witness = []\<rparr> = Some True"
      using vault_evaluate_view [OF sample_enc_codec(1) sample_authenticated sample_encode_view
          sample_vault_parameters] by (simp add: sample_vault_sweep)
    then show ?thesis
      using evaluate_pure_guest [OF sample_guest_fresh sample_vault_module
          sample_vault_budget [unfolded sample_vault_rt_def], of "[]" "pr_parameters sample_vault_program"
          "[]" sample_enc sample_context sample_view] sample_enc_codec(1) sample_authenticated
        sample_encode_view
      by (simp add: sample_vault_rt_def sample_vault_program_def MAX_PARAMETER_BYTES_def)
  qed
  have auth: "authorize sample_vault_rt sample_spend_lib [] sample_vault_program sample_context [] [7] = Ok ()"
    using ev sample_vault_context
    by (simp add: authorize_eq_Ok select_module_def)
      (simp add: sample_spend_lib_def sample_vault_program_def)
  have "linear_memory (rt_write sample_vault_rt) mem_get"
    by (simp add: sample_vault_rt_def lm.linear_memory_axioms)
  moreover have "outpoint_codec (outpoint_encode sample_spend_lib)"
    by (simp add: sample_spend_lib_def sample_enc_codec)
  ultimately show ?thesis
    using authorized_spend_evaluated [OF _ _ sample_authenticated auth] auth by blast
qed

text \<open>C7: the deployed vault behaves as its policy says, through the whole host path. For a program
  that commits the vault module inline with the constructor's parameters, and an open, annex-free
  context whose hash is the intent's message, the gate accepts exactly the complete sweeps and
  reports every other spend as rejected.\<close>

theorem authorize_vault:
  assumes "fresh_guest g" and "rt = guest_runtime parser (\<lambda>_. vault_evaluate) g"
    and "inline_wasm_version lib (pr_evaluator program) = Some V1"
    and "check_module_bytes (pr_program program) = Ok ()"
    and "check_compilation_budget rt V1 (pr_program program) = Ok ()"
    and "vault_parameters max_fee destination = Ok (pr_parameters program)"
    and "length (pr_parameters program) \<le> MAX_PARAMETER_BYTES"
    and "outpoint_codec (outpoint_encode lib)" and "authenticated inp"
    and "encode_view (outpoint_encode lib) V1 inp = Ok view"
    and "validate_psbt lib (si_psbt inp) = Ok ()" and "sighash lib inp = Ok message"
    and "list_get (psbt_inputs (si_psbt inp)) (si_input_index inp) = Some metadata"
    and "pi_final_script_sig metadata = None" "pi_final_script_witness metadata = None"
    and "annex_get lib metadata = Ok None"
  shows "authorize rt lib registry program inp [] message =
    (if complete_sweep max_fee destination inp then Ok () else Err (Program Rejected))"
proof -
  have "evaluate rt (outpoint_encode lib) V1 (pr_program program) [] (pr_parameters program) inp [] =
      Ok (complete_sweep max_fee destination inp)"
    unfolding assms(2)
    using evaluate_pure_guest [OF assms(1,4) assms(5) [unfolded assms(2)], of "[]" "pr_parameters program"
        "[]", OF _ assms(7) _ assms(8-10)] vault_evaluate_view [OF assms(8-10,6,7)]
    by simp
  with assms(3,11-16) show ?thesis
    by (simp add: authorize_def select_module_def del: list_get_eq_Some)
qed

theorem authorize_vault_witness:
  "authorize sample_vault_rt sample_spend_lib [] sample_vault_program sample_context [] [7] =
     (if complete_sweep 1000 [81, 7] sample_context then Ok () else Err (Program Rejected))"
proof (rule authorize_vault [OF sample_guest_fresh sample_vault_rt_def])
  show "inline_wasm_version sample_spend_lib (pr_evaluator sample_vault_program) = Some V1"
    by (simp add: sample_spend_lib_def sample_vault_program_def)
  show "check_module_bytes (pr_program sample_vault_program) = Ok ()"
    "check_compilation_budget sample_vault_rt V1 (pr_program sample_vault_program) = Ok ()"
    by (simp_all add: sample_vault_program_def sample_vault_module sample_vault_budget)
  show "length (pr_parameters sample_vault_program) \<le> MAX_PARAMETER_BYTES"
    by (simp add: sample_vault_program_def MAX_PARAMETER_BYTES_def)
  show "outpoint_codec (outpoint_encode sample_spend_lib)"
    "encode_view (outpoint_encode sample_spend_lib) V1 sample_context = Ok sample_view"
    by (simp_all add: sample_spend_lib_def sample_enc_codec sample_encode_view)
qed (rule sample_vault_parameters sample_authenticated sample_vault_context)+

end
